(* ===== verification/Prelude.thy ===== *)
theory Prelude
  imports Main "HOL-Library.Word" "HOL-Library.Product_Lexorder" "HOL-Library.Monad_Syntax"
begin

text \<open>
  Shared vocabulary of the development: the fixed-width arithmetic the Rust sources use on
  \<open>u16\<close>, \<open>u32\<close>, \<open>i32\<close> and \<open>i64\<close> values (kept as \<open>nat\<close>/\<open>int\<close> with the wrap-around, saturation or
  check written out), the \<open>Vec\<close> operations that shift elements, the ordered-map view of
  \<open>BTreeMap\<close>, and two interface locales used by several components: machines whose
  operations never panic and keep an invariant, and stream scanners that lose no byte.
\<close>

named_theorems ops \<open>definitions of the operations of the component under proof\<close>
named_theorems fixed_width \<open>definitions of the fixed-width arithmetic\<close>

type_synonym byte = "8 word"
type_synonym bytes = "8 word list"

text \<open>Unicode scalar values (\<open>char\<close> in Rust), as code points.\<close>

type_synonym uchar = nat

text \<open>Byte literals and the decimal form \<open>format!\<close> gives a number.\<close>

definition ascii :: "string \<Rightarrow> bytes" where "ascii s = map of_char s"

definition esc :: byte where "esc = 27"

fun decimal :: "nat \<Rightarrow> bytes" where
  "decimal n = (if n < 10 then [of_nat (48 + n)] else decimal (n div 10) @ [of_nat (48 + n mod 10)])"

declare decimal.simps [simp del]

section \<open>Fixed-width arithmetic\<close>

definition u16_max :: nat where "u16_max = 65535"

text \<open>The plain \<open>+\<close> on \<open>u16\<close> in a release build; a debug build stops where it wraps.\<close>

definition add16 :: "nat \<Rightarrow> nat \<Rightarrow> nat" where
  [fixed_width]: "add16 a b = (a + b) mod 65536"

text \<open>\<open>u16::saturating_add\<close>; \<open>saturating_sub\<close> is subtraction on \<open>nat\<close>.\<close>

definition sat_add16 :: "nat \<Rightarrow> nat \<Rightarrow> nat" where
  [fixed_width]: "sat_add16 a b = min 65535 (a + b)"

definition sat_add32 :: "nat \<Rightarrow> nat \<Rightarrow> nat" where
  [fixed_width]: "sat_add32 a b = min 4294967295 (a + b)"

definition mul32 :: "nat \<Rightarrow> nat \<Rightarrow> nat" where
  [fixed_width]: "mul32 a b = (a * b) mod 4294967296"

definition sat_add64 :: "nat \<Rightarrow> nat \<Rightarrow> nat" where
  [fixed_width]: "sat_add64 a b = min 18446744073709551615 (a + b)"

definition wrapping_inc64 :: "nat \<Rightarrow> nat" where
  [fixed_width]: "wrapping_inc64 a = (a + 1) mod 18446744073709551616"

definition wrapping_add64 :: "nat \<Rightarrow> nat \<Rightarrow> nat" where
  [fixed_width]: "wrapping_add64 a b = (a + b) mod 18446744073709551616"

definition i64_min :: int where "i64_min = - 9223372036854775808"
definition i64_max :: int where "i64_max = 9223372036854775807"

text \<open>\<open>i64::checked_add\<close> and its kin: the exact result, or \<open>None\<close> outside the range.\<close>

definition checked64 :: "int \<Rightarrow> int option" where
  [fixed_width]: "checked64 z =
     (if - 9223372036854775808 \<le> z \<and> z \<le> 9223372036854775807 then Some z else None)"

text \<open>\<open>i32::saturating_add\<close>.\<close>

definition sat_add_i32 :: "int \<Rightarrow> int \<Rightarrow> int" where
  [fixed_width]: "sat_add_i32 a b = max (- 2147483648) (min 2147483647 (a + b))"

text \<open>\<open>Ord::clamp\<close>, which panics (\<open>None\<close>) unless the bounds are ordered.\<close>

definition clamp :: "'a::linorder \<Rightarrow> 'a \<Rightarrow> 'a \<Rightarrow> 'a option" where
  "clamp v lo hi = (if lo \<le> hi then Some (max lo (min v hi)) else None)"

text \<open>The value of a \<open>clamp\<close> whose bounds are ordered by construction.\<close>

definition clamp_val :: "'a::linorder \<Rightarrow> 'a \<Rightarrow> 'a \<Rightarrow> 'a" where
  "clamp_val v lo hi = max lo (min v hi)"

lemma clamp_eq_val: "lo \<le> hi \<Longrightarrow> clamp v lo hi = Some (clamp_val v lo hi)"
  by (simp add: clamp_def clamp_val_def)

lemma clamp_val_bounds:
  fixes lo :: "'a::linorder"
  shows "lo \<le> hi \<Longrightarrow> lo \<le> clamp_val v lo hi" and "lo \<le> hi \<Longrightarrow> clamp_val v lo hi \<le> hi"
  by (auto simp: clamp_val_def)

lemma clamp_val_id: "lo \<le> v \<Longrightarrow> v \<le> hi \<Longrightarrow> clamp_val v lo hi = v"
  by (simp add: clamp_val_def)

lemma clamp_Some_iff:
  "clamp v lo hi = Some w \<longleftrightarrow> lo \<le> hi \<and> w = max lo (min v hi)"
  by (auto simp: clamp_def)

section \<open>Vectors\<close>

definition insert_at :: "nat \<Rightarrow> 'a \<Rightarrow> 'a list \<Rightarrow> 'a list" where
  "insert_at i v xs = take i xs @ v # drop i xs"

definition remove_at :: "nat \<Rightarrow> 'a list \<Rightarrow> 'a list" where
  "remove_at i xs = take i xs @ drop (Suc i) xs"

text \<open>\<open>Iterator::position\<close>: the least index whose element satisfies the predicate.\<close>

fun position :: "('a \<Rightarrow> bool) \<Rightarrow> 'a list \<Rightarrow> nat option" where
  "position p [] = None"
| "position p (v # vs) = (if p v then Some 0 else map_option Suc (position p vs))"

text \<open>\<open>Iterator::min\<close> over keys with a total order.\<close>

fun iter_min :: "'a::linorder list \<Rightarrow> 'a option" where
  "iter_min [] = None"
| "iter_min (v # vs) = Some (fold min vs v)"

text \<open>\<open>str::split\<close> on a separator.\<close>

fun split_on :: "'a \<Rightarrow> 'a list \<Rightarrow> 'a list list" where
  "split_on s [] = [[]]"
| "split_on s (b # bs) =
     (if b = s then [] # split_on s bs
      else case split_on s bs of [] \<Rightarrow> [[b]] | w # ws \<Rightarrow> (b # w) # ws)"

lemma length_insert_at [simp]: "i \<le> length xs \<Longrightarrow> length (insert_at i v xs) = Suc (length xs)"
  by (simp add: insert_at_def)

lemma length_remove_at [simp]: "i < length xs \<Longrightarrow> length (remove_at i xs) = length xs - 1"
  by (simp add: remove_at_def)

lemma set_insert_at: "set (insert_at i v xs) = insert v (set xs)"
proof -
  have "set xs = set (take i xs) \<union> set (drop i xs)"
    by (metis append_take_drop_id set_append)
  then show ?thesis by (auto simp: insert_at_def)
qed

lemma set_remove_at: "set (remove_at i xs) \<subseteq> set xs"
  by (auto simp: remove_at_def dest: in_set_takeD in_set_dropD)

lemma map_insert_at: "map f (insert_at i v xs) = insert_at i (f v) (map f xs)"
  by (simp add: insert_at_def take_map drop_map)

lemma map_remove_at: "map f (remove_at i xs) = remove_at i (map f xs)"
  by (simp add: remove_at_def take_map drop_map)

lemma remove_at_split: "i < length xs \<Longrightarrow> xs = take i xs @ xs ! i # drop (Suc i) xs"
  by (rule id_take_nth_drop)

lemma position_SomeD:
  "position p xs = Some i \<Longrightarrow> i < length xs \<and> p (xs ! i) \<and> (\<forall>j<i. \<not> p (xs ! j))"
proof (induction xs arbitrary: i)
  case Nil
  then show ?case by simp
next
  case (Cons v vs)
  show ?case
  proof (cases "p v")
    case True
    with Cons.prems show ?thesis by simp
  next
    case False
    with Cons.prems obtain k where "position p vs = Some k" and "i = Suc k" by auto
    with False Cons.IH[of k] show ?thesis by (auto simp: less_Suc_eq_0_disj)
  qed
qed

lemma position_None_iff: "position p xs = None \<longleftrightarrow> (\<forall>v\<in>set xs. \<not> p v)"
  by (induction xs) auto

lemma position_append_first:
  "\<forall>v\<in>set xs. \<not> p v \<Longrightarrow> p w \<Longrightarrow> position p (xs @ w # ys) = Some (length xs)"
  by (induction xs) auto

lemma position_append_skip:
  "\<forall>v\<in>set xs. \<not> p v \<Longrightarrow> position p (xs @ ys) = map_option ((+) (length xs)) (position p ys)"
proof (induction xs)
  case Nil
  then show ?case by (cases "position p ys") auto
next
  case (Cons v vs)
  then show ?case by (cases "position p ys") auto
qed

lemma find_position: "List.find p xs = map_option ((!) xs) (position p xs)"
proof (induction xs)
  case (Cons v vs)
  then show ?case by (cases "position p vs") auto
qed simp

lemma find_Some_in: "List.find p xs = Some v \<Longrightarrow> v \<in> set xs \<and> p v"
  by (auto simp: find_Some_iff)

lemma fold_min_in: "fold min vs v \<in> insert v (set vs)" for v :: "'a::linorder"
proof (induction vs arbitrary: v)
  case (Cons w ws)
  then show ?case using Cons.IH[of "min w v"] by (auto simp: min_def split: if_splits)
qed simp

lemma fold_min_le: "w \<in> insert v (set vs) \<Longrightarrow> fold min vs v \<le> w" for v :: "'a::linorder"
proof (induction vs arbitrary: v w)
  case (Cons u us)
  have "fold min us (min u v) \<le> min u v" by (rule Cons.IH) simp
  with Cons show ?case by (auto intro: order_trans)
qed simp

lemma iter_min_None [simp]: "iter_min xs = None \<longleftrightarrow> xs = []"
  by (cases xs) auto

lemma iter_min_SomeD:
  "iter_min xs = Some m \<Longrightarrow> m \<in> set xs \<and> (\<forall>v\<in>set xs. m \<le> v)" for m :: "'a::linorder"
  by (cases xs) (use fold_min_in fold_min_le in fastforce)+

section \<open>Ordered maps\<close>

text \<open>A \<open>BTreeMap\<close> is its entries in ascending key order.\<close>

fun bt_insert :: "'k::linorder \<Rightarrow> 'v \<Rightarrow> ('k \<times> 'v) list \<Rightarrow> ('k \<times> 'v) list" where
  "bt_insert k v [] = [(k, v)]"
| "bt_insert k v ((k', v') # m) =
     (if k < k' then (k, v) # (k', v') # m
      else if k = k' then (k, v) # m
      else (k', v') # bt_insert k v m)"

definition bt_wf :: "('k::linorder \<times> 'v) list \<Rightarrow> bool" where
  "bt_wf m \<longleftrightarrow> sorted_wrt (<) (map fst m)"

lemma bt_insert_keys: "set (map fst (bt_insert k v m)) = insert k (set (map fst m))"
  by (induction k v m rule: bt_insert.induct) (auto simp del: list.set_map)

lemma bt_insert_wf: "bt_wf m \<Longrightarrow> bt_wf (bt_insert k v m)"
proof (induction m)
  case Nil
  then show ?case by (simp add: bt_wf_def)
next
  case (Cons e m)
  obtain k' v' where e: "e = (k', v')" by (cases e)
  from Cons.prems have tl: "bt_wf m" and hd: "\<forall>j\<in>set (map fst m). k' < j"
    by (auto simp: bt_wf_def e)
  from Cons.IH[OF tl] have IH: "sorted_wrt (<) (map fst (bt_insert k v m))"
    by (simp add: bt_wf_def)
  show ?case
    using Cons.prems IH hd bt_insert_keys[of k v m] unfolding bt_wf_def e
    by (auto simp del: list.set_map)
qed

lemma bt_insert_map_of: "bt_wf m \<Longrightarrow> map_of (bt_insert k v m) = (map_of m)(k \<mapsto> v)"
proof (induction m)
  case Nil
  then show ?case by simp
next
  case (Cons e m)
  obtain k' v' where e: "e = (k', v')" by (cases e)
  from Cons.prems have tl: "bt_wf m" by (auto simp: bt_wf_def)
  have "map_of m j = None" if "k < k'" "j \<le> k" for j
  proof -
    have "j \<notin> set (map fst m)" using Cons.prems that by (auto simp: bt_wf_def e)
    then show ?thesis by (simp add: map_of_eq_None_iff)
  qed
  with Cons.IH[OF tl] show ?case
    by (auto simp: e fun_eq_iff)
qed

lemma bt_wf_Nil [simp]: "bt_wf []"
  by (simp add: bt_wf_def)

lemma bt_wf_distinct: "bt_wf m \<Longrightarrow> distinct (map fst m)"
  unfolding bt_wf_def by (simp add: strict_sorted_iff)

section \<open>Interfaces shared by the components\<close>

text \<open>
  Operations that may panic return \<open>None\<close> where the Rust code would stop. A run is a
  sequence of operations.
\<close>

fun run_ops :: "('op \<Rightarrow> 's \<Rightarrow> 's option) \<Rightarrow> 'op list \<Rightarrow> 's \<Rightarrow> 's option" where
  "run_ops step [] s = Some s"
| "run_ops step (e # es) s = (case step e s of None \<Rightarrow> None | Some s' \<Rightarrow> run_ops step es s')"

lemma run_ops_append:
  "run_ops step (xs @ ys) s = Option.bind (run_ops step xs s) (run_ops step ys)"
  by (induction xs arbitrary: s) (auto split: option.splits)

text \<open>
  Which operations a caller may issue can depend on the state they meet; a run is admissible
  when each of its operations is.
\<close>

fun admissible :: "('op \<Rightarrow> 's \<Rightarrow> 's option) \<Rightarrow> ('s \<Rightarrow> 'op \<Rightarrow> bool) \<Rightarrow> 'op list \<Rightarrow> 's \<Rightarrow> bool" where
  "admissible step ok [] s = True"
| "admissible step ok (e # es) s =
     (ok s e \<and> (case step e s of None \<Rightarrow> True | Some s' \<Rightarrow> admissible step ok es s'))"

text \<open>
  A machine that is safe: from every state of the invariant, every admissible operation
  returns (no panic) in a state of the invariant.
\<close>

locale safe_machine =
  fixes step :: "'op \<Rightarrow> 's \<Rightarrow> 's option"
    and inv :: "'s \<Rightarrow> bool"
    and ok :: "'s \<Rightarrow> 'op \<Rightarrow> bool"
  assumes step_safe: "inv s \<Longrightarrow> ok s e \<Longrightarrow> \<exists>s'. step e s = Some s' \<and> inv s'"
begin

lemma run_safe:
  "inv s \<Longrightarrow> admissible step ok es s \<Longrightarrow> \<exists>s'. run_ops step es s = Some s' \<and> inv s'"
proof (induction es arbitrary: s)
  case Nil
  then show ?case by simp
next
  case (Cons e es)
  from Cons.prems have "inv s" and "ok s e" by simp_all
  then obtain s' where s': "step e s = Some s'" "inv s'"
    using step_safe by blast
  with Cons.prems have "admissible step ok es s'" by simp
  with Cons.IH[of s'] s' show ?case by simp
qed

lemma run_invariant: "inv s \<Longrightarrow> admissible step ok es s \<Longrightarrow> run_ops step es s = Some s' \<Longrightarrow> inv s'"
  using run_safe by fastforce

end

text \<open>
  A stream scanner: \<open>push\<close> consumes one fragment and emits items, \<open>held\<close> is the text it keeps
  back, \<open>spells\<close> says which bytes an item may stand for, \<open>ok\<close> and \<open>legal\<close> restrict states and input. When one push neither loses nor invents
  a byte, no sequence of pushes does.
\<close>

fun push_all :: "('s \<Rightarrow> 'b list \<Rightarrow> 'o list \<times> 's) \<Rightarrow> 's \<Rightarrow> 'b list list \<Rightarrow> 'o list \<times> 's" where
  "push_all push s [] = ([], s)"
| "push_all push s (f # fs) =
     (let (out, s') = push s f; (outs, s'') = push_all push s' fs in (out @ outs, s''))"

locale lossless_scanner =
  fixes push :: "'s \<Rightarrow> 'b list \<Rightarrow> 'o list \<times> 's"
    and spells :: "'o \<Rightarrow> 'b list \<Rightarrow> bool"
    and held :: "'s \<Rightarrow> 'b list"
    and ok :: "'s \<Rightarrow> bool"
    and legal :: "'b \<Rightarrow> bool"
  assumes push_lossless:
    "ok s \<Longrightarrow> list_all legal f \<Longrightarrow> push s f = (out, s') \<Longrightarrow>
       ok s' \<and> (\<exists>parts. list_all2 spells out parts \<and> concat parts @ held s' = held s @ f)"
begin

lemma push_all_lossless:
  "ok s \<Longrightarrow> list_all (list_all legal) fs \<Longrightarrow> push_all push s fs = (out, s') \<Longrightarrow>
     ok s' \<and> (\<exists>parts. list_all2 spells out parts \<and> concat parts @ held s' = held s @ concat fs)"
proof (induction fs arbitrary: s out s')
  case Nil
  then show ?case by simp
next
  case (Cons f fs)
  obtain o1 s1 where p: "push s f = (o1, s1)" by fastforce
  obtain o2 s2 where q: "push_all push s1 fs = (o2, s2)" by fastforce
  from Cons.prems p q have out: "out = o1 @ o2" "s' = s2" by auto
  from push_lossless[OF _ _ p] Cons.prems obtain p1 where p1: "list_all2 spells o1 p1"
    "concat p1 @ held s1 = held s @ f" "ok s1" by auto
  from Cons.IH[OF p1(3) _ q] Cons.prems obtain p2 where p2: "list_all2 spells o2 p2"
    "concat p2 @ held s2 = held s1 @ concat fs" "ok s2" by auto
  have "concat (p1 @ p2) @ held s2 = held s @ concat (f # fs)"
    using p1(2) p2(2) by (metis append.assoc concat.simps(2) concat_append)
  with p1(1) p2(1,3) out show ?case by (blast intro: list_all2_appendI)
qed

end

text \<open>
  A scanner whose output, read as a stream of atoms, is the same for one push of a joined text as
  for two pushes of its parts: then it is the same for every fragmentation.
\<close>

locale fragment_free =
  fixes push :: "'s \<Rightarrow> 'b list \<Rightarrow> 'o list \<times> 's"
    and atoms :: "'o list \<Rightarrow> 'a list"
    and ready :: "'s \<Rightarrow> bool"
  assumes atoms_append: "atoms (xs @ ys) = atoms xs @ atoms ys"
    and push_nil: "ready s \<Longrightarrow> push s [] = (out, s') \<Longrightarrow> atoms out = [] \<and> s' = s"
    and push_ready: "ready s \<Longrightarrow> push s f = (out, s') \<Longrightarrow> ready s'"
    and push_join: "ready s \<Longrightarrow> push s f = (o1, s1) \<Longrightarrow> push s1 g = (o2, s2) \<Longrightarrow>
      \<exists>out. push s (f @ g) = (out, s2) \<and> atoms out = atoms o1 @ atoms o2"
begin

lemma push_all_joined:
  "ready s \<Longrightarrow> push_all push s fs = (out, s') \<Longrightarrow>
     \<exists>out'. push s (concat fs) = (out', s') \<and> atoms out' = atoms out"
proof (induction fs arbitrary: s out s')
  case Nil
  then show ?case
    using push_nil[of s "fst (push s [])" "snd (push s [])"] atoms_append[of "[]" "[]"]
    by (cases "push s []") auto
next
  case (Cons f fs)
  obtain o1 s1 where p: "push s f = (o1, s1)" by fastforce
  obtain o2 s2 where q: "push_all push s1 fs = (o2, s2)" by fastforce
  from Cons.prems p q have out: "out = o1 @ o2" "s' = s2" by auto
  from Cons.IH[OF push_ready[OF Cons.prems(1) p] q] obtain o2' where
    o2: "push s1 (concat fs) = (o2', s2)" "atoms o2' = atoms o2" by blast
  from push_join[OF Cons.prems(1) p o2(1)] o2(2) out show ?case
    by (auto simp: atoms_append)
qed

lemma fragmentation_irrelevant:
  assumes "ready s" and "concat fs = concat gs"
    and "push_all push s fs = (out, s')" and "push_all push s gs = (out', s'')"
  shows "atoms out = atoms out' \<and> s' = s''"
  using push_all_joined[OF assms(1,3)] push_all_joined[OF assms(1,4)] assms(2) by auto

end

end
