(* ===== verification/Geometry.thy ===== *)
theory Geometry
  imports Prelude
begin

text \<open>
  Cell rectangles and directional focus (\<open>src/src/layout.rs\<close>, lines 1 to 111): the
  \<open>Rect\<close> type with its frame arithmetic, the paint-ordered pane projections every consumer
  of the layout shares, and the ranking that picks the pane a focus key moves to. Coordinates
  are \<open>u16\<close> values kept as \<open>nat\<close>; the plain \<open>+\<close> of the source is \<open>add16\<close>, its saturating
  forms are \<open>sat_add16\<close> and subtraction on \<open>nat\<close>.
\<close>

section \<open>Rectangles\<close>

type_synonym pane_id = nat

datatype axis = Vertical | Horizontal

datatype direction = DLeft | DRight | DUp | DDown

definition min_content_columns :: nat where "min_content_columns = 4"
definition min_content_rows :: nat where "min_content_rows = 2"
definition frame_columns :: nat where "frame_columns = 2"
definition frame_rows :: nat where "frame_rows = 2"

lemmas layout_consts =
  min_content_columns_def min_content_rows_def frame_columns_def frame_rows_def

record rect =
  rect_x :: nat
  rect_y :: nat
  rect_width :: nat
  rect_height :: nat

text \<open>Every field is a \<open>u16\<close> and the far edges do not wrap.\<close>

definition rect_ok :: "rect \<Rightarrow> bool" where
  "rect_ok r \<longleftrightarrow> rect_x r + rect_width r \<le> 65535 \<and> rect_y r + rect_height r \<le> 65535"

text \<open>A display or pane area: it also has at least one cell.\<close>

definition area_ok :: "rect \<Rightarrow> bool" where
  "area_ok a \<longleftrightarrow> rect_ok a \<and> 1 \<le> rect_width a \<and> 1 \<le> rect_height a"

definition content :: "rect \<Rightarrow> rect" where
  "content r =
     \<lparr>rect_x = sat_add16 (rect_x r) 1, rect_y = sat_add16 (rect_y r) 1,
      rect_width = rect_width r - frame_columns, rect_height = rect_height r - frame_rows\<rparr>"

definition rect_contains :: "rect \<Rightarrow> nat \<Rightarrow> nat \<Rightarrow> bool" where
  "rect_contains r px py \<longleftrightarrow>
     rect_x r \<le> px \<and> px < add16 (rect_x r) (rect_width r) \<and>
     rect_y r \<le> py \<and> py < add16 (rect_y r) (rect_height r)"

definition center :: "rect \<Rightarrow> int \<times> int" where
  "center r = (int (rect_x r) * 2 + int (rect_width r), int (rect_y r) * 2 + int (rect_height r))"

text \<open>The area a rectangle covers and containment between rectangles, as the theorems state them.\<close>

definition inside :: "rect \<Rightarrow> rect \<Rightarrow> bool" where
  "inside r a \<longleftrightarrow>
     rect_x a \<le> rect_x r \<and> rect_x r + rect_width r \<le> rect_x a + rect_width a \<and>
     rect_y a \<le> rect_y r \<and> rect_y r + rect_height r \<le> rect_y a + rect_height a"

lemma add16_ok [simp]: "a + b \<le> 65535 \<Longrightarrow> add16 a b = a + b"
  by (simp add: add16_def)

lemma sat_add16_ok [simp]: "a + b \<le> 65535 \<Longrightarrow> sat_add16 a b = a + b"
  by (simp add: sat_add16_def)

lemma rect_contains_ok:
  "rect_ok r \<Longrightarrow> rect_contains r px py \<longleftrightarrow>
     rect_x r \<le> px \<and> px < rect_x r + rect_width r \<and> rect_y r \<le> py \<and> py < rect_y r + rect_height r"
  by (simp add: rect_contains_def rect_ok_def)

lemma inside_refl [simp]: "inside r r"
  by (simp add: inside_def)

lemma inside_trans: "inside r s \<Longrightarrow> inside s t \<Longrightarrow> inside r t"
  by (auto simp: inside_def)

lemma inside_contains:
  "inside r a \<Longrightarrow> rect_ok a \<Longrightarrow> rect_contains r px py \<Longrightarrow> rect_contains a px py"
  by (auto simp: inside_def rect_ok_def rect_contains_def)

lemma inside_ok: "inside r a \<Longrightarrow> rect_ok a \<Longrightarrow> rect_ok r"
  by (auto simp: inside_def rect_ok_def)

text \<open>The content of a framed pane lies strictly within its frame.\<close>

lemma content_inside:
  assumes "rect_ok r" and "2 \<le> rect_width r" and "2 \<le> rect_height r"
  shows "inside (content r) r"
  using assms by (auto simp: inside_def content_def rect_ok_def layout_consts)

section \<open>Pane projections and directional focus\<close>

datatype pane_layer = Tiled | Floating | Pinned

record pane_projection =
  proj_pane :: pane_id
  proj_outer :: rect
  proj_content :: rect
  proj_layer :: pane_layer
  proj_focused :: bool

definition span_overlap :: "nat \<Rightarrow> nat \<Rightarrow> nat \<Rightarrow> nat \<Rightarrow> nat" where
  "span_overlap a_start a_len b_start b_len =
     (let start = max a_start b_start;
          fin = min (add16 a_start a_len) (add16 b_start b_len)
      in fin - start)"

definition in_half_plane :: "direction \<Rightarrow> rect \<Rightarrow> rect \<Rightarrow> bool" where
  "in_half_plane d current r =
     (let (cx, cy) = center current; (px, py) = center r
      in case d of DLeft \<Rightarrow> px < cx | DRight \<Rightarrow> px > cx | DUp \<Rightarrow> py < cy | DDown \<Rightarrow> py > cy)"

definition edge_distance :: "direction \<Rightarrow> rect \<Rightarrow> rect \<Rightarrow> int" where
  "edge_distance d current r =
     (case d of
        DLeft \<Rightarrow> int (rect_x current) - int (add16 (rect_x r) (rect_width r))
      | DRight \<Rightarrow> int (rect_x r) - int (add16 (rect_x current) (rect_width current))
      | DUp \<Rightarrow> int (rect_y current) - int (add16 (rect_y r) (rect_height r))
      | DDown \<Rightarrow> int (rect_y r) - int (add16 (rect_y current) (rect_height current)))"

definition focus_overlap :: "direction \<Rightarrow> rect \<Rightarrow> rect \<Rightarrow> nat" where
  "focus_overlap d current r =
     (case d of
        DLeft \<Rightarrow> span_overlap (rect_y current) (rect_height current) (rect_y r) (rect_height r)
      | DRight \<Rightarrow> span_overlap (rect_y current) (rect_height current) (rect_y r) (rect_height r)
      | DUp \<Rightarrow> span_overlap (rect_x current) (rect_width current) (rect_x r) (rect_width r)
      | DDown \<Rightarrow> span_overlap (rect_x current) (rect_width current) (rect_x r) (rect_width r))"

text \<open>
  The ranking key: forward edge distance, then descending overlap (\<open>std::cmp::Reverse\<close>, the
  negated overlap here), then ascending pane id, compared lexicographically.
\<close>

definition focus_key :: "direction \<Rightarrow> rect \<Rightarrow> pane_projection \<Rightarrow> int \<times> int \<times> nat" where
  "focus_key d current p =
     (edge_distance d current (proj_outer p), - int (focus_overlap d current (proj_outer p)),
      proj_pane p)"

definition focus_candidates ::
    "pane_projection list \<Rightarrow> pane_id \<Rightarrow> direction \<Rightarrow> rect \<Rightarrow> pane_projection list" where
  "focus_candidates ps focused d current =
     filter (\<lambda>p. proj_pane p \<noteq> focused \<and> in_half_plane d current (proj_outer p)) ps"

definition directional_focus ::
    "pane_projection list \<Rightarrow> pane_id \<Rightarrow> direction \<Rightarrow> pane_id option" where
  "directional_focus ps focused d =
     (case List.find (\<lambda>p. proj_pane p = focused) ps of
        None \<Rightarrow> None
      | Some cur \<Rightarrow>
          map_option (\<lambda>(_, _, pane). pane)
            (iter_min (map (focus_key d (proj_outer cur))
               (focus_candidates ps focused d (proj_outer cur)))))"

text \<open>
  What the ranking returns: a pane other than the focused one, strictly in the requested half
  plane, whose key no other candidate beats.
\<close>

lemma directional_focus_SomeD:
  assumes "directional_focus ps focused d = Some n"
  obtains cur p where "cur \<in> set ps" and "proj_pane cur = focused" and "p \<in> set ps"
    and "proj_pane p = n" and "n \<noteq> focused"
    and "in_half_plane d (proj_outer cur) (proj_outer p)"
    and "\<And>q. q \<in> set ps \<Longrightarrow> proj_pane q \<noteq> focused \<Longrightarrow>
          in_half_plane d (proj_outer cur) (proj_outer q) \<Longrightarrow>
          focus_key d (proj_outer cur) p \<le> focus_key d (proj_outer cur) q"
proof -
  from assms obtain cur where cur: "List.find (\<lambda>p. proj_pane p = focused) ps = Some cur"
    by (auto simp: directional_focus_def split: option.splits)
  let ?c = "focus_candidates ps focused d (proj_outer cur)"
  let ?k = "focus_key d (proj_outer cur)"
  from assms cur obtain m where m: "iter_min (map ?k ?c) = Some m" and n: "snd (snd m) = n"
    by (auto simp: directional_focus_def split: prod.splits)
  from iter_min_SomeD[OF m] obtain p where p: "p \<in> set ?c" "m = ?k p"
    and least: "\<forall>q\<in>set ?c. ?k p \<le> ?k q" by auto
  from p n have pn: "proj_pane p = n" by (simp add: focus_key_def)
  show ?thesis
  proof (rule that)
    show "cur \<in> set ps" and "proj_pane cur = focused" using find_Some_in[OF cur] by auto
    show "p \<in> set ps" and "proj_pane p = n" and "n \<noteq> focused"
      and "in_half_plane d (proj_outer cur) (proj_outer p)"
      using p(1) pn by (auto simp: focus_candidates_def)
    show "?k p \<le> ?k q" if "q \<in> set ps" "proj_pane q \<noteq> focused"
      "in_half_plane d (proj_outer cur) (proj_outer q)" for q
      using least that by (auto simp: focus_candidates_def)
  qed
qed

lemma directional_focus_None_iff:
  "directional_focus ps focused d = None \<longleftrightarrow>
     (\<forall>cur. List.find (\<lambda>p. proj_pane p = focused) ps = Some cur \<longrightarrow>
        (\<forall>q\<in>set ps. proj_pane q \<noteq> focused \<longrightarrow>
           \<not> in_half_plane d (proj_outer cur) (proj_outer q)))"
  by (auto simp: directional_focus_def focus_candidates_def filter_empty_conv split: option.splits)

end
