(* ===== verification/Region.thy ===== *)
theory Region
  imports Geometry "HOL-Library.Multiset"
begin

text \<open>
  Signed 32.32 rectangles and occlusion (\<open>src/src/region.rs\<close>). A media node is visible where
  it is not covered by a higher pane; \<open>subtract_all\<close> cuts the occluders out of its clip
  rectangle and coalesces the pieces. The theorems read a rectangle as a set of points and count
  how often a list of pieces covers a point, so that exactness and disjointness are one statement.
\<close>

section \<open>Rectangles\<close>

text \<open>The derived \<open>Ord\<close> compares the fields in declaration order.\<close>

datatype fixed_rect = FixedRect (fr_x: int) (fr_y: int) (fr_width: int) (fr_height: int)

instantiation fixed_rect :: linorder
begin

definition less_eq_fixed_rect :: "fixed_rect \<Rightarrow> fixed_rect \<Rightarrow> bool" where
  "less_eq_fixed_rect a b \<longleftrightarrow>
     (fr_x a, fr_y a, fr_width a, fr_height a) \<le> (fr_x b, fr_y b, fr_width b, fr_height b)"

definition less_fixed_rect :: "fixed_rect \<Rightarrow> fixed_rect \<Rightarrow> bool" where
  "less_fixed_rect a b \<longleftrightarrow>
     (fr_x a, fr_y a, fr_width a, fr_height a) < (fr_x b, fr_y b, fr_width b, fr_height b)"

instance
proof
  fix a b c :: fixed_rect
  show "(a < b) = (a \<le> b \<and> \<not> b \<le> a)"
    unfolding less_eq_fixed_rect_def less_fixed_rect_def by (rule less_le_not_le)
  show "a \<le> a" by (simp add: less_eq_fixed_rect_def)
  show "a \<le> b \<Longrightarrow> b \<le> c \<Longrightarrow> a \<le> c"
    unfolding less_eq_fixed_rect_def by (rule order_trans)
  show "a \<le> b \<Longrightarrow> b \<le> a \<Longrightarrow> a = b"
    unfolding less_eq_fixed_rect_def by (cases a; cases b) (drule (1) order_antisym, simp)
  show "a \<le> b \<or> b \<le> a"
    unfolding less_eq_fixed_rect_def by (rule linear)
qed

end

definition fixed_one :: int where "fixed_one = 4294967296"

definition fr_new :: "int \<Rightarrow> int \<Rightarrow> int \<Rightarrow> int \<Rightarrow> fixed_rect option" where
  "fr_new px py w h =
     (if w \<le> 0 \<or> h \<le> 0 then None
      else do { _ \<leftarrow> checked64 (px + w); _ \<leftarrow> checked64 (py + h); Some (FixedRect px py w h) })"

definition fr_right :: "fixed_rect \<Rightarrow> int" where "fr_right r = fr_x r + fr_width r"
definition fr_bottom :: "fixed_rect \<Rightarrow> int" where "fr_bottom r = fr_y r + fr_height r"

definition from_cells :: "rect \<Rightarrow> fixed_rect option" where
  "from_cells r =
     do { px \<leftarrow> checked64 (int (rect_x r) * fixed_one);
          py \<leftarrow> checked64 (int (rect_y r) * fixed_one);
          w \<leftarrow> checked64 (int (rect_width r) * fixed_one);
          h \<leftarrow> checked64 (int (rect_height r) * fixed_one);
          fr_new px py w h }"

definition intersect :: "fixed_rect \<Rightarrow> fixed_rect \<Rightarrow> fixed_rect option" where
  "intersect l r =
     (let px = max (fr_x l) (fr_x r);
          py = max (fr_y l) (fr_y r);
          end_x = min (fr_right l) (fr_right r);
          end_y = min (fr_bottom l) (fr_bottom r)
      in do { w \<leftarrow> checked64 (end_x - px); h \<leftarrow> checked64 (end_y - py); fr_new px py w h })"

definition push_opt :: "'a option \<Rightarrow> 'a list" where
  "push_opt v = (case v of None \<Rightarrow> [] | Some w \<Rightarrow> [w])"

definition subtract :: "fixed_rect \<Rightarrow> fixed_rect \<Rightarrow> fixed_rect list" where
  "subtract base hole =
     (case intersect base hole of
        None \<Rightarrow> [base]
      | Some overlap \<Rightarrow>
          push_opt (fr_new (fr_x base) (fr_y base) (fr_width base) (fr_y overlap - fr_y base)) @
          push_opt (fr_new (fr_x base) (fr_bottom overlap) (fr_width base)
                      (fr_bottom base - fr_bottom overlap)) @
          push_opt (fr_new (fr_x base) (fr_y overlap) (fr_x overlap - fr_x base) (fr_height overlap)) @
          push_opt (fr_new (fr_right overlap) (fr_y overlap) (fr_right base - fr_right overlap)
                      (fr_height overlap)))"

section \<open>Ordering and coalescing\<close>

definition sort_fragments :: "fixed_rect list \<Rightarrow> fixed_rect list" where
  "sort_fragments fs = sort_key (\<lambda>r. (fr_y r, fr_x r, fr_height r, fr_width r)) fs"

definition join :: "fixed_rect \<Rightarrow> fixed_rect \<Rightarrow> fixed_rect option" where
  "join a b =
     (if fr_y a = fr_y b \<and> fr_height a = fr_height b \<and> fr_right a = fr_x b
      then do { w \<leftarrow> checked64 (fr_right b - fr_x a); fr_new (fr_x a) (fr_y a) w (fr_height a) }
      else if fr_x a = fr_x b \<and> fr_width a = fr_width b \<and> fr_bottom a = fr_y b
      then do { h \<leftarrow> checked64 (fr_bottom b - fr_y a); fr_new (fr_x a) (fr_y a) (fr_width a) h }
      else None)"

text \<open>The index pairs in the order of the two nested loops.\<close>

definition index_pairs :: "nat \<Rightarrow> (nat \<times> nat) list" where
  "index_pairs n = concat (map (\<lambda>l. map (\<lambda>r. (l, r)) [Suc l..<n]) [0..<n])"

definition find_merge :: "fixed_rect list \<Rightarrow> (nat \<times> nat \<times> fixed_rect) option" where
  "find_merge fs =
     (case List.find (\<lambda>(l, r). join (fs ! l) (fs ! r) \<noteq> None) (index_pairs (length fs)) of
        None \<Rightarrow> None
      | Some (l, r) \<Rightarrow> map_option (\<lambda>j. (l, r, j)) (join (fs ! l) (fs ! r)))"

lemma length_sort_fragments [simp]: "length (sort_fragments fs) = length fs"
  by (simp add: sort_fragments_def)

lemma index_pairs_bounds: "(l, r) \<in> set (index_pairs n) \<longleftrightarrow> l < r \<and> r < n"
  by (force simp: index_pairs_def)

lemma find_merge_SomeD:
  "find_merge fs = Some (l, r, j) \<Longrightarrow> l < r \<and> r < length fs \<and> join (fs ! l) (fs ! r) = Some j"
  unfolding find_merge_def
  by (auto split: option.splits dest!: find_Some_in simp: index_pairs_bounds)

lemma find_merge_None_iff:
  "find_merge fs = None \<longleftrightarrow> (\<forall>l r. l < r \<longrightarrow> r < length fs \<longrightarrow> join (fs ! l) (fs ! r) = None)"
  unfolding find_merge_def
  by (auto split: option.splits dest!: find_Some_in simp: find_None_iff index_pairs_bounds)

text \<open>Every round removes one fragment, so the loop ends.\<close>

function order_and_coalesce :: "fixed_rect list \<Rightarrow> fixed_rect list" where
  "order_and_coalesce fragments =
     (let fs = sort_fragments fragments in
      case find_merge fs of
        None \<Rightarrow> sort_fragments fs
      | Some (l, r, joined) \<Rightarrow> order_and_coalesce (remove_at r (fs[l := joined])))"
  by pat_completeness auto
termination
  by (relation "measure length") (auto dest!: find_merge_SomeD)

declare order_and_coalesce.simps [simp del]

fun subtract_holes ::
    "fixed_rect list \<Rightarrow> fixed_rect list \<Rightarrow> nat \<Rightarrow> fixed_rect list option" where
  "subtract_holes fragments [] cap = Some fragments"
| "subtract_holes fragments (hole # holes) cap =
     (let nxt = order_and_coalesce (concat (map (\<lambda>f. subtract f hole) fragments))
      in if length nxt > cap then None
         else if nxt = [] then Some nxt
         else subtract_holes nxt holes cap)"

definition subtract_all :: "fixed_rect \<Rightarrow> fixed_rect list \<Rightarrow> nat \<Rightarrow> fixed_rect list option" where
  "subtract_all base holes cap =
     (case subtract_holes [base] holes cap of
        None \<Rightarrow> None
      | Some fragments \<Rightarrow>
          let fs = order_and_coalesce fragments in if length fs \<le> cap then Some fs else None)"

section \<open>Points\<close>

definition fr_valid :: "fixed_rect \<Rightarrow> bool" where
  "fr_valid r \<longleftrightarrow> 0 < fr_width r \<and> 0 < fr_height r \<and>
     fr_width r \<le> i64_max \<and> fr_height r \<le> i64_max \<and>
     i64_min \<le> fr_x r \<and> fr_right r \<le> i64_max \<and> i64_min \<le> fr_y r \<and> fr_bottom r \<le> i64_max"

definition covers :: "fixed_rect \<Rightarrow> int \<Rightarrow> int \<Rightarrow> bool" where
  "covers r px py \<longleftrightarrow> fr_x r \<le> px \<and> px < fr_right r \<and> fr_y r \<le> py \<and> py < fr_bottom r"

definition cover_count :: "fixed_rect list \<Rightarrow> int \<Rightarrow> int \<Rightarrow> nat" where
  "cover_count fs px py = length (filter (\<lambda>r. covers r px py) fs)"

lemma cover_count_simps [simp]:
  "cover_count [] px py = 0"
  "cover_count (r # fs) px py = (if covers r px py then 1 else 0) + cover_count fs px py"
  "cover_count (fs @ gs) px py = cover_count fs px py + cover_count gs px py"
  by (simp_all add: cover_count_def)

lemmas region_limits = i64_min_def i64_max_def fr_right_def fr_bottom_def

lemma fr_new_valid:
  "i64_min \<le> px \<Longrightarrow> i64_min \<le> py \<Longrightarrow> w \<le> i64_max \<Longrightarrow> h \<le> i64_max \<Longrightarrow>
     fr_new px py w h = Some r \<Longrightarrow> fr_valid r"
  by (auto simp: fr_new_def checked64_def fr_valid_def region_limits bind_eq_Some_conv
      split: if_splits)

lemma fr_new_Some: "fr_new px py w h = Some r \<Longrightarrow> r = FixedRect px py w h"
  by (auto simp: fr_new_def bind_eq_Some_conv split: if_splits)

text \<open>Within the limits of a valid rectangle only an empty extent is refused.\<close>

lemma fr_new_within:
  "i64_min \<le> px \<Longrightarrow> px + w \<le> i64_max \<Longrightarrow> i64_min \<le> py \<Longrightarrow> py + h \<le> i64_max \<Longrightarrow>
     fr_new px py w h = (if w \<le> 0 \<or> h \<le> 0 then None else Some (FixedRect px py w h))"
  by (auto simp: fr_new_def checked64_def region_limits)

lemma intersect_span:
  assumes "i64_min \<le> px" "ex \<le> i64_max" "i64_min \<le> py" "ey \<le> i64_max"
    and "ex - px \<le> i64_max" "ey - py \<le> i64_max"
  shows "do { w \<leftarrow> checked64 (ex - px); h \<leftarrow> checked64 (ey - py); fr_new px py w h } =
    (if px < ex \<and> py < ey then Some (FixedRect px py (ex - px) (ey - py)) else None)"
proof (cases "px < ex \<and> py < ey")
  case True
  with assms show ?thesis by (simp add: checked64_def fr_new_def region_limits)
next
  case False
  then show ?thesis
    by (cases "checked64 (ex - px)"; cases "checked64 (ey - py)")
      (auto simp: checked64_def fr_new_def split: if_splits)
qed

lemma intersect_eq:
  assumes "fr_valid l" and "fr_valid r"
  defines "px \<equiv> max (fr_x l) (fr_x r)" and "py \<equiv> max (fr_y l) (fr_y r)"
    and "ex \<equiv> min (fr_right l) (fr_right r)" and "ey \<equiv> min (fr_bottom l) (fr_bottom r)"
  shows "intersect l r =
    (if px < ex \<and> py < ey then Some (FixedRect px py (ex - px) (ey - py)) else None)"
proof -
  have "fr_x l \<le> px" "ex \<le> fr_right l" "fr_y l \<le> py" "ey \<le> fr_bottom l"
    by (simp_all add: px_def py_def ex_def ey_def)
  moreover have "fr_right l = fr_x l + fr_width l" "fr_bottom l = fr_y l + fr_height l"
    by (simp_all add: fr_right_def fr_bottom_def)
  ultimately have "i64_min \<le> px" "ex \<le> i64_max" "i64_min \<le> py" "ey \<le> i64_max"
    "ex - px \<le> i64_max" "ey - py \<le> i64_max"
    using assms(1) unfolding fr_valid_def by linarith+
  from intersect_span[OF this] show ?thesis
    by (simp only: intersect_def Let_def px_def py_def ex_def ey_def)
qed

lemma intersect_SomeD:
  assumes "fr_valid l" and "fr_valid r" and "intersect l r = Some m"
  shows "fr_valid m" and "covers m px py \<longleftrightarrow> covers l px py \<and> covers r px py"
    and "fr_x l \<le> fr_x m" and "fr_right m \<le> fr_right l"
    and "fr_y l \<le> fr_y m" and "fr_bottom m \<le> fr_bottom l"
proof -
  from assms(3) have m: "max (fr_x l) (fr_x r) < min (fr_right l) (fr_right r)"
    "max (fr_y l) (fr_y r) < min (fr_bottom l) (fr_bottom r)"
    "fr_x m = max (fr_x l) (fr_x r)" "fr_y m = max (fr_y l) (fr_y r)"
    "fr_right m = min (fr_right l) (fr_right r)" "fr_bottom m = min (fr_bottom l) (fr_bottom r)"
    by (auto simp: intersect_eq[OF assms(1,2)] fr_right_def[of m] fr_bottom_def[of m]
        split: if_splits)
  then show b: "fr_x l \<le> fr_x m" "fr_right m \<le> fr_right l" "fr_y l \<le> fr_y m"
    "fr_bottom m \<le> fr_bottom l" by simp_all
  show "covers m px py \<longleftrightarrow> covers l px py \<and> covers r px py"
    unfolding covers_def m(3-6) by auto
  have "fr_right m = fr_x m + fr_width m" "fr_bottom m = fr_y m + fr_height m"
    "fr_right l = fr_x l + fr_width l" "fr_bottom l = fr_y l + fr_height l"
    by (simp_all add: fr_right_def fr_bottom_def)
  moreover have "fr_x m < fr_right m" "fr_y m < fr_bottom m" using m by simp_all
  ultimately show "fr_valid m"
    using assms(1) b unfolding fr_valid_def by linarith
qed

lemma intersect_NoneD:
  assumes "fr_valid l" and "fr_valid r" and "intersect l r = None"
  shows "\<not> (covers l px py \<and> covers r px py)"
  using assms(3) by (auto simp: intersect_eq[OF assms(1,2)] covers_def split: if_splits)

section \<open>Subtraction\<close>

lemma subtract_pieces:
  assumes "fr_valid b" and "fr_valid h" and "intersect b h = Some m"
  shows "subtract b h =
    (if fr_y b < fr_y m then [FixedRect (fr_x b) (fr_y b) (fr_width b) (fr_y m - fr_y b)] else []) @
    (if fr_bottom m < fr_bottom b
     then [FixedRect (fr_x b) (fr_bottom m) (fr_width b) (fr_bottom b - fr_bottom m)] else []) @
    (if fr_x b < fr_x m then [FixedRect (fr_x b) (fr_y m) (fr_x m - fr_x b) (fr_height m)] else []) @
    (if fr_right m < fr_right b
     then [FixedRect (fr_right m) (fr_y m) (fr_right b - fr_right m) (fr_height m)] else [])"
proof -
  note v = intersect_SomeD(1,3-6)[OF assms]
  have e: "fr_right b = fr_x b + fr_width b" "fr_bottom b = fr_y b + fr_height b"
    "fr_right m = fr_x m + fr_width m" "fr_bottom m = fr_y m + fr_height m"
    by (simp_all add: fr_right_def fr_bottom_def)
  have "fr_new (fr_x b) (fr_y b) (fr_width b) (fr_y m - fr_y b) =
      (if fr_y b < fr_y m then Some (FixedRect (fr_x b) (fr_y b) (fr_width b) (fr_y m - fr_y b)) else None)"
    using v assms(1) e by (subst fr_new_within) (auto simp: fr_valid_def)
  moreover have "fr_new (fr_x b) (fr_bottom m) (fr_width b) (fr_bottom b - fr_bottom m) =
      (if fr_bottom m < fr_bottom b
       then Some (FixedRect (fr_x b) (fr_bottom m) (fr_width b) (fr_bottom b - fr_bottom m)) else None)"
    using v assms(1) e by (subst fr_new_within) (auto simp: fr_valid_def)
  moreover have "fr_new (fr_x b) (fr_y m) (fr_x m - fr_x b) (fr_height m) =
      (if fr_x b < fr_x m then Some (FixedRect (fr_x b) (fr_y m) (fr_x m - fr_x b) (fr_height m)) else None)"
    using v assms(1) e by (subst fr_new_within) (auto simp: fr_valid_def)
  moreover have "fr_new (fr_right m) (fr_y m) (fr_right b - fr_right m) (fr_height m) =
      (if fr_right m < fr_right b
       then Some (FixedRect (fr_right m) (fr_y m) (fr_right b - fr_right m) (fr_height m)) else None)"
    using v assms(1) e by (subst fr_new_within) (auto simp: fr_valid_def)
  ultimately show ?thesis
    by (simp add: subtract_def assms(3) push_opt_def)
qed

lemma four_pieces_count:
  fixes bx br bt bb mx mr mt mb px py :: int
  assumes "bx \<le> mx" "mx < mr" "mr \<le> br" "bt \<le> mt" "mt < mb" "mb \<le> bb"
  shows "(if bt < mt \<and> bx \<le> px \<and> px < br \<and> bt \<le> py \<and> py < mt then 1 else 0) +
    (if mb < bb \<and> bx \<le> px \<and> px < br \<and> mb \<le> py \<and> py < bb then 1 else 0) +
    (if bx < mx \<and> bx \<le> px \<and> px < mx \<and> mt \<le> py \<and> py < mb then 1 else 0) +
    (if mr < br \<and> mr \<le> px \<and> px < br \<and> mt \<le> py \<and> py < mb then 1 else 0) =
    (if (bx \<le> px \<and> px < br \<and> bt \<le> py \<and> py < bb) \<and> \<not> (mx \<le> px \<and> px < mr \<and> mt \<le> py \<and> py < mb)
     then 1 else (0::nat))"
proof (cases "bx \<le> px \<and> px < br \<and> bt \<le> py \<and> py < bb")
  case False
  with assms show ?thesis by auto
next
  case True
  consider "py < mt" | "mb \<le> py" | "mt \<le> py" "py < mb" "px < mx"
    | "mt \<le> py" "py < mb" "mr \<le> px" | "mt \<le> py" "py < mb" "mx \<le> px" "px < mr" by linarith
  then show ?thesis using True assms by cases auto
qed

lemma cover_count_if [simp]:
  "cover_count (if c then [r] else []) px py = (if c \<and> covers r px py then 1 else 0)"
  by simp

lemma covers_FixedRect:
  "covers (FixedRect a b w h) px py \<longleftrightarrow> a \<le> px \<and> px < a + w \<and> b \<le> py \<and> py < b + h"
  by (simp add: covers_def fr_right_def fr_bottom_def)

lemma subtract_count:
  assumes "fr_valid b" and "fr_valid h"
  shows "cover_count (subtract b h) px py = (if covers b px py \<and> \<not> covers h px py then 1 else 0)"
proof (cases "intersect b h")
  case None
  with intersect_NoneD[OF assms None, of px py] show ?thesis by (auto simp: subtract_def)
next
  case (Some m)
  note v = intersect_SomeD[OF assms Some]
  have e: "fr_x m < fr_right m" "fr_y m < fr_bottom m"
    using v(1) by (auto simp: fr_valid_def fr_right_def fr_bottom_def)
  have w: "fr_x b + fr_width b = fr_right b" "fr_y m + fr_height m = fr_bottom m"
    by (simp_all add: fr_right_def fr_bottom_def)
  have "cover_count (subtract b h) px py = (if covers b px py \<and> \<not> covers m px py then 1 else 0)"
    unfolding subtract_pieces[OF assms Some] cover_count_simps(3) cover_count_if covers_FixedRect
    using four_pieces_count[OF v(3) e(1) v(4) v(5) e(2) v(6), of px py]
    by (simp add: w covers_def[of b] covers_def[of m])
  then show ?thesis using v(2)[of px py] by auto
qed

lemma subtract_valid:
  assumes "fr_valid b" and "fr_valid h" and "r \<in> set (subtract b h)"
  shows "fr_valid r"
proof (cases "intersect b h")
  case None
  with assms show ?thesis by (simp add: subtract_def)
next
  case (Some m)
  note v = intersect_SomeD(1,3-6)[OF assms(1,2) Some]
  from assms(3) v assms(1) show ?thesis
    unfolding subtract_pieces[OF assms(1,2) Some] fr_valid_def
    by (auto simp: fr_right_def fr_bottom_def split: if_splits)
qed

text \<open>
  Subtracting one rectangle from another yields at most four pieces that cover exactly the
  points of the base outside the hole, each exactly once (so the pieces are pairwise disjoint),
  and every piece is again a valid 32.32 rectangle.
\<close>

theorem subtract_exact:
  assumes "fr_valid b" and "fr_valid h"
  shows "length (subtract b h) \<le> 4 \<and> list_all fr_valid (subtract b h) \<and>
    (\<forall>px py. cover_count (subtract b h) px py =
       (if covers b px py \<and> \<not> covers h px py then 1 else 0))"
proof -
  have "length (push_opt v) \<le> 1" for v :: "'a option" by (cases v) (auto simp: push_opt_def)
  then have "length (subtract b h) \<le> 4"
    unfolding subtract_def
    by (cases "intersect b h") (auto simp: push_opt_def split: option.splits)
  with subtract_count[OF assms] subtract_valid[OF assms] show ?thesis
    by (auto simp: list_all_iff)
qed

section \<open>Coalescing\<close>

lemma cover_count_mset: "mset fs = mset gs \<Longrightarrow> cover_count fs px py = cover_count gs px py"
  unfolding cover_count_def by (metis mset_filter size_mset)

lemma sort_fragments_mset [simp]: "mset (sort_fragments fs) = mset fs"
  by (simp add: sort_fragments_def)

lemma set_sort_fragments [simp]: "set (sort_fragments fs) = set fs"
  by (simp add: sort_fragments_def)

lemma cover_count_sort [simp]: "cover_count (sort_fragments fs) px py = cover_count fs px py"
  by (rule cover_count_mset) simp

lemma join_SomeD:
  assumes "fr_valid a" and "fr_valid b" and "join a b = Some j"
  shows "fr_valid j"
    and "(if covers j px py then 1 else 0) =
         (if covers a px py then 1 else 0) + (if covers b px py then 1 else (0::nat))"
proof -
  have e: "fr_right a = fr_x a + fr_width a" "fr_bottom a = fr_y a + fr_height a"
    "fr_right b = fr_x b + fr_width b" "fr_bottom b = fr_y b + fr_height b"
    by (simp_all add: fr_right_def fr_bottom_def)
  have c: "(fr_y a = fr_y b \<and> fr_height a = fr_height b \<and> fr_right a = fr_x b \<and>
      j = FixedRect (fr_x a) (fr_y a) (fr_right b - fr_x a) (fr_height a) \<and>
      fr_right b - fr_x a \<le> i64_max) \<or>
    (fr_x a = fr_x b \<and> fr_width a = fr_width b \<and> fr_bottom a = fr_y b \<and>
      j = FixedRect (fr_x a) (fr_y a) (fr_width a) (fr_bottom b - fr_y a) \<and>
      fr_bottom b - fr_y a \<le> i64_max)"
    using assms(3)
    by (auto simp: join_def bind_eq_Some_conv checked64_def i64_max_def dest!: fr_new_Some
        split: if_splits)
  then show "fr_valid j"
  proof (elim disjE conjE)
    assume "fr_right a = fr_x b" "fr_right b - fr_x a \<le> i64_max"
      and j: "j = FixedRect (fr_x a) (fr_y a) (fr_right b - fr_x a) (fr_height a)"
    then show ?thesis using assms(1,2) e unfolding fr_valid_def fr_right_def[of j] fr_bottom_def[of j]
      by simp
  next
    assume "fr_bottom a = fr_y b" "fr_bottom b - fr_y a \<le> i64_max"
      and j: "j = FixedRect (fr_x a) (fr_y a) (fr_width a) (fr_bottom b - fr_y a)"
    then show ?thesis using assms(1,2) e unfolding fr_valid_def fr_right_def[of j] fr_bottom_def[of j]
      by simp
  qed
  have pos: "fr_x a < fr_right a" "fr_x b < fr_right b" "fr_y a < fr_bottom a" "fr_y b < fr_bottom b"
    using assms(1,2) e by (simp_all add: fr_valid_def)
  from c show "(if covers j px py then 1 else 0) =
         (if covers a px py then 1 else 0) + (if covers b px py then 1 else (0::nat))"
  proof (elim disjE conjE)
    assume h: "fr_y a = fr_y b" "fr_height a = fr_height b" "fr_right a = fr_x b"
      and j: "j = FixedRect (fr_x a) (fr_y a) (fr_right b - fr_x a) (fr_height a)"
    have "fr_bottom a = fr_bottom b" using h e by simp
    moreover have "fr_x j = fr_x a" "fr_right j = fr_right b" "fr_y j = fr_y a" "fr_bottom j = fr_bottom a"
      by (simp_all add: j fr_right_def fr_bottom_def)
    ultimately show ?thesis using h pos by (auto simp: covers_def)
  next
    assume h: "fr_x a = fr_x b" "fr_width a = fr_width b" "fr_bottom a = fr_y b"
      and j: "j = FixedRect (fr_x a) (fr_y a) (fr_width a) (fr_bottom b - fr_y a)"
    have "fr_right a = fr_right b" using h e by simp
    moreover have "fr_x j = fr_x a" "fr_right j = fr_right a" "fr_y j = fr_y a" "fr_bottom j = fr_bottom b"
      by (simp_all add: j fr_right_def fr_bottom_def)
    ultimately show ?thesis using h pos by (auto simp: covers_def)
  qed
qed

lemma two_index_split:
  assumes "l < r" and "r < length fs"
  shows "fs = take l fs @ fs ! l # take (r - Suc l) (drop (Suc l) fs) @ fs ! r # drop (Suc r) fs"
proof -
  have "drop (Suc l) fs ! (r - Suc l) = fs ! r"
    and "drop (Suc (r - Suc l)) (drop (Suc l) fs) = drop (Suc r) fs"
    and "r - Suc l < length (drop (Suc l) fs)"
    using assms by (simp_all add: Suc_diff_Suc)
  then have "drop (Suc l) fs = take (r - Suc l) (drop (Suc l) fs) @ fs ! r # drop (Suc r) fs"
    using id_take_nth_drop[of "r - Suc l" "drop (Suc l) fs"] by metis
  with id_take_nth_drop[of l fs] assms show ?thesis by simp
qed

lemma merge_split:
  assumes "l < r" and "r < length fs"
  shows "remove_at r (fs[l := j]) =
    take l fs @ j # take (r - Suc l) (drop (Suc l) fs) @ drop (Suc r) fs"
proof -
  define mid where "mid = take (r - Suc l) (drop (Suc l) fs)"
  define pre where "pre = take l fs @ j # mid"
  have len: "length pre = r" using assms by (simp add: pre_def mid_def)
  have "fs[l := j] = take l fs @ j # drop (Suc l) fs"
    using assms by (simp add: upd_conv_take_nth_drop)
  also have "drop (Suc l) fs = mid @ drop (r - Suc l) (drop (Suc l) fs)"
    by (simp only: mid_def append_take_drop_id)
  also have "drop (r - Suc l) (drop (Suc l) fs) = drop r fs" using assms by simp
  finally have "fs[l := j] = pre @ drop r fs" by (simp add: pre_def)
  then have "remove_at r (fs[l := j]) = pre @ drop (Suc r) fs"
    using len by (simp add: remove_at_def)
  then show ?thesis by (simp add: pre_def mid_def)
qed

lemma merge_count:
  assumes "find_merge fs = Some (l, r, j)" and "list_all fr_valid fs"
  shows "cover_count (remove_at r (fs[l := j])) px py = cover_count fs px py"
    and "list_all fr_valid (remove_at r (fs[l := j]))"
    and "length (remove_at r (fs[l := j])) < length fs"
proof -
  from find_merge_SomeD[OF assms(1)] have b: "l < r" "r < length fs" "join (fs ! l) (fs ! r) = Some j"
    by auto
  then have v: "fr_valid (fs ! l)" "fr_valid (fs ! r)"
    using assms(2) by (auto simp: list_all_iff)
  note s = two_index_split[OF b(1,2)] and m = merge_split[OF b(1,2), of j]
  have "cover_count fs px py = cover_count (take l fs) px py + (if covers j px py then 1 else 0) +
      cover_count (take (r - Suc l) (drop (Suc l) fs)) px py + cover_count (drop (Suc r) fs) px py"
    using join_SomeD(2)[OF v b(3), of px py] by (subst s) simp
  then show "cover_count (remove_at r (fs[l := j])) px py = cover_count fs px py"
    unfolding m by simp
  show "list_all fr_valid (remove_at r (fs[l := j]))"
    unfolding m using join_SomeD(1)[OF v b(3)] assms(2)
    by (auto simp: list_all_iff dest: in_set_takeD in_set_dropD)
  show "length (remove_at r (fs[l := j])) < length fs" using b by simp
qed

lemma order_and_coalesce_spec:
  "list_all fr_valid fs \<Longrightarrow>
     list_all fr_valid (order_and_coalesce fs) \<and>
     cover_count (order_and_coalesce fs) px py = cover_count fs px py \<and>
     length (order_and_coalesce fs) \<le> length fs \<and>
     find_merge (order_and_coalesce fs) = None \<and>
     sort_fragments (order_and_coalesce fs) = order_and_coalesce fs"
proof (induction fs rule: order_and_coalesce.induct)
  case (1 fs)
  let ?s = "sort_fragments fs"
  have v: "list_all fr_valid ?s" using 1(2) by (simp add: list_all_iff)
  have idem: "sort_fragments ?s = ?s" by (simp add: sort_fragments_def sort_key_id_if_sorted)
  show ?case
  proof (cases "find_merge ?s")
    case None
    then have "order_and_coalesce fs = ?s"
      by (subst order_and_coalesce.simps) (simp add: Let_def idem)
    with v None idem show ?thesis by simp
  next
    case (Some m)
    obtain l r j where m: "m = (l, r, j)" by (cases m)
    let ?n = "remove_at r (?s[l := j])"
    have eq: "order_and_coalesce fs = order_and_coalesce ?n"
      by (subst order_and_coalesce.simps) (simp add: Let_def Some m)
    note c = merge_count[OF Some[unfolded m] v]
    have "list_all fr_valid (order_and_coalesce ?n) \<and>
        cover_count (order_and_coalesce ?n) px py = cover_count ?n px py \<and>
        length (order_and_coalesce ?n) \<le> length ?n \<and>
        find_merge (order_and_coalesce ?n) = None \<and>
        sort_fragments (order_and_coalesce ?n) = order_and_coalesce ?n"
      by (rule 1(1)[OF refl Some[unfolded m] refl refl c(2)])
    with c show ?thesis unfolding eq by simp
  qed
qed

lemma concat_subtract_count:
  "list_all fr_valid fs \<Longrightarrow> fr_valid h \<Longrightarrow>
     cover_count (concat (map (\<lambda>f. subtract f h) fs)) px py =
     (if covers h px py then 0 else cover_count fs px py)"
  by (induction fs) (auto simp: subtract_count)

lemma concat_subtract_valid:
  "list_all fr_valid fs \<Longrightarrow> fr_valid h \<Longrightarrow>
     list_all fr_valid (concat (map (\<lambda>f. subtract f h) fs))"
  by (auto simp: list_all_iff intro: subtract_valid)

lemma subtract_holes_spec:
  "subtract_holes fs hs cap = Some out \<Longrightarrow> list_all fr_valid fs \<Longrightarrow> list_all fr_valid hs \<Longrightarrow>
     list_all fr_valid out \<and>
     cover_count out px py =
       (if list_ex (\<lambda>h. covers h px py) hs then 0 else cover_count fs px py)"
proof (induction fs hs cap rule: subtract_holes.induct)
  case (1 fs cap)
  then show ?case by simp
next
  case (2 fs h hs cap)
  let ?c = "concat (map (\<lambda>f. subtract f h) fs)"
  let ?n = "order_and_coalesce ?c"
  have h: "fr_valid h" "list_all fr_valid hs" using 2(4) by simp_all
  note n = order_and_coalesce_spec[OF concat_subtract_valid[OF 2(3) h(1)], of px py]
  have cn: "cover_count ?n px py = (if covers h px py then 0 else cover_count fs px py)"
    using n concat_subtract_count[OF 2(3) h(1)] by simp
  show ?case
  proof (cases "?n = []")
    case True
    with 2(2) have "out = []" by (simp add: Let_def split: if_splits)
    with cn True show ?thesis by (auto split: if_splits)
  next
    case False
    with 2(2) have sub: "\<not> cap < length ?n" "subtract_holes ?n hs cap = Some out"
      by (simp_all add: Let_def split: if_splits)
    from 2(1)[OF refl sub(1) False sub(2) _ h(2)] n cn show ?thesis by (auto split: if_splits)
  qed
qed

text \<open>
  Cutting a list of occluders out of a clip rectangle is exact or refused: a returned list
  covers precisely the points of the base that no occluder covers, each exactly once, has at most
  the allowed number of fragments, is in paint order and cannot be coalesced further.
\<close>

theorem subtract_all_exact:
  assumes "subtract_all base holes cap = Some fs" and "fr_valid base" and "list_all fr_valid holes"
  shows "length fs \<le> cap \<and> list_all fr_valid fs \<and>
    (\<forall>px py. cover_count fs px py =
       (if covers base px py \<and> \<not> list_ex (\<lambda>h. covers h px py) holes then 1 else 0)) \<and>
    sort_fragments fs = fs \<and> find_merge fs = None"
proof -
  from assms(1) obtain gs where g: "subtract_holes [base] holes cap = Some gs"
    and fs: "fs = order_and_coalesce gs" and len: "length fs \<le> cap"
    by (auto simp: subtract_all_def Let_def split: option.splits if_splits)
  have v: "list_all fr_valid [base]" using assms(2) by simp
  note spec = subtract_holes_spec[OF g v assms(3)]
  then have "list_all fr_valid gs" by blast
  note c = order_and_coalesce_spec[OF this]
  have "cover_count fs px py =
      (if covers base px py \<and> \<not> list_ex (\<lambda>h. covers h px py) holes then 1 else 0)" for px py
    using spec[of px py] c[of px py] unfolding fs by auto
  with len c[of 0 0] show ?thesis unfolding fs by auto
qed

end
