(* ===== verification/Ipc_Types.thy ===== *)
theory Ipc_Types
  imports Geometry
begin

text \<open>
  The values the client, the session actor and the gateway exchange (\<open>src/src/ipc.rs\<close>): actions,
  pointer events, float-edit commands and display metrics. \<open>Axis\<close> and \<open>Direction\<close> are in the
  geometry theory. Small \<open>u8\<close> and \<open>u16\<close> fields are \<open>nat\<close>; the operations that read them from text
  bound them. Fields that only travel over the wire are words of their width.
\<close>

type_synonym u16 = "16 word"
type_synonym u32 = "32 word"
type_synonym u64 = "64 word"

datatype action =
    SplitAction axis
  | FocusAction direction
  | ResizeAction direction
  | NewTab
  | NextTab
  | PreviousTab
  | SelectTab nat
  | ClosePane
  | ToggleZoom
  | EnterCopyMode
  | CopyInput bytes
  | PasteAction
  | NewFloatingPane
  | ToggleFloatingPanes
  | TogglePanePinned
  | EnterFloatingMoveMode
  | EnterFloatingResizeMode

datatype floating_edit_kind = EditMove | EditResize

datatype floating_edit_command =
    EditStep direction nat
  | EditCommit
  | EditCancel

record display_metrics =
  disp_columns :: nat
  disp_rows :: nat
  disp_cell_width :: nat
  disp_cell_height :: nat

datatype mouse_kind = MousePress | MouseRelease | MouseMove | MouseWheel

record mouse_event =
  mouse_button :: nat
  mouse_x :: nat
  mouse_y :: nat
  mouse_event_kind :: mouse_kind
  mouse_shift :: bool

record bridge_source_key =
  key_producer :: u64
  key_source :: u64

text \<open>The decimal form \<open>str::parse::<u16>\<close> accepts: an optional plus sign and digits.\<close>

definition parse_digits :: "bytes \<Rightarrow> nat option" where
  "parse_digits ds =
     (if ds \<noteq> [] \<and> list_all (\<lambda>b. 48 \<le> b \<and> b \<le> 57) ds
      then Some (fold (\<lambda>b acc. acc * 10 + (unat b - 48)) ds 0) else None)"

definition parse_u16 :: "bytes \<Rightarrow> nat option" where
  "parse_u16 txt =
     do { n \<leftarrow> (case txt of [] \<Rightarrow> None
                | b # ds \<Rightarrow> if b = 43 then parse_digits ds else parse_digits txt);
          if n \<le> u16_max then Some n else None }"

end
