(* ===== verification/Client_Input.thy ===== *)
theory Client_Input
  imports Ipc_Types
begin

text \<open>
  The client's key and pointer parsing (\<open>src/src/client_input.rs\<close>): the prefix parser, which turns
  terminal input into actions, pointer events and plain input, and the scanner for the keys of the
  floating-edit mode. Instants are milliseconds. Pointer reports are read as bytes: a report with a
  byte outside ASCII has a field that is not a number, so the UTF-8 check never decides.
\<close>

section \<open>Floating-edit keys\<close>

record float_scanner =
  fe_pending :: bytes
  fe_since :: "nat option"

definition escape_delay :: nat where "escape_delay = 25"

definition float_scanner_new :: float_scanner where
  "float_scanner_new = \<lparr>fe_pending = [], fe_since = None\<rparr>"

definition float_edit_table :: "(bytes \<times> direction \<times> nat) list" where
  "float_edit_table =
     [(esc # ascii ''[A'', DUp, 1), (esc # ascii ''[B'', DDown, 1),
      (esc # ascii ''[C'', DRight, 1), (esc # ascii ''[D'', DLeft, 1),
      (esc # ascii ''[1;2A'', DUp, 5), (esc # ascii ''[1;2B'', DDown, 5),
      (esc # ascii ''[1;2C'', DRight, 5), (esc # ascii ''[1;2D'', DLeft, 5)]"

definition float_edit_sequence :: "bytes \<Rightarrow> floating_edit_command option" where
  "float_edit_sequence s = map_option (\<lambda>(d, n). EditStep d n) (map_of float_edit_table s)"

definition float_edit_sequence_prefix :: "bytes \<Rightarrow> bool" where
  "float_edit_sequence_prefix s = list_ex (\<lambda>(c, _). take (length s) c = s) float_edit_table"

fun float_scan_from ::
  "nat \<Rightarrow> bytes \<Rightarrow> float_scanner \<Rightarrow> floating_edit_command list \<Rightarrow> bytes \<Rightarrow>
     (floating_edit_command list \<times> bytes) \<times> float_scanner" where
  "float_scan_from now [] s commands forward = ((commands, forward), s)"
| "float_scan_from now (b # bs) s commands forward =
     (if fe_pending s = []
      then if b = 13 \<or> b = 10 then ((commands @ [EditCommit], forward @ bs), s)
           else if b = esc
           then float_scan_from now bs (s\<lparr>fe_pending := [b], fe_since := Some now\<rparr>) commands forward
           else float_scan_from now bs s commands (forward @ [b])
      else
        let pending = fe_pending s @ [b]
        in case float_edit_sequence pending of
             Some command \<Rightarrow>
               let s' = s\<lparr>fe_pending := [], fe_since := None\<rparr>
               in if command = EditCommit \<or> command = EditCancel
                  then ((commands @ [command], forward @ bs), s')
                  else float_scan_from now bs s' (commands @ [command]) forward
           | None \<Rightarrow>
               if \<not> float_edit_sequence_prefix pending
               then float_scan_from now bs (s\<lparr>fe_pending := [], fe_since := None\<rparr>) commands
                      (forward @ pending)
               else float_scan_from now bs (s\<lparr>fe_pending := pending\<rparr>) commands forward)"

definition float_scan ::
  "nat \<Rightarrow> bytes \<Rightarrow> float_scanner \<Rightarrow> (floating_edit_command list \<times> bytes) \<times> float_scanner" where
  "float_scan now bs s = float_scan_from now bs s [] []"

definition float_expire ::
  "nat \<Rightarrow> float_scanner \<Rightarrow> floating_edit_command option \<times> float_scanner" where
  "float_expire now s =
     (case fe_since s of
        None \<Rightarrow> (None, s)
      | Some since \<Rightarrow>
          if fe_pending s = [esc] \<and> escape_delay \<le> now - since
          then (Some EditCancel, s\<lparr>fe_pending := [], fe_since := None\<rparr>)
          else (None, s))"

definition float_reset :: "float_scanner \<Rightarrow> bytes \<times> float_scanner" where
  "float_reset s = (fe_pending s, s\<lparr>fe_pending := [], fe_since := None\<rparr>)"

section \<open>Actions and pointer reports\<close>

definition configured_actions :: "(bytes \<times> action) list" where
  "configured_actions =
     [(ascii ''split-horizontal'', SplitAction Horizontal),
      (ascii ''split-vertical'', SplitAction Vertical),
      (ascii ''focus-left'', FocusAction DLeft), (ascii ''focus-right'', FocusAction DRight),
      (ascii ''focus-up'', FocusAction DUp), (ascii ''focus-down'', FocusAction DDown),
      (ascii ''resize-left'', ResizeAction DLeft), (ascii ''resize-right'', ResizeAction DRight),
      (ascii ''resize-up'', ResizeAction DUp), (ascii ''resize-down'', ResizeAction DDown),
      (ascii ''new-tab'', NewTab), (ascii ''next-tab'', NextTab),
      (ascii ''previous-tab'', PreviousTab), (ascii ''close-pane'', ClosePane),
      (ascii ''toggle-zoom'', ToggleZoom), (ascii ''copy-mode'', EnterCopyMode),
      (ascii ''paste'', PasteAction), (ascii ''new-floating-pane'', NewFloatingPane),
      (ascii ''toggle-floating-panes'', ToggleFloatingPanes),
      (ascii ''toggle-pane-pinned'', TogglePanePinned),
      (ascii ''enter-floating-move-mode'', EnterFloatingMoveMode),
      (ascii ''enter-floating-resize-mode'', EnterFloatingResizeMode)]"

definition parse_configured_action :: "bytes \<Rightarrow> action option" where
  "parse_configured_action name = map_of configured_actions name"

definition parse_sgr_mouse :: "bytes \<Rightarrow> mouse_event option" where
  "parse_sgr_mouse s =
     (let release = (s \<noteq> [] \<and> last s = 109)
      in do { body \<leftarrow> (if take 3 s = esc # ascii ''[<'' then Some (drop 3 s) else None);
              fields \<leftarrow> (if body \<noteq> [] \<and> (last body = 77 \<or> last body = 109)
                         then Some (split_on 59 (butlast body)) else None);
              case fields of
                [f1, f2, f3] \<Rightarrow>
                  do { raw \<leftarrow> parse_u16 f1;
                       x1 \<leftarrow> parse_u16 f2;
                       px \<leftarrow> (if 1 \<le> x1 then Some (x1 - 1) else None);
                       y1 \<leftarrow> parse_u16 f3;
                       py \<leftarrow> (if 1 \<le> y1 then Some (y1 - 1) else None);
                       Some \<lparr>mouse_button = raw mod 4, mouse_x = px, mouse_y = py,
                             mouse_event_kind =
                               (if raw div 64 mod 2 \<noteq> 0 then MouseWheel
                                else if release then MouseRelease
                                else if raw div 32 mod 2 \<noteq> 0 then MouseMove
                                else MousePress),
                             mouse_shift = (raw div 4 mod 2 \<noteq> 0)\<rparr> }
              | _ \<Rightarrow> None })"

definition arrow_table :: "(bytes \<times> direction) list" where
  "arrow_table =
     [(esc # ascii ''[A'', DUp), (esc # ascii ''[1;5A'', DUp),
      (esc # ascii ''[B'', DDown), (esc # ascii ''[1;5B'', DDown),
      (esc # ascii ''[C'', DRight), (esc # ascii ''[1;5C'', DRight),
      (esc # ascii ''[D'', DLeft), (esc # ascii ''[1;5D'', DLeft)]"

definition prefix_sequence :: "bytes \<Rightarrow> action option" where
  "prefix_sequence s =
     map_option (\<lambda>d. if 3 < length s then ResizeAction d else FocusAction d) (map_of arrow_table s)"

section \<open>The prefix parser\<close>

datatype parsed_input =
    InputBytes bytes
  | InputAction action
  | InputMouse mouse_event
  | InputDetach

record prefix_parser =
  prefix_byte :: byte
  bindings :: "(byte \<times> action) list"
  in_prefix :: bool
  prefix_seq :: bytes
  mouse_seq :: bytes
  confirm_close :: bool

text \<open>Collecting into a \<open>HashMap\<close>: a later entry for a chord replaces an earlier one.\<close>

definition prefix_parser_new :: "byte \<Rightarrow> (bytes \<times> bytes) list \<Rightarrow> prefix_parser" where
  "prefix_parser_new prefix configured =
     \<lparr>prefix_byte = prefix,
      bindings = rev (List.map_filter (\<lambda>(chord, name).
        case chord of [b] \<Rightarrow> map_option (Pair b) (parse_configured_action name) | _ \<Rightarrow> None) configured),
      in_prefix = False, prefix_seq = [], mouse_seq = [], confirm_close = False\<rparr>"

definition flush_input :: "parsed_input list \<Rightarrow> bytes \<Rightarrow> parsed_input list" where
  "flush_input output ordinary = (if ordinary = [] then output else output @ [InputBytes ordinary])"

text \<open>The built-in chords that need no state of their own.\<close>

definition built_in_chords :: "(byte \<times> parsed_input) list" where
  "built_in_chords =
     [(37, InputAction (SplitAction Vertical)), (34, InputAction (SplitAction Horizontal)),
      (99, InputAction NewTab), (110, InputAction NextTab), (112, InputAction PreviousTab),
      (122, InputAction ToggleZoom), (102, InputAction NewFloatingPane),
      (70, InputAction ToggleFloatingPanes), (80, InputAction TogglePanePinned),
      (109, InputAction EnterFloatingMoveMode), (114, InputAction EnterFloatingResizeMode),
      (100, InputDetach), (91, InputAction EnterCopyMode), (93, InputAction PasteAction)]"

definition built_in_chord :: "byte \<Rightarrow> parsed_input option" where
  "built_in_chord b =
     (case map_of built_in_chords b of
        Some i \<Rightarrow> Some i
      | None \<Rightarrow> if 48 \<le> b \<and> b \<le> 57 then Some (InputAction (SelectTab (unat b - 48))) else None)"

type_synonym feed_state = "prefix_parser \<times> parsed_input list \<times> bytes"

definition feed_mouse :: "byte \<Rightarrow> feed_state \<Rightarrow> feed_state" where
  "feed_mouse b st =
     (case st of (p, out, ordinary) \<Rightarrow>
        let s = mouse_seq p @ [b];
            valid_prefix = (if length s = 2 then s = esc # ascii ''[''
                            else if length s = 3 then s = esc # ascii ''[<'' else True);
            p' = p\<lparr>mouse_seq := []\<rparr>
        in if \<not> valid_prefix then (p', out, ordinary @ s)
           else if b = 77 \<or> b = 109 then
             (case parse_sgr_mouse s of
                Some m \<Rightarrow> (p', flush_input out ordinary @ [InputMouse m], [])
              | None \<Rightarrow> (p', flush_input out ordinary, s))
           else if 64 \<le> length s then (p', out, ordinary @ s)
           else (p\<lparr>mouse_seq := s\<rparr>, out, ordinary))"

definition feed_chord :: "byte \<Rightarrow> feed_state \<Rightarrow> feed_state" where
  "feed_chord b st =
     (case st of (p, out, ordinary) \<Rightarrow>
        let p' = p\<lparr>in_prefix := False\<rparr>
        in case map_of (bindings p) b of
             Some a \<Rightarrow> (p', out @ [InputAction a], ordinary)
           | None \<Rightarrow>
               if b = prefix_byte p then (p', out @ [InputBytes [prefix_byte p]], ordinary)
               else if b = 120 then (p'\<lparr>confirm_close := True\<rparr>, out, ordinary)
               else if b = esc then (p\<lparr>prefix_seq := [b]\<rparr>, out, ordinary)
               else (case built_in_chord b of
                       Some i \<Rightarrow> (p', out @ [i], ordinary)
                     | None \<Rightarrow> (p', out, ordinary)))"

definition feed_sequence :: "byte \<Rightarrow> feed_state \<Rightarrow> feed_state" where
  "feed_sequence b st =
     (case st of (p, out, ordinary) \<Rightarrow>
        let s = prefix_seq p @ [b];
            p' = p\<lparr>prefix_seq := [], in_prefix := False\<rparr>
        in case prefix_sequence s of
             Some command \<Rightarrow> (p', out @ [InputAction command], ordinary)
           | None \<Rightarrow> if 7 \<le> length s then (p', out, ordinary)
                     else (p\<lparr>prefix_seq := s\<rparr>, out, ordinary))"

definition feed_plain :: "byte \<Rightarrow> feed_state \<Rightarrow> feed_state" where
  "feed_plain b st =
     (case st of (p, out, ordinary) \<Rightarrow>
        if mouse_seq p \<noteq> [] then feed_mouse b st
        else if b = esc then (p\<lparr>mouse_seq := [b]\<rparr>, out, ordinary)
        else if b = prefix_byte p then (p\<lparr>in_prefix := True\<rparr>, flush_input out ordinary, [])
        else (p, out, ordinary @ [b]))"

definition feed_byte :: "byte \<Rightarrow> feed_state \<Rightarrow> feed_state" where
  "feed_byte b st =
     (case st of (p, out, ordinary) \<Rightarrow>
        if confirm_close p then
          (p\<lparr>confirm_close := False\<rparr>,
           if b = 121 \<or> b = 89 then out @ [InputAction ClosePane] else out, ordinary)
        else if prefix_seq p \<noteq> [] then feed_sequence b st
        else if \<not> in_prefix p then feed_plain b st
        else feed_chord b st)"

definition parser_feed :: "prefix_parser \<Rightarrow> bytes \<Rightarrow> parsed_input list \<times> prefix_parser" where
  "parser_feed p bs =
     (let (p', out, ordinary) = fold feed_byte bs (p, [], [])
      in (flush_input out ordinary, p'))"

section \<open>Fragments of input\<close>

text \<open>Adjacent pieces of plain input carry no boundary: output is read as bytes and events.\<close>

datatype input_atom = PlainByte byte | Event parsed_input

fun input_atoms :: "parsed_input \<Rightarrow> input_atom list" where
  "input_atoms (InputBytes bs) = map PlainByte bs"
| "input_atoms i = [Event i]"

definition input_stream :: "parsed_input list \<Rightarrow> input_atom list" where
  "input_stream items = concat (map input_atoms items)"

lemma input_stream_simps [simp]:
  "input_stream [] = []" "input_stream (i # is) = input_atoms i @ input_stream is"
  "input_stream (is @ js) = input_stream is @ input_stream js"
  by (simp_all add: input_stream_def)

lemma flush_stream [simp]: "input_stream (flush_input out ordinary) = input_stream out @ map PlainByte ordinary"
  by (simp add: flush_input_def)

text \<open>What a state of the loop has produced so far.\<close>

definition produced :: "feed_state \<Rightarrow> prefix_parser \<times> input_atom list" where
  "produced st = (case st of (p, out, ordinary) \<Rightarrow> (p, input_stream out @ map PlainByte ordinary))"

definition after_output :: "input_atom list \<Rightarrow> prefix_parser \<times> input_atom list \<Rightarrow> prefix_parser \<times> input_atom list" where
  "after_output as r = (fst r, as @ snd r)"

lemma produced_simps [simp]:
  "produced (p, out, ordinary) = (p, input_stream out @ map PlainByte ordinary)"
  "after_output as (p, bs) = (p, as @ bs)"
  by (simp_all add: produced_def after_output_def)

text \<open>The four outcomes of a byte that continues a pointer report, for any output so far.\<close>

lemma feed_mouse_cases:
  fixes b :: byte and p :: prefix_parser
  defines "s \<equiv> mouse_seq p @ [b]"
  obtains (Plain) "\<And>out ordinary. feed_mouse b (p, out, ordinary) = (p\<lparr>mouse_seq := []\<rparr>, out, ordinary @ s)"
  | (Pointer) m where "parse_sgr_mouse s = Some m"
      "\<And>out ordinary. feed_mouse b (p, out, ordinary) =
        (p\<lparr>mouse_seq := []\<rparr>, flush_input out ordinary @ [InputMouse m], [])"
  | (Flushed) "\<And>out ordinary. feed_mouse b (p, out, ordinary) =
        (p\<lparr>mouse_seq := []\<rparr>, flush_input out ordinary, s)"
  | (More) "\<And>out ordinary. feed_mouse b (p, out, ordinary) = (p\<lparr>mouse_seq := s\<rparr>, out, ordinary)"
      "length s < 64"
proof -
  define v where "v = (if length s = 2 then s = esc # ascii ''['' else if length s = 3
    then s = esc # ascii ''[<'' else True)"
  have eq: "feed_mouse b (p, out, ordinary) =
      (if \<not> v then (p\<lparr>mouse_seq := []\<rparr>, out, ordinary @ s)
       else if b = 77 \<or> b = 109 then
         (case parse_sgr_mouse s of
            Some m \<Rightarrow> (p\<lparr>mouse_seq := []\<rparr>, flush_input out ordinary @ [InputMouse m], [])
          | None \<Rightarrow> (p\<lparr>mouse_seq := []\<rparr>, flush_input out ordinary, s))
       else if 64 \<le> length s then (p\<lparr>mouse_seq := []\<rparr>, out, ordinary @ s)
       else (p\<lparr>mouse_seq := s\<rparr>, out, ordinary))" for out ordinary
    unfolding feed_mouse_def Let_def prod.case s_def v_def ..
  show thesis
  proof (cases v)
    case False
    then show thesis using Plain eq by simp
  next
    case v: True
    show thesis
    proof (cases "b = 77 \<or> b = 109")
      case True
      then show thesis using v eq Pointer Flushed by (cases "parse_sgr_mouse s") simp_all
    next
      case False
      then show thesis using v eq Plain More by (cases "64 \<le> length s") simp_all
    qed
  qed
qed

lemma feed_mouse_produced:
  "produced (feed_mouse b (p, out, ordinary)) =
     after_output (input_stream out @ map PlainByte ordinary) (produced (feed_mouse b (p, [], [])))"
  by (cases rule: feed_mouse_cases[of b p])
    (simp_all add: produced_def after_output_def)

lemma feed_chord_produced:
  "produced (feed_chord b (p, out, [])) = after_output (input_stream out) (produced (feed_chord b (p, [], [])))"
  by (cases "map_of (bindings p) b"; cases "built_in_chord b")
    (simp_all add: feed_chord_def produced_def after_output_def Let_def)

lemma feed_sequence_produced:
  "produced (feed_sequence b (p, out, [])) = after_output (input_stream out) (produced (feed_sequence b (p, [], [])))"
  by (cases "prefix_sequence (prefix_seq p @ [b])")
    (simp_all add: feed_sequence_def produced_def after_output_def Let_def)

lemma feed_plain_produced:
  "produced (feed_plain b (p, out, ordinary)) =
     after_output (input_stream out @ map PlainByte ordinary) (produced (feed_plain b (p, [], [])))"
  using feed_mouse_produced[of b p out ordinary]
  by (simp add: feed_plain_def produced_def after_output_def)

text \<open>While a chord is being read there is no plain input waiting, so no action overtakes any.\<close>

definition in_chord :: "prefix_parser \<Rightarrow> bool" where
  "in_chord p \<longleftrightarrow> confirm_close p \<or> prefix_seq p \<noteq> [] \<or> in_prefix p"

definition steady :: "feed_state \<Rightarrow> bool" where
  "steady st \<longleftrightarrow> (case st of (p, out, ordinary) \<Rightarrow> in_chord p \<longrightarrow> ordinary = [])"

lemma steady_empty [simp]: "steady (p, out, [])"
  by (simp add: steady_def)

lemma feed_chord_steady: "steady (feed_chord b (p, out, []))"
  by (cases "map_of (bindings p) b"; cases "built_in_chord b") (simp_all add: feed_chord_def steady_def Let_def)

lemma feed_sequence_steady: "steady (feed_sequence b (p, out, []))"
  by (cases "prefix_sequence (prefix_seq p @ [b])") (simp_all add: feed_sequence_def steady_def Let_def)

lemma feed_plain_steady: "\<not> in_chord p \<Longrightarrow> steady (feed_plain b (p, out, ordinary))"
  by (cases rule: feed_mouse_cases[of b p]) (simp_all add: feed_plain_def steady_def in_chord_def)

lemma feed_byte_steady:
  assumes "steady (p, out, ordinary)"
  shows "steady (feed_byte b (p, out, ordinary))"
proof (cases "in_chord p")
  case True
  with assms have "ordinary = []" by (simp add: steady_def)
  with True show ?thesis
    using feed_chord_steady[of b p out] feed_sequence_steady[of b p out]
    by (cases "confirm_close p"; cases "prefix_seq p = []") (simp_all add: feed_byte_def in_chord_def)
next
  case False
  with feed_plain_steady[OF False, of b out ordinary] show ?thesis
    by (simp add: feed_byte_def in_chord_def)
qed

lemma feed_byte_produced:
  assumes "steady (p, out, ordinary)"
  shows "produced (feed_byte b (p, out, ordinary)) =
     after_output (input_stream out @ map PlainByte ordinary) (produced (feed_byte b (p, [], [])))"
proof (cases "in_chord p")
  case True
  with assms have o: "ordinary = []" by (simp add: steady_def)
  with True show ?thesis
    using feed_chord_produced[of b p out] feed_sequence_produced[of b p out]
    by (cases "confirm_close p"; cases "prefix_seq p = []") (simp_all add: feed_byte_def in_chord_def)
next
  case False
  then show ?thesis
    using feed_plain_produced[of b p out ordinary] by (simp add: feed_byte_def in_chord_def)
qed

lemma feed_fold_produced:
  "steady (p, out, ordinary) \<Longrightarrow> produced (fold feed_byte bs (p, out, ordinary)) =
     after_output (input_stream out @ map PlainByte ordinary) (produced (fold feed_byte bs (p, [], [])))"
proof (induction bs arbitrary: p out ordinary)
  case Nil
  then show ?case by (simp add: produced_def after_output_def)
next
  case (Cons b bs)
  obtain p1 o1 r1 where s1: "feed_byte b (p, out, ordinary) = (p1, o1, r1)" by (metis prod_cases3)
  obtain p2 o2 r2 where s2: "feed_byte b (p, [], []) = (p2, o2, r2)" by (metis prod_cases3)
  have st: "steady (p1, o1, r1)" "steady (p2, o2, r2)"
    using feed_byte_steady[OF Cons.prems, of b] feed_byte_steady[of p "[]" "[]" b] s1 s2
    by (simp_all add: steady_def)
  from feed_byte_produced[OF Cons.prems, of b] have "p1 = p2"
    "input_stream o1 @ map PlainByte r1 =
      (input_stream out @ map PlainByte ordinary) @ input_stream o2 @ map PlainByte r2"
    by (simp_all add: s1 s2 produced_def after_output_def)
  with Cons.IH[OF st(1)] Cons.IH[OF st(2)] show ?case
    by (simp add: s1 s2 after_output_def)
qed

lemma fold_steady: "steady st \<Longrightarrow> steady (fold feed_byte bs st)"
proof (induction bs arbitrary: st)
  case (Cons b bs)
  then show ?case using feed_byte_steady by (cases st) simp
qed simp

lemma parser_feed_produced:
  "parser_feed p bs = (out, p') \<Longrightarrow> produced (fold feed_byte bs (p, [], [])) = (p', input_stream out)"
  by (auto simp: parser_feed_def produced_def split: prod.splits)

interpretation keys: fragment_free parser_feed input_stream "\<lambda>_. True"
proof
  fix p f g o1 p1 o2 p2
  assume f: "parser_feed p f = (o1, p1)" and g: "parser_feed p1 g = (o2, p2)"
  obtain q out ord where st: "fold feed_byte f (p, [], []) = (q, out, ord)" by (metis prod_cases3)
  from parser_feed_produced[OF f] have q: "q = p1" "input_stream out @ map PlainByte ord = input_stream o1"
    by (simp_all add: st produced_def)
  obtain out' p' where fg: "parser_feed p (f @ g) = (out', p')" by fastforce
  have "produced (fold feed_byte (f @ g) (p, [], [])) =
      after_output (input_stream o1) (produced (fold feed_byte g (p1, [], [])))"
    using feed_fold_produced[of q out ord g] fold_steady[of "(p, [], [])" f] by (simp add: st q steady_def)
  with parser_feed_produced[OF fg] parser_feed_produced[OF g] fg
  show "\<exists>out. parser_feed p (f @ g) = (out, p2) \<and> input_stream out = input_stream o1 @ input_stream o2"
    by (simp add: after_output_def)
qed (auto simp: parser_feed_def flush_input_def)

text \<open>
  C22. Keys and pointer reports mean the same however the terminal delivers them: feeding the bytes
  in any fragments -- a chord split after the prefix, an arrow key or a pointer report cut anywhere
  -- produces the same actions, pointer events and plain bytes in the same order, and leaves the
  same parser state, as feeding them in one piece.
\<close>

theorem key_parsing_ignores_fragmentation:
  "input_stream (fst (push_all parser_feed p fragments)) = input_stream (fst (parser_feed p (concat fragments))) \<and>
   snd (push_all parser_feed p fragments) = snd (parser_feed p (concat fragments))"
proof -
  obtain out p' where r: "push_all parser_feed p fragments = (out, p')" by fastforce
  from keys.push_all_joined[OF TrueI r] r show ?thesis by auto
qed

section \<open>Plain input\<close>

text \<open>The bytes an item stands for while no prefix is involved.\<close>

fun input_spells :: "parsed_input \<Rightarrow> bytes \<Rightarrow> bool" where
  "input_spells (InputBytes bs) part = (part = bs)"
| "input_spells (InputMouse m) part = (parse_sgr_mouse part = Some m)"
| "input_spells (InputAction a) part = False"
| "input_spells InputDetach part = False"

definition unprefixed :: "byte \<Rightarrow> prefix_parser \<Rightarrow> bool" where
  "unprefixed pb p \<longleftrightarrow> prefix_byte p = pb \<and> \<not> in_prefix p \<and> \<not> confirm_close p \<and> prefix_seq p = [] \<and>
     length (mouse_seq p) < 64"

definition spelled :: "feed_state \<Rightarrow> bytes \<Rightarrow> bool" where
  "spelled st bs \<longleftrightarrow> (case st of (p, out, ordinary) \<Rightarrow>
     \<exists>parts. list_all2 input_spells out parts \<and> concat parts @ ordinary @ mouse_seq p = bs)"

lemma flush_spells:
  "list_all2 input_spells out parts \<Longrightarrow>
     \<exists>parts'. list_all2 input_spells (flush_input out ordinary) parts' \<and> concat parts' = concat parts @ ordinary"
  by (cases "ordinary = []", auto simp: flush_input_def)
    (rule exI[of _ "parts @ [ordinary]"], simp add: list_all2_appendI)

lemma feed_byte_spelled:
  assumes "unprefixed pb p" and "b \<noteq> pb" and "spelled (p, out, ordinary) bs"
  shows "unprefixed pb (fst (feed_byte b (p, out, ordinary))) \<and>
    spelled (feed_byte b (p, out, ordinary)) (bs @ [b])"
proof -
  from assms(3) obtain parts where parts: "list_all2 input_spells out parts"
    "concat parts @ ordinary @ mouse_seq p = bs" by (auto simp: spelled_def)
  show ?thesis
  proof (cases "mouse_seq p = []")
    case True
    with assms(1,2) parts show ?thesis
      by (auto simp: feed_byte_def feed_plain_def unprefixed_def spelled_def intro!: exI[of _ parts])
  next
    case False
    then have fb: "feed_byte b (p, out, ordinary) = feed_mouse b (p, out, ordinary)"
      using assms(1) by (simp add: feed_byte_def feed_plain_def unprefixed_def)
    let ?s = "mouse_seq p @ [b]"
    have s: "concat parts @ ordinary @ ?s = bs @ [b]" using parts(2) by simp
    obtain ps where ps: "list_all2 input_spells (flush_input out ordinary) ps"
      "concat ps = concat parts @ ordinary" using flush_spells[OF parts(1)] by blast
    show ?thesis
    proof (cases rule: feed_mouse_cases[of b p])
      case Plain
      with assms(1) fb parts(1) s show ?thesis
        by (auto simp: unprefixed_def spelled_def intro!: exI[of _ parts])
    next
      case (Pointer m)
      then have "list_all2 input_spells (flush_input out ordinary @ [InputMouse m]) (ps @ [?s])"
        using ps(1) by (simp add: list_all2_appendI)
      with Pointer assms(1) fb ps(2) s show ?thesis
        by (auto simp: unprefixed_def spelled_def intro!: exI[of _ "ps @ [?s]"])
    next
      case Flushed
      with assms(1) fb ps s show ?thesis
        by (auto simp: unprefixed_def spelled_def intro!: exI[of _ ps])
    next
      case More
      with assms(1) fb parts(1) s show ?thesis
        by (auto simp: unprefixed_def spelled_def intro!: exI[of _ parts])
    qed
  qed
qed

lemma feed_fold_spelled:
  "unprefixed pb (fst st) \<Longrightarrow> list_all (\<lambda>b. b \<noteq> pb) f \<Longrightarrow> spelled st bs \<Longrightarrow>
     unprefixed pb (fst (fold feed_byte f st)) \<and> spelled (fold feed_byte f st) (bs @ f)"
proof (induction f arbitrary: st bs)
  case (Cons b f)
  obtain p out ord where st: "st = (p, out, ord)" by (cases st)
  from feed_byte_spelled[of pb p b out ord bs] Cons.prems st
  have "unprefixed pb (fst (feed_byte b st))" "spelled (feed_byte b st) (bs @ [b])" by auto
  with Cons.IH[of "feed_byte b st" "bs @ [b]"] Cons.prems(2) show ?case by simp
qed simp

interpretation plain_keys: lossless_scanner parser_feed input_spells mouse_seq "unprefixed pb" "\<lambda>b. b \<noteq> pb" for pb
proof
  fix p f out p'
  assume p: "unprefixed pb p" and f: "list_all (\<lambda>b. b \<noteq> pb) f" and r: "parser_feed p f = (out, p')"
  obtain q o1 ord where st: "fold feed_byte f (p, [], []) = (q, o1, ord)" by (metis prod_cases3)
  have "spelled (p, [], []) (mouse_seq p)" by (simp add: spelled_def)
  from feed_fold_spelled[OF _ f this] p st have q: "unprefixed pb q" "spelled (q, o1, ord) (mouse_seq p @ f)"
    by auto
  from r st have out: "out = flush_input o1 ord" "p' = q" by (auto simp: parser_feed_def)
  from q(2) obtain parts where parts: "list_all2 input_spells o1 parts"
    "concat parts @ ord @ mouse_seq q = mouse_seq p @ f" by (auto simp: spelled_def)
  from flush_spells[OF parts(1), of ord] parts(2) q(1) out
  show "unprefixed pb p' \<and>
    (\<exists>parts. list_all2 input_spells out parts \<and> concat parts @ mouse_seq p' = mouse_seq p @ f)"
    by (metis append.assoc)
qed

text \<open>
  C23. Outside prefix commands the client loses no key: from a state in which no chord is being
  read, input without the prefix byte, in any fragments, comes out as plain bytes and pointer
  events that spell exactly the bytes received, in order, up to an unfinished escape sequence of
  fewer than 64 bytes that is still held.
\<close>

theorem plain_input_is_lossless:
  assumes "unprefixed pb p" and "list_all (list_all (\<lambda>b. b \<noteq> pb)) fragments"
    and "push_all parser_feed p fragments = (out, p')"
  shows "(\<exists>parts. list_all2 input_spells out parts \<and>
      concat parts @ mouse_seq p' = mouse_seq p @ concat fragments) \<and>
    unprefixed pb p' \<and> length (mouse_seq p') < 64"
  using plain_keys.push_all_lossless[OF assms] by (auto simp: unprefixed_def)

theorem plain_input_is_lossless_witness:
  "\<exists>parts. list_all2 input_spells
      (fst (push_all parser_feed (prefix_parser_new 2 []) [[97, 27], ascii ''[<0;3;4M'', [98]])) parts \<and>
    concat parts @ mouse_seq (snd (push_all parser_feed (prefix_parser_new 2 []) [[97, 27], ascii ''[<0;3;4M'', [98]])) =
      97 # 27 # ascii ''[<0;3;4M'' @ [98]"
proof -
  let ?fs = "[[97, 27], ascii ''[<0;3;4M'', [98]] :: bytes list"
  obtain out p' where r: "push_all parser_feed (prefix_parser_new 2 []) ?fs = (out, p')" by fastforce
  have "unprefixed 2 (prefix_parser_new 2 [])" by (simp add: unprefixed_def prefix_parser_new_def)
  moreover have "list_all (list_all (\<lambda>b. b \<noteq> 2)) ?fs" by (simp add: ascii_def)
  ultimately have "\<exists>parts. list_all2 input_spells out parts \<and>
      concat parts @ mouse_seq p' = mouse_seq (prefix_parser_new 2 []) @ concat ?fs"
    using plain_input_is_lossless[OF _ _ r] by blast
  moreover have "mouse_seq (prefix_parser_new 2 []) = []" by (simp add: prefix_parser_new_def)
  ultimately show ?thesis unfolding r fst_conv snd_conv by simp
qed

text \<open>
  A bare Escape key is not passed on when it is pressed: the parser keeps the byte as a
  possible pointer report and has no timeout, so the pane receives it only together with the next
  key.
\<close>

theorem escape_key_is_held:
  assumes "unprefixed pb p" and "mouse_seq p = []" and "pb \<noteq> esc" and "b \<noteq> 91"
  shows "parser_feed p [esc] = ([], p\<lparr>mouse_seq := [esc]\<rparr>) \<and>
    parser_feed (p\<lparr>mouse_seq := [esc]\<rparr>) [b] = ([InputBytes [esc, b]], p)"
  using assms
  by (simp add: parser_feed_def feed_byte_def feed_plain_def feed_mouse_def flush_input_def unprefixed_def
      ascii_def)

theorem escape_key_is_held_witness:
  "fst (parser_feed (prefix_parser_new 2 []) [esc]) = [] \<and>
   fst (parser_feed (snd (parser_feed (prefix_parser_new 2 []) [esc])) [106]) = [InputBytes [esc, 106]]"
  using escape_key_is_held[of 2 "prefix_parser_new 2 []" 106]
  by (simp add: unprefixed_def prefix_parser_new_def esc_def)

section \<open>Fragments of float-edit input\<close>

text \<open>The time of a read only marks when a lone Escape began.\<close>

lemma sequence_is_step: "float_edit_sequence s = Some c \<Longrightarrow> c \<noteq> EditCommit \<and> c \<noteq> EditCancel"
  by (auto simp: float_edit_sequence_def)

lemma float_scan_time:
  "fe_pending s' = fe_pending s \<Longrightarrow>
     fst (float_scan_from n' bs s' c w) = fst (float_scan_from n bs s c w) \<and>
     fe_pending (snd (float_scan_from n' bs s' c w)) = fe_pending (snd (float_scan_from n bs s c w))"
proof (induction bs arbitrary: s s' c w)
  case (Cons b bs)
  then show ?case
    by (cases "fe_pending s = []"; cases "b = esc"; cases "float_edit_sequence (fe_pending s @ [b])";
        cases "float_edit_sequence_prefix (fe_pending s @ [b])") (simp_all add: Let_def)
qed simp

lemma float_scan_from_join:
  "EditCommit \<notin> set (fst (fst (float_scan_from n1 f s c w))) \<Longrightarrow> fe_pending s' = fe_pending s \<Longrightarrow>
   (case float_scan_from n1 f s c w of ((c1, w1), s1) \<Rightarrow>
      fst (float_scan_from n3 (f @ g) s' c w) = fst (float_scan_from n2 g s1 c1 w1) \<and>
      fe_pending (snd (float_scan_from n3 (f @ g) s' c w)) = fe_pending (snd (float_scan_from n2 g s1 c1 w1)))"
proof (induction f arbitrary: s s' c w)
  case Nil
  then show ?case using float_scan_time[of s' s n3 g c w n2] by simp
next
  case (Cons b f)
  show ?case
  proof (cases "fe_pending s = []")
    case True
    with Cons.prems have "b \<noteq> 13 \<and> b \<noteq> 10" by auto
    with True Cons.prems Cons.IH[where s = s and s' = s' and c = c and w = "w @ [b]"]
      Cons.IH[where s = "s\<lparr>fe_pending := [b], fe_since := Some n1\<rparr>" and c = c and w = w
        and s' = "s'\<lparr>fe_pending := [b], fe_since := Some n3\<rparr>"]
    show ?thesis by (cases "b = esc") simp_all
  next
    case False
    show ?thesis
    proof (cases "float_edit_sequence (fe_pending s @ [b])")
      case None
      with False Cons.prems
        Cons.IH[where s = "s\<lparr>fe_pending := [], fe_since := None\<rparr>" and c = c
          and s' = "s'\<lparr>fe_pending := [], fe_since := None\<rparr>" and w = "w @ fe_pending s @ [b]"]
        Cons.IH[where s = "s\<lparr>fe_pending := fe_pending s @ [b]\<rparr>" and c = c and w = w
          and s' = "s'\<lparr>fe_pending := fe_pending s @ [b]\<rparr>"]
      show ?thesis by (cases "float_edit_sequence_prefix (fe_pending s @ [b])") (simp_all add: Let_def)
    next
      case (Some k)
      with False Cons.prems sequence_is_step[OF Some]
        Cons.IH[where s = "s\<lparr>fe_pending := [], fe_since := None\<rparr>" and c = "c @ [k]" and w = w
          and s' = "s'\<lparr>fe_pending := [], fe_since := None\<rparr>"]
      show ?thesis by (simp add: Let_def)
    qed
  qed
qed

lemma float_scan_accumulates:
  "float_scan_from n bs s c w =
     ((c @ fst (fst (float_scan_from n bs s [] [])), w @ snd (fst (float_scan_from n bs s [] []))),
      snd (float_scan_from n bs s [] []))"
proof (induction bs arbitrary: s c w)
  case (Cons b bs)
  let ?clear = "s\<lparr>fe_pending := [], fe_since := None\<rparr>"
  show ?case
  proof (cases "fe_pending s = []")
    case True
    then show ?thesis
      using Cons.IH[of s c "w @ [b]"] Cons.IH[of s "[]" "[b]"]
        Cons.IH[of "s\<lparr>fe_pending := [b], fe_since := Some n\<rparr>" c w]
      by (cases "b = esc") simp_all
  next
    case False
    show ?thesis
    proof (cases "float_edit_sequence (fe_pending s @ [b])")
      case None
      then show ?thesis
        using False Cons.IH[of ?clear c "w @ fe_pending s @ [b]"] Cons.IH[of ?clear "[]" "fe_pending s @ [b]"]
          Cons.IH[of "s\<lparr>fe_pending := fe_pending s @ [b]\<rparr>" c w]
        by (simp add: Let_def)
    next
      case (Some k)
      then show ?thesis
        using False sequence_is_step[OF Some] Cons.IH[of ?clear "c @ [k]" w] Cons.IH[of ?clear "[k]" "[]"]
        by (simp add: Let_def)
    qed
  qed
qed simp

text \<open>
  Float-edit keys may arrive in pieces: until Enter commits, scanning two reads one after the
  other gives the same edit commands and forwards the same bytes as scanning them joined, whatever
  the times of the reads, and keeps the same unfinished sequence.
\<close>

theorem float_keys_ignore_fragmentation:
  assumes "float_scan n1 f s = ((c1, w1), s1)" and "float_scan n2 g s1 = ((c2, w2), s2)"
    and "EditCommit \<notin> set c1"
  shows "\<exists>s3. float_scan n3 (f @ g) s = ((c1 @ c2, w1 @ w2), s3) \<and> fe_pending s3 = fe_pending s2"
proof -
  have "fst (float_scan_from n3 (f @ g) s [] []) = fst (float_scan_from n2 g s1 c1 w1) \<and>
      fe_pending (snd (float_scan_from n3 (f @ g) s [] [])) = fe_pending (snd (float_scan_from n2 g s1 c1 w1))"
    using float_scan_from_join[of n1 f s "[]" "[]" s n3 g n2] assms(1,3) by (simp add: float_scan_def)
  with float_scan_accumulates[of n2 g s1 c1 w1] assms(2) show ?thesis
    by (cases "float_scan_from n3 (f @ g) s [] []") (simp add: float_scan_def)
qed

theorem float_keys_ignore_fragmentation_witness:
  "\<exists>s3. float_scan 7 ([120, 27] @ [91, 65]) float_scanner_new = (([EditStep DUp 1], [120]), s3) \<and> fe_pending s3 = []"
proof -
  have "float_scan 0 [120, 27] float_scanner_new = (([], [120]), \<lparr>fe_pending = [27], fe_since = Some 0\<rparr>)"
    and "float_scan 5 [91, 65] \<lparr>fe_pending = [27], fe_since = Some 0\<rparr> =
      (([EditStep DUp 1], []), \<lparr>fe_pending = [], fe_since = None\<rparr>)"
    by code_simp+
  from float_keys_ignore_fragmentation[OF this, of 7] show ?thesis by simp
qed

end
