(* ===== verification/Ipc_Codec.thy ===== *)
theory Ipc_Codec
  imports Ipc_Types
begin

text \<open>
  The record protocol between client and session server (\<open>src/src/ipc.rs\<close>, lines 598 to 1025):
  the connection preface, numbered records, and the binary forms of media and render records with
  their chunking. A reader's stream is the input not yet read, a writer's stream the output so far;
  writes to the transport succeed. JSON encoding belongs to \<open>serde_json\<close>: the structured records
  carry it as a parameter. The counters of a connection are diagnostics and left out.
\<close>

unbundle bit_operations_syntax

section \<open>Big-endian integers\<close>

fun be_bytes :: "nat \<Rightarrow> nat \<Rightarrow> bytes" where
  "be_bytes 0 v = []"
| "be_bytes (Suc n) v = be_bytes n (v div 256) @ [of_nat v]"

definition from_be :: "bytes \<Rightarrow> nat" where
  "from_be bs = fold (\<lambda>b acc. acc * 256 + unat b) bs 0"

definition be16 :: "u16 \<Rightarrow> bytes" where "be16 w = be_bytes 2 (unat w)"
definition be32 :: "u32 \<Rightarrow> bytes" where "be32 w = be_bytes 4 (unat w)"
definition be64 :: "u64 \<Rightarrow> bytes" where "be64 w = be_bytes 8 (unat w)"

definition slice :: "nat \<Rightarrow> nat \<Rightarrow> bytes \<Rightarrow> bytes" where
  "slice a b bs = take (b - a) (drop a bs)"

lemma length_be_bytes [simp]: "length (be_bytes n v) = n"
  by (induction n arbitrary: v) auto

lemma length_be [simp]: "length (be16 a) = 2" "length (be32 b) = 4" "length (be64 c) = 8"
  by (simp_all add: be16_def be32_def be64_def)

lemma from_be_append: "from_be (bs @ [b]) = from_be bs * 256 + unat b"
  by (simp add: from_be_def)

lemma from_be_bytes: "from_be (be_bytes n v) = v mod 256 ^ n"
proof (induction n arbitrary: v)
  case 0
  then show ?case by (simp add: from_be_def)
next
  case (Suc n)
  have "unat (of_nat v :: byte) = v mod 256" by (simp add: unat_of_nat take_bit_eq_mod)
  with Suc show ?case
    by (simp add: from_be_append mod_mult2_eq mult.commute)
qed

lemma from_be_word [simp]:
  "of_nat (from_be (be16 a)) = a" "of_nat (from_be (be32 b)) = b" "of_nat (from_be (be64 c)) = c"
proof -
  have "unat a < 65536" "unat b < 4294967296" "unat c < 18446744073709551616"
    by (rule order_less_le_trans[OF unsigned_less], simp)+
  then show "of_nat (from_be (be16 a)) = a" "of_nat (from_be (be32 b)) = b" "of_nat (from_be (be64 c)) = c"
    by (simp_all add: be16_def be32_def be64_def from_be_bytes)
qed

lemma slice_here [simp]: "length x = n \<Longrightarrow> slice 0 n (x @ y) = x" "length x = n \<Longrightarrow> slice 0 n x = x"
  by (simp_all add: slice_def)

lemma slice_skip [simp]: "length x \<le> a \<Longrightarrow> slice a b (x @ y) = slice (a - length x) (b - length x) y"
  by (simp add: slice_def)

section \<open>Errors, channels and the preface\<close>

datatype ipc_error =
    UnexpectedEof | BadMagic | VersionMismatch | PrefaceReserved | UnknownChannel | InvalidMaximum
  | ChannelMismatch | UnexpectedRecord | SequenceGap | ReservedFlags | BodyTooLong
  | MalformedMessage | MediaBodyTooLong | MediaShort | MediaReserved | MediaFlags | MediaExceedsTotal
  | MediaLastFlag | RenderShort | RenderReserved | RenderFlags | EncodingFailed

datatype channel_kind = Control | Bulk

definition magic :: bytes where "magic = ascii ''VVMX''"
definition version :: u16 where "version = 9"
definition control_max_body :: nat where "control_max_body = 1048576"
definition bulk_max_body :: nat where "bulk_max_body = 67108864"

definition channel_byte :: "channel_kind \<Rightarrow> byte" where
  "channel_byte c = (case c of Control \<Rightarrow> 1 | Bulk \<Rightarrow> 2)"

definition channel_from_byte :: "byte \<Rightarrow> ipc_error + channel_kind" where
  "channel_from_byte b = (if b = 1 then Inr Control else if b = 2 then Inr Bulk else Inl UnknownChannel)"

definition channel_maximum :: "channel_kind \<Rightarrow> nat" where
  "channel_maximum c = (case c of Control \<Rightarrow> control_max_body | Bulk \<Rightarrow> bulk_max_body)"

definition encode_preface :: "channel_kind \<Rightarrow> u32 \<Rightarrow> bytes" where
  "encode_preface channel maximum_body =
     magic @ be16 version @ [channel_byte channel, 0] @ be32 maximum_body"

definition decode_preface :: "bytes \<Rightarrow> ipc_error + (channel_kind \<times> u32)" where
  "decode_preface preface =
     (if slice 0 4 preface \<noteq> magic then Inl BadMagic
      else if of_nat (from_be (slice 4 6 preface)) \<noteq> version then Inl VersionMismatch
      else if preface ! 7 \<noteq> 0 then Inl PrefaceReserved
      else case channel_from_byte (preface ! 6) of
             Inl e \<Rightarrow> Inl e
           | Inr channel \<Rightarrow>
               let maximum = of_nat (from_be (slice 8 12 preface))
               in if maximum = 0 \<or> channel_maximum channel < unat maximum then Inl InvalidMaximum
                  else Inr (channel, maximum))"

section \<open>Readers and writers\<close>

record reader =
  rd_stream :: bytes
  expected_sequence :: u64
  rd_maximum :: u32

record writer =
  wr_stream :: bytes
  next_sequence :: u64
  wr_maximum :: u32

text \<open>\<open>read_exact\<close>: a stream that ends early is used up.\<close>

definition read_exact :: "nat \<Rightarrow> bytes \<Rightarrow> (ipc_error + bytes) \<times> bytes" where
  "read_exact n s = (if length s < n then (Inl UnexpectedEof, []) else (Inr (take n s), drop n s))"

text \<open>Both ends take the smaller of the two limits.\<close>

definition establish :: "channel_kind \<Rightarrow> bytes \<Rightarrow> (ipc_error + (reader \<times> writer))" where
  "establish channel input =
     (case read_exact 12 input of
        (Inl e, _) \<Rightarrow> Inl e
      | (Inr peer, rest) \<Rightarrow>
          (case decode_preface peer of
             Inl e \<Rightarrow> Inl e
           | Inr (peer_channel, peer_maximum) \<Rightarrow>
               if peer_channel \<noteq> channel then Inl ChannelMismatch
               else let maximum = min (of_nat (channel_maximum channel)) peer_maximum
                    in Inr (\<lparr>rd_stream = rest, expected_sequence = 0, rd_maximum = maximum\<rparr>,
                            \<lparr>wr_stream = encode_preface channel (of_nat (channel_maximum channel)),
                             next_sequence = 0, wr_maximum = maximum\<rparr>)))"

definition read_raw :: "reader \<Rightarrow> (ipc_error + (u16 \<times> u16 \<times> bytes)) \<times> reader" where
  "read_raw r =
     (case read_exact 16 (rd_stream r) of
        (Inl e, rest) \<Rightarrow> (Inl e, r\<lparr>rd_stream := rest\<rparr>)
      | (Inr header, rest) \<Rightarrow>
          let r1 = r\<lparr>rd_stream := rest\<rparr>;
              sequence = of_nat (from_be (slice 0 8 header));
              record_type = of_nat (from_be (slice 8 10 header));
              flags = of_nat (from_be (slice 10 12 header)) :: u16;
              len = of_nat (from_be (slice 12 16 header)) :: u32
          in if sequence \<noteq> expected_sequence r then (Inl SequenceGap, r1)
             else if flags AND NOT 1 \<noteq> 0 then (Inl ReservedFlags, r1)
             else if rd_maximum r < len then (Inl BodyTooLong, r1)
             else case read_exact (unat len) rest of
                    (Inl e, rest') \<Rightarrow> (Inl e, r1\<lparr>rd_stream := rest'\<rparr>)
                  | (Inr body, rest') \<Rightarrow>
                      (Inr (record_type, flags, body),
                       r1\<lparr>rd_stream := rest', expected_sequence := expected_sequence r + 1\<rparr>))"

text \<open>The result of a write, with the writer it leaves: an error leaves what was written before it.\<close>

type_synonym write_result = "ipc_error option \<times> writer"

text \<open>The lengths of parts of a message in memory never overflow \<open>usize\<close>.\<close>

definition write_raw_parts :: "u16 \<Rightarrow> u16 \<Rightarrow> bytes list \<Rightarrow> writer \<Rightarrow> write_result" where
  "write_raw_parts record_type flags parts w =
     (if flags AND NOT 1 \<noteq> 0 then (Some ReservedFlags, w)
      else let len = sum_list (map length parts)
           in if unat (wr_maximum w) < len then (Some BodyTooLong, w)
              else (None,
                    w\<lparr>wr_stream := wr_stream w @ be64 (next_sequence w) @ be16 record_type @ be16 flags @
                        be32 (of_nat len) @ concat parts,
                      next_sequence := next_sequence w + 1\<rparr>))"

definition write_raw :: "u16 \<Rightarrow> u16 \<Rightarrow> bytes \<Rightarrow> writer \<Rightarrow> write_result" where
  "write_raw record_type flags body w = write_raw_parts record_type flags [body] w"

definition structured_record :: u16 where "structured_record = 1"
definition media_record :: u16 where "media_record = 2"
definition render_record :: u16 where "render_record = 3"

definition send_message :: "('m \<Rightarrow> bytes option) \<Rightarrow> 'm \<Rightarrow> writer \<Rightarrow> write_result" where
  "send_message to_json m w =
     (case to_json m of
        None \<Rightarrow> (Some EncodingFailed, w)
      | Some body \<Rightarrow> write_raw structured_record 0 body w)"

definition decode_structured :: "(bytes \<Rightarrow> 'm option) \<Rightarrow> bytes \<Rightarrow> ipc_error + 'm" where
  "decode_structured from_json body =
     (case from_json body of None \<Rightarrow> Inl MalformedMessage | Some m \<Rightarrow> Inr m)"

definition recv :: "(bytes \<Rightarrow> 'm option) \<Rightarrow> reader \<Rightarrow> (ipc_error + 'm) \<times> reader" where
  "recv from_json r =
     (case read_raw r of
        (Inl e, r') \<Rightarrow> (Inl e, r')
      | (Inr (record_type, flags, body), r') \<Rightarrow>
          if record_type \<noteq> structured_record \<or> flags \<noteq> 0 then (Inl UnexpectedRecord, r')
          else (decode_structured from_json body, r'))"

section \<open>Media and render records\<close>

definition media_record_header :: nat where "media_record_header = 40"
definition render_record_header :: nat where "render_record_header = 24"
definition media_flag_last :: u16 where "media_flag_last = 1"
definition render_flag_full :: u16 where "render_flag_full = 1"
definition render_flag_last :: u16 where "render_flag_last = 2"
definition media_chunk_bytes :: nat where "media_chunk_bytes = 131072"
definition render_chunk_bytes :: nat where "render_chunk_bytes = 262144"

record media_chunk =
  mc_delivery :: u64
  mc_source :: bridge_source_key
  mc_record_type :: u16
  mc_offset :: u32
  mc_total :: u32
  mc_last :: bool

record render_chunk =
  rc_frame :: u64
  rc_session_sequence :: u64
  rc_full :: bool
  rc_last :: bool

text \<open>The server messages with a binary form, and all others as JSON.\<close>

datatype 'm server_message =
    MediaMessage media_chunk bytes
  | RenderMessage render_chunk bytes
  | JsonMessage 'm

definition media_header :: "media_chunk \<Rightarrow> bytes" where
  "media_header c =
     be64 (mc_delivery c) @ be64 (key_producer (mc_source c)) @ be64 (key_source (mc_source c)) @
     be16 (mc_record_type c) @ be16 (if mc_last c then media_flag_last else 0) @
     be32 (mc_offset c) @ be32 (mc_total c) @ [0, 0, 0, 0]"

definition write_media_record :: "media_chunk \<Rightarrow> bytes \<Rightarrow> writer \<Rightarrow> write_result" where
  "write_media_record c bs w = write_raw_parts media_record 0 [media_header c, bs] w"

definition render_header :: "render_chunk \<Rightarrow> bytes" where
  "render_header c =
     (let flags = (if rc_full c then render_flag_full else 0) OR (if rc_last c then render_flag_last else 0)
      in be64 (rc_frame c) @ be64 (rc_session_sequence c) @ be16 flags @ [0, 0, 0, 0, 0, 0])"

definition write_render_record :: "render_chunk \<Rightarrow> bytes \<Rightarrow> writer \<Rightarrow> write_result" where
  "write_render_record c bs w = write_raw_parts render_record 0 [render_header c, bs] w"

definition decode_media_record :: "bytes \<Rightarrow> ipc_error + 'm server_message" where
  "decode_media_record body =
     (if length body < media_record_header then Inl MediaShort
      else let flags = of_nat (from_be (slice 26 28 body)) :: u16;
               offset = of_nat (from_be (slice 28 32 body)) :: u32;
               total = of_nat (from_be (slice 32 36 body)) :: u32
           in if from_be (slice 36 40 body) \<noteq> 0 then Inl MediaReserved
              else if flags AND NOT media_flag_last \<noteq> 0 then Inl MediaFlags
              else let rest = drop media_record_header body;
                       end' = unat offset + length rest
                   in if unat total < end' then Inl MediaExceedsTotal
                      else if (flags AND media_flag_last \<noteq> 0) \<noteq> (end' = unat total) then Inl MediaLastFlag
                      else Inr (MediaMessage
                        \<lparr>mc_delivery = of_nat (from_be (slice 0 8 body)),
                         mc_source = \<lparr>key_producer = of_nat (from_be (slice 8 16 body)),
                                      key_source = of_nat (from_be (slice 16 24 body))\<rparr>,
                         mc_record_type = of_nat (from_be (slice 24 26 body)),
                         mc_offset = offset, mc_total = total,
                         mc_last = (flags AND media_flag_last \<noteq> 0)\<rparr> rest))"

definition decode_render_record :: "bytes \<Rightarrow> ipc_error + 'm server_message" where
  "decode_render_record body =
     (if length body < render_record_header then Inl RenderShort
      else let flags = of_nat (from_be (slice 16 18 body)) :: u16
           in if from_be (slice 18 20 body) \<noteq> 0 \<or> from_be (slice 20 24 body) \<noteq> 0 then Inl RenderReserved
              else if flags AND NOT (render_flag_full OR render_flag_last) \<noteq> 0 then Inl RenderFlags
              else Inr (RenderMessage
                \<lparr>rc_frame = of_nat (from_be (slice 0 8 body)),
                 rc_session_sequence = of_nat (from_be (slice 8 16 body)),
                 rc_full = (flags AND render_flag_full \<noteq> 0),
                 rc_last = (flags AND render_flag_last \<noteq> 0)\<rparr>
                (drop render_record_header body)))"

definition recv_server :: "(bytes \<Rightarrow> 'm option) \<Rightarrow> reader \<Rightarrow> (ipc_error + 'm server_message) \<times> reader" where
  "recv_server from_json r =
     (case read_raw r of
        (Inl e, r') \<Rightarrow> (Inl e, r')
      | (Inr (record_type, flags, body), r') \<Rightarrow>
          if flags \<noteq> 0 then (Inl UnexpectedRecord, r')
          else if record_type = structured_record
          then (case decode_structured from_json body of
                  Inl e \<Rightarrow> (Inl e, r') | Inr m \<Rightarrow> (Inr (JsonMessage m), r'))
          else if record_type = media_record then (decode_media_record body, r')
          else if record_type = render_record then (decode_render_record body, r')
          else (Inl UnexpectedRecord, r'))"

section \<open>Chunked sending\<close>

text \<open>\<open>chunks(n)\<close> of a slice, for a positive size.\<close>

function chunks_of :: "nat \<Rightarrow> 'a list \<Rightarrow> 'a list list" where
  "chunks_of n xs = (if n = 0 \<or> xs = [] then [] else take n xs # chunks_of n (drop n xs))"
  by pat_completeness auto
termination by (relation "measure (\<lambda>(n, xs). length xs)") auto

declare chunks_of.simps [simp del]

text \<open>Writes one after the other; the first error ends the sending.\<close>

fun write_each :: "('a \<Rightarrow> 'w \<Rightarrow> 'e option \<times> 'w) \<Rightarrow> 'a list \<Rightarrow> 'w \<Rightarrow> 'e option \<times> 'w" where
  "write_each f [] w = (None, w)"
| "write_each f (x # xs) w =
     (case f x w of (Some e, w') \<Rightarrow> (Some e, w') | (None, w') \<Rightarrow> write_each f xs w')"

definition payload_capacity :: "nat \<Rightarrow> writer \<Rightarrow> nat" where
  "payload_capacity header w = unat (wr_maximum w) - header"

definition send_media_record ::
  "u64 \<Rightarrow> bridge_source_key \<Rightarrow> u16 \<Rightarrow> bytes \<Rightarrow> writer \<Rightarrow> write_result" where
  "send_media_record delivery source record_type body w =
     (if 4294967296 \<le> length body then (Some MediaBodyTooLong, w)
      else let total = of_nat (length body);
               chunk = clamp_val (payload_capacity media_record_header w) 1 media_chunk_bytes;
               header = \<lparr>mc_delivery = delivery, mc_source = source, mc_record_type = record_type,
                         mc_offset = 0, mc_total = total, mc_last = True\<rparr>
           in if body = [] then write_media_record header [] w
              else write_each
                     (\<lambda>(index, bs). let offset = of_nat (index * chunk) :: u32
                        in write_media_record (header\<lparr>mc_offset := offset,
                             mc_last := (unat offset + length bs = length body)\<rparr>) bs)
                     (enumerate 0 (chunks_of chunk body)) w)"

definition send_render_record :: "u64 \<Rightarrow> u64 \<Rightarrow> bool \<Rightarrow> bytes \<Rightarrow> writer \<Rightarrow> write_result" where
  "send_render_record frame sequence full body w =
     (let chunk = clamp_val (payload_capacity render_record_header w) 1 render_chunk_bytes;
          header = \<lparr>rc_frame = frame, rc_session_sequence = sequence, rc_full = full, rc_last = True\<rparr>
      in if body = [] then write_render_record header [] w
         else let n = (length body + chunk - 1) div chunk
              in write_each
                   (\<lambda>(index, bs). write_render_record
                      (header\<lparr>rc_full := (full \<and> index = 0), rc_last := (index + 1 = n)\<rparr>) bs)
                   (enumerate 0 (chunks_of chunk body)) w)"

section \<open>The preface\<close>

lemma unat_u32_small: "n < 4294967296 \<Longrightarrow> unat (of_nat n :: u32) = n"
  by (simp add: unat_of_nat take_bit_eq_mod)

lemma decode_encoded_preface:
  "decode_preface (encode_preface c m) =
     (if m = 0 \<or> channel_maximum c < unat m then Inl InvalidMaximum else Inr (c, m))"
proof -
  have l: "length magic = 4" by (simp add: magic_def ascii_def)
  have "slice 0 4 (encode_preface c m) = magic" by (simp add: encode_preface_def l)
  moreover have "slice 4 6 (encode_preface c m) = be16 version" by (simp add: encode_preface_def l)
  moreover have "encode_preface c m ! 7 = 0" "encode_preface c m ! 6 = channel_byte c"
    by (simp_all add: encode_preface_def nth_append l)
  moreover have "slice 8 12 (encode_preface c m) = be32 m"
    using slice_skip[of "magic @ be16 version @ [channel_byte c, 0]" 8 12 "be32 m"]
    by (simp add: encode_preface_def l del: slice_skip)
  moreover have "channel_from_byte (channel_byte c) = Inr c"
    by (cases c) (simp_all add: channel_from_byte_def channel_byte_def)
  ultimately show ?thesis by (simp add: decode_preface_def Let_def)
qed

text \<open>
  A preface is understood exactly when its limit is one the channel allows: decoding what a
  peer encodes gives back its channel and limit, and a zero or excessive limit is refused.
\<close>

theorem preface_round_trip:
  "decode_preface (encode_preface c m) =
     (if m = 0 \<or> channel_maximum c < unat m then Inl InvalidMaximum else Inr (c, m))"
  by (rule decode_encoded_preface)

section \<open>Messages over a connection\<close>

text \<open>
  A framed channel: what one successful write appends to the output, one read of a reader in step
  takes off the front of its input, as the same message. Then whole conversations arrive in order.
\<close>

fun read_many :: "('r \<Rightarrow> ('f + 'm) \<times> 'r) \<Rightarrow> nat \<Rightarrow> 'r \<Rightarrow> ('f + 'm list) \<times> 'r" where
  "read_many read 0 r = (Inr [], r)"
| "read_many read (Suc n) r =
     (case read r of
        (Inl e, r') \<Rightarrow> (Inl e, r')
      | (Inr m, r') \<Rightarrow>
          (case read_many read n r' of (Inl e, r'') \<Rightarrow> (Inl e, r'') | (Inr ms, r'') \<Rightarrow> (Inr (m # ms), r'')))"

locale framed_channel =
  fixes put :: "'m \<Rightarrow> 'w \<Rightarrow> 'e option \<times> 'w"
    and get :: "'r \<Rightarrow> ('f + 'm) \<times> 'r"
    and sent :: "'w \<Rightarrow> 'b list"
    and load :: "'b list \<Rightarrow> 'r \<Rightarrow> 'r"
    and linked :: "'w \<Rightarrow> 'r \<Rightarrow> bool"
    and valid :: "'m \<Rightarrow> bool"
  assumes put_get: "valid m \<Longrightarrow> linked w r \<Longrightarrow> put m w = (None, w') \<Longrightarrow>
      \<exists>bs r'. sent w' = sent w @ bs \<and> linked w' r' \<and>
        (\<forall>rest. get (load (bs @ rest) r) = (Inr m, load rest r'))"
begin

lemma write_each_read_many:
  "list_all valid ms \<Longrightarrow> linked w r \<Longrightarrow> write_each put ms w = (None, w') \<Longrightarrow>
     \<exists>bs r'. sent w' = sent w @ bs \<and> linked w' r' \<and>
       (\<forall>rest. read_many get (length ms) (load (bs @ rest) r) = (Inr ms, load rest r'))"
proof (induction ms arbitrary: w r)
  case Nil
  then show ?case by (intro exI[of _ "[]"] exI[of _ r]) simp
next
  case (Cons m ms)
  from Cons.prems(3) obtain w1 where w1: "put m w = (None, w1)" "write_each put ms w1 = (None, w')"
    by (auto split: prod.splits option.splits)
  from put_get[OF _ Cons.prems(2) w1(1)] Cons.prems(1) obtain b1 r1 where
    b1: "sent w1 = sent w @ b1" "linked w1 r1"
    "\<forall>rest. get (load (b1 @ rest) r) = (Inr m, load rest r1)" by auto
  from Cons.IH[OF _ b1(2) w1(2)] Cons.prems(1) obtain b2 r2 where
    b2: "sent w' = sent w1 @ b2" "linked w' r2"
    "\<forall>rest. read_many get (length ms) (load (b2 @ rest) r1) = (Inr ms, load rest r2)" by auto
  have "read_many get (length (m # ms)) (load ((b1 @ b2) @ rest) r) = (Inr (m # ms), load rest r2)" for rest
    using b1(3) b2(3) by simp
  with b1(1) b2(1,2) show ?case by (intro exI[of _ "b1 @ b2"] exI[of _ r2]) simp
qed

end

definition in_step :: "writer \<Rightarrow> reader \<Rightarrow> bool" where
  "in_step w r \<longleftrightarrow> next_sequence w = expected_sequence r \<and> wr_maximum w = rd_maximum r"

lemma read_raw_record:
  assumes "flags AND NOT 1 = 0" and "length body \<le> unat (rd_maximum r)"
  shows "read_raw (r\<lparr>rd_stream := be64 (expected_sequence r) @ be16 rt @ be16 flags @
      be32 (of_nat (length body)) @ body @ rest\<rparr>) =
    (Inr (rt, flags, body), r\<lparr>rd_stream := rest, expected_sequence := expected_sequence r + 1\<rparr>)"
proof -
  define h where "h = be64 (expected_sequence r) @ be16 rt @ be16 flags @ be32 (of_nat (length body))"
  have h: "length h = 16" "slice 0 8 h = be64 (expected_sequence r)" "slice 8 10 h = be16 rt"
    "slice 10 12 h = be16 flags" "slice 12 16 h = be32 (of_nat (length body))"
    by (simp_all add: h_def)
  have "unat (rd_maximum r) < 4294967296" by (rule order_less_le_trans[OF unsigned_less]) simp
  with assms(2) have l: "unat (of_nat (length body) :: u32) = length body" by (simp add: unat_u32_small)
  then have m: "\<not> rd_maximum r < of_nat (length body)" using assms(2) by (simp add: word_less_nat_alt)
  have s: "be64 (expected_sequence r) @ be16 rt @ be16 flags @ be32 (of_nat (length body)) @ body @ rest =
      h @ body @ rest" by (simp add: h_def)
  show ?thesis
    unfolding s using assms(1) h l m by (simp add: read_raw_def read_exact_def Let_def)
qed

lemma write_parts_ok:
  assumes "write_raw_parts rt flags parts w = (e, w')"
  shows "e = None \<longleftrightarrow> flags AND NOT 1 = 0 \<and> length (concat parts) \<le> unat (wr_maximum w)"
    and "e = None \<Longrightarrow> wr_stream w' = wr_stream w @ be64 (next_sequence w) @ be16 rt @ be16 flags @
      be32 (of_nat (length (concat parts))) @ concat parts \<and> next_sequence w' = next_sequence w + 1 \<and>
      wr_maximum w' = wr_maximum w"
  using assms by (auto simp: write_raw_parts_def length_concat Let_def split: if_splits)

lemma raw_round_trip:
  assumes "in_step w r" and "write_raw_parts rt flags parts w = (None, w')"
  shows "\<exists>bs r'. wr_stream w' = wr_stream w @ bs \<and> in_step w' r' \<and>
    (\<forall>rest. read_raw (r\<lparr>rd_stream := bs @ rest\<rparr>) = (Inr (rt, flags, concat parts), r'\<lparr>rd_stream := rest\<rparr>))"
proof -
  note w = write_parts_ok[OF assms(2)]
  have f: "flags AND NOT 1 = 0" and l: "length (concat parts) \<le> unat (rd_maximum r)"
    using w(1) assms(1) by (auto simp: in_step_def)
  show ?thesis
    using w(2) assms(1) read_raw_record[OF f l, of rt]
    by (intro exI[of _ "be64 (next_sequence w) @ be16 rt @ be16 flags @
          be32 (of_nat (length (concat parts))) @ concat parts"]
        exI[of _ "r\<lparr>expected_sequence := expected_sequence r + 1\<rparr>"])
      (auto simp: in_step_def)
qed

section \<open>Server messages\<close>

lemma length_media_header [simp]: "length (media_header c) = 40"
  by (simp add: media_header_def)

lemma length_render_header [simp]: "length (render_header c) = 24"
  by (simp add: render_header_def Let_def)

lemma from_be_zeros [simp]: "from_be [0, 0, 0, 0] = 0" "from_be [0, 0] = 0"
  by (simp_all add: from_be_def)

lemma flag_bits [simp]:
  "media_flag_last AND NOT media_flag_last = 0" "media_flag_last \<noteq> 0"
  by (simp_all add: media_flag_last_def)

lemma decode_media_encoded:
  "decode_media_record (media_header c @ bs) =
     (if unat (mc_total c) < unat (mc_offset c) + length bs then Inl MediaExceedsTotal
      else if mc_last c \<noteq> (unat (mc_offset c) + length bs = unat (mc_total c)) then Inl MediaLastFlag
      else Inr (MediaMessage c bs))"
proof -
  have f: "slice 0 8 (media_header c @ bs) = be64 (mc_delivery c)"
    "slice 8 16 (media_header c @ bs) = be64 (key_producer (mc_source c))"
    "slice 16 24 (media_header c @ bs) = be64 (key_source (mc_source c))"
    "slice 24 26 (media_header c @ bs) = be16 (mc_record_type c)"
    "slice 26 28 (media_header c @ bs) = be16 (if mc_last c then media_flag_last else 0)"
    "slice 28 32 (media_header c @ bs) = be32 (mc_offset c)"
    "slice 32 36 (media_header c @ bs) = be32 (mc_total c)"
    "slice 36 40 (media_header c @ bs) = [0, 0, 0, 0]"
    by (simp_all add: media_header_def) (simp add: slice_def)
  have r: "drop media_record_header (media_header c @ bs) = bs"
    "\<not> length (media_header c @ bs) < media_record_header"
    by (simp_all add: media_record_header_def)
  show ?thesis
    unfolding decode_media_record_def f Let_def r(1) from_be_word
    using r(2) by (cases "mc_last c") auto
qed

lemma render_flag_cases:
  fixes full last :: bool
  defines "flags \<equiv> (if full then render_flag_full else 0) OR (if last then render_flag_last else 0)"
  shows "flags AND NOT (render_flag_full OR render_flag_last) = 0"
    "(flags AND render_flag_full \<noteq> 0) = full" "(flags AND render_flag_last \<noteq> 0) = last"
  by (cases full; cases last; simp add: flags_def render_flag_full_def render_flag_last_def)+

lemma decode_render_encoded: "decode_render_record (render_header c @ bs) = Inr (RenderMessage c bs)"
proof -
  let ?flags = "(if rc_full c then render_flag_full else 0) OR (if rc_last c then render_flag_last else 0)"
  have f: "slice 0 8 (render_header c @ bs) = be64 (rc_frame c)"
    "slice 8 16 (render_header c @ bs) = be64 (rc_session_sequence c)"
    "slice 16 18 (render_header c @ bs) = be16 ?flags"
    by (simp_all add: render_header_def Let_def)
  have z: "slice 18 20 (render_header c @ bs) = [0, 0]" "slice 20 24 (render_header c @ bs) = [0, 0, 0, 0]"
    by (simp_all add: render_header_def Let_def slice_def)
  have r: "drop render_record_header (render_header c @ bs) = bs"
    "\<not> length (render_header c @ bs) < render_record_header"
    by (simp_all add: render_record_header_def)
  show ?thesis
    unfolding decode_render_record_def f z Let_def from_be_word render_flag_cases r(1)
    using r(2) by simp
qed

text \<open>What the server sends for a message, and when the other end accepts it.\<close>

primrec write_server :: "('m \<Rightarrow> bytes option) \<Rightarrow> 'm server_message \<Rightarrow> writer \<Rightarrow> write_result" where
  "write_server to_json (MediaMessage c bs) w = write_media_record c bs w"
| "write_server to_json (RenderMessage c bs) w = write_render_record c bs w"
| "write_server to_json (JsonMessage m) w = send_message to_json m w"

primrec server_message_ok :: "('m \<Rightarrow> bytes option) \<Rightarrow> (bytes \<Rightarrow> 'm option) \<Rightarrow> 'm server_message \<Rightarrow> bool" where
  "server_message_ok to_json from_json (MediaMessage c bs) =
     (unat (mc_offset c) + length bs \<le> unat (mc_total c) \<and>
      mc_last c = (unat (mc_offset c) + length bs = unat (mc_total c)))"
| "server_message_ok to_json from_json (RenderMessage c bs) = True"
| "server_message_ok to_json from_json (JsonMessage m) =
     (case to_json m of None \<Rightarrow> True | Some body \<Rightarrow> from_json body = Some m)"

lemma record_types [simp]:
  "media_record \<noteq> structured_record" "render_record \<noteq> structured_record" "render_record \<noteq> media_record"
  by (simp_all add: structured_record_def media_record_def render_record_def)

interpretation server: framed_channel "write_server to_json" "recv_server from_json" wr_stream
  "\<lambda>bs r. r\<lparr>rd_stream := bs\<rparr>" in_step "server_message_ok to_json from_json" for to_json from_json
proof
  fix m :: "'a server_message" and w r w'
  assume ok: "server_message_ok to_json from_json m" and l: "in_step w r"
    and put: "write_server to_json m w = (None, w')"
  have "\<exists>rt parts. write_raw_parts rt 0 parts w = (None, w') \<and>
      (\<forall>r1 r2. read_raw r1 = (Inr (rt, 0, concat parts), r2) \<longrightarrow> recv_server from_json r1 = (Inr m, r2))"
  proof (cases m)
    case (MediaMessage c bs)
    with ok put show ?thesis
      by (intro exI[of _ media_record] exI[of _ "[media_header c, bs]"])
        (simp add: write_media_record_def recv_server_def decode_media_encoded)
  next
    case (RenderMessage c bs)
    with ok put show ?thesis
      by (intro exI[of _ render_record] exI[of _ "[render_header c, bs]"])
        (simp add: write_render_record_def recv_server_def decode_render_encoded)
  next
    case (JsonMessage j)
    with put obtain body where j: "to_json j = Some body" "write_raw_parts structured_record 0 [body] w = (None, w')"
      by (auto simp: send_message_def write_raw_def split: option.splits)
    with ok JsonMessage show ?thesis
      by (intro exI[of _ structured_record] exI[of _ "[body]"])
        (simp add: recv_server_def decode_structured_def)
  qed
  then obtain rt parts where p: "write_raw_parts rt 0 parts w = (None, w')"
    "\<And>r1 r2. read_raw r1 = (Inr (rt, 0, concat parts), r2) \<Longrightarrow> recv_server from_json r1 = (Inr m, r2)" by blast
  from raw_round_trip[OF l p(1)] p(2)
  show "\<exists>bs r'. wr_stream w' = wr_stream w @ bs \<and> in_step w' r' \<and>
      (\<forall>rest. recv_server from_json (r\<lparr>rd_stream := bs @ rest\<rparr>) = (Inr m, r'\<lparr>rd_stream := rest\<rparr>))"
    by blast
qed

text \<open>
  C27. Messages arrive as they were sent: when a writer and a reader are in step, any sequence of
  server messages the writer accepted -- media chunks with consistent extents, render chunks, and
  JSON messages \<open>serde_json\<close> can read back -- is received as the same messages in the same order,
  no byte of what follows is touched, and both ends are in step again.
\<close>

theorem server_messages_arrive:
  assumes "in_step w r" and "list_all (server_message_ok to_json from_json) ms"
    and "write_each (write_server to_json) ms w = (None, w')"
  shows "\<exists>bs r'. wr_stream w' = wr_stream w @ bs \<and> in_step w' r' \<and>
    (\<forall>rest. read_many (recv_server from_json) (length ms) (r\<lparr>rd_stream := bs @ rest\<rparr>) =
       (Inr ms, r'\<lparr>rd_stream := rest\<rparr>))"
  by (rule server.write_each_read_many[OF assms(2,1,3)])

theorem server_messages_arrive_witness:
  "let w = \<lparr>wr_stream = [], next_sequence = 0, wr_maximum = 100\<rparr>;
       r = \<lparr>rd_stream = [], expected_sequence = 0, rd_maximum = 100\<rparr>;
       c = \<lparr>rc_frame = 7, rc_session_sequence = 3, rc_full = True, rc_last = True\<rparr>;
       ms = [RenderMessage c [104, 105], JsonMessage (5 :: nat)];
       to_json = (\<lambda>n. Some [of_nat n]); from_json = (\<lambda>bs. map_option unat (find (\<lambda>_. True) bs))
   in \<exists>bs r'. read_many (recv_server from_json) 2 (r\<lparr>rd_stream := bs\<rparr>) = (Inr ms, r') \<and>
        bs = wr_stream (snd (write_each (write_server to_json) ms w))"
proof -
  let ?w = "\<lparr>wr_stream = [], next_sequence = 0, wr_maximum = 100\<rparr>"
  let ?r = "\<lparr>rd_stream = [], expected_sequence = 0, rd_maximum = 100\<rparr>"
  let ?c = "\<lparr>rc_frame = 7, rc_session_sequence = 3, rc_full = True, rc_last = True\<rparr>"
  let ?ms = "[RenderMessage ?c [104, 105], JsonMessage (5 :: nat)]"
  let ?to = "\<lambda>n :: nat. Some [of_nat n :: byte]"
  let ?from = "\<lambda>bs :: bytes. map_option unat (find (\<lambda>_. True) bs)"
  obtain e w' where w': "write_each (write_server ?to) ?ms ?w = (e, w')" by fastforce
  have "fst (write_each (write_server ?to) ?ms ?w) = None" by code_simp
  with w' have "write_each (write_server ?to) ?ms ?w = (None, w')" by simp
  moreover have "in_step ?w ?r" by (simp add: in_step_def)
  moreover have "list_all (server_message_ok ?to ?from) ?ms" by simp
  ultimately obtain bs r' where b: "wr_stream w' = wr_stream ?w @ bs"
    "\<forall>rest. read_many (recv_server ?from) (length ?ms) (?r\<lparr>rd_stream := bs @ rest\<rparr>) = (Inr ?ms, r'\<lparr>rd_stream := rest\<rparr>)"
    using server_messages_arrive by blast
  from b(2)[rule_format, of "[]"] b(1) w' show ?thesis
    unfolding Let_def by (intro exI[of _ bs] exI[of _ "r'\<lparr>rd_stream := []\<rparr>"]) (simp add: numeral_2_eq_2)
qed

section \<open>A media body in chunks\<close>

primrec payload :: "'m server_message \<Rightarrow> bytes" where
  "payload (MediaMessage c bs) = bs"
| "payload (RenderMessage c bs) = bs"
| "payload (JsonMessage m) = []"

text \<open>
  A gapless run of chunks of one body from an offset to its total: every chunk names the delivery
  and ends where the next begins, and only the final chunk carries the last flag.
\<close>

fun media_run :: "u64 \<Rightarrow> bridge_source_key \<Rightarrow> u16 \<Rightarrow> nat \<Rightarrow> nat \<Rightarrow> 'm server_message list \<Rightarrow> bool" where
  "media_run d s rt tot offset [] = False"
| "media_run d s rt tot offset (m # ms) =
     (case m of
        MediaMessage c bs \<Rightarrow>
          mc_delivery c = d \<and> mc_source c = s \<and> mc_record_type c = rt \<and> unat (mc_offset c) = offset \<and>
          unat (mc_total c) = tot \<and> mc_last c = (ms = []) \<and>
          (if ms = [] then offset + length bs = tot \<and> (bs \<noteq> [] \<or> offset = 0)
           else bs \<noteq> [] \<and> media_run d s rt tot (offset + length bs) ms)
      | _ \<Rightarrow> False)"

lemma chunks_of_concat: "0 < n \<Longrightarrow> concat (chunks_of n xs) = xs"
  by (induction n xs rule: chunks_of.induct) (subst chunks_of.simps, simp)

lemma chunks_of_length: "bs \<in> set (chunks_of n xs) \<Longrightarrow> length bs \<le> n"
proof (induction n xs rule: chunks_of.induct)
  case (1 n xs)
  from 1(2) have "bs \<in> set (if n = 0 \<or> xs = [] then [] else take n xs # chunks_of n (drop n xs))"
    by (simp only: chunks_of.simps[of n xs])
  with 1(1) show ?case by (auto split: if_splits)
qed

definition media_piece ::
  "u64 \<Rightarrow> bridge_source_key \<Rightarrow> u16 \<Rightarrow> nat \<Rightarrow> nat \<Rightarrow> nat \<times> bytes \<Rightarrow> 'm server_message" where
  "media_piece d s rt tot k p =
     (case p of (index, bs) \<Rightarrow>
        let offset = of_nat (index * k) :: u32
        in MediaMessage \<lparr>mc_delivery = d, mc_source = s, mc_record_type = rt, mc_offset = offset,
             mc_total = of_nat tot, mc_last = (unat offset + length bs = tot)\<rparr> bs)"

lemma media_run_chunks:
  fixes i :: nat
  assumes "tot < 4294967296" and "0 < k"
  shows "xs \<noteq> [] \<Longrightarrow> i * k + length xs = tot \<Longrightarrow>
    media_run d s rt tot (i * k) (map (media_piece d s rt tot k) (enumerate i (chunks_of k xs)))"
proof (induction "length xs" arbitrary: xs i rule: less_induct)
  case less
  have c: "chunks_of k xs = take k xs # chunks_of k (drop k xs)"
    using less.prems(1) assms(2) by (subst chunks_of.simps) simp
  have off: "unat (of_nat (i * k) :: u32) = i * k" "unat (of_nat tot :: u32) = tot"
    by (rule unat_u32_small, use less.prems assms(1) in linarith)+
  show ?case
  proof (cases "length xs \<le> k")
    case True
    then have "chunks_of k (drop k xs) = []" by (subst chunks_of.simps) simp
    with True c off less.prems show ?thesis by (simp add: media_piece_def Let_def)
  next
    case False
    then have n: "drop k xs \<noteq> []" "length (drop k xs) < length xs" "Suc i * k + length (drop k xs) = tot"
      using less.prems assms(2) by auto
    note IH = less.hyps[OF n(2) n(1) n(3)]
    from n(1) assms(2) have "enumerate (Suc i) (chunks_of k (drop k xs)) \<noteq> []" by (subst chunks_of.simps) simp
    with IH False c off less.prems assms(2) show ?thesis
      by (simp add: media_piece_def[of _ _ _ _ _ "(i, _)"] Let_def add.commute)
  qed
qed

lemma media_run_bound: "media_run d s rt tot offset ms \<Longrightarrow> 0 < offset \<Longrightarrow> offset < tot"
proof (induction ms arbitrary: offset)
  case (Cons m ms)
  then obtain c bs where m: "m = MediaMessage c bs" by (cases m) auto
  show ?case
  proof (cases "ms = []")
    case True
    with Cons.prems m show ?thesis by (cases bs) auto
  next
    case False
    with Cons.prems m have "media_run d s rt tot (offset + length bs) ms" by simp
    from Cons.IH[OF this] Cons.prems(2) show ?thesis by simp
  qed
qed simp

lemma media_run_ok:
  "media_run d s rt tot offset ms \<Longrightarrow> list_all (server_message_ok to_json from_json) ms"
proof (induction ms arbitrary: offset)
  case (Cons m ms)
  then obtain c bs where m: "m = MediaMessage c bs" by (cases m) auto
  show ?case
  proof (cases "ms = []")
    case True
    with Cons.prems m show ?thesis by simp
  next
    case False
    with Cons.prems m have run: "media_run d s rt tot (offset + length bs) ms" and "bs \<noteq> []" by simp_all
    from media_run_bound[OF run] \<open>bs \<noteq> []\<close> have "offset + length bs < tot" by simp
    with Cons.IH[OF run] Cons.prems m False show ?thesis by simp
  qed
qed simp

text \<open>A writer refuses nothing that fits its limit.\<close>

lemma media_fits:
  "40 + length bs \<le> unat (wr_maximum w) \<Longrightarrow>
     \<exists>w'. write_media_record c bs w = (None, w') \<and> wr_maximum w' = wr_maximum w"
  by (simp add: write_media_record_def write_raw_parts_def Let_def)

lemma media_run_fits:
  "media_run d s rt tot offset ms \<Longrightarrow> list_all (\<lambda>m. 40 + length (payload m) \<le> unat (wr_maximum w)) ms \<Longrightarrow>
     \<exists>w'. write_each (write_server to_json) ms w = (None, w')"
proof (induction ms arbitrary: offset w)
  case (Cons m ms)
  then obtain c bs where m: "m = MediaMessage c bs" by (cases m) auto
  with Cons.prems(2) media_fits[of bs w c] obtain w1 where
    w1: "write_server to_json m w = (None, w1)" "wr_maximum w1 = wr_maximum w" by auto
  show ?case
  proof (cases "ms = []")
    case True
    with w1 show ?thesis by simp
  next
    case False
    with Cons.prems m have "media_run d s rt tot (offset + length bs) ms" by simp
    from Cons.IH[OF this, of w1] Cons.prems(2) w1 show ?thesis by simp
  qed
qed simp

lemma write_each_map: "write_each f (map g xs) w = write_each (\<lambda>x. f (g x)) xs w"
  by (induction xs arbitrary: w) (auto split: prod.splits option.splits)

text \<open>The messages a media body is sent as.\<close>

definition media_messages ::
  "u64 \<Rightarrow> bridge_source_key \<Rightarrow> u16 \<Rightarrow> bytes \<Rightarrow> writer \<Rightarrow> 'm server_message list" where
  "media_messages d s rt body w =
     (if body = [] then [media_piece d s rt 0 1 (0, [])]
      else let k = clamp_val (payload_capacity media_record_header w) 1 media_chunk_bytes
           in map (media_piece d s rt (length body) k) (enumerate 0 (chunks_of k body)))"

lemma send_media_messages:
  assumes "length body < 4294967296"
  shows "send_media_record d s rt body w = write_each (write_server to_json) (media_messages d s rt body w) w"
proof (cases "body = []")
  case True
  then show ?thesis
    by (simp add: send_media_record_def media_messages_def media_piece_def Let_def split: prod.split option.split)
next
  case False
  have "(\<lambda>p. write_server to_json (media_piece d s rt (length body) k p)) =
      (\<lambda>(index, bs). let offset = of_nat (index * k) :: u32
        in write_media_record \<lparr>mc_delivery = d, mc_source = s, mc_record_type = rt, mc_offset = offset,
             mc_total = of_nat (length body), mc_last = (unat offset + length bs = length body)\<rparr> bs)" for k
    by (auto simp: media_piece_def Let_def fun_eq_iff)
  with assms False show ?thesis
    by (simp add: send_media_record_def media_messages_def Let_def write_each_map)
qed

lemma payload_pieces: "map payload (map (media_piece d s rt n k) (enumerate i cs)) = cs"
  by (induction cs arbitrary: i) (simp_all add: media_piece_def Let_def)

lemma media_messages_payloads:
  "map payload (media_messages d s rt body w) =
     (if body = [] then [[]]
      else chunks_of (clamp_val (payload_capacity media_record_header w) 1 media_chunk_bytes) body)"
  by (simp add: media_messages_def media_piece_def[of _ _ _ 0] Let_def payload_pieces del: map_map)

lemma media_messages_run:
  assumes "length body < 4294967296"
  shows "media_run d s rt (length body) 0 (media_messages d s rt body w)"
    and "concat (map payload (media_messages d s rt body w)) = body"
    and "40 < unat (wr_maximum w) \<Longrightarrow>
      list_all (\<lambda>m. 40 + length (payload m) \<le> unat (wr_maximum w)) (media_messages d s rt body w)"
proof -
  let ?k = "clamp_val (payload_capacity media_record_header w) 1 media_chunk_bytes"
  have k: "0 < ?k" by (simp add: clamp_val_def)
  show "media_run d s rt (length body) 0 (media_messages d s rt body w)"
  proof (cases "body = []")
    case True
    then show ?thesis by (simp add: media_messages_def media_piece_def Let_def)
  next
    case False
    with media_run_chunks[OF assms k False, of 0] show ?thesis by (simp add: media_messages_def Let_def)
  qed
  show "concat (map payload (media_messages d s rt body w)) = body"
    unfolding media_messages_payloads using chunks_of_concat[OF k, of body] by simp
  show "list_all (\<lambda>m. 40 + length (payload m) \<le> unat (wr_maximum w)) (media_messages d s rt body w)"
    if big: "40 < unat (wr_maximum w)"
  proof (cases "body = []")
    case True
    with big show ?thesis by (simp add: media_messages_def media_piece_def Let_def)
  next
    case False
    have "?k + 40 \<le> unat (wr_maximum w)"
      using big by (auto simp: clamp_val_def payload_capacity_def media_record_header_def)
    then have "\<forall>bs\<in>set (chunks_of ?k body). 40 + length bs \<le> unat (wr_maximum w)"
      using chunks_of_length by fastforce
    then have "\<forall>bs\<in>set (map payload (media_messages d s rt body w)). 40 + length bs \<le> unat (wr_maximum w)"
      unfolding media_messages_payloads using False by simp
    then show ?thesis by (simp add: list_all_iff)
  qed
qed

text \<open>
  C28. A media body crosses the connection whole: with a negotiated limit above the header size,
  sending a body of less than 4 GiB never fails, and the other end receives a gapless run of chunks
  from offset zero to the body's length, the last flag only on the final one, whose payloads are
  exactly the body.
\<close>

theorem media_body_arrives:
  fixes from_json :: "bytes \<Rightarrow> 'm option"
  assumes "in_step w r" and "40 < unat (wr_maximum w)" and "length body < 4294967296"
  shows "\<exists>w' bs r' ms. send_media_record d s rt body w = (None, w') \<and> wr_stream w' = wr_stream w @ bs \<and>
    in_step w' r' \<and> media_run d s rt (length body) 0 ms \<and> concat (map payload ms) = body \<and>
    (\<forall>rest. read_many (recv_server from_json) (length ms) (r\<lparr>rd_stream := bs @ rest\<rparr>) =
       (Inr ms, r'\<lparr>rd_stream := rest\<rparr>))"
proof -
  let ?ms = "media_messages d s rt body w :: 'm server_message list"
  let ?to = "\<lambda>_ :: 'm. None"
  note run = media_messages_run[OF assms(3)]
  from media_run_fits[OF run(1) run(3)[OF assms(2)], of ?to] obtain w' where
    w': "write_each (write_server ?to) ?ms w = (None, w')" by blast
  from server.write_each_read_many[OF media_run_ok[OF run(1)] assms(1) w', of from_json] obtain bs r' where
    "wr_stream w' = wr_stream w @ bs" "in_step w' r'"
    "\<forall>rest. read_many (recv_server from_json) (length ?ms) (r\<lparr>rd_stream := bs @ rest\<rparr>) =
      (Inr ?ms, r'\<lparr>rd_stream := rest\<rparr>)" by blast
  with run(1,2) w' send_media_messages[OF assms(3), of d s rt w ?to] show ?thesis by metis
qed

theorem media_body_arrives_witness:
  "\<exists>w'. send_media_record 1 \<lparr>key_producer = 2, key_source = 3\<rparr> 4 [9, 9, 9]
      \<lparr>wr_stream = [], next_sequence = 5, wr_maximum = 42\<rparr> = (None, w')"
proof -
  let ?w = "\<lparr>wr_stream = [], next_sequence = 5, wr_maximum = 42\<rparr>"
  let ?r = "\<lparr>rd_stream = [], expected_sequence = 5, rd_maximum = 42\<rparr>"
  have "in_step ?w ?r" "40 < unat (wr_maximum ?w)" "length [9, 9, 9 :: byte] < 4294967296"
    by (simp_all add: in_step_def)
  from media_body_arrives[OF this, where from_json = "\<lambda>_. None :: nat option"] show ?thesis by metis
qed

text \<open>
  A negotiated limit no larger than the 40-byte media header makes every media body fail, the
  empty one with a smaller limit too: the chunk size is clamped to at least one byte, so the record
  is longer than the limit although the chunking is meant to make that impossible.
\<close>

theorem small_limit_rejects_media:
  assumes "unat (wr_maximum w) \<le> 40" and "body \<noteq> []" and "length body < 4294967296"
  shows "send_media_record d s rt body w = (Some BodyTooLong, w)"
proof -
  let ?k = "clamp_val (payload_capacity media_record_header w) 1 media_chunk_bytes"
  have k: "?k = 1"
    using assms(1) by (simp add: clamp_val_def payload_capacity_def media_record_header_def media_chunk_bytes_def)
  obtain b bs where body: "body = b # bs" using assms(2) by (cases body) auto
  have "chunks_of 1 body = [b] # chunks_of 1 bs" unfolding body by (subst chunks_of.simps) simp
  then show ?thesis
    using assms k
    by (simp add: send_media_record_def Let_def write_media_record_def write_raw_parts_def)
qed

theorem small_limit_rejects_media_witness:
  "decode_preface (encode_preface Bulk 40) = Inr (Bulk, 40) \<and>
   fst (send_media_record 1 \<lparr>key_producer = 2, key_source = 3\<rparr> 4 [9]
      \<lparr>wr_stream = [], next_sequence = 0, wr_maximum = 40\<rparr>) = Some BodyTooLong"
proof
  show "decode_preface (encode_preface Bulk 40) = Inr (Bulk, 40)"
    by (simp add: decode_encoded_preface channel_maximum_def bulk_max_body_def)
  show "fst (send_media_record 1 \<lparr>key_producer = 2, key_source = 3\<rparr> 4 [9]
      \<lparr>wr_stream = [], next_sequence = 0, wr_maximum = 40\<rparr>) = Some BodyTooLong"
    using small_limit_rejects_media[of "\<lparr>wr_stream = [], next_sequence = 0, wr_maximum = 40\<rparr>" "[9]"]
    by simp
qed

end
