(* ===== verification/Tiled.thy ===== *)
theory Tiled
  imports Geometry
begin

text \<open>
  The tiled pane tree (\<open>src/src/layout.rs\<close>, lines 433 to 688): placement of the leaves in an
  area, splitting, closing and one-cell resizing. \<open>Ord::clamp\<close> stops the program when its
  bounds cross, which happens for a split of an area one cell wide, so everything that places a
  tree returns an option with \<open>None\<close> for that panic.
\<close>

datatype tiled_node =
    Leaf pane_id
  | Split axis tiled_node tiled_node nat nat

section \<open>Reading a tree\<close>

fun collect :: "tiled_node \<Rightarrow> pane_id list \<Rightarrow> pane_id list" where
  "collect (Leaf pane) out = out @ [pane]"
| "collect (Split _ a b _ _) out = collect b (collect a out)"

definition pane_ids :: "tiled_node \<Rightarrow> pane_id list" where
  "pane_ids t = collect t []"

fun node_contains :: "tiled_node \<Rightarrow> pane_id \<Rightarrow> bool" where
  "node_contains (Leaf q) p \<longleftrightarrow> q = p"
| "node_contains (Split _ a b _ _) p \<longleftrightarrow> node_contains a p \<or> node_contains b p"

section \<open>Placement\<close>

text \<open>The size of the first child along the split axis (\<open>None\<close>: \<open>clamp\<close> panics).\<close>

definition first_size :: "nat \<Rightarrow> nat \<Rightarrow> nat \<Rightarrow> nat option" where
  "first_size dim w1 w2 =
     clamp (mul32 dim w1 div max (sat_add32 w1 w2) 1) 1 (dim - 1)"

fun place :: "tiled_node \<Rightarrow> rect \<Rightarrow> (pane_id \<times> rect) list \<Rightarrow> (pane_id \<times> rect) list option" where
  "place (Leaf pane) area out = Some (bt_insert pane area out)"
| "place (Split Vertical a b w1 w2) area out =
     do { first_width \<leftarrow> first_size (rect_width area) w1 w2;
          out1 \<leftarrow> place a (area\<lparr>rect_width := first_width\<rparr>) out;
          place b (area\<lparr>rect_x := sat_add16 (rect_x area) first_width,
                       rect_width := rect_width area - first_width\<rparr>) out1 }"
| "place (Split Horizontal a b w1 w2) area out =
     do { first_height \<leftarrow> first_size (rect_height area) w1 w2;
          out1 \<leftarrow> place a (area\<lparr>rect_height := first_height\<rparr>) out;
          place b (area\<lparr>rect_y := sat_add16 (rect_y area) first_height,
                       rect_height := rect_height area - first_height\<rparr>) out1 }"

definition geometry :: "tiled_node \<Rightarrow> rect \<Rightarrow> (pane_id \<times> rect) list option" where
  "geometry t area = place t area []"

definition split_areas :: "rect \<Rightarrow> axis \<Rightarrow> nat \<Rightarrow> nat \<Rightarrow> (rect \<times> rect \<times> nat) option" where
  "split_areas area ax w1 w2 =
     (case ax of
        Vertical \<Rightarrow>
          map_option (\<lambda>s. (area\<lparr>rect_width := s\<rparr>,
            area\<lparr>rect_x := add16 (rect_x area) s, rect_width := rect_width area - s\<rparr>,
            rect_width area)) (first_size (rect_width area) w1 w2)
      | Horizontal \<Rightarrow>
          map_option (\<lambda>s. (area\<lparr>rect_height := s\<rparr>,
            area\<lparr>rect_y := add16 (rect_y area) s, rect_height := rect_height area - s\<rparr>,
            rect_height area)) (first_size (rect_height area) w1 w2))"

section \<open>Splitting and closing\<close>

fun replace_leaf :: "tiled_node \<Rightarrow> pane_id \<Rightarrow> (pane_id \<Rightarrow> tiled_node) \<Rightarrow> bool \<times> tiled_node" where
  "replace_leaf (Leaf pane) target f =
     (if pane = target then (True, f pane) else (False, Leaf pane))"
| "replace_leaf (Split ax a b w1 w2) target f =
     (if node_contains a target
      then (case replace_leaf a target f of (ok, a') \<Rightarrow> (ok, Split ax a' b w1 w2))
      else (case replace_leaf b target f of (ok, b') \<Rightarrow> (ok, Split ax a b' w1 w2)))"

datatype split_error = FocusedNotInLayout | BelowMinimumContent

definition too_small :: "rect \<Rightarrow> bool" where
  "too_small r \<longleftrightarrow> rect_width (content r) < min_content_columns \<or>
                   rect_height (content r) < min_content_rows"

text \<open>\<open>None\<close> is the panic of \<open>geometry\<close>; \<open>Inl\<close> leaves the tree as it was.\<close>

definition node_split ::
    "tiled_node \<Rightarrow> pane_id \<Rightarrow> pane_id \<Rightarrow> axis \<Rightarrow> rect \<Rightarrow> (split_error + tiled_node) option" where
  "node_split t focused new_pane ax area =
     (case replace_leaf t focused (\<lambda>pane. Split ax (Leaf pane) (Leaf new_pane) 1 1) of
        (False, _) \<Rightarrow> Some (Inl FocusedNotInLayout)
      | (True, candidate) \<Rightarrow>
          (case geometry candidate area of
             None \<Rightarrow> None
           | Some g \<Rightarrow>
               if list_ex (\<lambda>(_, r). too_small r) g then Some (Inl BelowMinimumContent)
               else Some (Inr candidate)))"

fun close :: "tiled_node \<Rightarrow> pane_id \<Rightarrow> tiled_node option" where
  "close (Leaf q) p = (if q \<noteq> p then Some (Leaf q) else None)"
| "close (Split ax a b w1 w2) p =
     (case (close a p, close b p) of
        (Some a', Some b') \<Rightarrow> Some (Split ax a' b' w1 w2)
      | (Some survivor, None) \<Rightarrow> Some survivor
      | (None, Some survivor) \<Rightarrow> Some survivor
      | (None, None) \<Rightarrow> None)"

section \<open>Resizing\<close>

definition compatible :: "axis \<Rightarrow> direction \<Rightarrow> bool" where
  "compatible ax d \<longleftrightarrow>
     (case ax of Vertical \<Rightarrow> d = DLeft \<or> d = DRight | Horizontal \<Rightarrow> d = DUp \<or> d = DDown)"

definition resize_delta :: "axis \<Rightarrow> bool \<Rightarrow> direction \<Rightarrow> int" where
  "resize_delta ax in_first d =
     (if in_first \<and> (ax = Vertical \<and> d = DRight \<or> ax = Horizontal \<and> d = DDown) then 1
      else if \<not> in_first \<and> (ax = Vertical \<and> d = DLeft \<or> ax = Horizontal \<and> d = DUp) then - 1
      else 0)"

definition split_minimum :: "axis \<Rightarrow> nat" where
  "split_minimum ax =
     (case ax of Vertical \<Rightarrow> min_content_columns + frame_columns
               | Horizontal \<Rightarrow> min_content_rows + frame_rows)"

definition axis_size :: "axis \<Rightarrow> rect \<Rightarrow> nat" where
  "axis_size ax r = (case ax of Vertical \<Rightarrow> rect_width r | Horizontal \<Rightarrow> rect_height r)"

text \<open>Returns the new node, the \<open>changed\<close> flag and whether the focused pane is below it.\<close>

fun resize_inner ::
    "tiled_node \<Rightarrow> pane_id \<Rightarrow> direction \<Rightarrow> rect \<Rightarrow> bool \<Rightarrow> (tiled_node \<times> bool \<times> bool) option" where
  "resize_inner (Leaf q) focused d area changed = Some (Leaf q, changed, q = focused)"
| "resize_inner (Split ax a b w1 w2) focused d area changed =
     (let in_first = node_contains a focused in
      case split_areas area ax w1 w2 of
        None \<Rightarrow> None
      | Some (first_area, second_area, span) \<Rightarrow>
          (case (if in_first
                 then map_option (\<lambda>(a', r). (a', b, r)) (resize_inner a focused d first_area changed)
                 else map_option (\<lambda>(b', r). (a, b', r)) (resize_inner b focused d second_area changed)) of
             None \<Rightarrow> None
           | Some (a', b', changed', contains) \<Rightarrow>
               let delta = resize_delta ax in_first d;
                   nxt = int (axis_size ax first_area) + delta
               in if contains \<and> \<not> changed' \<and> compatible ax d \<and> delta \<noteq> 0 \<and>
                     int (split_minimum ax) \<le> nxt \<and> nxt \<le> int (span - split_minimum ax)
                  then Some (Split ax a' b' (nat nxt) (span - nat nxt), True, contains)
                  else Some (Split ax a' b' w1 w2, changed', contains)))"

definition node_resize ::
    "tiled_node \<Rightarrow> pane_id \<Rightarrow> direction \<Rightarrow> rect \<Rightarrow> (tiled_node \<times> bool) option" where
  "node_resize t focused d area =
     map_option (\<lambda>(t', changed, _). (t', changed)) (resize_inner t focused d area False)"

section \<open>Pane ids\<close>

lemma collect_append: "collect t out = out @ pane_ids t"
proof (induction t arbitrary: out)
  case (Leaf x)
  then show ?case by (simp add: pane_ids_def)
next
  case (Split ax a b w1 w2)
  have "pane_ids (Split ax a b w1 w2) = collect b (collect a [])"
    by (simp only: pane_ids_def collect.simps)
  then show ?case by (simp add: Split.IH)
qed

lemma pane_ids_simps [simp]:
  "pane_ids (Leaf p) = [p]"
  "pane_ids (Split ax a b w1 w2) = pane_ids a @ pane_ids b"
proof -
  show "pane_ids (Leaf p) = [p]" by (simp add: pane_ids_def)
  have "pane_ids (Split ax a b w1 w2) = collect b (collect a [])"
    by (simp only: pane_ids_def collect.simps)
  then show "pane_ids (Split ax a b w1 w2) = pane_ids a @ pane_ids b"
    by (simp add: collect_append)
qed

lemma pane_ids_nonempty [simp]: "pane_ids t \<noteq> []"
  by (induction t) auto

lemma node_contains_iff: "node_contains t p \<longleftrightarrow> p \<in> set (pane_ids t)"
  by (induction t) auto

lemma close_absent: "p \<notin> set (pane_ids t) \<Longrightarrow> close t p = Some t"
  by (induction t) auto

lemma close_pane_ids:
  "filter (\<lambda>q. q \<noteq> p) (pane_ids t) = (case close t p of None \<Rightarrow> [] | Some t' \<Rightarrow> pane_ids t')"
  by (induction t) (auto split: option.splits)

text \<open>
  C5. Closing a pane removes exactly that leaf: the remaining panes keep their order, and the
  tree disappears exactly when every leaf was the closed pane.
\<close>

theorem close_removes_exactly:
  "(case close t p of
      None \<Rightarrow> set (pane_ids t) = {p}
    | Some t' \<Rightarrow> pane_ids t' = filter (\<lambda>q. q \<noteq> p) (pane_ids t))"
proof (cases "close t p")
  case None
  with close_pane_ids[of p t] have all: "\<forall>q\<in>set (pane_ids t). q = p"
    by (simp add: filter_empty_conv)
  obtain q qs where "pane_ids t = q # qs" by (cases "pane_ids t") simp_all
  with all have "set (pane_ids t) = {p}" by auto
  with None show ?thesis by simp
next
  case (Some t')
  with close_pane_ids[of p t] show ?thesis by simp
qed

lemma replace_leaf_fst: "fst (replace_leaf t p f) = node_contains t p"
  by (induction t) (auto simp: node_contains_iff split: prod.splits)

lemma replace_leaf_ids:
  assumes "distinct (pane_ids t)" and "p \<in> set (pane_ids t)"
  shows "\<exists>xs ys. pane_ids t = xs @ p # ys \<and>
           pane_ids (snd (replace_leaf t p f)) = xs @ pane_ids (f p) @ ys"
  using assms
proof (induction t)
  case (Leaf x)
  then show ?case by (intro exI[of _ "[]"]) simp
next
  case (Split ax a b w1 w2)
  show ?case
  proof (cases "p \<in> set (pane_ids a)")
    case True
    with Split obtain xs ys where "pane_ids a = xs @ p # ys"
      "pane_ids (snd (replace_leaf a p f)) = xs @ pane_ids (f p) @ ys" by auto
    with True show ?thesis
      by (intro exI[of _ xs] exI[of _ "ys @ pane_ids b"])
        (auto simp: node_contains_iff split: prod.splits)
  next
    case False
    with Split obtain xs ys where "pane_ids b = xs @ p # ys"
      "pane_ids (snd (replace_leaf b p f)) = xs @ pane_ids (f p) @ ys" by auto
    with False show ?thesis
      by (intro exI[of _ "pane_ids a @ xs"] exI[of _ ys])
        (auto simp: node_contains_iff split: prod.splits)
  qed
qed

lemma close_replace:
  assumes "distinct (pane_ids t)" and "p \<in> set (pane_ids t)" and "n \<notin> set (pane_ids t)"
  shows "close (snd (replace_leaf t p (\<lambda>q. Split ax (Leaf q) (Leaf n) 1 1))) n = Some t"
  using assms
proof (induction t)
  case (Leaf x)
  then show ?case by auto
next
  case (Split bx a b w1 w2)
  show ?case
  proof (cases "p \<in> set (pane_ids a)")
    case True
    with Split show ?thesis
      by (auto simp: node_contains_iff close_absent split: prod.splits)
  next
    case False
    with Split show ?thesis
      by (auto simp: node_contains_iff close_absent split: prod.splits)
  qed
qed

section \<open>Placement tiles the area\<close>

text \<open>
  The rectangles in tree order, before they are filed under their pane ids; both axes at once.
\<close>

definition first_area :: "axis \<Rightarrow> rect \<Rightarrow> nat \<Rightarrow> rect" where
  "first_area ax r s =
     (case ax of Vertical \<Rightarrow> r\<lparr>rect_width := s\<rparr> | Horizontal \<Rightarrow> r\<lparr>rect_height := s\<rparr>)"

definition second_area :: "axis \<Rightarrow> rect \<Rightarrow> nat \<Rightarrow> rect" where
  "second_area ax r s =
     (case ax of
        Vertical \<Rightarrow> r\<lparr>rect_x := sat_add16 (rect_x r) s, rect_width := rect_width r - s\<rparr>
      | Horizontal \<Rightarrow> r\<lparr>rect_y := sat_add16 (rect_y r) s, rect_height := rect_height r - s\<rparr>)"

lemma place_Split:
  "place (Split ax a b w1 w2) area out =
     do { s \<leftarrow> first_size (axis_size ax area) w1 w2;
          out1 \<leftarrow> place a (first_area ax area s) out;
          place b (second_area ax area s) out1 }"
  by (cases ax) (simp_all add: axis_size_def first_area_def second_area_def)

fun leaf_areas :: "tiled_node \<Rightarrow> rect \<Rightarrow> (pane_id \<times> rect) list option" where
  "leaf_areas (Leaf pane) area = Some [(pane, area)]"
| "leaf_areas (Split ax a b w1 w2) area =
     do { s \<leftarrow> first_size (axis_size ax area) w1 w2;
          la \<leftarrow> leaf_areas a (first_area ax area s);
          lb \<leftarrow> leaf_areas b (second_area ax area s);
          Some (la @ lb) }"

definition file_all :: "(pane_id \<times> rect) list \<Rightarrow> (pane_id \<times> rect) list \<Rightarrow> (pane_id \<times> rect) list" where
  "file_all l out = fold (\<lambda>(p, r). bt_insert p r) l out"

lemma file_all_append [simp]: "file_all (xs @ ys) out = file_all ys (file_all xs out)"
  by (simp add: file_all_def)

lemma place_leaf_areas: "place t area out = map_option (\<lambda>l. file_all l out) (leaf_areas t area)"
proof (induction t arbitrary: area out)
  case (Leaf x)
  then show ?case by (simp add: file_all_def)
next
  case (Split ax a b w1 w2)
  show ?case
    by (simp only: place_Split leaf_areas.simps Split.IH)
      (auto simp: bind_eq_Some_conv map_option_case split: option.splits bind_splits)
qed

lemma leaf_areas_ids: "leaf_areas t area = Some l \<Longrightarrow> map fst l = pane_ids t"
  by (induction t arbitrary: area l) (auto simp: bind_eq_Some_conv)

lemma file_all_wf: "bt_wf out \<Longrightarrow> bt_wf (file_all l out)"
  unfolding file_all_def by (induction l arbitrary: out) (auto simp: bt_insert_wf)

lemma file_all_map_of:
  "bt_wf out \<Longrightarrow> map_of (file_all l out) = map_of out ++ map_of (rev l)"
proof (induction l arbitrary: out)
  case Nil
  then show ?case by (simp add: file_all_def)
next
  case (Cons e l)
  obtain p r where e: "e = (p, r)" by (cases e)
  have "file_all (e # l) out = file_all l (bt_insert p r out)" by (simp add: file_all_def e)
  then show ?case
    using Cons.IH[OF bt_insert_wf[OF Cons.prems], of p r] bt_insert_map_of[OF Cons.prems, of p r]
    by (simp add: e fun_upd_def map_add_def fun_eq_iff split: option.splits)
qed

lemma geometry_set:
  assumes "geometry t area = Some g" and "distinct (pane_ids t)"
  obtains l where "leaf_areas t area = Some l" and "set g = set l"
    and "distinct (map fst l)" and "distinct (map fst g)" and "bt_wf g"
proof -
  from assms(1) obtain l where l: "leaf_areas t area = Some l" and g: "g = file_all l []"
    by (auto simp: geometry_def place_leaf_areas)
  have dl: "distinct (map fst l)" using leaf_areas_ids[OF l] assms(2) by simp
  have wf: "bt_wf g" unfolding g by (rule file_all_wf) simp
  have "map_of g = map_of (rev l)" unfolding g by (simp add: file_all_map_of)
  with dl bt_wf_distinct[OF wf] have "set g = set l"
    using map_of_inject_set[of g "rev l"] by (simp add: rev_map[symmetric])
  with l dl wf bt_wf_distinct[OF wf] show ?thesis by (intro that)
qed

lemma first_size_bounds:
  "first_size dim w1 w2 = Some s \<Longrightarrow> 1 \<le> s \<and> s + 1 \<le> dim"
  unfolding first_size_def clamp_Some_iff by (simp add: max_def min_def split: if_splits)

lemma split_partition:
  assumes "area_ok r" and "1 \<le> s" and "s + 1 \<le> axis_size ax r"
  shows "area_ok (first_area ax r s)" and "area_ok (second_area ax r s)"
    and "inside (first_area ax r s) r" and "inside (second_area ax r s) r"
    and "rect_contains r px py \<longleftrightarrow>
      rect_contains (first_area ax r s) px py \<or> rect_contains (second_area ax r s) px py"
    and "\<not> (rect_contains (first_area ax r s) px py \<and> rect_contains (second_area ax r s) px py)"
  using assms
  by (cases ax; force simp: first_area_def second_area_def axis_size_def area_ok_def rect_ok_def
      inside_def rect_contains_def)+

lemma leaf_areas_inside:
  "leaf_areas t area = Some l \<Longrightarrow> area_ok area \<Longrightarrow> e \<in> set l \<Longrightarrow>
     inside (snd e) area \<and> area_ok (snd e)"
proof (induction t arbitrary: area l)
  case (Leaf x)
  then show ?case by auto
next
  case (Split ax a b w1 w2)
  from Split.prems(1) obtain s la lb where s: "first_size (axis_size ax area) w1 w2 = Some s"
    and la: "leaf_areas a (first_area ax area s) = Some la"
    and lb: "leaf_areas b (second_area ax area s) = Some lb" and l: "l = la @ lb"
    by (auto simp: bind_eq_Some_conv)
  note p = split_partition[OF Split.prems(2) first_size_bounds[OF s, THEN conjunct1]
      first_size_bounds[OF s, THEN conjunct2]]
  from Split.IH(1)[OF la p(1)] Split.IH(2)[OF lb p(2)] Split.prems(3) p(3,4) inside_trans
  show ?case unfolding l by auto
qed

lemma leaf_areas_count:
  "leaf_areas t area = Some l \<Longrightarrow> area_ok area \<Longrightarrow>
     length (filter (\<lambda>e. rect_contains (snd e) px py) l) = (if rect_contains area px py then 1 else 0)"
proof (induction t arbitrary: area l)
  case (Leaf x)
  then show ?case by auto
next
  case (Split ax a b w1 w2)
  from Split.prems(1) obtain s la lb where s: "first_size (axis_size ax area) w1 w2 = Some s"
    and la: "leaf_areas a (first_area ax area s) = Some la"
    and lb: "leaf_areas b (second_area ax area s) = Some lb" and l: "l = la @ lb"
    by (auto simp: bind_eq_Some_conv)
  note p = split_partition[OF Split.prems(2) first_size_bounds[OF s, THEN conjunct1]
      first_size_bounds[OF s, THEN conjunct2]]
  from Split.IH(1)[OF la p(1)] Split.IH(2)[OF lb p(2)] p(5,6)[of px py] show ?case
    unfolding l by auto
qed

lemma filter_length_one: "length (filter P xs) = 1 \<Longrightarrow> \<exists>!v. v \<in> set xs \<and> P v"
proof -
  assume "length (filter P xs) = 1"
  then obtain v where "filter P xs = [v]" by (auto simp: length_Suc_conv)
  then have "set (filter P xs) = {v}" by simp
  then show ?thesis by (auto simp: set_eq_iff)
qed

text \<open>
  C6. Whenever the layout of a tab can be computed, it is a partition of the tab area: exactly the
  tree's panes get a rectangle, each non-empty and inside the area, and every cell of the area
  belongs to exactly one pane -- no gap and no overlap, whatever the weights.
\<close>

theorem geometry_partitions_area:
  assumes "geometry t area = Some g" and "area_ok area" and "distinct (pane_ids t)"
  shows "map fst g = sort (pane_ids t) \<and>
    (\<forall>(p, r)\<in>set g. inside r area \<and> area_ok r) \<and>
    (\<forall>px py. rect_contains area px py \<longrightarrow> (\<exists>!e. e \<in> set g \<and> rect_contains (snd e) px py))"
proof -
  from geometry_set[OF assms(1,3)] obtain l where l: "leaf_areas t area = Some l"
    and sl: "set g = set l" and d: "distinct (map fst g)" and wf: "bt_wf g" .
  have "set (map fst g) = set (pane_ids t)"
    using leaf_areas_ids[OF l] sl by (metis list.set_map)
  moreover have "sorted (map fst g)" using wf by (simp add: bt_wf_def strict_sorted_iff)
  ultimately have "map fst g = sort (pane_ids t)"
    using d assms(3) by (metis distinct_sort set_sort sorted_distinct_set_unique sorted_sort)
  moreover have "\<forall>(p, r)\<in>set g. inside r area \<and> area_ok r"
    using leaf_areas_inside[OF l assms(2)] sl by fastforce
  moreover have "\<exists>!e. e \<in> set g \<and> rect_contains (snd e) px py" if "rect_contains area px py" for px py
    unfolding sl by (rule filter_length_one) (simp add: leaf_areas_count[OF l assms(2)] that)
  ultimately show ?thesis by blast
qed

theorem geometry_partitions_area_witness:
  "let t = Split Vertical (Leaf 1) (Split Horizontal (Leaf 2) (Leaf 3) 1 1) 1 1;
       a = \<lparr>rect_x = 0, rect_y = 0, rect_width = 80, rect_height = 23\<rparr>
   in \<exists>g. geometry t a = Some g \<and>
        (\<exists>!e. e \<in> set g \<and> rect_contains (snd e) 79 22)"
proof -
  let ?t = "Split Vertical (Leaf 1) (Split Horizontal (Leaf 2) (Leaf 3) 1 1) 1 1"
  let ?a = "\<lparr>rect_x = 0, rect_y = 0, rect_width = 80, rect_height = 23\<rparr> :: rect"
  have "geometry ?t ?a \<noteq> None"
    by (simp add: geometry_def first_size_def clamp_def mul32_def sat_add32_def)
  then obtain g where g: "geometry ?t ?a = Some g" by blast
  have "area_ok ?a" and "distinct (pane_ids ?t)" and "rect_contains ?a 79 22"
    by (simp_all add: area_ok_def rect_ok_def rect_contains_def add16_def)
  with geometry_partitions_area[OF g] g show ?thesis unfolding Let_def by blast
qed

section \<open>Splitting\<close>

lemma node_split_cases:
  assumes "node_split t f n ax area = Some (Inr t')"
  shows "f \<in> set (pane_ids t)"
    and "t' = snd (replace_leaf t f (\<lambda>q. Split ax (Leaf q) (Leaf n) 1 1))"
    and "\<exists>g. geometry t' area = Some g \<and> (\<forall>(p, r)\<in>set g. \<not> too_small r)"
  using assms replace_leaf_fst[of t f "\<lambda>q. Split ax (Leaf q) (Leaf n) 1 1"]
  by (auto simp: node_split_def node_contains_iff list_ex_iff split: prod.splits bool.splits
      option.splits if_splits)

text \<open>
  C7. A successful split inserts the new pane directly behind the focused one, leaves every pane
  at least 4 by 2 content cells, and is undone exactly by closing the new pane: the tree, its
  weights included, is the one before the split.
\<close>

theorem split_inserts_and_close_undoes:
  assumes "node_split t f n ax area = Some (Inr t')"
    and "distinct (pane_ids t)" and "n \<notin> set (pane_ids t)"
  shows "(\<exists>xs ys. pane_ids t = xs @ f # ys \<and> pane_ids t' = xs @ f # n # ys) \<and>
    (\<exists>g. geometry t' area = Some g \<and>
       (\<forall>(p, r)\<in>set g. 4 \<le> rect_width (content r) \<and> 2 \<le> rect_height (content r))) \<and>
    close t' n = Some t"
proof -
  note c = node_split_cases[OF assms(1)]
  have "\<exists>xs ys. pane_ids t = xs @ f # ys \<and> pane_ids t' = xs @ f # n # ys"
    using replace_leaf_ids[OF assms(2) c(1), of "\<lambda>q. Split ax (Leaf q) (Leaf n) 1 1"]
    unfolding c(2) by simp
  moreover have "\<exists>g. geometry t' area = Some g \<and>
       (\<forall>(p, r)\<in>set g. 4 \<le> rect_width (content r) \<and> 2 \<le> rect_height (content r))"
    using c(3) by (fastforce simp: too_small_def layout_consts)
  moreover have "close t' n = Some t"
    unfolding c(2) by (rule close_replace[OF assms(2) c(1) assms(3)])
  ultimately show ?thesis by blast
qed

theorem split_inserts_and_close_undoes_witness:
  "\<exists>t'. node_split (Leaf 1) 1 2 Vertical
          \<lparr>rect_x = 0, rect_y = 0, rect_width = 80, rect_height = 23\<rparr> = Some (Inr t') \<and>
        close t' 2 = Some (Leaf 1)"
proof -
  let ?a = "\<lparr>rect_x = 0, rect_y = 0, rect_width = 80, rect_height = 23\<rparr> :: rect"
  have e: "node_split (Leaf 1) 1 2 Vertical ?a = Some (Inr (Split Vertical (Leaf 1) (Leaf 2) 1 1))"
    by (simp add: node_split_def geometry_def first_size_def clamp_def mul32_def sat_add32_def
        too_small_def content_def layout_consts del: One_nat_def)
  with split_inserts_and_close_undoes[OF e] show ?thesis by simp
qed

section \<open>Resizing\<close>

text \<open>
  What a one-cell resize may do, independently of how the code finds the boundary: somewhere in
  the tree one split keeps its children and total and moves its boundary by one cell, leaving both
  sides at least the minimum of its axis; everything else is untouched.
\<close>

inductive one_cell :: "rect \<Rightarrow> tiled_node \<Rightarrow> tiled_node \<Rightarrow> bool" where
  here: "first_size (axis_size ax area) w1 w2 = Some s \<Longrightarrow>
         first_size (axis_size ax area) v1 v2 = Some s' \<Longrightarrow>
         s' = s + 1 \<or> s = s' + 1 \<Longrightarrow>
         split_minimum ax \<le> s' \<Longrightarrow> s' + split_minimum ax \<le> axis_size ax area \<Longrightarrow>
         one_cell area (Split ax a b w1 w2) (Split ax a b v1 v2)"
| left: "first_size (axis_size ax area) w1 w2 = Some s \<Longrightarrow>
         one_cell (first_area ax area s) a a' \<Longrightarrow>
         one_cell area (Split ax a b w1 w2) (Split ax a' b w1 w2)"
| right: "first_size (axis_size ax area) w1 w2 = Some s \<Longrightarrow>
         one_cell (second_area ax area s) b b' \<Longrightarrow>
         one_cell area (Split ax a b w1 w2) (Split ax a b' w1 w2)"

lemma split_areas_eq:
  assumes "area_ok area" and "split_areas area ax w1 w2 = Some (fa, sa, n)"
  obtains s where "first_size (axis_size ax area) w1 w2 = Some s"
    and "fa = first_area ax area s" and "sa = second_area ax area s" and "n = axis_size ax area"
    and "axis_size ax fa = s"
proof -
  obtain s where s: "first_size (axis_size ax area) w1 w2 = Some s"
    using assms(2) by (cases ax) (auto simp: split_areas_def axis_size_def)
  from first_size_bounds[OF s] have "sat_add16 (rect_x area) s = add16 (rect_x area) s" if "ax = Vertical"
    using that assms(1) by (auto simp: area_ok_def rect_ok_def axis_size_def)
  moreover from first_size_bounds[OF s]
  have "sat_add16 (rect_y area) s = add16 (rect_y area) s" if "ax = Horizontal"
    using that assms(1) by (auto simp: area_ok_def rect_ok_def axis_size_def)
  ultimately show ?thesis
    using assms(2) s
    by (intro that[OF s]) (cases ax; auto simp: split_areas_def first_area_def second_area_def
        axis_size_def)+
qed

lemma minimum_pos: "1 \<le> split_minimum ax"
  by (cases ax) (auto simp: split_minimum_def layout_consts)

lemma first_size_exact:
  assumes "1 \<le> s" and "s + 1 \<le> dim" and "dim \<le> 65535"
  shows "first_size dim s (dim - s) = Some s"
proof -
  have "dim * s \<le> 65535 * 65535" using assms by (intro mult_le_mono) auto
  then have "mul32 dim s = dim * s" by (simp add: mul32_def)
  moreover have "sat_add32 s (dim - s) = dim" using assms by (simp add: sat_add32_def)
  ultimately show ?thesis
    using assms by (simp add: first_size_def clamp_def)
qed

lemma axis_size_le: "area_ok area \<Longrightarrow> axis_size ax area \<le> 65535"
  by (cases ax) (auto simp: axis_size_def area_ok_def rect_ok_def)

lemma resize_inner_spec:
  "area_ok area \<Longrightarrow> resize_inner t f d area False = Some (t', changed, c) \<Longrightarrow>
     (c \<longleftrightarrow> f \<in> set (pane_ids t)) \<and> pane_ids t' = pane_ids t \<and>
     (if changed then one_cell area t t' else t' = t)"
proof (induction t arbitrary: area t' changed c)
  case (Leaf q)
  then show ?case by auto
next
  case (Split ax a b w1 w2)
  from Split.prems(2) obtain fa sa n where sp: "split_areas area ax w1 w2 = Some (fa, sa, n)"
    by (auto simp: Let_def split: option.splits)
  from split_areas_eq[OF Split.prems(1) sp] obtain s where
    s: "first_size (axis_size ax area) w1 w2 = Some s" and fa: "fa = first_area ax area s"
    and sa: "sa = second_area ax area s" and n: "n = axis_size ax area" and fs: "axis_size ax fa = s" .
  note b = first_size_bounds[OF s]
  note p = split_partition[OF Split.prems(1) b[THEN conjunct1] b[THEN conjunct2]]
  define inf where "inf = node_contains a f"
  from Split.prems(2) obtain a' b' ch where
    sub: "(if inf then map_option (\<lambda>(a', r). (a', b, r)) (resize_inner a f d fa False)
      else map_option (\<lambda>(b', r). (a, b', r)) (resize_inner b f d sa False)) = Some (a', b', ch, c)"
    and res: "(t', changed) =
      (let delta = resize_delta ax inf d; nxt = int s + delta
       in if c \<and> \<not> ch \<and> compatible ax d \<and> delta \<noteq> 0 \<and> int (split_minimum ax) \<le> nxt \<and>
            nxt \<le> int (n - split_minimum ax)
          then (Split ax a' b' (nat nxt) (n - nat nxt), True) else (Split ax a' b' w1 w2, ch))"
    by (auto simp: sp Let_def inf_def fs split: option.splits if_splits)
  have IH: "(c \<longleftrightarrow> f \<in> set (pane_ids (Split ax a b w1 w2))) \<and>
      pane_ids a' @ pane_ids b' = pane_ids a @ pane_ids b \<and>
      (if ch then one_cell area (Split ax a b w1 w2) (Split ax a' b' w1 w2) else a' = a \<and> b' = b)"
  proof (cases inf)
    case True
    with sub have "resize_inner a f d fa False = Some (a', ch, c)" "b' = b" by auto
    with Split.IH(1)[of fa a' ch c] p(1) fa True one_cell.left[OF s] show ?thesis
      by (auto simp: inf_def node_contains_iff)
  next
    case False
    with sub have "resize_inner b f d sa False = Some (b', ch, c)" "a' = a" by auto
    with Split.IH(2)[of sa b' ch c] p(2) sa False one_cell.right[OF s] show ?thesis
      by (auto simp: inf_def node_contains_iff)
  qed
  show ?case
  proof (cases "ch \<or> t' = Split ax a' b' w1 w2 \<and> \<not> changed")
    case True
    with IH res show ?thesis by (auto simp: Let_def split: if_splits)
  next
    case False
    define nxt where "nxt = int s + resize_delta ax inf d"
    from False res have nch: "\<not> ch" and ge: "int (split_minimum ax) \<le> nxt"
      and le: "nxt \<le> int (n - split_minimum ax)" and dl: "resize_delta ax inf d \<noteq> 0"
      and t': "t' = Split ax a' b' (nat nxt) (n - nat nxt)" "changed"
      by (auto simp: Let_def nxt_def split: if_splits)
    have bnd: "split_minimum ax \<le> nat nxt" "nat nxt + split_minimum ax \<le> n" "int (nat nxt) = nxt"
      using ge le minimum_pos[of ax] by linarith+
    have "first_size n (nat nxt) (n - nat nxt) = Some (nat nxt)"
      using bnd minimum_pos[of ax] axis_size_le[OF Split.prems(1), of ax] n
      by (intro first_size_exact) linarith+
    moreover have "nat nxt = s + 1 \<or> s = nat nxt + 1"
      using dl bnd(3) by (auto simp: nxt_def resize_delta_def split: if_splits)
    ultimately have "one_cell area (Split ax a b w1 w2) t'"
      using IH nch s bnd unfolding t'(1) n by (auto intro!: one_cell.here)
    with IH nch t' show ?thesis by simp
  qed
qed

text \<open>
  C8. A resize key moves one boundary by one cell or nothing at all: it never changes which panes
  exist or their order, a reported change is exactly one split whose boundary moved by one cell
  with both sides at least the minimum of its axis, and an unreported one leaves the tree as it was.
\<close>

theorem resize_moves_one_boundary:
  assumes "area_ok area" and "node_resize t f d area = Some (t', changed)"
  shows "pane_ids t' = pane_ids t \<and> (if changed then one_cell area t t' else t' = t)"
  using assms(2) resize_inner_spec[OF assms(1), of t f d] by (auto simp: node_resize_def)

theorem resize_moves_one_boundary_witness:
  "let t = Split Vertical (Leaf 1) (Leaf 2) 1 1;
       a = \<lparr>rect_x = 0, rect_y = 0, rect_width = 80, rect_height = 23\<rparr>
   in \<exists>t'. node_resize t 1 DRight a = Some (t', True) \<and> one_cell a t t' \<and> pane_ids t' = [1, 2]"
proof -
  let ?t = "Split Vertical (Leaf 1) (Leaf 2) 1 1"
  let ?a = "\<lparr>rect_x = 0, rect_y = 0, rect_width = 80, rect_height = 23\<rparr> :: rect"
  have ok: "area_ok ?a" by (simp add: area_ok_def rect_ok_def)
  have "node_resize ?t 1 DRight ?a = Some (Split Vertical (Leaf 1) (Leaf 2) 41 39, True)"
    by (simp add: node_resize_def split_areas_def first_size_def clamp_def mul32_def sat_add32_def
        resize_delta_def compatible_def split_minimum_def axis_size_def layout_consts Let_def
        del: One_nat_def)
  with resize_moves_one_boundary[OF ok this] show ?thesis by simp
qed

section \<open>Where the layout of a live tab stops the program\<close>

text \<open>
  Placement needs two cells along the axis of every split; \<open>clamp(1, 0)\<close> panics otherwise. A
  tab reaches that state from the keyboard: the minimum size is checked when a pane is split,
  against the area of that moment, and nothing re-checks it when the host shrinks.
\<close>

definition host_area :: "nat \<Rightarrow> nat \<Rightarrow> rect" where
  "host_area columns rows = \<lparr>rect_x = 0, rect_y = 0, rect_width = columns, rect_height = rows\<rparr>"

lemmas layout_eval =
  node_split_def geometry_def first_size_def clamp_def mul32_def sat_add32_def sat_add16_def
  too_small_def content_def layout_consts host_area_def

lemma first_size_two: "first_size dim w1 w2 = None \<longleftrightarrow> dim < 2"
  by (auto simp: first_size_def clamp_def)

text \<open>
  Three accepted splits of a tab 32 rows high produce a tree of four stacked panes whose
  layout cannot be computed once the host has shrunk to the smallest height the session accepts
  (4 content rows): the placement panics there, while it succeeded on the original area.
\<close>

theorem host_shrink_panics:
  "\<exists>t1 t2 t3.
     node_split (Leaf 1) 1 2 Horizontal (host_area 80 32) = Some (Inr t1) \<and>
     node_split t1 2 3 Horizontal (host_area 80 32) = Some (Inr t2) \<and>
     node_split t2 3 4 Horizontal (host_area 80 32) = Some (Inr t3) \<and>
     pane_ids t3 = [1, 2, 3, 4] \<and>
     geometry t3 (host_area 80 32) \<noteq> None \<and>
     geometry t3 (host_area 80 4) = None"
proof -
  let ?t1 = "Split Horizontal (Leaf 1) (Leaf 2) 1 1"
  let ?t2 = "Split Horizontal (Leaf 1) (Split Horizontal (Leaf 2) (Leaf 3) 1 1) 1 1"
  let ?t3 = "Split Horizontal (Leaf 1) (Split Horizontal (Leaf 2)
      (Split Horizontal (Leaf 3) (Leaf 4) 1 1) 1 1) 1 1"
  have "node_split (Leaf 1) 1 2 Horizontal (host_area 80 32) = Some (Inr ?t1)"
    by (simp add: layout_eval del: One_nat_def)
  moreover have "node_split ?t1 2 3 Horizontal (host_area 80 32) = Some (Inr ?t2)"
    by (simp add: layout_eval del: One_nat_def)
  moreover have "node_split ?t2 3 4 Horizontal (host_area 80 32) = Some (Inr ?t3)"
    by (simp add: layout_eval del: One_nat_def)
  moreover have "geometry ?t3 (host_area 80 32) \<noteq> None"
    by (simp add: layout_eval del: One_nat_def)
  moreover have "geometry ?t3 (host_area 80 4) = None"
    by (simp add: layout_eval del: One_nat_def)
  ultimately show ?thesis by (intro exI[of _ ?t1] exI[of _ ?t2] exI[of _ ?t3]) simp
qed

text \<open>
  Resizing checks the minimum only for the two sides of the boundary it moves, not for the
  panes nested in them: from a tree whose panes all have their minimum content, one accepted
  resize key leaves a pane with fewer content columns than the minimum.
\<close>

theorem resize_breaks_nested_minimum:
  "let a = host_area 24 23;
       t = Split Vertical (Leaf 1) (Split Vertical (Leaf 2) (Leaf 3) 1 1) 1 1
   in (\<exists>g. geometry t a = Some g \<and> list_all (\<lambda>(_, r). \<not> too_small r) g) \<and>
      (\<exists>t' g. node_resize t 1 DRight a = Some (t', True) \<and> geometry t' a = Some g \<and>
         list_ex (\<lambda>(_, r). too_small r) g)"
proof -
  let ?a = "host_area 24 23"
  let ?t = "Split Vertical (Leaf 1) (Split Vertical (Leaf 2) (Leaf 3) 1 1) 1 1"
  let ?t' = "Split Vertical (Leaf 1) (Split Vertical (Leaf 2) (Leaf 3) 1 1) 13 11"
  have "\<exists>g. geometry ?t ?a = Some g \<and> list_all (\<lambda>(_, r). \<not> too_small r) g"
    by (simp add: layout_eval del: One_nat_def)
  moreover have "node_resize ?t 1 DRight ?a = Some (?t', True)"
    by (simp add: node_resize_def split_areas_def layout_eval add16_def
        resize_delta_def compatible_def split_minimum_def axis_size_def Let_def
        del: One_nat_def)
  moreover have "\<exists>g. geometry ?t' ?a = Some g \<and> list_ex (\<lambda>(_, r). too_small r) g"
    by (simp add: layout_eval del: One_nat_def)
  ultimately show ?thesis unfolding Let_def by blast
qed

end
