(* ===== verification/Floating.thy ===== *)
theory Floating
  imports Geometry
begin

text \<open>
  The tab-local floating layer (\<open>src/src/layout.rs\<close>, lines 113 to 431). The panes are kept
  bottom to top; the layer's contract, which the sources only state in a comment and sample in a
  randomised test, is \<open>layer_wf\<close>: distinct panes, every ordinary float below every pinned
  one, every rectangle inside the tab area and at least the minimum size that area allows.
\<close>

definition min_float_width :: nat where "min_float_width = min_content_columns + frame_columns"
definition min_float_height :: nat where "min_float_height = min_content_rows + frame_rows"

lemma min_float_values [simp]: "min_float_width = 6" "min_float_height = 4"
  by (simp_all add: min_float_width_def min_float_height_def layout_consts)

record edge_mask =
  edge_left :: bool
  edge_right :: bool
  edge_top :: bool
  edge_bottom :: bool

definition no_edges :: edge_mask where
  "no_edges = \<lparr>edge_left = False, edge_right = False, edge_top = False, edge_bottom = False\<rparr>"

record floating_pane =
  float_pane :: pane_id
  float_rect :: rect
  float_pinned :: bool

record floating_layer =
  layer_panes :: "floating_pane list"
  ordinary_visible :: bool

section \<open>Rectangle arithmetic of the layer\<close>

text \<open>\<open>i32\<close> addition with its wrap-around, and the \<open>as u16\<close> cast.\<close>

definition wrap_i32 :: "int \<Rightarrow> int" where
  [fixed_width]: "wrap_i32 z = (z + 2147483648) mod 4294967296 - 2147483648"

definition as_u16 :: "int \<Rightarrow> nat" where
  [fixed_width]: "as_u16 z = nat (z mod 65536)"

definition offset_coordinate :: "nat \<Rightarrow> int \<Rightarrow> nat" where
  "offset_coordinate v delta = as_u16 (clamp_val (sat_add_i32 (int v) delta) 0 65535)"

definition min_width_in :: "rect \<Rightarrow> nat" where
  "min_width_in area = max (min min_float_width (rect_width area)) 1"

definition min_height_in :: "rect \<Rightarrow> nat" where
  "min_height_in area = max (min min_float_height (rect_height area)) 1"

definition clamp_rect :: "rect \<Rightarrow> rect \<Rightarrow> rect" where
  "clamp_rect r area =
     (let width = clamp_val (rect_width r) (min_width_in area)
                    (max (rect_width area) (min_width_in area));
          height = clamp_val (rect_height r) (min_height_in area)
                    (max (rect_height area) (min_height_in area));
          max_x = max (add16 (rect_x area) (rect_width area) - width) (rect_x area);
          max_y = max (add16 (rect_y area) (rect_height area) - height) (rect_y area)
      in \<lparr>rect_x = clamp_val (rect_x r) (rect_x area) max_x,
          rect_y = clamp_val (rect_y r) (rect_y area) max_y,
          rect_width = width, rect_height = height\<rparr>)"

definition default_rect :: "rect \<Rightarrow> nat \<Rightarrow> nat \<Rightarrow> rect" where
  "default_rect area width_percent height_percent =
     (let width = ((rect_width area * width_percent + 50) div 100) mod 65536;
          height = ((rect_height area * height_percent + 50) div 100) mod 65536
      in clamp_rect
           \<lparr>rect_x = sat_add16 (rect_x area) ((rect_width area - width) div 2),
            rect_y = sat_add16 (rect_y area) ((rect_height area - height) div 2),
            rect_width = width, rect_height = height\<rparr> area)"

definition resize_edges :: "rect \<Rightarrow> edge_mask \<Rightarrow> int \<Rightarrow> int \<Rightarrow> rect \<Rightarrow> rect" where
  "resize_edges r edges dx dy area =
     (let min_width = int (min_width_in area);
          min_height = int (min_height_in area);
          area_left = int (rect_x area);
          area_top = int (rect_y area);
          area_right = area_left + int (rect_width area);
          area_bottom = area_top + int (rect_height area);
          left0 = int (rect_x r);
          top0 = int (rect_y r);
          right0 = left0 + int (rect_width r);
          bottom0 = top0 + int (rect_height r);
          left = (if edge_left edges
                  then min (max (wrap_i32 (left0 + dx)) area_left) (right0 - min_width)
                  else left0);
          right = (if edge_right edges
                   then max (min (wrap_i32 (right0 + dx)) area_right) (left + min_width)
                   else right0);
          top = (if edge_top edges
                 then min (max (wrap_i32 (top0 + dy)) area_top) (bottom0 - min_height)
                 else top0);
          bottom = (if edge_bottom edges
                    then max (min (wrap_i32 (bottom0 + dy)) area_bottom) (top + min_height)
                    else bottom0)
      in \<lparr>rect_x = as_u16 (max left 0), rect_y = as_u16 (max top 0),
          rect_width = as_u16 (max (right - left) 1),
          rect_height = as_u16 (max (bottom - top) 1)\<rparr>)"

section \<open>Operations\<close>

definition layer_default :: floating_layer where
  "layer_default = \<lparr>layer_panes = [], ordinary_visible = True\<rparr>"

definition layer_is_empty :: "floating_layer \<Rightarrow> bool" where
  "layer_is_empty l \<longleftrightarrow> layer_panes l = []"

definition layer_pane_ids :: "floating_layer \<Rightarrow> pane_id list" where
  "layer_pane_ids l = map float_pane (layer_panes l)"

definition layer_contains :: "floating_layer \<Rightarrow> pane_id \<Rightarrow> bool" where
  "layer_contains l pane = list_ex (\<lambda>f. float_pane f = pane) (layer_panes l)"

definition layer_get :: "floating_layer \<Rightarrow> pane_id \<Rightarrow> floating_pane option" where
  "layer_get l pane = List.find (\<lambda>f. float_pane f = pane) (layer_panes l)"

definition layer_visible :: "floating_layer \<Rightarrow> floating_pane list" where
  "layer_visible l = filter (\<lambda>f. float_pinned f \<or> ordinary_visible l) (layer_panes l)"

definition focus_candidate :: "floating_layer \<Rightarrow> pane_id option" where
  "focus_candidate l =
     (if layer_visible l = [] then None else Some (float_pane (last (layer_visible l))))"

definition first_pinned_index :: "floating_pane list \<Rightarrow> nat" where
  "first_pinned_index fs =
     (case position float_pinned fs of None \<Rightarrow> length fs | Some i \<Rightarrow> i)"

definition layer_insert :: "pane_id \<Rightarrow> rect \<Rightarrow> nat \<Rightarrow> nat \<Rightarrow> floating_layer \<Rightarrow> floating_layer" where
  "layer_insert pane area width_percent height_percent l =
     l\<lparr>layer_panes := insert_at (first_pinned_index (layer_panes l))
          \<lparr>float_pane = pane, float_rect = default_rect area width_percent height_percent,
           float_pinned = False\<rparr> (layer_panes l),
       ordinary_visible := True\<rparr>"

definition layer_remove :: "pane_id \<Rightarrow> floating_layer \<Rightarrow> bool \<times> floating_layer" where
  "layer_remove pane l =
     (let panes = filter (\<lambda>f. float_pane f \<noteq> pane) (layer_panes l)
      in (length panes \<noteq> length (layer_panes l), l\<lparr>layer_panes := panes\<rparr>))"

definition layer_raise :: "pane_id \<Rightarrow> floating_layer \<Rightarrow> bool \<times> floating_layer" where
  "layer_raise pane l =
     (case position (\<lambda>f. float_pane f = pane) (layer_panes l) of
        None \<Rightarrow> (False, l)
      | Some index \<Rightarrow>
          let float = layer_panes l ! index;
              rest = remove_at index (layer_panes l);
              pos = (if float_pinned float then length rest else first_pinned_index rest)
          in (True, l\<lparr>layer_panes := insert_at pos float rest\<rparr>))"

definition layer_set_pinned :: "pane_id \<Rightarrow> bool \<Rightarrow> floating_layer \<Rightarrow> bool \<times> floating_layer" where
  "layer_set_pinned pane pinned l =
     (case position (\<lambda>f. float_pane f = pane) (layer_panes l) of
        None \<Rightarrow> (False, l)
      | Some index \<Rightarrow>
          let float = (layer_panes l ! index)\<lparr>float_pinned := pinned\<rparr>;
              rest = remove_at index (layer_panes l);
              pos = (if pinned then length rest else first_pinned_index rest)
          in (True, l\<lparr>layer_panes := insert_at pos float rest\<rparr>))"

definition update_rect ::
    "pane_id \<Rightarrow> rect \<Rightarrow> (rect \<Rightarrow> rect) \<Rightarrow> floating_layer \<Rightarrow> bool \<times> floating_layer" where
  "update_rect pane area apply_fn l =
     (case position (\<lambda>f. float_pane f = pane) (layer_panes l) of
        None \<Rightarrow> (False, l)
      | Some index \<Rightarrow>
          let float = layer_panes l ! index;
              nxt = clamp_rect (apply_fn (float_rect float)) area
          in (nxt \<noteq> float_rect float,
              l\<lparr>layer_panes := (layer_panes l)[index := float\<lparr>float_rect := nxt\<rparr>]\<rparr>))"

definition layer_move_by ::
    "pane_id \<Rightarrow> int \<Rightarrow> int \<Rightarrow> rect \<Rightarrow> floating_layer \<Rightarrow> bool \<times> floating_layer" where
  "layer_move_by pane dx dy area =
     update_rect pane area
       (\<lambda>r. r\<lparr>rect_x := offset_coordinate (rect_x r) dx, rect_y := offset_coordinate (rect_y r) dy\<rparr>)"

definition layer_move_from ::
    "pane_id \<Rightarrow> rect \<Rightarrow> int \<Rightarrow> int \<Rightarrow> rect \<Rightarrow> floating_layer \<Rightarrow> bool \<times> floating_layer" where
  "layer_move_from pane original dx dy area =
     update_rect pane area
       (\<lambda>_. original\<lparr>rect_x := offset_coordinate (rect_x original) dx,
                    rect_y := offset_coordinate (rect_y original) dy\<rparr>)"

definition layer_resize_by ::
    "pane_id \<Rightarrow> edge_mask \<Rightarrow> int \<Rightarrow> int \<Rightarrow> rect \<Rightarrow> floating_layer \<Rightarrow> bool \<times> floating_layer" where
  "layer_resize_by pane edges dx dy area =
     update_rect pane area (\<lambda>r. resize_edges r edges dx dy area)"

definition layer_resize_from ::
    "pane_id \<Rightarrow> rect \<Rightarrow> edge_mask \<Rightarrow> int \<Rightarrow> int \<Rightarrow> rect \<Rightarrow> floating_layer \<Rightarrow> bool \<times> floating_layer" where
  "layer_resize_from pane original edges dx dy area =
     update_rect pane area (\<lambda>_. resize_edges original edges dx dy area)"

definition layer_set_rect :: "pane_id \<Rightarrow> rect \<Rightarrow> rect \<Rightarrow> floating_layer \<Rightarrow> bool \<times> floating_layer" where
  "layer_set_rect pane r area = update_rect pane area (\<lambda>_. r)"

definition layer_clamp_all :: "rect \<Rightarrow> floating_layer \<Rightarrow> floating_layer" where
  "layer_clamp_all area l =
     l\<lparr>layer_panes := map (\<lambda>f. f\<lparr>float_rect := clamp_rect (float_rect f) area\<rparr>) (layer_panes l)\<rparr>"

section \<open>The layer's contract\<close>

definition float_fits :: "rect \<Rightarrow> rect \<Rightarrow> bool" where
  "float_fits area r \<longleftrightarrow>
     inside r area \<and> min 6 (rect_width area) \<le> rect_width r \<and> min 4 (rect_height area) \<le> rect_height r"

definition layered :: "floating_pane list \<Rightarrow> bool" where
  "layered fs \<longleftrightarrow> distinct (map float_pane fs) \<and> sorted (map float_pinned fs)"

definition layer_wf :: "rect \<Rightarrow> floating_layer \<Rightarrow> bool" where
  "layer_wf area l \<longleftrightarrow>
     layered (layer_panes l) \<and> (\<forall>f\<in>set (layer_panes l). float_fits area (float_rect f))"

section \<open>Clamping\<close>

lemma min_in_values:
  "area_ok a \<Longrightarrow> min_width_in a = min 6 (rect_width a)"
  "area_ok a \<Longrightarrow> min_height_in a = min 4 (rect_height a)"
  by (auto simp: min_width_in_def min_height_in_def area_ok_def)

lemma clamp_bounds_ordered:
  "min_width_in a \<le> max (rect_width a) (min_width_in a)"
  "min_height_in a \<le> max (rect_height a) (min_height_in a)"
  "rect_x a \<le> max (add16 (rect_x a) (rect_width a) - w) (rect_x a)"
  "rect_y a \<le> max (add16 (rect_y a) (rect_height a) - h) (rect_y a)"
  by simp_all

lemma clamp_axis:
  fixes ax aw k w v m :: nat
  assumes "m = min k aw"
  defines "w' \<equiv> max m (min w (max aw m))"
  defines "v' \<equiv> max ax (min v (max (ax + aw - w') ax))"
  shows "ax \<le> v' \<and> v' + w' \<le> ax + aw \<and> m \<le> w'"
  using assms(1) unfolding v'_def w'_def by arith

lemma clamp_rect_fits:
  assumes "area_ok a"
  shows "float_fits a (clamp_rect r a)"
proof -
  have far: "add16 (rect_x a) (rect_width a) = rect_x a + rect_width a"
    "add16 (rect_y a) (rect_height a) = rect_y a + rect_height a"
    using assms by (simp_all add: area_ok_def rect_ok_def)
  show ?thesis
    using clamp_axis[OF min_in_values(1)[OF assms], of "rect_x a" "rect_x r" "rect_width r"]
      clamp_axis[OF min_in_values(2)[OF assms], of "rect_y a" "rect_y r" "rect_height r"]
    unfolding clamp_rect_def float_fits_def inside_def clamp_val_def Let_def
      min_in_values[OF assms] rect.select_convs far
    by blast
qed

lemma clamp_rect_id: "area_ok a \<Longrightarrow> float_fits a r \<Longrightarrow> clamp_rect r a = r"
  by (cases r) (auto simp: clamp_rect_def float_fits_def inside_def min_in_values clamp_val_def
      Let_def area_ok_def rect_ok_def)

lemma default_rect_fits: "area_ok a \<Longrightarrow> float_fits a (default_rect a wp hp)"
  by (simp add: default_rect_def Let_def clamp_rect_fits)

section \<open>The two blocks of the stack\<close>

definition ordinary_block :: "floating_pane list \<Rightarrow> floating_pane list" where
  "ordinary_block fs = filter (\<lambda>f. \<not> float_pinned f) fs"

definition pinned_block :: "floating_pane list \<Rightarrow> floating_pane list" where
  "pinned_block fs = filter float_pinned fs"

lemmas blocks = ordinary_block_def pinned_block_def

lemma blocks_split: "sorted (map float_pinned fs) \<Longrightarrow> fs = ordinary_block fs @ pinned_block fs"
proof (induction fs)
  case Nil
  then show ?case by (simp add: blocks)
next
  case (Cons f fs)
  then have IH: "fs = ordinary_block fs @ pinned_block fs" by simp
  show ?case
  proof (cases "float_pinned f")
    case True
    with Cons.prems have "\<forall>g\<in>set fs. float_pinned g" by auto
    with True show ?thesis by (simp add: blocks)
  next
    case False
    with IH show ?thesis by (simp add: blocks)
  qed
qed

lemma sorted_blocks: "sorted (map float_pinned (ordinary_block fs @ pinned_block gs))"
proof -
  have "sorted (map float_pinned (ordinary_block fs))"
    by (induction fs) (auto simp: blocks)
  moreover have "sorted (map float_pinned (pinned_block gs))"
    by (induction gs) (auto simp: blocks)
  ultimately show ?thesis by (auto simp: sorted_append blocks)
qed

lemma position_in_blocks:
  "position float_pinned (ordinary_block fs @ pinned_block gs) =
     (if pinned_block gs = [] then None else Some (length (ordinary_block fs)))"
proof (cases "pinned_block gs")
  case Nil
  then show ?thesis by (auto simp: position_None_iff blocks)
next
  case (Cons g gs')
  then have "g \<in> set (pinned_block gs)" by simp
  then have "float_pinned g" by (simp add: blocks)
  with Cons show ?thesis by (auto intro!: position_append_first simp: ordinary_block_def)
qed

lemma first_pinned_blocks:
  "first_pinned_index (ordinary_block fs @ pinned_block gs) = length (ordinary_block fs)"
  by (simp add: first_pinned_index_def position_in_blocks)

lemma first_pinned_sorted:
  "sorted (map float_pinned fs) \<Longrightarrow> first_pinned_index fs = length (ordinary_block fs)"
  using blocks_split first_pinned_blocks by metis

lemma insert_top_ordinary:
  assumes "sorted (map float_pinned fs)"
  shows "insert_at (first_pinned_index fs) f fs = ordinary_block fs @ f # pinned_block fs"
proof -
  have "take (length (ordinary_block fs)) fs = ordinary_block fs"
    and "drop (length (ordinary_block fs)) fs = pinned_block fs"
    using blocks_split[OF assms] by (metis append_eq_conv_conj)+
  then show ?thesis by (simp add: insert_at_def first_pinned_sorted[OF assms])
qed

lemma remove_at_position:
  "distinct (map float_pane fs) \<Longrightarrow> position (\<lambda>f. float_pane f = p) fs = Some i \<Longrightarrow>
     remove_at i fs = filter (\<lambda>f. float_pane f \<noteq> p) fs"
proof (induction fs arbitrary: i)
  case Nil
  then show ?case by simp
next
  case (Cons f fs)
  show ?case
  proof (cases "float_pane f = p")
    case True
    from Cons.prems have "float_pane f \<notin> float_pane ` set fs" by simp
    with True have "\<forall>g\<in>set fs. float_pane g \<noteq> p" by (metis imageI)
    with True Cons.prems show ?thesis by (simp add: remove_at_def)
  next
    case False
    with Cons.prems obtain k where "position (\<lambda>f. float_pane f = p) fs = Some k" "i = Suc k"
      by auto
    with Cons False show ?thesis by (simp add: remove_at_def)
  qed
qed

lemma sorted_filter_pinned: "sorted (map float_pinned fs) \<Longrightarrow> sorted (map float_pinned (filter P fs))"
  by (rule sorted_filter)

lemma blocks_filter:
  "ordinary_block (filter P fs) = filter P (ordinary_block fs)"
  "pinned_block (filter P fs) = filter P (pinned_block fs)"
  by (auto simp: blocks conj_commute)

section \<open>Every operation keeps the contract\<close>

lemma position_pane:
  "distinct (map float_pane fs) \<Longrightarrow> position (\<lambda>f. float_pane f = p) fs = Some i \<Longrightarrow>
     i < length fs \<and> float_pane (fs ! i) = p \<and> fs ! i \<in> set fs"
  by (auto dest: position_SomeD)

lemma layer_wf_default: "layer_wf a layer_default"
  by (simp add: layer_wf_def layer_default_def layered_def)

lemma layer_insert_panes:
  assumes "layer_wf a l"
  shows "layer_panes (layer_insert p a wp hp l) =
     ordinary_block (layer_panes l) @
     \<lparr>float_pane = p, float_rect = default_rect a wp hp, float_pinned = False\<rparr> #
     pinned_block (layer_panes l)"
  using assms by (simp add: layer_insert_def layer_wf_def layered_def insert_top_ordinary)

lemma layered_insert_ordinary:
  assumes "layered fs" and "\<not> float_pinned f" and "float_pane f \<notin> float_pane ` set fs"
  shows "layered (ordinary_block fs @ f # pinned_block fs)"
proof -
  have eq: "ordinary_block fs @ f # pinned_block fs =
      ordinary_block (ordinary_block fs @ [f]) @ pinned_block fs"
    using assms(2) by (simp add: blocks)
  have "sorted (map float_pinned (ordinary_block fs @ f # pinned_block fs))"
    unfolding eq by (rule sorted_blocks)
  moreover have "distinct (map float_pane (ordinary_block fs @ pinned_block fs))"
    using assms(1) blocks_split[of fs] by (simp add: layered_def)
  ultimately show ?thesis
    using assms(3) by (auto simp: layered_def blocks)
qed

lemma layered_append_pinned:
  assumes "layered fs" and "float_pinned f" and "float_pane f \<notin> float_pane ` set fs"
  shows "layered (fs @ [f])"
  using assms by (auto simp: layered_def sorted_append)

lemma layered_filter: "layered fs \<Longrightarrow> layered (filter P fs)"
  by (auto simp: layered_def sorted_filter distinct_map_filter)

lemma layer_wf_insert:
  assumes "layer_wf a l" and "area_ok a" and "\<not> layer_contains l p"
  shows "layer_wf a (layer_insert p a wp hp l)"
proof -
  let ?f = "\<lparr>float_pane = p, float_rect = default_rect a wp hp, float_pinned = False\<rparr>"
  have "p \<notin> float_pane ` set (layer_panes l)"
    using assms(3) by (auto simp: layer_contains_def list_ex_iff)
  then have "layered (ordinary_block (layer_panes l) @ ?f # pinned_block (layer_panes l))"
    using assms(1) by (intro layered_insert_ordinary) (auto simp: layer_wf_def)
  then show ?thesis
    using assms(1,2) layer_insert_panes[OF assms(1)] default_rect_fits[OF assms(2)]
    by (auto simp: layer_wf_def blocks)
qed

lemma layer_wf_remove: "layer_wf a l \<Longrightarrow> layer_wf a (snd (layer_remove p l))"
  by (auto simp: layer_remove_def layer_wf_def layered_filter Let_def)

lemma layer_raise_panes:
  assumes "layer_wf a l" and "layer_get l p = Some f"
  shows "layer_panes (snd (layer_raise p l)) =
     (if float_pinned f
      then filter (\<lambda>g. float_pane g \<noteq> p) (layer_panes l) @ [f]
      else ordinary_block (filter (\<lambda>g. float_pane g \<noteq> p) (layer_panes l)) @
           f # pinned_block (filter (\<lambda>g. float_pane g \<noteq> p) (layer_panes l)))"
proof -
  have d: "distinct (map float_pane (layer_panes l))" "sorted (map float_pinned (layer_panes l))"
    using assms(1) by (auto simp: layer_wf_def layered_def)
  from assms(2) obtain i where
    pos: "position (\<lambda>f. float_pane f = p) (layer_panes l) = Some i" and f: "f = layer_panes l ! i"
    by (auto simp: layer_get_def find_position)
  let ?r = "filter (\<lambda>g. float_pane g \<noteq> p) (layer_panes l)"
  have sr: "sorted (map float_pinned ?r)" using d(2) by (rule sorted_filter_pinned)
  show ?thesis
    using insert_top_ordinary[OF sr] remove_at_position[OF d(1) pos] f
    by (simp add: layer_raise_def pos Let_def insert_at_def)
qed

lemma layer_get_Some:
  "layer_get l p = Some f \<Longrightarrow> f \<in> set (layer_panes l) \<and> float_pane f = p"
  by (auto simp: layer_get_def find_Some_iff)

lemma layer_get_None: "layer_get l p = None \<longleftrightarrow> \<not> layer_contains l p"
  by (auto simp: layer_get_def layer_contains_def find_None_iff list_ex_iff)

lemma layer_absent_noop:
  assumes "layer_get l p = None"
  shows "layer_raise p l = (False, l)" and "layer_set_pinned p b l = (False, l)"
    and "update_rect p a g l = (False, l)"
  using assms by (auto simp: layer_get_def find_position layer_raise_def layer_set_pinned_def
      update_rect_def)

text \<open>Both re-stacking operations take a pane out and put it on top of a class.\<close>

lemma layered_restack:
  assumes "layered fs" and "float_pane f = p"
  shows "layered ((if float_pinned f
     then filter (\<lambda>g. float_pane g \<noteq> p) fs @ [f]
     else ordinary_block (filter (\<lambda>g. float_pane g \<noteq> p) fs) @
          f # pinned_block (filter (\<lambda>g. float_pane g \<noteq> p) fs)))"
proof -
  let ?r = "filter (\<lambda>g. float_pane g \<noteq> p) fs"
  have r: "layered ?r" using assms(1) by (rule layered_filter)
  have "float_pane f \<notin> float_pane ` set ?r" using assms(2) by auto
  with r show ?thesis
    using layered_append_pinned[OF r, of f] layered_insert_ordinary[OF r, of f] by simp
qed

lemma layer_wf_raise:
  assumes "layer_wf a l"
  shows "layer_wf a (snd (layer_raise p l))"
proof (cases "layer_get l p")
  case None
  with assms show ?thesis by (simp add: layer_absent_noop)
next
  case (Some f)
  from layer_get_Some[OF Some] have f: "f \<in> set (layer_panes l)" "float_pane f = p" by auto
  have l: "layered (layer_panes l)" using assms by (simp add: layer_wf_def)
  show ?thesis
    using layer_raise_panes[OF assms Some] layered_restack[OF l f(2)] assms f(1)
    unfolding layer_wf_def by (auto simp: blocks split: if_splits)
qed

lemma layer_set_pinned_panes:
  assumes "layer_wf a l" and "layer_get l p = Some f"
  shows "layer_panes (snd (layer_set_pinned p b l)) =
     (let g = f\<lparr>float_pinned := b\<rparr>; r = filter (\<lambda>g. float_pane g \<noteq> p) (layer_panes l)
      in if b then r @ [g] else ordinary_block r @ g # pinned_block r)"
proof -
  have d: "distinct (map float_pane (layer_panes l))" "sorted (map float_pinned (layer_panes l))"
    using assms(1) by (auto simp: layer_wf_def layered_def)
  from assms(2) obtain i where
    pos: "position (\<lambda>f. float_pane f = p) (layer_panes l) = Some i" and f: "f = layer_panes l ! i"
    by (auto simp: layer_get_def find_position)
  let ?r = "filter (\<lambda>g. float_pane g \<noteq> p) (layer_panes l)"
  have sr: "sorted (map float_pinned ?r)" using d(2) by (rule sorted_filter_pinned)
  show ?thesis
    using insert_top_ordinary[OF sr] remove_at_position[OF d(1) pos] f
    by (simp add: layer_set_pinned_def pos Let_def insert_at_def)
qed

lemma layer_wf_set_pinned:
  assumes "layer_wf a l"
  shows "layer_wf a (snd (layer_set_pinned p b l))"
proof (cases "layer_get l p")
  case None
  with assms show ?thesis by (simp add: layer_absent_noop)
next
  case (Some f)
  let ?g = "f\<lparr>float_pinned := b\<rparr>"
  from layer_get_Some[OF Some] have f: "f \<in> set (layer_panes l)" "float_pane ?g = p" by auto
  have l: "layered (layer_panes l)" using assms by (simp add: layer_wf_def)
  show ?thesis
    using layer_set_pinned_panes[OF assms Some, of b] layered_restack[OF l f(2)] assms f(1)
    unfolding layer_wf_def Let_def by (auto simp: blocks blocks_filter split: if_splits)
qed

lemma update_rect_panes:
  "layer_panes (snd (update_rect p a g l)) =
     (case position (\<lambda>f. float_pane f = p) (layer_panes l) of
        None \<Rightarrow> layer_panes l
      | Some i \<Rightarrow> (layer_panes l)[i := (layer_panes l ! i)\<lparr>float_rect :=
           clamp_rect (g (float_rect (layer_panes l ! i))) a\<rparr>])"
  by (simp add: update_rect_def Let_def split: option.splits)

lemma update_rect_keys:
  "map float_pane (layer_panes (snd (update_rect p a g l))) = map float_pane (layer_panes l)"
  "map float_pinned (layer_panes (snd (update_rect p a g l))) = map float_pinned (layer_panes l)"
  by (auto simp: update_rect_panes map_update list_update_same_conv dest: position_SomeD
      split: option.splits intro!: list_update_same_conv[THEN iffD2])

lemma layer_wf_update:
  assumes "layer_wf a l" and "area_ok a"
  shows "layer_wf a (snd (update_rect p a g l))"
proof -
  have "float_fits a (float_rect f)" if "f \<in> set (layer_panes (snd (update_rect p a g l)))" for f
    using that assms clamp_rect_fits[OF assms(2)] set_update_subset_insert
    by (fastforce simp: update_rect_panes layer_wf_def split: option.splits)
  then show ?thesis
    using assms(1) by (simp add: layer_wf_def layered_def update_rect_keys)
qed

lemma layer_wf_clamp_all:
  assumes "layer_wf a l" and "area_ok b"
  shows "layer_wf b (layer_clamp_all b l)"
  using assms clamp_rect_fits[OF assms(2)]
  by (auto simp: layer_wf_def layered_def layer_clamp_all_def comp_def)

lemmas layer_rect_ops =
  layer_move_by_def layer_move_from_def layer_resize_by_def layer_resize_from_def layer_set_rect_def

section \<open>The layer as a machine\<close>

text \<open>
  Every public method of \<open>FloatingLayer\<close>, the visibility flag the session toggles, and the host
  resize that changes the area and re-clamps. The state is the tab area and the layer.
\<close>

datatype float_op =
    FInsert pane_id nat nat
  | FRemove pane_id
  | FRaise pane_id
  | FSetPinned pane_id bool
  | FMoveBy pane_id int int
  | FMoveFrom pane_id rect int int
  | FResizeBy pane_id edge_mask int int
  | FResizeFrom pane_id rect edge_mask int int
  | FSetRect pane_id rect
  | FSetVisible bool
  | FHostResize rect

fun float_step :: "float_op \<Rightarrow> rect \<times> floating_layer \<Rightarrow> (rect \<times> floating_layer) option" where
  "float_step (FInsert p wp hp) (a, l) = Some (a, layer_insert p a wp hp l)"
| "float_step (FRemove p) (a, l) = Some (a, snd (layer_remove p l))"
| "float_step (FRaise p) (a, l) = Some (a, snd (layer_raise p l))"
| "float_step (FSetPinned p b) (a, l) = Some (a, snd (layer_set_pinned p b l))"
| "float_step (FMoveBy p dx dy) (a, l) = Some (a, snd (layer_move_by p dx dy a l))"
| "float_step (FMoveFrom p r dx dy) (a, l) = Some (a, snd (layer_move_from p r dx dy a l))"
| "float_step (FResizeBy p e dx dy) (a, l) = Some (a, snd (layer_resize_by p e dx dy a l))"
| "float_step (FResizeFrom p r e dx dy) (a, l) = Some (a, snd (layer_resize_from p r e dx dy a l))"
| "float_step (FSetRect p r) (a, l) = Some (a, snd (layer_set_rect p r a l))"
| "float_step (FSetVisible v) (a, l) = Some (a, l\<lparr>ordinary_visible := v\<rparr>)"
| "float_step (FHostResize b) (a, l) = Some (b, layer_clamp_all b l)"

text \<open>What the session promises: fresh ids for new floats and a non-empty new area.\<close>

fun float_ok :: "rect \<times> floating_layer \<Rightarrow> float_op \<Rightarrow> bool" where
  "float_ok (a, l) (FInsert p wp hp) = (\<not> layer_contains l p)"
| "float_ok (a, l) (FHostResize b) = area_ok b"
| "float_ok (a, l) _ = True"

fun float_inv :: "rect \<times> floating_layer \<Rightarrow> bool" where
  "float_inv (a, l) \<longleftrightarrow> area_ok a \<and> layer_wf a l"

lemma float_step_inv:
  assumes "float_inv s" and "float_ok s e"
  shows "\<exists>s'. float_step e s = Some s' \<and> float_inv s'"
proof -
  obtain a l where s: "s = (a, l)" by (cases s)
  have wf: "layer_wf a l" "area_ok a" using assms by (simp_all add: s)
  have vis: "layer_wf a (l\<lparr>ordinary_visible := v\<rparr>)" for v
    using wf by (simp add: layer_wf_def)
  show ?thesis
    using assms wf vis layer_wf_update[OF wf] layer_wf_clamp_all[OF wf(1)]
      layer_wf_insert[OF wf] layer_wf_remove[OF wf(1)] layer_wf_raise[OF wf(1)]
      layer_wf_set_pinned[OF wf(1)]
    by (cases e) (simp_all add: s layer_rect_ops)
qed

interpretation floats: safe_machine float_step float_inv float_ok
  by unfold_locales (rule float_step_inv)

text \<open>
  C1. Whatever sequence of layer operations a session performs from an empty layer -- inserts of
  fresh panes, removals, raises, pins, keyboard and pointer moves and resizes, visibility toggles
  and host resizes, in any order -- the pane ids stay distinct, no ordinary float is ever above a
  pinned one, and every rectangle stays inside the current tab area with at least the minimum
  size that area allows.
\<close>

theorem floating_layer_invariant:
  assumes "area_ok a"
    and "admissible float_step float_ok ops (a, layer_default)"
  shows "\<exists>b l. run_ops float_step ops (a, layer_default) = Some (b, l) \<and> layer_wf b l"
  using floats.run_safe[OF _ assms(2)] assms(1) layer_wf_default by auto

theorem floating_layer_invariant_witness:
  "\<exists>b l. run_ops float_step
     [FInsert 1 60 60, FInsert 2 40 40, FSetPinned 1 True, FMoveBy 2 100 (- 100),
      FHostResize \<lparr>rect_x = 0, rect_y = 0, rect_width = 12, rect_height = 5\<rparr>]
     (\<lparr>rect_x = 0, rect_y = 0, rect_width = 80, rect_height = 23\<rparr>, layer_default) = Some (b, l) \<and>
     layer_wf b l"
  by (rule floating_layer_invariant)
    (simp_all add: area_ok_def rect_ok_def layer_default_def layer_contains_def layer_insert_def
      first_pinned_index_def insert_at_def layer_set_pinned_def remove_at_def Let_def
      layer_rect_ops update_rect_def)

section \<open>Stacking, focus and drags\<close>

text \<open>
  C2. Raising a float moves it to the top of its own class and to nowhere else: every other pane
  keeps its place relative to the others, a pinned float ends topmost, an ordinary one ends
  directly below the pinned block; pinned flags and rectangles are untouched.
\<close>

theorem raise_to_top_of_class:
  assumes "layer_wf a l" and "layer_get l p = Some f"
  shows "fst (layer_raise p l) \<and>
    layer_panes (snd (layer_raise p l)) =
      (if float_pinned f
       then filter (\<lambda>g. float_pane g \<noteq> p) (layer_panes l) @ [f]
       else filter (\<lambda>g. float_pane g \<noteq> p \<and> \<not> float_pinned g) (layer_panes l) @
            f # filter float_pinned (layer_panes l))"
proof -
  from layer_get_Some[OF assms(2)] have f: "f \<in> set (layer_panes l)" "float_pane f = p" by auto
  have "fst (layer_raise p l)"
    using assms(2) by (auto simp: layer_get_def find_position layer_raise_def Let_def)
  moreover have "filter (\<lambda>g. float_pane g \<noteq> p) (filter float_pinned (layer_panes l)) =
      filter float_pinned (layer_panes l)" if "\<not> float_pinned f"
  proof (rule filter_True, rule ballI)
    fix g assume "g \<in> set (filter float_pinned (layer_panes l))"
    then have "g \<in> set (layer_panes l)" "g \<noteq> f" using that by auto
    with assms(1) f show "float_pane g \<noteq> p"
      by (auto simp: layer_wf_def layered_def distinct_map inj_on_def)
  qed
  ultimately show ?thesis
    using layer_raise_panes[OF assms] by (simp add: blocks conj_commute)
qed

theorem raise_to_top_of_class_witness:
  "let r = \<lparr>rect_x = 0, rect_y = 0, rect_width = 10, rect_height = 5\<rparr>;
       f1 = \<lparr>float_pane = 1, float_rect = r, float_pinned = False\<rparr>;
       f2 = \<lparr>float_pane = 2, float_rect = r, float_pinned = False\<rparr>;
       f3 = \<lparr>float_pane = 3, float_rect = r, float_pinned = True\<rparr>
   in layer_panes (snd (layer_raise 1 \<lparr>layer_panes = [f1, f2, f3], ordinary_visible = True\<rparr>)) =
        [f2, f1, f3]"
proof -
  let ?r = "\<lparr>rect_x = 0, rect_y = 0, rect_width = 10, rect_height = 5\<rparr> :: rect"
  let ?f = "\<lambda>n b. \<lparr>float_pane = n, float_rect = ?r, float_pinned = b\<rparr>"
  let ?l = "\<lparr>layer_panes = [?f 1 False, ?f 2 False, ?f 3 True], ordinary_visible = True\<rparr>"
  let ?a = "\<lparr>rect_x = 0, rect_y = 0, rect_width = 80, rect_height = 23\<rparr> :: rect"
  have "layer_wf ?a ?l" and "layer_get ?l 1 = Some (?f 1 False)"
    by (simp_all add: layer_wf_def layered_def float_fits_def inside_def layer_get_def)
  from raise_to_top_of_class[OF this] show ?thesis by simp
qed

lemma focus_candidate_blocks:
  assumes "layer_wf a l"
  shows "focus_candidate l =
    (if pinned_block (layer_panes l) \<noteq> []
     then Some (float_pane (last (pinned_block (layer_panes l))))
     else if ordinary_visible l \<and> ordinary_block (layer_panes l) \<noteq> []
     then Some (float_pane (last (ordinary_block (layer_panes l))))
     else None)"
proof -
  have s: "layer_panes l = ordinary_block (layer_panes l) @ pinned_block (layer_panes l)"
    using assms by (intro blocks_split) (simp add: layer_wf_def layered_def)
  have v: "layer_visible l =
      (if ordinary_visible l then ordinary_block (layer_panes l) else []) @ pinned_block (layer_panes l)"
  proof (cases "ordinary_visible l")
    case True
    then show ?thesis using s by (simp add: layer_visible_def)
  next
    case False
    then show ?thesis by (simp add: layer_visible_def pinned_block_def)
  qed
  show ?thesis by (auto simp: focus_candidate_def v)
qed

lemma update_rect_const:
  "snd (update_rect p a (\<lambda>_. r) (snd (update_rect p a g l))) = snd (update_rect p a (\<lambda>_. r) l)"
proof (cases "position (\<lambda>f. float_pane f = p) (layer_panes l)")
  case None
  then show ?thesis by (simp add: update_rect_def)
next
  case (Some i)
  then have i: "i < length (layer_panes l)" and pi: "float_pane (layer_panes l ! i) = p"
    by (auto dest: position_SomeD)
  let ?xs = "layer_panes l"
  have "position (\<lambda>f. float_pane f = p) (?xs[i := f]) = Some i" if "float_pane f = p" for f
  proof -
    have "\<forall>v\<in>set (take i ?xs). float_pane v \<noteq> p"
      using Some by (auto simp: in_set_conv_nth dest!: position_SomeD)
    then show ?thesis
      using position_append_first[of "take i ?xs" "\<lambda>f. float_pane f = p" f "drop (Suc i) ?xs"] that i
      by (simp add: upd_conv_take_nth_drop)
  qed
  with Some i pi show ?thesis by (simp add: update_rect_def Let_def)
qed

lemma set_rect_same:
  assumes "layer_wf a l" and "area_ok a" and "layer_get l p = Some f"
  shows "snd (update_rect p a (\<lambda>_. float_rect f) l) = l"
proof -
  from layer_get_Some[OF assms(3)] have "float_fits a (float_rect f)"
    using assms(1) by (auto simp: layer_wf_def)
  from clamp_rect_id[OF assms(2) this] show ?thesis
    using assms(3) by (auto simp: update_rect_def layer_get_def find_position Let_def)
qed

datatype drag_event = DragMove int int | DragResize edge_mask int int

fun drag_step :: "pane_id \<Rightarrow> rect \<Rightarrow> rect \<Rightarrow> drag_event \<Rightarrow> floating_layer \<Rightarrow> floating_layer" where
  "drag_step p original a (DragMove dx dy) l = snd (layer_move_from p original dx dy a l)"
| "drag_step p original a (DragResize e dx dy) l = snd (layer_resize_from p original e dx dy a l)"

lemma drag_step_const: "\<exists>r. \<forall>l. drag_step p original a e l = snd (update_rect p a (\<lambda>_. r) l)"
  by (cases e) (auto simp: layer_rect_ops)

lemma set_rect_after_drag:
  "snd (layer_set_rect p r a (fold (drag_step p original a) es l)) = snd (layer_set_rect p r a l)"
proof (induction es arbitrary: l)
  case (Cons e es)
  obtain q where "\<forall>l. drag_step p original a e l = snd (update_rect p a (\<lambda>_. q) l)"
    using drag_step_const by blast
  with Cons show ?case by (simp add: layer_set_rect_def update_rect_const)
qed simp

text \<open>
  C3. Cancelling a drag restores the press-time layer exactly: after any number of pointer moves
  and edge resizes of a pane, setting back the rectangle captured at the press gives the original
  layer, every other pane included; and each pointer event is computed from the press rectangle,
  so only the last one counts (coalesced mouse events lose nothing).
\<close>

theorem drag_cancel_restores:
  assumes "layer_wf a l" and "area_ok a" and "layer_get l p = Some f"
  shows "snd (layer_set_rect p (float_rect f) a
           (fold (drag_step p (float_rect f) a) events l)) = l \<and>
         drag_step p (float_rect f) a e (fold (drag_step p (float_rect f) a) events l) =
         drag_step p (float_rect f) a e l"
proof
  have "snd (layer_set_rect p (float_rect f) a l) = l"
    using set_rect_same[OF assms] by (simp add: layer_set_rect_def)
  then show "snd (layer_set_rect p (float_rect f) a
           (fold (drag_step p (float_rect f) a) events l)) = l"
    by (simp add: set_rect_after_drag)
  obtain r where r: "\<forall>l. drag_step p (float_rect f) a e l = snd (update_rect p a (\<lambda>_. r) l)"
    using drag_step_const by blast
  then show "drag_step p (float_rect f) a e (fold (drag_step p (float_rect f) a) events l) =
         drag_step p (float_rect f) a e l"
    using set_rect_after_drag[of p r a "float_rect f"] by (simp add: layer_set_rect_def)
qed

theorem drag_cancel_restores_witness:
  "let r = \<lparr>rect_x = 20, rect_y = 8, rect_width = 20, rect_height = 8\<rparr>;
       a = \<lparr>rect_x = 0, rect_y = 0, rect_width = 80, rect_height = 23\<rparr>;
       l = \<lparr>layer_panes = [\<lparr>float_pane = 1, float_rect = r, float_pinned = False\<rparr>],
            ordinary_visible = True\<rparr>
   in snd (layer_set_rect 1 r a
        (fold (drag_step 1 r a) [DragMove 12 4, DragMove 3 (- 2)] l)) = l"
proof -
  let ?r = "\<lparr>rect_x = 20, rect_y = 8, rect_width = 20, rect_height = 8\<rparr> :: rect"
  let ?a = "\<lparr>rect_x = 0, rect_y = 0, rect_width = 80, rect_height = 23\<rparr> :: rect"
  let ?f = "\<lparr>float_pane = 1, float_rect = ?r, float_pinned = False\<rparr>"
  let ?l = "\<lparr>layer_panes = [?f], ordinary_visible = True\<rparr>"
  have "layer_wf ?a ?l" and "area_ok ?a" and "layer_get ?l 1 = Some ?f"
    by (simp_all add: layer_wf_def layered_def float_fits_def inside_def layer_get_def
        area_ok_def rect_ok_def)
  from drag_cancel_restores[OF this, of "[DragMove 12 4, DragMove 3 (- 2)]"]
  show ?thesis by (simp add: Let_def)
qed

section \<open>Edge resizing\<close>

definition edges_fixed :: "edge_mask \<Rightarrow> rect \<Rightarrow> rect \<Rightarrow> bool" where
  "edges_fixed e r r' \<longleftrightarrow>
     (\<not> edge_left e \<longrightarrow> rect_x r' = rect_x r) \<and>
     (\<not> edge_right e \<longrightarrow> rect_x r' + rect_width r' = rect_x r + rect_width r) \<and>
     (\<not> edge_top e \<longrightarrow> rect_y r' = rect_y r) \<and>
     (\<not> edge_bottom e \<longrightarrow> rect_y r' + rect_height r' = rect_y r + rect_height r)"

lemma wrap_i32_id: "- 2147483648 \<le> z \<Longrightarrow> z \<le> 2147483647 \<Longrightarrow> wrap_i32 z = z"
  by (simp add: wrap_i32_def)

lemma as_u16_id: "0 \<le> z \<Longrightarrow> z \<le> 65535 \<Longrightarrow> as_u16 z = nat z"
  by (simp add: as_u16_def)

text \<open>One axis of \<open>resize_edges\<close>: the interval it produces from the interval it is given.\<close>

lemma resize_axis:
  fixes lo hi m al ar d :: int and b1 b2 :: bool
  assumes "al \<le> lo" "hi \<le> ar" "m \<le> hi - lo" "1 \<le> m" "0 \<le> al"
  defines "lo' \<equiv> (if b1 then min (max (lo + d) al) (hi - m) else lo)"
  defines "hi' \<equiv> (if b2 then max (min (hi + d) ar) (lo' + m) else hi)"
  shows "al \<le> lo' \<and> hi' \<le> ar \<and> m \<le> hi' - lo' \<and> (\<not> b1 \<longrightarrow> lo' = lo) \<and> (\<not> b2 \<longrightarrow> hi' = hi)"
  using assms by (auto simp: min_def max_def)

lemma resize_edges_fits:
  assumes a: "area_ok a" and r: "float_fits a r"
    and "\<bar>dx\<bar> \<le> 1000000000" and "\<bar>dy\<bar> \<le> 1000000000"
  shows "float_fits a (resize_edges r e dx dy a) \<and> edges_fixed e r (resize_edges r e dx dy a)"
proof -
  have b: "rect_x r \<le> 65535" "rect_y r \<le> 65535" "rect_x r + rect_width r \<le> 65535"
    "rect_y r + rect_height r \<le> 65535"
    using inside_ok[of r a] a r by (auto simp: float_fits_def area_ok_def rect_ok_def)
  have w: "wrap_i32 (int (rect_x r) + dx) = int (rect_x r) + dx"
    "wrap_i32 (int (rect_x r) + int (rect_width r) + dx) = int (rect_x r) + int (rect_width r) + dx"
    "wrap_i32 (int (rect_y r) + dy) = int (rect_y r) + dy"
    "wrap_i32 (int (rect_y r) + int (rect_height r) + dy) = int (rect_y r) + int (rect_height r) + dy"
    using b assms(3,4) by (auto intro!: wrap_i32_id)
  define l where "l = (if edge_left e
    then min (max (int (rect_x r) + dx) (int (rect_x a)))
      (int (rect_x r) + int (rect_width r) - int (min_width_in a)) else int (rect_x r))"
  define rt where "rt = (if edge_right e
    then max (min (int (rect_x r) + int (rect_width r) + dx) (int (rect_x a) + int (rect_width a)))
      (l + int (min_width_in a)) else int (rect_x r) + int (rect_width r))"
  define t where "t = (if edge_top e
    then min (max (int (rect_y r) + dy) (int (rect_y a)))
      (int (rect_y r) + int (rect_height r) - int (min_height_in a)) else int (rect_y r))"
  define bt where "bt = (if edge_bottom e
    then max (min (int (rect_y r) + int (rect_height r) + dy) (int (rect_y a) + int (rect_height a)))
      (t + int (min_height_in a)) else int (rect_y r) + int (rect_height r))"
  have x: "int (rect_x a) \<le> l \<and> rt \<le> int (rect_x a) + int (rect_width a) \<and>
      int (min_width_in a) \<le> rt - l \<and> (\<not> edge_left e \<longrightarrow> l = int (rect_x r)) \<and>
      (\<not> edge_right e \<longrightarrow> rt = int (rect_x r) + int (rect_width r))"
    unfolding l_def rt_def
    by (rule resize_axis) (use a r in \<open>auto simp: float_fits_def inside_def min_in_values area_ok_def\<close>)
  have y: "int (rect_y a) \<le> t \<and> bt \<le> int (rect_y a) + int (rect_height a) \<and>
      int (min_height_in a) \<le> bt - t \<and> (\<not> edge_top e \<longrightarrow> t = int (rect_y r)) \<and>
      (\<not> edge_bottom e \<longrightarrow> bt = int (rect_y r) + int (rect_height r))"
    unfolding t_def bt_def
    by (rule resize_axis) (use a r in \<open>auto simp: float_fits_def inside_def min_in_values area_ok_def\<close>)
  have m: "1 \<le> min_width_in a" "1 \<le> min_height_in a"
    by (auto simp: min_width_in_def min_height_in_def)
  have "resize_edges r e dx dy a =
      \<lparr>rect_x = nat l, rect_y = nat t, rect_width = nat (rt - l), rect_height = nat (bt - t)\<rparr>"
    unfolding resize_edges_def Let_def w l_def[symmetric] rt_def[symmetric] t_def[symmetric]
      bt_def[symmetric]
    using x y m a by (simp add: as_u16_id area_ok_def rect_ok_def)
  moreover have "rect_x a \<le> nat l \<and> nat l + nat (rt - l) \<le> rect_x a + rect_width a \<and>
      min_width_in a \<le> nat (rt - l) \<and> (\<not> edge_left e \<longrightarrow> nat l = rect_x r) \<and>
      (\<not> edge_right e \<longrightarrow> nat l + nat (rt - l) = rect_x r + rect_width r)"
    using x m by linarith
  moreover have "rect_y a \<le> nat t \<and> nat t + nat (bt - t) \<le> rect_y a + rect_height a \<and>
      min_height_in a \<le> nat (bt - t) \<and> (\<not> edge_top e \<longrightarrow> nat t = rect_y r) \<and>
      (\<not> edge_bottom e \<longrightarrow> nat t + nat (bt - t) = rect_y r + rect_height r)"
    using y m by linarith
  ultimately show ?thesis
    by (simp add: float_fits_def edges_fixed_def inside_def min_in_values[OF a])
qed

lemma layer_get_update:
  assumes "layer_get l p = Some f"
  shows "layer_get (snd (update_rect p a g l)) p =
    Some (f\<lparr>float_rect := clamp_rect (g (float_rect f)) a\<rparr>)"
proof -
  from assms obtain i where
    pos: "position (\<lambda>f. float_pane f = p) (layer_panes l) = Some i" and f: "f = layer_panes l ! i"
    by (auto simp: layer_get_def find_position)
  from pos have i: "i < length (layer_panes l)" "float_pane (layer_panes l ! i) = p"
    and before: "\<forall>v\<in>set (take i (layer_panes l)). float_pane v \<noteq> p"
    by (auto dest!: position_SomeD simp: in_set_conv_nth)
  let ?f = "f\<lparr>float_rect := clamp_rect (g (float_rect f)) a\<rparr>"
  have "position (\<lambda>f. float_pane f = p) ((layer_panes l)[i := ?f]) = Some i"
    using position_append_first[of "take i (layer_panes l)" "\<lambda>f. float_pane f = p" ?f
        "drop (Suc i) (layer_panes l)"] before i f
    by (simp add: upd_conv_take_nth_drop)
  with pos i f show ?thesis
    by (simp add: update_rect_def Let_def layer_get_def find_position)
qed

text \<open>
  Resizing a float by its edges keeps every unselected edge where it was, stays inside the tab
  area, and stops a dragged edge at the minimum size instead of pushing the opposite edge; the
  final clamp of the layer never moves anything the edge arithmetic produced.
\<close>

theorem edge_resize_keeps_unselected_edges:
  assumes "layer_wf a l" and "area_ok a" and "layer_get l p = Some f"
    and "\<bar>dx\<bar> \<le> 1000000000" and "\<bar>dy\<bar> \<le> 1000000000"
  shows "\<exists>f'. layer_get (snd (layer_resize_by p e dx dy a l)) p = Some f' \<and>
    float_rect f' = resize_edges (float_rect f) e dx dy a \<and>
    float_fits a (float_rect f') \<and> edges_fixed e (float_rect f) (float_rect f')"
proof -
  have fits: "float_fits a (float_rect f)"
    using layer_get_Some[OF assms(3)] assms(1) by (auto simp: layer_wf_def)
  note r = resize_edges_fits[OF assms(2) fits assms(4,5), of e]
  then have "clamp_rect (resize_edges (float_rect f) e dx dy a) a = resize_edges (float_rect f) e dx dy a"
    by (intro clamp_rect_id[OF assms(2)]) simp
  with r layer_get_update[OF assms(3)] show ?thesis
    by (simp add: layer_resize_by_def)
qed

theorem edge_resize_keeps_unselected_edges_witness:
  "let r = \<lparr>rect_x = 20, rect_y = 8, rect_width = 12, rect_height = 6\<rparr>;
       a = \<lparr>rect_x = 0, rect_y = 0, rect_width = 80, rect_height = 23\<rparr>;
       l = \<lparr>layer_panes = [\<lparr>float_pane = 1, float_rect = r, float_pinned = False\<rparr>],
            ordinary_visible = True\<rparr>
   in \<exists>f'. layer_get (snd (layer_resize_by 1 (no_edges\<lparr>edge_left := True\<rparr>) 40 0 a l)) 1 = Some f' \<and>
        float_fits a (float_rect f') \<and> edges_fixed (no_edges\<lparr>edge_left := True\<rparr>) r (float_rect f')"
proof -
  let ?r = "\<lparr>rect_x = 20, rect_y = 8, rect_width = 12, rect_height = 6\<rparr> :: rect"
  let ?a = "\<lparr>rect_x = 0, rect_y = 0, rect_width = 80, rect_height = 23\<rparr> :: rect"
  let ?f = "\<lparr>float_pane = 1, float_rect = ?r, float_pinned = False\<rparr>"
  let ?l = "\<lparr>layer_panes = [?f], ordinary_visible = True\<rparr>"
  have h: "layer_wf ?a ?l" "area_ok ?a" "layer_get ?l 1 = Some ?f"
    "\<bar>40\<bar> \<le> (1000000000::int)" "\<bar>0\<bar> \<le> (1000000000::int)"
    by (simp_all add: layer_wf_def layered_def float_fits_def inside_def layer_get_def
        area_ok_def rect_ok_def)
  from edge_resize_keeps_unselected_edges[OF h, of "no_edges\<lparr>edge_left := True\<rparr>"]
  show ?thesis unfolding Let_def by (metis (no_types) floating_pane.select_convs(2))
qed

end
