(* ===== verification/Cells.thy ===== *)
theory Cells
  imports Prelude
begin

text \<open>
  The data of the pane terminal (\<open>src/vvmux-terminal/src/lib.rs\<close>, lines 16 to 176): cells,
  modes, events and the terminal record, with the partial vector accesses the operations use.
  \<open>usize\<close> sizes are \<open>nat\<close>; an index out of range or a subtraction below zero is \<open>None\<close>,
  where the Rust code panics. The escape-sequence parser (\<open>vte\<close>) is a library: its state is not
  part of the record.
\<close>

datatype terminal_color = ColorDefault | Indexed nat | Rgb nat nat nat

datatype underline_style =
  UnderlineNone | UnderlineSingle | UnderlineDouble | UnderlineCurl | UnderlineDotted | UnderlineDashed

record terminal_hyperlink =
  link_id :: "uchar list option"
  link_uri :: "uchar list"

record cell =
  cell_ch :: uchar
  cell_combining :: "uchar list"
  cell_foreground :: terminal_color
  cell_background :: terminal_color
  cell_bold :: bool
  cell_dim :: bool
  cell_italic :: bool
  cell_underline :: bool
  cell_underline_style :: underline_style
  cell_underline_color :: "terminal_color option"
  cell_blink :: bool
  cell_inverse :: bool
  cell_hidden :: bool
  cell_strikeout :: bool
  cell_wide_continuation :: bool
  cell_leading_wide_spacer :: bool
  cell_tab_width :: "nat option"
  cell_hyperlink :: "terminal_hyperlink option"

definition space :: uchar where "space = 32"

definition default_cell :: cell where
  "default_cell =
     \<lparr>cell_ch = space, cell_combining = [], cell_foreground = ColorDefault,
      cell_background = ColorDefault, cell_bold = False, cell_dim = False, cell_italic = False,
      cell_underline = False, cell_underline_style = UnderlineNone, cell_underline_color = None,
      cell_blink = False, cell_inverse = False, cell_hidden = False, cell_strikeout = False,
      cell_wide_continuation = False, cell_leading_wide_spacer = False, cell_tab_width = None,
      cell_hyperlink = None\<rparr>"

record terminal_modes =
  application_cursor :: bool
  bracketed_paste :: bool
  mouse_clicks :: bool
  mouse_motion :: bool
  sgr_mouse :: bool
  focus_reporting :: bool
  cursor_visible :: bool
  application_keypad :: bool

definition initial_modes :: terminal_modes where
  "initial_modes =
     \<lparr>application_cursor = False, bracketed_paste = False, mouse_clicks = False,
      mouse_motion = False, sgr_mouse = False, focus_reporting = False, cursor_visible = True,
      application_keypad = False\<rparr>"

datatype terminal_event =
    Damage
  | TitleEvent "uchar list option"
  | BellEvent
  | PtyWrite bytes
  | ModeChange terminal_modes
  | VividMarker bytes nat nat
  | GridScroll int
  | ClearEvent

record terminal =
  rows :: nat
  cols :: nat
  grid :: "cell list list"
  alternate_grid :: "cell list list"
  grid_wrapped :: "bool list"
  alternate_grid_wrapped :: "bool list"
  history :: "cell list list"
  history_wrapped :: "bool list"
  history_limit :: nat
  cursor_row :: nat
  cursor_col :: nat
  saved_cursor :: "nat \<times> nat"
  scroll_top :: nat
  scroll_bottom :: nat
  template :: cell
  events :: "terminal_event list"
  modes :: terminal_modes
  title :: "uchar list option"
  alternate_screen :: bool
  tab_stops :: "bool list"
  tab_stops_customized :: bool
  marker_pending :: bytes

definition blank_grid :: "nat \<Rightarrow> nat \<Rightarrow> cell list list" where
  "blank_grid r c = replicate r (replicate c default_cell)"

definition default_tab_stops :: "nat \<Rightarrow> nat \<Rightarrow> bool list" where
  "default_tab_stops c interval = map (\<lambda>column. 0 < column \<and> column mod interval = 0) [0..<c]"

definition terminal_new :: "nat \<Rightarrow> nat \<Rightarrow> nat \<Rightarrow> terminal" where
  "terminal_new r0 c0 limit =
     (let r = max r0 1; c = max c0 1
      in \<lparr>rows = r, cols = c, grid = blank_grid r c, alternate_grid = blank_grid r c,
          grid_wrapped = replicate r False, alternate_grid_wrapped = replicate r False,
          history = [], history_wrapped = [], history_limit = limit,
          cursor_row = 0, cursor_col = 0, saved_cursor = (0, 0), scroll_top = 0, scroll_bottom = r,
          template = default_cell, events = [], modes = initial_modes, title = None,
          alternate_screen = False, tab_stops = default_tab_stops c 8,
          tab_stops_customized = False, marker_pending = []\<rparr>)"

text \<open>\<open>Vec::resize\<close>.\<close>

definition vec_resize :: "nat \<Rightarrow> 'a \<Rightarrow> 'a list \<Rightarrow> 'a list" where
  "vec_resize n v xs = take n xs @ replicate (n - length xs) v"

definition resize_grid :: "nat \<Rightarrow> nat \<Rightarrow> cell list list \<Rightarrow> cell list list" where
  "resize_grid r c g =
     map (vec_resize c default_cell) (vec_resize r (replicate c default_cell) g)"

text \<open>Partial accesses.\<close>

definition vec_get :: "nat \<Rightarrow> 'a list \<Rightarrow> 'a option" where
  "vec_get i xs = (if i < length xs then Some (xs ! i) else None)"

definition vec_set :: "nat \<Rightarrow> 'a \<Rightarrow> 'a list \<Rightarrow> 'a list option" where
  "vec_set i v xs = (if i < length xs then Some (xs[i := v]) else None)"

definition vec_remove :: "nat \<Rightarrow> 'a list \<Rightarrow> ('a \<times> 'a list) option" where
  "vec_remove i xs = (if i < length xs then Some (xs ! i, remove_at i xs) else None)"

definition vec_insert :: "nat \<Rightarrow> 'a \<Rightarrow> 'a list \<Rightarrow> 'a list option" where
  "vec_insert i v xs = (if i \<le> length xs then Some (insert_at i v xs) else None)"

definition grid_set :: "nat \<Rightarrow> nat \<Rightarrow> cell \<Rightarrow> cell list list \<Rightarrow> cell list list option" where
  "grid_set r c v g = do { row \<leftarrow> vec_get r g; row' \<leftarrow> vec_set c v row; vec_set r row' g }"

definition usub :: "nat \<Rightarrow> nat \<Rightarrow> nat option" where
  "usub a b = (if b \<le> a then Some (a - b) else None)"

definition require :: "bool \<Rightarrow> unit option" where
  "require c = (if c then Some () else None)"

fun times :: "nat \<Rightarrow> ('s \<Rightarrow> 's option) \<Rightarrow> 's \<Rightarrow> 's option" where
  "times 0 f s = Some s"
| "times (Suc n) f s = (case f s of None \<Rightarrow> None | Some s' \<Rightarrow> times n f s')"

text \<open>A grid of the given size, and the invariant of a terminal.\<close>

definition grid_ok :: "nat \<Rightarrow> nat \<Rightarrow> cell list list \<Rightarrow> bool" where
  "grid_ok r c g \<longleftrightarrow> length g = r \<and> (\<forall>row\<in>set g. length row = c)"

text \<open>\<open>core_ok\<close> is what the operations need while one of them narrows the scroll region.\<close>

definition core_ok :: "terminal \<Rightarrow> bool" where
  "core_ok t \<longleftrightarrow>
     1 \<le> rows t \<and> 1 \<le> cols t \<and>
     grid_ok (rows t) (cols t) (grid t) \<and> grid_ok (rows t) (cols t) (alternate_grid t) \<and>
     length (grid_wrapped t) = rows t \<and> length (alternate_grid_wrapped t) = rows t \<and>
     length (history t) = length (history_wrapped t) \<and> length (history t) \<le> history_limit t \<and>
     cursor_row t < rows t \<and> cursor_col t \<le> cols t \<and> scroll_bottom t \<le> rows t \<and>
     length (tab_stops t) = cols t"

definition term_ok :: "terminal \<Rightarrow> bool" where
  "term_ok t \<longleftrightarrow> core_ok t \<and> scroll_top t < scroll_bottom t"

lemma vec_get_ok [simp]: "i < length xs \<Longrightarrow> vec_get i xs = Some (xs ! i)"
  by (simp add: vec_get_def)

lemma vec_set_ok [simp]: "i < length xs \<Longrightarrow> vec_set i v xs = Some (xs[i := v])"
  by (simp add: vec_set_def)

lemma vec_remove_ok [simp]: "i < length xs \<Longrightarrow> vec_remove i xs = Some (xs ! i, remove_at i xs)"
  by (simp add: vec_remove_def)

lemma vec_insert_ok [simp]: "i \<le> length xs \<Longrightarrow> vec_insert i v xs = Some (insert_at i v xs)"
  by (simp add: vec_insert_def)

lemma usub_ok [simp]: "b \<le> a \<Longrightarrow> usub a b = Some (a - b)"
  by (simp add: usub_def)

lemma require_True [simp]: "require True = Some ()"
  by (simp add: require_def)

lemma length_vec_resize [simp]: "length (vec_resize n v xs) = n"
  by (simp add: vec_resize_def)

lemma grid_ok_blank [simp]: "grid_ok r c (blank_grid r c)"
  by (simp add: grid_ok_def blank_grid_def)

lemma grid_ok_resize [simp]: "grid_ok r c (resize_grid r c g)"
  by (auto simp: grid_ok_def resize_grid_def)

lemma grid_ok_nth: "grid_ok r c g \<Longrightarrow> i < r \<Longrightarrow> length (g ! i) = c"
  by (simp add: grid_ok_def)

lemma grid_ok_length: "grid_ok r c g \<Longrightarrow> length g = r"
  by (simp add: grid_ok_def)

lemma grid_ok_update: "grid_ok r c g \<Longrightarrow> length row = c \<Longrightarrow> grid_ok r c (g[i := row])"
  by (auto simp: grid_ok_def dest!: set_update_subset_insert[THEN subsetD])

lemma grid_set_ok:
  "grid_ok r c g \<Longrightarrow> i < r \<Longrightarrow> j < c \<Longrightarrow> grid_set i j v g = Some (g[i := (g ! i)[j := v]])"
  by (simp add: grid_set_def grid_ok_def)

lemma length_default_tab_stops [simp]: "length (default_tab_stops c i) = c"
  by (simp add: default_tab_stops_def)

lemma times_safe:
  assumes "\<And>s. P s \<Longrightarrow> \<exists>s'. f s = Some s' \<and> P s'" and "P s"
  shows "\<exists>s'. times n f s = Some s' \<and> P s'"
  using assms(2)
proof (induction n arbitrary: s)
  case 0
  then show ?case by simp
next
  case (Suc n)
  then show ?case using assms(1)[of s] by fastforce
qed

lemma term_ok_new: "term_ok (terminal_new r c limit)"
  by (simp add: terminal_new_def term_ok_def core_ok_def Let_def)

end
