(* ===== verification/Terminal_Ops.thy ===== *)
theory Terminal_Ops
  imports Cells
begin

text \<open>
  The terminal's screen operations (\<open>src/vvmux-terminal/src/lib.rs\<close>, lines 221 to 849): resizing,
  scrolling with history, and every method of the \<open>Handler\<close> trait the parser calls. The width of
  a character comes from the \<open>unicode-width\<close> crate and is the parameter \<open>cw\<close>. Each operation
  returns \<open>None\<close> where the code would index out of range or subtract below zero.
\<close>

section \<open>Damage, blanks and scrolling\<close>

definition damage :: "terminal \<Rightarrow> terminal" where
  "damage t = (if Damage \<in> set (events t) then t else t\<lparr>events := events t @ [Damage]\<rparr>)"

definition push_event :: "terminal_event \<Rightarrow> terminal \<Rightarrow> terminal" where
  "push_event e t = t\<lparr>events := events t @ [e]\<rparr>"

definition blank :: "terminal \<Rightarrow> cell" where
  "blank t = (template t)\<lparr>cell_ch := space, cell_combining := [], cell_wide_continuation := False,
     cell_leading_wide_spacer := False, cell_tab_width := None\<rparr>"

definition terminal_resize :: "nat \<Rightarrow> nat \<Rightarrow> terminal \<Rightarrow> terminal" where
  "terminal_resize r0 c0 t =
     (let r = max r0 1; c = max c0 1
      in t\<lparr>grid := resize_grid r c (grid t), alternate_grid := resize_grid r c (alternate_grid t),
           grid_wrapped := vec_resize r False (grid_wrapped t),
           alternate_grid_wrapped := vec_resize r False (alternate_grid_wrapped t),
           tab_stops := (if tab_stops_customized t then vec_resize c False (tab_stops t)
                         else default_tab_stops c 8),
           rows := r, cols := c,
           cursor_row := min (cursor_row t) (r - 1), cursor_col := min (cursor_col t) (c - 1),
           scroll_top := 0, scroll_bottom := r, events := events t @ [Damage]\<rparr>)"

text \<open>A line that leaves the top of a full-screen region enters the history, oldest lines first out.\<close>

definition push_history :: "cell list \<Rightarrow> bool \<Rightarrow> terminal \<Rightarrow> terminal" where
  "push_history row wrapped t =
     (let h = history t @ [row]; w = history_wrapped t @ [wrapped]; n = length h - history_limit t
      in t\<lparr>history := drop n h, history_wrapped := drop n w\<rparr>)"

definition scroll_up_once :: "terminal \<Rightarrow> terminal option" where
  "scroll_up_once t =
     do { (removed, g) \<leftarrow> vec_remove (scroll_top t) (grid t);
          (removed_wrapped, gw) \<leftarrow> vec_remove (scroll_top t) (grid_wrapped t);
          let t1 = t\<lparr>grid := g, grid_wrapped := gw\<rparr>;
          let t2 = (if scroll_top t = 0 \<and> scroll_bottom t = rows t \<and> \<not> alternate_screen t
                    then push_history removed removed_wrapped t1 else t1);
          last_line \<leftarrow> usub (scroll_bottom t) 1;
          g' \<leftarrow> vec_insert last_line (replicate (cols t) (blank t)) (grid t2);
          gw' \<leftarrow> vec_insert last_line False (grid_wrapped t2);
          Some (t2\<lparr>grid := g', grid_wrapped := gw'\<rparr>) }"

definition scroll_down_once :: "terminal \<Rightarrow> terminal option" where
  "scroll_down_once t =
     do { last_line \<leftarrow> usub (scroll_bottom t) 1;
          (_, g) \<leftarrow> vec_remove last_line (grid t);
          (_, gw) \<leftarrow> vec_remove last_line (grid_wrapped t);
          g' \<leftarrow> vec_insert (scroll_top t) (replicate (cols t) (blank t)) g;
          gw' \<leftarrow> vec_insert (scroll_top t) False gw;
          Some (t\<lparr>grid := g', grid_wrapped := gw'\<rparr>) }"

definition scroll_region_up :: "nat \<Rightarrow> terminal \<Rightarrow> terminal option" where
  "scroll_region_up count0 t =
     (let count = min count0 (scroll_bottom t - scroll_top t)
      in do { t1 \<leftarrow> times count scroll_up_once t;
              Some (if 0 < count then damage (push_event (GridScroll (int count)) t1) else t1) })"

definition scroll_region_down :: "nat \<Rightarrow> terminal \<Rightarrow> terminal option" where
  "scroll_region_down count0 t =
     (let count = min count0 (scroll_bottom t - scroll_top t)
      in do { t1 \<leftarrow> times count scroll_down_once t;
              Some (if 0 < count then damage (push_event (GridScroll (- int count)) t1) else t1) })"

definition line_feed :: "terminal \<Rightarrow> terminal option" where
  "line_feed t =
     (if scroll_bottom t \<le> cursor_row t + 1 then scroll_region_up 1 t
      else Some (t\<lparr>cursor_row := min (cursor_row t + 1) (rows t - 1)\<rparr>))"

section \<open>Erasing and tab bookkeeping within a row\<close>

text \<open>A literal tab spans cells; overwriting any of them ends its role as a tab.\<close>

definition untab :: "(nat \<Rightarrow> nat \<Rightarrow> bool) \<Rightarrow> nat \<Rightarrow> cell list \<Rightarrow> cell list" where
  "untab hit n row =
     map (\<lambda>(column, c). case cell_tab_width c of
            None \<Rightarrow> c
          | Some w \<Rightarrow> if column < n \<and> hit column (column + w) then c\<lparr>cell_tab_width := None\<rparr> else c)
       (enumerate 0 row)"

definition clear_row_range :: "nat \<Rightarrow> nat \<Rightarrow> nat \<Rightarrow> terminal \<Rightarrow> terminal option" where
  "clear_row_range r start0 end0 t =
     (let start = min start0 (cols t); fin = min end0 (cols t)
      in do { row \<leftarrow> vec_get r (grid t);
              require (cols t \<le> length row);
              let row1 = untab (\<lambda>column tab_end. column < fin \<and> start < tab_end) (cols t) row;
              require (start \<le> fin);
              let row2 = take start row1 @ replicate (fin - start) (blank t) @ drop fin row1;
              Some (damage (t\<lparr>grid := (grid t)[r := row2]\<rparr>)) })"

definition invalidate_tab_at :: "nat \<Rightarrow> nat \<Rightarrow> terminal \<Rightarrow> terminal option" where
  "invalidate_tab_at r column t =
     do { row \<leftarrow> vec_get r (grid t);
          require (cols t \<le> length row);
          Some (t\<lparr>grid := (grid t)[r := untab (\<lambda>start tab_end. start \<le> column \<and> column < tab_end)
                   (cols t) row]\<rparr>) }"

section \<open>Printing\<close>

definition input_combining :: "uchar \<Rightarrow> terminal \<Rightarrow> terminal option" where
  "input_combining c t =
     (let col = cursor_col t - 1
      in do { row \<leftarrow> vec_get (cursor_row t) (grid t);
              old \<leftarrow> vec_get col row;
              g \<leftarrow> grid_set (cursor_row t) col
                     (old\<lparr>cell_combining := cell_combining old @ [c]\<rparr>) (grid t);
              Some (damage (t\<lparr>grid := g\<rparr>)) })"

text \<open>Marks the row as soft-wrapped and moves to the start of the next line.\<close>

definition wrap_line :: "terminal \<Rightarrow> terminal option" where
  "wrap_line t =
     do { gw \<leftarrow> vec_set (cursor_row t) True (grid_wrapped t);
          line_feed (t\<lparr>grid_wrapped := gw, cursor_col := 0\<rparr>) }"

definition wrap_wide :: "terminal \<Rightarrow> terminal option" where
  "wrap_wide t =
     do { t1 \<leftarrow> invalidate_tab_at (cursor_row t) (cursor_col t) t;
          g \<leftarrow> grid_set (cursor_row t1) (cursor_col t1)
                 ((blank t1)\<lparr>cell_leading_wide_spacer := True\<rparr>) (grid t1);
          wrap_line (t1\<lparr>grid := g\<rparr>) }"

definition printed_cell :: "uchar \<Rightarrow> terminal \<Rightarrow> cell" where
  "printed_cell c t = (template t)\<lparr>cell_ch := c, cell_combining := [],
     cell_wide_continuation := False, cell_leading_wide_spacer := False\<rparr>"

definition put_cell :: "cell \<Rightarrow> terminal \<Rightarrow> terminal option" where
  "put_cell v t =
     do { g \<leftarrow> grid_set (cursor_row t) (cursor_col t) v (grid t);
          Some (t\<lparr>grid := g, cursor_col := cursor_col t + 1\<rparr>) }"

definition put_char :: "(uchar \<Rightarrow> nat option) \<Rightarrow> uchar \<Rightarrow> terminal \<Rightarrow> terminal option" where
  "put_char cw c t =
     (let width = (case cw c of None \<Rightarrow> 1 | Some w \<Rightarrow> w)
      in if width = 0 then input_combining c t
         else do {
           t1 \<leftarrow> (if cols t \<le> cursor_col t then wrap_line t else Some t);
           t2 \<leftarrow> (if width = 2 \<and> cols t1 \<le> cursor_col t1 + 1 then wrap_wide t1 else Some t1);
           t3 \<leftarrow> invalidate_tab_at (cursor_row t2) (cursor_col t2) t2;
           t4 \<leftarrow> (if width = 2 then invalidate_tab_at (cursor_row t3) (cursor_col t3 + 1) t3
                   else Some t3);
           t5 \<leftarrow> put_cell (printed_cell c t4) t4;
           t6 \<leftarrow> (if width = 2 \<and> cursor_col t5 < cols t5
                   then put_cell ((blank t5)\<lparr>cell_wide_continuation := True\<rparr>) t5 else Some t5);
           Some (damage t6) })"

section \<open>Cursor motion and tabs\<close>

definition goto :: "int \<Rightarrow> nat \<Rightarrow> terminal \<Rightarrow> terminal" where
  "goto line col t =
     t\<lparr>cursor_row := min (nat (max line 0)) (rows t - 1), cursor_col := min col (cols t - 1)\<rparr>"

definition move_up :: "nat \<Rightarrow> terminal \<Rightarrow> terminal" where
  "move_up n t = t\<lparr>cursor_row := max (cursor_row t - n) (scroll_top t)\<rparr>"

definition move_down :: "nat \<Rightarrow> terminal \<Rightarrow> terminal" where
  "move_down n t = t\<lparr>cursor_row := min (cursor_row t + n) (scroll_bottom t - 1)\<rparr>"

definition move_forward :: "nat \<Rightarrow> terminal \<Rightarrow> terminal" where
  "move_forward n t = t\<lparr>cursor_col := min (cursor_col t + n) (cols t - 1)\<rparr>"

definition move_backward :: "nat \<Rightarrow> terminal \<Rightarrow> terminal" where
  "move_backward n t = t\<lparr>cursor_col := cursor_col t - n\<rparr>"

definition put_tab_once :: "terminal \<Rightarrow> terminal option" where
  "put_tab_once t =
     (let start = cursor_col t;
          nxt = (case List.find (\<lambda>column. column < length (tab_stops t) \<and> tab_stops t ! column)
                   [Suc start..<cols t] of None \<Rightarrow> cols t - 1 | Some column \<Rightarrow> column)
      in if start < nxt
         then do { row \<leftarrow> vec_get (cursor_row t) (grid t);
                   old \<leftarrow> vec_get start row;
                   g \<leftarrow> grid_set (cursor_row t) start
                          (old\<lparr>cell_tab_width := (if nxt - start \<le> 65535 then Some (nxt - start) else None)\<rparr>)
                          (grid t);
                   Some (t\<lparr>grid := g, cursor_col := nxt\<rparr>) }
         else Some (t\<lparr>cursor_col := nxt\<rparr>))"

definition put_tab :: "nat \<Rightarrow> terminal \<Rightarrow> terminal option" where
  "put_tab count t = times count put_tab_once t"

definition set_stop :: "bool \<Rightarrow> terminal \<Rightarrow> terminal" where
  "set_stop v t = t\<lparr>tab_stops_customized := True, tab_stops := (tab_stops t)[cursor_col t := v]\<rparr>"

datatype tabulation_clear_mode = TabClearCurrent | TabClearAll

definition clear_tabs :: "tabulation_clear_mode \<Rightarrow> terminal \<Rightarrow> terminal" where
  "clear_tabs mode t =
     (case mode of
        TabClearCurrent \<Rightarrow> set_stop False t
      | TabClearAll \<Rightarrow> t\<lparr>tab_stops_customized := True,
                         tab_stops := replicate (length (tab_stops t)) False\<rparr>)"

definition set_tabs :: "nat \<Rightarrow> terminal \<Rightarrow> terminal" where
  "set_tabs interval t =
     t\<lparr>tab_stops_customized := True, tab_stops := default_tab_stops (cols t) (max interval 1)\<rparr>"

section \<open>Inserting, deleting and erasing cells\<close>

definition no_tabs :: "cell list \<Rightarrow> cell list" where
  "no_tabs row = map (\<lambda>c. c\<lparr>cell_tab_width := None\<rparr>) row"

text \<open>The two shifting loops, cell by cell in the order of the code.\<close>

definition shift_right :: "nat \<Rightarrow> nat \<Rightarrow> nat \<Rightarrow> cell list \<Rightarrow> cell list" where
  "shift_right from_col to_col count row =
     fold (\<lambda>column r. r[column + count := r ! column]) (rev [from_col..<to_col]) row"

definition shift_left :: "nat \<Rightarrow> nat \<Rightarrow> nat \<Rightarrow> cell list \<Rightarrow> cell list" where
  "shift_left from_col to_col count row =
     fold (\<lambda>column r. r[column := r ! (column + count)]) [from_col..<to_col] row"

definition fill_range :: "nat \<Rightarrow> nat \<Rightarrow> cell \<Rightarrow> cell list \<Rightarrow> cell list" where
  "fill_range a b v row = take a row @ replicate (b - a) v @ drop b row"

definition insert_blank :: "nat \<Rightarrow> terminal \<Rightarrow> terminal option" where
  "insert_blank count0 t =
     do { room \<leftarrow> usub (cols t) (cursor_col t);
          let count = min count0 room;
          row \<leftarrow> vec_get (cursor_row t) (grid t);
          require (cols t \<le> length row);
          let row1 = shift_right (cursor_col t) (cols t - count) count (no_tabs row);
          let row2 = fill_range (cursor_col t) (cursor_col t + count) (blank t) row1;
          Some (damage (t\<lparr>grid := (grid t)[cursor_row t := row2]\<rparr>)) }"

definition delete_chars :: "nat \<Rightarrow> terminal \<Rightarrow> terminal option" where
  "delete_chars count0 t =
     do { room \<leftarrow> usub (cols t) (cursor_col t);
          let count = min count0 room;
          row \<leftarrow> vec_get (cursor_row t) (grid t);
          require (cols t \<le> length row);
          let row1 = shift_left (cursor_col t) (cols t - count) count (no_tabs row);
          let row2 = fill_range (cols t - count) (length row1) (blank t) row1;
          Some (damage (t\<lparr>grid := (grid t)[cursor_row t := row2]\<rparr>)) }"

definition erase_chars :: "nat \<Rightarrow> terminal \<Rightarrow> terminal option" where
  "erase_chars count t =
     clear_row_range (cursor_row t) (cursor_col t) (min (cursor_col t + count) (cols t)) t"

datatype line_clear_mode = LineRight | LineLeft | LineAll

definition clear_line :: "line_clear_mode \<Rightarrow> terminal \<Rightarrow> terminal option" where
  "clear_line mode t =
     (case mode of
        LineRight \<Rightarrow> clear_row_range (cursor_row t) (cursor_col t) (cols t) t
      | LineLeft \<Rightarrow> clear_row_range (cursor_row t) 0 (cursor_col t + 1) t
      | LineAll \<Rightarrow> clear_row_range (cursor_row t) 0 (cols t) t)"

fun clear_rows :: "nat list \<Rightarrow> terminal \<Rightarrow> terminal option" where
  "clear_rows [] t = Some t"
| "clear_rows (r # rs) t = do { t1 \<leftarrow> clear_row_range r 0 (cols t) t; clear_rows rs t1 }"

datatype clear_mode = ScreenBelow | ScreenAbove | ScreenAll | ScreenSaved

definition clear_screen :: "clear_mode \<Rightarrow> terminal \<Rightarrow> terminal option" where
  "clear_screen mode t =
     (case mode of
        ScreenBelow \<Rightarrow>
          do { t1 \<leftarrow> clear_row_range (cursor_row t) (cursor_col t) (cols t) t;
               clear_rows [cursor_row t + 1..<rows t] t1 }
      | ScreenAbove \<Rightarrow>
          do { t1 \<leftarrow> clear_rows [0..<cursor_row t] t;
               clear_row_range (cursor_row t) 0 (cursor_col t + 1) t1 }
      | ScreenAll \<Rightarrow>
          Some (damage (push_event ClearEvent
            (t\<lparr>grid := blank_grid (rows t) (cols t),
               grid_wrapped := replicate (length (grid_wrapped t)) False\<rparr>)))
      | ScreenSaved \<Rightarrow>
          (let t1 = t\<lparr>history := [], history_wrapped := []\<rparr>
           in Some (if list_all (\<lambda>row. list_all (\<lambda>c. cell_ch c = space \<and> cell_combining c = []) row)
                        (grid t1)
                    then push_event ClearEvent t1 else t1)))"

section \<open>Safety of the operations\<close>

text \<open>
  \<open>keeps t res\<close>: the operation returned, the core invariant holds, and neither the size nor the
  scroll margins changed.
\<close>

definition same_frame :: "terminal \<Rightarrow> terminal \<Rightarrow> bool" where
  "same_frame t t' \<longleftrightarrow> rows t' = rows t \<and> cols t' = cols t \<and> scroll_top t' = scroll_top t \<and>
     scroll_bottom t' = scroll_bottom t"

definition keeps :: "terminal \<Rightarrow> terminal option \<Rightarrow> bool" where
  "keeps t res \<longleftrightarrow> (\<exists>t'. res = Some t' \<and> core_ok t' \<and> same_frame t t')"

lemma same_frame_refl [simp]: "same_frame t t"
  by (simp add: same_frame_def)

lemma same_frame_trans: "same_frame t u \<Longrightarrow> same_frame u v \<Longrightarrow> same_frame t v"
  by (simp add: same_frame_def)

lemma keepsI: "core_ok t' \<Longrightarrow> same_frame t t' \<Longrightarrow> keeps t (Some t')"
  by (simp add: keeps_def)

lemma keeps_Some [simp]: "keeps t (Some t') \<longleftrightarrow> core_ok t' \<and> same_frame t t'"
  by (simp add: keeps_def)

lemma keeps_bind:
  assumes "keeps t r"
    and "\<And>t1. r = Some t1 \<Longrightarrow> core_ok t1 \<Longrightarrow> same_frame t t1 \<Longrightarrow> keeps t1 (f t1)"
  shows "keeps t (Option.bind r f)"
  using assms unfolding keeps_def by (fastforce intro: same_frame_trans)

lemma keeps_term_ok: "term_ok t \<Longrightarrow> keeps t r \<Longrightarrow> \<exists>t'. r = Some t' \<and> term_ok t'"
  by (auto simp: keeps_def term_ok_def same_frame_def)

lemma core_ok_damage [simp]: "core_ok (damage t) = core_ok t"
  by (simp add: damage_def core_ok_def)

lemma same_frame_damage [simp]:
  "same_frame (damage t) u = same_frame t u" "same_frame t (damage u) = same_frame t u"
  by (simp_all add: damage_def same_frame_def)

lemma core_ok_push [simp]: "core_ok (push_event e t) = core_ok t"
  by (simp add: push_event_def core_ok_def)

lemma same_frame_push [simp]:
  "same_frame (push_event e t) u = same_frame t u" "same_frame t (push_event e u) = same_frame t u"
  by (simp_all add: push_event_def same_frame_def)

lemma damage_fields [simp]:
  "rows (damage t) = rows t" "cols (damage t) = cols t" "grid (damage t) = grid t"
  "cursor_row (damage t) = cursor_row t" "cursor_col (damage t) = cursor_col t"
  "scroll_top (damage t) = scroll_top t" "scroll_bottom (damage t) = scroll_bottom t"
  "grid_wrapped (damage t) = grid_wrapped t" "history (damage t) = history t"
  "history_wrapped (damage t) = history_wrapped t" "template (damage t) = template t"
  "alternate_screen (damage t) = alternate_screen t" "history_limit (damage t) = history_limit t"
  by (simp_all add: damage_def)

lemma push_event_fields [simp]:
  "rows (push_event e t) = rows t" "cols (push_event e t) = cols t" "grid (push_event e t) = grid t"
  "cursor_row (push_event e t) = cursor_row t" "cursor_col (push_event e t) = cursor_col t"
  "scroll_top (push_event e t) = scroll_top t" "scroll_bottom (push_event e t) = scroll_bottom t"
  "grid_wrapped (push_event e t) = grid_wrapped t" "history (push_event e t) = history t"
  "history_wrapped (push_event e t) = history_wrapped t" "template (push_event e t) = template t"
  "alternate_screen (push_event e t) = alternate_screen t"
  "history_limit (push_event e t) = history_limit t"
  by (simp_all add: push_event_def)

lemma core_okD:
  assumes "core_ok t"
  shows "1 \<le> rows t" "1 \<le> cols t" "length (grid t) = rows t" "cursor_row t < rows t"
    "cursor_col t \<le> cols t" "scroll_bottom t \<le> rows t" "length (grid_wrapped t) = rows t"
    "\<And>i. i < rows t \<Longrightarrow> length (grid t ! i) = cols t" "grid_ok (rows t) (cols t) (grid t)"
  using assms by (auto simp: core_ok_def grid_ok_def)

lemma core_ok_grid:
  "core_ok t \<Longrightarrow> grid_ok (rows t) (cols t) g \<Longrightarrow> core_ok (t\<lparr>grid := g\<rparr>)"
  by (simp add: core_ok_def)

lemma core_ok_row:
  "core_ok t \<Longrightarrow> length row = cols t \<Longrightarrow> core_ok (t\<lparr>grid := (grid t)[i := row]\<rparr>)"
  by (intro core_ok_grid grid_ok_update) (auto dest: core_okD)

lemma grid_ok_remove_insert:
  "grid_ok r c g \<Longrightarrow> i < r \<Longrightarrow> j < r \<Longrightarrow> length row = c \<Longrightarrow>
     grid_ok r c (insert_at j row (remove_at i g))"
  by (auto simp: grid_ok_def set_insert_at dest!: set_remove_at[THEN subsetD])

lemma push_history_ok:
  "length h = length w \<Longrightarrow> length (drop (length (h @ [row]) - k) (h @ [row])) \<le> k \<and>
     length (drop (length (h @ [row]) - k) (h @ [row])) = length (drop (length (h @ [row]) - k) (w @ [b]))"
  by simp

lemma push_history_fields [simp]:
  "rows (push_history row w t) = rows t" "cols (push_history row w t) = cols t"
  "grid (push_history row w t) = grid t" "grid_wrapped (push_history row w t) = grid_wrapped t"
  by (simp_all add: push_history_def Let_def)

lemma scroll_up_once_keeps:
  assumes "core_ok t" and "scroll_top t < scroll_bottom t"
  shows "\<exists>t'. scroll_up_once t = Some t' \<and> core_ok t' \<and> same_frame t t' \<and>
    cursor_row t' = cursor_row t \<and> cursor_col t' = cursor_col t"
proof -
  note d = core_okD[OF assms(1)]
  have b: "scroll_top t < rows t" "scroll_bottom t - 1 < rows t" "scroll_bottom t - 1 \<le> rows t - 1"
    using d(6) assms(2) by auto
  have g: "grid_ok (rows t) (cols t)
      (insert_at (scroll_bottom t - 1) (replicate (cols t) (blank t)) (remove_at (scroll_top t) (grid t)))"
    by (rule grid_ok_remove_insert[OF d(9) b(1,2)]) simp
  have w: "length (insert_at (scroll_bottom t - 1) False (remove_at (scroll_top t) (grid_wrapped t))) =
      rows t" using b d by simp
  show ?thesis
    using assms b d(3,7) g w
    by (auto simp: scroll_up_once_def push_history_def core_ok_def same_frame_def Let_def)
qed

lemma scroll_down_once_keeps:
  assumes "core_ok t" and "scroll_top t < scroll_bottom t"
  shows "\<exists>t'. scroll_down_once t = Some t' \<and> core_ok t' \<and> same_frame t t' \<and>
    cursor_row t' = cursor_row t \<and> cursor_col t' = cursor_col t"
proof -
  note d = core_okD[OF assms(1)]
  have b: "scroll_top t < rows t" "scroll_bottom t - 1 < rows t" "scroll_top t \<le> rows t - 1"
    using d(6) assms(2) by auto
  have g: "grid_ok (rows t) (cols t)
      (insert_at (scroll_top t) (replicate (cols t) (blank t)) (remove_at (scroll_bottom t - 1) (grid t)))"
    by (rule grid_ok_remove_insert[OF d(9) b(2,1)]) simp
  have w: "length (insert_at (scroll_top t) False (remove_at (scroll_bottom t - 1) (grid_wrapped t))) =
      rows t" using b d by simp
  show ?thesis
    using assms b d(3,7) g w
    by (auto simp: scroll_down_once_def core_ok_def same_frame_def)
qed

lemma times_scroll_keeps:
  assumes "\<And>u. core_ok u \<Longrightarrow> scroll_top u < scroll_bottom u \<Longrightarrow>
      \<exists>t'. f u = Some t' \<and> core_ok t' \<and> same_frame u t' \<and>
        cursor_row t' = cursor_row u \<and> cursor_col t' = cursor_col u"
    and "core_ok t" and "n = 0 \<or> scroll_top t < scroll_bottom t"
  shows "\<exists>t'. times n f t = Some t' \<and> core_ok t' \<and> same_frame t t' \<and>
    cursor_row t' = cursor_row t \<and> cursor_col t' = cursor_col t"
  using assms(2,3)
proof (induction n arbitrary: t)
  case 0
  then show ?case by simp
next
  case (Suc n)
  then obtain u where u: "f t = Some u" "core_ok u" "same_frame t u"
    "cursor_row u = cursor_row t" "cursor_col u = cursor_col t"
    using assms(1)[of t] by auto
  have "n = 0 \<or> scroll_top u < scroll_bottom u"
    using Suc.prems u(3) by (auto simp: same_frame_def)
  from Suc.IH[OF u(2) this] obtain v where v: "times n f u = Some v" "core_ok v" "same_frame u v"
    "cursor_row v = cursor_row u" "cursor_col v = cursor_col u" by blast
  with u same_frame_trans[OF u(3) v(3)] show ?case by simp
qed

lemma scroll_region_up_keeps:
  assumes "core_ok t"
  shows "\<exists>t'. scroll_region_up n t = Some t' \<and> core_ok t' \<and> same_frame t t' \<and>
    cursor_row t' = cursor_row t \<and> cursor_col t' = cursor_col t"
proof -
  have "min n (scroll_bottom t - scroll_top t) = 0 \<or> scroll_top t < scroll_bottom t" by auto
  from times_scroll_keeps[OF scroll_up_once_keeps assms this] show ?thesis
    by (auto simp: scroll_region_up_def Let_def)
qed

lemma scroll_region_down_keeps:
  assumes "core_ok t"
  shows "\<exists>t'. scroll_region_down n t = Some t' \<and> core_ok t' \<and> same_frame t t' \<and>
    cursor_row t' = cursor_row t \<and> cursor_col t' = cursor_col t"
proof -
  have "min n (scroll_bottom t - scroll_top t) = 0 \<or> scroll_top t < scroll_bottom t" by auto
  from times_scroll_keeps[OF scroll_down_once_keeps assms this] show ?thesis
    by (auto simp: scroll_region_down_def Let_def)
qed

lemma core_ok_cursor:
  "core_ok t \<Longrightarrow> r < rows t \<Longrightarrow> c \<le> cols t \<Longrightarrow> core_ok (t\<lparr>cursor_row := r, cursor_col := c\<rparr>)"
  by (simp add: core_ok_def)

lemma line_feed_keeps:
  assumes "core_ok t"
  shows "\<exists>t'. line_feed t = Some t' \<and> core_ok t' \<and> same_frame t t' \<and> cursor_col t' = cursor_col t"
proof (cases "scroll_bottom t \<le> cursor_row t + 1")
  case True
  with scroll_region_up_keeps[OF assms, of 1] show ?thesis by (auto simp: line_feed_def)
next
  case False
  with assms show ?thesis by (auto simp: line_feed_def core_ok_def same_frame_def)
qed

lemma length_untab [simp]: "length (untab hit n row) = length row"
  by (simp add: untab_def)

lemma invalidate_tab_keeps:
  assumes "core_ok t" and "r < rows t"
  shows "\<exists>t'. invalidate_tab_at r c t = Some t' \<and> core_ok t' \<and> same_frame t t' \<and>
    cursor_row t' = cursor_row t \<and> cursor_col t' = cursor_col t"
proof -
  note d = core_okD[OF assms(1)]
  show ?thesis
    using assms(2) d(3,8) core_ok_row[OF assms(1)]
    by (simp add: invalidate_tab_at_def same_frame_def)
qed

lemma clear_row_range_keeps:
  assumes "core_ok t" and "r < rows t" and "min a (cols t) \<le> min b (cols t)"
  shows "\<exists>t'. clear_row_range r a b t = Some t' \<and> core_ok t' \<and> same_frame t t' \<and>
    cursor_row t' = cursor_row t \<and> cursor_col t' = cursor_col t"
proof -
  note d = core_okD[OF assms(1)]
  show ?thesis
    using assms(2,3) d(3,8) core_ok_row[OF assms(1)]
    by (simp add: clear_row_range_def same_frame_def Let_def)
qed

lemma clear_rows_keeps:
  "core_ok t \<Longrightarrow> \<forall>r\<in>set rs. r < rows t \<Longrightarrow>
     \<exists>t'. clear_rows rs t = Some t' \<and> core_ok t' \<and> same_frame t t' \<and>
       cursor_row t' = cursor_row t \<and> cursor_col t' = cursor_col t"
proof (induction rs arbitrary: t)
  case Nil
  then show ?case by simp
next
  case (Cons r rs)
  from Cons.prems obtain u where u: "clear_row_range r 0 (cols t) t = Some u" "core_ok u"
    "same_frame t u" "cursor_row u = cursor_row t" "cursor_col u = cursor_col t"
    using clear_row_range_keeps[of t r 0 "cols t"] by auto
  from Cons.prems u(3) have "\<forall>r\<in>set rs. r < rows u" by (simp add: same_frame_def)
  from Cons.IH[OF u(2) this] u same_frame_trans[OF u(3)] show ?case by auto
qed

lemma put_cell_keeps:
  assumes "core_ok t" and "cursor_col t < cols t"
  shows "\<exists>t'. put_cell v t = Some t' \<and> core_ok t' \<and> same_frame t t' \<and>
    cursor_row t' = cursor_row t \<and> cursor_col t' = cursor_col t + 1"
proof -
  note d = core_okD[OF assms(1)]
  have "grid_ok (rows t) (cols t)
      ((grid t)[cursor_row t := (grid t ! cursor_row t)[cursor_col t := v]])"
    by (rule grid_ok_update[OF d(9)]) (simp add: d(8)[OF d(4)])
  with assms grid_set_ok[OF d(9,4) assms(2)] show ?thesis
    by (auto simp: put_cell_def core_ok_def same_frame_def)
qed

lemma input_combining_keeps:
  assumes "core_ok t"
  shows "keeps t (input_combining c t)"
proof -
  note d = core_okD[OF assms]
  have col: "cursor_col t - 1 < cols t" using d(2,5) by linarith
  have "core_ok (t\<lparr>grid := (grid t)[cursor_row t := (grid t ! cursor_row t)[cursor_col t - 1 := v]]\<rparr>)" for v
    by (rule core_ok_row[OF assms]) (simp add: d(8)[OF d(4)])
  with d(3,4) d(8)[OF d(4)] col grid_set_ok[OF d(9,4) col] show ?thesis
    by (simp add: input_combining_def Let_def same_frame_def)
qed

lemma wrap_line_keeps:
  assumes "core_ok t"
  shows "\<exists>t'. wrap_line t = Some t' \<and> core_ok t' \<and> same_frame t t' \<and> cursor_col t' = 0"
proof -
  note d = core_okD[OF assms]
  let ?u = "t\<lparr>grid_wrapped := (grid_wrapped t)[cursor_row t := True], cursor_col := 0\<rparr>"
  have "core_ok ?u" using assms by (simp add: core_ok_def)
  from line_feed_keeps[OF this] show ?thesis
    using d(4,7) by (auto simp: wrap_line_def same_frame_def)
qed

lemma wrap_wide_keeps:
  assumes "core_ok t" and "cursor_col t < cols t"
  shows "\<exists>t'. wrap_wide t = Some t' \<and> core_ok t' \<and> same_frame t t' \<and> cursor_col t' = 0"
proof -
  from invalidate_tab_keeps[OF assms(1) core_okD(4)[OF assms(1)]] obtain u where
    u: "invalidate_tab_at (cursor_row t) (cursor_col t) t = Some u" "core_ok u" "same_frame t u"
    "cursor_row u = cursor_row t" "cursor_col u = cursor_col t" by blast
  note d = core_okD[OF u(2)]
  have col: "cursor_col u < cols u" using assms(2) u by (simp add: same_frame_def)
  let ?v = "(blank u)\<lparr>cell_leading_wide_spacer := True\<rparr>"
  let ?g = "(grid u)[cursor_row u := (grid u ! cursor_row u)[cursor_col u := ?v]]"
  have "core_ok (u\<lparr>grid := ?g\<rparr>)"
    by (rule core_ok_row[OF u(2)]) (simp add: d(8)[OF d(4)])
  from wrap_line_keeps[OF this] obtain w where w: "wrap_line (u\<lparr>grid := ?g\<rparr>) = Some w" "core_ok w"
    "same_frame (u\<lparr>grid := ?g\<rparr>) w" "cursor_col w = 0" by blast
  have "grid_set (cursor_row u) (cursor_col u) ?v (grid u) = Some ?g"
    by (rule grid_set_ok[OF d(9,4) col])
  with u w have "wrap_wide t = Some w" by (simp add: wrap_wide_def)
  with w u(3) show ?thesis by (simp add: same_frame_def)
qed

lemma put_char_keeps:
  assumes "core_ok t"
  shows "keeps t (put_char cw c t)"
proof (cases "(case cw c of None \<Rightarrow> 1 | Some w \<Rightarrow> w) = 0")
  case True
  with input_combining_keeps[OF assms] show ?thesis by (simp add: put_char_def)
next
  case False
  let ?w = "case cw c of None \<Rightarrow> 1 | Some w \<Rightarrow> w"
  obtain t1 where t1: "(if cols t \<le> cursor_col t then wrap_line t else Some t) = Some t1"
    "core_ok t1" "same_frame t t1" "cursor_col t1 < cols t1"
    using wrap_line_keeps[OF assms] core_okD(2)[OF assms] assms
    by (cases "cols t \<le> cursor_col t") (auto simp: same_frame_def)
  obtain t2 where t2: "(if ?w = 2 \<and> cols t1 \<le> cursor_col t1 + 1 then wrap_wide t1 else Some t1) = Some t2"
    "core_ok t2" "same_frame t1 t2" "cursor_col t2 < cols t2"
    using wrap_wide_keeps[OF t1(2,4)] core_okD(2)[OF t1(2)] t1
    by (cases "?w = 2 \<and> cols t1 \<le> cursor_col t1 + 1") (auto simp: same_frame_def)
  obtain t3 where t3: "invalidate_tab_at (cursor_row t2) (cursor_col t2) t2 = Some t3"
    "core_ok t3" "same_frame t2 t3" "cursor_col t3 < cols t3"
    using invalidate_tab_keeps[OF t2(2) core_okD(4)[OF t2(2)]] t2(4) by (fastforce simp: same_frame_def)
  obtain t4 where t4: "(if ?w = 2 then invalidate_tab_at (cursor_row t3) (cursor_col t3 + 1) t3
      else Some t3) = Some t4" "core_ok t4" "same_frame t3 t4" "cursor_col t4 < cols t4"
    using invalidate_tab_keeps[OF t3(2) core_okD(4)[OF t3(2)], of "cursor_col t3 + 1"] t3(2,4)
    by (cases "?w = 2") (auto simp: same_frame_def)
  obtain t5 where t5: "put_cell (printed_cell c t4) t4 = Some t5" "core_ok t5" "same_frame t4 t5"
    using put_cell_keeps[OF t4(2,4)] by blast
  obtain t6 where t6: "(if ?w = 2 \<and> cursor_col t5 < cols t5
      then put_cell ((blank t5)\<lparr>cell_wide_continuation := True\<rparr>) t5 else Some t5) = Some t6"
    "core_ok t6" "same_frame t5 t6"
    using put_cell_keeps[OF t5(2)] t5(2) by (cases "?w = 2 \<and> cursor_col t5 < cols t5") auto
  have "same_frame t t6"
    using t1(3) t2(3) t3(3) t4(3) t5(3) t6(3) by (simp add: same_frame_def)
  moreover have "put_char cw c t = Some (damage t6)"
    unfolding put_char_def Let_def
    using False by (simp only: if_False t1(1) t2(1) t3(1) t4(1) t5(1) t6(1) bind.bind_lunit)
  ultimately show ?thesis using t6(2) by simp
qed

lemma put_tab_once_keeps:
  assumes "core_ok t"
  shows "\<exists>t'. put_tab_once t = Some t' \<and> (core_ok t' \<and> same_frame t t')"
proof -
  note d = core_okD[OF assms]
  define nxt where "nxt = (case List.find (\<lambda>column. column < length (tab_stops t) \<and> tab_stops t ! column)
      [Suc (cursor_col t)..<cols t] of None \<Rightarrow> cols t - 1 | Some column \<Rightarrow> column)"
  have n: "nxt < cols t"
    using d(2) by (auto simp: nxt_def split: option.splits dest!: find_Some_in)
  show ?thesis
  proof (cases "cursor_col t < nxt")
    case True
    with n have col: "cursor_col t < cols t" by simp
    let ?old = "grid t ! cursor_row t ! cursor_col t"
    let ?v = "?old\<lparr>cell_tab_width := (if nxt - cursor_col t \<le> 65535 then Some (nxt - cursor_col t) else None)\<rparr>"
    let ?g = "(grid t)[cursor_row t := (grid t ! cursor_row t)[cursor_col t := ?v]]"
    have gs: "grid_set (cursor_row t) (cursor_col t) ?v (grid t) = Some ?g"
      by (rule grid_set_ok[OF d(9,4) col])
    have "put_tab_once t = Some (t\<lparr>grid := ?g, cursor_col := nxt\<rparr>)"
      unfolding put_tab_once_def Let_def nxt_def[symmetric]
      using True d(3,4) d(8)[OF d(4)] col gs by simp
    moreover have "core_ok (t\<lparr>grid := ?g, cursor_col := nxt\<rparr>)"
      using core_ok_row[OF assms, of "(grid t ! cursor_row t)[cursor_col t := ?v]" "cursor_row t"]
        d(8)[OF d(4)] n by (simp add: core_ok_def)
    ultimately show ?thesis by (simp add: same_frame_def)
  next
    case False
    then have "put_tab_once t = Some (t\<lparr>cursor_col := nxt\<rparr>)"
      unfolding put_tab_once_def Let_def nxt_def[symmetric] by simp
    with assms n show ?thesis by (simp add: core_ok_def same_frame_def)
  qed
qed

lemma put_tab_keeps: "core_ok t \<Longrightarrow> keeps t (put_tab n t)"
  unfolding put_tab_def
proof (induction n arbitrary: t)
  case 0
  then show ?case by simp
next
  case (Suc n)
  from put_tab_once_keeps[OF Suc.prems] obtain u where
    u: "put_tab_once t = Some u" "core_ok u" "same_frame t u" by blast
  with Suc.IH[OF u(2)] same_frame_trans[OF u(3)] show ?case by (auto simp: keeps_def)
qed

section \<open>Shifting cells\<close>

lemma length_shift_right [simp]: "length (shift_right a b k row) = length row"
proof -
  have "length (fold (\<lambda>column r. r[column + k := r ! column]) cs row) = length row" for cs
    by (induction cs arbitrary: row) auto
  then show ?thesis by (simp add: shift_right_def)
qed

lemma length_shift_left [simp]: "length (shift_left a b k row) = length row"
proof -
  have "length (fold (\<lambda>column r. r[column := r ! (column + k)]) cs row) = length row" for cs
    by (induction cs arbitrary: row) auto
  then show ?thesis by (simp add: shift_left_def)
qed

lemma shift_right_nth:
  "b + k \<le> length row \<Longrightarrow> i < length row \<Longrightarrow>
     shift_right a b k row ! i = (if a + k \<le> i \<and> i < b + k then row ! (i - k) else row ! i)"
proof (induction b arbitrary: row)
  case 0
  then show ?case by (auto simp: shift_right_def)
next
  case (Suc b)
  show ?case
  proof (cases "a \<le> b")
    case True
    then have "shift_right a (Suc b) k row = shift_right a b k (row[b + k := row ! b])"
      by (simp add: shift_right_def)
    with Suc.IH[of "row[b + k := row ! b]"] Suc.prems True show ?thesis
      by (auto simp: nth_list_update)
  next
    case False
    then show ?thesis using Suc.prems by (auto simp: shift_right_def)
  qed
qed

lemma shift_left_nth:
  "b + k \<le> length row \<Longrightarrow> i < length row \<Longrightarrow>
     shift_left a b k row ! i = (if a \<le> i \<and> i < b then row ! (i + k) else row ! i)"
proof (induction b arbitrary: i)
  case 0
  then show ?case by (simp add: shift_left_def)
next
  case (Suc b)
  show ?case
  proof (cases "a \<le> b")
    case True
    then have "shift_left a (Suc b) k row =
        (shift_left a b k row)[b := shift_left a b k row ! (b + k)]"
      by (simp add: shift_left_def)
    with Suc.IH[of "b + k"] Suc.IH[of i] Suc.prems True show ?thesis
      by (auto simp: nth_list_update)
  next
    case False
    then show ?thesis using Suc.prems by (auto simp: shift_left_def)
  qed
qed

lemma insert_shift:
  assumes "length row = n" and "c + k \<le> n"
  shows "fill_range c (c + k) v (shift_right c (n - k) k row) =
    take c row @ replicate k v @ take (n - c - k) (drop c row)"
proof (rule nth_equalityI)
  show "length (fill_range c (c + k) v (shift_right c (n - k) k row)) =
      length (take c row @ replicate k v @ take (n - c - k) (drop c row))"
    using assms by (simp add: fill_range_def)
  fix i assume "i < length (fill_range c (c + k) v (shift_right c (n - k) k row))"
  then have "i < n" using assms by (simp add: fill_range_def)
  with assms show "fill_range c (c + k) v (shift_right c (n - k) k row) ! i =
      (take c row @ replicate k v @ take (n - c - k) (drop c row)) ! i"
    by (auto simp: fill_range_def nth_append shift_right_nth)
qed

lemma delete_shift:
  assumes "length row = n" and "c + k \<le> n"
  shows "fill_range (n - k) n v (shift_left c (n - k) k row) =
    take c row @ drop (c + k) row @ replicate k v"
proof (rule nth_equalityI)
  show "length (fill_range (n - k) n v (shift_left c (n - k) k row)) =
      length (take c row @ drop (c + k) row @ replicate k v)"
    using assms by (simp add: fill_range_def)
  fix i assume "i < length (fill_range (n - k) n v (shift_left c (n - k) k row))"
  then have "i < n" using assms by (simp add: fill_range_def)
  with assms show "fill_range (n - k) n v (shift_left c (n - k) k row) ! i =
      (take c row @ drop (c + k) row @ replicate k v) ! i"
    by (auto simp: fill_range_def nth_append shift_left_nth add.commute)
qed

lemma length_no_tabs [simp]: "length (no_tabs row) = length row"
  by (simp add: no_tabs_def)

lemma insert_blank_eq:
  fixes n :: nat
  assumes "core_ok t"
  defines "k \<equiv> min n (cols t - cursor_col t)" and "row \<equiv> no_tabs (grid t ! cursor_row t)"
  shows "insert_blank n t = Some (damage (t\<lparr>grid := (grid t)[cursor_row t :=
    take (cursor_col t) row @ replicate k (blank t) @
    take (cols t - cursor_col t - k) (drop (cursor_col t) row)]\<rparr>))"
proof -
  note d = core_okD[OF assms(1)]
  have l: "length row = cols t" using d(8)[OF d(4)] by (simp add: row_def)
  have c: "cursor_col t + k \<le> cols t" using d(5) by (simp add: k_def)
  show ?thesis
    using d(3,4,5) l
    by (simp add: insert_blank_def row_def[symmetric] k_def[symmetric] insert_shift[OF l c])
      (simp add: row_def)
qed

lemma delete_chars_eq:
  fixes n :: nat
  assumes "core_ok t"
  defines "k \<equiv> min n (cols t - cursor_col t)" and "row \<equiv> no_tabs (grid t ! cursor_row t)"
  shows "delete_chars n t = Some (damage (t\<lparr>grid := (grid t)[cursor_row t :=
    take (cursor_col t) row @ drop (cursor_col t + k) row @ replicate k (blank t)]\<rparr>))"
proof -
  note d = core_okD[OF assms(1)]
  have l: "length row = cols t" using d(8)[OF d(4)] by (simp add: row_def)
  have c: "cursor_col t + k \<le> cols t" using d(5) by (simp add: k_def)
  show ?thesis
    using d(3,4,5) l delete_shift[OF l c]
    by (simp add: delete_chars_def row_def[symmetric] k_def[symmetric])
      (simp add: row_def)
qed

lemma insert_blank_keeps: "core_ok t \<Longrightarrow> keeps t (insert_blank n t)"
  using core_okD[of t] by (auto simp: insert_blank_eq same_frame_def intro!: core_ok_row)

lemma delete_chars_keeps: "core_ok t \<Longrightarrow> keeps t (delete_chars n t)"
  using core_okD[of t] by (auto simp: delete_chars_eq same_frame_def intro!: core_ok_row)

lemma erase_chars_keeps: "core_ok t \<Longrightarrow> keeps t (erase_chars n t)"
  using clear_row_range_keeps[of t "cursor_row t" "cursor_col t" "min (cursor_col t + n) (cols t)"]
    core_okD[of t] by (auto simp: erase_chars_def keeps_def)

lemma clear_line_keeps:
  assumes "core_ok t"
  shows "keeps t (clear_line m t)"
proof -
  note c = clear_row_range_keeps[OF assms core_okD(4)[OF assms]]
  show ?thesis
    using c[of "cursor_col t" "cols t"] c[of 0 "cursor_col t + 1"] c[of 0 "cols t"]
    by (cases m) (auto simp: clear_line_def keeps_def)
qed

lemma clear_screen_keeps:
  assumes "core_ok t"
  shows "keeps t (clear_screen m t)"
proof (cases m)
  case ScreenBelow
  note d = core_okD[OF assms]
  from clear_row_range_keeps[OF assms d(4), of "cursor_col t" "cols t"] obtain u where
    u: "clear_row_range (cursor_row t) (cursor_col t) (cols t) t = Some u" "core_ok u" "same_frame t u"
    by auto
  then have "\<forall>r\<in>set [cursor_row t + 1..<rows t]. r < rows u" by (simp add: same_frame_def)
  from clear_rows_keeps[OF u(2) this] u same_frame_trans[OF u(3)] show ?thesis
    by (auto simp: clear_screen_def ScreenBelow keeps_def)
next
  case ScreenAbove
  note d = core_okD[OF assms]
  have "\<forall>r\<in>set [0..<cursor_row t]. r < rows t" using d(4) by simp
  from clear_rows_keeps[OF assms this] obtain u where
    u: "clear_rows [0..<cursor_row t] t = Some u" "core_ok u" "same_frame t u" by blast
  then have "cursor_row t < rows u" using d(4) by (simp add: same_frame_def)
  from clear_row_range_keeps[OF u(2) this, of 0 "cursor_col t + 1"] u same_frame_trans[OF u(3)]
  show ?thesis by (auto simp: clear_screen_def ScreenAbove keeps_def)
next
  case ScreenAll
  have "core_ok (t\<lparr>grid := blank_grid (rows t) (cols t),
      grid_wrapped := replicate (length (grid_wrapped t)) False\<rparr>)"
    using assms by (simp add: core_ok_def)
  with ScreenAll show ?thesis by (simp add: clear_screen_def same_frame_def)
next
  case ScreenSaved
  have "core_ok (t\<lparr>history := [], history_wrapped := []\<rparr>)"
    using assms by (simp add: core_ok_def)
  with ScreenSaved show ?thesis by (simp add: clear_screen_def same_frame_def Let_def)
qed

end
