(* ===== verification/Session_Tabs.thy ===== *)
theory Session_Tabs
  imports Tiled Floating Region Ipc_Types Terminal_Ops
begin

text \<open>
  The data of the session actor (\<open>src/src/session.rs\<close>) that needs no actor state: a tab with its
  tiled tree and floating layer, the focus rules, the ordered list of what a tab shows, the hit
  regions of a float's frame, pointer drags and the float-edit mode, the fragment ids handed to
  the outer server and the small decision functions of the media projection.
\<close>

section \<open>Tabs\<close>

record tab =
  tab_id :: nat
  tab_tree :: "tiled_node option"
  tab_floating :: floating_layer
  tab_focused :: pane_id
  tab_last_tiled :: "pane_id option"
  tab_zoomed :: "pane_id option"

definition tree_contains :: "tiled_node option \<Rightarrow> pane_id \<Rightarrow> bool" where
  "tree_contains tree p = (case tree of None \<Rightarrow> False | Some t \<Rightarrow> node_contains t p)"

definition tab_contains :: "tab \<Rightarrow> pane_id \<Rightarrow> bool" where
  "tab_contains t p \<longleftrightarrow> tree_contains (tab_tree t) p \<or> layer_contains (tab_floating t) p"

definition tab_is_empty :: "tab \<Rightarrow> bool" where
  "tab_is_empty t \<longleftrightarrow> tab_tree t = None \<and> layer_is_empty (tab_floating t)"

definition or_else :: "'a option \<Rightarrow> 'a option \<Rightarrow> 'a option" where
  "or_else a b = (case a of None \<Rightarrow> b | Some v \<Rightarrow> Some v)"

definition filter_option :: "('a \<Rightarrow> bool) \<Rightarrow> 'a option \<Rightarrow> 'a option" where
  "filter_option P a = (case a of None \<Rightarrow> None | Some v \<Rightarrow> if P v then Some v else None)"

definition fallback_focus :: "tab \<Rightarrow> pane_id option" where
  "fallback_focus t =
     or_else (focus_candidate (tab_floating t))
       (or_else (filter_option (tree_contains (tab_tree t)) (tab_last_tiled t))
          (map_option (\<lambda>tree. hd (pane_ids tree)) (tab_tree t)))"

definition set_focus :: "pane_id \<Rightarrow> tab \<Rightarrow> tab" where
  "set_focus p t =
     (let t' = t\<lparr>tab_focused := p\<rparr>
      in if tree_contains (tab_tree t) p then t'\<lparr>tab_last_tiled := Some p\<rparr>
         else t'\<lparr>tab_floating := snd (layer_raise p (tab_floating t))\<rparr>)"

section \<open>What a tab shows\<close>

definition float_layer_of :: "floating_pane \<Rightarrow> pane_layer" where
  "float_layer_of f = (if float_pinned f then Pinned else Floating)"

text \<open>\<open>None\<close>: the placement of the tiled tree panics.\<close>

definition visible_projections :: "tab \<Rightarrow> rect \<Rightarrow> pane_projection list option" where
  "visible_projections t area =
     (case tab_zoomed t of
        Some zoomed \<Rightarrow>
          Some [\<lparr>proj_pane = zoomed, proj_outer = area, proj_content = content area,
                 proj_layer = (case layer_get (tab_floating t) zoomed of
                    Some f \<Rightarrow> float_layer_of f | None \<Rightarrow> Tiled),
                 proj_focused = (tab_focused t = zoomed)\<rparr>]
      | None \<Rightarrow>
          do { tiled \<leftarrow> (case tab_tree t of None \<Rightarrow> Some [] | Some tree \<Rightarrow> geometry tree area);
               Some (map (\<lambda>(p, outer). \<lparr>proj_pane = p, proj_outer = outer,
                         proj_content = content outer, proj_layer = Tiled,
                         proj_focused = (tab_focused t = p)\<rparr>) tiled @
                     map (\<lambda>f. \<lparr>proj_pane = float_pane f, proj_outer = float_rect f,
                         proj_content = content (float_rect f), proj_layer = float_layer_of f,
                         proj_focused = (tab_focused t = float_pane f)\<rparr>)
                       (layer_visible (tab_floating t))) })"

definition push_new :: "'a \<Rightarrow> 'a list \<Rightarrow> 'a list" where
  "push_new p out = (if p \<in> set out then out else out @ [p])"

definition layer_panes_of :: "pane_layer \<Rightarrow> pane_projection list \<Rightarrow> pane_id list" where
  "layer_panes_of l ps = map proj_pane (filter (\<lambda>p. proj_layer p = l) ps)"

definition projection_pane_priority :: "tab \<Rightarrow> pane_projection list \<Rightarrow> pane_id list" where
  "projection_pane_priority t ps =
     (let shown = (\<lambda>p. list_ex (\<lambda>q. proj_pane q = p) ps);
          out1 = (if shown (tab_focused t) then push_new (tab_focused t) [] else []);
          out2 = fold push_new (layer_panes_of Pinned (rev ps)) out1;
          out3 = fold push_new (layer_panes_of Floating (rev ps)) out2;
          out4 = (case tab_last_tiled t of
                    None \<Rightarrow> out3
                  | Some p \<Rightarrow> if shown p then push_new p out3 else out3)
      in fold push_new (sort (layer_panes_of Tiled ps)) out4)"

section \<open>Hit regions of a float's frame\<close>

datatype float_pointer_target = TargetMove | TargetResize edge_mask

definition float_pointer_target :: "rect \<Rightarrow> nat \<Rightarrow> nat \<Rightarrow> nat \<Rightarrow> float_pointer_target option" where
  "float_pointer_target r px py border_drag_margin =
     (if \<not> rect_contains r px py \<or> rect_width r < 2 \<or> rect_height r < 2 then None
      else
        let right = add16 (rect_x r) (rect_width r) - 1;
            bottom = add16 (rect_y r) (rect_height r) - 1;
            on_left = (px = rect_x r);
            on_right = (px = right);
            on_top = (py = rect_y r);
            on_bottom = (py = bottom)
        in if on_top
           then let margin = min (max border_drag_margin 1) (rect_width r div 2)
                in if px < add16 (rect_x r) margin
                   then Some (TargetResize (no_edges\<lparr>edge_left := True, edge_top := True\<rparr>))
                   else if add16 (rect_x r) (rect_width r) - margin \<le> px
                   then Some (TargetResize (no_edges\<lparr>edge_right := True, edge_top := True\<rparr>))
                   else Some TargetMove
           else if on_left \<or> on_right \<or> on_bottom
           then Some (TargetResize (no_edges\<lparr>edge_left := on_left, edge_right := on_right,
                        edge_bottom := on_bottom\<rparr>))
           else None)"

section \<open>Drags, the float-edit mode and copy mode\<close>

datatype pointer_drag =
    TiledBoundary (drag_tab: nat) (drag_axis: axis) (drag_boundary: nat) (drag_last: nat)
      (drag_tree: tiled_node)
  | MoveFloat (drag_tab: nat) (drag_float: pane_id) (drag_start: "nat \<times> nat") (drag_rect: rect)
  | ResizeFloat (drag_tab: nat) (drag_float: pane_id) (drag_edges: edge_mask)
      (drag_start: "nat \<times> nat") (drag_rect: rect)

fun drag_pane :: "pointer_drag \<Rightarrow> pane_id option" where
  "drag_pane (TiledBoundary _ _ _ _ _) = None"
| "drag_pane (MoveFloat _ p _ _) = Some p"
| "drag_pane (ResizeFloat _ p _ _ _) = Some p"

record float_modal =
  modal_id :: nat
  modal_pane :: pane_id
  modal_kind :: floating_edit_kind
  modal_original :: rect

record copy_state =
  copy_offset :: nat
  copy_row :: nat
  copy_column :: nat
  copy_selection :: "(int \<times> nat) option"

section \<open>Fragment ids\<close>

type_synonym fragment_map = "fixed_rect \<rightharpoonup> nat"

fun assign_from ::
    "fragment_map \<Rightarrow> nat list \<Rightarrow> fixed_rect list \<Rightarrow> (nat \<times> fixed_rect) list option" where
  "assign_from m used [] = Some []"
| "assign_from m used (f # fs) =
     (case m f of
        Some i \<Rightarrow>
          if i \<in> set used then None
          else map_option (\<lambda>rest. (i, f) # rest) (assign_from m (i # used) fs)
      | None \<Rightarrow>
          (case List.find (\<lambda>c. c \<notin> set used) [0..<256] of
             None \<Rightarrow> None
           | Some i \<Rightarrow> map_option (\<lambda>rest. (i, f) # rest) (assign_from m (i # used) fs)))"

text \<open>The answer and the map kept for the next call; a refused call keeps the old map.\<close>

definition fragment_assign ::
    "fixed_rect list \<Rightarrow> fragment_map \<Rightarrow> (nat \<times> fixed_rect) list option \<times> fragment_map" where
  "fragment_assign fragments m =
     (if \<not> distinct fragments then (None, m)
      else (case assign_from m [] fragments of
              None \<Rightarrow> (None, m)
            | Some assigned \<Rightarrow> (Some assigned, map_of (map (\<lambda>(i, f). (f, i)) assigned))))"

section \<open>Decisions of the media projection\<close>

record media_projection_key =
  virtual_revision :: nat
  projected_layout_revision :: nat

definition should_sync_media ::
    "bool \<Rightarrow> media_projection_key option \<Rightarrow> media_projection_key \<Rightarrow> bool" where
  "should_sync_media force last_key current \<longleftrightarrow> force \<or> last_key \<noteq> Some current"

definition bridge_apply_is_current ::
    "nat option \<Rightarrow> nat \<Rightarrow> nat \<Rightarrow> nat \<Rightarrow> nat \<Rightarrow> nat \<Rightarrow> bool" where
  "bridge_apply_is_current current_instance current_virtual current_bridge
     incoming_instance incoming_virtual incoming_bridge \<longleftrightarrow>
     current_virtual \<le> incoming_virtual \<and>
     (current_instance \<noteq> Some incoming_instance \<or> current_bridge \<le> incoming_bridge)"

definition next_outer_compatibility_revision :: "nat \<Rightarrow> nat \<Rightarrow> nat" where
  "next_outer_compatibility_revision current incoming = max (sat_add64 current 1) incoming"

section \<open>Displays\<close>

definition normalized_display :: "display_metrics \<Rightarrow> bool \<Rightarrow> display_metrics" where
  "normalized_display d status_visible =
     d\<lparr>disp_columns := clamp_val (disp_columns d) 10 1000,
       disp_rows := clamp_val (disp_rows d) (if status_visible then 5 else 4) 500\<rparr>"

end
