(* ===== verification/Terminal_Handler.thy ===== *)
theory Terminal_Handler
  imports Terminal_Ops
begin

text \<open>
  The rest of the \<open>Handler\<close> implementation (scroll margins, saved cursor, reset, attributes,
  private modes, reports) and the whole of it as one step function: the sequence of calls the
  \<open>vte\<close> parser makes is a list of \<open>handler_call\<close> values. Trait methods the terminal does not
  override have no effect and no constructor.
\<close>

section \<open>Scroll margins, saved cursor and reset\<close>

definition insert_blank_lines :: "nat \<Rightarrow> terminal \<Rightarrow> terminal option" where
  "insert_blank_lines n t =
     do { t1 \<leftarrow> scroll_region_down n (t\<lparr>scroll_top := cursor_row t\<rparr>);
          Some (t1\<lparr>scroll_top := scroll_top t\<rparr>) }"

definition delete_lines :: "nat \<Rightarrow> terminal \<Rightarrow> terminal option" where
  "delete_lines n t =
     do { t1 \<leftarrow> scroll_region_up n (t\<lparr>scroll_top := cursor_row t\<rparr>);
          Some (t1\<lparr>scroll_top := scroll_top t\<rparr>) }"

definition set_scrolling_region :: "nat \<Rightarrow> nat option \<Rightarrow> terminal \<Rightarrow> terminal option" where
  "set_scrolling_region top_line bottom_line t =
     (let top' = min (top_line - 1) (rows t - 1)
      in do { bottom' \<leftarrow> clamp (case bottom_line of None \<Rightarrow> rows t | Some b \<Rightarrow> b) (top' + 1) (rows t);
              Some (goto 0 0 (t\<lparr>scroll_top := top', scroll_bottom := bottom'\<rparr>)) })"

definition save_cursor_position :: "terminal \<Rightarrow> terminal" where
  "save_cursor_position t = t\<lparr>saved_cursor := (cursor_row t, cursor_col t)\<rparr>"

definition restore_cursor_position :: "terminal \<Rightarrow> terminal" where
  "restore_cursor_position t =
     t\<lparr>cursor_row := min (fst (saved_cursor t)) (rows t - 1),
       cursor_col := min (snd (saved_cursor t)) (cols t - 1)\<rparr>"

definition reverse_index :: "terminal \<Rightarrow> terminal option" where
  "reverse_index t =
     (if cursor_row t = scroll_top t then scroll_region_down 1 t
      else Some (t\<lparr>cursor_row := cursor_row t - 1\<rparr>))"

definition reset_state :: "terminal \<Rightarrow> terminal" where
  "reset_state t =
     damage (push_event ClearEvent
       (t\<lparr>grid := blank_grid (rows t) (cols t), alternate_grid := blank_grid (rows t) (cols t),
          grid_wrapped := replicate (length (grid_wrapped t)) False,
          alternate_grid_wrapped := replicate (length (alternate_grid_wrapped t)) False,
          history := [], history_wrapped := [], cursor_row := 0, cursor_col := 0,
          scroll_top := 0, scroll_bottom := rows t, template := default_cell,
          tab_stops := default_tab_stops (cols t) 8, tab_stops_customized := False,
          modes := initial_modes\<rparr>))"

section \<open>Attributes\<close>

text \<open>The parser's colours; a named colour outside the palette carries its discriminant.\<close>

datatype vte_named_color = NamedForeground | NamedBackground | NamedIndex nat

datatype vte_color = VteNamed vte_named_color | VteSpec nat nat nat | VteIndexed nat

definition convert_color :: "vte_color \<Rightarrow> bool \<Rightarrow> terminal_color" where
  "convert_color c foreground =
     (case c of
        VteIndexed i \<Rightarrow> Indexed i
      | VteSpec r g b \<Rightarrow> Rgb r g b
      | VteNamed NamedForeground \<Rightarrow> ColorDefault
      | VteNamed NamedBackground \<Rightarrow> ColorDefault
      | VteNamed (NamedIndex i) \<Rightarrow> if i < 16 then Indexed i else ColorDefault)"

datatype attr =
    AttrReset | AttrBold | AttrDim | AttrCancelBold | AttrCancelBoldDim | AttrItalic
  | AttrCancelItalic | AttrUnderline | AttrDoubleUnderline | AttrUndercurl | AttrDottedUnderline
  | AttrDashedUnderline | AttrCancelUnderline | AttrUnderlineColor "vte_color option"
  | AttrBlinkSlow | AttrBlinkFast | AttrCancelBlink | AttrReverse | AttrCancelReverse | AttrHidden
  | AttrCancelHidden | AttrStrike | AttrCancelStrike | AttrForeground vte_color
  | AttrBackground vte_color

definition set_underline :: "underline_style \<Rightarrow> cell \<Rightarrow> cell" where
  "set_underline style c =
     c\<lparr>cell_underline := (style \<noteq> UnderlineNone), cell_underline_style := style\<rparr>"

primrec apply_attr :: "attr \<Rightarrow> cell \<Rightarrow> cell" where
  "apply_attr AttrReset c = default_cell\<lparr>cell_hyperlink := cell_hyperlink c\<rparr>"
| "apply_attr AttrBold c = c\<lparr>cell_bold := True\<rparr>"
| "apply_attr AttrDim c = c\<lparr>cell_dim := True\<rparr>"
| "apply_attr AttrCancelBold c = c\<lparr>cell_bold := False\<rparr>"
| "apply_attr AttrCancelBoldDim c = c\<lparr>cell_bold := False, cell_dim := False\<rparr>"
| "apply_attr AttrItalic c = c\<lparr>cell_italic := True\<rparr>"
| "apply_attr AttrCancelItalic c = c\<lparr>cell_italic := False\<rparr>"
| "apply_attr AttrUnderline c = set_underline UnderlineSingle c"
| "apply_attr AttrDoubleUnderline c = set_underline UnderlineDouble c"
| "apply_attr AttrUndercurl c = set_underline UnderlineCurl c"
| "apply_attr AttrDottedUnderline c = set_underline UnderlineDotted c"
| "apply_attr AttrDashedUnderline c = set_underline UnderlineDashed c"
| "apply_attr AttrCancelUnderline c = set_underline UnderlineNone c"
| "apply_attr (AttrUnderlineColor col) c =
     c\<lparr>cell_underline_color := map_option (\<lambda>v. convert_color v True) col\<rparr>"
| "apply_attr AttrBlinkSlow c = c\<lparr>cell_blink := True\<rparr>"
| "apply_attr AttrBlinkFast c = c\<lparr>cell_blink := True\<rparr>"
| "apply_attr AttrCancelBlink c = c\<lparr>cell_blink := False\<rparr>"
| "apply_attr AttrReverse c = c\<lparr>cell_inverse := True\<rparr>"
| "apply_attr AttrCancelReverse c = c\<lparr>cell_inverse := False\<rparr>"
| "apply_attr AttrHidden c = c\<lparr>cell_hidden := True\<rparr>"
| "apply_attr AttrCancelHidden c = c\<lparr>cell_hidden := False\<rparr>"
| "apply_attr AttrStrike c = c\<lparr>cell_strikeout := True\<rparr>"
| "apply_attr AttrCancelStrike c = c\<lparr>cell_strikeout := False\<rparr>"
| "apply_attr (AttrForeground col) c = c\<lparr>cell_foreground := convert_color col True\<rparr>"
| "apply_attr (AttrBackground col) c = c\<lparr>cell_background := convert_color col False\<rparr>"

definition terminal_attribute :: "attr \<Rightarrow> terminal \<Rightarrow> terminal" where
  "terminal_attribute a t = t\<lparr>template := apply_attr a (template t)\<rparr>"

section \<open>Modes and reports\<close>

definition swap_screens :: "bool \<Rightarrow> terminal \<Rightarrow> terminal" where
  "swap_screens enabled t =
     damage (t\<lparr>grid := alternate_grid t, alternate_grid := grid t,
               grid_wrapped := alternate_grid_wrapped t, alternate_grid_wrapped := grid_wrapped t,
               alternate_screen := enabled, cursor_row := 0, cursor_col := 0\<rparr>)"

definition update_private_mode :: "nat \<Rightarrow> bool \<Rightarrow> terminal \<Rightarrow> terminal" where
  "update_private_mode raw enabled t =
     (let t1 =
        (if raw = 1 then t\<lparr>modes := (modes t)\<lparr>application_cursor := enabled\<rparr>\<rparr>
         else if raw = 2004 then t\<lparr>modes := (modes t)\<lparr>bracketed_paste := enabled\<rparr>\<rparr>
         else if raw = 1000 then t\<lparr>modes := (modes t)\<lparr>mouse_clicks := enabled\<rparr>\<rparr>
         else if raw = 1002 \<or> raw = 1003 then t\<lparr>modes := (modes t)\<lparr>mouse_motion := enabled\<rparr>\<rparr>
         else if raw = 1006 then t\<lparr>modes := (modes t)\<lparr>sgr_mouse := enabled\<rparr>\<rparr>
         else if raw = 1004 then t\<lparr>modes := (modes t)\<lparr>focus_reporting := enabled\<rparr>\<rparr>
         else if raw = 25 then t\<lparr>modes := (modes t)\<lparr>cursor_visible := enabled\<rparr>\<rparr>
         else if raw = 1049 \<and> enabled \<noteq> alternate_screen t then swap_screens enabled t
         else t)
      in push_event (ModeChange (modes t1)) t1)"

definition set_title :: "uchar list option \<Rightarrow> terminal \<Rightarrow> terminal" where
  "set_title v t = push_event (TitleEvent v) (t\<lparr>title := v\<rparr>)"

definition set_hyperlink :: "terminal_hyperlink option \<Rightarrow> terminal \<Rightarrow> terminal" where
  "set_hyperlink link t = t\<lparr>template := (template t)\<lparr>cell_hyperlink := link\<rparr>\<rparr>"

definition set_keypad :: "bool \<Rightarrow> terminal \<Rightarrow> terminal" where
  "set_keypad v t =
     (let t1 = t\<lparr>modes := (modes t)\<lparr>application_keypad := v\<rparr>\<rparr>
      in push_event (ModeChange (modes t1)) t1)"

definition device_status :: "nat \<Rightarrow> terminal \<Rightarrow> terminal" where
  "device_status status t =
     (if status = 5 then push_event (PtyWrite (esc # ascii ''[0n'')) t
      else if status = 6 then push_event (PtyWrite (esc # ascii ''['' @ decimal (cursor_row t + 1) @
             ascii '';'' @ decimal (cursor_col t + 1) @ ascii ''R'')) t
      else t)"

section \<open>The handler as a step function\<close>

datatype handler_call =
    Input uchar | Goto int nat | GotoLine int | GotoCol nat
  | MoveUp nat | MoveDown nat | MoveForward nat | MoveBackward nat
  | MoveDownAndCr nat | MoveUpAndCr nat | CarriageReturn | Linefeed | Newline | Backspace
  | PutTab nat | SetHorizontalTabstop | ClearTabs tabulation_clear_mode | SetTabs nat
  | InsertBlank nat | DeleteChars nat | EraseChars nat
  | ClearLine line_clear_mode | ClearScreen clear_mode
  | ScrollUp nat | ScrollDown nat | InsertBlankLines nat | DeleteLines nat
  | SetScrollingRegion nat "nat option" | SaveCursorPosition | RestoreCursorPosition
  | ReverseIndex | ResetState | TerminalAttribute attr
  | SetPrivateMode nat | UnsetPrivateMode nat | SetTitle "uchar list option"
  | SetHyperlink "terminal_hyperlink option" | SetKeypadApplicationMode
  | UnsetKeypadApplicationMode | BellCall | IdentifyTerminal | DeviceStatus nat

primrec handle :: "(uchar \<Rightarrow> nat option) \<Rightarrow> handler_call \<Rightarrow> terminal \<Rightarrow> terminal option" where
  "handle cw (Input c) t = put_char cw c t"
| "handle cw (Goto line col) t = Some (goto line col t)"
| "handle cw (GotoLine line) t = Some (goto line (cursor_col t) t)"
| "handle cw (GotoCol col) t = Some (goto (int (cursor_row t)) col t)"
| "handle cw (MoveUp n) t = Some (move_up n t)"
| "handle cw (MoveDown n) t = Some (move_down n t)"
| "handle cw (MoveForward n) t = Some (move_forward n t)"
| "handle cw (MoveBackward n) t = Some (move_backward n t)"
| "handle cw (MoveDownAndCr n) t = Some ((move_down n t)\<lparr>cursor_col := 0\<rparr>)"
| "handle cw (MoveUpAndCr n) t = Some ((move_up n t)\<lparr>cursor_col := 0\<rparr>)"
| "handle cw CarriageReturn t = Some (t\<lparr>cursor_col := 0\<rparr>)"
| "handle cw Linefeed t = line_feed t"
| "handle cw Newline t = map_option (\<lambda>t1. t1\<lparr>cursor_col := 0\<rparr>) (line_feed t)"
| "handle cw Backspace t = Some (t\<lparr>cursor_col := cursor_col t - 1\<rparr>)"
| "handle cw (PutTab n) t = put_tab n t"
| "handle cw SetHorizontalTabstop t = Some (set_stop True t)"
| "handle cw (ClearTabs m) t = Some (clear_tabs m t)"
| "handle cw (SetTabs n) t = Some (set_tabs n t)"
| "handle cw (InsertBlank n) t = insert_blank n t"
| "handle cw (DeleteChars n) t = delete_chars n t"
| "handle cw (EraseChars n) t = erase_chars n t"
| "handle cw (ClearLine m) t = clear_line m t"
| "handle cw (ClearScreen m) t = clear_screen m t"
| "handle cw (ScrollUp n) t = scroll_region_up n t"
| "handle cw (ScrollDown n) t = scroll_region_down n t"
| "handle cw (InsertBlankLines n) t = insert_blank_lines n t"
| "handle cw (DeleteLines n) t = delete_lines n t"
| "handle cw (SetScrollingRegion top_line bottom_line) t = set_scrolling_region top_line bottom_line t"
| "handle cw SaveCursorPosition t = Some (save_cursor_position t)"
| "handle cw RestoreCursorPosition t = Some (restore_cursor_position t)"
| "handle cw ReverseIndex t = reverse_index t"
| "handle cw ResetState t = Some (reset_state t)"
| "handle cw (TerminalAttribute a) t = Some (terminal_attribute a t)"
| "handle cw (SetPrivateMode m) t = Some (update_private_mode m True t)"
| "handle cw (UnsetPrivateMode m) t = Some (update_private_mode m False t)"
| "handle cw (SetTitle v) t = Some (set_title v t)"
| "handle cw (SetHyperlink v) t = Some (set_hyperlink v t)"
| "handle cw SetKeypadApplicationMode t = Some (set_keypad True t)"
| "handle cw UnsetKeypadApplicationMode t = Some (set_keypad False t)"
| "handle cw BellCall t = Some (push_event BellEvent t)"
| "handle cw IdentifyTerminal t = Some (push_event (PtyWrite (esc # ascii ''[?62;4c'')) t)"
| "handle cw (DeviceStatus s) t = Some (device_status s t)"

section \<open>No sequence of calls panics\<close>

text \<open>A terminal is driven by parser calls and by the host resizing it.\<close>

datatype terminal_op = Call handler_call | Resize nat nat

primrec terminal_step :: "(uchar \<Rightarrow> nat option) \<Rightarrow> terminal_op \<Rightarrow> terminal \<Rightarrow> terminal option" where
  "terminal_step cw (Call c) t = handle cw c t"
| "terminal_step cw (Resize r c) t = Some (terminal_resize r c t)"

lemma term_okD: "term_ok t \<Longrightarrow> core_ok t" "term_ok t \<Longrightarrow> scroll_top t < scroll_bottom t"
  by (simp_all add: term_ok_def)

lemma core_ok_margins: "core_ok t \<Longrightarrow> core_ok (t\<lparr>scroll_top := s\<rparr>)"
  by (simp add: core_ok_def)

lemma keeps_lines:
  assumes "core_ok t"
  shows "keeps t (insert_blank_lines n t)" and "keeps t (delete_lines n t)"
  using scroll_region_down_keeps[OF core_ok_margins[OF assms, of "cursor_row t"], of n]
    scroll_region_up_keeps[OF core_ok_margins[OF assms, of "cursor_row t"], of n]
  by (auto simp: insert_blank_lines_def delete_lines_def same_frame_def core_ok_margins)

lemma term_ok_cursor:
  "term_ok t \<Longrightarrow> r < rows t \<Longrightarrow> c \<le> cols t \<Longrightarrow> term_ok (t\<lparr>cursor_row := r, cursor_col := c\<rparr>)"
  by (simp add: term_ok_def core_ok_def)

lemma goto_term_ok: "term_ok t \<Longrightarrow> term_ok (goto line col t)"
  using core_okD(1,2)[OF term_okD(1), of t]
  by (auto simp: goto_def intro!: term_ok_cursor)

lemma set_scrolling_region_ok:
  assumes "term_ok t"
  shows "\<exists>t'. set_scrolling_region a b t = Some t' \<and> term_ok t'"
proof -
  note r = core_okD(1)[OF term_okD(1)[OF assms]]
  define tp where "tp = min (a - 1) (rows t - 1)"
  have tp: "tp + 1 \<le> rows t" using r by (simp add: tp_def)
  define bt where "bt = clamp_val (case b of None \<Rightarrow> rows t | Some b \<Rightarrow> b) (tp + 1) (rows t)"
  have "clamp (case b of None \<Rightarrow> rows t | Some b \<Rightarrow> b) (tp + 1) (rows t) = Some bt"
    unfolding bt_def by (rule clamp_eq_val[OF tp])
  moreover have "tp < bt" "bt \<le> rows t" using clamp_val_bounds[OF tp] by (auto simp: bt_def Suc_le_eq)
  then have "term_ok (t\<lparr>scroll_top := tp, scroll_bottom := bt\<rparr>)"
    using assms by (simp add: term_ok_def core_ok_def)
  ultimately show ?thesis
    unfolding set_scrolling_region_def Let_def tp_def[symmetric]
    by (simp add: goto_term_ok)
qed

lemma swap_screens_ok: "term_ok t \<Longrightarrow> term_ok (swap_screens e t)"
  by (auto simp: swap_screens_def damage_def term_ok_def core_ok_def)

lemma term_ok_push [simp]: "term_ok (push_event e t) = term_ok t"
  by (simp add: push_event_def term_ok_def core_ok_def)

lemma term_ok_damage [simp]: "term_ok (damage t) = term_ok t"
  by (simp add: damage_def term_ok_def core_ok_def)

lemma update_private_mode_ok: "term_ok t \<Longrightarrow> term_ok (update_private_mode m e t)"
  unfolding update_private_mode_def Let_def term_ok_push
  by (simp add: swap_screens_ok) (simp add: term_ok_def core_ok_def)

lemma terminal_resize_ok: "term_ok t \<Longrightarrow> term_ok (terminal_resize r c t)"
  by (auto simp: terminal_resize_def Let_def term_ok_def core_ok_def)

lemma reset_state_ok: "term_ok t \<Longrightarrow> term_ok (reset_state t)"
  by (simp add: reset_state_def) (simp add: term_ok_def core_ok_def)

lemma simple_ops_ok:
  assumes "term_ok t"
  shows "term_ok (move_up n t)" "term_ok (move_down n t)" "term_ok (move_forward n t)"
    "term_ok (move_backward n t)" "term_ok (t\<lparr>cursor_col := 0\<rparr>)"
    "term_ok (t\<lparr>cursor_col := cursor_col t - 1\<rparr>)" "term_ok (set_stop b t)"
    "term_ok (clear_tabs m t)" "term_ok (set_tabs n t)" "term_ok (save_cursor_position t)"
    "term_ok (restore_cursor_position t)" "term_ok (terminal_attribute a t)"
    "term_ok (set_title v t)" "term_ok (set_hyperlink l t)" "term_ok (set_keypad b t)"
    "term_ok (device_status n t)"
  using assms
  by (auto simp: term_ok_def core_ok_def move_up_def move_down_def move_forward_def
      move_backward_def set_stop_def clear_tabs_def set_tabs_def save_cursor_position_def
      restore_cursor_position_def terminal_attribute_def set_title_def push_event_def
      set_hyperlink_def set_keypad_def Let_def device_status_def
      split: tabulation_clear_mode.splits)

lemma line_feed_ok: "term_ok t \<Longrightarrow> \<exists>t'. line_feed t = Some t' \<and> term_ok t'"
  using line_feed_keeps[of t] by (auto simp: term_ok_def same_frame_def)

lemma scroll_ok:
  assumes "term_ok t"
  shows "\<exists>t'. scroll_region_up n t = Some t' \<and> term_ok t'"
    and "\<exists>t'. scroll_region_down n t = Some t' \<and> term_ok t'"
  using scroll_region_up_keeps[OF term_okD(1)[OF assms], of n]
    scroll_region_down_keeps[OF term_okD(1)[OF assms], of n] term_okD(2)[OF assms]
  by (auto simp: term_ok_def same_frame_def)

lemma reverse_index_ok:
  assumes "term_ok t"
  shows "\<exists>t'. reverse_index t = Some t' \<and> term_ok t'"
proof (cases "cursor_row t = scroll_top t")
  case True
  with scroll_ok(2)[OF assms, of 1] show ?thesis by (simp add: reverse_index_def)
next
  case False
  have "term_ok (t\<lparr>cursor_row := cursor_row t - 1\<rparr>)"
    using assms by (auto simp: term_ok_def core_ok_def)
  with False show ?thesis by (simp add: reverse_index_def)
qed

lemma handle_ok:
  assumes "term_ok t"
  shows "\<exists>t'. handle cw c t = Some t' \<and> term_ok t'"
proof -
  note k = keeps_term_ok[OF assms] and core = term_okD(1)[OF assms]
  note keeps = put_char_keeps put_tab_keeps insert_blank_keeps delete_chars_keeps erase_chars_keeps
    clear_line_keeps clear_screen_keeps keeps_lines
  show ?thesis
    using line_feed_ok[OF assms] simple_ops_ok(5) simple_ops_ok(6)[OF assms, simplified]
    by (cases c; (simp add: assms simple_ops_ok goto_term_ok reset_state_ok update_private_mode_ok
          set_scrolling_region_ok scroll_ok reverse_index_ok; fail)?)
      (auto intro: k keeps[OF core] simple_ops_ok simp: map_option_case)
qed

lemma terminal_step_ok:
  "term_ok t \<Longrightarrow> \<exists>t'. terminal_step cw e t = Some t' \<and> term_ok t'"
  by (cases e) (simp_all add: handle_ok terminal_resize_ok)

interpretation vt: safe_machine "terminal_step cw" term_ok "\<lambda>_ _. True" for cw
  by unfold_locales (rule terminal_step_ok)

end
