(* ===== verification/Terminal_Correct.thy ===== *)
theory Terminal_Correct
  imports Terminal_Handler
begin

text \<open>
  What the pane terminal promises: no call panics, full-screen scrolling is a sliding window over
  history and screen, the character-shifting loops have their closed forms, and the alternate
  screen is isolated from the main one.
\<close>

section \<open>No sequence of calls panics\<close>

text \<open>
  C13. From a fresh terminal of any size, no sequence of parser calls and resizes makes an index go
  out of range or a subtraction go below zero: the run returns, and the state it reaches has grids
  of the terminal's size, a cursor on the screen, ordered margins and a bounded history.
\<close>

theorem terminal_never_panics:
  "\<exists>t'. run_ops (terminal_step cw) es (terminal_new r c limit) = Some t' \<and> term_ok t'"
proof -
  have "admissible (terminal_step cw) (\<lambda>_ _. True) es t" for t
    by (induction es arbitrary: t) (auto split: option.splits)
  from vt.run_safe[OF term_ok_new this] show ?thesis .
qed

section \<open>Shifting characters\<close>

text \<open>
  C14. The loops of \<open>insert_blank\<close> and \<open>delete_chars\<close> shift the rest of the cursor's row by the count
  (at most to the right edge) and fill with the template's blank: the cells left of the cursor
  stay, inserting drops the cells pushed over the edge, deleting pulls the rest left. No other row
  changes and no literal tab survives in the row.
\<close>

theorem insert_delete_shift_row:
  fixes n :: nat
  assumes "core_ok t"
  defines "k \<equiv> min n (cols t - cursor_col t)" and "row \<equiv> no_tabs (grid t ! cursor_row t)"
  shows "insert_blank n t = Some (damage (t\<lparr>grid := (grid t)[cursor_row t :=
      take (cursor_col t) row @ replicate k (blank t) @
      take (cols t - cursor_col t - k) (drop (cursor_col t) row)]\<rparr>)) \<and>
    delete_chars n t = Some (damage (t\<lparr>grid := (grid t)[cursor_row t :=
      take (cursor_col t) row @ drop (cursor_col t + k) row @ replicate k (blank t)]\<rparr>))"
  using assms by (simp add: insert_blank_eq delete_chars_eq)

theorem insert_delete_shift_row_witness:
  "map (map cell_ch) (grid (the (delete_chars 2 (the (run_ops (handle (\<lambda>_. Some 1))
     [Input 65, Input 66, Input 67, Goto 0 0] (terminal_new 1 3 0)))))) = [[67, 32, 32]]"
proof -
  define t where "t = the (run_ops (handle (\<lambda>_. Some 1))
     [Input 65, Input 66, Input 67, Goto 0 0] (terminal_new 1 3 0))"
  have "run_ops (handle (\<lambda>_. Some 1)) [Input 65, Input 66, Input 67, Goto 0 0] (terminal_new 1 3 0)
      = Some t \<and> core_ok t \<and> cols t = 3 \<and> cursor_col t = 0 \<and> cursor_row t = 0 \<and>
      map (map cell_ch) (grid t) = [[65, 66, 67]] \<and> length (grid t) = 1 \<and> blank t = default_cell"
    unfolding t_def by code_simp
  then have t: "core_ok t" "cols t = 3" "cursor_col t = 0" "cursor_row t = 0"
    "map (map cell_ch) (grid t) = [[65, 66, 67]]" "blank t = default_cell" by auto
  from insert_delete_shift_row[OF t(1), of 2]
  have "delete_chars 2 t = Some (damage (t\<lparr>grid := (grid t)[0 :=
      drop 2 (no_tabs (grid t ! 0)) @ replicate 2 default_cell]\<rparr>))"
    using t by (simp add: numeral_2_eq_2)
  moreover obtain row where "grid t = [row]" "map cell_ch row = [65, 66, 67]"
    using t(5) by auto
  ultimately show ?thesis
    unfolding t_def[symmetric]
    by (simp add: no_tabs_def drop_map[symmetric] numeral_2_eq_2 o_def default_cell_def space_def)
qed

section \<open>Scrolling\<close>

text \<open>The last \<open>m\<close> elements of a list.\<close>

definition window :: "nat \<Rightarrow> 'a list \<Rightarrow> 'a list" where
  "window m xs = drop (length xs - m) xs"

lemma length_window [simp]: "length (window m xs) = min m (length xs)"
  by (simp add: window_def)

lemma window_id: "length xs \<le> m \<Longrightarrow> window m xs = xs"
  by (simp add: window_def)

lemma window_window: "window m (window m xs @ ys) = window m (xs @ ys)"
  by (cases "length xs \<le> m") (auto simp: window_def add.commute)

lemma drop_one_minus: "drop (Suc 0 - n) (v # vs) = drop (Suc 0 - n) [v] @ vs"
  by (cases n) auto

definition main_scroll :: "terminal \<Rightarrow> bool" where
  "main_scroll t \<longleftrightarrow> term_ok t \<and> scroll_top t = 0 \<and> scroll_bottom t = rows t \<and> \<not> alternate_screen t"

lemma scroll_up_once_window:
  assumes "main_scroll t"
  shows "\<exists>t'. scroll_up_once t = Some t' \<and> main_scroll t' \<and> rows t' = rows t \<and> cols t' = cols t \<and>
    template t' = template t \<and> history_limit t' = history_limit t \<and>
    history t' @ grid t' = window (history_limit t + rows t)
      ((history t @ grid t) @ [replicate (cols t) (blank t)]) \<and>
    history_wrapped t' @ grid_wrapped t' = window (history_limit t + rows t)
      ((history_wrapped t @ grid_wrapped t) @ [False])"
proof -
  have m: "term_ok t" "scroll_top t = 0" "scroll_bottom t = rows t" "\<not> alternate_screen t"
    using assms by (auto simp: main_scroll_def)
  from scroll_up_once_keeps[of t] m obtain t' where
    t': "scroll_up_once t = Some t'" "core_ok t'" "same_frame t t'"
    by (auto simp: term_ok_def)
  note d = core_okD[OF term_okD(1)[OF m(1)]]
  obtain g gs where g: "grid t = g # gs" using d(1,3) by (cases "grid t") auto
  obtain w ws where w: "grid_wrapped t = w # ws" using d(1,7) by (cases "grid_wrapped t") auto
  have h: "length (history t) = length (history_wrapped t)" "length (history t) \<le> history_limit t"
    using term_okD(1)[OF m(1)] by (auto simp: core_ok_def)
  have l: "length gs = rows t - 1" "length ws = rows t - 1" using d(3,7) g w by auto
  have "t' = (push_history g w (t\<lparr>grid := gs, grid_wrapped := ws\<rparr>))
      \<lparr>grid := gs @ [replicate (cols t) (blank t)], grid_wrapped := ws @ [False]\<rparr>"
    using t'(1) m(2,3,4) d(1) g w l
    by (simp add: scroll_up_once_def vec_remove_def vec_insert_def remove_at_def insert_at_def)
  then show ?thesis
    using t' m d(1,3,7) h l g w
    by (auto simp: main_scroll_def term_ok_def same_frame_def push_history_def Let_def window_def
        drop_one_minus[of _ _ "_ @ _"])
qed

lemma times_scroll_window:
  assumes "main_scroll t"
  shows "\<exists>t'. times n scroll_up_once t = Some t' \<and>
    history t' @ grid t' = window (history_limit t + rows t)
      (history t @ grid t @ replicate n (replicate (cols t) (blank t))) \<and>
    history_wrapped t' @ grid_wrapped t' = window (history_limit t + rows t)
      (history_wrapped t @ grid_wrapped t @ replicate n False)"
  using assms
proof (induction n arbitrary: t)
  case 0
  then have "term_ok t" by (simp add: main_scroll_def)
  then have "length (history t) \<le> history_limit t" "length (history_wrapped t) \<le> history_limit t"
    "length (grid t) = rows t" "length (grid_wrapped t) = rows t"
    by (simp_all add: term_ok_def core_ok_def grid_ok_def)
  then show ?case by (simp add: window_id)
next
  case (Suc n)
  from scroll_up_once_window[OF Suc.prems] obtain u where
    u: "scroll_up_once t = Some u" "main_scroll u" "rows u = rows t" "cols u = cols t"
      "template u = template t" "history_limit u = history_limit t"
    and h: "history u @ grid u = window (history_limit t + rows t)
      ((history t @ grid t) @ [replicate (cols t) (blank t)])"
    and w: "history_wrapped u @ grid_wrapped u = window (history_limit t + rows t)
      ((history_wrapped t @ grid_wrapped t) @ [False])" by blast
  have b: "blank u = blank t" using u by (simp add: blank_def)
  from Suc.IH[OF u(2)] obtain t' where t': "times n scroll_up_once u = Some t'"
    and h': "history t' @ grid t' = window (history_limit t + rows t)
      ((history u @ grid u) @ replicate n (replicate (cols t) (blank t)))"
    and w': "history_wrapped t' @ grid_wrapped t' = window (history_limit t + rows t)
      ((history_wrapped u @ grid_wrapped u) @ replicate n False)"
    unfolding u(3,4,6) b append_assoc by blast
  have "times (Suc n) scroll_up_once t = Some t'" using u(1) t' by simp
  then show ?case
    using h' w' unfolding h w window_window by (intro exI[of _ t']) simp
qed

text \<open>
  C15. On the main screen with full margins, scrolling up by any count slides one window over the
  history followed by the screen: blank lines come in below, and exactly the oldest lines beyond
  the history limit are lost. The soft-wrap flags move with their lines and the cursor stays.
\<close>

theorem scrolling_is_a_sliding_window:
  fixes n :: nat
  assumes "term_ok t" "scroll_top t = 0" "scroll_bottom t = rows t" "\<not> alternate_screen t"
  defines "fresh \<equiv> min n (rows t)" and "keep \<equiv> history_limit t + rows t"
  shows "\<exists>t'. scroll_region_up n t = Some t' \<and> cursor_row t' = cursor_row t \<and>
    history t' @ grid t' =
      window keep (history t @ grid t @ replicate fresh (replicate (cols t) (blank t))) \<and>
    history_wrapped t' @ grid_wrapped t' =
      window keep (history_wrapped t @ grid_wrapped t @ replicate fresh False)"
proof -
  have "main_scroll t" using assms by (simp add: main_scroll_def)
  from times_scroll_window[OF this, of fresh] scroll_region_up_keeps[OF term_okD(1)[OF assms(1)], of n]
  show ?thesis
    using assms(2,3) by (auto simp: scroll_region_up_def Let_def fresh_def keep_def)
qed


theorem scrolling_is_a_sliding_window_witness:
  "\<exists>t'. scroll_region_up 1 (terminal_new 2 1 0) = Some t' \<and>
    history t' @ grid t' = window 2 (replicate 3 [default_cell])"
proof -
  let ?t = "terminal_new 2 1 0"
  have t: "scroll_top ?t = 0" "scroll_bottom ?t = rows ?t" "\<not> alternate_screen ?t" "rows ?t = 2"
    "history_limit ?t = 0" "history ?t = []" "grid ?t = replicate 2 [default_cell]" "cols ?t = 1"
    "blank ?t = default_cell"
    by code_simp+
  from scrolling_is_a_sliding_window[OF term_ok_new t(1-3), of 1] show ?thesis
    unfolding t by (auto simp: numeral_3_eq_3 numeral_2_eq_2)
qed

section \<open>The alternate screen\<close>

text \<open>
  What a call leaves alone: the size, the screen behind the current one, and the marker events, which only
  the marker scanner produces.
\<close>

fun is_marker :: "terminal_event \<Rightarrow> bool" where
  "is_marker (VividMarker _ _ _) = True"
| "is_marker _ = False"

definition marks :: "terminal \<Rightarrow> terminal_event list" where
  "marks t = filter is_marker (events t)"

definition behind :: "terminal \<Rightarrow> terminal \<Rightarrow> bool" where
  "behind t t' \<longleftrightarrow> rows t' = rows t \<and> cols t' = cols t \<and> history_limit t' = history_limit t \<and>
     marks t' = marks t \<and> alternate_grid t' = alternate_grid t \<and>
     alternate_grid_wrapped t' = alternate_grid_wrapped t \<and> alternate_screen t' = alternate_screen t \<and>
     (alternate_screen t \<longrightarrow> history t' = history t \<and> history_wrapped t' = history_wrapped t)"

lemma behind_refl [simp]: "behind t t"
  by (simp add: behind_def)

lemma behind_trans: "behind t u \<Longrightarrow> behind u v \<Longrightarrow> behind t v"
  by (auto simp: behind_def)

lemma marks_push [simp]: "\<not> is_marker e \<Longrightarrow> marks (push_event e t) = marks t" "marks (damage t) = marks t"
  by (simp_all add: marks_def push_event_def damage_def)

lemma marks_update [simp]:
  "marks (grid_update f1 t) = marks t" "marks (grid_wrapped_update f2 t) = marks t"
  "marks (history_update f3 t) = marks t" "marks (history_wrapped_update f4 t) = marks t"
  "marks (cursor_row_update f5 t) = marks t" "marks (cursor_col_update f5 t) = marks t"
  "marks (scroll_top_update f5 t) = marks t" "marks (scroll_bottom_update f5 t) = marks t"
  "marks (template_update f6 t) = marks t" "marks (tab_stops_update f2 t) = marks t"
  "marks (tab_stops_customized_update f7 t) = marks t" "marks (title_update f8 t) = marks t"
  "marks (modes_update f9 t) = marks t" "marks (saved_cursor_update f10 t) = marks t"
  "marks (alternate_grid_update f1 t) = marks t" "marks (alternate_grid_wrapped_update f2 t) = marks t"
  "marks (alternate_screen_update f7 t) = marks t"
  by (simp_all add: marks_def)

lemma aside_push [simp]:
  "alternate_grid (push_event e t) = alternate_grid t" "alternate_grid (damage t) = alternate_grid t"
  "alternate_grid_wrapped (push_event e t) = alternate_grid_wrapped t"
  "alternate_grid_wrapped (damage t) = alternate_grid_wrapped t"
  by (simp_all add: push_event_def damage_def)

lemma behind_damage [simp]:
  "behind t (damage u) = behind t u" "\<not> is_marker e \<Longrightarrow> behind t (push_event e u) = behind t u"
  by (simp_all add: behind_def)

lemma behind_times:
  assumes "\<And>u v. f u = Some v \<Longrightarrow> behind u v"
  shows "times n f t = Some t' \<Longrightarrow> behind t t'"
proof (induction n arbitrary: t)
  case (Suc n)
  then show ?case by (auto split: option.splits intro: behind_trans assms)
qed simp

lemma scroll_behind:
  "scroll_up_once t = Some t' \<Longrightarrow> behind t t'" "scroll_down_once t = Some t' \<Longrightarrow> behind t t'"
  by (auto simp: scroll_up_once_def scroll_down_once_def behind_def bind_eq_Some_conv push_history_def
      Let_def split: if_splits)

lemma scroll_times_behind:
  "times n scroll_up_once t = Some t' \<Longrightarrow> behind t t'"
  "times n scroll_down_once t = Some t' \<Longrightarrow> behind t t'"
  by (rule behind_times, erule scroll_behind, assumption)+

lemma region_behind:
  "scroll_region_up n t = Some t' \<Longrightarrow> behind t t'" "scroll_region_down n t = Some t' \<Longrightarrow> behind t t'"
  by (auto simp: scroll_region_up_def scroll_region_down_def bind_eq_Some_conv Let_def
      dest!: scroll_times_behind)

lemma line_feed_behind: "line_feed t = Some t' \<Longrightarrow> behind t t'"
  by (auto simp: line_feed_def behind_def split: if_splits dest!: region_behind)

lemma wrap_line_behind: "wrap_line t = Some t' \<Longrightarrow> behind t t'"
  by (auto simp: wrap_line_def bind_eq_Some_conv behind_def dest!: line_feed_behind)

lemma invalidate_behind: "invalidate_tab_at r c t = Some t' \<Longrightarrow> behind t t'"
  by (auto simp: invalidate_tab_at_def bind_eq_Some_conv behind_def)

lemma wrap_wide_behind: "wrap_wide t = Some t' \<Longrightarrow> behind t t'"
  by (auto simp: wrap_wide_def bind_eq_Some_conv behind_def dest!: wrap_line_behind invalidate_behind)

lemma put_cell_behind: "put_cell v t = Some t' \<Longrightarrow> behind t t'"
  by (auto simp: put_cell_def bind_eq_Some_conv behind_def)

lemma behind_bind:
  "Option.bind r f = Some v \<Longrightarrow> (\<And>u. r = Some u \<Longrightarrow> behind t u) \<Longrightarrow> (\<And>u. f u = Some v \<Longrightarrow> behind u v) \<Longrightarrow>
     behind t v"
  by (auto simp: bind_eq_Some_conv intro: behind_trans)

lemma input_combining_behind: "input_combining c t = Some t' \<Longrightarrow> behind t t'"
  by (auto simp: input_combining_def Let_def bind_eq_Some_conv) (simp add: behind_def)

lemma put_char_behind: "put_char cw c t = Some t' \<Longrightarrow> behind t t'"
  unfolding put_char_def Let_def
  by (split if_split_asm, erule input_combining_behind)
     (erule behind_bind; (auto split: if_splits
        dest: wrap_line_behind wrap_wide_behind invalidate_behind put_cell_behind; fail)?)+

lemma row_behind: "clear_row_range r a b t = Some t' \<Longrightarrow> behind t t'"
  by (auto simp: clear_row_range_def Let_def bind_eq_Some_conv) (simp add: behind_def)

lemma rows_behind: "clear_rows rs t = Some t' \<Longrightarrow> behind t t'"
  by (induction rs arbitrary: t) (auto simp: bind_eq_Some_conv intro: behind_trans row_behind)

lemma put_tab_behind: "put_tab n t = Some t' \<Longrightarrow> behind t t'"
  unfolding put_tab_def
  by (rule behind_times[of put_tab_once])
     (auto simp: put_tab_once_def Let_def bind_eq_Some_conv behind_def split: if_splits)

lemma chars_behind:
  "insert_blank n t = Some t' \<Longrightarrow> behind t t'" "delete_chars n t = Some t' \<Longrightarrow> behind t t'"
  by (auto simp: insert_blank_def delete_chars_def Let_def bind_eq_Some_conv) (auto simp: behind_def)

lemma lines_behind:
  "insert_blank_lines n t = Some t' \<Longrightarrow> behind t t'" "delete_lines n t = Some t' \<Longrightarrow> behind t t'"
  by (auto simp: insert_blank_lines_def delete_lines_def bind_eq_Some_conv behind_def dest!: region_behind)

lemma screen_behind: "m \<noteq> ScreenSaved \<Longrightarrow> clear_screen m t = Some t' \<Longrightarrow> behind t t'"
  by (cases m) (auto simp: clear_screen_def bind_eq_Some_conv intro: behind_trans row_behind rows_behind,
    auto simp: behind_def)

lemma region_set_behind: "set_scrolling_region a b t = Some t' \<Longrightarrow> behind t t'"
  by (auto simp: set_scrolling_region_def Let_def bind_eq_Some_conv goto_def behind_def)


text \<open>The calls of a full-screen program that stays in the alternate screen.\<close>

fun full_screen_call :: "handler_call \<Rightarrow> bool" where
  "full_screen_call (UnsetPrivateMode m) = (m \<noteq> 1049)"
| "full_screen_call (ClearScreen m) = (m \<noteq> ScreenSaved)"
| "full_screen_call ResetState = False"
| "full_screen_call _ = True"

lemma mode_behind:
  "alternate_screen t \<Longrightarrow> m \<noteq> 1049 \<or> e \<Longrightarrow> behind t (update_private_mode m e t)"
  unfolding update_private_mode_def Let_def behind_damage by (auto simp: behind_def)

lemma simple_behind:
  "behind t (goto l c t)" "behind t (move_up n t)" "behind t (move_down n t)"
  "behind t (move_forward n t)" "behind t (move_backward n t)" "behind t (set_stop b t)"
  "behind t (clear_tabs m t)" "behind t (set_tabs n t)" "behind t (save_cursor_position t)"
  "behind t (restore_cursor_position t)" "behind t (terminal_attribute a t)" "behind t (set_title v t)"
  "behind t (set_hyperlink l' t)" "behind t (set_keypad b t)" "behind t (device_status n t)"
  "behind t ((move_down n t)\<lparr>cursor_col := 0\<rparr>)" "behind t ((move_up n t)\<lparr>cursor_col := 0\<rparr>)"
  "behind t (t\<lparr>cursor_col := x\<rparr>)"
  by (auto simp: behind_def goto_def move_up_def move_down_def move_forward_def move_backward_def
      set_stop_def clear_tabs_def set_tabs_def save_cursor_position_def restore_cursor_position_def
      terminal_attribute_def set_title_def set_hyperlink_def set_keypad_def device_status_def
      Let_def split: tabulation_clear_mode.splits)

lemma newline_behind: "line_feed t = Some t' \<Longrightarrow> behind t (t'\<lparr>cursor_col := 0\<rparr>)"
  by (auto simp: behind_def dest!: line_feed_behind)

lemma reverse_index_behind: "reverse_index t = Some t' \<Longrightarrow> behind t t'"
  by (auto simp: reverse_index_def behind_def split: if_splits dest!: region_behind)

lemma line_behind: "clear_line m t = Some t' \<Longrightarrow> behind t t'" "erase_chars n t = Some t' \<Longrightarrow> behind t t'"
  by (auto simp: clear_line_def erase_chars_def split: line_clear_mode.splits intro: row_behind)

lemmas call_behind = put_char_behind line_feed_behind newline_behind put_tab_behind chars_behind
  line_behind screen_behind region_behind lines_behind region_set_behind reverse_index_behind

lemma handle_behind:
  "alternate_screen t \<Longrightarrow> full_screen_call c \<Longrightarrow> handle cw c t = Some t' \<Longrightarrow> behind t t'"
  by (cases c) (auto simp: simple_behind mode_behind dest: call_behind)


lemma run_behind:
  assumes "alternate_screen t" and "list_all full_screen_call cs"
  shows "run_ops (handle cw) cs t = Some t' \<Longrightarrow> behind t t'"
  using assms
proof (induction cs arbitrary: t)
  case (Cons c cs)
  from Cons.prems obtain u where u: "handle cw c t = Some u" "run_ops (handle cw) cs u = Some t'"
    by (auto split: option.splits)
  have b: "behind t u" using handle_behind[OF _ _ u(1)] Cons.prems by simp
  then have "alternate_screen u" using Cons.prems by (simp add: behind_def)
  with Cons.IH[OF u(2)] Cons.prems b show ?case by (auto intro: behind_trans)
qed simp

lemma run_handle_ok: "term_ok t \<Longrightarrow> \<exists>t'. run_ops (handle cw) cs t = Some t' \<and> term_ok t'"
proof (induction cs arbitrary: t)
  case (Cons c cs)
  with handle_ok[of t cw c] show ?case by fastforce
qed simp

text \<open>
  C16. Entering the alternate screen, running any calls that neither leave it, reset the terminal nor
  erase the saved lines, and leaving it again gives back the main screen, its soft-wrap flags and
  its history unchanged. The cursor does not come back: it is at the origin.
\<close>

theorem alternate_screen_is_isolated:
  assumes t: "term_ok t" and m: "\<not> alternate_screen t" and cs: "list_all full_screen_call cs"
  shows "\<exists>t'. run_ops (handle cw) (SetPrivateMode 1049 # cs @ [UnsetPrivateMode 1049]) t = Some t' \<and>
    grid t' = grid t \<and> grid_wrapped t' = grid_wrapped t \<and> history t' = history t \<and>
    history_wrapped t' = history_wrapped t \<and> \<not> alternate_screen t' \<and>
    cursor_row t' = 0 \<and> cursor_col t' = 0"
proof -
  define u where "u = update_private_mode 1049 True t"
  have u1: "term_ok u" unfolding u_def by (rule update_private_mode_ok[OF t])
  have u: "alternate_screen u" "alternate_grid u = grid t"
    "alternate_grid_wrapped u = grid_wrapped t" "history u = history t"
    "history_wrapped u = history_wrapped t"
    using m
    by (auto simp: u_def update_private_mode_def swap_screens_def damage_def push_event_def Let_def)
  from run_handle_ok[OF u1] obtain v where v: "run_ops (handle cw) cs u = Some v" "term_ok v"
    by blast
  have "behind u v" by (rule run_behind[OF u(1) cs v(1)])
  with u have "alternate_screen v" "alternate_grid v = grid t" "history v = history t"
    "alternate_grid_wrapped v = grid_wrapped t" "history_wrapped v = history_wrapped t"
    by (auto simp: behind_def)
  then show ?thesis
    using v(1) by (simp add: run_ops_append u_def[symmetric])
      (simp add: update_private_mode_def swap_screens_def damage_def push_event_def Let_def)
qed

theorem alternate_screen_is_isolated_witness:
  "\<exists>t'. run_ops (handle (\<lambda>_. Some 1)) (SetPrivateMode 1049 # [Input 65, Linefeed] @ [UnsetPrivateMode 1049])
      (terminal_new 2 3 5) = Some t' \<and> grid t' = blank_grid 2 3"
proof -
  have "term_ok (terminal_new 2 3 5)" by (rule term_ok_new)
  moreover have "\<not> alternate_screen (terminal_new 2 3 5)" by (simp add: terminal_new_def Let_def)
  moreover have "list_all full_screen_call [Input 65, Linefeed]" by simp
  moreover have "grid (terminal_new 2 3 5) = blank_grid 2 3"
    by code_simp
  ultimately show ?thesis using alternate_screen_is_isolated by metis
qed

text \<open>No call makes or loses a marker event or changes the size.\<close>

lemma handle_marks: "handle cw c t = Some t' \<Longrightarrow> marks t' = marks t \<and> rows t' = rows t \<and> cols t' = cols t"
proof (cases "full_screen_call c \<and> (\<forall>m. c \<noteq> SetPrivateMode m) \<and> (\<forall>m. c \<noteq> UnsetPrivateMode m)")
  case True
  then show "handle cw c t = Some t' \<Longrightarrow> marks t' = marks t \<and> rows t' = rows t \<and> cols t' = cols t"
    by (cases c) (auto dest!: call_behind simp: simple_behind[unfolded behind_def] behind_def)
next
  case False
  then show "handle cw c t = Some t' \<Longrightarrow> marks t' = marks t \<and> rows t' = rows t \<and> cols t' = cols t"
    by (cases c)
      (auto simp: reset_state_def update_private_mode_def swap_screens_def Let_def clear_screen_def
        split: if_splits)
qed

lemma run_marks:
  "run_ops (handle cw) cs t = Some t' \<Longrightarrow> marks t' = marks t \<and> rows t' = rows t \<and> cols t' = cols t"
proof (induction cs arbitrary: t)
  case (Cons c cs)
  then show ?case by (auto split: option.splits dest!: handle_marks)
qed simp

end
