(* ===== verification/Marker_Scanner.thy ===== *)
theory Marker_Scanner
  imports Terminal_Correct "HOL-Library.Sublist"
begin

text \<open>
  The scanner that takes Vivid markers out of a pane's output (\<open>src/vvmux-terminal/src/lib.rs\<close>,
  lines 178 to 220 and 899 to 1058) and the feeding of the rest to the terminal. The scanning loop
  keeps a cursor into its buffer; here it is a recursion on the rest of the buffer. A marker is
  accepted only when all its bytes are ASCII, so the UTF-8 check of the code never decides.
\<close>

section \<open>Envelopes and searching\<close>

text \<open>The target the code is compiled for decides which envelopes exist.\<close>

datatype platform = Unix | Windows

record marker_envelope =
  env_prefix :: bytes
  env_terminator :: bytes
  env_skip :: nat

definition max_marker_bytes :: nat where "max_marker_bytes = 128"

definition apc_envelope :: marker_envelope where
  "apc_envelope = \<lparr>env_prefix = esc # ascii ''_VIVID;2;A;'', env_terminator = [esc, 92], env_skip = 2\<rparr>"

definition conpty_envelope :: marker_envelope where
  "conpty_envelope =
     \<lparr>env_prefix = ascii ''VIVID;2;A;'', env_terminator = ascii '';VIVID-END'', env_skip = 0\<rparr>"

definition marker_envelopes :: "platform \<Rightarrow> marker_envelope list" where
  "marker_envelopes p =
     (case p of Unix \<Rightarrow> [apc_envelope] | Windows \<Rightarrow> [conpty_envelope, apc_envelope])"

text \<open>\<open>windows(n).position(..)\<close> with a needle that is not empty.\<close>

fun find_bytes :: "bytes \<Rightarrow> bytes \<Rightarrow> nat option" where
  "find_bytes [] needle = None"
| "find_bytes (b # bs) needle =
     (if prefix needle (b # bs) then Some 0 else map_option Suc (find_bytes bs needle))"

definition partial_prefix_len :: "bytes \<Rightarrow> bytes \<Rightarrow> nat" where
  "partial_prefix_len haystack pre =
     (case List.find (\<lambda>len. suffix (take len pre) haystack)
        (rev [1..<Suc (min (length haystack) (length pre - 1))]) of
        None \<Rightarrow> 0 | Some len \<Rightarrow> len)"

text \<open>\<open>min_by_key\<close> keeps the first of several least elements.\<close>

fun min_by_first :: "(nat \<times> 'a) list \<Rightarrow> (nat \<times> 'a) option" where
  "min_by_first [] = None"
| "min_by_first (v # vs) = Some (fold (\<lambda>w m. if fst w < fst m then w else m) vs v)"

definition find_envelope :: "platform \<Rightarrow> bytes \<Rightarrow> (nat \<times> marker_envelope) option" where
  "find_envelope p haystack =
     min_by_first (List.map_filter (\<lambda>e. map_option (\<lambda>pos. (pos, e)) (find_bytes haystack (env_prefix e)))
       (marker_envelopes p))"

definition held_back :: "platform \<Rightarrow> bytes \<Rightarrow> nat" where
  "held_back p haystack =
     fold max (map (\<lambda>e. partial_prefix_len haystack (env_prefix e)) (marker_envelopes p)) 0"

section \<open>The shape of a marker\<close>

definition is_digit :: "byte \<Rightarrow> bool" where "is_digit b \<longleftrightarrow> 48 \<le> b \<and> b \<le> 57"

definition is_alpha :: "byte \<Rightarrow> bool" where
  "is_alpha b \<longleftrightarrow> 65 \<le> b \<and> b \<le> 90 \<or> 97 \<le> b \<and> b \<le> 122"

definition is_hexdigit :: "byte \<Rightarrow> bool" where
  "is_hexdigit b \<longleftrightarrow> is_digit b \<or> 65 \<le> b \<and> b \<le> 70 \<or> 97 \<le> b \<and> b \<le> 102"

definition is_base64url :: "byte \<Rightarrow> bool" where
  "is_base64url b \<longleftrightarrow> is_alpha b \<or> is_digit b \<or> b = 45 \<or> b = 95"

definition valid_marker_shape :: "bytes \<Rightarrow> bool" where
  "valid_marker_shape marker \<longleftrightarrow>
     length marker \<le> 124 \<and> list_all (\<lambda>b. b < 128) marker \<and>
     (case split_on 59 marker of
        [f1, f2, f3, tag, ident, auth] \<Rightarrow>
          f1 = ascii ''VIVID'' \<and> f2 = ascii ''2'' \<and> f3 = ascii ''A'' \<and>
          (length tag = 22 \<and> list_all is_base64url tag) \<and>
          (length ident = 16 \<and> list_all is_hexdigit ident \<and> list_ex (\<lambda>b. b \<noteq> 48) ident) \<and>
          (length auth = 22 \<and> list_all is_base64url auth)
      | _ \<Rightarrow> False)"

section \<open>Scanning\<close>

datatype vivid_chunk = Bytes bytes | Marker bytes

definition push_bytes :: "vivid_chunk list \<Rightarrow> bytes \<Rightarrow> vivid_chunk list" where
  "push_bytes chunks bs =
     (if bs = [] then chunks
      else case rev chunks of
        Bytes previous # before \<Rightarrow> rev before @ [Bytes (previous @ bs)]
      | _ \<Rightarrow> chunks @ [Bytes bs])"

lemma find_envelope_in:
  "find_envelope p rest = Some (start, e) \<Longrightarrow>
     e \<in> set (marker_envelopes p) \<and> find_bytes rest (env_prefix e) = Some start"
  by (cases p)
    (auto simp: find_envelope_def marker_envelopes_def map_filter_simps split: option.splits if_splits)

lemma env_prefix_pos: "e \<in> set (marker_envelopes p) \<Longrightarrow> 0 < length (env_prefix e)"
  by (cases p) (auto simp: marker_envelopes_def apc_envelope_def conpty_envelope_def ascii_def)

lemma find_bytes_bound: "find_bytes hay needle = Some n \<Longrightarrow> n + length needle \<le> length hay"
proof (induction hay arbitrary: n)
  case (Cons b bs)
  show ?case
  proof (cases "prefix needle (b # bs)")
    case True
    with Cons.prems show ?thesis using prefix_length_le[OF True] by simp
  next
    case False
    with Cons show ?thesis by auto
  qed
qed simp

lemma scan_shrinks:
  assumes "find_envelope p rest = Some (start, e)"
  shows "0 < length (env_prefix e) \<and> start + length (env_prefix e) \<le> length rest"
  using find_envelope_in[OF assms] env_prefix_pos find_bytes_bound by fastforce

lemma scan_decreases:
  assumes "find_envelope p rest = Some (start, e)"
  shows "length rest - (length (env_prefix e) + start) < length rest"
    and "length rest - (length (env_prefix e) + i + j + start) < length rest"
  using scan_shrinks[OF assms] by linarith+

function scan :: "platform \<Rightarrow> bytes \<Rightarrow> vivid_chunk list \<Rightarrow> vivid_chunk list \<times> bytes" where
  "scan p rest chunks =
     (case find_envelope p rest of
        None \<Rightarrow>
          (let end' = length rest - held_back p rest
           in (push_bytes chunks (take end' rest), drop end' rest))
      | Some (start, e) \<Rightarrow>
          (let chunks1 = push_bytes chunks (take start rest);
               raw = drop start rest;
               n = length (env_prefix e);
               body = drop n raw
           in case find_bytes body (env_terminator e) of
                None \<Rightarrow>
                  if max_marker_bytes < length raw then scan p body (push_bytes chunks1 (take n raw))
                  else (chunks1, raw)
              | Some relative \<Rightarrow>
                  (let end' = n + relative + length (env_terminator e)
                   in if max_marker_bytes < end' then scan p body (push_bytes chunks1 (take n raw))
                      else let payload = drop (env_skip e) (take (n + relative) raw)
                           in scan p (drop end' raw)
                                (if valid_marker_shape payload then chunks1 @ [Marker payload]
                                 else push_bytes chunks1 (take end' raw)))))"
  by pat_completeness auto
termination
  by (relation "measure (\<lambda>(p, rest, chunks). length rest)") (auto simp: scan_decreases)

declare scan.simps [simp del]

definition scan_push :: "platform \<Rightarrow> bytes \<Rightarrow> bytes \<Rightarrow> vivid_chunk list \<times> bytes" where
  "scan_push p pending bs = scan p (pending @ bs) []"

definition scan_finish :: "bytes \<Rightarrow> vivid_chunk list" where
  "scan_finish pending = (if pending = [] then [] else [Bytes pending])"

section \<open>Reading a chunk list as a stream\<close>

datatype stream_atom = Byte byte | Mark bytes

primrec chunk_atoms :: "vivid_chunk \<Rightarrow> stream_atom list" where
  "chunk_atoms (Bytes bs) = map Byte bs"
| "chunk_atoms (Marker m) = [Mark m]"

definition stream :: "vivid_chunk list \<Rightarrow> stream_atom list" where
  "stream chunks = concat (map chunk_atoms chunks)"

lemma stream_simps [simp]:
  "stream [] = []" "stream (c # cs) = chunk_atoms c @ stream cs"
  "stream (cs @ ds) = stream cs @ stream ds"
  by (simp_all add: stream_def)

lemma push_bytes_cases:
  "push_bytes chunks bs = chunks @ [Bytes bs] \<or> push_bytes chunks bs = chunks \<and> bs = [] \<or>
     (\<exists>before previous. chunks = before @ [Bytes previous] \<and>
        push_bytes chunks bs = before @ [Bytes (previous @ bs)])"
  by (cases chunks rule: rev_cases) (auto simp: push_bytes_def split: vivid_chunk.splits)

lemma push_bytes_stream [simp]: "stream (push_bytes chunks bs) = stream chunks @ map Byte bs"
  using push_bytes_cases[of chunks bs] by auto

text \<open>One turn of the loop: what it emits, and where it stops or goes on.\<close>

definition scan_turn :: "platform \<Rightarrow> bytes \<Rightarrow> (bytes \<times> bytes) + (vivid_chunk list \<times> bytes)" where
  "scan_turn p rest =
     (case find_envelope p rest of
        None \<Rightarrow> Inl (take (length rest - held_back p rest) rest, drop (length rest - held_back p rest) rest)
      | Some (start, e) \<Rightarrow>
          (let raw = drop start rest;
               n = length (env_prefix e);
               body = drop n raw;
               skipped = Inr ([Bytes (take start rest), Bytes (take n raw)], body)
           in case find_bytes body (env_terminator e) of
                None \<Rightarrow> if max_marker_bytes < length raw then skipped else Inl (take start rest, raw)
              | Some relative \<Rightarrow>
                  (let end' = n + relative + length (env_terminator e);
                       payload = drop (env_skip e) (take (n + relative) raw)
                   in if max_marker_bytes < end' then skipped
                      else Inr ([Bytes (take start rest),
                                 if valid_marker_shape payload then Marker payload
                                 else Bytes (take end' raw)], drop end' raw))))"

primrec add_chunk :: "vivid_chunk \<Rightarrow> vivid_chunk list \<Rightarrow> vivid_chunk list" where
  "add_chunk (Bytes bs) chunks = push_bytes chunks bs"
| "add_chunk (Marker m) chunks = chunks @ [Marker m]"

lemma scan_unfold:
  "scan p rest chunks =
     (case scan_turn p rest of
        Inl (bs, held) \<Rightarrow> (push_bytes chunks bs, held)
      | Inr (items, rest') \<Rightarrow> scan p rest' (fold add_chunk items chunks))"
  by (subst scan.simps) (simp add: scan_turn_def Let_def split: option.split)

lemma scan_turn_shrinks: "scan_turn p rest = Inr (items, rest') \<Longrightarrow> length rest' < length rest"
  by (auto simp: scan_turn_def Let_def scan_decreases split: option.splits if_splits prod.splits)

text \<open>The scan without the accumulated chunks.\<close>

definition scanned :: "platform \<Rightarrow> bytes \<Rightarrow> stream_atom list \<times> bytes" where
  "scanned p rest = (stream (fst (scan p rest [])), snd (scan p rest []))"

lemma add_chunks_stream: "stream (fold add_chunk items chunks) = stream chunks @ stream items"
proof (induction items arbitrary: chunks)
  case (Cons c cs)
  then show ?case by (cases c) auto
qed simp

lemma scan_stream:
  "stream (fst (scan p rest chunks)) = stream chunks @ fst (scanned p rest) \<and>
   snd (scan p rest chunks) = snd (scanned p rest)"
proof (induction "length rest" arbitrary: rest chunks rule: less_induct)
  case less
  show ?case
  proof (cases "scan_turn p rest")
    case (Inl bh)
    then show ?thesis by (cases bh) (simp add: scanned_def scan_unfold[of p rest])
  next
    case (Inr ir)
    obtain items rest' where ir: "ir = (items, rest')" by (cases ir)
    with Inr have "length rest' < length rest" using scan_turn_shrinks by blast
    note IH = less[OF this]
    from Inr ir IH[of "fold add_chunk items chunks"] IH[of "fold add_chunk items []"] show ?thesis
      by (simp add: scanned_def[of p rest] scan_unfold[of p rest] add_chunks_stream)
  qed
qed

lemma scanned_turn:
  "scanned p rest =
     (case scan_turn p rest of
        Inl (bs, held) \<Rightarrow> (map Byte bs, held)
      | Inr (items, rest') \<Rightarrow> (stream items @ fst (scanned p rest'), snd (scanned p rest')))"
  unfolding scanned_def[of p rest]
  by (subst (1 2) scan_unfold) (simp add: scan_stream add_chunks_stream split: sum.split)

section \<open>Searching in a longer text\<close>

lemma find_bytes_Some_iff:
  "needle \<noteq> [] \<Longrightarrow> find_bytes hay needle = Some i \<longleftrightarrow>
     prefix needle (drop i hay) \<and> (\<forall>j<i. \<not> prefix needle (drop j hay))"
proof (induction hay arbitrary: i)
  case (Cons b bs)
  then show ?case by (cases i) (auto simp: less_Suc_eq_0_disj)
qed auto

lemma find_bytes_None_iff:
  "needle \<noteq> [] \<Longrightarrow> find_bytes hay needle = None \<longleftrightarrow> (\<forall>j. \<not> prefix needle (drop j hay))"
proof (induction hay)
  case (Cons b bs)
  have "(\<forall>j. \<not> prefix needle (drop j (b # bs))) \<longleftrightarrow>
      \<not> prefix needle (b # bs) \<and> (\<forall>j. \<not> prefix needle (drop j bs))"
    by (metis drop0 drop_Suc_Cons not0_implies_Suc)
  with Cons show ?case by auto
qed auto

lemma prefix_drop_append:
  assumes "prefix needle (drop j (hay @ ext))" and "j + length needle \<le> length hay"
  shows "prefix needle (drop j hay)"
proof -
  have "drop j (hay @ ext) = drop j hay @ ext" "length needle \<le> length (drop j hay)"
    using assms(2) by auto
  with assms(1) show ?thesis by (metis prefix_append prefix_length_prefix prefix_order.refl)
qed

lemma prefix_drop_more: "prefix needle (drop j hay) \<Longrightarrow> needle \<noteq> [] \<Longrightarrow> prefix needle (drop j (hay @ ext))"
  by (cases "j \<le> length hay") (auto intro: prefix_prefix)

lemma prefix_drop_length: "prefix needle (drop j hay) \<Longrightarrow> needle \<noteq> [] \<Longrightarrow> j + length needle \<le> length hay"
  by (cases "j \<le> length hay") (use prefix_length_le[of needle "drop j hay"] in auto)

text \<open>An envelope's prefix begins at position \<open>i\<close>.\<close>

definition occurs :: "platform \<Rightarrow> bytes \<Rightarrow> nat \<Rightarrow> marker_envelope \<Rightarrow> bool" where
  "occurs p hay i e \<longleftrightarrow> e \<in> set (marker_envelopes p) \<and> prefix (env_prefix e) (drop i hay)"

lemma env_nonempty [simp]: "env_prefix apc_envelope \<noteq> []" "env_prefix conpty_envelope \<noteq> []"
  "env_terminator apc_envelope \<noteq> []" "env_terminator conpty_envelope \<noteq> []"
  by (simp_all add: apc_envelope_def conpty_envelope_def ascii_def)

lemma env_nonempty_in: "e \<in> set (marker_envelopes p) \<Longrightarrow> env_prefix e \<noteq> [] \<and> env_terminator e \<noteq> []"
  by (cases p) (auto simp: marker_envelopes_def)

lemma occurs_one: "occurs p hay i e \<Longrightarrow> occurs p hay i e' \<Longrightarrow> e = e'"
proof -
  have "\<not> (prefix (env_prefix apc_envelope) xs \<and> prefix (env_prefix conpty_envelope) xs)" for xs
    by (cases xs) (auto simp: apc_envelope_def conpty_envelope_def ascii_def esc_def)
  then show "occurs p hay i e \<Longrightarrow> occurs p hay i e' \<Longrightarrow> e = e'"
    by (cases p) (auto simp: occurs_def marker_envelopes_def)
qed

lemma find_envelope_None_iff: "find_envelope p hay = None \<longleftrightarrow> (\<forall>i e. \<not> occurs p hay i e)"
proof -
  have "find_envelope p hay = None \<longleftrightarrow> (\<forall>e\<in>set (marker_envelopes p). find_bytes hay (env_prefix e) = None)"
    by (cases p) (auto simp: find_envelope_def marker_envelopes_def map_filter_simps split: option.splits)
  moreover have "find_bytes hay (env_prefix e) = None \<longleftrightarrow> (\<forall>j. \<not> prefix (env_prefix e) (drop j hay))"
    if "e \<in> set (marker_envelopes p)" for e
    using find_bytes_None_iff env_nonempty_in[OF that] by blast
  ultimately show ?thesis unfolding occurs_def by blast
qed

lemma find_envelope_Some:
  assumes "find_envelope p hay = Some (i, e)"
  shows "occurs p hay i e" and "j < i \<Longrightarrow> \<not> occurs p hay j e'"
  using assms
  by (cases p; auto simp: find_envelope_def marker_envelopes_def map_filter_simps occurs_def
      find_bytes_None_iff find_bytes_Some_iff split: option.splits if_splits)+

lemma find_envelope_SomeI:
  assumes "occurs p hay i e" and "\<And>j e'. j < i \<Longrightarrow> \<not> occurs p hay j e'"
  shows "find_envelope p hay = Some (i, e)"
proof -
  from assms(1) have "find_envelope p hay \<noteq> None" by (auto simp: find_envelope_None_iff)
  then obtain i' e' where f: "find_envelope p hay = Some (i', e')" by auto
  from find_envelope_Some[OF f] assms have "i' = i"
    by (metis linorder_neqE_nat)
  with f find_envelope_Some(1)[OF f] occurs_one[OF assms(1)] show ?thesis by auto
qed

lemma occurs_length: "occurs p hay j e \<Longrightarrow> j + length (env_prefix e) \<le> length hay"
  unfolding occurs_def using prefix_drop_length env_nonempty_in by blast

lemma occurs_more: "occurs p hay j e \<Longrightarrow> occurs p (hay @ ext) j e"
  unfolding occurs_def using prefix_drop_more env_nonempty_in by blast

lemma occurs_less: "occurs p (hay @ ext) j e \<Longrightarrow> j + length (env_prefix e) \<le> length hay \<Longrightarrow> occurs p hay j e"
  unfolding occurs_def using prefix_drop_append by blast

text \<open>No envelope's prefix contains another strictly inside, away from both ends.\<close>

lemma occurs_nested:
  assumes "occurs p hay i e" and "occurs p hay j e'" and "j < i"
  shows "j + length (env_prefix e') \<le> i + length (env_prefix e)"
proof (rule ccontr)
  assume far: "\<not> ?thesis"
  have l: "length (env_prefix apc_envelope) = 12" "length (env_prefix conpty_envelope) = 10"
    by (simp_all add: apc_envelope_def conpty_envelope_def ascii_def)
  from far assms l have e: "e = conpty_envelope" "e' = apc_envelope" "i = Suc j"
    by (cases p; auto simp: occurs_def marker_envelopes_def)+
  from assms(2) e obtain c where "drop j hay = (esc # 95 # c)"
    by (auto simp: occurs_def apc_envelope_def ascii_def prefix_def)
  then have "drop i hay = 95 # c" using e(3) by (metis drop_Suc_Cons drop0 drop_drop plus_1_eq_Suc)
  with assms(1) e show False
    by (auto simp: occurs_def conpty_envelope_def ascii_def)
qed

lemma find_envelope_more:
  assumes "find_envelope p hay = Some (i, e)"
  shows "find_envelope p (hay @ ext) = Some (i, e)"
proof (rule find_envelope_SomeI)
  note f = find_envelope_Some[OF assms]
  show o: "occurs p (hay @ ext) i e" by (rule occurs_more[OF f(1)])
  fix j e' assume j: "j < i"
  show "\<not> occurs p (hay @ ext) j e'"
  proof
    assume o': "occurs p (hay @ ext) j e'"
    have "j + length (env_prefix e') \<le> length hay"
      using occurs_nested[OF o o' j] occurs_length[OF f(1)] by simp
    then show False using occurs_less[OF o'] f(2)[OF j] by blast
  qed
qed

lemma find_bytes_more:
  assumes "needle \<noteq> []" and "find_bytes hay needle = Some i"
  shows "find_bytes (hay @ ext) needle = Some i"
proof -
  from assms have f: "prefix needle (drop i hay)" "\<forall>j<i. \<not> prefix needle (drop j hay)"
    by (auto simp: find_bytes_Some_iff)
  have "\<not> prefix needle (drop j (hay @ ext))" if "j < i" for j
    using prefix_drop_append[of needle j hay ext] prefix_drop_length[OF f(1) assms(1)] f(2) that by auto
  with f(1) assms(1) show ?thesis by (simp add: find_bytes_Some_iff prefix_drop_more)
qed

lemma find_bytes_late:
  assumes "needle \<noteq> []" and "find_bytes hay needle = None" and "find_bytes (hay @ ext) needle = Some i"
  shows "length hay < i + length needle"
  using assms prefix_drop_append[of needle i hay ext]
  by (auto simp: find_bytes_Some_iff find_bytes_None_iff not_le[symmetric])

section \<open>Text held back\<close>

lemma rev_upt_antimono: "i \<le> k \<Longrightarrow> k < length (rev [1..<Suc n]) \<Longrightarrow> rev [1..<Suc n] ! k \<le> rev [1..<Suc n] ! i"
  by (simp add: rev_nth nth_upt del: upt_Suc)

lemma partial_prefix_spec:
  fixes hay pre :: bytes
  defines "n \<equiv> partial_prefix_len hay pre"
  shows "n \<le> length hay" and "n \<le> length pre - 1" and "suffix (take n pre) hay"
    and "\<lbrakk>suffix (take m pre) hay; m \<le> length hay; m \<le> length pre - 1\<rbrakk> \<Longrightarrow> m \<le> n"
proof -
  let ?P = "\<lambda>len. suffix (take len pre) hay"
  let ?xs = "[1..<Suc (min (length hay) (length pre - 1))]"
  have n: "n = (case List.find ?P (rev ?xs) of None \<Rightarrow> 0 | Some len \<Rightarrow> len)"
    by (simp add: n_def partial_prefix_len_def)
  have best: "m \<le> n" if "?P m" "m \<in> set ?xs" for m
  proof (cases "List.find ?P (rev ?xs)")
    case None
    then have "\<forall>m\<in>set (rev ?xs). \<not> ?P m" by (simp only: find_None_iff) blast
    with that show ?thesis by (simp only: set_rev)
  next
    case (Some len)
    then obtain i where i: "i < length (rev ?xs)" "len = rev ?xs ! i" "\<forall>j<i. \<not> ?P (rev ?xs ! j)"
      by (auto simp: find_Some_iff)
    from that(2) obtain k where k: "k < length (rev ?xs)" "m = rev ?xs ! k"
      by (metis in_set_conv_nth set_rev)
    with i that(1) have "i \<le> k" by (metis not_le)
    then have "m \<le> len" unfolding i(2) k(2) using k(1) by (rule rev_upt_antimono)
    then show ?thesis using n Some by simp
  qed
  have "n = 0 \<or> n \<in> set ?xs \<and> ?P n"
    using n by (auto split: option.splits dest!: find_Some_in)
  then show "n \<le> length hay" "n \<le> length pre - 1" "?P n" by auto
  show "\<lbrakk>?P m; m \<le> length hay; m \<le> length pre - 1\<rbrakk> \<Longrightarrow> m \<le> n"
    using best[of m] by (cases "m = 0") (auto simp: less_Suc_eq_le simp del: upt_Suc)
qed

lemma fold_max_spec: "fold max xs (k::nat) = Max (insert k (set xs))"
proof (induction xs arbitrary: k)
  case (Cons v xs)
  then show ?case by (cases xs) (auto simp: max.commute max.left_commute)
qed simp

lemma held_back_ge: "e \<in> set (marker_envelopes p) \<Longrightarrow> partial_prefix_len hay (env_prefix e) \<le> held_back p hay"
  by (auto simp: held_back_def fold_max_spec intro!: Max_ge)

lemma held_back_cong:
  "(\<And>e. e \<in> set (marker_envelopes p) \<Longrightarrow>
      partial_prefix_len hay (env_prefix e) = partial_prefix_len hay' (env_prefix e)) \<Longrightarrow>
     held_back p hay = held_back p hay'"
  unfolding held_back_def by (rule arg_cong[where f = "\<lambda>xs. fold max xs 0"]) simp

lemma held_back_in:
  "held_back p hay = 0 \<or> (\<exists>e\<in>set (marker_envelopes p). held_back p hay = partial_prefix_len hay (env_prefix e))"
proof -
  have "held_back p hay \<in> insert 0 (set (map (\<lambda>e. partial_prefix_len hay (env_prefix e)) (marker_envelopes p)))"
    unfolding held_back_def fold_max_spec by (rule Max_in) auto
  then show ?thesis by auto
qed

lemma held_back_le: "held_back p hay \<le> length hay"
  using held_back_in[of p hay] partial_prefix_spec(1) by auto

lemma held_back_small: "held_back p hay \<le> 11"
proof -
  have "length (env_prefix e) - 1 \<le> 11" if "e \<in> set (marker_envelopes p)" for e
    using that by (cases p) (auto simp: marker_envelopes_def apc_envelope_def conpty_envelope_def ascii_def)
  then show ?thesis
    using held_back_in[of p hay] order_trans[OF partial_prefix_spec(2)] by fastforce
qed

text \<open>A text without a whole envelope splits into what is emitted and the tail held back.\<close>

lemma prefix_take: "prefix u (x @ y) \<Longrightarrow> length x \<le> length u \<Longrightarrow> take (length x) u = x"
  by (auto simp: prefix_def dest: arg_cong[where f = "take (length x)"])

lemma held_back_occurs:
  assumes none: "find_envelope p (a @ b) = None" and b: "length b = held_back p (a @ b)"
    and o: "occurs p (a @ b @ ext) j e"
  shows "length a \<le> j"
proof (rule ccontr)
  assume j: "\<not> ?thesis"
  let ?h = "a @ b" and ?n = "length (env_prefix e)"
  have e: "e \<in> set (marker_envelopes p)" using o by (simp add: occurs_def)
  from none have "\<not> occurs p ?h j e" by (simp add: find_envelope_None_iff)
  with occurs_less[of p ?h ext j e] o have long: "length ?h < j + ?n" by fastforce
  have "prefix (env_prefix e) (drop j ?h @ ext)"
    using o j by (simp add: occurs_def)
  then have "take (length (drop j ?h)) (env_prefix e) = drop j ?h"
    using long by (intro prefix_take) auto
  then have "suffix (take (length ?h - j) (env_prefix e)) ?h"
    using suffix_drop[of j ?h] by (simp only: length_drop)
  then have "length ?h - j \<le> partial_prefix_len ?h (env_prefix e)"
    using long by (intro partial_prefix_spec(4)) auto
  with held_back_ge[OF e, of ?h] b j show False by simp
qed

lemma suffix_split: "suffix u (x @ y) \<Longrightarrow> length y \<le> length u \<Longrightarrow> \<exists>v. u = v @ y \<and> suffix v x"
  by (auto simp: suffix_def append_eq_append_conv2)

lemma partial_prefix_tail:
  assumes "partial_prefix_len (a @ b) pre \<le> length b"
  shows "partial_prefix_len (a @ b @ ext) pre = partial_prefix_len (b @ ext) pre"
proof (rule antisym)
  let ?m = "partial_prefix_len (a @ b @ ext) pre"
  note m = partial_prefix_spec(1-3)[of "a @ b @ ext" pre]
  have short: "?m \<le> length (b @ ext)"
  proof (rule ccontr)
    assume long: "\<not> ?thesis"
    have "suffix (take ?m pre) ((a @ b) @ ext)" using m(3) by simp
    moreover have len: "length (take ?m pre) = ?m" using m(2) by simp
    ultimately obtain v where v: "take ?m pre = v @ ext" "suffix v (a @ b)"
      using suffix_split[of "take ?m pre" "a @ b" ext] long by auto
    have lv: "length v = ?m - length ext" using arg_cong[OF v(1), of length] len by simp
    have "v = take (?m - length ext) pre"
      using arg_cong[OF v(1), of "take (?m - length ext)"] lv by (simp add: min_def)
    with v(2) lv m(2) suffix_length_le[OF v(2)] have "?m - length ext \<le> partial_prefix_len (a @ b) pre"
      by (intro partial_prefix_spec(4)) auto
    with assms long show False by simp
  qed
  have "suffix (take ?m pre) (b @ ext)"
    using suffix_length_suffix[of "take ?m pre" "a @ b @ ext" "b @ ext"] m(3) short by (simp add: suffix_appendI)
  then show "?m \<le> partial_prefix_len (b @ ext) pre"
    using short m(2) by (rule partial_prefix_spec(4))
  show "partial_prefix_len (b @ ext) pre \<le> ?m"
    using partial_prefix_spec(1-3)[of "b @ ext" pre]
    by (intro partial_prefix_spec(4)) (auto simp: suffix_appendI)
qed

lemma occurs_shift: "occurs p (a @ x) (length a + i) e = occurs p x i e"
  by (simp add: occurs_def)

lemma find_envelope_shift:
  assumes "\<And>j e. occurs p (a @ x) j e \<Longrightarrow> length a \<le> j"
  shows "find_envelope p (a @ x) = map_option (\<lambda>(i, e). (length a + i, e)) (find_envelope p x)"
proof (cases "find_envelope p x")
  case None
  have "\<not> occurs p (a @ x) j e" for j e
    using assms[of j e] None occurs_shift[of p a x "j - length a" e]
    by (auto simp: find_envelope_None_iff)
  then have "find_envelope p (a @ x) = None" by (simp only: find_envelope_None_iff) blast
  with None show ?thesis by simp
next
  case (Some ie)
  obtain i e where ie: "ie = (i, e)" by (cases ie)
  note f = find_envelope_Some[OF Some[unfolded ie]]
  have "find_envelope p (a @ x) = Some (length a + i, e)"
  proof (rule find_envelope_SomeI)
    show "occurs p (a @ x) (length a + i) e" using f(1) by (simp add: occurs_shift)
    fix j e' assume "j < length a + i"
    then show "\<not> occurs p (a @ x) j e'"
      using assms[of j e'] f(2)[of "j - length a" e'] occurs_shift[of p a x "j - length a" e']
      by fastforce
  qed
  with Some ie show ?thesis by simp
qed

text \<open>Text that cannot begin a marker is emitted as it is.\<close>

lemma scanned_plain:
  assumes "find_envelope p (a @ x) = map_option (\<lambda>(i, e). (length a + i, e)) (find_envelope p x)"
    and "find_envelope p x = None \<Longrightarrow> held_back p (a @ x) = held_back p x"
  shows "scanned p (a @ x) = (map Byte a @ fst (scanned p x), snd (scanned p x))"
proof (cases "find_envelope p x")
  case None
  with assms held_back_le[of p x] show ?thesis
    by (simp add: scanned_turn scan_turn_def)
next
  case (Some ie)
  obtain i e where ie: "ie = (i, e)" by (cases ie)
  from Some ie assms(1) have "find_envelope p (a @ x) = Some (length a + i, e)" by simp
  with Some ie show ?thesis
    by (simp add: scanned_turn[of p "a @ x"] scanned_turn[of p x] scan_turn_def Let_def split: option.split)
qed

section \<open>What the scanner promises\<close>

lemma find_envelope_raw: "find_envelope p rest = Some (start, e) \<Longrightarrow> find_envelope p (drop start rest) = Some (0, e)"
  using find_envelope_Some(1) by (intro find_envelope_SomeI) (fastforce simp: occurs_def)+

lemma scanned_join:
  "scanned p (rest @ ext) =
     (fst (scanned p rest) @ fst (scanned p (snd (scanned p rest) @ ext)),
      snd (scanned p (snd (scanned p rest) @ ext)))"
proof (induction "length rest" arbitrary: rest rule: less_induct)
  case less
  show ?case
  proof (cases "find_envelope p rest")
    case None
    let ?k = "length rest - held_back p rest"
    define a where "a = take ?k rest"
    define b where "b = drop ?k rest"
    have rest: "rest = a @ b" by (simp add: a_def b_def)
    have b: "length b = held_back p rest" using held_back_le[of p rest] by (simp add: b_def)
    have s: "scanned p rest = (map Byte a, b)"
      using None by (simp add: scanned_turn scan_turn_def a_def b_def)
    have "scanned p (a @ b @ ext) = (map Byte a @ fst (scanned p (b @ ext)), snd (scanned p (b @ ext)))"
    proof (rule scanned_plain)
      show "find_envelope p (a @ b @ ext) =
          map_option (\<lambda>(i, e). (length a + i, e)) (find_envelope p (b @ ext))"
        using held_back_occurs[of p a b ext] None b rest by (intro find_envelope_shift) auto
      show "held_back p (a @ b @ ext) = held_back p (b @ ext)"
        using held_back_ge[of _ p rest] b rest
        by (intro held_back_cong partial_prefix_tail) auto
    qed
    then show ?thesis unfolding s by (simp add: rest)
  next
    case (Some se)
    obtain start e where se: "se = (start, e)" by (cases se)
    let ?raw = "drop start rest" and ?n = "length (env_prefix e)"
    let ?body = "drop ?n ?raw"
    note f = find_envelope_in[OF Some[unfolded se]] and sh = scan_shrinks[OF Some[unfolded se]]
    note tm = conjunct2[OF env_nonempty_in[OF conjunct1[OF f]]]
    have more: "find_envelope p (rest @ ext) = Some (start, e)"
      using find_envelope_more Some se by simp
    have raw: "drop start (rest @ ext) = ?raw @ ext" "drop ?n (?raw @ ext) = ?body @ ext"
      "take start (rest @ ext) = take start rest" "take ?n (?raw @ ext) = take ?n ?raw"
      using sh by auto
    show ?thesis
    proof (cases "scan_turn p rest")
      case (Inl bh)
      then have none: "find_bytes ?body (env_terminator e) = None"
        and bh: "bh = (take start rest, ?raw)"
        using Some se by (auto simp: scan_turn_def Let_def split: option.splits if_splits)
      have "scanned p (take start rest @ ?raw @ ext) =
          (map Byte (take start rest) @ fst (scanned p (?raw @ ext)), snd (scanned p (?raw @ ext)))"
        using more find_envelope_more[OF find_envelope_raw[OF Some[unfolded se]], of ext] sh
        by (intro scanned_plain) (auto simp: append_assoc[symmetric] simp del: append_assoc)
      then show ?thesis
        using Inl bh by (simp add: scanned_turn[of p rest] append_assoc[symmetric] del: append_assoc)
    next
      case (Inr ir)
      obtain items rest' where ir: "ir = (items, rest')" by (cases ir)
      have "scan_turn p (rest @ ext) = Inr (items, rest' @ ext)"
        using Inr ir Some se more raw sh find_bytes_more[OF tm, of ?body _ ext]
          find_bytes_late[OF tm, of ?body ext] find_bytes_bound[of ?body "env_terminator e"]
        by (auto simp: scan_turn_def Let_def split: option.splits if_splits)
      moreover have "length rest' < length rest" using Inr ir scan_turn_shrinks by blast
      ultimately show ?thesis
        using less[of rest'] Inr ir by (simp add: scanned_turn[of p rest] scanned_turn[of p "rest @ ext"])
    qed
  qed
qed

text \<open>The bytes a chunk stands for.\<close>

fun spells :: "platform \<Rightarrow> vivid_chunk \<Rightarrow> bytes \<Rightarrow> bool" where
  "spells p (Bytes bs) part = (part = bs)"
| "spells p (Marker m) part =
     (valid_marker_shape m \<and> length part \<le> max_marker_bytes \<and>
      list_ex (\<lambda>e. part = take (env_skip e) (env_prefix e) @ m @ env_terminator e) (marker_envelopes p))"

lemma push_bytes_spells:
  assumes "list_all2 (spells p) chunks parts"
  shows "\<exists>parts'. list_all2 (spells p) (push_bytes chunks bs) parts' \<and> concat parts' = concat parts @ bs"
proof -
  consider "push_bytes chunks bs = chunks @ [Bytes bs]" | "push_bytes chunks bs = chunks" "bs = []"
    | before previous where "chunks = before @ [Bytes previous]"
      "push_bytes chunks bs = before @ [Bytes (previous @ bs)]"
    using push_bytes_cases by blast
  then show ?thesis
  proof cases
    case 1
    with assms have "list_all2 (spells p) (push_bytes chunks bs) (parts @ [bs])"
      by (simp add: list_all2_appendI)
    then show ?thesis by force
  next
    case 2
    with assms show ?thesis by auto
  next
    case 3
    with assms obtain ps where ps: "parts = ps @ [previous]" "list_all2 (spells p) before ps"
      by (auto simp: list_all2_append1 list_all2_Cons1)
    with 3 have "list_all2 (spells p) (push_bytes chunks bs) (ps @ [previous @ bs])"
      by (simp add: list_all2_appendI)
    with ps show ?thesis by (intro exI[of _ "ps @ [previous @ bs]"]) simp
  qed
qed

lemma add_chunk_spells:
  assumes "list_all2 (spells p) chunks parts" and "spells p c part"
  shows "\<exists>parts'. list_all2 (spells p) (add_chunk c chunks) parts' \<and> concat parts' = concat parts @ part"
proof (cases c)
  case (Bytes bs)
  with push_bytes_spells[OF assms(1), of bs] assms(2) show ?thesis by simp
next
  case (Marker m)
  with assms have "list_all2 (spells p) (add_chunk c chunks) (parts @ [part])"
    by (simp add: list_all2_appendI)
  then show ?thesis by force
qed

lemma add_chunks_spells:
  "list_all2 (spells p) chunks parts \<Longrightarrow> list_all2 (spells p) items parts' \<Longrightarrow>
     \<exists>ps. list_all2 (spells p) (fold add_chunk items chunks) ps \<and> concat ps = concat parts @ concat parts'"
proof (induction items arbitrary: chunks parts parts')
  case (Cons c cs)
  then obtain q qs where q: "parts' = q # qs" "spells p c q" "list_all2 (spells p) cs qs"
    by (auto simp: list_all2_Cons1)
  from add_chunk_spells[OF Cons.prems(1) q(2)] obtain ps where
    ps: "list_all2 (spells p) (add_chunk c chunks) ps" "concat ps = concat parts @ q" by blast
  from Cons.IH[OF ps(1) q(3)] ps(2) q(1) show ?case by simp
qed auto

lemma turn_keeps: "scan_turn p rest = Inl (bs, held) \<Longrightarrow> bs @ held = rest \<and> length held \<le> max_marker_bytes"
  using held_back_small[of p rest]
  by (auto simp: scan_turn_def Let_def max_marker_bytes_def split: option.splits if_splits)

lemma turn_spells:
  assumes "scan_turn p rest = Inr (items, rest')"
  shows "\<exists>parts. list_all2 (spells p) items parts \<and> concat parts @ rest' = rest"
proof -
  from assms obtain start e where f: "find_envelope p rest = Some (start, e)"
    by (auto simp: scan_turn_def split: option.splits)
  let ?raw = "drop start rest" and ?n = "length (env_prefix e)"
  let ?body = "drop ?n ?raw"
  note e = find_envelope_in[OF f]
  obtain more_raw where raw: "?raw = env_prefix e @ more_raw"
    using find_envelope_Some(1)[OF f] by (auto simp: occurs_def prefix_def)
  have skip: "list_all2 (spells p) [Bytes (take start rest), Bytes (take ?n ?raw)] [take start rest, take ?n ?raw]"
    "concat [take start rest, take ?n ?raw] @ ?body = rest"
    by (simp_all del: drop_drop)
  show ?thesis
  proof (cases "items = [Bytes (take start rest), Bytes (take ?n ?raw)] \<and> rest' = ?body")
    case True
    with skip show ?thesis by blast
  next
    case False
    with assms f obtain r where r: "find_bytes ?body (env_terminator e) = Some r"
      and end': "?n + r + length (env_terminator e) \<le> max_marker_bytes"
      and rest': "rest' = drop (?n + r + length (env_terminator e)) ?raw"
      and items: "items = [Bytes (take start rest),
        let payload = drop (env_skip e) (take (?n + r) ?raw)
        in if valid_marker_shape payload then Marker payload
           else Bytes (take (?n + r + length (env_terminator e)) ?raw)]"
      by (auto simp: scan_turn_def Let_def split: option.splits if_splits)
    have "prefix (env_terminator e) (drop r more_raw)"
      using r raw env_nonempty_in[of e p] e by (auto simp: find_bytes_Some_iff)
    then obtain tl where tl: "more_raw = take r more_raw @ env_terminator e @ tl" "r \<le> length more_raw"
      using env_nonempty_in[of e p] e by (metis append_take_drop_id drop_all nat_le_linear prefix_def prefix_bot.extremum_uniqueI)
    have sk: "env_skip e \<le> ?n"
      using e by (cases p) (auto simp: marker_envelopes_def apc_envelope_def conpty_envelope_def ascii_def)
    define m where "m = drop (env_skip e) (env_prefix e) @ take r more_raw"
    define part where "part = env_prefix e @ take r more_raw @ env_terminator e"
    have raw3: "?raw = part @ tl" using raw tl(1) by (simp add: part_def)
    have lens: "length part = ?n + r + length (env_terminator e)" using tl(2) by (simp add: part_def)
    have pay: "drop (env_skip e) (take (?n + r) ?raw) = m" using raw sk by (simp add: m_def)
    have pm: "part = take (env_skip e) (env_prefix e) @ m @ env_terminator e" by (simp add: part_def m_def)
    have tk: "take (length part) ?raw = part" "drop (length part) ?raw = tl" using raw3 by simp_all
    have "spells p (if valid_marker_shape m then Marker m else Bytes part) part"
      using e end' lens pm by (auto simp: list_ex_iff)
    then have "list_all2 (spells p) items [take start rest, part]"
      using items by (simp only: pay lens[symmetric] tk Let_def) simp
    moreover have "concat [take start rest, part] @ rest' = rest"
      using rest' tk(2) raw3 lens append_take_drop_id[of start rest] by simp
    ultimately show ?thesis by blast
  qed
qed

lemma scan_lossless:
  "scan p rest chunks = (out, held) \<Longrightarrow> list_all2 (spells p) chunks parts \<Longrightarrow>
     length held \<le> max_marker_bytes \<and>
     (\<exists>parts'. list_all2 (spells p) out parts' \<and> concat parts' @ held = concat parts @ rest)"
proof (induction "length rest" arbitrary: rest chunks parts rule: less_induct)
  case less
  show ?case
  proof (cases "scan_turn p rest")
    case (Inl bh)
    obtain bs h where bh: "bh = (bs, h)" by (cases bh)
    from Inl bh less.prems(1) have o: "out = push_bytes chunks bs" "held = h"
      by (simp_all add: scan_unfold[of p rest])
    from turn_keeps[OF Inl[unfolded bh]] push_bytes_spells[OF less.prems(2), of bs] show ?thesis
      unfolding o by force
  next
    case (Inr ir)
    obtain items rest' where ir: "ir = (items, rest')" by (cases ir)
    from turn_spells[OF Inr[unfolded ir]] obtain ps where
      ps: "list_all2 (spells p) items ps" "concat ps @ rest' = rest" by blast
    from add_chunks_spells[OF less.prems(2) ps(1)] obtain qs where
      qs: "list_all2 (spells p) (fold add_chunk items chunks) qs" "concat qs = concat parts @ concat ps" by blast
    have "scan p rest' (fold add_chunk items chunks) = (out, held)"
      using less.prems(1) Inr ir by (simp add: scan_unfold[of p rest])
    from less.hyps[OF scan_turn_shrinks[OF Inr[unfolded ir]] this qs(1)] qs(2) ps(2) show ?thesis by simp
  qed
qed

interpretation marker_text: lossless_scanner "scan_push p" "spells p" "\<lambda>pending. pending"
    "\<lambda>_. True" "\<lambda>_. True" for p
  by unfold_locales (use scan_lossless[where chunks = "[]" and parts = "[]"] in \<open>auto simp: scan_push_def\<close>)

definition settled :: "platform \<Rightarrow> bytes \<Rightarrow> bool" where
  "settled p pending \<longleftrightarrow> scanned p pending = ([], pending)"

lemma scanned_settled: "settled p (snd (scanned p rest))"
proof -
  have "scanned p rest = (fst (scanned p rest) @ fst (scanned p (snd (scanned p rest))),
      snd (scanned p (snd (scanned p rest))))"
    using scanned_join[of p rest "[]"] by simp
  then show ?thesis
    by (metis append_self_conv fst_conv prod.collapse settled_def snd_conv)
qed

interpretation marker_stream: fragment_free "scan_push p" stream "settled p" for p
proof
  fix pending f g o1 s1 o2 s2
  assume "scan_push p pending f = (o1, s1)" "scan_push p s1 g = (o2, s2)"
  then show "\<exists>out. scan_push p pending (f @ g) = (out, s2) \<and> stream out = stream o1 @ stream o2"
    using scanned_join[of p "pending @ f" g]
    by (intro exI[of _ "fst (scan p (pending @ f @ g) [])"]) (auto simp: scan_push_def scanned_def prod_eq_iff)
next
  fix pending f out s'
  show "scan_push p pending f = (out, s') \<Longrightarrow> settled p s'"
    using scanned_settled[of p "pending @ f"] by (simp add: scan_push_def scanned_def)
next
  fix pending out s'
  assume "settled p pending" "scan_push p pending [] = (out, s')"
  then show "stream out = [] \<and> s' = pending"
    by (simp add: settled_def scan_push_def scanned_def)
qed simp

text \<open>
  C17. The scanner neither loses nor invents output: whatever fragments the output of a pane comes
  in, the emitted chunks and the bytes still held back spell exactly the bytes received, in order;
  a marker chunk has the shape of a marker, fits the limit and stands for that marker inside one
  of the platform's envelopes; and at most 128 bytes are ever held back.
\<close>

theorem marker_scanner_lossless:
  "let (out, held) = push_all (scan_push p) [] fragments
   in length held \<le> max_marker_bytes \<and>
      (\<exists>parts. list_all2 (spells p) out parts \<and> concat parts @ held = concat fragments)"
proof -
  have bound: "length s \<le> max_marker_bytes \<Longrightarrow> push_all (scan_push p) s fs = (out, held) \<Longrightarrow>
      length held \<le> max_marker_bytes" for s fs out held
  proof (induction fs arbitrary: s out)
    case (Cons f fs)
    obtain o1 s1 where p: "scan_push p s f = (o1, s1)" by fastforce
    with scan_lossless[where chunks = "[]" and parts = "[]"] have "length s1 \<le> max_marker_bytes"
      by (simp add: scan_push_def)
    with Cons.IH Cons.prems(2) p show ?case by (auto split: prod.splits)
  qed simp
  obtain out held where r: "push_all (scan_push p) [] fragments = (out, held)" by fastforce
  have "list_all (list_all (\<lambda>_. True)) fragments" by (simp add: list_all_iff)
  from marker_text.push_all_lossless[OF TrueI this r] bound[OF _ r] show ?thesis
    by (simp add: r)
qed

text \<open>
  C18. How the output of a pane is cut into reads does not matter: pushing it in any fragments
  gives the same stream of text bytes and markers, and holds back the same bytes, as pushing it in
  one piece -- for the envelopes of both platforms, where one prefix contains the other.
\<close>

theorem marker_scanner_ignores_fragmentation:
  "stream (fst (push_all (scan_push p) [] fragments)) = stream (fst (scan_push p [] (concat fragments))) \<and>
   snd (push_all (scan_push p) [] fragments) = snd (scan_push p [] (concat fragments))"
proof -
  have ready: "settled p []"
    using scanned_settled[of p "[]"] by (cases p) (auto simp: settled_def scanned_def scan.simps
      find_envelope_def marker_envelopes_def map_filter_simps push_bytes_def)
  obtain out held where r: "push_all (scan_push p) [] fragments = (out, held)" by fastforce
  from marker_stream.push_all_joined[OF ready r] r show ?thesis by auto
qed

section \<open>Feeding the terminal\<close>

text \<open>
  The escape-sequence parser (\<open>vte\<close>) is the parameter \<open>advance\<close>: from its state and some bytes it
  makes a sequence of handler calls and reaches a new state.
\<close>

type_synonym 'v vte_parser = "'v \<Rightarrow> bytes \<Rightarrow> handler_call list \<times> 'v"

fun process_chunk ::
  "'v vte_parser \<Rightarrow> (uchar \<Rightarrow> nat option) \<Rightarrow> vivid_chunk \<Rightarrow> 'v \<times> terminal \<Rightarrow> ('v \<times> terminal) option" where
  "process_chunk advance cw (Bytes bs) (v, t) =
     (let (calls, v') = advance v bs in map_option (Pair v') (run_ops (handle cw) calls t))"
| "process_chunk advance cw (Marker m) (v, t) =
     Some (v, push_event (VividMarker m (cursor_row t) (cursor_col t)) t)"

definition process_chunks ::
  "'v vte_parser \<Rightarrow> (uchar \<Rightarrow> nat option) \<Rightarrow> vivid_chunk list \<Rightarrow> bool \<Rightarrow> 'v \<times> terminal \<Rightarrow>
     (terminal_event list \<times> 'v \<times> terminal) option" where
  "process_chunks advance cw chunks dmg vt =
     do { (v, t) \<leftarrow> run_ops (process_chunk advance cw) chunks vt;
          let t' = (if dmg then damage t else t);
          Some (events t', v, t'\<lparr>events := []\<rparr>) }"

definition feed ::
  "platform \<Rightarrow> 'v vte_parser \<Rightarrow> (uchar \<Rightarrow> nat option) \<Rightarrow> bytes \<Rightarrow> 'v \<times> terminal \<Rightarrow>
     (terminal_event list \<times> 'v \<times> terminal) option" where
  "feed p advance cw bs vt =
     (let (chunks, pending) = scan_push p (marker_pending (snd vt)) bs
      in process_chunks advance cw chunks (bs \<noteq> []) (fst vt, (snd vt)\<lparr>marker_pending := pending\<rparr>))"

definition finish ::
  "'v vte_parser \<Rightarrow> (uchar \<Rightarrow> nat option) \<Rightarrow> 'v \<times> terminal \<Rightarrow>
     (terminal_event list \<times> 'v \<times> terminal) option" where
  "finish advance cw vt =
     (let chunks = scan_finish (marker_pending (snd vt))
      in process_chunks advance cw chunks
           (list_ex (\<lambda>c. case c of Bytes bs \<Rightarrow> bs \<noteq> [] | Marker _ \<Rightarrow> False) chunks)
           (fst vt, (snd vt)\<lparr>marker_pending := []\<rparr>))"

text \<open>The marker a marker event reports, and the markers among a list of chunks.\<close>

fun event_marker :: "terminal_event \<Rightarrow> bytes option" where
  "event_marker (VividMarker m _ _) = Some m"
| "event_marker _ = None"

fun chunk_marker :: "vivid_chunk \<Rightarrow> bytes option" where
  "chunk_marker (Marker m) = Some m"
| "chunk_marker (Bytes _) = None"

lemma event_markers_marks: "List.map_filter event_marker (events t) = List.map_filter event_marker (marks t)"
proof -
  have "List.map_filter event_marker es = List.map_filter event_marker (filter is_marker es)" for es
  proof (induction es)
    case (Cons e es)
    then show ?case by (cases e) (simp_all add: map_filter_simps)
  qed simp
  then show ?thesis by (simp add: marks_def)
qed

text \<open>Where a cursor can be: a column equal to the width is that of a pending wrap.\<close>

fun event_placed :: "terminal \<Rightarrow> terminal_event \<Rightarrow> bool" where
  "event_placed t (VividMarker _ r c) = (r < rows t \<and> c \<le> cols t)"
| "event_placed t _ = True"

text \<open>
  The event the chunk at an index has to cause: for a marker, its text and the cursor of the terminal
  that has taken in the chunks before it and nothing else.
\<close>

definition reported_marker ::
  "'v vte_parser \<Rightarrow> (uchar \<Rightarrow> nat option) \<Rightarrow> vivid_chunk list \<Rightarrow> 'v \<times> terminal \<Rightarrow> nat \<Rightarrow>
     terminal_event option" where
  "reported_marker advance cw chunks vt i =
     (case chunks ! i of
        Bytes _ \<Rightarrow> None
      | Marker m \<Rightarrow>
          map_option (\<lambda>(v, t). VividMarker m (cursor_row t) (cursor_col t))
            (run_ops (process_chunk advance cw) (take i chunks) vt))"

lemma reported_marker_Cons:
  assumes "process_chunk advance cw c vt = Some vt'"
  shows "List.map_filter (reported_marker advance cw (c # cs) vt) [0..<length (c # cs)] =
    List.map_filter (reported_marker advance cw (c # cs) vt) [0] @
      List.map_filter (reported_marker advance cw cs vt') [0..<length cs]"
proof -
  have "reported_marker advance cw (c # cs) vt (Suc i) = reported_marker advance cw cs vt' i" for i
    using assms by (cases "cs ! i") (simp_all add: reported_marker_def del: process_chunk.simps)
  then have "List.map_filter (reported_marker advance cw (c # cs) vt) (map Suc xs) =
      List.map_filter (reported_marker advance cw cs vt') xs" for xs
    by (induction xs) (simp_all add: map_filter_simps split: option.split)
  from this[of "[0..<length cs]"] show ?thesis
    by (simp only: length_Cons upt_conv_Cons[OF zero_less_Suc] map_Suc_upt[symmetric])
      (simp add: map_filter_simps split: option.split)
qed

text \<open>The invariant of the loop over the chunks.\<close>

definition marks_ok :: "terminal \<Rightarrow> bool" where
  "marks_ok t \<longleftrightarrow> term_ok t \<and> list_all (event_placed t) (marks t)"

lemma event_placed_cong:
  "rows t' = rows t \<Longrightarrow> cols t' = cols t \<Longrightarrow> event_placed t' = event_placed t"
  by (rule ext, rename_tac e, case_tac e) auto

lemma process_chunk_ok:
  assumes "marks_ok t"
  shows "\<exists>v' t'. process_chunk advance cw c (v, t) = Some (v', t') \<and> marks_ok t' \<and>
    marks t' = marks t @ List.map_filter (reported_marker advance cw (c # cs) (v, t)) [0]"
proof (cases c)
  case (Bytes bs)
  obtain calls v' where a: "advance v bs = (calls, v')" by fastforce
  from run_handle_ok[of t cw calls] assms obtain t' where
    t': "run_ops (handle cw) calls t = Some t'" "term_ok t'" by (auto simp: marks_ok_def)
  from run_marks[OF t'(1)] event_placed_cong[of t' t] assms t' Bytes a show ?thesis
    by (simp add: marks_ok_def map_filter_simps reported_marker_def)
next
  case (Marker m)
  from assms have "cursor_row t < rows t" "cursor_col t \<le> cols t"
    by (auto simp: marks_ok_def term_ok_def core_ok_def)
  moreover have "marks (push_event (VividMarker m (cursor_row t) (cursor_col t)) t) =
      marks t @ [VividMarker m (cursor_row t) (cursor_col t)]"
    by (simp add: marks_def push_event_def)
  moreover have "event_placed (push_event e t) = event_placed t" for e
    by (rule event_placed_cong) simp_all
  ultimately show ?thesis
    using assms Marker by (simp add: marks_ok_def map_filter_simps reported_marker_def)
qed

lemma process_chunks_run:
  "marks_ok t \<Longrightarrow> \<exists>v' t'. run_ops (process_chunk advance cw) chunks (v, t) = Some (v', t') \<and> marks_ok t' \<and>
    marks t' = marks t @ List.map_filter (reported_marker advance cw chunks (v, t)) [0..<length chunks]"
proof (induction chunks arbitrary: v t)
  case Nil
  then show ?case by (simp add: map_filter_simps)
next
  case (Cons c cs)
  from process_chunk_ok[OF Cons.prems, where v = v and c = c and advance = advance and cw = cw and cs = cs]
  obtain v1 t1 where p: "process_chunk advance cw c (v, t) = Some (v1, t1)" "marks_ok t1"
    "marks t1 = marks t @ List.map_filter (reported_marker advance cw (c # cs) (v, t)) [0]" by blast
  from Cons.IH[OF p(2), of v1] obtain v2 t2 where
    q: "run_ops (process_chunk advance cw) cs (v1, t1) = Some (v2, t2)" "marks_ok t2"
    "marks t2 = marks t1 @ List.map_filter (reported_marker advance cw cs (v1, t1)) [0..<length cs]" by blast
  have "run_ops (process_chunk advance cw) (c # cs) (v, t) = Some (v2, t2)"
    using p(1) q(1) by (simp del: process_chunk.simps)
  moreover have "marks t2 = marks t @
      List.map_filter (reported_marker advance cw (c # cs) (v, t)) [0..<length (c # cs)]"
    unfolding reported_marker_Cons[OF p(1)] q(3) p(3) by simp
  ultimately show ?case using q(2) by blast
qed

lemma map_filter_parts: "List.map_filter f (xs @ ys) = List.map_filter f xs @ List.map_filter f ys"
  by (simp add: map_filter_def)

text \<open>Each marker chunk is reported, whatever comes before it.\<close>

lemma reported_markers_complete:
  assumes "run_ops (process_chunk advance cw) chunks vt \<noteq> None"
  shows "List.map_filter event_marker
      (List.map_filter (reported_marker advance cw chunks vt) [0..<length chunks]) =
    List.map_filter chunk_marker chunks"
  using assms
proof (induction chunks arbitrary: vt)
  case Nil
  then show ?case by (simp add: map_filter_simps)
next
  case (Cons c cs)
  then obtain vt' where p: "process_chunk advance cw c vt = Some vt'"
    "run_ops (process_chunk advance cw) cs vt' \<noteq> None"
    by (cases "process_chunk advance cw c vt") (auto simp del: process_chunk.simps)
  have "List.map_filter event_marker (List.map_filter (reported_marker advance cw (c # cs) vt) [0]) =
      List.map_filter chunk_marker [c]"
    by (cases c; cases vt) (simp_all add: reported_marker_def map_filter_simps)
  moreover have "List.map_filter chunk_marker (c # cs) =
      List.map_filter chunk_marker [c] @ List.map_filter chunk_marker cs" by (simp add: map_filter_def)
  ultimately show ?case unfolding reported_marker_Cons[OF p(1)] by (simp only: map_filter_parts Cons.IH[OF p(2)])
qed

text \<open>
  C19. Feeding output to a pane never fails, whatever the parser makes of the bytes, and reports the
  markers the scanner accepted, each exactly once and in order, at the place they were printed: with
  the cursor of the terminal after exactly the output before the marker, which is a row of the screen
  and a column up to the pending wrap behind the last cell. The events are drained, and any input at
  all reports damage.
\<close>

theorem feed_reports_markers:
  fixes p :: platform and bs :: bytes and t :: terminal
  defines "chunks \<equiv> fst (scan_push p (marker_pending t) bs)"
  defines "start \<equiv> t\<lparr>marker_pending := snd (scan_push p (marker_pending t) bs)\<rparr>"
  assumes "term_ok t" and "marks t = []"
  shows "\<exists>evs v' t'. feed p advance cw bs (v, t) = Some (evs, v', t') \<and> term_ok t' \<and> events t' = [] \<and>
    filter is_marker evs = List.map_filter (reported_marker advance cw chunks (v, start)) [0..<length chunks] \<and>
    List.map_filter event_marker evs = List.map_filter chunk_marker chunks \<and>
    list_all (event_placed t') evs \<and> (bs \<noteq> [] \<longrightarrow> Damage \<in> set evs)"
proof -
  have m: "marks start = []" "marks_ok start"
    using assms by (auto simp: marks_ok_def marks_def term_ok_def core_ok_def)
  from process_chunks_run[OF m(2), of advance cw chunks v] obtain v1 t1 where
    r: "run_ops (process_chunk advance cw) chunks (v, start) = Some (v1, t1)" "marks_ok t1"
    "marks t1 = List.map_filter (reported_marker advance cw chunks (v, start)) [0..<length chunks]"
    unfolding m(1) by auto
  define t2 where "t2 = (if bs \<noteq> [] then damage t1 else t1)"
  have t2: "marks t2 = marks t1" "rows t2 = rows t1" "cols t2 = cols t1" "term_ok t2"
    using r(2) by (auto simp: t2_def marks_ok_def)
  have ev: "event_placed (t2\<lparr>events := []\<rparr>) = event_placed t1"
    by (rule event_placed_cong) (simp_all add: t2)
  have "list_all (event_placed t1) (events t2)"
  proof -
    have "event_placed t1 e" if "e \<in> set (events t2)" for e
    proof (cases "is_marker e")
      case True
      with that have "e \<in> set (marks t2)" by (simp add: marks_def)
      then have "e \<in> set (marks t1)" by (simp add: t2(1))
      then show ?thesis using r(2) by (auto simp: marks_ok_def list_all_iff)
    next
      case False
      then show ?thesis by (cases e) auto
    qed
    then show ?thesis by (simp add: list_all_iff)
  qed
  moreover have "feed p advance cw bs (v, t) = Some (events t2, v1, t2\<lparr>events := []\<rparr>)"
    using r(1) by (simp add: feed_def process_chunks_def t2_def Let_def chunks_def start_def split_beta)
  moreover have "term_ok (t2\<lparr>events := []\<rparr>)" using t2(4) by (simp add: term_ok_def core_ok_def)
  moreover have "bs \<noteq> [] \<longrightarrow> Damage \<in> set (events t2)" by (auto simp: t2_def damage_def)
  moreover have "filter is_marker (events t2) =
      List.map_filter (reported_marker advance cw chunks (v, start)) [0..<length chunks]"
    using t2(1) r(3) by (simp add: marks_def)
  moreover have "List.map_filter event_marker (events t2) = List.map_filter chunk_marker chunks"
    using reported_markers_complete[of advance cw chunks "(v, start)"] r(1,3) t2(1)
    by (simp add: event_markers_marks)
  ultimately show ?thesis by (auto simp: ev)
qed

text \<open>A marker, and text with the marker behind it.\<close>

definition sample_marker :: bytes where
  "sample_marker = ascii ''VIVID;2;A;AAAAAAAAAAAAAAAAAAAAAA;0000000000000007;AAAAAAAAAAAAAAAAAAAAAA''"

definition marked :: "bytes \<Rightarrow> bytes" where
  "marked bs = bs @ esc # ascii ''_'' @ sample_marker @ [esc, 92]"

abbreviation plain_parser :: "unit vte_parser" where
  "plain_parser \<equiv> \<lambda>v bs. (map (Input \<circ> unat) bs, v)"

lemma scan_marked: "scan_push Unix [] (marked (ascii ''hi'')) = ([Bytes (ascii ''hi''), Marker sample_marker], [])"
  by code_simp

lemma hi_printed:
  "map_option (\<lambda>(v, t). (cursor_row t, cursor_col t))
     (process_chunk plain_parser (\<lambda>_. Some 1) (Bytes (ascii ''hi'')) ((), terminal_new 2 4 10)) = Some (0, 2)"
  by code_simp

theorem feed_reports_markers_witness:
  "\<exists>evs v' t'. feed Unix plain_parser (\<lambda>_. Some 1) (marked (ascii ''hi'')) ((), terminal_new 2 4 10) =
     Some (evs, v', t') \<and> filter is_marker evs = [VividMarker sample_marker 0 2] \<and> Damage \<in> set evs"
proof -
  let ?t = "terminal_new 2 4 10"
  have t: "term_ok ?t" "marks ?t = []" "marker_pending ?t = []" "?t\<lparr>marker_pending := []\<rparr> = ?t"
    by (rule term_ok_new) (simp_all add: terminal_new_def marks_def Let_def)
  have "List.map_filter (reported_marker plain_parser (\<lambda>_. Some 1)
      [Bytes (ascii ''hi''), Marker sample_marker] ((), ?t)) [0..<length [Bytes (ascii ''hi''), Marker sample_marker]] =
    [VividMarker sample_marker 0 2]"
    using hi_printed by (auto simp: reported_marker_def map_filter_simps upt_rec numeral_2_eq_2
        split: option.splits simp del: process_chunk.simps)
  with feed_reports_markers[OF t(1,2), of Unix plain_parser "\<lambda>_. Some 1" "marked (ascii ''hi'')" "()"]
  show ?thesis unfolding t(3) scan_marked by (auto simp: t(4) marked_def)
qed

text \<open>
  A line printed up to its last cell leaves the cursor behind that cell, where the next character wraps:
  a marker printed there is reported with a column that is no cell.
\<close>

theorem marker_behind_the_line:
  "map_option (\<lambda>(evs, _, _). filter is_marker evs)
     (feed Unix plain_parser (\<lambda>_. Some 1) (marked (ascii ''wide'')) ((), terminal_new 2 4 10)) =
   Some [VividMarker sample_marker 0 4]"
  by code_simp

end
