(* ===== verification/Session_Actor.thy ===== *)
theory Session_Actor
  imports Session_Tabs Marker_Scanner
begin

text \<open>
  The session actor (\<open>src/src/session.rs\<close>): its state, the layout core (relayout, closing a pane,
  ending a drag or a float-edit mode) and the handlers of keyboard actions, pointer events,
  automation commands, PTY output and client attachment. A handler maps a state to the state it
  leaves and \<open>None\<close> is a panic. What the actor tells its client, its PTYs and the media service
  is appended to the state's \<open>outbox\<close>. The operating system's part (does a shell start, does a
  PTY accept a size or input) and the escape parser are the record \<open>world\<close>.
\<close>

section \<open>State\<close>

record screen_change =
  change_sequence :: nat
  change_rows :: "nat list option"

record 'v pane =
  pane_terminal :: terminal
  pane_parser :: 'v
  pane_copy :: "copy_state option"
  pane_metrics :: "(nat \<times> nat \<times> nat \<times> nat) option"
  pane_screen_sequence :: nat
  pane_changes :: "screen_change list"

record attached_client =
  client_id :: nat
  client_display :: display_metrics
  client_vivid :: bool
  client_acknowledged :: nat
  client_rendered :: nat
  client_frames :: "(nat \<times> nat) list"

record session_config =
  status_visible :: bool
  scrollback_lines :: nat
  border_drag_margin :: nat
  default_width_percent :: nat
  default_height_percent :: nat
  copy_keys :: "string \<rightharpoonup> string"

datatype session_effect =
    SpawnedPane pane_id nat
  | TerminatedPane pane_id
  | RevokedPane pane_id
  | PaneMetrics pane_id "nat \<times> nat \<times> nat \<times> nat"
  | PaneInput pane_id bytes
  | ObserveMarker pane_id bytes nat nat
  | ScrollAnchors pane_id int
  | ClearAnchors pane_id
  | SentStatus string
  | SentEditMode nat "(pane_id \<times> floating_edit_kind) option"
  | SentClipboard bytes
  | SentTitle "uchar list option"
  | SentBell
  | SentAttached bool
  | SentDetached string
  | SentError string

record 'v session =
  config :: session_config
  panes :: "(pane_id \<times> 'v pane) list"
  tabs :: "tab list"
  active_index :: nat
  attached :: "attached_client option"
  last_display :: display_metrics
  next_pane_id :: pane_id
  next_tab_id :: nat
  copy_buffer :: bytes
  frame_id :: nat
  force_full :: bool
  pending_render :: bool
  layout_revision :: nat
  cur_drag :: "pointer_drag option"
  cur_modal :: "float_modal option"
  next_float_mode :: nat
  session_sequence :: nat
  outbox :: "session_effect list"

text \<open>
  The environment of one event. \<open>queue_input\<close> is \<open>None\<close> where the PTY takes the bytes, otherwise
  whether to warn the user and whether the pane is gone.
\<close>

record input_failure =
  fail_warn :: bool
  fail_close :: bool

record 'v world =
  spawn_ok :: "pane_id \<Rightarrow> nat \<Rightarrow> bool"
  resize_ok :: "pane_id \<Rightarrow> nat \<Rightarrow> nat \<Rightarrow> bool"
  queue_input :: "pane_id \<Rightarrow> bytes \<Rightarrow> input_failure option"
  host_platform :: platform
  parser_new :: 'v
  parser_advance :: "'v vte_parser"
  char_width :: "uchar \<Rightarrow> nat option"

definition screen_change_history :: nat where "screen_change_history = 1024"
definition copy_buffer_limit :: nat where "copy_buffer_limit = 1048576"

section \<open>Access\<close>

definition emit :: "session_effect \<Rightarrow> 'v session \<Rightarrow> 'v session" where
  "emit e s = s\<lparr>outbox := outbox s @ [e]\<rparr>"

definition to_client :: "session_effect \<Rightarrow> 'v session \<Rightarrow> 'v session" where
  "to_client e s = (if attached s = None then s else emit e s)"

definition status :: "string \<Rightarrow> 'v session \<Rightarrow> 'v session" where
  "status msg = to_client (SentStatus msg)"

definition pane_message :: "pane_id \<Rightarrow> string \<Rightarrow> string" where
  "pane_message p msg = ''pane '' @ map (char_of \<circ> unat) (decimal p) @ '' '' @ msg"

definition active_tab :: "'v session \<Rightarrow> tab option" where
  "active_tab s = vec_get (active_index s) (tabs s)"

definition update_active :: "(tab \<Rightarrow> tab) \<Rightarrow> 'v session \<Rightarrow> 'v session" where
  "update_active f s =
     (case active_tab s of None \<Rightarrow> s
      | Some t \<Rightarrow> s\<lparr>tabs := (tabs s)[active_index s := f t]\<rparr>)"

text \<open>\<open>active_tab_mut().is_some_and(..)\<close> and \<open>tabs.iter_mut().find(..).is_some_and(..)\<close>.\<close>

definition try_active :: "(tab \<Rightarrow> bool \<times> tab) \<Rightarrow> 'v session \<Rightarrow> bool \<times> 'v session" where
  "try_active f s =
     (case active_tab s of None \<Rightarrow> (False, s)
      | Some t \<Rightarrow> (fst (f t), s\<lparr>tabs := (tabs s)[active_index s := snd (f t)]\<rparr>))"

definition try_tab ::
    "(tab \<Rightarrow> bool) \<Rightarrow> (tab \<Rightarrow> bool \<times> tab) \<Rightarrow> 'v session \<Rightarrow> bool \<times> 'v session" where
  "try_tab P f s =
     (case position P (tabs s) of None \<Rightarrow> (False, s)
      | Some i \<Rightarrow> (fst (f (tabs s ! i)), s\<lparr>tabs := (tabs s)[i := snd (f (tabs s ! i))]\<rparr>))"

definition on_layer ::
    "(floating_layer \<Rightarrow> bool \<times> floating_layer) \<Rightarrow> tab \<Rightarrow> bool \<times> tab" where
  "on_layer f t = (fst (f (tab_floating t)), t\<lparr>tab_floating := snd (f (tab_floating t))\<rparr>)"

definition pane_get :: "pane_id \<Rightarrow> 'v session \<Rightarrow> 'v pane option" where
  "pane_get p s = map_of (panes s) p"

definition pane_update :: "pane_id \<Rightarrow> ('v pane \<Rightarrow> 'v pane) \<Rightarrow> 'v session \<Rightarrow> 'v session" where
  "pane_update p f s = s\<lparr>panes := map (\<lambda>(q, v). (q, if q = p then f v else v)) (panes s)\<rparr>"

definition layout_display :: "'v session \<Rightarrow> display_metrics" where
  "layout_display s =
     (case attached s of None \<Rightarrow> last_display s | Some c \<Rightarrow> client_display c)"

definition content_area :: "'v session \<Rightarrow> rect" where
  "content_area s =
     \<lparr>rect_x = 0, rect_y = 0, rect_width = max (disp_columns (layout_display s)) 1,
      rect_height = max (disp_rows (layout_display s) -
        (if status_visible (config s) then 1 else 0)) 1\<rparr>"

definition schedule_render :: "'v session \<Rightarrow> 'v session" where
  "schedule_render s = s\<lparr>pending_render := True\<rparr>"

definition bump_layout :: "'v session \<Rightarrow> 'v session" where
  "bump_layout s = s\<lparr>layout_revision := wrapping_inc64 (layout_revision s),
     session_sequence := wrapping_inc64 (session_sequence s)\<rparr>"

definition projection_changed :: "'v session \<Rightarrow> 'v session" where
  "projection_changed s = schedule_render (bump_layout s)"

definition keep_last :: "nat \<Rightarrow> 'a list \<Rightarrow> 'a list" where
  "keep_last n xs = drop (length xs - n) xs"

text \<open>A pane's screen change: its own counter and the bounded history of changes.\<close>

definition note_change :: "nat list option \<Rightarrow> 'v pane \<Rightarrow> 'v pane" where
  "note_change changed p =
     (let n = wrapping_inc64 (pane_screen_sequence p)
      in p\<lparr>pane_screen_sequence := n,
           pane_changes := keep_last screen_change_history
             (pane_changes p @ [\<lparr>change_sequence = n, change_rows = changed\<rparr>])\<rparr>)"

definition mark_pane_screen_change :: "pane_id \<Rightarrow> nat list option \<Rightarrow> 'v session \<Rightarrow> 'v session" where
  "mark_pane_screen_change p changed s =
     (case pane_get p s of None \<Rightarrow> s
      | Some _ \<Rightarrow> (pane_update p (note_change changed) s)
           \<lparr>session_sequence := wrapping_inc64 (session_sequence s)\<rparr>)"

section \<open>The layout core\<close>

text \<open>
  One pane of the relayout: the terminal and the PTY follow the content size, the media service
  learns the new metrics. The accumulator holds the panes whose PTY refused the size and the
  number of resized panes.
\<close>

definition resize_pane ::
    "'v world \<Rightarrow> display_metrics \<Rightarrow> pane_projection \<Rightarrow> pane_id list \<times> nat \<times> 'v session \<Rightarrow>
     pane_id list \<times> nat \<times> 'v session" where
  "resize_pane w d proj acc =
     (case acc of (failed, n, s) \<Rightarrow>
       let p = proj_pane proj;
           h = rect_height (proj_content proj);
           wd = rect_width (proj_content proj);
           m = (wd, h, disp_cell_width d, disp_cell_height d)
       in case pane_get p s of
            None \<Rightarrow> (failed, n, s)
          | Some v \<Rightarrow>
              let differs = rows (pane_terminal v) \<noteq> h \<or> cols (pane_terminal v) \<noteq> wd;
                  s1 = (if differs
                        then pane_update p (\<lambda>v. note_change None
                               (v\<lparr>pane_terminal := terminal_resize h wd (pane_terminal v)\<rparr>)) s
                        else s);
                  s2 = (if pane_metrics v \<noteq> Some m
                        then emit (PaneMetrics p m)
                               (pane_update p (\<lambda>v. v\<lparr>pane_metrics := Some m\<rparr>) s1)
                        else s1)
              in (if differs \<and> \<not> resize_ok w p wd h then failed @ [p] else failed,
                  if differs then wrapping_inc64 n else n, s2))"

text \<open>All tabs are laid out, hidden ones included; a placement may panic.\<close>

fun resize_tabs ::
    "'v world \<Rightarrow> rect \<Rightarrow> display_metrics \<Rightarrow> tab list \<Rightarrow> pane_id list \<times> nat \<times> 'v session \<Rightarrow>
     (pane_id list \<times> nat \<times> 'v session) option" where
  "resize_tabs w area d [] acc = Some acc"
| "resize_tabs w area d (t # ts) acc =
     (case visible_projections t area of
        None \<Rightarrow> None
      | Some ps \<Rightarrow> resize_tabs w area d ts (fold (resize_pane w d) ps acc))"

text \<open>
  \<open>resize_all\<close> closes the panes whose PTY refused its size, and closing a pane lays the session out
  again: the operations of this cycle take the inner \<open>resize_all\<close> as their first argument \<open>ra\<close>.
\<close>

definition relayout_with ::
    "('v session \<Rightarrow> 'v session option) \<Rightarrow> 'v session \<Rightarrow> 'v session option" where
  "relayout_with ra s = map_option schedule_render (ra (bump_layout s))"

definition restore_drag :: "pointer_drag \<Rightarrow> 'v session \<Rightarrow> bool \<times> 'v session" where
  "restore_drag drag s =
     (case drag of
        TiledBoundary tid _ _ _ original \<Rightarrow>
          try_tab (\<lambda>t. tab_id t = tid)
            (\<lambda>t. if tab_tree t = Some original then (False, t)
                 else (True, t\<lparr>tab_tree := Some original\<rparr>)) s
      | MoveFloat tid p _ original \<Rightarrow>
          try_tab (\<lambda>t. tab_id t = tid) (on_layer (layer_set_rect p original (content_area s))) s
      | ResizeFloat tid p _ _ original \<Rightarrow>
          try_tab (\<lambda>t. tab_id t = tid) (on_layer (layer_set_rect p original (content_area s))) s)"

definition relayout_if ::
    "('v session \<Rightarrow> 'v session option) \<Rightarrow> bool \<times> 'v session \<Rightarrow> 'v session option" where
  "relayout_if ra r =
     (if fst r then relayout_with ra ((snd r)\<lparr>force_full := True\<rparr>) else Some (snd r))"

definition cancel_pointer_drag_with ::
    "('v session \<Rightarrow> 'v session option) \<Rightarrow> bool \<Rightarrow> 'v session \<Rightarrow> 'v session option" where
  "cancel_pointer_drag_with ra restore s =
     (case cur_drag s of
        None \<Rightarrow> Some s
      | Some drag \<Rightarrow>
          let s1 = s\<lparr>cur_drag := None\<rparr>
          in if restore then relayout_if ra (restore_drag drag s1) else Some s1)"

definition end_float_mode_with ::
    "('v session \<Rightarrow> 'v session option) \<Rightarrow> bool \<Rightarrow> 'v session \<Rightarrow> 'v session option" where
  "end_float_mode_with ra restore s =
     (case cur_modal s of
        None \<Rightarrow> Some s
      | Some m \<Rightarrow>
          let s1 = s\<lparr>cur_modal := None\<rparr>
          in map_option (to_client (SentEditMode (modal_id m) None))
               (if restore
                then relayout_if ra
                  (try_tab (\<lambda>t. layer_contains (tab_floating t) (modal_pane m))
                    (on_layer (layer_set_rect (modal_pane m) (modal_original m) (content_area s1))) s1)
                else Some s1))"

definition forget_pane :: "pane_id \<Rightarrow> tab \<Rightarrow> tab" where
  "forget_pane p t =
     (let (removed, l) = layer_remove p (tab_floating t);
          t1 = t\<lparr>tab_floating := l,
                 tab_tree := (if removed then tab_tree t
                              else Option.bind (tab_tree t) (\<lambda>tree. close tree p))\<rparr>
      in t1\<lparr>tab_zoomed := filter_option (\<lambda>q. q \<noteq> p) (tab_zoomed t1),
            tab_last_tiled := filter_option (\<lambda>q. q \<noteq> p) (tab_last_tiled t1)\<rparr>)"

definition refocus :: "pane_id \<Rightarrow> tab \<Rightarrow> tab" where
  "refocus p t =
     (if tab_focused t = p
      then (case fallback_focus t of None \<Rightarrow> t | Some q \<Rightarrow> set_focus q t) else t)"

definition drop_pane :: "pane_id \<Rightarrow> 'v session \<Rightarrow> 'v session" where
  "drop_pane p s =
     emit (RevokedPane p)
       (case pane_get p s of None \<Rightarrow> s
        | Some _ \<Rightarrow> emit (TerminatedPane p) (s\<lparr>panes := filter (\<lambda>(q, _). q \<noteq> p) (panes s)\<rparr>))"

definition remove_from_tab :: "nat \<Rightarrow> pane_id \<Rightarrow> 'v session \<Rightarrow> 'v session" where
  "remove_from_tab i p s =
     (let t = forget_pane p (tabs s ! i);
          ts = (if tab_is_empty t then remove_at i (tabs s) else (tabs s)[i := refocus p t])
      in s\<lparr>tabs := ts,
           active_index := (if length ts \<le> active_index s then length ts - 1 else active_index s),
           force_full := True\<rparr>)"

definition close_pane_with ::
    "('v session \<Rightarrow> 'v session option) \<Rightarrow> pane_id \<Rightarrow> 'v session \<Rightarrow> 'v session option" where
  "close_pane_with ra p s =
     do { s1 \<leftarrow> (case cur_drag s of None \<Rightarrow> Some s
                | Some drag \<Rightarrow> cancel_pointer_drag_with ra (drag_pane drag \<noteq> Some p) s);
          s2 \<leftarrow> (case cur_modal s1 of None \<Rightarrow> Some s1
                | Some m \<Rightarrow> end_float_mode_with ra (modal_pane m \<noteq> p) s1);
          let s3 = drop_pane p s2;
          (case position (\<lambda>t. tab_contains t p) (tabs s3) of
             None \<Rightarrow> Some s3
           | Some i \<Rightarrow> relayout_with ra (remove_from_tab i p s3)) }"

fun close_failed ::
    "('v session \<Rightarrow> 'v session option) \<Rightarrow> pane_id list \<Rightarrow> 'v session \<Rightarrow> 'v session option" where
  "close_failed ra [] s = Some s"
| "close_failed ra (p # ps) s =
     Option.bind (close_pane_with ra p (status (pane_message p ''PTY resize failed'') s)) (close_failed ra ps)"

text \<open>The first argument bounds the depth of the cycle; \<open>resize_fuel\<close> is always enough.\<close>

fun resize_all :: "nat \<Rightarrow> 'v world \<Rightarrow> 'v session \<Rightarrow> 'v session option" where
  "resize_all 0 w s = None"
| "resize_all (Suc n) w s =
     (case resize_tabs w (content_area s) (layout_display s) (tabs s) ([], 0, s) of
        None \<Rightarrow> None
      | Some (failed, resized, s1) \<Rightarrow>
          close_failed (resize_all n w) (sort (remdups failed))
            (s1\<lparr>session_sequence := wrapping_add64 (session_sequence s1) resized\<rparr>))"

definition option_size :: "'a option \<Rightarrow> nat" where
  "option_size a = (case a of None \<Rightarrow> 0 | Some _ \<Rightarrow> 1)"

definition resize_fuel :: "'v session \<Rightarrow> nat" where
  "resize_fuel s = Suc (length (panes s) + option_size (cur_drag s) + option_size (cur_modal s))"

definition do_resize_all :: "'v world \<Rightarrow> 'v session \<Rightarrow> 'v session option" where
  "do_resize_all w s = resize_all (resize_fuel s) w s"

definition relayout :: "'v world \<Rightarrow> 'v session \<Rightarrow> 'v session option" where
  "relayout w = relayout_with (do_resize_all w)"

definition cancel_pointer_drag :: "'v world \<Rightarrow> bool \<Rightarrow> 'v session \<Rightarrow> 'v session option" where
  "cancel_pointer_drag w = cancel_pointer_drag_with (do_resize_all w)"

definition end_float_mode :: "'v world \<Rightarrow> bool \<Rightarrow> 'v session \<Rightarrow> 'v session option" where
  "end_float_mode w = end_float_mode_with (do_resize_all w)"

definition close_pane :: "'v world \<Rightarrow> pane_id \<Rightarrow> 'v session \<Rightarrow> 'v session option" where
  "close_pane w = close_pane_with (do_resize_all w)"

end
