(* ===== verification/Terminal_Text.thy ===== *)
theory Terminal_Text
  imports Terminal_Correct
begin

text \<open>
  Reading text back from a pane (\<open>src/vvmux-terminal/src/lib.rs\<close>, lines 271 to 326 and 855 to 880):
  the lines of the history have negative indices, those of the screen start at zero. Line indices
  are far from the bounds of \<open>isize\<close>, so its saturating addition is exact.
\<close>

definition viewport_line :: "int \<Rightarrow> terminal \<Rightarrow> cell list option" where
  "viewport_line line t =
     (if line < 0
      then (let index = int (length (history t)) + line
            in if 0 \<le> index then vec_get (nat index) (history t) else None)
      else vec_get (nat line) (grid t))"

definition line_wrapped :: "int \<Rightarrow> terminal \<Rightarrow> bool option" where
  "line_wrapped line t =
     (if line < 0
      then (let index = int (length (history t)) + line
            in if 0 \<le> index then vec_get (nat index) (history_wrapped t) else None)
      else vec_get (nat line) (grid_wrapped t))"

text \<open>A cell that a row's text must reach.\<close>

definition cell_shown :: "cell \<Rightarrow> bool" where
  "cell_shown c \<longleftrightarrow> cell_ch c \<noteq> space \<or> cell_combining c \<noteq> [] \<or> cell_tab_width c \<noteq> None \<or>
     cell_wide_continuation c \<or> cell_leading_wide_spacer c"

definition row_end :: "cell list \<Rightarrow> nat" where
  "row_end cells = (case position cell_shown (rev cells) of None \<Rightarrow> 0 | Some i \<Rightarrow> length cells - i)"

text \<open>The loop from a column to the end of the row's text.\<close>

function row_text :: "cell list \<Rightarrow> nat \<Rightarrow> nat \<Rightarrow> uchar list" where
  "row_text cells fin column =
     (if column < fin
      then let c = cells ! column
           in case cell_tab_width c of
                Some width \<Rightarrow> 9 # row_text cells fin (column + max width 1)
              | None \<Rightarrow>
                  (if \<not> cell_wide_continuation c \<and> \<not> cell_leading_wide_spacer c
                   then cell_ch c # cell_combining c else []) @ row_text cells fin (column + 1)
      else [])"
  by pat_completeness auto
termination by (relation "measure (\<lambda>(cells, fin, column). fin - column)") auto

declare row_text.simps [simp del]

definition append_row_text :: "uchar list \<Rightarrow> cell list \<Rightarrow> uchar list" where
  "append_row_text output cells = output @ row_text cells (row_end cells) 0"

fun extract_lines :: "terminal \<Rightarrow> int \<Rightarrow> nat list \<Rightarrow> uchar list \<Rightarrow> bool \<Rightarrow> uchar list" where
  "extract_lines t start [] text wrapped = text"
| "extract_lines t start (index # rest) text wrapped =
     (let line = start + int index
      in case viewport_line line t of
           None \<Rightarrow> extract_lines t start rest text wrapped
         | Some cells \<Rightarrow>
             let text1 = (if 0 < index \<and> \<not> wrapped then text @ [10] else text);
                 text2 = append_row_text text1 (take (cols t) cells);
                 wrapped' = (case line_wrapped line t of None \<Rightarrow> False | Some w \<Rightarrow> w)
             in extract_lines t start rest text2 wrapped')"

definition extract_rows :: "int \<Rightarrow> nat \<Rightarrow> terminal \<Rightarrow> uchar list" where
  "extract_rows start row_count t = extract_lines t start [0..<row_count] [] False"

definition visible_text :: "nat \<Rightarrow> terminal \<Rightarrow> uchar list" where
  "visible_text display_offset t =
     extract_rows (- int (min display_offset (length (history t)))) (rows t) t"

definition latest_text :: "nat \<Rightarrow> terminal \<Rightarrow> uchar list" where
  "latest_text n t =
     (let available = length (history t) + rows t;
          count = min n available
      in extract_rows (int (available - count) - int (length (history t))) count t)"

section \<open>Lines by absolute index\<close>

lemma viewport_line_abs:
  "viewport_line (int i - int (length (history t))) t =
     (if i < length (history t @ grid t) then Some ((history t @ grid t) ! i) else None)"
  by (auto simp: viewport_line_def vec_get_def nth_append Let_def nat_diff_distrib' not_less)

lemma line_wrapped_abs:
  "length (history_wrapped t) = length (history t) \<Longrightarrow>
   line_wrapped (int i - int (length (history t))) t =
     (if i < length (history_wrapped t @ grid_wrapped t)
      then Some ((history_wrapped t @ grid_wrapped t) ! i) else None)"
  by (auto simp: line_wrapped_def vec_get_def nth_append Let_def nat_diff_distrib' not_less)

section \<open>Text that is typed\<close>

definition typed_cell :: "uchar \<Rightarrow> cell" where
  "typed_cell x = default_cell\<lparr>cell_ch := x\<rparr>"

definition typed_row :: "nat \<Rightarrow> uchar list \<Rightarrow> cell list" where
  "typed_row c xs = map typed_cell xs @ replicate (c - length xs) default_cell"

text \<open>
  The state after typing \<open>w\<close> on \<open>n\<close> lines of a fresh terminal, each line full but the last, which
  may be empty, partial or full.
\<close>

definition typed_at :: "nat \<Rightarrow> uchar list \<Rightarrow> terminal \<Rightarrow> bool" where
  "typed_at n w t \<longleftrightarrow>
     core_ok t \<and> scroll_top t = 0 \<and> scroll_bottom t = rows t \<and> \<not> alternate_screen t \<and>
     template t = default_cell \<and> 1 \<le> n \<and> (n - 1) * cols t \<le> length w \<and> length w \<le> n * cols t \<and>
     history t @ grid t =
       map (\<lambda>i. typed_row (cols t) (take (cols t) (drop (i * cols t) w))) [0..<max n (rows t)] \<and>
     history_wrapped t @ grid_wrapped t = map (\<lambda>i. Suc i < n) [0..<max n (rows t)] \<and>
     cursor_row t = n - 1 - (n - rows t) \<and> cursor_col t = length w - (n - 1) * cols t"

lemma typed_new: "1 \<le> r \<Longrightarrow> 1 \<le> c \<Longrightarrow> typed_at 1 [] (terminal_new r c limit)"
  using term_ok_new[of r c limit]
  by (auto simp: typed_at_def term_ok_def terminal_new_def Let_def max_def blank_grid_def typed_row_def
      map_replicate_const)

lemma untab_typed: "untab hit n (typed_row c xs) = typed_row c xs"
  by (auto simp: untab_def typed_row_def typed_cell_def default_cell_def enumerate_eq_zip
      intro!: nth_equalityI simp: nth_append)

lemma typed_at_length:
  assumes "typed_at n w t"
  shows "length (history t @ grid t) = max n (rows t)"
proof -
  from assms have all: "history t @ grid t =
      map (\<lambda>i. typed_row (cols t) (take (cols t) (drop (i * cols t) w))) [0..<max n (rows t)]"
    by (simp add: typed_at_def)
  show ?thesis by (simp only: all) simp
qed

lemma typed_at_line:
  assumes "typed_at n w t" and "i < max n (rows t)"
  shows "(history t @ grid t) ! i = typed_row (cols t) (take (cols t) (drop (i * cols t) w))"
proof -
  from assms(1) have all: "history t @ grid t =
      map (\<lambda>i. typed_row (cols t) (take (cols t) (drop (i * cols t) w))) [0..<max n (rows t)]"
    by (simp add: typed_at_def)
  show ?thesis unfolding all using assms(2) by simp
qed

lemma typed_at_row:
  assumes "typed_at n w t"
  shows "length (history t) + cursor_row t = n - 1"
    and "grid t ! cursor_row t = typed_row (cols t) (drop ((n - 1) * cols t) w)"
proof -
  have core: "core_ok t" and cr: "cursor_row t = n - 1 - (n - rows t)" "1 \<le> n"
    using assms by (simp_all add: typed_at_def)
  have "length (history t) + rows t = max n (rows t)"
    using typed_at_length[OF assms] core_okD(3)[OF core] by simp
  then show r: "length (history t) + cursor_row t = n - 1"
    using cr core_okD(1)[OF core] by (cases "n \<le> rows t") auto
  have "grid t ! cursor_row t = (history t @ grid t) ! (n - 1)"
    using r by (metis nth_append_length_plus)
  also have "\<dots> = typed_row (cols t) (take (cols t) (drop ((n - 1) * cols t) w))"
    using cr(2) by (intro typed_at_line[OF assms]) simp
  also have "take (cols t) (drop ((n - 1) * cols t) w) = drop ((n - 1) * cols t) w"
    using assms by (cases n) (auto simp: typed_at_def)
  finally show "grid t ! cursor_row t = typed_row (cols t) (drop ((n - 1) * cols t) w)" .
qed

lemma typed_row_snoc:
  "length xs < c \<Longrightarrow> (typed_row c xs)[length xs := typed_cell x] = typed_row c (xs @ [x])"
  by (rule nth_equalityI) (auto simp: typed_row_def nth_append nth_list_update nth_Cons')

lemma typed_put:
  assumes t: "typed_at n w t" and room: "length w < n * cols t"
    and put: "put_char cw x t = Some t'" "cw x = Some 1"
  shows "typed_at n (w @ [x]) t'"
proof -
  have core: "core_ok t" using t by (simp add: typed_at_def)
  note d = core_okD[OF core]
  let ?old = "drop ((n - 1) * cols t) w"
  have n: "1 \<le> n" "(n - 1) * cols t \<le> length w" using t by (auto simp: typed_at_def)
  have col: "cursor_col t = length ?old" "cursor_col t < cols t"
    using t room n by (cases n; auto simp: typed_at_def)+
  note row = typed_at_row[OF t]
  have inv: "invalidate_tab_at (cursor_row t) (cursor_col t) t = Some t"
  proof -
    have "untab hit k (grid t ! cursor_row t) = grid t ! cursor_row t" for hit k
      by (simp add: row(2) untab_typed)
    then show ?thesis using d(3,4) d(8)[OF d(4)] by (simp add: invalidate_tab_at_def)
  qed
  have "printed_cell x t = typed_cell x"
    using t by (simp add: printed_cell_def typed_at_def typed_cell_def default_cell_def)
  moreover have "(grid t ! cursor_row t)[cursor_col t := typed_cell x] = typed_row (cols t) (?old @ [x])"
    using typed_row_snoc[of ?old "cols t" x] col(2) unfolding row(2) col(1) .
  then have "grid_set (cursor_row t) (cursor_col t) (typed_cell x) (grid t) =
      Some ((grid t)[cursor_row t := typed_row (cols t) (?old @ [x])])"
    using grid_set_ok[OF d(9) d(4) col(2)] by simp
  ultimately have t': "t' = damage (t\<lparr>grid := (grid t)[cursor_row t := typed_row (cols t) (?old @ [x])],
      cursor_col := cursor_col t + 1\<rparr>)"
    using put col(2) inv by (simp add: put_char_def Let_def put_cell_def)
  have core': "core_ok t'"
    using put_char_keeps[OF core, of cw x] put by simp
  have "history t' @ grid t' = (history t @ grid t)[n - 1 := typed_row (cols t) (?old @ [x])]"
    unfolding t' using row(1)[symmetric] by (simp add: list_update_append)
  also have "\<dots> = map (\<lambda>i. typed_row (cols t) (take (cols t) (drop (i * cols t) (w @ [x])))) [0..<max n (rows t)]"
  proof (rule nth_equalityI)
    fix i assume "i < length ((history t @ grid t)[n - 1 := typed_row (cols t) (?old @ [x])])"
    then have i: "i < max n (rows t)" by (simp only: length_list_update typed_at_length[OF t])
    have "take (cols t) (drop (i * cols t) (w @ [x])) =
        (if i = n - 1 then ?old @ [x] else take (cols t) (drop (i * cols t) w))"
    proof -
      consider "i < n - 1" | "i = n - 1" | "n \<le> i" by linarith
      then show ?thesis
      proof cases
        case 1
        then have "Suc i * cols t \<le> (n - 1) * cols t" by (intro mult_le_mono1) simp
        with 1 n(2) show ?thesis by simp
      next
        case 2
        with n(2) col show ?thesis by simp
      next
        case 3
        then have "n * cols t \<le> i * cols t" by (rule mult_le_mono1)
        with 3 n(1) room have "length w < i * cols t" "i \<noteq> n - 1" by linarith+
        then show ?thesis by simp
      qed
    qed
    then show "(history t @ grid t)[n - 1 := typed_row (cols t) (?old @ [x])] ! i =
        map (\<lambda>i. typed_row (cols t) (take (cols t) (drop (i * cols t) (w @ [x])))) [0..<max n (rows t)] ! i"
      using i t by (simp add: typed_at_def nth_list_update)
  qed (simp only: length_list_update typed_at_length[OF t] length_map length_upt)
  finally have lines: "history t' @ grid t' =
      map (\<lambda>i. typed_row (cols t) (take (cols t) (drop (i * cols t) (w @ [x])))) [0..<max n (rows t)]" .
  have cc: "cursor_col t = length w - (n - 1) * cols t" using t by (simp add: typed_at_def)
  have "cursor_col t' = Suc (cursor_col t)" by (simp add: t')
  then have "cursor_col t' = length (w @ [x]) - (n - 1) * cols t"
    unfolding cc using Suc_diff_le[OF n(2)] by simp
  moreover have "cols t' = cols t" "rows t' = rows t" "cursor_row t' = cursor_row t" "scroll_top t' = scroll_top t"
    "scroll_bottom t' = scroll_bottom t" "alternate_screen t' = alternate_screen t" "template t' = template t"
    "history_wrapped t' = history_wrapped t" "grid_wrapped t' = grid_wrapped t"
    by (simp_all add: t')
  ultimately show ?thesis
    using t core' lines n room unfolding typed_at_def by simp
qed

lemma typed_wrap:
  assumes t: "typed_at n w t" and full: "length w = n * cols t" and room: "n + 1 \<le> rows t + history_limit t"
  shows "\<exists>t'. wrap_line t = Some t' \<and> typed_at (n + 1) w t'"
proof -
  have core: "core_ok t" and n: "1 \<le> n" using t by (simp_all add: typed_at_def)
  note d = core_okD[OF core] and row = typed_at_row(1)[OF t]
  define u where "u = t\<lparr>grid_wrapped := (grid_wrapped t)[cursor_row t := True], cursor_col := 0\<rparr>"
  have wrap: "wrap_line t = line_feed u" using d(4,7) by (simp add: wrap_line_def u_def)
  have u: "core_ok u" "rows u = rows t" "cols u = cols t" "cursor_row u = cursor_row t" "cursor_col u = 0"
    "history u = history t" "grid u = grid t" "scroll_top u = 0" "scroll_bottom u = rows t"
    "\<not> alternate_screen u" "template u = default_cell" "history_limit u = history_limit t"
    "history_wrapped u = history_wrapped t"
    using t by (auto simp: u_def typed_at_def core_ok_def)
  have lines: "history u @ grid u =
      map (\<lambda>i. typed_row (cols t) (take (cols t) (drop (i * cols t) w))) [0..<max n (rows t)]"
    using t by (simp add: u typed_at_def)
  have "history_wrapped u @ grid_wrapped u = (history_wrapped t @ grid_wrapped t)[n - 1 := True]"
    using row[symmetric] core by (simp add: u_def core_ok_def list_update_append)
  also have "\<dots> = map (\<lambda>i. Suc i < n + 1) [0..<max n (rows t)]"
    using t n by (intro nth_equalityI) (auto simp: typed_at_def nth_list_update)
  finally have flags: "history_wrapped u @ grid_wrapped u = map (\<lambda>i. Suc i < n + 1) [0..<max n (rows t)]" .
  show ?thesis
  proof (cases "n < rows t")
    case True
    then have cr: "cursor_row t = n - 1" using t by (simp add: typed_at_def)
    have "core_ok (u\<lparr>cursor_row := n\<rparr>)" using u(1,2) True by (simp add: core_ok_def)
    then have "typed_at (n + 1) w (u\<lparr>cursor_row := n\<rparr>)"
      using True u full n lines flags by (simp add: typed_at_def max_def)
    moreover have "line_feed u = Some (u\<lparr>cursor_row := n\<rparr>)"
      using True u n cr by (simp add: line_feed_def)
    ultimately show ?thesis using wrap by auto
  next
    case False
    then have cr: "cursor_row t = rows t - 1" using t n by (simp add: typed_at_def)
    have main: "main_scroll u" using u d(1) by (simp add: main_scroll_def term_ok_def)
    from scroll_up_once_window[OF main] obtain v where v: "scroll_up_once u = Some v" "main_scroll v"
      "rows v = rows t" "cols v = cols t" "template v = default_cell" "history_limit v = history_limit t"
      and lv: "history v @ grid v = window (history_limit t + rows t)
        ((history u @ grid u) @ [replicate (cols t) (blank u)])"
      and fv: "history_wrapped v @ grid_wrapped v = window (history_limit t + rows t)
        ((history_wrapped u @ grid_wrapped u) @ [False])"
      using u by auto
    have cv: "cursor_row v = cursor_row t" "cursor_col v = 0"
      using scroll_up_once_keeps[OF u(1)] v(1) u d(1) by auto
    have m: "max n (rows t) = n" using False by simp
    have "blank u = default_cell" using u by (simp add: blank_def default_cell_def)
    then have "history v @ grid v =
        map (\<lambda>i. typed_row (cols t) (take (cols t) (drop (i * cols t) w))) [0..<n + 1]"
      unfolding lv lines m using room full by (simp add: window_id typed_row_def)
    moreover have "history_wrapped v @ grid_wrapped v = map (\<lambda>i. Suc i < n + 1) [0..<n + 1]"
      unfolding fv flags m using room by (simp add: window_id)
    ultimately have "typed_at (n + 1) w v"
      using v cv cr False full n by (auto simp: typed_at_def main_scroll_def term_ok_def max_def)
    then have "typed_at (n + 1) w (damage (push_event (GridScroll 1) v))"
      by (simp add: typed_at_def)
    moreover have "line_feed u = Some (damage (push_event (GridScroll 1) v))"
      using u v(1) cr d(1) by (simp add: line_feed_def scroll_region_up_def Let_def)
    ultimately show ?thesis using wrap by auto
  qed
qed

definition typed_lines :: "nat \<Rightarrow> uchar list \<Rightarrow> nat" where
  "typed_lines c w = (length w - 1) div c + 1"

lemma typed_lines_snoc:
  assumes "1 \<le> c"
  shows "typed_lines c (w @ [x]) = (if length w = typed_lines c w * c then typed_lines c w + 1 else typed_lines c w)"
    and "length w \<le> typed_lines c w * c"
proof -
  show "length w \<le> typed_lines c w * c"
    using assms dividend_less_times_div[of c "length w - 1"] by (simp add: typed_lines_def algebra_simps)
  show "typed_lines c (w @ [x]) = (if length w = typed_lines c w * c then typed_lines c w + 1 else typed_lines c w)"
  proof (cases w)
    case Nil
    with assms show ?thesis by (simp add: typed_lines_def)
  next
    case (Cons a v)
    have "Suc (length v) div c = (if c dvd Suc (length v) then Suc (length v div c) else length v div c)"
      using assms by (simp add: div_Suc dvd_eq_mod_eq_0)
    moreover have "c dvd Suc (length v) \<longleftrightarrow> Suc (length v) = (length v div c + 1) * c"
    proof
      assume "c dvd Suc (length v)"
      then obtain k where k: "Suc (length v) = c * k" by auto
      then have "length v = c * (k - 1) + (c - 1)" using assms by (cases k) auto
      then have "length v div c = k - 1" using assms by (intro div_nat_eqI) (auto simp: algebra_simps)
      with k show "Suc (length v) = (length v div c + 1) * c" by (cases k) auto
    qed (metis dvd_triv_right)
    moreover have "typed_lines c w = length v div c + 1"
      "typed_lines c (w @ [x]) = Suc (length v) div c + 1" "length w = Suc (length v)"
      using Cons by (simp_all add: typed_lines_def)
    ultimately show ?thesis by (simp only: if_distrib[of "\<lambda>k. k + 1"]) simp
  qed
qed

lemma typed_run:
  assumes "1 \<le> r" "1 \<le> c"
  shows "list_all (\<lambda>x. cw x = Some 1) w \<Longrightarrow> typed_lines c w \<le> r + limit \<Longrightarrow>
    \<exists>t. run_ops (handle cw) (map Input w) (terminal_new r c limit) = Some t \<and>
      typed_at (typed_lines c w) w t \<and> rows t = r \<and> cols t = c \<and> history_limit t = limit"
proof (induction w rule: rev_induct)
  case Nil
  have "rows (terminal_new r c limit) = r" "cols (terminal_new r c limit) = c"
    "history_limit (terminal_new r c limit) = limit"
    using assms by (auto simp: terminal_new_def Let_def)
  with typed_new[OF assms] show ?case by (simp add: typed_lines_def)
next
  case (snoc x w)
  note n = typed_lines_snoc[OF assms(2), of w]
  have "typed_lines c w \<le> r + limit" using snoc.prems(2) n(1)[of x] by (simp split: if_splits)
  with snoc obtain t where t: "run_ops (handle cw) (map Input w) (terminal_new r c limit) = Some t"
    "typed_at (typed_lines c w) w t" "rows t = r" "cols t = c" "history_limit t = limit" by auto
  have core: "core_ok t" using t(2) by (simp add: typed_at_def)
  have cw: "cw x = Some 1" using snoc.prems(1) by simp
  from put_char_keeps[OF core, of cw x] obtain t' where
    t': "put_char cw x t = Some t'" "core_ok t'" "same_frame t t'" by (auto simp: keeps_def)
  have lim: "history_limit t' = history_limit t"
    using put_char_behind[OF t'(1)] by (simp add: behind_def)
  have "typed_at (typed_lines c (w @ [x])) (w @ [x]) t'"
  proof (cases "length w = typed_lines c w * c")
    case True
    then have "typed_lines c w + 1 \<le> r + limit" using snoc.prems(2) n(1)[of x] by simp
    with typed_wrap[OF t(2)] t(3-5) True obtain u where
      u: "wrap_line t = Some u" "typed_at (typed_lines c w + 1) w u" by auto
    then have cu: "cols u = c" using wrap_line_behind[OF u(1)] t(4) by (simp add: behind_def)
    have "cursor_col u = length w - typed_lines c w * cols u" using u(2) by (simp add: typed_at_def)
    then have "cursor_col u < cols u" using True cu assms(2) by simp
    moreover have "cursor_col t = length w - (typed_lines c w - 1) * cols t"
      using t(2) by (simp add: typed_at_def)
    then have "cols t \<le> cursor_col t"
      unfolding True t(4) by (simp add: typed_lines_def diff_mult_distrib)
    ultimately have "put_char cw x u = Some t'" using t'(1) cw u(1) by (simp add: put_char_def)
    from typed_put[OF u(2) _ this cw] n(1)[of x] True cu assms(2) show ?thesis by simp
  next
    case False
    with n t(4) have "length w < typed_lines c w * cols t" by simp
    from typed_put[OF t(2) this t'(1) cw] n(1)[of x] False show ?thesis by simp
  qed
  with t t' lim show ?case by (auto simp: run_ops_append same_frame_def)
qed

section \<open>Reading it back\<close>

lemma row_text_typed:
  "row_text (typed_row c xs) (length xs) k = drop k xs"
proof (induction "length xs - k" arbitrary: k)
  case 0
  then show ?case by (subst row_text.simps) simp
next
  case (Suc n)
  then have k: "k < length xs" and IH: "row_text (typed_row c xs) (length xs) (k + 1) = drop (k + 1) xs"
    by auto
  have "typed_row c xs ! k = typed_cell (xs ! k)" using k by (simp add: typed_row_def nth_append)
  with k IH show ?case
    by (subst row_text.simps) (simp add: typed_cell_def default_cell_def Cons_nth_drop_Suc)
qed

lemma row_end_typed:
  assumes "list_all (\<lambda>x. x \<noteq> space) xs" and "length xs \<le> c"
  shows "row_end (typed_row c xs) = length xs"
proof -
  have blank: "\<forall>v\<in>set (replicate k default_cell). \<not> cell_shown v" for k
    by (simp add: cell_shown_def default_cell_def)
  show ?thesis
  proof (cases xs rule: rev_cases)
    case Nil
    have "position cell_shown (replicate c default_cell) = None"
      using blank by (simp add: position_None_iff)
    with Nil show ?thesis by (simp add: row_end_def typed_row_def)
  next
    case (snoc ys y)
    have "cell_shown (typed_cell y)" using assms(1) snoc by (simp add: cell_shown_def typed_cell_def)
    then have "position cell_shown (rev (typed_row c xs)) = Some (c - length xs)"
      using position_append_first[OF blank, of "typed_cell y" "c - length xs" "rev (map typed_cell ys)"] snoc
      by (simp add: typed_row_def)
    with assms(2) show ?thesis by (simp add: row_end_def typed_row_def)
  qed
qed

definition line_piece :: "nat \<Rightarrow> nat \<Rightarrow> uchar list \<Rightarrow> nat \<Rightarrow> uchar list" where
  "line_piece c n w i = (if 0 < i \<and> \<not> i < n then [10] else []) @ take c (drop (i * c) w)"

lemma extract_typed:
  assumes t: "typed_at n w t" and w: "list_all (\<lambda>x. x \<noteq> space) w"
    and prev: "k = 0 \<or> wrapped = (k < n)" and k: "k \<le> max n (rows t)"
  shows "extract_lines t (- int (length (history t))) [k..<max n (rows t)] acc wrapped =
    acc @ concat (map (line_piece (cols t) n w) [k..<max n (rows t)])"
  using prev k
proof (induction "max n (rows t) - k" arbitrary: k acc wrapped)
  case 0
  then show ?case by simp
next
  case (Suc d)
  let ?m = "max n (rows t)"
  let ?row = "typed_row (cols t) (take (cols t) (drop (k * cols t) w))"
  have k: "k < ?m" and upt: "[k..<?m] = k # [Suc k..<?m]" using Suc.hyps(2) by (auto simp: upt_conv_Cons)
  have line: "viewport_line (- int (length (history t)) + int k) t = Some ?row"
    using viewport_line_abs[of k t] typed_at_length[OF t] typed_at_line[OF t k] k by (simp add: add.commute)
  have core: "core_ok t" and flags: "history_wrapped t @ grid_wrapped t = map (\<lambda>i. Suc i < n) [0..<?m]"
    using t by (simp_all add: typed_at_def)
  have wr: "line_wrapped (- int (length (history t)) + int k) t = Some (Suc k < n)"
    using line_wrapped_abs[of t k] core k flags
    by (simp add: core_ok_def add.commute)
  have "list_all (\<lambda>x. x \<noteq> space) (take (cols t) (drop (k * cols t) w))"
    using w by (auto simp: list_all_iff dest!: in_set_takeD in_set_dropD)
  then have app: "append_row_text u (take (cols t) ?row) = u @ take (cols t) (drop (k * cols t) w)" for u
    using row_end_typed[of "take (cols t) (drop (k * cols t) w)" "cols t"]
      row_text_typed[of "cols t" "take (cols t) (drop (k * cols t) w)" 0]
    by (simp add: append_row_text_def typed_row_def)
  have nl: "(if 0 < k \<and> \<not> wrapped then acc @ [10] else acc) = acc @ (if 0 < k \<and> \<not> k < n then [10] else [])"
    using Suc.prems(1) by auto
  have step: "extract_lines t (- int (length (history t))) (k # rest) acc wrapped =
      extract_lines t (- int (length (history t))) rest (acc @ line_piece (cols t) n w k) (Suc k < n)" for rest
    unfolding extract_lines.simps Let_def line wr option.case app nl line_piece_def by simp
  have "extract_lines t (- int (length (history t))) [Suc k..<?m] (acc @ line_piece (cols t) n w k) (Suc k < n) =
      (acc @ line_piece (cols t) n w k) @ concat (map (line_piece (cols t) n w) [Suc k..<?m])"
    using Suc.hyps(2) k by (intro Suc.hyps(1)) auto
  then show ?case unfolding upt step by simp
qed

lemma concat_pieces:
  assumes "1 \<le> n" and "length w \<le> n * c"
  shows "concat (map (line_piece c n w) [0..<max n r]) = w @ replicate (r - n) 10"
proof -
  have full: "concat (map (line_piece c n w) [0..<k]) = take (k * c) w" if "k \<le> n" for k
    using that
  proof (induction k)
    case (Suc k)
    moreover have "take (Suc k * c) w = take (k * c) w @ take c (drop (k * c) w)"
      using take_add[of "k * c" c w] by (simp add: add.commute)
    ultimately show ?case by (simp add: line_piece_def)
  qed simp
  have blank: "concat (map (line_piece c n w) [n..<n + j]) = replicate j 10" for j
  proof (induction j)
    case (Suc j)
    have "length w \<le> (n + j) * c" using assms(2) by (simp add: algebra_simps)
    with Suc assms(1) show ?case by (simp add: line_piece_def replicate_append_same)
  qed simp
  have "[0..<max n r] = [0..<n] @ [n..<n + (r - n)]"
    using upt_add_eq_append[of 0 n "r - n"] by (cases "n \<le> r") (simp_all add: max_def)
  then show ?thesis using full[of n] blank[of "r - n"] assms(2) by simp
qed

text \<open>
  C20. Text typed into a fresh pane is read back exactly as long as its lines fit the screen and the
  scrollback together: characters of width one other than the space, filling at most as many rows as
  the screen has and the history may hold, wrap softly and scroll into the history, and extracting all
  lines joins them again; only the blank rows below add their newlines. (Beyond that the history drops
  its oldest rows.)
\<close>

theorem typed_text_reads_back:
  assumes "1 \<le> r" "1 \<le> c" and "list_all (\<lambda>x. cw x = Some 1 \<and> x \<noteq> space) w"
    and "typed_lines c w \<le> r + limit"
  shows "\<exists>t. run_ops (handle cw) (map Input w) (terminal_new r c limit) = Some t \<and>
    latest_text (r + limit) t = w @ replicate (r - typed_lines c w) 10"
proof -
  let ?n = "typed_lines c w"
  have w: "list_all (\<lambda>x. cw x = Some 1) w" "list_all (\<lambda>x. x \<noteq> space) w"
    using assms(3) by (auto simp: list_all_iff)
  from typed_run[OF assms(1,2) w(1) assms(4)] obtain t where
    t: "run_ops (handle cw) (map Input w) (terminal_new r c limit) = Some t" "typed_at ?n w t"
    "rows t = r" "cols t = c" by blast
  have core: "core_ok t" using t(2) by (simp add: typed_at_def)
  have len: "length (history t) + r = max ?n r"
    using typed_at_length[OF t(2)] core_okD(3)[OF core] t(3) by simp
  have n: "1 \<le> ?n" "length w \<le> ?n * c"
    using typed_lines_snoc(2)[OF assms(2)] by (auto simp: typed_lines_def)
  have "min (r + limit) (length (history t) + r) = max ?n r" using len assms(4) by simp
  then have "latest_text (r + limit) t =
      extract_lines t (- int (length (history t))) [0..<max ?n r] [] False"
    using t(3) len by (simp add: latest_text_def extract_rows_def Let_def)
  also have "\<dots> = w @ replicate (r - ?n) 10"
    using extract_typed[OF t(2) w(2), of 0 False "[]"] concat_pieces[OF n] t(3,4) by simp
  finally show ?thesis using t(1) by blast
qed

theorem typed_text_reads_back_witness:
  "\<exists>t. run_ops (handle (\<lambda>_. Some 1)) (map Input [97, 98, 99, 100, 101]) (terminal_new 2 2 5) = Some t \<and>
    latest_text 7 t = [97, 98, 99, 100, 101]"
  using typed_text_reads_back[of 2 2 "\<lambda>_. Some 1" "[97, 98, 99, 100, 101]" 5]
  by (simp add: typed_lines_def space_def)

text \<open>
  A space in the last column of a soft-wrapped row is lost when the text is read back: the
  row's trailing blanks are cut although the line goes on, so the words around it are joined.
\<close>

theorem wrapped_space_is_lost:
  "\<exists>t. run_ops (handle (\<lambda>_. Some 1)) (map Input [97, 98, 32, 99, 100]) (terminal_new 2 3 5) = Some t \<and>
    latest_text 7 t = [97, 98, 99, 100]"
proof -
  have "map_option (latest_text 7)
      (run_ops (handle (\<lambda>_. Some 1)) (map Input [97, 98, 32, 99, 100]) (terminal_new 2 3 5)) =
      Some [97, 98, 99, 100]" by code_simp
  then show ?thesis by (auto simp: map_option_eq_Some)
qed

end
