(* ===== verification/Text_Encoding.thy ===== *)
theory Text_Encoding
  imports Prelude
begin

text \<open>UTF-8, as \<open>char::encode_utf8\<close> and \<open>String::into_bytes\<close> write it.\<close>

definition utf8 :: "uchar \<Rightarrow> bytes" where
  "utf8 c =
     (if c < 128 then [of_nat c]
      else if c < 2048 then [of_nat (192 + c div 64), of_nat (128 + c mod 64)]
      else if c < 65536
      then [of_nat (224 + c div 4096), of_nat (128 + c div 64 mod 64), of_nat (128 + c mod 64)]
      else [of_nat (240 + c div 262144), of_nat (128 + c div 4096 mod 64),
            of_nat (128 + c div 64 mod 64), of_nat (128 + c mod 64)])"

definition encode_utf8 :: "uchar list \<Rightarrow> bytes" where
  "encode_utf8 cs = concat (map utf8 cs)"

end
