(* ===== verification/Session_Copy.thy ===== *)
theory Session_Copy
  imports Session_Actor Terminal_Text Text_Encoding
begin

text \<open>
  Input to a pane, copy mode and paste (\<open>src/src/session.rs\<close>, lines 2379 to 2395, 3843 to 3946,
  4498 to 4530 and 4750 to 4811). The copy buffer holds bytes: the selected text in UTF-8.
\<close>

section \<open>Text of a selection\<close>

definition trim_spaces :: "uchar list \<Rightarrow> uchar list" where
  "trim_spaces row = rev (dropWhile (\<lambda>c. c = space) (rev row))"

text \<open>One line of the selection; the columns are clipped to the line.\<close>

definition selection_row ::
    "int \<times> nat \<Rightarrow> int \<times> nat \<Rightarrow> int \<Rightarrow> cell list \<Rightarrow> uchar list" where
  "selection_row start fin line cells =
     (let first = (if line = fst start then snd start else 0);
          final = (if line = fst fin then snd fin + 1 else length cells)
      in trim_spaces (row_text cells (min final (length cells)) (min first (length cells))))"

definition selection_line ::
    "terminal \<Rightarrow> int \<times> nat \<Rightarrow> int \<times> nat \<Rightarrow> int \<Rightarrow> uchar list" where
  "selection_line t start fin line =
     (case viewport_line line t of
        None \<Rightarrow> []
      | Some cells \<Rightarrow>
          selection_row start fin line cells @
          (if line \<noteq> fst fin \<and> line_wrapped line t \<noteq> Some True then [10] else []))"

definition extract_selection :: "terminal \<Rightarrow> int \<times> nat \<Rightarrow> int \<times> nat \<Rightarrow> bytes" where
  "extract_selection t a b =
     (let before = fst a < fst b \<or> fst a = fst b \<and> snd a \<le> snd b;
          start = (if before then a else b);
          fin = (if before then b else a)
      in encode_utf8 (concat (map (selection_line t start fin) [fst start..fst fin])))"

section \<open>Input to a pane\<close>

definition report_input_failure ::
    "'v world \<Rightarrow> pane_id \<Rightarrow> input_failure option \<Rightarrow> 'v session \<Rightarrow> 'v session option" where
  "report_input_failure w p failure s =
     (case failure of
        None \<Rightarrow> Some s
      | Some f \<Rightarrow>
          let s1 = (if fail_warn f then status (pane_message p ''input queue is unavailable'') s
                    else s)
          in if fail_close f then close_pane w p s1 else Some s1)"

definition queue_pane_input ::
    "'v world \<Rightarrow> pane_id \<Rightarrow> bytes \<Rightarrow> 'v session \<Rightarrow> input_failure option \<times> 'v session" where
  "queue_pane_input w p bs s =
     (case queue_input w p bs of
        None \<Rightarrow> (None, emit (PaneInput p bs) s) | Some f \<Rightarrow> (Some f, s))"

definition send_pane_input ::
    "'v world \<Rightarrow> pane_id \<Rightarrow> bytes \<Rightarrow> 'v session \<Rightarrow> 'v session option" where
  "send_pane_input w p bs s =
     (case pane_get p s of
        None \<Rightarrow> Some s
      | Some _ \<Rightarrow> (case queue_pane_input w p bs s of (f, s1) \<Rightarrow> report_input_failure w p f s1))"

section \<open>Copy mode\<close>

definition key_up :: bytes where "key_up = esc # ascii ''[A''"
definition key_down :: bytes where "key_down = esc # ascii ''[B''"
definition key_right :: bytes where "key_right = esc # ascii ''[C''"
definition key_left :: bytes where "key_left = esc # ascii ''[D''"
definition key_page_up :: bytes where "key_page_up = esc # ascii ''[5~''"
definition key_page_down :: bytes where "key_page_down = esc # ascii ''[6~''"

definition copy_chord_name :: "bytes \<Rightarrow> string option" where
  "copy_chord_name bs =
     (if bs = key_up then Some ''Up'' else if bs = key_down then Some ''Down''
      else if bs = key_right then Some ''Right'' else if bs = key_left then Some ''Left''
      else if bs = key_page_up then Some ''PageUp''
      else if bs = key_page_down then Some ''PageDown''
      else if bs = [32] then Some ''Space''
      else if bs = [13] \<or> bs = [10] then Some ''Enter''
      else if bs = ascii ''q'' then Some ''q''
      else if bs = [esc] then Some ''Escape'' else None)"

definition copy_action_bytes :: "string \<Rightarrow> bytes option" where
  "copy_action_bytes action =
     (if action = ''up'' then Some key_up else if action = ''down'' then Some key_down
      else if action = ''left'' then Some key_left
      else if action = ''right'' then Some key_right
      else if action = ''page-up'' then Some key_page_up
      else if action = ''page-down'' then Some key_page_down
      else if action = ''start-selection'' then Some [32]
      else if action = ''copy'' then Some [13]
      else if action = ''cancel'' then Some (ascii ''q'') else None)"

definition remap_copy_key :: "(string \<rightharpoonup> string) \<Rightarrow> bytes \<Rightarrow> bytes" where
  "remap_copy_key keys bs =
     (case Option.bind (Option.bind (copy_chord_name bs) keys) copy_action_bytes of
        None \<Rightarrow> bs | Some mapped \<Rightarrow> mapped)"

definition copy_here :: "copy_state \<Rightarrow> int \<times> nat" where
  "copy_here c = (int (copy_row c) - int (copy_offset c), copy_column c)"

text \<open>What a key leaves of copy mode; the copied text is taken separately.\<close>

definition copy_key :: "terminal \<Rightarrow> bytes \<Rightarrow> copy_state \<Rightarrow> copy_state option" where
  "copy_key t bs c =
     (let history_len = length (history t) in
      if bs = ascii ''q'' \<or> bs = [esc] then None
      else if bs = key_up then
        Some (if copy_row c = 0 then c\<lparr>copy_offset := min (copy_offset c + 1) history_len\<rparr>
              else c\<lparr>copy_row := copy_row c - 1\<rparr>)
      else if bs = key_down then
        Some (if rows t \<le> copy_row c + 1 \<and> 0 < copy_offset c
              then c\<lparr>copy_offset := copy_offset c - 1\<rparr>
              else c\<lparr>copy_row := min (copy_row c + 1) (rows t - 1)\<rparr>)
      else if bs = key_right then Some (c\<lparr>copy_column := min (copy_column c + 1) (cols t - 1)\<rparr>)
      else if bs = key_left then Some (c\<lparr>copy_column := copy_column c - 1\<rparr>)
      else if bs = key_page_up then
        Some (c\<lparr>copy_offset := min (copy_offset c + rows t) history_len\<rparr>)
      else if bs = key_page_down then Some (c\<lparr>copy_offset := copy_offset c - rows t\<rparr>)
      else if bs = [32] then Some (c\<lparr>copy_selection := Some (copy_here c)\<rparr>)
      else if bs = [13] \<or> bs = [10] then None
      else Some c)"

definition copied_text :: "terminal \<Rightarrow> copy_state \<Rightarrow> bytes" where
  "copied_text t c =
     take copy_buffer_limit
       (extract_selection t
          (case copy_selection c of None \<Rightarrow> (- int (copy_offset c), 0) | Some a \<Rightarrow> a)
          (copy_here c))"

definition copy_view :: "copy_state option \<Rightarrow> nat" where
  "copy_view c = (case c of None \<Rightarrow> 0 | Some c \<Rightarrow> copy_offset c)"

definition take_copy :: "terminal \<Rightarrow> bytes \<Rightarrow> copy_state \<Rightarrow> 'v session \<Rightarrow> 'v session" where
  "take_copy t bs c s =
     (if bs = [13] \<or> bs = [10]
      then to_client (SentClipboard (copied_text t c)) (s\<lparr>copy_buffer := copied_text t c\<rparr>) else s)"

definition copy_input :: "pane_id \<Rightarrow> bytes \<Rightarrow> 'v session \<Rightarrow> 'v session" where
  "copy_input p raw s =
     (let bs = remap_copy_key (copy_keys (config s)) raw in
      case pane_get p s of
        None \<Rightarrow> s
      | Some v \<Rightarrow>
          (case pane_copy v of
             None \<Rightarrow> s
           | Some c \<Rightarrow>
               let c' = copy_key (pane_terminal v) bs c;
                   s1 = take_copy (pane_terminal v) bs c
                          (pane_update p (\<lambda>v. v\<lparr>pane_copy := c'\<rparr>) s);
                   s2 = (if Some c \<noteq> c' then mark_pane_screen_change p None s1 else s1)
               in if copy_view (Some c) \<noteq> copy_view c' then projection_changed s2
                  else schedule_render s2))"

definition pane_input :: "'v world \<Rightarrow> bytes \<Rightarrow> 'v session \<Rightarrow> 'v session option" where
  "pane_input w bs s =
     (case active_tab s of
        None \<Rightarrow> Some s
      | Some t \<Rightarrow>
          let p = tab_focused t in
          case pane_get p s of
            None \<Rightarrow> Some s
          | Some v \<Rightarrow>
              if pane_copy v \<noteq> None then Some (copy_input p bs s)
              else (case queue_pane_input w p bs s of
                      (f, s1) \<Rightarrow> report_input_failure w p f s1))"

section \<open>Paste\<close>

definition paste_start :: bytes where "paste_start = esc # ascii ''[200~''"
definition paste_end :: bytes where "paste_end = esc # ascii ''[201~''"
definition broken_end :: bytes where "broken_end = esc # ascii ''[201;~''"

function sanitize_bracketed_paste :: "bytes \<Rightarrow> bytes" where
  "sanitize_bracketed_paste bs =
     (case find_bytes bs paste_end of
        None \<Rightarrow> bs
      | Some at \<Rightarrow>
          take at bs @ broken_end @
          sanitize_bracketed_paste (drop (at + length paste_end) bs))"
  by pat_completeness auto
termination
  by (relation "measure length") (auto simp: paste_end_def dest: find_bytes_bound)

declare sanitize_bracketed_paste.simps [simp del]

definition paste_bytes :: "bool \<Rightarrow> bytes \<Rightarrow> bytes" where
  "paste_bytes bracketed buffer =
     (if bracketed then paste_start @ sanitize_bracketed_paste buffer @ paste_end else buffer)"

definition paste :: "'v world \<Rightarrow> 'v session \<Rightarrow> 'v session option" where
  "paste w s =
     (case active_tab s of
        None \<Rightarrow> Some s
      | Some t \<Rightarrow>
          let bracketed = (case pane_get (tab_focused t) s of None \<Rightarrow> False
                | Some v \<Rightarrow> bracketed_paste (modes (pane_terminal v)))
          in send_pane_input w (tab_focused t) (paste_bytes bracketed (copy_buffer s)) s)"

end
