(* ===== verification/Session_Pointer.thy ===== *)
theory Session_Pointer
  imports Session_Copy
begin

text \<open>
  Pointer events (\<open>src/src/session.rs\<close>, lines 2397 to 2715): hit testing, starting, following and
  ending drags of tiled boundaries and floats, and the reports sent to applications.
\<close>

unbundle bit_operations_syntax

section \<open>Dragging a boundary\<close>

definition boundary_candidate ::
    "axis \<Rightarrow> nat \<Rightarrow> bool \<Rightarrow> (pane_id \<times> rect) list \<Rightarrow> (pane_id \<times> direction) option" where
  "boundary_candidate ax boundary positive placed =
     (case ax of
        Vertical \<Rightarrow>
          if positive
          then map_option (\<lambda>(p, _). (p, DRight))
                 (List.find (\<lambda>(_, r). add16 (rect_x r) (rect_width r) = boundary) placed)
          else map_option (\<lambda>(p, _). (p, DLeft)) (List.find (\<lambda>(_, r). rect_x r = boundary) placed)
      | Horizontal \<Rightarrow>
          if positive
          then map_option (\<lambda>(p, _). (p, DDown))
                 (List.find (\<lambda>(_, r). add16 (rect_y r) (rect_height r) = boundary) placed)
          else map_option (\<lambda>(p, _). (p, DUp)) (List.find (\<lambda>(_, r). rect_y r = boundary) placed))"

text \<open>On the tree of the active tab; \<open>None\<close> is a panic of the placement.\<close>

definition resize_boundary ::
    "rect \<Rightarrow> axis \<Rightarrow> nat \<Rightarrow> bool \<Rightarrow> tiled_node option \<Rightarrow> (bool \<times> tiled_node option) option" where
  "resize_boundary area ax boundary positive tree =
     (case tree of
        None \<Rightarrow> Some (False, None)
      | Some t \<Rightarrow>
          (case geometry t area of
             None \<Rightarrow> None
           | Some placed \<Rightarrow>
               (case boundary_candidate ax boundary positive placed of
                  None \<Rightarrow> Some (False, Some t)
                | Some (p, d) \<Rightarrow>
                    map_option (\<lambda>(t', changed). (changed, Some t')) (node_resize t p d area))))"

text \<open>The two loops of a boundary drag: one cell per turn until the pointer or a refusal.\<close>

function drag_up ::
    "rect \<Rightarrow> axis \<Rightarrow> nat \<Rightarrow> nat \<Rightarrow> nat \<Rightarrow> tiled_node option \<Rightarrow> bool \<Rightarrow>
     (nat \<times> nat \<times> tiled_node option \<times> bool) option" where
  "drag_up area ax current boundary lst tree changed =
     (if lst < current
      then (case resize_boundary area ax boundary True tree of
              None \<Rightarrow> None
            | Some (False, tree') \<Rightarrow> Some (boundary, lst, tree', changed)
            | Some (True, tree') \<Rightarrow>
                drag_up area ax current (add16 boundary 1) (lst + 1) tree' True)
      else Some (boundary, lst, tree, changed))"
  by pat_completeness auto
termination by (relation "measure (\<lambda>(_, _, current, _, lst, _, _). current - lst)") auto

fun drag_down ::
    "rect \<Rightarrow> axis \<Rightarrow> nat \<Rightarrow> nat \<Rightarrow> nat \<Rightarrow> tiled_node option \<Rightarrow> bool \<Rightarrow>
     (nat \<times> nat \<times> tiled_node option \<times> bool) option" where
  "drag_down area ax current boundary 0 tree changed = Some (boundary, 0, tree, changed)"
| "drag_down area ax current boundary (Suc lst) tree changed =
     (if current < Suc lst
      then (case resize_boundary area ax boundary False tree of
              None \<Rightarrow> None
            | Some (False, tree') \<Rightarrow> Some (boundary, Suc lst, tree', changed)
            | Some (True, tree') \<Rightarrow>
                drag_down area ax current (boundary - 1) lst tree' True)
      else Some (boundary, Suc lst, tree, changed))"

declare drag_up.simps [simp del] drag_down.simps [simp del]

definition drag_boundary ::
    "rect \<Rightarrow> axis \<Rightarrow> nat \<Rightarrow> nat \<Rightarrow> nat \<Rightarrow> tiled_node option \<Rightarrow>
     (nat \<times> nat \<times> tiled_node option \<times> bool) option" where
  "drag_boundary area ax current boundary lst tree =
     do { (b1, l1, tree1, c1) \<leftarrow> drag_up area ax current boundary lst tree False;
          drag_down area ax current b1 l1 tree1 c1 }"

definition drag_axis_position :: "axis \<Rightarrow> mouse_event \<Rightarrow> nat" where
  "drag_axis_position ax m = (case ax of Vertical \<Rightarrow> mouse_x m | Horizontal \<Rightarrow> mouse_y m)"

text \<open>The moved tab, the updated drag and whether anything changed.\<close>

definition follow_drag ::
    "rect \<Rightarrow> mouse_event \<Rightarrow> pointer_drag \<Rightarrow> tab \<Rightarrow> (bool \<times> pointer_drag \<times> tab) option" where
  "follow_drag area m drag t =
     (case drag of
        TiledBoundary tid ax boundary lst original \<Rightarrow>
          map_option (\<lambda>(b, l, tree, changed).
              (changed, TiledBoundary tid ax b l original, t\<lparr>tab_tree := tree\<rparr>))
            (drag_boundary area ax (drag_axis_position ax m) boundary lst (tab_tree t))
      | MoveFloat tid p start original \<Rightarrow>
          let (changed, t') = on_layer (layer_move_from p original
                (int (mouse_x m) - int (fst start)) (int (mouse_y m) - int (snd start)) area) t
          in Some (changed, drag, t')
      | ResizeFloat tid p edges start original \<Rightarrow>
          let (changed, t') = on_layer (layer_resize_from p original edges
                (int (mouse_x m) - int (fst start)) (int (mouse_y m) - int (snd start)) area) t
          in Some (changed, drag, t'))"

definition update_pointer_drag ::
    "'v world \<Rightarrow> mouse_event \<Rightarrow> 'v session \<Rightarrow> 'v session option" where
  "update_pointer_drag w m s =
     (case cur_drag s of
        None \<Rightarrow> Some s
      | Some drag \<Rightarrow>
          (case active_tab s of
             None \<Rightarrow> cancel_pointer_drag w True s
           | Some t \<Rightarrow>
               if tab_id t \<noteq> drag_tab drag then cancel_pointer_drag w True s
               else
                 (case follow_drag (content_area s) m drag t of
                    None \<Rightarrow> None
                  | Some (changed, drag', t') \<Rightarrow>
                      let s1 = (update_active (\<lambda>_. t') s)\<lparr>cur_drag := Some drag'\<rparr>
                      in if changed
                         then relayout w (if drag_pane drag \<noteq> None then s1\<lparr>force_full := True\<rparr> else s1)
                         else Some s1)))"

section \<open>Presses, clicks and the wheel\<close>

definition hit_projection :: "nat \<Rightarrow> nat \<Rightarrow> pane_projection list \<Rightarrow> pane_projection option" where
  "hit_projection px py ps = List.find (\<lambda>p. rect_contains (proj_outer p) px py) (rev ps)"

definition start_float_drag ::
    "float_pointer_target \<Rightarrow> nat \<Rightarrow> pane_id \<Rightarrow> nat \<times> nat \<Rightarrow> rect \<Rightarrow> pointer_drag" where
  "start_float_drag target tid p start r =
     (case target of
        TargetMove \<Rightarrow> MoveFloat tid p start r
      | TargetResize edges \<Rightarrow> ResizeFloat tid p edges start r)"

definition application_mouse :: "mouse_event \<Rightarrow> terminal_modes \<Rightarrow> bool" where
  "application_mouse m md \<longleftrightarrow>
     \<not> mouse_shift m \<and> (mouse_clicks md \<or> mouse_event_kind m = MouseMove \<and> mouse_motion md)"

definition mouse_report :: "mouse_event \<Rightarrow> rect \<Rightarrow> bytes" where
  "mouse_report m c =
     (let b1 = (if mouse_event_kind m = MouseWheel then mouse_button m OR 64 else mouse_button m);
          b2 = (if mouse_event_kind m = MouseMove then b1 OR 32 else b1)
      in esc # ascii ''[<'' @ decimal b2 @ ascii '';'' @ decimal (mouse_x m - rect_x c + 1) @
         ascii '';'' @ decimal (mouse_y m - rect_y c + 1) @
         (if mouse_event_kind m = MouseRelease then ascii ''m'' else ascii ''M''))"

definition fresh_copy :: copy_state where
  "fresh_copy = \<lparr>copy_offset = 0, copy_row = 0, copy_column = 0, copy_selection = None\<rparr>"

text \<open>The wheel, and any click with Shift, scrolls the pane in copy mode.\<close>

definition wheel_copy :: "mouse_event \<Rightarrow> terminal \<Rightarrow> copy_state option \<Rightarrow> copy_state option" where
  "wheel_copy m t before =
     (let c = (case before of None \<Rightarrow> fresh_copy | Some c \<Rightarrow> c) in
      if mouse_button m = 0
      then Some (c\<lparr>copy_offset := min (copy_offset c + 3) (length (history t))\<rparr>)
      else let c' = c\<lparr>copy_offset := copy_offset c - 3\<rparr>
           in if copy_offset c' = 0 \<and> \<not> mouse_shift m then None else Some c')"

definition outside_content :: "nat \<Rightarrow> nat \<Rightarrow> rect \<Rightarrow> bool" where
  "outside_content px py c \<longleftrightarrow>
     px < rect_x c \<or> add16 (rect_x c) (rect_width c) \<le> px \<or>
     py < rect_y c \<or> add16 (rect_y c) (rect_height c) \<le> py"

definition content_mouse ::
    "'v world \<Rightarrow> mouse_event \<Rightarrow> pane_id \<Rightarrow> rect \<Rightarrow> 'v session \<Rightarrow> 'v session option" where
  "content_mouse w m p c s =
     (if outside_content (mouse_x m) (mouse_y m) c then Some (schedule_render s)
      else
        case pane_get p s of
          None \<Rightarrow> Some s
        | Some v \<Rightarrow>
            if application_mouse m (modes (pane_terminal v))
            then send_pane_input w p (mouse_report m c) s
            else if mouse_event_kind m = MouseWheel \<or> mouse_shift m
            then let c' = wheel_copy m (pane_terminal v) (pane_copy v);
                     s1 = pane_update p (\<lambda>v. v\<lparr>pane_copy := c'\<rparr>) s
                 in Some (if copy_view (pane_copy v) \<noteq> copy_view c' then projection_changed s1
                          else schedule_render s1)
            else Some s)"

text \<open>Focus follows the press; a raised float needs a full repaint.\<close>

definition click_focus ::
    "'v world \<Rightarrow> pane_projection \<Rightarrow> pane_id \<Rightarrow> 'v session \<Rightarrow> 'v session option" where
  "click_focus w hit focused s =
     (let p = proj_pane hit in
      if focused \<noteq> p
      then do { s1 \<leftarrow> end_float_mode w True s;
                let s2 = update_active (set_focus p) s1;
                Some (projection_changed
                  (if proj_layer hit \<noteq> Tiled then s2\<lparr>force_full := True\<rparr> else s2)) }
      else Some (update_active (set_focus p) s))"

definition press_mouse ::
    "'v world \<Rightarrow> mouse_event \<Rightarrow> tab \<Rightarrow> pane_projection \<Rightarrow> 'v session \<Rightarrow> 'v session option" where
  "press_mouse w m t hit s =
     (let p = proj_pane hit; r = proj_outer hit;
          pressed = (mouse_event_kind m = MousePress \<and> mouse_button m = 0);
          on_vertical = (mouse_x m = rect_x r \<or>
            add16 (mouse_x m) 1 = add16 (rect_x r) (rect_width r));
          on_horizontal = (mouse_y m = rect_y r \<or>
            add16 (mouse_y m) 1 = add16 (rect_y r) (rect_height r));
          target = float_pointer_target r (mouse_x m) (mouse_y m) (border_drag_margin (config s))
      in if proj_layer hit \<noteq> Tiled \<and> pressed \<and> \<not> mouse_shift m \<and> target \<noteq> None
         then Some (schedule_render (s\<lparr>cur_drag :=
                Some (start_float_drag (the target) (tab_id t) p (mouse_x m, mouse_y m) r)\<rparr>))
         else if proj_layer hit = Tiled \<and> pressed \<and> (on_vertical \<or> on_horizontal)
         then (case tab_tree t of
                 None \<Rightarrow> Some s
               | Some original \<Rightarrow>
                   let ax = (if on_vertical then Vertical else Horizontal);
                       b = drag_axis_position ax m
                   in Some (schedule_render
                        (s\<lparr>cur_drag := Some (TiledBoundary (tab_id t) ax b b original)\<rparr>)))
         else content_mouse w m p (content r) s)"

definition press_on_tab :: "'v world \<Rightarrow> mouse_event \<Rightarrow> 'v session \<Rightarrow> 'v session option" where
  "press_on_tab w m s =
     (case active_tab s of
        None \<Rightarrow> Some s
      | Some t \<Rightarrow>
          (case visible_projections t (content_area s) of
             None \<Rightarrow> None
           | Some ps \<Rightarrow>
               (case hit_projection (mouse_x m) (mouse_y m) ps of
                  None \<Rightarrow> Some s
                | Some hit \<Rightarrow>
                    Option.bind (click_focus w hit (tab_focused t) s) (press_mouse w m t hit))))"

definition mouse :: "'v world \<Rightarrow> mouse_event \<Rightarrow> 'v session \<Rightarrow> 'v session option" where
  "mouse w m s =
     (let plain = (\<not> mouse_shift m \<and> mouse_button m = 0) in
      if cur_drag s \<noteq> None \<and> mouse_event_kind m = MouseRelease \<and> plain
      then Some (s\<lparr>cur_drag := None\<rparr>)
      else if cur_drag s \<noteq> None \<and> mouse_event_kind m = MouseMove \<and> plain
      then update_pointer_drag w m s
      else do { s1 \<leftarrow> cancel_pointer_drag w True s;
                if mouse_event_kind m = MouseMove \<or> mouse_event_kind m = MouseRelease then Some s1
                else press_on_tab w m s1 })"

end
