(* ===== verification/Session_Handlers.thy ===== *)
theory Session_Handlers
  imports Session_Pointer
begin

text \<open>
  Keyboard actions, the float-edit mode, automation commands, PTY events and the messages of the
  attached client (\<open>src/src/session.rs\<close>, lines 677 to 1050, 1234 to 1282, 1735 to 1805 and 2717 to
  3215), and one step function over them.
\<close>

section \<open>Panes and tabs\<close>

definition new_pane :: "'v world \<Rightarrow> 'v session \<Rightarrow> 'v pane" where
  "new_pane w s =
     \<lparr>pane_terminal = terminal_new 22 80 (scrollback_lines (config s)), pane_parser = parser_new w,
      pane_copy = None, pane_metrics = None, pane_screen_sequence = 1, pane_changes = []\<rparr>"

text \<open>\<open>None\<close>: the shell does not start; the media capability is then withdrawn again.\<close>

definition spawn_pane :: "'v world \<Rightarrow> pane_id \<Rightarrow> nat \<Rightarrow> 'v session \<Rightarrow> 'v session option" where
  "spawn_pane w p tid s =
     (if spawn_ok w p tid
      then Some (emit (SpawnedPane p tid) (s\<lparr>panes := bt_insert p (new_pane w s) (panes s)\<rparr>))
      else None)"

definition new_tab :: "'v world \<Rightarrow> 'v session \<Rightarrow> 'v session option" where
  "new_tab w s =
     (let p = next_pane_id s; tid = next_tab_id s in
      map_option (\<lambda>s1. schedule_render (s1\<lparr>next_pane_id := p + 1, next_tab_id := tid + 1,
            tabs := tabs s1 @ [\<lparr>tab_id = tid, tab_tree = Some (Leaf p), tab_floating = layer_default,
              tab_focused = p, tab_last_tiled = Some p, tab_zoomed = None\<rparr>]\<rparr>))
        (spawn_pane w p tid s))"

definition split :: "'v world \<Rightarrow> axis \<Rightarrow> 'v session \<Rightarrow> 'v session option" where
  "split w ax s =
     (case active_tab s of
        None \<Rightarrow> Some s
      | Some t \<Rightarrow>
          (case tab_tree t of
             None \<Rightarrow> Some (status ''no tiled pane to split'' s)
           | Some tree \<Rightarrow>
               if layer_contains (tab_floating t) (tab_focused t)
               then Some (status ''cannot split a floating pane'' s)
               else
                 (case node_split tree (tab_focused t) (next_pane_id s) ax (content_area s) of
                    None \<Rightarrow> None
                  | Some (Inl _) \<Rightarrow> Some (status ''pane is too small to split'' s)
                  | Some (Inr candidate) \<Rightarrow>
                      (case spawn_pane w (next_pane_id s) (tab_id t) s of
                         None \<Rightarrow> Some (status ''could not spawn shell'' s)
                       | Some s1 \<Rightarrow>
                           relayout w (update_active
                             (\<lambda>t. set_focus (next_pane_id s) (t\<lparr>tab_tree := Some candidate\<rparr>))
                             (s1\<lparr>next_pane_id := next_pane_id s + 1\<rparr>))))))"

definition focus :: "direction \<Rightarrow> 'v session \<Rightarrow> 'v session option" where
  "focus d s =
     (case active_tab s of
        None \<Rightarrow> Some s
      | Some t \<Rightarrow>
          if tab_zoomed t \<noteq> None then Some s
          else
            (case visible_projections t (content_area s) of
               None \<Rightarrow> None
             | Some ps \<Rightarrow>
                 (case directional_focus ps (tab_focused t) d of
                    None \<Rightarrow> Some s
                  | Some p \<Rightarrow>
                      Some (projection_changed ((update_active (set_focus p) s)\<lparr>force_full := True\<rparr>)))))"

definition resize_key :: "'v world \<Rightarrow> direction \<Rightarrow> 'v session \<Rightarrow> 'v session option" where
  "resize_key w d s =
     (case active_tab s of
        None \<Rightarrow> Some s
      | Some t \<Rightarrow>
          if tab_zoomed t \<noteq> None then Some s
          else if layer_contains (tab_floating t) (tab_focused t)
          then Some (status ''floating panes resize with the resize mode or the mouse'' s)
          else
            (case tab_tree t of
               None \<Rightarrow> Some s
             | Some tree \<Rightarrow>
                 (case node_resize tree (tab_focused t) d (content_area s) of
                    None \<Rightarrow> None
                  | Some (tree', changed) \<Rightarrow>
                      let s1 = update_active (\<lambda>t. t\<lparr>tab_tree := Some tree'\<rparr>) s
                      in if changed then relayout w s1 else Some s1)))"

definition new_float :: "'v world \<Rightarrow> 'v session \<Rightarrow> 'v session option" where
  "new_float w s =
     (if (case active_tab s of None \<Rightarrow> False | Some t \<Rightarrow> tab_zoomed t \<noteq> None)
      then Some (status ''unzoom before creating a floating pane'' s)
      else
        let p = next_pane_id s;
            tid = (case active_tab s of None \<Rightarrow> next_tab_id s | Some t \<Rightarrow> tab_id t)
        in case spawn_pane w p tid s of
             None \<Rightarrow> Some (status ''could not spawn shell'' s)
           | Some s1 \<Rightarrow>
               relayout w ((update_active
                 (\<lambda>t. set_focus p (t\<lparr>tab_floating := layer_insert p (content_area s)
                    (default_width_percent (config s)) (default_height_percent (config s))
                    (tab_floating t)\<rparr>))
                 (s1\<lparr>next_pane_id := p + 1\<rparr>))\<lparr>force_full := True\<rparr>))"

definition toggle_layer :: "tab \<Rightarrow> tab" where
  "toggle_layer t =
     (let l = tab_floating t;
          t1 = t\<lparr>tab_floating := l\<lparr>ordinary_visible := \<not> ordinary_visible l\<rparr>\<rparr>;
          hidden = (\<not> ordinary_visible (tab_floating t1) \<and>
            (case layer_get (tab_floating t1) (tab_focused t1) of
               None \<Rightarrow> False | Some f \<Rightarrow> \<not> float_pinned f))
      in if hidden
         then (case fallback_focus t1 of None \<Rightarrow> t1 | Some p \<Rightarrow> set_focus p t1) else t1)"

definition toggle_floats :: "'v world \<Rightarrow> 'v session \<Rightarrow> 'v session option" where
  "toggle_floats w s =
     (if (case active_tab s of None \<Rightarrow> False | Some t \<Rightarrow> tab_zoomed t \<noteq> None)
      then Some (status ''unzoom before changing floating pane visibility'' s)
      else if (case active_tab s of None \<Rightarrow> True | Some t \<Rightarrow> layer_is_empty (tab_floating t))
      then Some (status ''no floating panes in this tab'' s)
      else relayout w ((update_active toggle_layer s)\<lparr>force_full := True\<rparr>))"

definition toggle_pin :: "'v session \<Rightarrow> 'v session" where
  "toggle_pin s =
     (case active_tab s of
        None \<Rightarrow> s
      | Some t \<Rightarrow>
          if tab_zoomed t \<noteq> None then status ''unzoom before pinning a pane'' s
          else
            (case layer_get (tab_floating t) (tab_focused t) of
               None \<Rightarrow> status ''only floating panes can be pinned'' s
             | Some f \<Rightarrow>
                 projection_changed ((update_active
                   (\<lambda>t. snd (on_layer (layer_set_pinned (tab_focused t) (\<not> float_pinned f)) t)) s)
                   \<lparr>force_full := True\<rparr>)))"

definition toggle_zoom :: "'v world \<Rightarrow> 'v session \<Rightarrow> 'v session option" where
  "toggle_zoom w s =
     (case active_tab s of
        None \<Rightarrow> Some s
      | Some _ \<Rightarrow>
          relayout w ((update_active
            (\<lambda>t. t\<lparr>tab_zoomed := (if tab_zoomed t \<noteq> None then None else Some (tab_focused t))\<rparr>) s)
            \<lparr>force_full := True\<rparr>))"

definition enter_copy_mode :: "'v session \<Rightarrow> 'v session" where
  "enter_copy_mode s =
     (case active_tab s of
        None \<Rightarrow> s
      | Some t \<Rightarrow>
          (case pane_get (tab_focused t) s of
             None \<Rightarrow> s
           | Some _ \<Rightarrow>
               schedule_render (mark_pane_screen_change (tab_focused t) None
                 (pane_update (tab_focused t)
                   (\<lambda>v. v\<lparr>pane_copy := Some (fresh_copy
                      \<lparr>copy_row := rect_height (content_area s) - 2 - 1\<rparr>)\<rparr>) s))))"

section \<open>The float-edit mode\<close>

definition enter_float_mode :: "floating_edit_kind \<Rightarrow> 'v session \<Rightarrow> 'v session" where
  "enter_float_mode kind s =
     (case active_tab s of
        None \<Rightarrow> s
      | Some t \<Rightarrow>
          if tab_zoomed t \<noteq> None then status ''unzoom before editing a floating pane'' s
          else
            (case layer_get (tab_floating t) (tab_focused t) of
               None \<Rightarrow> status ''only floating panes can be moved or resized'' s
             | Some f \<Rightarrow>
                 if next_float_mode s + 1 > 18446744073709551615
                 then status ''floating edit mode ID space exhausted'' s
                 else to_client (SentEditMode (next_float_mode s + 1) (Some (float_pane f, kind)))
                   (s\<lparr>next_float_mode := next_float_mode s + 1,
                      cur_modal := Some \<lparr>modal_id = next_float_mode s + 1, modal_pane = float_pane f,
                        modal_kind = kind, modal_original = float_rect f\<rparr>\<rparr>)))"

definition edit_step :: "direction \<Rightarrow> int \<Rightarrow> int \<times> int" where
  "edit_step d step =
     (case d of DLeft \<Rightarrow> (- step, 0) | DRight \<Rightarrow> (step, 0) | DUp \<Rightarrow> (0, - step) | DDown \<Rightarrow> (0, step))"

definition edit_layer ::
    "floating_edit_kind \<Rightarrow> pane_id \<Rightarrow> int \<times> int \<Rightarrow> rect \<Rightarrow> floating_layer \<Rightarrow> bool \<times> floating_layer" where
  "edit_layer kind p delta area =
     (case kind of
        EditMove \<Rightarrow> layer_move_by p (fst delta) (snd delta) area
      | EditResize \<Rightarrow> layer_resize_by p (no_edges\<lparr>edge_right := True, edge_bottom := True\<rparr>)
            (fst delta) (snd delta) area)"

definition float_edit ::
    "'v world \<Rightarrow> nat \<Rightarrow> floating_edit_command \<Rightarrow> 'v session \<Rightarrow> 'v session option" where
  "float_edit w mode_id command s =
     (case cur_modal s of
        None \<Rightarrow> Some s
      | Some m \<Rightarrow>
          if modal_id m \<noteq> mode_id then Some s
          else
            (case command of
               EditCommit \<Rightarrow> end_float_mode w False s
             | EditCancel \<Rightarrow> end_float_mode w True s
             | EditStep d cells \<Rightarrow>
                 if cells \<noteq> 1 \<and> cells \<noteq> 5 then end_float_mode w True s
                 else
                   let (changed, s1) = try_active (on_layer (edit_layer (modal_kind m) (modal_pane m)
                         (edit_step d (int cells)) (content_area s))) s
                   in if changed then relayout w (s1\<lparr>force_full := True\<rparr>) else Some s1))"

section \<open>Keyboard actions\<close>

definition go_to_tab :: "'v world \<Rightarrow> nat \<Rightarrow> 'v session \<Rightarrow> 'v session option" where
  "go_to_tab w i s = relayout w (s\<lparr>active_index := i, force_full := True\<rparr>)"

definition perform :: "'v world \<Rightarrow> action \<Rightarrow> 'v session \<Rightarrow> 'v session option" where
  "perform w a s =
     (case a of
        SplitAction ax \<Rightarrow> split w ax s
      | FocusAction d \<Rightarrow> focus d s
      | ResizeAction d \<Rightarrow> resize_key w d s
      | NewTab \<Rightarrow>
          (case new_tab w s of
             None \<Rightarrow> Some s
           | Some s1 \<Rightarrow> relayout w (s1\<lparr>active_index := length (tabs s1) - 1\<rparr>))
      | NextTab \<Rightarrow>
          if tabs s = [] then Some s else go_to_tab w ((active_index s + 1) mod length (tabs s)) s
      | PreviousTab \<Rightarrow>
          if tabs s = [] then Some s
          else go_to_tab w ((active_index s + length (tabs s) - 1) mod length (tabs s)) s
      | SelectTab i \<Rightarrow> if i < length (tabs s) then go_to_tab w i s else Some s
      | ClosePane \<Rightarrow>
          (case active_tab s of None \<Rightarrow> Some s | Some t \<Rightarrow> close_pane w (tab_focused t) s)
      | ToggleZoom \<Rightarrow> toggle_zoom w s
      | EnterCopyMode \<Rightarrow> Some (enter_copy_mode s)
      | CopyInput bs \<Rightarrow>
          (case active_tab s of None \<Rightarrow> Some s | Some t \<Rightarrow> Some (copy_input (tab_focused t) bs s))
      | PasteAction \<Rightarrow> paste w s
      | NewFloatingPane \<Rightarrow> new_float w s
      | ToggleFloatingPanes \<Rightarrow> toggle_floats w s
      | TogglePanePinned \<Rightarrow> Some (toggle_pin s)
      | EnterFloatingMoveMode \<Rightarrow> Some (enter_float_mode EditMove s)
      | EnterFloatingResizeMode \<Rightarrow> Some (enter_float_mode EditResize s))"

definition settle :: "'v world \<Rightarrow> 'v session \<Rightarrow> 'v session option" where
  "settle w s = Option.bind (cancel_pointer_drag w True s) (end_float_mode w True)"

definition action :: "'v world \<Rightarrow> action \<Rightarrow> 'v session \<Rightarrow> 'v session option" where
  "action w a s = Option.bind (settle w s) (perform w a)"

section \<open>Automation commands\<close>

definition find_tab :: "pane_id \<Rightarrow> 'v session \<Rightarrow> nat option" where
  "find_tab p s = position (\<lambda>t. tab_contains t p) (tabs s)"

datatype automation_error = PaneNotFound | Unsupported | InvalidState | SpawnFailed

definition automation_split ::
    "'v world \<Rightarrow> pane_id \<Rightarrow> axis \<Rightarrow> 'v session \<Rightarrow>
     ((automation_error + pane_id) \<times> 'v session) option" where
  "automation_split w p ax s =
     (case find_tab p s of
        None \<Rightarrow> Some (Inl PaneNotFound, s)
      | Some i \<Rightarrow>
          (case tab_tree (tabs s ! i) of
             None \<Rightarrow> Some (Inl Unsupported, s)
           | Some tree \<Rightarrow>
               if \<not> node_contains tree p then Some (Inl Unsupported, s)
               else
                 (case node_split tree p (next_pane_id s) ax (content_area s) of
                    None \<Rightarrow> None
                  | Some (Inl _) \<Rightarrow> Some (Inl InvalidState, s)
                  | Some (Inr candidate) \<Rightarrow>
                      (case spawn_pane w (next_pane_id s) (tab_id (tabs s ! i)) s of
                         None \<Rightarrow> Some (Inl SpawnFailed, s)
                       | Some s1 \<Rightarrow>
                           map_option (Pair (Inr (next_pane_id s)))
                             (relayout w (s1\<lparr>next_pane_id := wrapping_inc64 (next_pane_id s),
                                tabs := (tabs s1)[i := set_focus (next_pane_id s)
                                  ((tabs s1 ! i)\<lparr>tab_tree := Some candidate\<rparr>)],
                                force_full := True\<rparr>))))))"

definition reveal :: "pane_id \<Rightarrow> tab \<Rightarrow> tab" where
  "reveal p t =
     (let t1 = (case layer_get (tab_floating t) p of
             Some f \<Rightarrow> if \<not> float_pinned f
               then t\<lparr>tab_floating := (tab_floating t)\<lparr>ordinary_visible := True\<rparr>\<rparr> else t
           | None \<Rightarrow> t)
      in set_focus p (t1\<lparr>tab_zoomed := filter_option (\<lambda>z. z = p) (tab_zoomed t1)\<rparr>))"

definition automation_focus ::
    "'v world \<Rightarrow> pane_id \<Rightarrow> 'v session \<Rightarrow> ((automation_error + unit) \<times> 'v session) option" where
  "automation_focus w p s =
     (case find_tab p s of
        None \<Rightarrow> Some (Inl PaneNotFound, s)
      | Some i \<Rightarrow>
          map_option (Pair (Inr ()))
            (relayout w (s\<lparr>tabs := (tabs s)[i := reveal p (tabs s ! i)], active_index := i,
               force_full := True\<rparr>)))"

section \<open>PTY output\<close>

text \<open>What the pane's terminal reports, in order; the title counts in the focused pane only.\<close>

fun terminal_effect ::
    "'v world \<Rightarrow> pane_id \<Rightarrow> terminal_event \<Rightarrow> input_failure \<times> 'v session \<Rightarrow> input_failure \<times> 'v session" where
  "terminal_effect w p (PtyWrite bs) (f, s) =
     (case queue_pane_input w p bs s of
        (None, s1) \<Rightarrow> (f, s1)
      | (Some g, s1) \<Rightarrow> (\<lparr>fail_warn = fail_warn f \<or> fail_warn g, fail_close = fail_close f \<or> fail_close g\<rparr>, s1))"
| "terminal_effect w p (VividMarker m r c) (f, s) = (f, emit (ObserveMarker p m r c) s)"
| "terminal_effect w p (GridScroll n) (f, s) = (f, emit (ScrollAnchors p n) s)"
| "terminal_effect w p ClearEvent (f, s) = (f, emit (ClearAnchors p) s)"
| "terminal_effect w p _ fs = fs"

definition last_title :: "terminal_event list \<Rightarrow> uchar list option" where
  "last_title es =
     fold (\<lambda>e title. case e of TitleEvent new \<Rightarrow> new | _ \<Rightarrow> title) es None"

definition changed_rows :: "cell list list \<Rightarrow> cell list list \<Rightarrow> nat list" where
  "changed_rows old new =
     filter (\<lambda>r. vec_get r old \<noteq> vec_get r new) [0..<max (length old) (length new)]"

definition screen_changed :: "terminal \<Rightarrow> terminal \<Rightarrow> bool" where
  "screen_changed old new \<longleftrightarrow>
     grid old \<noteq> grid new \<or> (cursor_row old, cursor_col old) \<noteq> (cursor_row new, cursor_col new) \<or>
     modes old \<noteq> modes new \<or> alternate_screen old \<noteq> alternate_screen new"

definition note_output :: "pane_id \<Rightarrow> terminal \<Rightarrow> terminal \<Rightarrow> 'v session \<Rightarrow> 'v session" where
  "note_output p old new s =
     (if screen_changed old new
      then mark_pane_screen_change p
             (if alternate_screen old = alternate_screen new
              then Some (changed_rows (grid old) (grid new)) else None) s
      else s)"

definition pty_output :: "'v world \<Rightarrow> pane_id \<Rightarrow> bytes \<Rightarrow> 'v session \<Rightarrow> 'v session option" where
  "pty_output w p bs s =
     (case pane_get p s of
        None \<Rightarrow> Some s
      | Some v \<Rightarrow>
          (case feed (host_platform w) (parser_advance w) (char_width w) bs
                  (pane_parser v, pane_terminal v) of
             None \<Rightarrow> None
           | Some (evs, parser, t) \<Rightarrow>
               let focused = (case active_tab s of None \<Rightarrow> False | Some tb \<Rightarrow> tab_focused tb = p);
                   s1 = pane_update p (\<lambda>v. v\<lparr>pane_terminal := t, pane_parser := parser\<rparr>) s;
                   (f, s2) = fold (terminal_effect w p) evs
                     (\<lparr>fail_warn = False, fail_close = False\<rparr>, s1);
                   s3 = note_output p (pane_terminal v) t s2;
                   title = (if focused then last_title evs else None);
                   s4 = (if title \<noteq> None then to_client (SentTitle title) s3 else s3);
                   s5 = (if BellEvent \<in> set evs then to_client SentBell s4 else s4)
               in report_input_failure w p (Some f) (schedule_render s5)))"

section \<open>The attached client\<close>

definition client_is :: "nat \<Rightarrow> 'v session \<Rightarrow> bool" where
  "client_is c s \<longleftrightarrow> (case attached s of None \<Rightarrow> False | Some a \<Rightarrow> client_id a = c)"

definition clamp_tabs :: "'v session \<Rightarrow> 'v session" where
  "clamp_tabs s =
     s\<lparr>tabs := map (\<lambda>t. t\<lparr>tab_floating := layer_clamp_all (content_area s) (tab_floating t)\<rparr>)
        (tabs s)\<rparr>"

definition attach ::
    "'v world \<Rightarrow> nat \<Rightarrow> bool \<Rightarrow> display_metrics \<Rightarrow> bool \<Rightarrow> 'v session \<Rightarrow> 'v session option" where
  "attach w c replace display vivid s =
     do { s1 \<leftarrow> settle w s;
          if attached s1 \<noteq> None \<and> \<not> replace
          then Some (emit (SentError ''session already has an attached client'') s1)
          else do {
            let s2 = to_client (SentDetached ''replaced by another client'') s1;
            let d = normalized_display display (status_visible (config s));
            let s3 = clamp_tabs (s2\<lparr>last_display := d, attached := Some
                  \<lparr>client_id = c, client_display = d, client_vivid = vivid,
                   client_acknowledged = frame_id s2, client_rendered = 0, client_frames = []\<rparr>\<rparr>);
            s4 \<leftarrow> do_resize_all w ((emit (SentAttached (\<not> vivid)) s3)\<lparr>force_full := True\<rparr>);
            Some (schedule_render s4) } }"

definition client_resize :: "'v world \<Rightarrow> display_metrics \<Rightarrow> 'v session \<Rightarrow> 'v session option" where
  "client_resize w display s =
     do { s1 \<leftarrow> settle w s;
          let s2 = (case attached s1 of
              None \<Rightarrow> s1
            | Some a \<Rightarrow>
                let d = normalized_display display (status_visible (config s1))
                in s1\<lparr>attached := Some (a\<lparr>client_display := d\<rparr>), last_display := d\<rparr>);
          relayout w ((clamp_tabs s2)\<lparr>force_full := True\<rparr>) }"

text \<open>The frames the client has displayed leave the queue and raise the rendered sequence.\<close>

definition acknowledge :: "nat \<Rightarrow> attached_client \<Rightarrow> attached_client" where
  "acknowledge frame a =
     (let displayed = takeWhile (\<lambda>(f, _). f \<le> frame) (client_frames a)
      in a\<lparr>client_acknowledged := frame,
           client_rendered := fold (\<lambda>(_, sequence) m. max m sequence) displayed (client_rendered a),
           client_frames := dropWhile (\<lambda>(f, _). f \<le> frame) (client_frames a)\<rparr>)"

definition render_ack :: "nat \<Rightarrow> nat \<Rightarrow> 'v session \<Rightarrow> 'v session" where
  "render_ack c frame s =
     (case attached s of
        None \<Rightarrow> s
      | Some a \<Rightarrow>
          if client_id a \<noteq> c then s
          else if frame < client_acknowledged a \<or> frame_id s < frame
          then s\<lparr>force_full := True\<rparr>
          else s\<lparr>attached := Some (acknowledge frame a)\<rparr>)"

definition render_resync :: "'v session \<Rightarrow> 'v session" where
  "render_resync s =
     schedule_render (s\<lparr>force_full := True, attached := map_option
       (\<lambda>a. a\<lparr>client_acknowledged := frame_id s, client_frames := []\<rparr>) (attached s)\<rparr>)"

definition detach :: "'v world \<Rightarrow> 'v session \<Rightarrow> 'v session option" where
  "detach w s =
     do { s1 \<leftarrow> cancel_pointer_drag w True s;
          end_float_mode w True ((emit (SentDetached ''detached'') s1)\<lparr>attached := None\<rparr>) }"

definition disconnected :: "'v world \<Rightarrow> 'v session \<Rightarrow> 'v session option" where
  "disconnected w s =
     do { s1 \<leftarrow> cancel_pointer_drag w True s;
          end_float_mode w True (s1\<lparr>attached := None, force_full := True\<rparr>) }"

section \<open>One step\<close>

datatype session_event =
    Attach nat bool display_metrics bool
  | ClientInput nat bytes
  | ClientMouse nat mouse_event
  | ClientResize nat display_metrics
  | ClientAction nat action
  | RenderAck nat nat
  | RenderResync nat
  | FloatEdit nat nat floating_edit_command
  | Detach nat
  | Disconnected nat
  | PtyOutput pane_id bytes
  | PtyExit pane_id
  | AutomationSplit pane_id axis
  | AutomationFocus pane_id
  | AutomationClose pane_id

definition from_client ::
    "nat \<Rightarrow> ('v session \<Rightarrow> 'v session option) \<Rightarrow> 'v session \<Rightarrow> 'v session option" where
  "from_client c f s = (if client_is c s then f s else Some s)"

primrec session_event_step ::
    "'v world \<Rightarrow> session_event \<Rightarrow> 'v session \<Rightarrow> 'v session option" where
  "session_event_step w (Attach c replace d vivid) s = attach w c replace d vivid s"
| "session_event_step w (ClientInput c bs) s = from_client c (pane_input w bs) s"
| "session_event_step w (ClientMouse c m) s = from_client c (mouse w m) s"
| "session_event_step w (ClientResize c d) s = from_client c (client_resize w d) s"
| "session_event_step w (ClientAction c a) s = from_client c (action w a) s"
| "session_event_step w (RenderAck c frame) s = Some (render_ack c frame s)"
| "session_event_step w (RenderResync c) s = from_client c (Some \<circ> render_resync) s"
| "session_event_step w (FloatEdit c mode command) s = from_client c (float_edit w mode command) s"
| "session_event_step w (Detach c) s = from_client c (detach w) s"
| "session_event_step w (Disconnected c) s = from_client c (disconnected w) s"
| "session_event_step w (PtyOutput p bs) s = pty_output w p bs s"
| "session_event_step w (PtyExit p) s = close_pane w p s"
| "session_event_step w (AutomationSplit p ax) s = map_option snd (automation_split w p ax s)"
| "session_event_step w (AutomationFocus p) s = map_option snd (automation_focus w p s)"
| "session_event_step w (AutomationClose p) s =
     (case pane_get p s of None \<Rightarrow> Some s | Some _ \<Rightarrow> close_pane w p s)"

fun session_step :: "'v world \<times> session_event \<Rightarrow> 'v session \<Rightarrow> 'v session option" where
  "session_step (w, e) s = session_event_step w e s"

text \<open>The state \<open>start\<close> builds before its first tab; the session fails to start without a shell.\<close>

definition blank_display :: display_metrics where
  "blank_display = \<lparr>disp_columns = 80, disp_rows = 24, disp_cell_width = 0, disp_cell_height = 0\<rparr>"

definition empty_session :: "session_config \<Rightarrow> 'v session" where
  "empty_session c =
     \<lparr>config = c, panes = [], tabs = [], active_index = 0, attached = None,
      last_display = normalized_display blank_display (status_visible c),
      next_pane_id = 1, next_tab_id = 1, copy_buffer = [], frame_id = 0, force_full = True,
      pending_render = False, layout_revision = 0, cur_drag = None, cur_modal = None,
      next_float_mode = 0, session_sequence = 1, outbox = []\<rparr>"

definition start :: "'v world \<Rightarrow> session_config \<Rightarrow> 'v session option" where
  "start w c = new_tab w (empty_session c)"

end
