(* ===== verification/Tiled_Fit.thy ===== *)
theory Tiled_Fit
  imports Tiled
begin

text \<open>
  When a tree can be placed: \<open>fits\<close> depends on the width and height only, is exactly the condition
  under which \<open>geometry\<close> returns, grows with the area and survives the closing of a pane. The
  session's layout core rests on these facts.
\<close>

fun fits :: "tiled_node \<Rightarrow> nat \<Rightarrow> nat \<Rightarrow> bool" where
  "fits (Leaf _) w h \<longleftrightarrow> True"
| "fits (Split Vertical a b w1 w2) w h \<longleftrightarrow>
     (case first_size w w1 w2 of None \<Rightarrow> False | Some s \<Rightarrow> fits a s h \<and> fits b (w - s) h)"
| "fits (Split Horizontal a b w1 w2) w h \<longleftrightarrow>
     (case first_size h w1 w2 of None \<Rightarrow> False | Some s \<Rightarrow> fits a w s \<and> fits b w (h - s))"

fun weights_ok :: "tiled_node \<Rightarrow> bool" where
  "weights_ok (Leaf _) \<longleftrightarrow> True"
| "weights_ok (Split _ a b w1 w2) \<longleftrightarrow> w1 \<le> 65535 \<and> w2 \<le> 65535 \<and> weights_ok a \<and> weights_ok b"

definition tree_fits :: "rect \<Rightarrow> tiled_node \<Rightarrow> bool" where
  "tree_fits area t \<longleftrightarrow> weights_ok t \<and> fits t (rect_width area) (rect_height area)"

lemma leaf_areas_fits: "leaf_areas t area \<noteq> None \<longleftrightarrow> fits t (rect_width area) (rect_height area)"
proof (induction t arbitrary: area)
  case (Split ax a b w1 w2)
  show ?case
  proof (cases "first_size (axis_size ax area) w1 w2")
    case None
    then show ?thesis by (cases ax) (simp_all add: axis_size_def)
  next
    case (Some s)
    then have "leaf_areas (Split ax a b w1 w2) area \<noteq> None \<longleftrightarrow>
        leaf_areas a (first_area ax area s) \<noteq> None \<and> leaf_areas b (second_area ax area s) \<noteq> None"
      by (cases "leaf_areas a (first_area ax area s)"; cases "leaf_areas b (second_area ax area s)")
        simp_all
    also have "\<dots> \<longleftrightarrow> fits (Split ax a b w1 w2) (rect_width area) (rect_height area)"
      unfolding Split.IH using Some
      by (cases ax) (simp_all add: axis_size_def first_area_def second_area_def)
    finally show ?thesis .
  qed
qed simp

lemma geometry_fits: "geometry t area \<noteq> None \<longleftrightarrow> fits t (rect_width area) (rect_height area)"
  by (simp add: geometry_def place_leaf_areas leaf_areas_fits[symmetric])

lemma first_size_mono:
  assumes "first_size d w1 w2 = Some s" and "d \<le> d'" and "d' \<le> 65535" and "w1 \<le> 65535" and "w2 \<le> 65535"
  obtains s' where "first_size d' w1 w2 = Some s'" and "s \<le> s'" and "d - s \<le> d' - s'"
proof -
  define W where "W = max (w1 + w2) 1"
  have W: "1 \<le> W" "w1 \<le> W" by (auto simp: W_def)
  have eq: "first_size x w1 w2 = (if 2 \<le> x then Some (max 1 (min (x * w1 div W) (x - 1))) else None)"
    if "x \<le> 65535" for x
  proof -
    have "x * w1 \<le> 65535 * 65535" using that assms(4) by (intro mult_le_mono) auto
    then have "mul32 x w1 = x * w1" by (simp add: mul32_def)
    moreover have "max (sat_add32 w1 w2) 1 = W" using assms(4,5) by (simp add: sat_add32_def W_def)
    ultimately show ?thesis by (auto simp: first_size_def clamp_def)
  qed
  have d: "2 \<le> d" and s: "s = max 1 (min (d * w1 div W) (d - 1))"
    using assms(1) eq[of d] assms(2,3) by (auto split: if_splits)
  have "d * w1 div W \<le> d' * w1 div W" using assms(2) by (intro div_le_mono mult_le_mono1)
  moreover have "d' * w1 div W \<le> d * w1 div W + (d' - d)"
  proof -
    have "d' * w1 = d * w1 + (d' - d) * w1" using assms(2) by (simp add: add_mult_distrib[symmetric])
    also have "\<dots> \<le> d * w1 + (d' - d) * W" using W(2) by simp
    finally have "d' * w1 div W \<le> (d * w1 + (d' - d) * W) div W" by (rule div_le_mono)
    also have "\<dots> = d * w1 div W + (d' - d)" using W(1) by simp
    finally show ?thesis .
  qed
  ultimately have "s \<le> max 1 (min (d' * w1 div W) (d' - 1))"
    and "d - s \<le> d' - max 1 (min (d' * w1 div W) (d' - 1))"
    using s d assms(2) by linarith+
  moreover have "first_size d' w1 w2 = Some (max 1 (min (d' * w1 div W) (d' - 1)))"
    using eq[OF assms(3)] d assms(2) by simp
  ultimately show ?thesis by (intro that)
qed

lemma fits_mono:
  "fits t w h \<Longrightarrow> weights_ok t \<Longrightarrow> w \<le> w' \<Longrightarrow> h \<le> h' \<Longrightarrow> w' \<le> 65535 \<Longrightarrow> h' \<le> 65535 \<Longrightarrow> fits t w' h'"
proof (induction t arbitrary: w h w' h')
  case (Split ax a b w1 w2)
  show ?case
  proof (cases ax)
    case Vertical
    with Split.prems obtain s where s: "first_size w w1 w2 = Some s" "fits a s h" "fits b (w - s) h"
      by (auto split: option.splits)
    from first_size_mono[OF s(1) Split.prems(3,5)] Split.prems(2) obtain s' where
      s': "first_size w' w1 w2 = Some s'" "s \<le> s'" "w - s \<le> w' - s'" by auto
    have "s' \<le> 65535" using first_size_bounds[OF s'(1)] Split.prems(5) by linarith
    with Split.IH(1)[OF s(2), of s' h'] Split.IH(2)[OF s(3), of "w' - s'" h'] Split.prems s' Vertical
    show ?thesis by simp
  next
    case Horizontal
    with Split.prems obtain s where s: "first_size h w1 w2 = Some s" "fits a w s" "fits b w (h - s)"
      by (auto split: option.splits)
    from first_size_mono[OF s(1) Split.prems(4,6)] Split.prems(2) obtain s' where
      s': "first_size h' w1 w2 = Some s'" "s \<le> s'" "h - s \<le> h' - s'" by auto
    have "s' \<le> 65535" using first_size_bounds[OF s'(1)] Split.prems(6) by linarith
    with Split.IH(1)[OF s(2), of w' s'] Split.IH(2)[OF s(3), of w' "h' - s'"] Split.prems s' Horizontal
    show ?thesis by simp
  qed
qed simp

lemma close_weights: "weights_ok t \<Longrightarrow> close t p = Some t' \<Longrightarrow> weights_ok t'"
proof (induction t arbitrary: t')
  case (Split ax a b w1 w2)
  have A: "weights_ok a'" if "close a p = Some a'" for a' using Split.IH(1)[OF _ that] Split.prems(1) by simp
  have B: "weights_ok b'" if "close b p = Some b'" for b' using Split.IH(2)[OF _ that] Split.prems(1) by simp
  have le: "w1 \<le> 65535" "w2 \<le> 65535" using Split.prems(1) by simp_all
  show ?case
  proof (cases "close a p")
    case None
    with Split.prems(2) B show ?thesis by (cases "close b p") simp_all
  next
    case (Some a')
    with Split.prems(2) A B le show ?thesis by (cases "close b p") auto
  qed
qed (auto split: if_splits)

lemma close_fits:
  "fits t w h \<Longrightarrow> weights_ok t \<Longrightarrow> w \<le> 65535 \<Longrightarrow> h \<le> 65535 \<Longrightarrow> close t p = Some t' \<Longrightarrow> fits t' w h"
proof (induction t arbitrary: w h t')
  case (Leaf q)
  then show ?case by (auto split: if_splits)
next
  case (Split ax a b w1 w2)
  have wo: "weights_ok a" "weights_ok b" using Split.prems(2) by simp_all
  note grown = fits_mono[OF _ close_weights _ _ Split.prems(3,4)]
  show ?case
  proof (cases ax)
    case Vertical
    from Split.prems(1)[unfolded Vertical] obtain s where
      s: "first_size w w1 w2 = Some s" "fits a s h" "fits b (w - s) h"
      by (auto split: option.splits)
    have le: "s \<le> w" using first_size_bounds[OF s(1)] by simp
    have A: "fits a' s h \<and> fits a' w h" if "close a p = Some a'" for a'
      using Split.IH(1)[OF s(2) wo(1) _ _ that] grown[OF _ wo(1) that, of s h] le Split.prems(3,4) by simp
    have B: "fits b' (w - s) h \<and> fits b' w h" if "close b p = Some b'" for b'
      using Split.IH(2)[OF s(3) wo(2) _ _ that] grown[OF _ wo(2) that, of "w - s" h] Split.prems(3,4)
      by simp
    from Split.prems(5) A B s(1) Vertical show ?thesis
      by (cases "close a p"; cases "close b p") auto
  next
    case Horizontal
    from Split.prems(1)[unfolded Horizontal] obtain s where
      s: "first_size h w1 w2 = Some s" "fits a w s" "fits b w (h - s)"
      by (auto split: option.splits)
    have le: "s \<le> h" using first_size_bounds[OF s(1)] by simp
    have A: "fits a' w s \<and> fits a' w h" if "close a p = Some a'" for a'
      using Split.IH(1)[OF s(2) wo(1) _ _ that] grown[OF _ wo(1) that, of w s] le Split.prems(3,4) by simp
    have B: "fits b' w (h - s) \<and> fits b' w h" if "close b p = Some b'" for b'
      using Split.IH(2)[OF s(3) wo(2) _ _ that] grown[OF _ wo(2) that, of w "h - s"] Split.prems(3,4)
      by simp
    from Split.prems(5) A B s(1) Horizontal show ?thesis
      by (cases "close a p"; cases "close b p") auto
  qed
qed

lemma tree_fits_close:
  "tree_fits area t \<Longrightarrow> area_ok area \<Longrightarrow> close t p = Some t' \<Longrightarrow> tree_fits area t'"
  using close_fits[of t "rect_width area" "rect_height area" p t']
  by (auto simp: tree_fits_def close_weights area_ok_def rect_ok_def)

lemma tree_fits_geometry: "tree_fits area t \<Longrightarrow> \<exists>g. geometry t area = Some g"
  using geometry_fits[of t area] by (auto simp: tree_fits_def)

lemma tree_fits_leaf [simp]: "tree_fits area (Leaf p)"
  by (simp add: tree_fits_def)

lemma replace_leaf_weights:
  "weights_ok t \<Longrightarrow> weights_ok (snd (replace_leaf t f (\<lambda>q. Split ax (Leaf q) (Leaf n) 1 1)))"
  by (induction t) (auto split: prod.splits)

lemma tree_fits_split:
  assumes "tree_fits area t" and "node_split t f n ax area = Some (Inr t')"
  shows "tree_fits area t'"
  using node_split_cases(2,3)[OF assms(2)] geometry_fits[of t' area] assms(1)
    replace_leaf_weights[of t f ax n]
  by (auto simp: tree_fits_def)

lemma node_split_ids:
  assumes "node_split t f n ax area = Some (Inr t')" and "distinct (pane_ids t)"
  obtains xs ys where "pane_ids t = xs @ f # ys" and "pane_ids t' = xs @ f # n # ys"
  using replace_leaf_ids[OF assms(2) node_split_cases(1)[OF assms(1)],
      of "\<lambda>q. Split ax (Leaf q) (Leaf n) 1 1"] node_split_cases(2)[OF assms(1)]
  by auto

text \<open>A resize key on a tree that fits never panics, though its result need not fit.\<close>

lemma resize_inner_returns:
  "fits t (rect_width area) (rect_height area) \<Longrightarrow> resize_inner t f d area ch \<noteq> None"
proof (induction t arbitrary: area ch)
  case (Split ax a b w1 w2)
  show ?case
  proof (cases ax)
    case Vertical
    with Split.prems obtain s where "first_size (rect_width area) w1 w2 = Some s"
      "fits a s (rect_height area)" "fits b (rect_width area - s) (rect_height area)"
      by (auto split: option.splits)
    with Vertical Split.IH(1)[of "area\<lparr>rect_width := s\<rparr>" ch]
      Split.IH(2)[of "area\<lparr>rect_x := add16 (rect_x area) s, rect_width := rect_width area - s\<rparr>" ch]
    show ?thesis by (auto simp: split_areas_def Let_def split: option.splits)
  next
    case Horizontal
    with Split.prems obtain s where "first_size (rect_height area) w1 w2 = Some s"
      "fits a (rect_width area) s" "fits b (rect_width area) (rect_height area - s)"
      by (auto split: option.splits)
    with Horizontal Split.IH(1)[of "area\<lparr>rect_height := s\<rparr>" ch]
      Split.IH(2)[of "area\<lparr>rect_y := add16 (rect_y area) s, rect_height := rect_height area - s\<rparr>" ch]
    show ?thesis by (auto simp: split_areas_def Let_def split: option.splits)
  qed
qed simp

lemma node_resize_returns: "tree_fits area t \<Longrightarrow> \<exists>t' ch. node_resize t f d area = Some (t', ch)"
  using resize_inner_returns[of t area f d False] by (auto simp: tree_fits_def node_resize_def)

lemma node_resize_ids:
  "area_ok area \<Longrightarrow> node_resize t f d area = Some (t', ch) \<Longrightarrow> pane_ids t' = pane_ids t"
  using resize_inner_spec[of area t f d] by (auto simp: node_resize_def)

lemma node_resize_unchanged:
  "area_ok area \<Longrightarrow> node_resize t f d area = Some (t', False) \<Longrightarrow> t' = t"
  using resize_inner_spec[of area t f d t' False] by (auto simp: node_resize_def)

end
