(* ===== verification/Session_Tab_Correct.thy ===== *)
theory Session_Tab_Correct
  imports Session_Handlers Tiled_Fit
begin

text \<open>
  The contract of one tab and the facts about what it shows: every tab operation keeps \<open>tab_ok\<close>,
  the projections list each visible pane once, and the projection priority is a permutation of it.
\<close>

section \<open>The contract of a tab\<close>

definition tree_panes :: "tiled_node option \<Rightarrow> pane_id list" where
  "tree_panes tree = (case tree of None \<Rightarrow> [] | Some t \<Rightarrow> pane_ids t)"

definition tab_panes :: "tab \<Rightarrow> pane_id list" where
  "tab_panes t = tree_panes (tab_tree t) @ layer_pane_ids (tab_floating t)"

definition tree_ok :: "rect \<Rightarrow> tiled_node option \<Rightarrow> bool" where
  "tree_ok area tree \<longleftrightarrow> (case tree of None \<Rightarrow> True | Some t \<Rightarrow> tree_fits area t)"

text \<open>
  The focus and the zoomed pane are panes of the tab as long as it has a tiled pane. A tab left
  with hidden floats only keeps the id of its last closed pane as focus, see the error below.
\<close>

definition points_in :: "tab \<Rightarrow> pane_id \<Rightarrow> bool" where
  "points_in t p \<longleftrightarrow> p \<in> set (tab_panes t) \<or> tab_tree t = None"

definition tab_ok :: "rect \<Rightarrow> tab \<Rightarrow> bool" where
  "tab_ok area t \<longleftrightarrow>
     distinct (tab_panes t) \<and> points_in t (tab_focused t) \<and>
     set_option (tab_last_tiled t) \<subseteq> set (tree_panes (tab_tree t)) \<and>
     (\<forall>p\<in>set_option (tab_zoomed t). points_in t p) \<and>
     layer_wf area (tab_floating t) \<and> tree_ok area (tab_tree t)"

lemma tree_panes_simps [simp]: "tree_panes None = []" "tree_panes (Some tr) = pane_ids tr"
  by (simp_all add: tree_panes_def)

lemma tree_ok_simps [simp]: "tree_ok area None" "tree_ok area (Some tr) = tree_fits area tr"
  by (simp_all add: tree_ok_def)

lemma tree_contains_iff [simp]: "tree_contains tree p \<longleftrightarrow> p \<in> set (tree_panes tree)"
  by (cases tree) (simp_all add: tree_contains_def node_contains_iff)

lemma layer_contains_iff: "layer_contains l p \<longleftrightarrow> p \<in> set (layer_pane_ids l)"
  by (auto simp: layer_contains_def layer_pane_ids_def list_ex_iff)

lemma tab_contains_iff [simp]: "tab_contains t p \<longleftrightarrow> p \<in> set (tab_panes t)"
  by (simp add: tab_contains_def tab_panes_def layer_contains_iff)

lemma tab_is_empty_iff: "tab_is_empty t \<longleftrightarrow> tab_panes t = []"
  by (cases "tab_tree t")
    (auto simp: tab_is_empty_def tab_panes_def layer_is_empty_def layer_pane_ids_def)

section \<open>Pane ids of the layer operations\<close>

lemma layer_raise_ids:
  assumes "layer_wf a l"
  shows "set (layer_pane_ids (snd (layer_raise p l))) = set (layer_pane_ids l)"
proof (cases "layer_get l p")
  case None
  then show ?thesis by (simp add: layer_absent_noop)
next
  case (Some f)
  with layer_get_Some[OF Some] show ?thesis
    by (auto simp: layer_pane_ids_def layer_raise_panes[OF assms Some] blocks)
qed

lemma layer_set_pinned_ids:
  assumes "layer_wf a l"
  shows "set (layer_pane_ids (snd (layer_set_pinned p b l))) = set (layer_pane_ids l)"
proof (cases "layer_get l p")
  case None
  then show ?thesis by (simp add: layer_absent_noop)
next
  case (Some f)
  with layer_get_Some[OF Some] show ?thesis
    by (auto simp: layer_pane_ids_def layer_set_pinned_panes[OF assms Some] blocks Let_def)
qed

lemma layer_wf_distinct: "layer_wf a l \<Longrightarrow> distinct (layer_pane_ids l)"
  by (simp add: layer_wf_def layered_def layer_pane_ids_def)

lemma layer_update_ids [simp]:
  "layer_pane_ids (snd (update_rect p a g l)) = layer_pane_ids l"
  by (simp add: layer_pane_ids_def update_rect_keys)

lemma layer_insert_ids:
  assumes "layer_wf a l"
  shows "set (layer_pane_ids (layer_insert p a wp hp l)) = insert p (set (layer_pane_ids l))"
  by (auto simp: layer_pane_ids_def layer_insert_panes[OF assms] blocks)

lemma layer_remove_ids:
  "layer_pane_ids (snd (layer_remove p l)) = filter (\<lambda>q. q \<noteq> p) (layer_pane_ids l)"
  "fst (layer_remove p l) \<longleftrightarrow> p \<in> set (layer_pane_ids l)"
proof -
  have "length (filter (\<lambda>f. float_pane f \<noteq> p) xs) \<noteq> length xs \<longleftrightarrow> p \<in> float_pane ` set xs" for xs
    using length_filter_less[of _ xs "\<lambda>f. float_pane f \<noteq> p"]
    by (cases "p \<in> float_pane ` set xs") (force, auto intro!: arg_cong[of _ _ length] filter_True)
  then show "fst (layer_remove p l) \<longleftrightarrow> p \<in> set (layer_pane_ids l)"
    by (auto simp: layer_remove_def layer_pane_ids_def Let_def)
  show "layer_pane_ids (snd (layer_remove p l)) = filter (\<lambda>q. q \<noteq> p) (layer_pane_ids l)"
    by (simp add: layer_remove_def layer_pane_ids_def Let_def filter_map comp_def)
qed

lemma layer_wf_visible [simp]: "layer_wf a (l\<lparr>ordinary_visible := b\<rparr>) = layer_wf a l"
  by (simp add: layer_wf_def)

lemma layer_ids_visible [simp]: "layer_pane_ids (l\<lparr>ordinary_visible := b\<rparr>) = layer_pane_ids l"
  by (simp add: layer_pane_ids_def)

lemma focus_candidate_in: "focus_candidate l = Some p \<Longrightarrow> p \<in> set (layer_pane_ids l)"
  using last_in_set[of "layer_visible l"]
  by (auto simp: focus_candidate_def layer_visible_def layer_pane_ids_def split: if_splits)

section \<open>Tab operations keep the contract\<close>

text \<open>Same panes and the same tree: what the session's bookkeeping needs of most operations.\<close>

definition same_panes :: "tab \<Rightarrow> tab \<Rightarrow> bool" where
  "same_panes t t' \<longleftrightarrow> tab_id t' = tab_id t \<and> set (tab_panes t') = set (tab_panes t) \<and>
     set (tree_panes (tab_tree t')) = set (tree_panes (tab_tree t)) \<and>
     (tab_tree t' = None \<longleftrightarrow> tab_tree t = None)"

lemma same_panes_refl [simp]: "same_panes t t"
  by (simp add: same_panes_def)

lemma distinct_by_card: "distinct xs \<Longrightarrow> set ys = set xs \<Longrightarrow> length ys = length xs \<Longrightarrow> distinct ys"
  by (metis card_distinct distinct_card)

text \<open>A new layer with the same panes in place of the old one.\<close>

lemma tab_ok_layer:
  assumes "tab_ok area t" and "layer_wf area l" and "set (layer_pane_ids l) = set (layer_pane_ids (tab_floating t))"
  shows "tab_ok area (t\<lparr>tab_floating := l\<rparr>) \<and> same_panes t (t\<lparr>tab_floating := l\<rparr>)"
  using assms layer_wf_distinct[OF assms(2)]
  by (auto simp: tab_ok_def points_in_def tab_panes_def same_panes_def)

lemma set_focus_points:
  assumes "tab_ok area t" and "points_in t p"
  shows "tab_ok area (set_focus p t) \<and> same_panes t (set_focus p t)"
proof (cases "p \<in> set (tree_panes (tab_tree t))")
  case True
  with assms show ?thesis by (simp add: set_focus_def Let_def tab_ok_def points_in_def same_panes_def tab_panes_def)
next
  case False
  have "tab_ok area (t\<lparr>tab_focused := p\<rparr>)" using assms by (simp add: tab_ok_def points_in_def tab_panes_def)
  moreover have "layer_wf area (tab_floating t)" using assms(1) by (simp add: tab_ok_def)
  ultimately show ?thesis
    using tab_ok_layer[of area "t\<lparr>tab_focused := p\<rparr>" "snd (layer_raise p (tab_floating t))"]
      layer_raise_ids layer_wf_raise False
    by (simp add: set_focus_def Let_def same_panes_def tab_panes_def)
qed

lemma set_focus_ok:
  "tab_ok area t \<Longrightarrow> p \<in> set (tab_panes t) \<Longrightarrow>
     tab_ok area (set_focus p t) \<and> same_panes t (set_focus p t)"
  by (rule set_focus_points) (simp_all add: points_in_def)

lemma update_rect_ok:
  assumes "tab_ok area t" and "area_ok area"
  shows "tab_ok area (snd (on_layer (update_rect p area g) t)) \<and>
    same_panes t (snd (on_layer (update_rect p area g) t))"
  using assms tab_ok_layer[OF assms(1), of "snd (update_rect p area g (tab_floating t))"]
  by (simp add: on_layer_def layer_wf_update tab_ok_def)

lemma fallback_focus_in: "fallback_focus t = Some p \<Longrightarrow> p \<in> set (tab_panes t)"
  using pane_ids_nonempty hd_in_set
  by (auto simp: fallback_focus_def or_else_def filter_option_def tab_panes_def
      dest: focus_candidate_in split: option.splits if_splits)

text \<open>Closing panes and the visibility toggle find a new focus whenever a pane is left to show.\<close>

lemma fallback_focus_tiled: "tab_tree t \<noteq> None \<Longrightarrow> fallback_focus t \<noteq> None"
  by (auto simp: fallback_focus_def or_else_def filter_option_def split: option.splits)

lemma forget_pane_panes:
  assumes "tab_ok area t"
  shows "tab_panes (forget_pane p t) = filter (\<lambda>q. q \<noteq> p) (tab_panes t)"
    and "tree_panes (tab_tree (forget_pane p t)) = filter (\<lambda>q. q \<noteq> p) (tree_panes (tab_tree t))"
proof -
  have d: "set (tree_panes (tab_tree t)) \<inter> set (layer_pane_ids (tab_floating t)) = {}"
    using assms by (simp add: tab_ok_def tab_panes_def)
  have c: "tree_panes (Option.bind (tab_tree t) (\<lambda>tree. close tree p)) =
      filter (\<lambda>q. q \<noteq> p) (tree_panes (tab_tree t))"
    using close_pane_ids[of p] by (cases "tab_tree t") (auto simp: tree_panes_def split: option.splits)
  show t: "tree_panes (tab_tree (forget_pane p t)) = filter (\<lambda>q. q \<noteq> p) (tree_panes (tab_tree t))"
    using d c layer_remove_ids(2)[of p "tab_floating t"]
    by (auto simp: forget_pane_def Let_def split: prod.splits intro!: filter_True[symmetric])
  show "tab_panes (forget_pane p t) = filter (\<lambda>q. q \<noteq> p) (tab_panes t)"
    using t layer_remove_ids(1)[of p "tab_floating t"]
    by (auto simp: tab_panes_def forget_pane_def Let_def split: prod.splits)
qed

lemma forget_pane_ok:
  assumes "tab_ok area t" and "area_ok area"
  shows "set_option (tab_last_tiled (forget_pane p t)) \<subseteq> set (tree_panes (tab_tree (forget_pane p t)))"
    and "\<forall>z\<in>set_option (tab_zoomed (forget_pane p t)). points_in (forget_pane p t) z"
    and "layer_wf area (tab_floating (forget_pane p t))"
    and "tree_ok area (tab_tree (forget_pane p t))"
    and "tab_id (forget_pane p t) = tab_id t" and "tab_focused (forget_pane p t) = tab_focused t"
proof -
  note ps = forget_pane_panes[OF assms(1), of p]
  show "set_option (tab_last_tiled (forget_pane p t)) \<subseteq> set (tree_panes (tab_tree (forget_pane p t)))"
    using assms(1) unfolding ps
    by (auto simp: forget_pane_def tab_ok_def filter_option_def Let_def split: prod.splits option.splits
        if_splits)
  have "tab_zoomed (forget_pane p t) = filter_option (\<lambda>q. q \<noteq> p) (tab_zoomed t)"
    and "tab_tree t = None \<Longrightarrow> tab_tree (forget_pane p t) = None"
    by (simp_all add: forget_pane_def Let_def split: prod.splits)
  then show "\<forall>z\<in>set_option (tab_zoomed (forget_pane p t)). points_in (forget_pane p t) z"
    using assms(1) unfolding points_in_def ps
    by (auto simp: tab_ok_def points_in_def filter_option_def split: option.splits if_splits)
  show "layer_wf area (tab_floating (forget_pane p t))"
    using assms(1) layer_wf_remove[of area "tab_floating t" p]
    by (cases "layer_remove p (tab_floating t)") (simp add: forget_pane_def tab_ok_def Let_def)
  show "tree_ok area (tab_tree (forget_pane p t))"
    using assms tree_fits_close[of area]
    by (cases "tab_tree t")
      (auto simp: forget_pane_def tab_ok_def tree_ok_def Let_def split: prod.splits option.splits)
  show "tab_id (forget_pane p t) = tab_id t" "tab_focused (forget_pane p t) = tab_focused t"
    by (simp_all add: forget_pane_def Let_def split: prod.splits)
qed

text \<open>What closing a pane leaves of its tab.\<close>

lemma closed_tab_ok:
  assumes "tab_ok area t" and "area_ok area"
  shows "tab_ok area (refocus p (forget_pane p t))"
    and "tab_id (refocus p (forget_pane p t)) = tab_id t"
    and "set (tab_panes (refocus p (forget_pane p t))) = set (tab_panes t) - {p}"
proof -
  let ?t = "forget_pane p t"
  note ps = forget_pane_panes[OF assms(1), of p] and ok = forget_pane_ok[OF assms, of p]
  have d: "distinct (tab_panes ?t)" using assms(1) unfolding ps by (simp add: tab_ok_def)
  have gone: "tab_tree t = None \<Longrightarrow> tab_tree ?t = None"
    by (simp add: forget_pane_def Let_def split: prod.splits)
  have id: "set (tab_panes ?t) = set (tab_panes t) - {p}" unfolding ps by auto
  have "tab_ok area (refocus p ?t) \<and> same_panes ?t (refocus p ?t)"
  proof (cases "tab_focused t = p")
    case False
    with assms(1) ok d id gone show ?thesis by (auto simp: refocus_def tab_ok_def points_in_def)
  next
    case True
    show ?thesis
    proof (cases "fallback_focus ?t")
      case None
      with fallback_focus_tiled[of ?t] have "tab_tree ?t = None" by blast
      with None ok d show ?thesis by (simp add: refocus_def True tab_ok_def points_in_def)
    next
      case (Some q)
      have q: "q \<in> set (tab_panes ?t)" using Some by (rule fallback_focus_in)
      have base: "tab_ok area (?t\<lparr>tab_focused := q\<rparr>)"
        using ok d q by (simp add: tab_ok_def points_in_def tab_panes_def)
      have "set_focus q (?t\<lparr>tab_focused := q\<rparr>) = set_focus q ?t" by (simp add: set_focus_def Let_def)
      moreover have "same_panes (?t\<lparr>tab_focused := q\<rparr>) = same_panes ?t"
        by (rule ext) (simp add: same_panes_def tab_panes_def)
      moreover have "q \<in> set (tab_panes (?t\<lparr>tab_focused := q\<rparr>))" using q by (simp add: tab_panes_def)
      ultimately have "tab_ok area (set_focus q ?t) \<and> same_panes ?t (set_focus q ?t)"
        using set_focus_ok[OF base, of q] by simp
      with Some show ?thesis by (simp add: refocus_def ok(6) True)
    qed
  qed
  with id ok(5) show "tab_ok area (refocus p ?t)" "tab_id (refocus p ?t) = tab_id t"
    "set (tab_panes (refocus p ?t)) = set (tab_panes t) - {p}"
    by (simp_all add: same_panes_def)
qed

lemma toggle_layer_ok:
  assumes "tab_ok area t"
  shows "tab_ok area (toggle_layer t) \<and> same_panes t (toggle_layer t)"
proof -
  let ?t = "t\<lparr>tab_floating := (tab_floating t)\<lparr>ordinary_visible := \<not> ordinary_visible (tab_floating t)\<rparr>\<rparr>"
  have ok: "tab_ok area ?t \<and> same_panes t ?t"
    using assms tab_ok_layer[OF assms] by (simp add: tab_ok_def)
  have "tab_ok area (set_focus q ?t) \<and> same_panes t (set_focus q ?t)" if "fallback_focus ?t = Some q" for q
    using set_focus_ok[of area ?t q] ok fallback_focus_in[OF that] by (simp add: same_panes_def)
  with ok show ?thesis by (auto simp: toggle_layer_def Let_def split: option.splits)
qed

lemma reveal_ok:
  assumes "tab_ok area t" and "p \<in> set (tab_panes t)"
  shows "tab_ok area (reveal p t) \<and> same_panes t (reveal p t)"
proof -
  let ?l = "case layer_get (tab_floating t) p of
     Some f \<Rightarrow> if \<not> float_pinned f then (tab_floating t)\<lparr>ordinary_visible := True\<rparr> else tab_floating t
   | None \<Rightarrow> tab_floating t"
  let ?t = "(t\<lparr>tab_floating := ?l\<rparr>)\<lparr>tab_zoomed := filter_option (\<lambda>z. z = p) (tab_zoomed t)\<rparr>"
  have "tab_ok area (t\<lparr>tab_floating := ?l\<rparr>) \<and> same_panes t (t\<lparr>tab_floating := ?l\<rparr>)"
    using assms(1) by (intro tab_ok_layer) (auto simp: tab_ok_def split: option.split)
  then have ok: "tab_ok area ?t \<and> same_panes t ?t"
    by (auto simp: tab_ok_def same_panes_def points_in_def tab_panes_def filter_option_def split: option.splits if_splits)
  have "reveal p t = set_focus p ?t"
    by (auto simp: reveal_def Let_def split: option.split)
  with set_focus_ok[of area ?t p] ok assms(2) show ?thesis by (simp add: same_panes_def)
qed

lemma set_pinned_ok:
  assumes "tab_ok area t"
  shows "tab_ok area (snd (on_layer (layer_set_pinned p b) t)) \<and>
    same_panes t (snd (on_layer (layer_set_pinned p b) t))"
  using assms unfolding on_layer_def snd_conv
  by (intro tab_ok_layer) (auto simp: tab_ok_def layer_wf_set_pinned layer_set_pinned_ids)

text \<open>A new float and a new tiled pane, each focused.\<close>

lemma insert_float_ok:
  assumes "tab_ok area t" and "area_ok area" and "p \<notin> set (tab_panes t)"
  shows "tab_ok area (set_focus p (t\<lparr>tab_floating := layer_insert p area wp hp (tab_floating t)\<rparr>))"
    and "tab_id (set_focus p (t\<lparr>tab_floating := layer_insert p area wp hp (tab_floating t)\<rparr>)) = tab_id t"
    and "set (tab_panes (set_focus p (t\<lparr>tab_floating := layer_insert p area wp hp (tab_floating t)\<rparr>))) = insert p (set (tab_panes t))"
proof -
  let ?t = "set_focus p (t\<lparr>tab_floating := layer_insert p area wp hp (tab_floating t)\<rparr>)"
  let ?l = "layer_insert p area wp hp (tab_floating t)"
  have wf: "layer_wf area (tab_floating t)" using assms(1) by (simp add: tab_ok_def)
  have l: "layer_wf area ?l"
    using assms(2,3) by (intro layer_wf_insert[OF wf]) (auto simp: layer_contains_iff tab_panes_def)
  note i = layer_insert_ids[OF wf, of p wp hp]
  have base: "tab_ok area (t\<lparr>tab_floating := ?l\<rparr>)"
    using assms(1,3) l i layer_wf_distinct[OF l] by (auto simp: tab_ok_def points_in_def tab_panes_def)
  from set_focus_ok[OF base, of p] i
  show "tab_ok area ?t" "tab_id ?t = tab_id t" "set (tab_panes ?t) = insert p (set (tab_panes t))"
    by (auto simp: same_panes_def tab_panes_def)
qed

lemma split_tab_ok:
  assumes "tab_ok area t" and "tab_tree t = Some tree" and "n \<notin> set (tab_panes t)"
    and "node_split tree f n ax area = Some (Inr candidate)"
  defines "t' \<equiv> set_focus n (t\<lparr>tab_tree := Some candidate\<rparr>)"
  shows "tab_ok area t'" and "tab_id t' = tab_id t"
    and "set (tab_panes t') = insert n (set (tab_panes t))"
proof -
  have tf: "tree_fits area tree" and d: "distinct (pane_ids tree)"
    using assms(1,2) by (auto simp: tab_ok_def tab_panes_def)
  obtain xs ys where c: "pane_ids tree = xs @ f # ys" "pane_ids candidate = xs @ f # n # ys"
    using node_split_ids[OF assms(4) d] .
  have base: "tab_ok area (t\<lparr>tab_tree := Some candidate\<rparr>)"
    using assms(1,2,3) c tree_fits_split[OF tf assms(4)]
    by (auto simp: tab_ok_def points_in_def tab_panes_def)
  have ids: "set (tab_panes (t\<lparr>tab_tree := Some candidate\<rparr>)) = insert n (set (tab_panes t))"
    using c assms(2) by (auto simp: tab_panes_def)
  from set_focus_ok[OF base, of n] ids
  show "tab_ok area t'" "tab_id t' = tab_id t" "set (tab_panes t') = insert n (set (tab_panes t))"
    by (auto simp: t'_def same_panes_def)
qed

text \<open>A tree that is resized or restored keeps its panes.\<close>

lemma same_tree_panes_ok:
  assumes "tab_ok area t" and "tab_tree t = Some tree" and "tree_fits area tree'"
    and "distinct (pane_ids tree')" and "set (pane_ids tree') = set (pane_ids tree)"
  shows "tab_ok area (t\<lparr>tab_tree := Some tree'\<rparr>) \<and> same_panes t (t\<lparr>tab_tree := Some tree'\<rparr>)"
  using assms by (auto simp: tab_ok_def points_in_def tab_panes_def same_panes_def)

lemma clamp_layer_ok:
  assumes "tab_ok old t" and "area_ok area" and "tree_ok area (tab_tree t)"
  shows "tab_ok area (t\<lparr>tab_floating := layer_clamp_all area (tab_floating t)\<rparr>)"
    and "tab_panes (t\<lparr>tab_floating := layer_clamp_all area (tab_floating t)\<rparr>) = tab_panes t"
proof -
  have ids: "layer_pane_ids (layer_clamp_all area (tab_floating t)) = layer_pane_ids (tab_floating t)"
    by (simp add: layer_clamp_all_def layer_pane_ids_def)
  then show "tab_panes (t\<lparr>tab_floating := layer_clamp_all area (tab_floating t)\<rparr>) = tab_panes t"
    by (simp add: tab_panes_def)
  with assms ids layer_wf_clamp_all[of old "tab_floating t" area]
  show "tab_ok area (t\<lparr>tab_floating := layer_clamp_all area (tab_floating t)\<rparr>)"
    by (simp add: tab_ok_def points_in_def)
qed

lemma visible_projections_ok:
  assumes "tab_ok area t"
  shows "\<exists>ps. visible_projections t area = Some ps"
proof (cases "tab_tree t")
  case None
  then show ?thesis by (simp add: visible_projections_def split: option.split)
next
  case (Some tree)
  with assms tree_fits_geometry[of area tree] obtain g where "geometry tree area = Some g"
    by (auto simp: tab_ok_def)
  with Some show ?thesis by (simp add: visible_projections_def split: option.split)
qed

section \<open>What a tab shows\<close>

lemma geometry_panes:
  assumes "geometry tree area = Some g" and "distinct (pane_ids tree)"
  shows "set (map fst g) = set (pane_ids tree)" and "distinct (map fst g)"
proof -
  from geometry_set[OF assms] obtain l where l: "leaf_areas tree area = Some l" "set g = set l"
    "distinct (map fst g)" by blast
  from leaf_areas_ids[OF l(1)] l(2) show "set (map fst g) = set (pane_ids tree)" by (metis list.set_map)
  show "distinct (map fst g)" by (rule l(3))
qed

text \<open>
  An unzoomed tab shows its tiled panes, then its visible floats, each once; a zoomed one shows
  the zoomed pane alone.
\<close>

lemma visible_projections_panes:
  assumes "tab_ok area t" and "visible_projections t area = Some ps"
  shows "tab_zoomed t = None \<Longrightarrow> set (map proj_pane ps) =
      set (tree_panes (tab_tree t)) \<union> float_pane ` set (layer_visible (tab_floating t))"
    and "tab_zoomed t = None \<Longrightarrow> proj_pane ` set ps \<subseteq> set (tab_panes t)"
    and "distinct (map proj_pane ps)"
proof -
  have vis: "float_pane ` set (layer_visible (tab_floating t)) \<subseteq> set (layer_pane_ids (tab_floating t))"
    by (auto simp: layer_visible_def layer_pane_ids_def)
  have dv: "distinct (map float_pane (layer_visible (tab_floating t)))"
    using assms(1) by (simp add: layer_visible_def tab_ok_def layer_wf_def layered_def distinct_map_filter)
  have dt: "distinct (tree_panes (tab_tree t))"
    "set (tree_panes (tab_tree t)) \<inter> set (layer_pane_ids (tab_floating t)) = {}"
    using assms(1) by (simp_all add: tab_ok_def tab_panes_def)
  have z: "map proj_pane ps = g @ map float_pane (layer_visible (tab_floating t)) \<and>
      set g = set (tree_panes (tab_tree t)) \<and> distinct g"
    if "tab_zoomed t = None"
      and "g = (case tab_tree t of None \<Rightarrow> [] | Some tree \<Rightarrow> map fst (the (geometry tree area)))" for g
    using that assms(2) geometry_panes[of _ area] dt(1)
    by (cases "tab_tree t")
      (auto simp: visible_projections_def comp_def case_prod_beta bind_eq_Some_conv simp del: set_map)
  show a: "set (map proj_pane ps) =
      set (tree_panes (tab_tree t)) \<union> float_pane ` set (layer_visible (tab_floating t))"
    if "tab_zoomed t = None" using z[OF that refl] by (metis set_append list.set_map)
  show "proj_pane ` set ps \<subseteq> set (tab_panes t)" if "tab_zoomed t = None"
    using a[OF that] vis by (auto simp: tab_panes_def)
  show "distinct (map proj_pane ps)"
  proof (cases "tab_zoomed t")
    case None
    with z[OF None refl] dv dt(2) vis show ?thesis by fastforce
  next
    case (Some z)
    with assms(2) show ?thesis by (auto simp: visible_projections_def)
  qed
qed

lemma visible_projections_points:
  assumes "tab_ok area t" and "visible_projections t area = Some ps" and "p \<in> set ps"
  shows "points_in t (proj_pane p)"
proof (cases "tab_zoomed t")
  case None
  with visible_projections_panes(2)[OF assms(1,2)] assms(3) show ?thesis by (auto simp: points_in_def)
next
  case (Some z)
  with assms show ?thesis by (auto simp: visible_projections_def tab_ok_def)
qed

end
