(* ===== verification/Session_Invariant.thy ===== *)
theory Session_Invariant
  imports Session_Tab_Correct
begin

text \<open>
  The session invariant and the layout cycle: relayout, closing a pane, ending a drag or a
  float-edit mode all return (the cycle between them ends, whatever the PTYs answer) and keep the
  invariant.
\<close>

section \<open>The invariant\<close>

definition pane_ok :: "'v pane \<Rightarrow> bool" where
  "pane_ok v \<longleftrightarrow> term_ok (pane_terminal v) \<and> marks (pane_terminal v) = []"

definition all_panes :: "'v session \<Rightarrow> pane_id list" where
  "all_panes s = concat (map tab_panes (tabs s))"

definition panes_ok :: "'v session \<Rightarrow> bool" where
  "panes_ok s \<longleftrightarrow> bt_wf (panes s) \<and> (\<forall>(p, v)\<in>set (panes s). p < next_pane_id s \<and> pane_ok v)"

definition host_ok :: "'v session \<Rightarrow> bool" where
  "host_ok s \<longleftrightarrow>
     10 \<le> disp_columns (last_display s) \<and> disp_columns (last_display s) \<le> 1000 \<and>
     (if status_visible (config s) then 5 else 4) \<le> disp_rows (last_display s) \<and>
     disp_rows (last_display s) \<le> 500 \<and>
     (\<forall>a. attached s = Some a \<longrightarrow> client_display a = last_display s)"

definition tabs_ok :: "'v session \<Rightarrow> bool" where
  "tabs_ok s \<longleftrightarrow>
     distinct (all_panes s) \<and> distinct (map tab_id (tabs s)) \<and>
     (\<forall>t\<in>set (tabs s). tab_id t < next_tab_id s \<and> tab_ok (content_area s) t \<and> tab_panes t \<noteq> []) \<and>
     (tabs s \<noteq> [] \<longrightarrow> active_index s < length (tabs s))"

text \<open>
  A boundary drag keeps the tree of its press; restoring it must neither lose nor revive a pane.
\<close>

definition drag_fits :: "rect \<Rightarrow> tab list \<Rightarrow> pointer_drag \<Rightarrow> bool" where
  "drag_fits area ts drag \<longleftrightarrow>
     (case drag of
        TiledBoundary tid _ _ _ original \<Rightarrow>
          tree_fits area original \<and> distinct (pane_ids original) \<and>
          (\<forall>t\<in>set ts. tab_id t = tid \<longrightarrow>
             tab_tree t \<noteq> None \<and> set (tree_panes (tab_tree t)) = set (pane_ids original))
      | _ \<Rightarrow> True)"

definition drag_ok :: "'v session \<Rightarrow> bool" where
  "drag_ok s \<longleftrightarrow> (\<forall>drag. cur_drag s = Some drag \<longrightarrow> drag_fits (content_area s) (tabs s) drag)"

definition session_ok :: "'v session \<Rightarrow> bool" where
  "session_ok s \<longleftrightarrow> panes_ok s \<and> host_ok s \<and> tabs_ok s \<and> drag_ok s \<and>
     set (all_panes s) = fst ` set (panes s)"

lemmas session_parts = session_ok_def panes_ok_def host_ok_def tabs_ok_def drag_ok_def

text \<open>Fields the invariant does not read.\<close>

lemma content_area_irrelevant [simp]:
  "content_area (s\<lparr>panes := a\<rparr>) = content_area s"
  "content_area (s\<lparr>tabs := b\<rparr>) = content_area s"
  "content_area (s\<lparr>active_index := c\<rparr>) = content_area s"
  "content_area (s\<lparr>next_pane_id := d\<rparr>) = content_area s"
  "content_area (s\<lparr>next_tab_id := d\<rparr>) = content_area s"
  "content_area (s\<lparr>copy_buffer := e\<rparr>) = content_area s"
  "content_area (s\<lparr>frame_id := d\<rparr>) = content_area s"
  "content_area (s\<lparr>force_full := f\<rparr>) = content_area s"
  "content_area (s\<lparr>pending_render := f\<rparr>) = content_area s"
  "content_area (s\<lparr>layout_revision := d\<rparr>) = content_area s"
  "content_area (s\<lparr>cur_drag := g\<rparr>) = content_area s"
  "content_area (s\<lparr>cur_modal := h\<rparr>) = content_area s"
  "content_area (s\<lparr>next_float_mode := d\<rparr>) = content_area s"
  "content_area (s\<lparr>session_sequence := d\<rparr>) = content_area s"
  "content_area (s\<lparr>outbox := i\<rparr>) = content_area s"
  by (simp_all add: content_area_def layout_display_def split: option.split)

lemma session_ok_irrelevant [simp]:
  "session_ok (s\<lparr>copy_buffer := e\<rparr>) = session_ok s"
  "session_ok (s\<lparr>frame_id := d\<rparr>) = session_ok s"
  "session_ok (s\<lparr>force_full := f\<rparr>) = session_ok s"
  "session_ok (s\<lparr>pending_render := f\<rparr>) = session_ok s"
  "session_ok (s\<lparr>layout_revision := d\<rparr>) = session_ok s"
  "session_ok (s\<lparr>cur_modal := h\<rparr>) = session_ok s"
  "session_ok (s\<lparr>next_float_mode := d\<rparr>) = session_ok s"
  "session_ok (s\<lparr>session_sequence := d\<rparr>) = session_ok s"
  "session_ok (s\<lparr>outbox := i\<rparr>) = session_ok s"
  by (simp_all add: session_parts all_panes_def)

lemma session_ok_no_drag: "session_ok s \<Longrightarrow> session_ok (s\<lparr>cur_drag := None\<rparr>)"
  by (simp add: session_parts all_panes_def)

lemma session_ok_emit [simp]:
  "session_ok (emit e s) = session_ok s" "session_ok (to_client e s) = session_ok s"
  "session_ok (status m s) = session_ok s" "session_ok (schedule_render s) = session_ok s"
  "session_ok (bump_layout s) = session_ok s" "session_ok (projection_changed s) = session_ok s"
  by (simp_all add: emit_def to_client_def status_def schedule_render_def bump_layout_def
      projection_changed_def)

lemma area_ok_content: "host_ok s \<Longrightarrow> area_ok (content_area s)"
  by (auto simp: host_ok_def area_ok_def rect_ok_def content_area_def layout_display_def
      split: option.split if_splits)

lemma session_area: "session_ok s \<Longrightarrow> area_ok (content_area s)"
  by (simp add: session_ok_def area_ok_content)

section \<open>Changing one tab\<close>

lemma active_tab_Some:
  "active_tab s = Some t \<longleftrightarrow> active_index s < length (tabs s) \<and> tabs s ! active_index s = t"
  by (auto simp: active_tab_def vec_get_def)

lemma active_tab_ok: "session_ok s \<Longrightarrow> active_tab s = Some t \<Longrightarrow> tab_ok (content_area s) t"
  by (auto simp: session_parts active_tab_Some)

lemma all_panes_update:
  assumes "i < length ts" and "set (tab_panes t) = set (tab_panes (ts ! i)) \<union> new"
  shows "set (concat (map tab_panes (ts[i := t]))) = set (concat (map tab_panes ts)) \<union> new"
proof -
  have "ts = take i ts @ ts ! i # drop (Suc i) ts" by (rule id_take_nth_drop[OF assms(1)])
  then have "set (concat (map tab_panes ts)) = set (concat (map tab_panes (take i ts))) \<union>
      set (tab_panes (ts ! i)) \<union> set (concat (map tab_panes (drop (Suc i) ts)))"
    by (metis Un_assoc concat.simps(2) concat_append list.simps(9) map_append set_append)
  with assms show ?thesis by (auto simp: upd_conv_take_nth_drop)
qed

lemma distinct_concat_update:
  assumes "distinct (concat xss)" and "i < length xss" and "distinct ys"
    and "set ys \<subseteq> set (xss ! i) \<union> new" and "new \<inter> set (concat xss) = {}"
  shows "distinct (concat (xss[i := ys]))"
proof -
  have "xss = take i xss @ xss ! i # drop (Suc i) xss" by (rule id_take_nth_drop[OF assms(2)])
  then have c: "concat xss = concat (take i xss) @ xss ! i @ concat (drop (Suc i) xss)"
    by (metis concat.simps(2) concat_append)
  have u: "concat (xss[i := ys]) = concat (take i xss) @ ys @ concat (drop (Suc i) xss)"
    using assms(2) by (simp add: upd_conv_take_nth_drop)
  show ?thesis using assms(1,3,4,5) unfolding u c by (auto simp del: set_concat)
qed

text \<open>
  The one lemma behind every tab operation: a tab of the same number is put in place of another;
  its panes are the old ones and perhaps new ones already registered with the session.
\<close>

lemma replace_tab_ok:
  assumes "session_ok s" and "i < length (tabs s)"
    and "tab_ok (content_area s) t" and "same_panes (tabs s ! i) t"
  shows "session_ok (s\<lparr>tabs := (tabs s)[i := t]\<rparr>)"
proof -
  let ?s = "s\<lparr>tabs := (tabs s)[i := t]\<rparr>"
  have sp: "set (tab_panes t) = set (tab_panes (tabs s ! i))" "tab_id t = tab_id (tabs s ! i)"
    using assms(4) by (auto simp: same_panes_def)
  have old: "tabs s ! i \<in> set (tabs s)" using assms(2) by simp
  have "distinct (concat ((map tab_panes (tabs s))[i := tab_panes t]))"
    using assms(1,2,3) sp
    by (intro distinct_concat_update[where new = "{}"]) (auto simp: session_parts all_panes_def tab_ok_def)
  then have d: "distinct (all_panes ?s)" by (simp add: all_panes_def map_update)
  have "map tab_id ((tabs s)[i := t]) = map tab_id (tabs s)"
    using sp(2) assms(2) by (simp add: map_update list_update_same_conv)
  then have ids: "distinct (map tab_id (tabs ?s))" using assms(1) by (simp add: session_parts)
  have all: "tab_id u < next_tab_id s \<and> tab_ok (content_area s) u \<and> tab_panes u \<noteq> []"
    if "u \<in> set ((tabs s)[i := t])" for u
  proof -
    have "u = t \<or> u \<in> set (tabs s)" using that set_update_subset_insert by fastforce
    moreover have "tab_id t < next_tab_id s \<and> tab_panes t \<noteq> []"
    proof -
      have "tab_id (tabs s ! i) < next_tab_id s" "tab_panes (tabs s ! i) \<noteq> []"
        using assms(1) old by (auto simp: session_parts)
      with sp show ?thesis by (metis set_empty)
    qed
    ultimately show ?thesis using assms(1,3) by (auto simp: session_parts)
  qed
  have set: "set (all_panes ?s) = set (all_panes s)"
    using all_panes_update[OF assms(2), of t "{}"] sp(1) by (simp add: all_panes_def)
  have "drag_ok ?s"
  proof -
    have "drag_fits (content_area s) ((tabs s)[i := t]) drag" if "cur_drag s = Some drag" for drag
    proof -
      have f: "drag_fits (content_area s) (tabs s) drag" using assms(1) that by (simp add: session_parts)
      show ?thesis
      proof (cases drag)
        case (TiledBoundary tid ax b l original)
        have "tab_tree u \<noteq> None \<and> set (tree_panes (tab_tree u)) = set (pane_ids original)"
          if "u \<in> set ((tabs s)[i := t])" "tab_id u = tid" for u
        proof -
          have "u = t \<or> u \<in> set (tabs s)" using that(1) set_update_subset_insert by fastforce
          with f old that(2) assms(4) TiledBoundary show ?thesis
            by (auto simp: drag_fits_def same_panes_def)
        qed
        with f TiledBoundary show ?thesis by (simp add: drag_fits_def)
      qed (simp_all add: drag_fits_def)
    qed
    then show ?thesis by (simp add: drag_ok_def)
  qed
  with d ids all set assms(1) show ?thesis by (simp add: session_ok_def panes_ok_def host_ok_def tabs_ok_def)
qed

lemma update_active_ok:
  assumes "session_ok s" and "\<And>t. active_tab s = Some t \<Longrightarrow>
    tab_ok (content_area s) t \<Longrightarrow> tab_ok (content_area s) (f t) \<and> same_panes t (f t)"
  shows "session_ok (update_active f s)"
  using assms active_tab_ok[OF assms(1)] replace_tab_ok[OF assms(1)]
  by (auto simp: update_active_def active_tab_Some split: option.split)

lemma try_active_ok:
  assumes "session_ok s" and "\<And>t. active_tab s = Some t \<Longrightarrow> tab_ok (content_area s) t \<Longrightarrow>
    tab_ok (content_area s) (snd (f t)) \<and> same_panes t (snd (f t))"
  shows "session_ok (snd (try_active f s))"
  using assms active_tab_ok[OF assms(1)] replace_tab_ok[OF assms(1)]
  by (auto simp: try_active_def active_tab_Some split: option.split)

lemma try_tab_ok:
  assumes "session_ok s" and "\<And>t. t \<in> set (tabs s) \<Longrightarrow> P t \<Longrightarrow> tab_ok (content_area s) t \<Longrightarrow>
    tab_ok (content_area s) (snd (f t)) \<and> same_panes t (snd (f t))"
  shows "session_ok (snd (try_tab P f s))"
proof (cases "position P (tabs s)")
  case None
  with assms(1) show ?thesis by (simp add: try_tab_def)
next
  case (Some i)
  then have i: "i < length (tabs s)" "P (tabs s ! i)" by (auto dest: position_SomeD)
  with assms(1) have "tab_ok (content_area s) (tabs s ! i)" by (auto simp: session_parts)
  with assms(2)[of "tabs s ! i"] i replace_tab_ok[OF assms(1) i(1)] Some show ?thesis
    by (simp add: try_tab_def)
qed

end
