(* ===== verification/Session_Cycle.thy ===== *)
theory Session_Cycle
  imports Session_Invariant
begin

text \<open>
  The cycle of the layout core. Laying out resizes the PTYs; a PTY that refuses its size has its
  pane closed; closing ends a pointer drag and a float-edit mode, which restores rectangles and
  lays out again. Each turn of the cycle removes a pane, the drag or the mode, so it ends.
\<close>

section \<open>Bookkeeping\<close>

definition mu :: "'v session \<Rightarrow> nat" where
  "mu s = length (panes s) + option_size (cur_drag s) + option_size (cur_modal s)"

text \<open>What the cycle never touches, and what it may only take away.\<close>

definition calm :: "'v session \<Rightarrow> 'v session \<Rightarrow> bool" where
  "calm s s' \<longleftrightarrow>
     config s' = config s \<and> attached s' = attached s \<and> last_display s' = last_display s \<and>
     next_pane_id s' = next_pane_id s \<and> next_tab_id s' = next_tab_id s \<and>
     next_float_mode s' = next_float_mode s \<and> copy_buffer s' = copy_buffer s \<and>
     frame_id s' = frame_id s \<and>
     fst ` set (panes s') \<subseteq> fst ` set (panes s) \<and> length (panes s') \<le> length (panes s) \<and>
     (cur_drag s' = None \<or> cur_drag s' = cur_drag s) \<and>
     (cur_modal s' = None \<or> cur_modal s' = cur_modal s)"

lemma calm_refl [simp, intro]: "calm s s"
  by (simp add: calm_def)

lemma calm_trans: "calm s s' \<Longrightarrow> calm s' s'' \<Longrightarrow> calm s s''"
  unfolding calm_def
  by (elim conjE) (intro conjI; (simp; fail | erule (1) subset_trans | linarith | fastforce))

lemma calm_mu: "calm s s' \<Longrightarrow> mu s' \<le> mu s"
  by (auto simp: calm_def mu_def option_size_def split: option.splits)

lemma calm_area: "calm s s' \<Longrightarrow> content_area s' = content_area s"
  by (simp add: calm_def content_area_def layout_display_def split: option.split)

lemma calm_simps [simp]:
  "calm s (s'\<lparr>force_full := f\<rparr>) = calm s s'" "calm s (s'\<lparr>pending_render := f\<rparr>) = calm s s'"
  "calm s (s'\<lparr>layout_revision := n\<rparr>) = calm s s'" "calm s (s'\<lparr>session_sequence := n\<rparr>) = calm s s'"
  "calm s (s'\<lparr>outbox := ob\<rparr>) = calm s s'" "calm s (s'\<lparr>tabs := ts\<rparr>) = calm s s'"
  "calm s (s'\<lparr>active_index := n\<rparr>) = calm s s'"
  by (simp_all add: calm_def)

lemma calm_emit [simp]:
  "calm s (emit e s') = calm s s'" "calm s (to_client e s') = calm s s'"
  "calm s (status m s') = calm s s'" "calm s (schedule_render s') = calm s s'"
  "calm s (bump_layout s') = calm s s'"
  by (simp_all add: emit_def to_client_def status_def schedule_render_def bump_layout_def)

lemma calm_try [simp]: "calm s (snd (try_tab P f s')) = calm s s'"
  by (simp add: try_tab_def split: option.split)

lemma mu_simps [simp]:
  "mu (s\<lparr>force_full := f\<rparr>) = mu s" "mu (s\<lparr>pending_render := f\<rparr>) = mu s"
  "mu (s\<lparr>tabs := ts\<rparr>) = mu s" "mu (s\<lparr>active_index := n\<rparr>) = mu s"
  "mu (emit e s) = mu s" "mu (to_client e s) = mu s" "mu (status m s) = mu s"
  "mu (bump_layout s) = mu s" "mu (snd (try_tab P g s)) = mu s"
  by (simp_all add: mu_def emit_def to_client_def status_def bump_layout_def try_tab_def split: option.split)

section \<open>Panes\<close>

lemma pane_update_fst: "map fst (panes (pane_update p f s)) = map fst (panes s)"
  by (simp add: pane_update_def comp_def case_prod_beta)

lemma pane_get_ok: "session_ok s \<Longrightarrow> pane_get p s = Some v \<Longrightarrow> pane_ok v"
  by (auto simp: session_parts pane_get_def dest: map_of_SomeD)

lemma pane_get_iff: "pane_get p s = None \<longleftrightarrow> p \<notin> fst ` set (panes s)"
  by (simp add: pane_get_def map_of_eq_None_iff)

lemma parts_panes [simp]:
  "all_panes (s\<lparr>panes := ps\<rparr>) = all_panes s" "host_ok (s\<lparr>panes := ps\<rparr>) = host_ok s"
  "tabs_ok (s\<lparr>panes := ps\<rparr>) = tabs_ok s" "drag_ok (s\<lparr>panes := ps\<rparr>) = drag_ok s"
  by (simp_all add: all_panes_def host_ok_def tabs_ok_def drag_ok_def)

lemma session_ok_panes:
  assumes "session_ok s" and "map fst ps = map fst (panes s)" and "\<forall>(p, v)\<in>set ps. pane_ok v"
  shows "session_ok (s\<lparr>panes := ps\<rparr>)"
proof -
  have k: "fst ` set ps = fst ` set (panes s)" by (metis assms(2) list.set_map)
  have old: "panes_ok s" using assms(1) by (simp add: session_ok_def)
  have "p < next_pane_id s" if "(p, v) \<in> set ps" for p v
  proof -
    have "p \<in> fst ` set (panes s)" unfolding k[symmetric] using that by force
    with old show ?thesis by (auto simp: panes_ok_def)
  qed
  with assms(2,3) old have "panes_ok (s\<lparr>panes := ps\<rparr>)" by (auto simp: panes_ok_def bt_wf_def)
  with k assms(1) show ?thesis by (simp add: session_ok_def)
qed

lemma pane_update_ok:
  assumes "session_ok s" and "\<And>v. pane_get p s = Some v \<Longrightarrow> pane_ok v \<Longrightarrow> pane_ok (f v)"
  shows "session_ok (pane_update p f s)" and "calm s (pane_update p f s)"
proof -
  let ?ps = "map (\<lambda>(q, v). (q, if q = p then f v else v)) (panes s)"
  have d: "distinct (map fst (panes s))" using assms(1) bt_wf_distinct by (auto simp: session_parts)
  have "pane_ok (f v)" if "(p, v) \<in> set (panes s)" for v
    using that assms d by (auto simp: session_parts pane_get_def)
  moreover have "\<forall>(q, v)\<in>set (panes s). pane_ok v" using assms(1) by (auto simp: session_parts)
  ultimately have "\<forall>(p, v)\<in>set ?ps. pane_ok v" by auto
  then show "session_ok (pane_update p f s)"
    unfolding pane_update_def
    by (intro session_ok_panes[OF assms(1)]) (simp_all add: comp_def case_prod_beta)
  show "calm s (pane_update p f s)" by (force simp: pane_update_def calm_def)
qed

lemma pane_ok_simps [simp]:
  "pane_ok (v\<lparr>pane_metrics := m\<rparr>) = pane_ok v" "pane_ok (v\<lparr>pane_copy := c\<rparr>) = pane_ok v"
  "pane_ok (note_change r v) = pane_ok v"
  by (simp_all add: pane_ok_def note_change_def Let_def)

lemma pane_ok_resize: "pane_ok v \<Longrightarrow> pane_ok (v\<lparr>pane_terminal := terminal_resize h w (pane_terminal v)\<rparr>)"
  by (simp add: pane_ok_def terminal_resize_ok) (simp add: terminal_resize_def marks_def Let_def)

section \<open>One layout pass\<close>

definition pass_ok :: "'v session \<Rightarrow> pane_id list \<times> nat \<times> 'v session \<Rightarrow> bool" where
  "pass_ok s0 acc \<longleftrightarrow> (case acc of (failed, n, s) \<Rightarrow>
     session_ok s \<and> calm s0 s \<and> tabs s = tabs s0 \<and> active_index s = active_index s0 \<and>
     cur_drag s = cur_drag s0 \<and> cur_modal s = cur_modal s0 \<and>
     map fst (panes s) = map fst (panes s0) \<and> set failed \<subseteq> fst ` set (panes s0))"

lemma resize_pane_ok:
  assumes "pass_ok s0 acc"
  shows "pass_ok s0 (resize_pane w d proj acc)"
proof -
  obtain failed n s where acc: "acc = (failed, n, s)" by (metis prod_cases3)
  let ?p = "proj_pane proj"
  show ?thesis
  proof (cases "pane_get ?p s")
    case None
    with assms acc show ?thesis by (simp add: resize_pane_def Let_def)
  next
    case (Some v)
    have s: "session_ok s" using assms acc by (simp add: pass_ok_def)
    have step: "session_ok (pane_update ?p f u) \<and> calm s0 (pane_update ?p f u)"
      if "session_ok u" "calm s0 u" "\<And>v. pane_ok v \<Longrightarrow> pane_ok (f v)" for f and u :: "'a session"
      using pane_update_ok[OF that(1), of ?p f] that(2,3) calm_trans by blast
    have other: "tabs (pane_update ?p f u) = tabs u" "active_index (pane_update ?p f u) = active_index u"
      "cur_drag (pane_update ?p f u) = cur_drag u" "cur_modal (pane_update ?p f u) = cur_modal u"
      "tabs (emit e u) = tabs u" "active_index (emit e u) = active_index u"
      "cur_drag (emit e u) = cur_drag u" "cur_modal (emit e u) = cur_modal u" "panes (emit e u) = panes u"
      for f e and u :: "'a session"
      by (simp_all add: pane_update_def emit_def)
    define s1 where "s1 = (if rows (pane_terminal v) \<noteq> rect_height (proj_content proj) \<or>
        cols (pane_terminal v) \<noteq> rect_width (proj_content proj)
      then pane_update ?p (\<lambda>v. note_change None (v\<lparr>pane_terminal := terminal_resize
          (rect_height (proj_content proj)) (rect_width (proj_content proj)) (pane_terminal v)\<rparr>)) s
      else s)"
    have p1: "pass_ok s0 (failed, n, s1)"
      using assms acc step[OF s] by (auto simp: s1_def pass_ok_def other pane_update_fst pane_ok_resize)
    then have "session_ok s1" "calm s0 s1" by (simp_all add: pass_ok_def)
    then have p2: "pass_ok s0 (failed, n, emit e (pane_update ?p (\<lambda>v. v\<lparr>pane_metrics := m\<rparr>) s1))" for e m
      using p1 step[of s1 "\<lambda>v. v\<lparr>pane_metrics := m\<rparr>"]
      by (simp add: pass_ok_def other pane_update_fst)
    have "?p \<in> fst ` set (panes s)" using Some pane_get_iff[of ?p s] by auto
    moreover have "fst ` set (panes s) = fst ` set (panes s0)"
      using assms acc by (simp add: pass_ok_def) (metis list.set_map)
    ultimately have p: "?p \<in> fst ` set (panes s0)" by simp
    have grow: "pass_ok s0 (f', n', u)" if "pass_ok s0 (failed, n, u)" "set f' \<subseteq> insert ?p (set failed)"
      for f' n' u using that p by (auto simp: pass_ok_def)
    show ?thesis
      unfolding acc resize_pane_def prod.case Let_def Some option.case s1_def[symmetric]
      by (auto split: if_splits intro!: grow p1 p2)
  qed
qed

lemma fold_resize_pane_ok: "pass_ok s0 acc \<Longrightarrow> pass_ok s0 (fold (resize_pane w d) ps acc)"
  by (induction ps arbitrary: acc) (simp_all add: resize_pane_ok)

lemma resize_tabs_ok:
  "\<forall>t\<in>set ts. tab_ok area t \<Longrightarrow> pass_ok s0 acc \<Longrightarrow>
     \<exists>acc'. resize_tabs w area d ts acc = Some acc' \<and> pass_ok s0 acc'"
proof (induction ts arbitrary: acc)
  case (Cons t ts)
  then obtain ps where "visible_projections t area = Some ps"
    using visible_projections_ok[of area t] by auto
  with Cons.IH[of "fold (resize_pane w d) ps acc"] Cons.prems show ?case
    by (simp add: fold_resize_pane_ok)
qed simp

section \<open>The cycle\<close>

text \<open>
  The contract of the inner layout operation \<open>ra\<close>: on a session of the invariant whose measure is
  below the bound it returns, keeps the invariant and only takes panes, the drag or the mode away.
\<close>

definition returns_ok :: "('v session \<Rightarrow> 'v session option) \<Rightarrow> 'v session \<Rightarrow> bool" where
  "returns_ok f s \<longleftrightarrow> (\<exists>s'. f s = Some s' \<and> session_ok s' \<and> calm s s')"

lemma returns_okE:
  assumes "returns_ok f s"
  obtains s' where "f s = Some s'" and "session_ok s'" and "calm s s'"
  using assms by (auto simp: returns_ok_def)

text \<open>The session between the removal of a pane's process and its removal from its tab.\<close>

lemma session_ok_drop:
  assumes "session_ok s" and "cur_drag s = None"
    and "i < length (tabs s)" and "p \<in> set (tab_panes (tabs s ! i))"
  shows "session_ok (remove_from_tab i p (drop_pane p s))"
proof -
  let ?a = "content_area s"
  let ?t = "forget_pane p (tabs s ! i)"
  let ?u = "refocus p ?t"
  have ti: "tabs s ! i \<in> set (tabs s)" using assms(3) by simp
  have ok: "tab_ok ?a (tabs s ! i)" using assms(1) ti by (auto simp: session_parts)
  note area = session_area[OF assms(1)]
  note u = closed_tab_ok[OF ok area, of p]
  have pp: "p \<in> set (all_panes s)" using assms(3,4) by (auto simp: all_panes_def)
  define ts where "ts = (if tab_is_empty ?t then remove_at i (tabs s) else (tabs s)[i := ?u])"
  have split: "tabs s = take i (tabs s) @ tabs s ! i # drop (Suc i) (tabs s)"
    by (rule id_take_nth_drop[OF assms(3)])
  define rest where "rest = take i (tabs s) @ drop (Suc i) (tabs s)"
  have empty: "tab_is_empty ?t \<longleftrightarrow> set (tab_panes (tabs s ! i)) = {p}"
    using forget_pane_panes(1)[OF ok, of p] assms(4)
    by (auto simp: tab_is_empty_iff filter_empty_conv)
  have mem: "v \<in> set ts \<longleftrightarrow> v \<in> set rest \<or> \<not> tab_is_empty ?t \<and> v = ?u" for v
    using assms(3) by (auto simp: ts_def rest_def remove_at_def upd_conv_take_nth_drop)
  have old: "set (all_panes s) = (\<Union>t\<in>set rest. set (tab_panes t)) \<union> set (tab_panes (tabs s ! i))"
    unfolding all_panes_def by (subst split) (auto simp: rest_def)
  have disj: "(\<Union>t\<in>set rest. set (tab_panes t)) \<inter> set (tab_panes (tabs s ! i)) = {}"
    using assms(1) unfolding session_parts all_panes_def rest_def
    by (subst (asm) split) auto
  have new: "(\<Union>t\<in>set ts. set (tab_panes t)) = set (all_panes s) - {p}"
  proof (cases "tab_is_empty ?t")
    case True
    then have "set ts = set rest" using mem by auto
    with True old disj empty show ?thesis by auto
  next
    case False
    then have "set ts = insert ?u (set rest)" using mem by auto
    then have "(\<Union>t\<in>set ts. set (tab_panes t)) =
        (\<Union>t\<in>set rest. set (tab_panes t)) \<union> (set (tab_panes (tabs s ! i)) - {p})"
      using u(3) by auto
    with old disj assms(4) show ?thesis by blast
  qed
  have restin: "set rest \<subseteq> set (tabs s)"
    using set_take_subset set_drop_subset by (fastforce simp: rest_def)
  have drest: "distinct (concat (map tab_panes rest))" "distinct (map tab_id rest)"
    "tab_id (tabs s ! i) \<notin> tab_id ` set rest"
    using assms(1) unfolding session_parts all_panes_def rest_def
    by (subst (asm) (1 2) split; auto)+
  have d: "distinct (concat (map tab_panes ts))"
  proof (cases "tab_is_empty ?t")
    case True
    then show ?thesis using drest(1) by (simp add: ts_def rest_def remove_at_def)
  next
    case False
    have "distinct (concat ((map tab_panes (tabs s))[i := tab_panes ?u]))"
      using assms(1,3) u(1,3)
      by (intro distinct_concat_update[where new = "{}"]) (auto simp: session_parts all_panes_def tab_ok_def)
    with False show ?thesis by (simp add: ts_def map_update)
  qed
  have di: "distinct (map tab_id ts)"
  proof (cases "tab_is_empty ?t")
    case True
    then show ?thesis using drest(2) by (simp add: ts_def rest_def remove_at_def)
  next
    case False
    have "map tab_id ((tabs s)[i := ?u]) = map tab_id (tabs s)"
      using u(2) assms(3) by (simp add: map_update list_update_same_conv)
    with False assms(1) show ?thesis by (simp add: ts_def session_parts)
  qed
  have each: "tab_id v < next_tab_id s \<and> tab_ok ?a v \<and> tab_panes v \<noteq> []" if m: "v \<in> set ts" for v
  proof -
    consider "v \<in> set rest" | "\<not> tab_is_empty ?t" "v = ?u"
      using m mem[of v] by blast
    then show ?thesis
    proof cases
      case 1
      with restin assms(1) show ?thesis by (auto simp: session_parts)
    next
      case 2
      have "set (tab_panes (tabs s ! i)) - {p} \<noteq> {}" using empty 2(1) assms(4) by blast
      then have "tab_panes ?u \<noteq> []" unfolding u(3)[symmetric] by simp
      moreover have "tab_id ?u < next_tab_id s" using u(2) ti assms(1) by (simp add: session_parts)
      ultimately show ?thesis using u(1) 2(2) by simp
    qed
  qed
  let ?ps = "filter (\<lambda>(q, _). q \<noteq> p) (panes s)"
  have ps: "(case pane_get p s of None \<Rightarrow> s | Some _ \<Rightarrow> emit (TerminatedPane p) (s\<lparr>panes := ?ps\<rparr>)) =
      emit (TerminatedPane p) (s\<lparr>panes := ?ps\<rparr>)"
    using pp assms(1) pane_get_iff[of p s] by (auto simp: session_ok_def split: option.split)
  have keys: "fst ` set ?ps = fst ` set (panes s) - {p}" by (auto simp: image_iff)
  have wf: "bt_wf ?ps" using assms(1) by (simp add: session_parts bt_wf_def sorted_wrt_map sorted_wrt_filter)
  define s' where "s' = remove_from_tab i p (drop_pane p s)"
  have ds: "drop_pane p s = emit (RevokedPane p) (emit (TerminatedPane p) (s\<lparr>panes := ?ps\<rparr>))"
    unfolding drop_pane_def ps ..
  then have same: "tabs (drop_pane p s) = tabs s" "active_index (drop_pane p s) = active_index s"
    by (simp_all add: emit_def)
  have s': "s' = (drop_pane p s)\<lparr>tabs := ts, active_index :=
      (if length ts \<le> active_index s then length ts - 1 else active_index s), force_full := True\<rparr>"
    unfolding s'_def remove_from_tab_def same Let_def ts_def[symmetric] ..
  have f: "panes s' = ?ps" "tabs s' = ts" "config s' = config s" "last_display s' = last_display s"
    "attached s' = attached s" "next_pane_id s' = next_pane_id s" "next_tab_id s' = next_tab_id s"
    "cur_drag s' = None" "ts \<noteq> [] \<Longrightarrow> active_index s' < length ts"
    using assms(1,2) unfolding s'
    by (auto simp: ds emit_def session_parts)
  have "content_area s' = ?a" by (simp add: content_area_def layout_display_def f split: option.split)
  then have "tabs_ok s'" using d di each f by (simp add: tabs_ok_def all_panes_def)
  moreover have "panes_ok s'" using assms(1) wf by (auto simp: session_parts f)
  moreover have "host_ok s'" "drag_ok s'" using assms(1) by (simp_all add: session_parts f)
  moreover have "set (all_panes s') = fst ` set (panes s')"
    using new keys assms(1) by (simp add: all_panes_def f session_ok_def)
  ultimately show ?thesis unfolding s'_def[symmetric] by (simp add: session_ok_def)
qed

text \<open>Ending a drag restores what \<open>drag_ok\<close> promises; the drag itself is gone by then.\<close>

lemma restore_drag_ok:
  assumes "session_ok s" and "drag_fits (content_area s) (tabs s) drag"
  shows "session_ok (snd (restore_drag drag s)) \<and> calm s (snd (restore_drag drag s)) \<and>
    cur_drag (snd (restore_drag drag s)) = cur_drag s \<and> mu (snd (restore_drag drag s)) = mu s"
proof -
  note area = session_area[OF assms(1)]
  have "session_ok (snd (restore_drag drag s))"
  proof (cases drag)
    case (TiledBoundary tid ax b l original)
    have "tab_ok (content_area s) (t\<lparr>tab_tree := Some original\<rparr>) \<and> same_panes t (t\<lparr>tab_tree := Some original\<rparr>)"
      if "t \<in> set (tabs s)" "tab_id t = tid" "tab_ok (content_area s) t" for t
    proof -
      from assms(2) that TiledBoundary obtain tree where t: "tab_tree t = Some tree"
        "set (pane_ids original) = set (pane_ids tree)" by (auto simp: drag_fits_def)
      with same_tree_panes_ok[OF that(3) t(1), of original] assms(2) TiledBoundary
      show ?thesis by (simp add: drag_fits_def)
    qed
    with TiledBoundary show ?thesis
      unfolding restore_drag_def by (auto intro!: try_tab_ok[OF assms(1)])
  next
    case (MoveFloat tid p start original)
    then show ?thesis
      unfolding restore_drag_def
      by (auto simp: layer_set_rect_def update_rect_ok[OF _ area] intro!: try_tab_ok[OF assms(1)])
  next
    case (ResizeFloat tid p edges start original)
    then show ?thesis
      unfolding restore_drag_def
      by (auto simp: layer_set_rect_def update_rect_ok[OF _ area] intro!: try_tab_ok[OF assms(1)])
  qed
  moreover have "cur_drag (snd (try_tab P f s)) = cur_drag s" for P and f :: "tab \<Rightarrow> bool \<times> tab"
    by (simp add: try_tab_def split: option.split)
  ultimately show ?thesis by (cases drag) (simp_all add: restore_drag_def)
qed

locale layout_cycle =
  fixes ra :: "'v session \<Rightarrow> 'v session option"
    and bound :: nat
  assumes ra_ok: "session_ok s \<Longrightarrow> mu s < bound \<Longrightarrow> returns_ok ra s"
begin

lemma relayout_with_ok:
  assumes "session_ok s" and "mu s < bound"
  shows "returns_ok (relayout_with ra) s"
proof -
  from ra_ok[of "bump_layout s"] assms obtain s' where
    "ra (bump_layout s) = Some s'" "session_ok s'" "calm (bump_layout s) s'"
    by (auto simp: returns_ok_def)
  moreover have "calm s (bump_layout s)" by simp
  ultimately show ?thesis
    using calm_trans[of s "bump_layout s" s'] by (simp add: returns_ok_def relayout_with_def)
qed

lemma relayout_if_ok:
  assumes "session_ok (snd r)" and "mu (snd r) < bound" and "calm s (snd r)"
  shows "\<exists>s'. relayout_if ra r = Some s' \<and> session_ok s' \<and> calm s s' \<and>
    (cur_drag s' = None \<or> cur_drag s' = cur_drag (snd r))"
proof (cases "fst r")
  case False
  with assms show ?thesis by (simp add: relayout_if_def)
next
  case True
  let ?r = "(snd r)\<lparr>force_full := True\<rparr>"
  have "session_ok ?r" "mu ?r < bound" "calm s ?r" using assms by simp_all
  with relayout_with_ok[of ?r] obtain s' where
    "relayout_with ra ?r = Some s'" "session_ok s'" "calm ?r s'" by (auto elim: returns_okE)
  moreover from this have "cur_drag s' = None \<or> cur_drag s' = cur_drag (snd r)" by (simp add: calm_def)
  ultimately show ?thesis using True \<open>calm s ?r\<close> calm_trans[of s ?r s'] by (simp add: relayout_if_def)
qed

text \<open>A drag or a mode that ends pays for the relayout it may need.\<close>

lemma cancel_pointer_drag_with_ok:
  assumes "session_ok s" and "mu s \<le> bound"
  shows "\<exists>s'. cancel_pointer_drag_with ra restore s = Some s' \<and> session_ok s' \<and> calm s s' \<and>
    cur_drag s' = None"
proof (cases "cur_drag s")
  case None
  with assms show ?thesis by (simp add: cancel_pointer_drag_with_def)
next
  case (Some drag)
  let ?s = "s\<lparr>cur_drag := None\<rparr>"
  have s: "session_ok ?s" using assms(1) by (rule session_ok_no_drag)
  have m: "mu ?s < bound" using assms(2) Some by (simp add: mu_def option_size_def)
  have c: "calm s ?s" by (simp add: calm_def)
  show ?thesis
  proof (cases restore)
    case False
    with Some s c show ?thesis by (simp add: cancel_pointer_drag_with_def)
  next
    case True
    have "drag_fits (content_area ?s) (tabs ?s) drag" using assms(1) Some by (simp add: session_ok_def drag_ok_def)
    note r = restore_drag_ok[OF s this]
    from r c have "calm s (snd (restore_drag drag ?s))" using calm_trans by blast
    with relayout_if_ok[of "restore_drag drag ?s" s] r m obtain s' where
      s': "relayout_if ra (restore_drag drag ?s) = Some s'" "session_ok s'" "calm s s'" "cur_drag s' = None"
      by auto
    with s' Some True show ?thesis by (simp add: cancel_pointer_drag_with_def)
  qed
qed

lemma end_float_mode_with_ok:
  assumes "session_ok s" and "mu s \<le> bound"
  shows "returns_ok (end_float_mode_with ra restore) s"
proof (cases "cur_modal s")
  case None
  with assms show ?thesis by (simp add: returns_ok_def end_float_mode_with_def)
next
  case (Some m)
  let ?s = "s\<lparr>cur_modal := None\<rparr>"
  have s: "session_ok ?s" using assms(1) by simp
  have mu: "mu ?s < bound" using assms(2) Some by (simp add: mu_def option_size_def)
  have c: "calm s ?s" by (simp add: calm_def)
  let ?r = "try_tab (\<lambda>t. layer_contains (tab_floating t) (modal_pane m))
    (on_layer (layer_set_rect (modal_pane m) (modal_original m) (content_area ?s))) ?s"
  have "session_ok (snd ?r)"
    using update_rect_ok[OF _ session_area[OF s]]
    by (intro try_tab_ok[OF s]) (simp add: layer_set_rect_def)
  with relayout_if_ok[of ?r s] mu c obtain s' where
    "relayout_if ra ?r = Some s'" "session_ok s'" "calm s s'" by auto
  with Some s c show ?thesis by (simp add: returns_ok_def end_float_mode_with_def Let_def)
qed

lemma close_pane_with_ok:
  assumes "session_ok s" and "mu s \<le> bound"
  shows "\<exists>s'. close_pane_with ra p s = Some s' \<and> session_ok s' \<and> calm s s' \<and> p \<notin> fst ` set (panes s')"
proof -
  obtain s1 where s1: "(case cur_drag s of None \<Rightarrow> Some s
      | Some drag \<Rightarrow> cancel_pointer_drag_with ra (drag_pane drag \<noteq> Some p) s) = Some s1"
    "session_ok s1" "calm s s1" "cur_drag s1 = None"
    using cancel_pointer_drag_with_ok[OF assms] assms(1) by (cases "cur_drag s") auto
  then have m1: "mu s1 \<le> bound" using calm_mu[OF s1(3)] assms(2) by simp
  obtain s2 where s2: "(case cur_modal s1 of None \<Rightarrow> Some s1
      | Some m \<Rightarrow> end_float_mode_with ra (modal_pane m \<noteq> p) s1) = Some s2"
    "session_ok s2" "calm s1 s2"
    using end_float_mode_with_ok[OF s1(2) m1] s1(2) by (cases "cur_modal s1") (auto elim: returns_okE)
  have d2: "cur_drag s2 = None" using s2(3) s1(4) by (auto simp: calm_def)
  have c2: "calm s s2" using s1(3) s2(3) by (rule calm_trans)
  let ?s3 = "drop_pane p s2"
  have f: "tabs ?s3 = tabs s2" "cur_drag ?s3 = cur_drag s2"
    by (simp_all add: drop_pane_def emit_def split: option.split)
  have k: "fst ` set (panes ?s3) = fst ` set (panes s2) - {p}"
    using pane_get_iff[of p s2] by (auto simp: drop_pane_def emit_def split: option.split)
  show ?thesis
  proof (cases "position (\<lambda>t. tab_contains t p) (tabs ?s3)")
    case None
    have "p \<notin> set (all_panes s2)" using None by (auto simp: f position_None_iff all_panes_def)
    then have "pane_get p s2 = None" using s2(2) by (simp add: pane_get_iff session_ok_def)
    then have "?s3 = emit (RevokedPane p) s2" by (simp add: drop_pane_def)
    with None s1(1) s2 c2 k show ?thesis by (simp add: close_pane_with_def)
  next
    case (Some i)
    then have i: "i < length (tabs s2)" "p \<in> set (tab_panes (tabs s2 ! i))"
      by (auto simp: f dest: position_SomeD)
    let ?s4 = "remove_from_tab i p ?s3"
    have s4: "session_ok ?s4" using session_ok_drop[OF s2(2) d2 i] .
    have p: "p \<in> fst ` set (panes s2)"
      using i s2(2) nth_mem[OF i(1)] by (auto simp: session_ok_def all_panes_def)
    have g: "panes ?s4 = panes ?s3" by (simp add: remove_from_tab_def Let_def)
    have e: "panes ?s3 = filter (\<lambda>(q, _). q \<noteq> p) (panes s2)"
      using p pane_get_iff[of p s2] by (auto simp: drop_pane_def emit_def split: option.split)
    have l: "length (panes ?s4) < length (panes s2)"
      using p unfolding g e by (force intro: length_filter_less)
    have c4: "calm s2 ?s4"
      using l k g by (auto simp: calm_def remove_from_tab_def drop_pane_def emit_def Let_def split: option.split)
    have "mu ?s4 < mu s2" using l c4 by (auto simp: mu_def calm_def option_size_def split: option.splits)
    with calm_mu[OF s2(3)] m1 have "mu ?s4 < bound" by simp
    with relayout_with_ok[OF s4] obtain s' where
      s': "relayout_with ra ?s4 = Some s'" "session_ok s'" "calm ?s4 s'" by (auto elim: returns_okE)
    have "p \<notin> fst ` set (panes s')" using s'(3) g k by (auto simp: calm_def)
    moreover have "calm s s'" using c2 c4 s'(3) calm_trans by blast
    ultimately show ?thesis using Some s1(1) s2(1) s' by (simp add: close_pane_with_def)
  qed
qed

lemma close_failed_ok:
  "session_ok s \<Longrightarrow> mu s \<le> bound \<Longrightarrow> returns_ok (close_failed ra ps) s"
proof (induction ps arbitrary: s)
  case Nil
  then show ?case by (simp add: returns_ok_def)
next
  case (Cons p ps)
  let ?s = "status (pane_message p ''PTY resize failed'') s"
  have "session_ok ?s" "mu ?s \<le> bound" using Cons.prems by simp_all
  from close_pane_with_ok[OF this, of p] obtain s1 where
    s1: "close_pane_with ra p ?s = Some s1" "session_ok s1" "calm ?s s1" by blast
  have "calm s s1" using s1(3) calm_trans[of s ?s s1] by simp
  moreover have "mu s1 \<le> bound" using calm_mu[OF s1(3)] Cons.prems(2) by simp
  ultimately show ?case
    using Cons.IH[OF s1(2)] s1(1) calm_trans by (fastforce simp: returns_ok_def)
qed

end

text \<open>Enough depth for the measure: the cycle returns.\<close>

lemma resize_all_ok: "session_ok s \<Longrightarrow> mu s < n \<Longrightarrow> returns_ok (resize_all n w) s"
proof (induction n arbitrary: s)
  case (Suc n)
  have inner: "layout_cycle (resize_all n w) n" using Suc.IH by unfold_locales
  have "pass_ok s ([], 0, s)" using Suc.prems(1) by (simp add: pass_ok_def)
  moreover have "\<forall>t\<in>set (tabs s). tab_ok (content_area s) t" using Suc.prems(1) by (simp add: session_parts)
  ultimately obtain failed k s1 where
    r: "resize_tabs w (content_area s) (layout_display s) (tabs s) ([], 0, s) = Some (failed, k, s1)"
    and p: "pass_ok s (failed, k, s1)"
    using resize_tabs_ok by (metis prod_cases3)
  let ?s = "s1\<lparr>session_sequence := wrapping_add64 (session_sequence s1) k\<rparr>"
  have c: "session_ok ?s" "calm s ?s" using p by (simp_all add: pass_ok_def)
  then have "mu ?s \<le> n" using calm_mu[OF c(2)] Suc.prems(2) by simp
  from layout_cycle.close_failed_ok[OF inner c(1) this, of "sort (remdups failed)"] obtain s' where
    "close_failed (resize_all n w) (sort (remdups failed)) ?s = Some s'" "session_ok s'" "calm ?s s'"
    by (auto elim: returns_okE)
  with r c(2) calm_trans show ?case by (fastforce simp: returns_ok_def)
qed simp

lemma do_resize_all_ok: "session_ok s \<Longrightarrow> returns_ok (do_resize_all w) s"
  using resize_all_ok[of s "resize_fuel s" w]
  by (simp add: do_resize_all_def returns_ok_def resize_fuel_def mu_def)

interpretation core: layout_cycle "do_resize_all w" b for w b
  by unfold_locales (rule do_resize_all_ok)

lemma relayout_ok: "session_ok s \<Longrightarrow> returns_ok (relayout w) s"
  unfolding relayout_def using core.relayout_with_ok[of s "Suc (mu s)"] by simp

lemma cancel_pointer_drag_ok:
  "session_ok s \<Longrightarrow> \<exists>s'. cancel_pointer_drag w r s = Some s' \<and> session_ok s' \<and> calm s s' \<and> cur_drag s' = None"
  unfolding cancel_pointer_drag_def using core.cancel_pointer_drag_with_ok[of s "mu s"] by simp

lemma end_float_mode_ok: "session_ok s \<Longrightarrow> returns_ok (end_float_mode w r) s"
  unfolding end_float_mode_def using core.end_float_mode_with_ok[of s "mu s"] by simp

lemma close_pane_ok:
  "session_ok s \<Longrightarrow> \<exists>s'. close_pane w p s = Some s' \<and> session_ok s' \<and> calm s s' \<and> p \<notin> fst ` set (panes s')"
  unfolding close_pane_def using core.close_pane_with_ok[of s "mu s"] by simp

end
