(* ===== verification/Session_Correct.thy ===== *)
theory Session_Correct
  imports Session_Cycle
begin

text \<open>
  Every handler of the session keeps the session invariant and returns, except where it places a
  tree that does not fit its area: \<open>admits\<close> names exactly those events.
\<close>

definition safe :: "('v session \<Rightarrow> 'v session option) \<Rightarrow> 'v session \<Rightarrow> bool" where
  "safe f s \<longleftrightarrow> (\<exists>s'. f s = Some s' \<and> session_ok s')"

lemma safe_Some: "f s = Some s' \<Longrightarrow> session_ok s' \<Longrightarrow> safe f s"
  by (simp add: safe_def)

lemma safe_relayout: "session_ok s \<Longrightarrow> \<exists>s'. relayout w s = Some s' \<and> session_ok s'"
  using relayout_ok[of s w] by (auto simp: returns_ok_def)

lemma safe_end_mode: "session_ok s \<Longrightarrow> \<exists>s'. end_float_mode w r s = Some s' \<and> session_ok s' \<and> calm s s'"
  using end_float_mode_ok[of s w r] by (auto simp: returns_ok_def)

lemma safe_close: "session_ok s \<Longrightarrow> \<exists>s'. close_pane w p s = Some s' \<and> session_ok s'"
  using close_pane_ok by blast

lemma settle_ok:
  assumes "session_ok s"
  shows "\<exists>s'. settle w s = Some s' \<and> session_ok s' \<and> calm s s' \<and> cur_drag s' = None"
proof -
  from cancel_pointer_drag_ok[OF assms, of w True] obtain s1 where
    s1: "cancel_pointer_drag w True s = Some s1" "session_ok s1" "calm s s1" "cur_drag s1 = None" by blast
  from safe_end_mode[OF s1(2), of w True] obtain s2 where
    s2: "end_float_mode w True s1 = Some s2" "session_ok s2" "calm s1 s2" by blast
  have "cur_drag s2 = None" using s2(3) s1(4) by (auto simp: calm_def)
  with s1 s2 calm_trans show ?thesis by (fastforce simp: settle_def)
qed

section \<open>Input, copy mode and output\<close>

lemma report_input_failure_ok:
  "session_ok s \<Longrightarrow> \<exists>s'. report_input_failure w p f s = Some s' \<and> session_ok s'"
  by (auto simp: report_input_failure_def safe_close split: option.split)

lemma queue_pane_input_ok: "session_ok s \<Longrightarrow> queue_pane_input w p bs s = (f, s1) \<Longrightarrow> session_ok s1"
  by (auto simp: queue_pane_input_def split: option.splits)

lemma send_pane_input_ok:
  "session_ok s \<Longrightarrow> \<exists>s'. send_pane_input w p bs s = Some s' \<and> session_ok s'"
  by (auto simp: send_pane_input_def split: option.split prod.split
      intro: report_input_failure_ok queue_pane_input_ok)

lemma mark_change_ok:
  "session_ok s \<Longrightarrow> session_ok (mark_pane_screen_change p r s)"
  using pane_update_ok(1)[of s p "note_change r"]
  by (auto simp: mark_pane_screen_change_def split: option.split)

lemma copy_input_ok: "session_ok s \<Longrightarrow> session_ok (copy_input p bs s)"
proof -
  assume s: "session_ok s"
  have "session_ok (take_copy t k c (pane_update p (\<lambda>v. v\<lparr>pane_copy := c'\<rparr>) s))" for t k c c'
    using pane_update_ok(1)[OF s, of p "\<lambda>v. v\<lparr>pane_copy := c'\<rparr>"] by (simp add: take_copy_def)
  with s show ?thesis
    by (auto simp: copy_input_def Let_def split: option.split intro!: mark_change_ok)
qed

lemma pane_input_ok: "session_ok s \<Longrightarrow> \<exists>s'. pane_input w bs s = Some s' \<and> session_ok s'"
  by (auto simp: pane_input_def Let_def copy_input_ok split: option.split prod.split
      intro: report_input_failure_ok queue_pane_input_ok)

lemma paste_ok: "session_ok s \<Longrightarrow> \<exists>s'. paste w s = Some s' \<and> session_ok s'"
  by (auto simp: paste_def Let_def send_pane_input_ok split: option.split)

lemma feed_ok:
  assumes "pane_ok v"
  shows "\<exists>evs parser t. feed pf adv cw bs (pr, pane_terminal v) = Some (evs, parser, t) \<and>
    term_ok t \<and> marks t = []"
proof -
  obtain chunks pending where s: "scan_push pf (marker_pending (pane_terminal v)) bs = (chunks, pending)"
    by fastforce
  let ?t = "(pane_terminal v)\<lparr>marker_pending := pending\<rparr>"
  have "marks_ok ?t" using assms by (auto simp: pane_ok_def marks_ok_def marks_def term_ok_def core_ok_def)
  from process_chunks_run[OF this, of adv cw chunks pr] obtain v1 t1 where
    r: "run_ops (process_chunk adv cw) chunks (pr, ?t) = Some (v1, t1)" "marks_ok t1" by auto
  then show ?thesis
    using s by (auto simp: feed_def process_chunks_def Let_def marks_ok_def term_ok_def core_ok_def
        marks_def damage_def push_event_def)
qed

lemma terminal_effect_ok:
  "session_ok s \<Longrightarrow> session_ok (snd (terminal_effect w p e (f, s)))"
  by (cases e) (auto split: prod.split option.split intro: queue_pane_input_ok)

lemma fold_terminal_effect_ok:
  "session_ok (snd fs) \<Longrightarrow> session_ok (snd (fold (terminal_effect w p) es fs))"
proof (induction es arbitrary: fs)
  case (Cons e es)
  with terminal_effect_ok[of "snd fs" w p e "fst fs"] show ?case by simp
qed simp

lemma pty_output_ok: 
  assumes "session_ok s"
  shows "\<exists>s'. pty_output w p bs s = Some s' \<and> session_ok s'"
proof (cases "pane_get p s")
  case None
  with assms show ?thesis by (simp add: pty_output_def)
next
  case (Some v)
  note v = pane_get_ok[OF assms Some]
  from feed_ok[OF v, of "host_platform w" "parser_advance w" "char_width w" bs "pane_parser v"] obtain evs parser t
    where f: "feed (host_platform w) (parser_advance w) (char_width w) bs (pane_parser v, pane_terminal v) =
      Some (evs, parser, t)" and t: "term_ok t" "marks t = []" by blast
  let ?s1 = "pane_update p (\<lambda>v. v\<lparr>pane_terminal := t, pane_parser := parser\<rparr>) s"
  have s1: "session_ok ?s1" using t by (intro pane_update_ok[OF assms]) (simp add: pane_ok_def)
  obtain g s2 where g: "fold (terminal_effect w p) evs (\<lparr>fail_warn = False, fail_close = False\<rparr>, ?s1) = (g, s2)"
    by fastforce
  have s2: "session_ok s2" using fold_terminal_effect_ok[of "(_, ?s1)"] s1 g by (metis snd_conv)
  have s3: "session_ok (note_output p a b s2)" for a b using s2 by (simp add: note_output_def mark_change_ok)
  show ?thesis
    using s3 by (auto simp: pty_output_def Some f g Let_def intro!: report_input_failure_ok)
qed

section \<open>New panes\<close>

lemma new_pane_ok: "pane_ok (new_pane w s)"
  by (simp add: pane_ok_def new_pane_def term_ok_new) (simp add: terminal_new_def marks_def Let_def)

lemma panes_ok_insert:
  assumes "panes_ok s" and "next_pane_id s \<le> n" and "p < n" and "pane_ok v"
  shows "panes_ok (s\<lparr>panes := bt_insert p v (panes s), next_pane_id := n\<rparr>)"
proof -
  have wf: "bt_wf (panes s)" using assms(1) by (simp add: panes_ok_def)
  have "q < n \<and> pane_ok u" if "(q, u) \<in> set (bt_insert p v (panes s))" for q u
  proof -
    have "map_of (bt_insert p v (panes s)) q = Some u"
      using that bt_wf_distinct[OF bt_insert_wf[OF wf, of p v]] by (intro map_of_is_SomeI) auto
    then have "(q, u) = (p, v) \<or> (q, u) \<in> set (panes s)"
      unfolding bt_insert_map_of[OF wf] by (auto dest: map_of_SomeD split: if_splits)
    with assms show ?thesis by (auto simp: panes_ok_def)
  qed
  with bt_insert_wf[OF wf] show ?thesis by (auto simp: panes_ok_def)
qed

lemma fresh_pane: "session_ok s \<Longrightarrow> next_pane_id s \<notin> set (all_panes s)"
  by (auto simp: session_ok_def panes_ok_def)

lemma fresh_in_tab: "session_ok s \<Longrightarrow> t \<in> set (tabs s) \<Longrightarrow> next_pane_id s \<notin> set (tab_panes t)"
  using fresh_pane[of s] by (auto simp: all_panes_def)

lemma add_pane_ok:
  assumes "session_ok s" and "i < length (tabs s)" and "next_pane_id s < n" and "pane_ok v"
    and "tab_ok (content_area s) t" and "tab_id t = tab_id (tabs s ! i)"
    and "set (tab_panes t) = insert (next_pane_id s) (set (tab_panes (tabs s ! i)))"
    and "\<And>drag. cur_drag s = Some drag \<Longrightarrow> drag_fits (content_area s) ((tabs s)[i := t]) drag"
  shows "session_ok (s\<lparr>panes := bt_insert (next_pane_id s) v (panes s), next_pane_id := n,
    tabs := (tabs s)[i := t]\<rparr>)"
proof -
  let ?p = "next_pane_id s"
  let ?s = "s\<lparr>panes := bt_insert ?p v (panes s), next_pane_id := n, tabs := (tabs s)[i := t]\<rparr>"
  have old: "tabs s ! i \<in> set (tabs s)" using assms(2) by simp
  have s: "panes_ok s" "host_ok s" "tabs_ok s" "set (all_panes s) = fst ` set (panes s)"
    using assms(1) by (simp_all add: session_ok_def)
  have "distinct (concat ((map tab_panes (tabs s))[i := tab_panes t]))"
    using s(3) assms(2,5,7) fresh_pane[OF assms(1)]
    by (intro distinct_concat_update[where new = "{?p}"]) (auto simp: tabs_ok_def all_panes_def tab_ok_def)
  then have d: "distinct (all_panes ?s)" by (simp add: all_panes_def map_update)
  have ids: "map tab_id ((tabs s)[i := t]) = map tab_id (tabs s)"
    using assms(2,6) by (simp add: map_update list_update_same_conv)
  have each: "tab_id u < next_tab_id s \<and> tab_ok (content_area s) u \<and> tab_panes u \<noteq> []"
    if "u \<in> set ((tabs s)[i := t])" for u
  proof -
    have "u = t \<or> u \<in> set (tabs s)" using that set_update_subset_insert by fastforce
    moreover have "tab_panes t \<noteq> []" using assms(7) by auto
    moreover have "tab_id t < next_tab_id s" using s(3) old assms(6) by (simp add: tabs_ok_def)
    ultimately show ?thesis using s(3) assms(5) by (auto simp: tabs_ok_def)
  qed
  have "tabs_ok ?s" using d ids each s(3) assms(2) by (simp add: tabs_ok_def)
  moreover have "panes_ok ?s" using panes_ok_insert[OF s(1) _ assms(3,4)] assms(3) by (simp add: panes_ok_def)
  moreover have "host_ok ?s" using s(2) by (simp add: host_ok_def)
  moreover have "drag_ok ?s" using assms(8) by (simp add: drag_ok_def)
  moreover have "set (all_panes ?s) = insert ?p (set (all_panes s))"
    using all_panes_update[OF assms(2), of t "{?p}"] assms(7) by (simp add: all_panes_def)
  moreover have "fst ` set (bt_insert ?p v (panes s)) = insert ?p (fst ` set (panes s))"
    using bt_insert_keys[of ?p v "panes s"] by simp
  ultimately show ?thesis using s(4) by (simp add: session_ok_def)
qed

definition first_tab :: "nat \<Rightarrow> pane_id \<Rightarrow> tab" where
  "first_tab tid p =
     \<lparr>tab_id = tid, tab_tree = Some (Leaf p), tab_floating = layer_default, tab_focused = p,
      tab_last_tiled = Some p, tab_zoomed = None\<rparr>"

lemma first_tab_ok:
  "tab_ok area (first_tab tid p)" "tab_panes (first_tab tid p) = [p]" "tab_id (first_tab tid p) = tid"
  "tree_panes (tab_tree (first_tab tid p)) = [p]"
proof -
  have "layer_pane_ids layer_default = []" by (simp add: layer_default_def layer_pane_ids_def)
  then show "tab_ok area (first_tab tid p)" "tab_panes (first_tab tid p) = [p]"
    "tab_id (first_tab tid p) = tid" "tree_panes (tab_tree (first_tab tid p)) = [p]"
    by (simp_all add: first_tab_def tab_ok_def points_in_def tab_panes_def layer_wf_default)
qed

lemma append_tab_ok:
  assumes "session_ok s" and "cur_drag s = None" and "pane_ok v" and "k < Suc (length (tabs s))"
  defines "p \<equiv> next_pane_id s"
  shows "session_ok (s\<lparr>panes := bt_insert p v (panes s), next_pane_id := p + 1,
    next_tab_id := next_tab_id s + 1, tabs := tabs s @ [first_tab (next_tab_id s) p], active_index := k\<rparr>)"
proof -
  let ?t = "first_tab (next_tab_id s) p"
  let ?s = "s\<lparr>panes := bt_insert p v (panes s), next_pane_id := p + 1,
    next_tab_id := next_tab_id s + 1, tabs := tabs s @ [?t], active_index := k\<rparr>"
  have s: "panes_ok s" "host_ok s" "tabs_ok s" "drag_ok s" "set (all_panes s) = fst ` set (panes s)"
    using assms(1) by (simp_all add: session_ok_def)
  have a: "all_panes ?s = all_panes s @ [p]" by (simp add: all_panes_def first_tab_ok)
  have "p \<notin> set (all_panes s)" using fresh_pane[OF assms(1)] by (simp add: p_def)
  moreover have "next_tab_id s \<notin> tab_id ` set (tabs s)" using s(3) by (auto simp: tabs_ok_def)
  ultimately have "tabs_ok ?s"
    using s(3) assms(4) unfolding tabs_ok_def a by (auto simp: first_tab_ok tabs_ok_def)
  moreover have "panes_ok ?s"
    using panes_ok_insert[OF s(1), of "p + 1" p v] assms(3) by (simp add: panes_ok_def p_def)
  moreover have "host_ok ?s" using s(2) by (simp add: host_ok_def)
  moreover have "drag_ok ?s" using assms(2) by (simp add: drag_ok_def)
  moreover have "fst ` set (bt_insert p v (panes s)) = insert p (fst ` set (panes s))"
    using bt_insert_keys[of p v "panes s"] by simp
  ultimately show ?thesis using s(5) a by (simp add: session_ok_def)
qed

section \<open>Handlers that only rearrange a tab\<close>

lemma focus_ok:
  assumes "session_ok s"
  shows "\<exists>s'. focus d s = Some s' \<and> session_ok s'"
proof (cases "active_tab s")
  case None
  with assms show ?thesis by (simp add: focus_def)
next
  case (Some t)
  note t = active_tab_ok[OF assms Some]
  from visible_projections_ok[OF t] obtain ps where ps: "visible_projections t (content_area s) = Some ps" by blast
  show ?thesis
  proof (cases "tab_zoomed t \<noteq> None \<or> directional_focus ps (tab_focused t) d = None")
    case True
    with Some ps assms show ?thesis by (auto simp: focus_def)
  next
    case False
    then obtain q where q: "tab_zoomed t = None" "directional_focus ps (tab_focused t) d = Some q" by auto
    then have "q \<in> proj_pane ` set ps" by (auto elim!: directional_focus_SomeD)
    then have "q \<in> set (tab_panes t)" using visible_projections_panes[OF t ps] q(1) by auto
    with t have "session_ok (update_active (set_focus q) s)"
      using Some by (intro update_active_ok[OF assms]) (simp add: set_focus_ok)
    with Some ps q show ?thesis by (simp add: focus_def)
  qed
qed

lemma toggle_pin_ok: "session_ok s \<Longrightarrow> session_ok (toggle_pin s)"
  by (auto simp: toggle_pin_def set_pinned_ok split: option.split intro!: update_active_ok)

lemma toggle_floats_ok: "session_ok s \<Longrightarrow> \<exists>s'. toggle_floats w s = Some s' \<and> session_ok s'"
  by (auto simp: toggle_floats_def toggle_layer_ok split: option.split
      intro!: safe_relayout update_active_ok)

lemma toggle_zoom_ok:
  assumes "session_ok s"
  shows "\<exists>s'. toggle_zoom w s = Some s' \<and> session_ok s'"
proof -
  have "session_ok (update_active
      (\<lambda>t. t\<lparr>tab_zoomed := (if tab_zoomed t \<noteq> None then None else Some (tab_focused t))\<rparr>) s)"
    by (intro update_active_ok[OF assms]) (auto simp: tab_ok_def points_in_def tab_panes_def same_panes_def)
  with assms show ?thesis by (auto simp: toggle_zoom_def split: option.split intro!: safe_relayout)
qed

lemma enter_copy_mode_ok: "session_ok s \<Longrightarrow> session_ok (enter_copy_mode s)"
  by (auto simp: enter_copy_mode_def split: option.split intro!: mark_change_ok pane_update_ok(1))

lemma enter_float_mode_ok: "session_ok s \<Longrightarrow> session_ok (enter_float_mode k s)"
  by (auto simp: enter_float_mode_def split: option.split)

lemma edit_layer_rect: "\<exists>g. edit_layer k p d area = update_rect p area g"
  by (cases k) (auto simp: edit_layer_def layer_rect_ops)

lemma float_edit_ok:
  assumes "session_ok s"
  shows "\<exists>s'. float_edit w i c s = Some s' \<and> session_ok s'"
proof -
  have step: "session_ok (snd (try_active (on_layer (edit_layer k p d (content_area s))) s))" for k p d
    using edit_layer_rect[of k p d "content_area s"] update_rect_ok[OF _ session_area[OF assms]]
    by (auto intro!: try_active_ok[OF assms])
  have ends: "\<exists>s'. end_float_mode w r s = Some s' \<and> session_ok s'" for r
    using safe_end_mode[OF assms] by blast
  show ?thesis
  proof (cases c)
    case (EditStep d cells)
    then show ?thesis
      using assms ends step
      by (auto simp: float_edit_def split: option.split prod.split intro!: safe_relayout; metis snd_conv)
  qed (use assms ends in \<open>auto simp: float_edit_def split: option.split\<close>)
qed

section \<open>Handlers that add a pane or change a tree\<close>

lemma update_active_add:
  assumes "session_ok s" and "cur_drag s = None" and "active_tab s = Some t"
    and "tab_ok (content_area s) (f t)" and "tab_id (f t) = tab_id t"
    and "set (tab_panes (f t)) = insert (next_pane_id s) (set (tab_panes t))"
  shows "session_ok (update_active f ((emit e (s\<lparr>panes := bt_insert (next_pane_id s) (new_pane w s) (panes s)\<rparr>))
    \<lparr>next_pane_id := next_pane_id s + 1\<rparr>))"
proof -
  have i: "active_index s < length (tabs s)" "tabs s ! active_index s = t"
    using assms(3) by (simp_all add: active_tab_Some)
  have a: "active_tab ((emit e (s\<lparr>panes := x\<rparr>))\<lparr>next_pane_id := n\<rparr>) = Some t" for x n
    using assms(3) by (simp add: active_tab_def emit_def)
  have "session_ok (s\<lparr>panes := bt_insert (next_pane_id s) (new_pane w s) (panes s),
      next_pane_id := next_pane_id s + 1, tabs := (tabs s)[active_index s := f t]\<rparr>)"
    using assms i by (intro add_pane_ok[OF assms(1) i(1)]) (simp_all add: new_pane_ok)
  then show ?thesis
    by (simp only: update_active_def a option.case) (simp add: emit_def session_parts all_panes_def)
qed

lemma split_ok:
  assumes "session_ok s" and "cur_drag s = None"
    and "\<And>t tree. active_tab s = Some t \<Longrightarrow> tab_tree t = Some tree \<Longrightarrow>
      \<not> layer_contains (tab_floating t) (tab_focused t) \<Longrightarrow>
      node_split tree (tab_focused t) (next_pane_id s) ax (content_area s) \<noteq> None"
  shows "\<exists>s'. split w ax s = Some s' \<and> session_ok s'"
proof (cases "active_tab s")
  case None
  with assms(1) show ?thesis by (simp add: split_def)
next
  case (Some t)
  note t = active_tab_ok[OF assms(1) Some]
  have fresh: "next_pane_id s \<notin> set (tab_panes t)"
    using fresh_in_tab[OF assms(1)] Some by (auto simp: active_tab_Some)
  show ?thesis
  proof (cases "tab_tree t = None \<or> layer_contains (tab_floating t) (tab_focused t)")
    case True
    with Some assms(1) show ?thesis by (auto simp: split_def split: option.split)
  next
    case False
    then obtain tree where tree: "tab_tree t = Some tree" "\<not> layer_contains (tab_floating t) (tab_focused t)"
      by auto
    from assms(3)[OF Some tree] obtain r where
      r: "node_split tree (tab_focused t) (next_pane_id s) ax (content_area s) = Some r" by auto
    show ?thesis
    proof (cases r)
      case (Inl e)
      with Some tree r assms(1) show ?thesis by (simp add: split_def)
    next
      case (Inr candidate)
      note new = split_tab_ok[OF t tree(1) fresh r[unfolded Inr]]
      show ?thesis
      proof (cases "spawn_ok w (next_pane_id s) (tab_id t)")
        case False
        with Some tree r Inr assms(1) show ?thesis by (simp add: split_def spawn_pane_def)
      next
        case True
        with safe_relayout[OF update_active_add[OF assms(1,2) Some, of
              "\<lambda>t. set_focus (next_pane_id s) (t\<lparr>tab_tree := Some candidate\<rparr>)", OF new]] Some tree r Inr show ?thesis
          by (simp add: split_def spawn_pane_def)
      qed
    qed
  qed
qed

lemma new_float_ok:
  assumes "session_ok s" and "cur_drag s = None" and "active_tab s \<noteq> None"
  shows "\<exists>s'. new_float w s = Some s' \<and> session_ok s'"
proof -
  from assms(3) obtain t where t: "active_tab s = Some t" by auto
  note ok = active_tab_ok[OF assms(1) t]
  have fresh: "next_pane_id s \<notin> set (tab_panes t)"
    using fresh_in_tab[OF assms(1)] t by (auto simp: active_tab_Some)
  note new = insert_float_ok[OF ok session_area[OF assms(1)] fresh,
      of "default_width_percent (config s)" "default_height_percent (config s)"]
  have "session_ok (update_active
      (\<lambda>t. set_focus (next_pane_id s) (t\<lparr>tab_floating := layer_insert (next_pane_id s) (content_area s)
          (default_width_percent (config s)) (default_height_percent (config s)) (tab_floating t)\<rparr>))
      ((emit (SpawnedPane (next_pane_id s) (tab_id t))
        (s\<lparr>panes := bt_insert (next_pane_id s) (new_pane w s) (panes s)\<rparr>))\<lparr>next_pane_id := next_pane_id s + 1\<rparr>))"
    by (rule update_active_add[OF assms(1,2) t]) (rule new)+
  with t assms(1) show ?thesis
    by (auto simp: new_float_def spawn_pane_def Let_def intro!: safe_relayout)
qed

lemma new_tab_ok:
  assumes "session_ok s" and "cur_drag s = None"
  shows "\<exists>s'. perform w NewTab s = Some s' \<and> session_ok s'"
proof (cases "spawn_ok w (next_pane_id s) (next_tab_id s)")
  case False
  with assms show ?thesis by (simp add: perform_def new_tab_def spawn_pane_def Let_def)
next
  case True
  note new = append_tab_ok[OF assms new_pane_ok[of w s], of "length (tabs s)"]
  define s1 where "s1 = schedule_render ((emit (SpawnedPane (next_pane_id s) (next_tab_id s))
      (s\<lparr>panes := bt_insert (next_pane_id s) (new_pane w s) (panes s)\<rparr>))
      \<lparr>next_pane_id := next_pane_id s + 1, next_tab_id := next_tab_id s + 1,
        tabs := tabs s @ [first_tab (next_tab_id s) (next_pane_id s)]\<rparr>)"
  have "new_tab w s = Some s1"
    using True by (simp add: new_tab_def spawn_pane_def Let_def s1_def first_tab_def emit_def)
  moreover have "session_ok (s1\<lparr>active_index := length (tabs s1) - 1\<rparr>)"
    using new by (simp add: s1_def emit_def schedule_render_def session_parts all_panes_def)
  ultimately show ?thesis by (simp add: perform_def safe_relayout)
qed

lemma resize_key_ok:
  assumes "session_ok s"
    and "\<And>t tree tree' ch. active_tab s = Some t \<Longrightarrow> tab_tree t = Some tree \<Longrightarrow>
      node_resize tree (tab_focused t) d (content_area s) = Some (tree', ch) \<Longrightarrow>
      tree_fits (content_area s) tree'"
  shows "\<exists>s'. resize_key w d s = Some s' \<and> session_ok s'"
proof (cases "active_tab s")
  case None
  with assms(1) show ?thesis by (simp add: resize_key_def)
next
  case (Some t)
  note t = active_tab_ok[OF assms(1) Some]
  show ?thesis
  proof (cases "tab_tree t")
    case None
    with Some assms(1) show ?thesis by (simp add: resize_key_def)
  next
    case tree: (Some tree)
    have "tree_fits (content_area s) tree" using t tree by (simp add: tab_ok_def)
    from node_resize_returns[OF this] obtain tree' ch where
      r: "node_resize tree (tab_focused t) d (content_area s) = Some (tree', ch)" by blast
    note ids = node_resize_ids[OF session_area[OF assms(1)] r]
    have "distinct (pane_ids tree)" using t tree by (simp add: tab_ok_def tab_panes_def)
    with same_tree_panes_ok[OF t tree, of tree'] assms(2)[OF Some tree r] ids Some
    have "session_ok (update_active (\<lambda>t. t\<lparr>tab_tree := Some tree'\<rparr>) s)"
      by (intro update_active_ok[OF assms(1)]) simp
    with Some tree r assms(1) show ?thesis by (auto simp: resize_key_def Let_def intro!: safe_relayout)
  qed
qed

lemma go_to_tab_ok: "session_ok s \<Longrightarrow> i < length (tabs s) \<Longrightarrow> \<exists>s'. go_to_tab w i s = Some s' \<and> session_ok s'"
  unfolding go_to_tab_def by (rule safe_relayout) (simp add: session_parts all_panes_def)

end
