(* ===== verification/Session_Safety.thy ===== *)
theory Session_Safety
  imports Session_Correct
begin

text \<open>
  The remaining handlers, the step function, and the session as a safe machine: a session that
  starts and only meets admitted events never panics and keeps its invariant.
\<close>

section \<open>Pointer events\<close>

lemma resize_boundary_ids:
  assumes "area_ok area" and "resize_boundary area ax b pos tree = Some (c, tree')"
  shows "tree_panes tree' = tree_panes tree \<and> (tree' = None \<longleftrightarrow> tree = None)"
  using assms node_resize_ids[OF assms(1)]
  by (auto simp: resize_boundary_def split: option.splits prod.splits)

lemma drag_up_ids:
  "area_ok area \<Longrightarrow> drag_up area ax cur b l tree c = Some (b', l', tree', c') \<Longrightarrow>
     tree_panes tree' = tree_panes tree \<and> (tree' = None \<longleftrightarrow> tree = None)"
proof (induction area ax cur b l tree c rule: drag_up.induct)
  case (1 area ax cur b l tree c)
  show ?case
  proof (cases "l < cur")
    case False
    with 1 show ?thesis by (simp add: drag_up.simps[of area ax cur b l tree c])
  next
    case True
    with "1.prems"(2) obtain m t1 where r: "resize_boundary area ax b True tree = Some (m, t1)"
      by (auto simp: drag_up.simps[of area ax cur b l tree c] split: option.splits)
    note ids = resize_boundary_ids[OF "1.prems"(1) r]
    show ?thesis
    proof (cases m)
      case False
      with True r "1.prems"(2) ids show ?thesis by (simp add: drag_up.simps[of area ax cur b l tree c])
    next
      case m: True
      with True r "1.prems"(2) have "drag_up area ax cur (add16 b 1) (l + 1) t1 True = Some (b', l', tree', c')"
        by (simp add: drag_up.simps[of area ax cur b l tree c])
      with "1.IH"[OF True r refl] m "1.prems"(1) ids show ?thesis by simp
    qed
  qed
qed

lemma drag_down_ids:
  "area_ok area \<Longrightarrow> drag_down area ax cur b l tree c = Some (b', l', tree', c') \<Longrightarrow>
     tree_panes tree' = tree_panes tree \<and> (tree' = None \<longleftrightarrow> tree = None)"
proof (induction l arbitrary: b tree c)
  case 0
  then show ?case by (simp add: drag_down.simps)
next
  case (Suc l)
  show ?case
  proof (cases "cur < Suc l")
    case False
    with Suc.prems show ?thesis by (simp add: drag_down.simps)
  next
    case True
    with Suc.prems(2) obtain m t1 where r: "resize_boundary area ax b False tree = Some (m, t1)"
      by (auto simp: drag_down.simps split: option.splits)
    note ids = resize_boundary_ids[OF Suc.prems(1) r]
    show ?thesis
    proof (cases m)
      case False
      with True r Suc.prems(2) ids show ?thesis by (simp add: drag_down.simps)
    next
      case m: True
      with True r Suc.prems(2) have "drag_down area ax cur (b - 1) l t1 True = Some (b', l', tree', c')"
        by (simp add: drag_down.simps)
      with Suc.IH[OF Suc.prems(1)] ids show ?thesis by simp
    qed
  qed
qed

lemma drag_boundary_ids:
  "area_ok area \<Longrightarrow> drag_boundary area ax cur b l tree = Some (b', l', tree', c) \<Longrightarrow>
     tree_panes tree' = tree_panes tree \<and> (tree' = None \<longleftrightarrow> tree = None)"
proof -
  assume a: "area_ok area" and r: "drag_boundary area ax cur b l tree = Some (b', l', tree', c)"
  from r obtain b1 l1 t1 c1 where "drag_up area ax cur b l tree False = Some (b1, l1, t1, c1)"
    "drag_down area ax cur b1 l1 t1 c1 = Some (b', l', tree', c)"
    by (auto simp: drag_boundary_def bind_eq_Some_conv)
  with drag_up_ids[OF a] drag_down_ids[OF a] show ?thesis by metis
qed

text \<open>Following a boundary is admitted where the moved tree still fits.\<close>

definition drag_admits :: "'v session \<Rightarrow> mouse_event \<Rightarrow> bool" where
  "drag_admits s m \<longleftrightarrow>
     (case (cur_drag s, active_tab s) of
        (Some (TiledBoundary tid ax b l original), Some t) \<Rightarrow>
          tab_id t = tid \<longrightarrow>
          (case drag_boundary (content_area s) ax (drag_axis_position ax m) b l (tab_tree t) of
             None \<Rightarrow> False | Some (_, _, tree, _) \<Rightarrow> tree_ok (content_area s) tree)
      | _ \<Rightarrow> True)"

lemma follow_drag_ok:
  assumes "session_ok s" and "active_tab s = Some t" and "cur_drag s = Some drag"
    and "tab_id t = drag_tab drag" and "drag_admits s m"
  shows "\<exists>changed drag' t'. follow_drag (content_area s) m drag t = Some (changed, drag', t') \<and>
    tab_ok (content_area s) t' \<and> same_panes t t' \<and>
    (\<forall>ts. drag_fits (content_area s) ts drag' = drag_fits (content_area s) ts drag)"
proof -
  let ?a = "content_area s"
  note t = active_tab_ok[OF assms(1,2)] and area = session_area[OF assms(1)]
  show ?thesis
  proof (cases drag)
    case (TiledBoundary tid ax b l original)
    from assms(2-5) TiledBoundary obtain b' l' tree c where
      r: "drag_boundary ?a ax (drag_axis_position ax m) b l (tab_tree t) = Some (b', l', tree, c)"
      and fit: "tree_ok ?a tree" by (auto simp: drag_admits_def split: option.splits)
    note ids = drag_boundary_ids[OF area r]
    have "tab_ok ?a (t\<lparr>tab_tree := tree\<rparr>) \<and> same_panes t (t\<lparr>tab_tree := tree\<rparr>)"
      using t ids fit by (auto simp: tab_ok_def points_in_def tab_panes_def same_panes_def)
    with r TiledBoundary show ?thesis by (simp add: follow_drag_def drag_fits_def)
  next
    case (MoveFloat tid p st original)
    then show ?thesis
      using update_rect_ok[OF t area]
      by (auto simp: follow_drag_def Let_def layer_rect_ops drag_fits_def split: prod.split) (metis snd_conv)+
  next
    case (ResizeFloat tid p edges st original)
    then show ?thesis
      using update_rect_ok[OF t area]
      by (auto simp: follow_drag_def Let_def layer_rect_ops drag_fits_def split: prod.split) (metis snd_conv)+
  qed
qed

lemma session_ok_drag:
  "session_ok s \<Longrightarrow> drag_fits (content_area s) (tabs s) drag \<Longrightarrow> session_ok (s\<lparr>cur_drag := Some drag\<rparr>)"
  by (simp add: session_parts all_panes_def)

lemma update_pointer_drag_ok:
  assumes "session_ok s" and "drag_admits s m"
  shows "\<exists>s'. update_pointer_drag w m s = Some s' \<and> session_ok s'"
proof -
  have cancel: "\<exists>s'. cancel_pointer_drag w True s = Some s' \<and> session_ok s'"
    using cancel_pointer_drag_ok[OF assms(1)] by blast
  show ?thesis
  proof (cases "cur_drag s")
    case None
    with assms(1) show ?thesis by (simp add: update_pointer_drag_def)
  next
    case drag: (Some drag)
    show ?thesis
    proof (cases "\<exists>t. active_tab s = Some t \<and> tab_id t = drag_tab drag")
      case False
      with drag cancel show ?thesis by (cases "active_tab s") (auto simp: update_pointer_drag_def)
    next
      case True
      then obtain t where t: "active_tab s = Some t" "tab_id t = drag_tab drag" by blast
      from follow_drag_ok[OF assms(1) t(1) drag t(2) assms(2)] obtain c drag' t' where
        f: "follow_drag (content_area s) m drag t = Some (c, drag', t')"
        "tab_ok (content_area s) t'" "same_panes t t'"
        "\<forall>ts. drag_fits (content_area s) ts drag' = drag_fits (content_area s) ts drag" by blast
      let ?u = "update_active (\<lambda>_. t') s"
      have u: "session_ok ?u" using f t by (intro update_active_ok[OF assms(1)]) simp
      have g: "cur_drag ?u = Some drag" "content_area ?u = content_area s"
        using drag by (simp_all add: update_active_def t(1))
      then have "drag_fits (content_area ?u) (tabs ?u) drag'"
        using u f(4) by (simp add: session_ok_def drag_ok_def)
      from session_ok_drag[OF u this] f drag t show ?thesis
        by (auto simp: update_pointer_drag_def Let_def intro!: safe_relayout)
    qed
  qed
qed

lemma content_mouse_ok: "session_ok s \<Longrightarrow> \<exists>s'. content_mouse w m p c s = Some s' \<and> session_ok s'"
  by (auto simp: content_mouse_def Let_def pane_update_ok(1) send_pane_input_ok split: option.split)

text \<open>
  A press ends the float-edit mode before it moves the focus. Its target is looked up before
  that, so the mode's relayout must not close panes: where a mode is active, every PTY has to
  accept its size.
\<close>

definition willing :: "'v world \<Rightarrow> bool" where
  "willing w \<longleftrightarrow> (\<forall>p wd h. resize_ok w p wd h)"

lemma resize_pane_willing:
  assumes "willing w"
  shows "fst (resize_pane w d proj acc) = fst acc"
    and "tabs (snd (snd (resize_pane w d proj acc))) = tabs (snd (snd acc))"
    and "active_index (snd (snd (resize_pane w d proj acc))) = active_index (snd (snd acc))"
    and "cur_drag (snd (snd (resize_pane w d proj acc))) = cur_drag (snd (snd acc))"
  using assms
  by (auto simp: resize_pane_def Let_def willing_def pane_update_def emit_def split: prod.split option.split)

lemma fold_resize_pane_willing:
  assumes "willing w"
  shows "fst (fold (resize_pane w d) ps acc) = fst acc"
    and "tabs (snd (snd (fold (resize_pane w d) ps acc))) = tabs (snd (snd acc))"
    and "active_index (snd (snd (fold (resize_pane w d) ps acc))) = active_index (snd (snd acc))"
    and "cur_drag (snd (snd (fold (resize_pane w d) ps acc))) = cur_drag (snd (snd acc))"
  by (induction ps arbitrary: acc) (simp_all add: resize_pane_willing[OF assms])

lemma resize_tabs_willing:
  assumes "willing w"
  shows "resize_tabs w area d ts acc = Some acc' \<Longrightarrow> fst acc' = fst acc \<and>
    tabs (snd (snd acc')) = tabs (snd (snd acc)) \<and>
    active_index (snd (snd acc')) = active_index (snd (snd acc)) \<and>
    cur_drag (snd (snd acc')) = cur_drag (snd (snd acc))"
proof (induction ts arbitrary: acc)
  case (Cons t ts)
  then obtain ps where ps: "visible_projections t area = Some ps" by (auto split: option.splits)
  with Cons.prems have "resize_tabs w area d ts (fold (resize_pane w d) ps acc) = Some acc'" by simp
  from Cons.IH[OF this] show ?case
    using fold_resize_pane_willing[OF assms, of d ps acc] by simp
qed simp

lemma relayout_willing:
  assumes "willing w" and "relayout w s = Some s'"
  shows "tabs s' = tabs s \<and> active_index s' = active_index s \<and> cur_drag s' = cur_drag s"
proof -
  let ?b = "bump_layout s"
  from assms(2) obtain u where u: "resize_all (resize_fuel ?b) w ?b = Some u" "s' = schedule_render u"
    by (auto simp: relayout_def relayout_with_def do_resize_all_def)
  obtain n where n: "resize_fuel ?b = Suc n" by (simp add: resize_fuel_def)
  from u(1) obtain failed k s1 where
    r: "resize_tabs w (content_area ?b) (layout_display ?b) (tabs ?b) ([], 0, ?b) = Some (failed, k, s1)"
    by (auto simp: n split: option.splits)
  from resize_tabs_willing[OF assms(1) r] have "failed = []" "tabs s1 = tabs s"
    "active_index s1 = active_index s" "cur_drag s1 = cur_drag s"
    by (simp_all add: bump_layout_def)
  with u r show ?thesis by (auto simp: n schedule_render_def)
qed

text \<open>So ending the mode leaves every tab with its number, tree and panes.\<close>

lemma end_mode_willing:
  assumes "session_ok s" and "willing w" and "end_float_mode w True s = Some s'" and "active_tab s = Some t"
  shows "\<exists>t'. active_tab s' = Some t' \<and> same_panes t t' \<and> tab_tree t' = tab_tree t \<and>
    tab_panes t' = tab_panes t \<and> cur_drag s' = cur_drag s"
proof (cases "cur_modal s")
  case None
  with assms(3,4) show ?thesis by (simp add: end_float_mode_def end_float_mode_with_def)
next
  case (Some m)
  let ?s = "s\<lparr>cur_modal := None\<rparr>"
  let ?r = "try_tab (\<lambda>t. layer_contains (tab_floating t) (modal_pane m))
    (on_layer (layer_set_rect (modal_pane m) (modal_original m) (content_area ?s))) ?s"
  from assms(3) Some obtain u where u: "relayout_if (do_resize_all w) ?r = Some u"
    "s' = to_client (SentEditMode (modal_id m) None) u"
    by (auto simp: end_float_mode_def end_float_mode_with_def Let_def)
  have same: "tabs u = tabs (snd ?r) \<and> active_index u = active_index (snd ?r) \<and> cur_drag u = cur_drag (snd ?r)"
    using u(1) relayout_willing[OF assms(2), of "(snd ?r)\<lparr>force_full := True\<rparr>" u]
    by (auto simp: relayout_if_def relayout_def split: if_splits)
  have a: "active_index (snd ?r) = active_index s" "cur_drag (snd ?r) = cur_drag s"
    by (simp_all add: try_tab_def split: option.split)
  have i: "active_index s < length (tabs s)" "tabs s ! active_index s = t"
    using assms(4) by (simp_all add: active_tab_Some)
  have "\<exists>l. tabs (snd ?r) ! active_index s = t\<lparr>tab_floating := l\<rparr> \<and>
      layer_pane_ids l = layer_pane_ids (tab_floating t) \<and> length (tabs (snd ?r)) = length (tabs s)"
  proof (cases "position (\<lambda>t. layer_contains (tab_floating t) (modal_pane m)) (tabs s)")
    case None
    with i show ?thesis by (intro exI[of _ "tab_floating t"]) (simp add: try_tab_def)
  next
    case (Some k)
    then have k: "k < length (tabs s)" by (auto dest: position_SomeD)
    show ?thesis
    proof (cases "k = active_index s")
      case True
      with Some i k show ?thesis
        by (intro exI[of _ "snd (layer_set_rect (modal_pane m) (modal_original m) (content_area s) (tab_floating t))"])
          (simp add: try_tab_def on_layer_def, simp add: layer_set_rect_def)
    next
      case False
      with Some i k show ?thesis by (intro exI[of _ "tab_floating t"]) (simp add: try_tab_def)
    qed
  qed
  then obtain l where l: "tabs (snd ?r) ! active_index s = t\<lparr>tab_floating := l\<rparr>"
    "layer_pane_ids l = layer_pane_ids (tab_floating t)" "length (tabs (snd ?r)) = length (tabs s)" by blast
  have "active_tab s' = Some (t\<lparr>tab_floating := l\<rparr>)"
    using same a l i by (simp add: active_tab_Some u(2) to_client_def emit_def)
  moreover have "cur_drag s' = cur_drag s" using same a by (simp add: u(2) to_client_def emit_def)
  ultimately show ?thesis using l(2) by (simp add: same_panes_def tab_panes_def)
qed

lemma update_active_drag [simp]:
  "cur_drag (update_active f s) = cur_drag s"
  by (simp add: update_active_def split: option.split)

lemma click_focus_ok:
  assumes "session_ok s" and "active_tab s = Some t" and "points_in t (proj_pane hit)"
    and "cur_modal s = None \<or> willing w"
  shows "\<exists>s' t'. click_focus w hit q s = Some s' \<and> session_ok s' \<and> active_tab s' = Some t' \<and>
    same_panes t t' \<and> tab_tree t' = tab_tree t \<and> cur_drag s' = cur_drag s"
proof -
  have focus: "session_ok (update_active (set_focus (proj_pane hit)) u) \<and>
      (\<exists>t'. active_tab (update_active (set_focus (proj_pane hit)) u) = Some t' \<and>
         same_panes t t' \<and> tab_tree t' = tab_tree t)"
    if u: "session_ok u" "active_tab u = Some v" "same_panes t v" "tab_tree v = tab_tree t" for u :: "'a session" and v
  proof -
    have p: "points_in v (proj_pane hit)" using assms(3) u(3,4) by (simp add: points_in_def same_panes_def)
    note f = set_focus_points[OF active_tab_ok[OF u(1,2)] p]
    have "session_ok (update_active (set_focus (proj_pane hit)) u)"
      using f u(2) by (intro update_active_ok[OF u(1)]) simp
    moreover have "active_tab (update_active (set_focus (proj_pane hit)) u) = Some (set_focus (proj_pane hit) v)"
      unfolding update_active_def u(2) using u(2) by (auto simp: active_tab_def vec_get_def split: if_splits)
    moreover have "tab_tree (set_focus (proj_pane hit) v) = tab_tree v" by (simp add: set_focus_def Let_def)
    ultimately show ?thesis using f u(3,4) by (simp add: same_panes_def)
  qed
  show ?thesis
  proof (cases "q = proj_pane hit")
    case True
    with focus[OF assms(1,2)] show ?thesis by (auto simp: click_focus_def Let_def)
  next
    case False
    from safe_end_mode[OF assms(1), of w True] obtain s1 where
      s1: "end_float_mode w True s = Some s1" "session_ok s1" by blast
    have "\<exists>v. active_tab s1 = Some v \<and> same_panes t v \<and> tab_tree v = tab_tree t \<and> cur_drag s1 = cur_drag s"
    proof (cases "cur_modal s")
      case None
      with s1(1) assms(2) show ?thesis by (simp add: end_float_mode_def end_float_mode_with_def)
    next
      case (Some m)
      with assms(4) end_mode_willing[OF assms(1) _ s1(1) assms(2)] show ?thesis by auto
    qed
    then obtain v where v: "active_tab s1 = Some v" "same_panes t v" "tab_tree v = tab_tree t"
      "cur_drag s1 = cur_drag s" by blast
    let ?u = "update_active (set_focus (proj_pane hit)) s1"
    from focus[OF s1(2) v(1-3)] obtain t' where t': "session_ok ?u" "active_tab ?u = Some t'"
      "same_panes t t'" "tab_tree t' = tab_tree t" by blast
    then have "active_tab (projection_changed (?u\<lparr>force_full := b\<rparr>)) = Some t'"
      "active_tab (projection_changed ?u) = Some t'" for b
      by (simp_all add: active_tab_def projection_changed_def schedule_render_def bump_layout_def)
    moreover have "cur_drag (projection_changed x) = cur_drag x" for x :: "'a session"
      by (simp add: projection_changed_def schedule_render_def bump_layout_def)
    ultimately show ?thesis using False s1 t' v(4) by (auto simp: click_focus_def Let_def)
  qed
qed

lemma ex_if:
  "(c \<Longrightarrow> \<exists>s. a = Some s \<and> P s) \<Longrightarrow> (\<not> c \<Longrightarrow> \<exists>s. b = Some s \<and> P s) \<Longrightarrow>
     \<exists>s. (if c then a else b) = Some s \<and> P s"
  by simp

lemma press_mouse_ok:
  assumes "session_ok s" and "cur_drag s = None" and "active_tab s = Some t'" and "same_panes t t'"
    and "tab_tree t' = tab_tree t"
  shows "\<exists>s'. press_mouse w m t hit s = Some s' \<and> session_ok s'"
proof -
  have start: "session_ok (schedule_render (s\<lparr>cur_drag := Some drag\<rparr>))"
    if "drag_fits (content_area s) (tabs s) drag" for drag
    using session_ok_drag[OF assms(1) that] by simp
  have fl: "drag_fits area ts (start_float_drag target tid p st r)" for area ts target tid p st r
    by (simp add: start_float_drag_def drag_fits_def split: float_pointer_target.split)
  have td: "drag_fits (content_area s) (tabs s) (TiledBoundary (tab_id t) ax b b original)"
    if tree: "tab_tree t = Some original" for ax b original
  proof -
    have t': "t' \<in> set (tabs s)" "tab_ok (content_area s) t'" "tab_id t' = tab_id t"
      using assms(3,4) active_tab_ok[OF assms(1,3)] by (auto simp: active_tab_Some same_panes_def)
    have inj: "inj_on tab_id (set (tabs s))" using assms(1) by (simp add: session_ok_def tabs_ok_def distinct_map)
    have u: "u = t'" if "u \<in> set (tabs s)" "tab_id u = tab_id t" for u
      using inj_onD[OF inj, of u t'] t' that by simp
    have "tree_fits (content_area s) original" "distinct (pane_ids original)"
      using t'(2) tree assms(5) by (simp_all add: tab_ok_def tab_panes_def)
    with u tree assms(5) show ?thesis by (auto simp: drag_fits_def dest!: u)
  qed
  have tiled: "\<exists>s'. (case tab_tree t of None \<Rightarrow> Some s
      | Some original \<Rightarrow> Some (schedule_render (s\<lparr>cur_drag := Some (TiledBoundary (tab_id t) ax b b original)\<rparr>))) =
      Some s' \<and> session_ok s'" for ax b
    using assms(1) start[OF td] by (cases "tab_tree t") auto
  show ?thesis
    unfolding press_mouse_def Let_def
    by (rule ex_if, use start[OF fl] in simp) (rule ex_if, rule tiled, rule content_mouse_ok[OF assms(1)])
qed

lemma press_on_tab_ok:
  assumes "session_ok s" and "cur_drag s = None" and "cur_modal s = None \<or> willing w"
  shows "\<exists>s'. press_on_tab w m s = Some s' \<and> session_ok s'"
proof (cases "active_tab s")
  case None
  with assms(1) show ?thesis by (simp add: press_on_tab_def)
next
  case (Some t)
  note t = active_tab_ok[OF assms(1) Some]
  from visible_projections_ok[OF t] obtain ps where ps: "visible_projections t (content_area s) = Some ps" by blast
  show ?thesis
  proof (cases "hit_projection (mouse_x m) (mouse_y m) ps")
    case None
    with Some ps assms(1) show ?thesis by (simp add: press_on_tab_def)
  next
    case hit: (Some hit)
    then have "hit \<in> set ps" by (auto simp: hit_projection_def find_Some_iff) (metis nth_mem length_rev set_rev)
    from click_focus_ok[OF assms(1) Some visible_projections_points[OF t ps this] assms(3), of "tab_focused t"]
    obtain s1 t1 where "click_focus w hit (tab_focused t) s = Some s1" "session_ok s1" "active_tab s1 = Some t1"
      "same_panes t t1" "tab_tree t1 = tab_tree t" "cur_drag s1 = None" using assms(2) by auto
    with press_mouse_ok[of s1 t1 t w m hit] Some ps hit show ?thesis by (auto simp: press_on_tab_def)
  qed
qed

lemma mouse_ok:
  assumes "session_ok s" and "drag_admits s m" and "cur_modal s = None \<or> willing w"
  shows "\<exists>s'. mouse w m s = Some s' \<and> session_ok s'"
proof -
  from cancel_pointer_drag_ok[OF assms(1), of w True] obtain s1 where
    s1: "cancel_pointer_drag w True s = Some s1" "session_ok s1" "calm s s1" "cur_drag s1 = None" by blast
  have "cur_modal s1 = None \<or> willing w" using s1(3) assms(3) by (auto simp: calm_def)
  from press_on_tab_ok[OF s1(2,4) this, of m] s1 assms(1) session_ok_no_drag
    update_pointer_drag_ok[OF assms(1,2), of w]
  show ?thesis by (auto simp: mouse_def Let_def)
qed

section \<open>Keyboard actions\<close>

text \<open>
  After the drag and the float-edit mode have ended: a resize key must leave a tree that fits, a
  split must meet a pane of at least two cells across, and a float needs a tab.
\<close>

definition action_admits :: "action \<Rightarrow> 'v session \<Rightarrow> bool" where
  "action_admits a s \<longleftrightarrow>
     (case (a, active_tab s) of
        (NewFloatingPane, None) \<Rightarrow> False
      | (ResizeAction d, Some t) \<Rightarrow>
          (case tab_tree t of None \<Rightarrow> True
           | Some tree \<Rightarrow>
               (case node_resize tree (tab_focused t) d (content_area s) of
                  None \<Rightarrow> True | Some (tree', _) \<Rightarrow> tree_fits (content_area s) tree'))
      | (SplitAction ax, Some t) \<Rightarrow>
          (case tab_tree t of None \<Rightarrow> True
           | Some tree \<Rightarrow> layer_contains (tab_floating t) (tab_focused t) \<or>
               node_split tree (tab_focused t) (next_pane_id s) ax (content_area s) \<noteq> None)
      | _ \<Rightarrow> True)"

lemma perform_ok:
  assumes "session_ok s" and "cur_drag s = None" and "action_admits a s"
  shows "\<exists>s'. perform w a s = Some s' \<and> session_ok s'"
proof (cases a)
  case (SplitAction ax)
  with assms(3) have "\<exists>s'. split w ax s = Some s' \<and> session_ok s'"
    by (intro split_ok[OF assms(1,2)]) (auto simp: action_admits_def)
  with SplitAction show ?thesis by (simp add: perform_def)
next
  case (ResizeAction d)
  with assms(3) have "\<exists>s'. resize_key w d s = Some s' \<and> session_ok s'"
    by (intro resize_key_ok[OF assms(1)]) (auto simp: action_admits_def)
  with ResizeAction show ?thesis by (simp add: perform_def)
next
  case NewTab
  with new_tab_ok[OF assms(1,2)] show ?thesis by simp
next
  case (SelectTab i)
  with assms(1) go_to_tab_ok[OF assms(1), of i w] show ?thesis by (simp add: perform_def)
next
  case NewFloatingPane
  with assms(3) new_float_ok[OF assms(1,2), of w] show ?thesis
    by (simp add: perform_def action_admits_def split: option.splits)
qed (use assms(1) go_to_tab_ok[OF assms(1), where w = w] in
      \<open>auto simp: perform_def focus_ok toggle_zoom_ok toggle_floats_ok toggle_pin_ok enter_copy_mode_ok
        enter_float_mode_ok copy_input_ok paste_ok safe_close split: option.split\<close>)

lemma action_ok:
  assumes "session_ok s" and "\<And>s1. settle w s = Some s1 \<Longrightarrow> action_admits a s1"
  shows "\<exists>s'. action w a s = Some s' \<and> session_ok s'"
proof -
  from settle_ok[OF assms(1), of w] obtain s1 where
    "settle w s = Some s1" "session_ok s1" "cur_drag s1 = None" by blast
  with perform_ok[of s1 a w] assms(2) show ?thesis by (simp add: action_def)
qed

section \<open>Automation\<close>

lemma find_tab_Some:
  assumes "find_tab p s = Some i"
  shows "i < length (tabs s)" and "p \<in> set (tab_panes (tabs s ! i))"
  using assms by (auto simp: find_tab_def dest: position_SomeD)

lemma automation_focus_ok:
  assumes "session_ok s"
  shows "\<exists>r. automation_focus w p s = Some r \<and> session_ok (snd r)"
proof (cases "find_tab p s")
  case None
  with assms show ?thesis by (simp add: automation_focus_def)
next
  case (Some i)
  note i = find_tab_Some[OF Some]
  have "tab_ok (content_area s) (tabs s ! i)" using assms i(1) by (simp add: session_parts)
  with reveal_ok[OF this i(2)] have "session_ok (s\<lparr>tabs := (tabs s)[i := reveal p (tabs s ! i)]\<rparr>)"
    by (intro replace_tab_ok[OF assms i(1)]) simp_all
  then have "session_ok (s\<lparr>tabs := (tabs s)[i := reveal p (tabs s ! i)], active_index := i, force_full := True\<rparr>)"
    using i(1) by (simp add: session_parts all_panes_def)
  from safe_relayout[OF this, of w] Some show ?thesis by (auto simp: automation_focus_def)
qed

text \<open>
  A boundary drag of the same tab would restore a tree without the new pane, and the pane ids must
  not be exhausted.
\<close>

definition split_admits :: "pane_id \<Rightarrow> axis \<Rightarrow> 'v session \<Rightarrow> bool" where
  "split_admits p ax s \<longleftrightarrow>
     next_pane_id s < 18446744073709551615 \<and>
     (case find_tab p s of
        None \<Rightarrow> True
      | Some i \<Rightarrow>
          (case cur_drag s of
             Some (TiledBoundary tid _ _ _ _) \<Rightarrow> tid \<noteq> tab_id (tabs s ! i)
           | _ \<Rightarrow> True) \<and>
          (case tab_tree (tabs s ! i) of
             None \<Rightarrow> True
           | Some tree \<Rightarrow> node_split tree p (next_pane_id s) ax (content_area s) \<noteq> None))"

lemma automation_split_ok:
  assumes "session_ok s" and "split_admits p ax s"
  shows "\<exists>r. automation_split w p ax s = Some r \<and> session_ok (snd r)"
proof (cases "find_tab p s")
  case None
  with assms(1) show ?thesis by (simp add: automation_split_def)
next
  case (Some i)
  note i = find_tab_Some[OF Some]
  let ?t = "tabs s ! i" and ?n = "next_pane_id s"
  have t: "?t \<in> set (tabs s)" "tab_ok (content_area s) ?t" using assms(1) i(1) by (auto simp: session_parts)
  show ?thesis
  proof (cases "tab_tree ?t")
    case None
    with Some assms(1) show ?thesis by (simp add: automation_split_def)
  next
    case tree: (Some tree)
    from assms(2) Some tree obtain r where r: "node_split tree p ?n ax (content_area s) = Some r"
      by (auto simp: split_admits_def)
    show ?thesis
    proof (cases "\<not> node_contains tree p \<or> (\<exists>e. r = Inl e) \<or> \<not> spawn_ok w ?n (tab_id ?t)")
      case True
      with Some tree r assms(1) show ?thesis
        by (cases r) (auto simp: automation_split_def spawn_pane_def)
    next
      case False
      then obtain candidate where c: "node_contains tree p" "r = Inr candidate" "spawn_ok w ?n (tab_id ?t)"
        by (cases r) auto
      note new = split_tab_ok[OF t(2) tree fresh_in_tab[OF assms(1) t(1)] r[unfolded c(2)]]
      let ?u = "set_focus ?n (?t\<lparr>tab_tree := Some candidate\<rparr>)"
      have "drag_fits (content_area s) ((tabs s)[i := ?u]) drag" if d: "cur_drag s = Some drag" for drag
      proof -
        have old: "drag_fits (content_area s) (tabs s) drag" using assms(1) d by (simp add: session_parts)
        have other: "u = ?u \<or> u \<in> set (tabs s)" if "u \<in> set ((tabs s)[i := ?u])" for u
          using that set_update_subset_insert by fastforce
        show ?thesis
        proof (cases drag)
          case (TiledBoundary tid ax' b l original)
          with assms(2) Some d have "tid \<noteq> tab_id ?t" by (simp add: split_admits_def)
          with old new(2) other TiledBoundary show ?thesis by (auto simp: drag_fits_def)
        qed (simp_all add: drag_fits_def)
      qed
      from add_pane_ok[OF assms(1) i(1) _ new_pane_ok new this, of "?n + 1" w s]
      have "session_ok (s\<lparr>panes := bt_insert ?n (new_pane w s) (panes s), next_pane_id := ?n + 1,
          tabs := (tabs s)[i := ?u]\<rparr>)" by simp
      moreover have "wrapping_inc64 ?n = ?n + 1"
        using assms(2) by (simp add: split_admits_def wrapping_inc64_def)
      ultimately have "session_ok ((emit e (s\<lparr>panes := bt_insert ?n (new_pane w s) (panes s)\<rparr>))
          \<lparr>next_pane_id := wrapping_inc64 ?n, tabs := (tabs s)[i := ?u], force_full := True\<rparr>)" for e
        by (simp add: emit_def session_parts all_panes_def)
      from safe_relayout[OF this, of w "SpawnedPane ?n (tab_id ?t)"] Some tree r c show ?thesis
        by (auto simp: automation_split_def spawn_pane_def emit_def)
    qed
  qed
qed

section \<open>The attached client\<close>

definition host_admits :: "display_metrics \<Rightarrow> 'v session \<Rightarrow> bool" where
  "host_admits d s \<longleftrightarrow>
     (\<forall>t\<in>set (tabs s). tree_ok (content_area
        (s\<lparr>attached := None, last_display := normalized_display d (status_visible (config s))\<rparr>)) (tab_tree t))"

lemma rehost_ok:
  assumes "session_ok s" and "cur_drag s = None" and "host_admits d s"
    and "client_display a = normalized_display d (status_visible (config s))"
  shows "session_ok (clamp_tabs (s\<lparr>last_display := client_display a, attached := Some a\<rparr>))"
proof -
  let ?s = "s\<lparr>last_display := client_display a, attached := Some a\<rparr>"
  let ?a = "content_area ?s"
  have host: "host_ok ?s"
    using assms(4) by (auto simp: host_ok_def normalized_display_def clamp_val_def)
  note area = area_ok_content[OF host]
  have "?a = content_area (s\<lparr>attached := None, last_display := client_display a\<rparr>)"
    by (simp add: content_area_def layout_display_def)
  then have fit: "tree_ok ?a (tab_tree t)" if "t \<in> set (tabs s)" for t
    using assms(3,4) that by (simp add: host_admits_def)
  let ?f = "\<lambda>t. t\<lparr>tab_floating := layer_clamp_all ?a (tab_floating t)\<rparr>"
  have each: "tab_ok ?a (?f t)" "tab_panes (?f t) = tab_panes t" if "t \<in> set (tabs s)" for t
    using clamp_layer_ok[OF _ area fit[OF that], of "content_area s"] assms(1) that by (auto simp: session_parts)
  have ids: "map tab_id (map ?f (tabs s)) = map tab_id (tabs s)" by simp
  have ps: "map tab_panes (map ?f (tabs s)) = map tab_panes (tabs s)" using each(2) by simp
  have c: "clamp_tabs ?s = ?s\<lparr>tabs := map ?f (tabs s)\<rparr>" by (simp add: clamp_tabs_def)
  have all: "all_panes (clamp_tabs ?s) = all_panes s" by (simp add: all_panes_def c ps del: map_map)
  have "tabs_ok (clamp_tabs ?s)"
    using assms(1) each ids all by (simp add: tabs_ok_def session_ok_def c comp_def)
  moreover have "panes_ok (clamp_tabs ?s)" "host_ok (clamp_tabs ?s)" "drag_ok (clamp_tabs ?s)"
    using assms(1,2) host by (simp_all add: c session_parts)
  moreover have "panes (clamp_tabs ?s) = panes s" by (simp add: c)
  ultimately show ?thesis using assms(1) all by (simp add: session_ok_def)
qed

lemma settled_admits:
  "calm s s1 \<Longrightarrow> host_admits d s1 \<Longrightarrow> host_admits d s1 \<and> config s1 = config s"
  by (simp add: calm_def)

lemma client_resize_ok:
  assumes "session_ok s" and "\<And>s1. settle w s = Some s1 \<Longrightarrow> host_admits d s1" and "attached s \<noteq> None"
  shows "\<exists>s'. client_resize w d s = Some s' \<and> session_ok s'"
proof -
  from settle_ok[OF assms(1), of w] obtain s1 where
    s1: "settle w s = Some s1" "session_ok s1" "calm s s1" "cur_drag s1 = None" by blast
  from assms(3) s1(3) obtain a where a: "attached s1 = Some a" by (auto simp: calm_def)
  let ?d = "normalized_display d (status_visible (config s1))"
  have "session_ok (clamp_tabs (s1\<lparr>last_display := client_display (a\<lparr>client_display := ?d\<rparr>),
      attached := Some (a\<lparr>client_display := ?d\<rparr>)\<rparr>))"
    by (rule rehost_ok[OF s1(2,4) assms(2)[OF s1(1)]]) simp
  moreover have "s1\<lparr>last_display := x, attached := y\<rparr> = s1\<lparr>attached := y, last_display := x\<rparr>" for x y
    by (cases s1) simp
  ultimately have "session_ok ((clamp_tabs (s1\<lparr>attached := Some (a\<lparr>client_display := ?d\<rparr>),
      last_display := ?d\<rparr>))\<lparr>force_full := True\<rparr>)" by simp
  from safe_relayout[OF this, of w] s1(1) a show ?thesis by (simp add: client_resize_def Let_def)
qed

lemma attach_ok:
  assumes "session_ok s" and "\<And>s1. settle w s = Some s1 \<Longrightarrow> host_admits d s1"
  shows "\<exists>s'. attach w c replace d vivid s = Some s' \<and> session_ok s'"
proof -
  from settle_ok[OF assms(1), of w] obtain s1 where
    s1: "settle w s = Some s1" "session_ok s1" "calm s s1" "cur_drag s1 = None" by blast
  show ?thesis
  proof (cases "attached s1 \<noteq> None \<and> \<not> replace")
    case True
    with s1 show ?thesis by (simp add: attach_def)
  next
    case False
    let ?s2 = "to_client (SentDetached ''replaced by another client'') s1"
    let ?d = "normalized_display d (status_visible (config s))"
    let ?a = "\<lparr>client_id = c, client_display = ?d, client_vivid = vivid,
      client_acknowledged = frame_id ?s2, client_rendered = 0, client_frames = []\<rparr>"
    have cfg: "config ?s2 = config s" using s1(3) by (simp add: calm_def to_client_def emit_def)
    have "host_admits d ?s2 = host_admits d s1"
      by (simp add: host_admits_def to_client_def emit_def content_area_def layout_display_def)
    then have "host_admits d ?s2" using assms(2)[OF s1(1)] by simp
    moreover have "session_ok ?s2" "cur_drag ?s2 = None" using s1 by (simp_all add: to_client_def emit_def)
    ultimately have "session_ok (clamp_tabs (?s2\<lparr>last_display := client_display ?a, attached := Some ?a\<rparr>))"
      by (intro rehost_ok[of ?s2 d ?a]) (simp_all add: cfg)
    then have "session_ok ((emit (SentAttached (\<not> vivid)) (clamp_tabs (?s2\<lparr>last_display := ?d, attached := Some ?a\<rparr>)))
        \<lparr>force_full := True\<rparr>)" by simp
    from do_resize_all_ok[OF this, of w] False s1(1) show ?thesis
      by (auto simp: attach_def Let_def returns_ok_def)
  qed
qed

lemma session_ok_unattach: "session_ok s \<Longrightarrow> session_ok (s\<lparr>attached := None\<rparr>)"
proof -
  assume s: "session_ok s"
  have "content_area (s\<lparr>attached := None\<rparr>) = content_area s"
    using s by (auto simp: content_area_def layout_display_def session_parts split: option.split)
  with s show ?thesis by (simp add: session_parts all_panes_def)
qed

lemma detach_ok:
  assumes "session_ok s"
  shows "\<exists>s'. detach w s = Some s' \<and> session_ok s'" and "\<exists>s'. disconnected w s = Some s' \<and> session_ok s'"
proof -
  from cancel_pointer_drag_ok[OF assms, of w True] obtain s1 where
    s1: "cancel_pointer_drag w True s = Some s1" "session_ok s1" by blast
  have "session_ok ((emit (SentDetached ''detached'') s1)\<lparr>attached := None\<rparr>)"
    "session_ok (s1\<lparr>attached := None, force_full := True\<rparr>)"
    using session_ok_unattach[of "emit e s1" for e] session_ok_unattach[OF s1(2)] s1(2) by simp_all
  from safe_end_mode[OF this(1), of w True] safe_end_mode[OF this(2), of w True] s1(1)
  show "\<exists>s'. detach w s = Some s' \<and> session_ok s'" "\<exists>s'. disconnected w s = Some s' \<and> session_ok s'"
    by (auto simp: detach_def disconnected_def)
qed

lemma render_ack_ok: "session_ok s \<Longrightarrow> session_ok (render_ack c f s)"
proof -
  assume s: "session_ok s"
  have "session_ok (s\<lparr>attached := Some (acknowledge f a)\<rparr>)" if "attached s = Some a" for a
  proof -
    have d: "client_display (acknowledge f a) = client_display a" by (simp add: acknowledge_def Let_def)
    with that have "content_area (s\<lparr>attached := Some (acknowledge f a)\<rparr>) = content_area s"
      by (simp add: content_area_def layout_display_def)
    with s d that show ?thesis by (simp add: session_parts all_panes_def)
  qed
  with s show ?thesis by (simp add: render_ack_def split: option.split)
qed

lemma render_resync_ok: "session_ok s \<Longrightarrow> session_ok (render_resync s)"
proof -
  assume s: "session_ok s"
  let ?f = "map_option (\<lambda>a. a\<lparr>client_acknowledged := frame_id s, client_frames := []\<rparr>)"
  have "content_area (s\<lparr>attached := ?f (attached s)\<rparr>) = content_area s"
    by (cases "attached s") (simp_all add: content_area_def layout_display_def)
  with s have "session_ok (s\<lparr>attached := ?f (attached s)\<rparr>)" by (auto simp: session_parts all_panes_def)
  then have "session_ok ((s\<lparr>attached := ?f (attached s)\<rparr>)\<lparr>force_full := True\<rparr>)" by simp
  moreover have "(s\<lparr>attached := x\<rparr>)\<lparr>force_full := True\<rparr> = s\<lparr>force_full := True, attached := x\<rparr>" for x
    by (cases s) simp
  ultimately show ?thesis by (simp add: render_resync_def)
qed

section \<open>The session as a safe machine\<close>

text \<open>
  Which events a session takes without a panic. The actor stops with its last tab. An attaching or
  resized host must leave room for every tree; the conditions of keyboard splits and resizes, of
  boundary drags and of automation splits are the ones above; all other events are admitted.
\<close>

definition admits_settled :: "'v world \<Rightarrow> ('v session \<Rightarrow> bool) \<Rightarrow> 'v session \<Rightarrow> bool" where
  "admits_settled w P s \<longleftrightarrow> (case settle w s of None \<Rightarrow> False | Some s1 \<Rightarrow> P s1)"

definition admits :: "'v session \<Rightarrow> 'v world \<times> session_event \<Rightarrow> bool" where
  "admits s we \<longleftrightarrow>
     tabs s \<noteq> [] \<and>
     (case we of (w, e) \<Rightarrow>
        (case e of
           Attach c r d v \<Rightarrow> admits_settled w (host_admits d) s
         | ClientResize c d \<Rightarrow> client_is c s \<longrightarrow> admits_settled w (host_admits d) s
         | ClientAction c a \<Rightarrow> client_is c s \<longrightarrow> admits_settled w (action_admits a) s
         | ClientMouse c m \<Rightarrow> client_is c s \<longrightarrow> drag_admits s m \<and> (cur_modal s = None \<or> willing w)
         | AutomationSplit p ax \<Rightarrow> split_admits p ax s
         | _ \<Rightarrow> True))"

lemma from_client_ok:
  "session_ok s \<Longrightarrow> (client_is c s \<Longrightarrow> \<exists>s'. f s = Some s' \<and> session_ok s') \<Longrightarrow>
     \<exists>s'. from_client c f s = Some s' \<and> session_ok s'"
  by (simp add: from_client_def)

lemma session_step_safe:
  assumes "session_ok s" and "admits s we"
  shows "\<exists>s'. session_step we s = Some s' \<and> session_ok s'"
proof -
  obtain w e where we: "we = (w, e)" by fastforce
  have settled: "P s1" if "admits_settled w P s" "settle w s = Some s1" for P s1
    using that by (simp add: admits_settled_def)
  have "\<exists>s'. session_event_step w e s = Some s' \<and> session_ok s'"
  proof (cases e)
    case (Attach c r d v)
    with assms settled show ?thesis by (auto simp: admits_def we intro!: attach_ok)
  next
    case (ClientInput c bs)
    with assms(1) show ?thesis by (auto intro!: from_client_ok pane_input_ok)
  next
    case (ClientMouse c m)
    with assms show ?thesis by (auto simp: admits_def we intro!: from_client_ok mouse_ok)
  next
    case (ClientResize c d)
    with assms settled show ?thesis
      by (auto simp: admits_def we client_is_def split: option.splits intro!: from_client_ok client_resize_ok)
  next
    case (ClientAction c a)
    with assms settled show ?thesis by (auto simp: admits_def we intro!: from_client_ok action_ok)
  next
    case (RenderAck c f)
    with assms(1) show ?thesis by (simp add: render_ack_ok)
  next
    case (RenderResync c)
    with assms(1) show ?thesis by (auto simp: render_resync_ok intro!: from_client_ok)
  next
    case (FloatEdit c i cmd)
    with assms(1) show ?thesis by (auto intro!: from_client_ok float_edit_ok)
  next
    case (Detach c)
    with assms(1) show ?thesis by (auto intro!: from_client_ok detach_ok)
  next
    case (Disconnected c)
    with assms(1) show ?thesis by (auto intro!: from_client_ok detach_ok)
  next
    case (PtyOutput p bs)
    with assms(1) show ?thesis by (simp add: pty_output_ok)
  next
    case (PtyExit p)
    with assms(1) show ?thesis by (simp add: safe_close)
  next
    case (AutomationSplit p ax)
    with assms automation_split_ok[of s p ax w] show ?thesis by (auto simp: admits_def we)
  next
    case (AutomationFocus p)
    with assms automation_focus_ok[of s w p] show ?thesis by auto
  next
    case (AutomationClose p)
    with assms(1) show ?thesis by (auto simp: safe_close split: option.split)
  qed
  then show ?thesis by (simp add: we)
qed

interpretation actor: safe_machine session_step session_ok admits
  by unfold_locales (rule session_step_safe)

lemma session_ok_empty: "session_ok (empty_session c)"
  by (auto simp: session_parts all_panes_def empty_session_def blank_display_def normalized_display_def clamp_val_def)

lemma start_ok:
  assumes "start w c = Some s"
  shows "session_ok s"
proof -
  let ?e = "empty_session c :: 'a session"
  have e: "panes ?e = []" "tabs ?e = []" "active_index ?e = 0" "cur_drag ?e = None"
    "next_pane_id ?e = 1" "next_tab_id ?e = 1" by (simp_all add: empty_session_def)
  note new = append_tab_ok[OF session_ok_empty[of c] e(4) new_pane_ok[of w ?e], of 0]
  from assms have "s = schedule_render ((emit (SpawnedPane 1 1)
      (?e\<lparr>panes := bt_insert 1 (new_pane w ?e) (panes ?e)\<rparr>))
      \<lparr>next_pane_id := 1 + 1, next_tab_id := 1 + 1, tabs := tabs ?e @ [first_tab 1 1]\<rparr>)"
    by (auto simp: start_def new_tab_def spawn_pane_def Let_def first_tab_def e emit_def split: if_splits)
  moreover have "session_ok ((emit (SpawnedPane 1 1) (?e\<lparr>panes := bt_insert 1 (new_pane w ?e) (panes ?e)\<rparr>))
      \<lparr>next_pane_id := 1 + 1, next_tab_id := 1 + 1, tabs := tabs ?e @ [first_tab 1 1]\<rparr>)"
    using new by (simp add: e session_parts all_panes_def emit_def)
  ultimately show ?thesis by simp
qed

end
