(* ===== verification/Session_Examples.thy ===== *)
theory Session_Examples
  imports Session_Safety
begin

text \<open>
  A concrete environment and configuration, and the session they start: the input on which the
  properties of the session actor are applied.
\<close>

section \<open>A world for examples\<close>

definition example_world :: "bool \<Rightarrow> unit world" where
  "example_world accepts =
     \<lparr>spawn_ok = (\<lambda>_ _. True), resize_ok = (\<lambda>_ _ _. accepts), queue_input = (\<lambda>_ _. None),
      host_platform = Unix, parser_new = (), parser_advance = (\<lambda>v _. ([], v)),
      char_width = (\<lambda>_. Some 1)\<rparr>"

definition example_config :: session_config where
  "example_config =
     \<lparr>status_visible = True, scrollback_lines = 100, border_drag_margin = 1,
      default_width_percent = 60, default_height_percent = 60, copy_keys = (\<lambda>_. None)\<rparr>"

lemma example_start: "\<exists>s. start (example_world b) example_config = Some s"
  by (simp add: start_def new_tab_def spawn_pane_def example_world_def Let_def)

lemma example_willing: "willing (example_world True)"
  by (simp add: willing_def example_world_def)

lemma start_tabs: "start w c = Some s \<Longrightarrow> tabs s = [first_tab 1 1] \<and> cur_drag s = None \<and>
    cur_modal s = None \<and> attached s = None \<and> active_index s = 0 \<and> next_pane_id s = 2 \<and>
    content_area s = content_area (empty_session c :: 'v session)" for s :: "'v session"
  by (auto simp: start_def new_tab_def spawn_pane_def Let_def empty_session_def first_tab_def emit_def
      schedule_render_def content_area_def layout_display_def split: if_splits)

lemma example_view:
  "\<exists>s t ps. start (example_world True) example_config = Some s \<and> session_ok s \<and>
     active_tab s = Some t \<and> t = first_tab 1 1 \<and> visible_projections t (content_area s) = Some ps"
proof -
  obtain s where s: "start (example_world True) example_config = Some s" using example_start by blast
  from start_tabs[OF s] have a: "active_tab s = Some (first_tab 1 1)"
    by (simp add: active_tab_def vec_get_def)
  from visible_projections_ok[OF active_tab_ok[OF start_ok[OF s] a]] a s start_ok[OF s] show ?thesis by blast
qed

lemma example_content:
  assumes "start (example_world b) example_config = Some s"
  shows "content_area s = \<lparr>rect_x = 0, rect_y = 0, rect_width = 80, rect_height = 23\<rparr>"
proof -
  have "content_area (empty_session example_config :: unit session) =
      \<lparr>rect_x = 0, rect_y = 0, rect_width = 80, rect_height = 23\<rparr>"
    by (simp add: content_area_def layout_display_def empty_session_def blank_display_def
        normalized_display_def example_config_def clamp_val_def)
  with start_tabs[OF assms] show ?thesis by simp
qed

lemma example_area:
  assumes "start (example_world b) example_config = Some s" and "px < 80" and "py < 20"
  shows "rect_contains (content_area s) px py"
  using example_content[OF assms(1)] assms(2,3) by (simp add: rect_contains_def add16_def)

end
