(* ===== verification/Session_View.thy ===== *)
theory Session_View
  imports Session_Examples
begin

text \<open>
  What a tab shows and who answers for it: a press reaches the topmost rectangle, media quota goes
  to the panes in a fixed order without duplicates, the fragment ids handed to the outer server
  are stable, and a pasted buffer cannot close its own brackets.
\<close>

section \<open>Hit testing\<close>

lemma geometry_covers:
  assumes "geometry tree area = Some g" and "area_ok area" and "distinct (pane_ids tree)"
    and "rect_contains area px py"
  shows "\<exists>e\<in>set g. rect_contains (snd e) px py"
proof -
  from geometry_set[OF assms(1,3)] obtain l where l: "leaf_areas tree area = Some l" "set g = set l" by blast
  from leaf_areas_count[OF l(1) assms(2), of px py] assms(4)
  have "filter (\<lambda>e. rect_contains (snd e) px py) l \<noteq> []" by auto
  then show ?thesis using l(2) by (auto simp: filter_empty_conv)
qed

lemma hit_None: "hit_projection px py ps = None \<longleftrightarrow> (\<forall>q\<in>set ps. \<not> rect_contains (proj_outer q) px py)"
  by (auto simp: hit_projection_def find_None_iff)

lemma hit_Some:
  assumes "hit_projection px py ps = Some q"
  shows "\<exists>below above. ps = below @ q # above \<and> rect_contains (proj_outer q) px py \<and>
    (\<forall>r\<in>set above. \<not> rect_contains (proj_outer r) px py)"
proof -
  from assms obtain i where i: "i < length (rev ps)" "rect_contains (proj_outer (rev ps ! i)) px py"
    "q = rev ps ! i" "\<forall>j<i. \<not> rect_contains (proj_outer (rev ps ! j)) px py"
    by (auto simp: hit_projection_def find_Some_iff)
  have "rev ps = take i (rev ps) @ q # drop (Suc i) (rev ps)" using i by (simp add: id_take_nth_drop)
  then have "ps = rev (drop (Suc i) (rev ps)) @ q # rev (take i (rev ps))"
    by (metis rev_append rev.simps(2) rev_rev_ident append.assoc append_Cons append_Nil)
  moreover have "\<forall>r\<in>set (take i (rev ps)). \<not> rect_contains (proj_outer r) px py"
    using i(1,4) by (auto simp: in_set_conv_nth)
  ultimately show ?thesis using i(2,3) by (metis set_rev)
qed

text \<open>Tiled panes come before the floats, ordinary floats before the pinned ones.\<close>

definition layer_rank :: "pane_layer \<Rightarrow> nat" where
  "layer_rank l = (case l of Tiled \<Rightarrow> 0 | Floating \<Rightarrow> 1 | Pinned \<Rightarrow> 2)"

lemma visible_projections_layered:
  assumes "tab_ok area t" and "visible_projections t area = Some ps"
  shows "sorted_wrt (\<lambda>a b. layer_rank (proj_layer a) \<le> layer_rank (proj_layer b)) ps"
proof (cases "tab_zoomed t")
  case None
  let ?le = "\<lambda>a b. layer_rank (proj_layer a) \<le> layer_rank (proj_layer b)"
  define shown where "shown = layer_visible (tab_floating t)"
  let ?tiled = "\<lambda>(p, outer). \<lparr>proj_pane = p, proj_outer = outer, proj_content = content outer,
    proj_layer = Tiled, proj_focused = (tab_focused t = p)\<rparr>"
  let ?float = "\<lambda>f. \<lparr>proj_pane = float_pane f, proj_outer = float_rect f,
    proj_content = content (float_rect f), proj_layer = float_layer_of f,
    proj_focused = (tab_focused t = float_pane f)\<rparr>"
  have tiled: "sorted_wrt ?le (map ?tiled xs)" for xs
    by (induction xs) (auto simp: layer_rank_def)
  have "sorted (map float_pinned shown)"
    using assms(1) layered_filter by (simp add: shown_def layer_visible_def layered_def tab_ok_def layer_wf_def sorted_filter)
  then have float: "sorted_wrt ?le (map ?float shown)"
    by (induction shown) (auto simp: layer_rank_def float_layer_of_def)
  from None assms(2) obtain g where "ps = map ?tiled g @ map ?float shown"
    by (auto simp: visible_projections_def shown_def bind_eq_Some_conv)
  then show ?thesis using tiled float by (auto simp: sorted_wrt_append layer_rank_def)
next
  case (Some z)
  with assms(2) show ?thesis by (auto simp: visible_projections_def)
qed

text \<open>
  C33. A press goes to the topmost pane under the pointer: the pane hit is one the tab shows, it
  contains the point, nothing drawn after it does, and every other pane there is in the same layer
  or a lower one (tiled below floating below pinned). A press inside the content area of an
  unzoomed tab with a tiled tree always hits some pane.
\<close>

theorem press_hits_topmost:
  assumes "session_ok s" and "active_tab s = Some t"
    and "visible_projections t (content_area s) = Some ps"
  shows "(case hit_projection px py ps of
      None \<Rightarrow> (\<forall>q\<in>set ps. \<not> rect_contains (proj_outer q) px py) \<and>
        (tab_zoomed t = None \<longrightarrow> tab_tree t \<noteq> None \<longrightarrow> \<not> rect_contains (content_area s) px py)
    | Some q \<Rightarrow> \<exists>below above. ps = below @ q # above \<and> rect_contains (proj_outer q) px py \<and>
        (\<forall>r\<in>set above. \<not> rect_contains (proj_outer r) px py) \<and>
        (\<forall>r\<in>set ps. rect_contains (proj_outer r) px py \<longrightarrow>
           layer_rank (proj_layer r) \<le> layer_rank (proj_layer q)))"
proof (cases "hit_projection px py ps")
  case None
  note t = active_tab_ok[OF assms(1,2)]
  have "\<not> rect_contains (content_area s) px py" if z: "tab_zoomed t = None" and tree: "tab_tree t = Some tree" for tree
  proof
    assume c: "rect_contains (content_area s) px py"
    from z tree assms(3) obtain g where g: "geometry tree (content_area s) = Some g"
      "(\<lambda>(p, outer). \<lparr>proj_pane = p, proj_outer = outer, proj_content = content outer,
         proj_layer = Tiled, proj_focused = (tab_focused t = p)\<rparr>) ` set g \<subseteq> set ps"
      by (auto simp: visible_projections_def bind_eq_Some_conv)
    have "distinct (pane_ids tree)" using t tree by (simp add: tab_ok_def tab_panes_def)
    from geometry_covers[OF g(1) session_area[OF assms(1)] this c] g(2) None
    show False by (fastforce simp: hit_None)
  qed
  then show ?thesis using None hit_None[of px py ps] by auto
next
  case (Some q)
  from hit_Some[OF this] obtain below above where h: "ps = below @ q # above"
    "rect_contains (proj_outer q) px py" "\<forall>r\<in>set above. \<not> rect_contains (proj_outer r) px py" by blast
  have "\<forall>r\<in>set below. layer_rank (proj_layer r) \<le> layer_rank (proj_layer q)"
    using visible_projections_layered[OF active_tab_ok[OF assms(1,2)] assms(3)] h(1)
    by (simp add: sorted_wrt_append)
  with Some h show ?thesis by auto
qed

theorem press_hits_topmost_witness:
  "\<exists>s t ps q. start (example_world True) example_config = Some s \<and> active_tab s = Some t \<and>
     visible_projections t (content_area s) = Some ps \<and> hit_projection 3 3 ps = Some q \<and>
     rect_contains (proj_outer q) 3 3"
proof -
  obtain s t ps where s: "start (example_world True) example_config = Some s" "session_ok s"
    "active_tab s = Some t" "t = first_tab 1 1" "visible_projections t (content_area s) = Some ps"
    using example_view by blast
  have "rect_contains (content_area s) 3 3" by (rule example_area[OF s(1)]) simp_all
  with press_hits_topmost[OF s(2,3,5), of 3 3] s(4) obtain q where
    "hit_projection 3 3 ps = Some q" "rect_contains (proj_outer q) 3 3"
    by (auto simp: first_tab_def split: option.splits)
  with s show ?thesis by blast
qed

section \<open>The order of media quota\<close>

text \<open>Pushing what is new keeps what is there and adds the rest in order.\<close>

lemma fold_push_new: "distinct xs \<Longrightarrow> fold push_new xs out = out @ filter (\<lambda>x. x \<notin> set out) xs"
proof (induction xs arbitrary: out)
  case (Cons x xs)
  have "filter (\<lambda>y. y \<noteq> x \<and> y \<notin> set out) xs = filter (\<lambda>y. y \<notin> set out) xs"
    using Cons.prems by (auto intro: filter_cong)
  with Cons show ?case by (auto simp: push_new_def)
qed simp

lemma layer_panes_of_rev: "layer_panes_of l (rev ps) = rev (layer_panes_of l ps)"
  by (simp add: layer_panes_of_def rev_filter rev_map)

lemma layer_panes_of_distinct: "distinct (map proj_pane ps) \<Longrightarrow> distinct (layer_panes_of l ps)"
  by (simp add: layer_panes_of_def distinct_map_filter)

lemma layer_panes_of_disjoint:
  "distinct (map proj_pane ps) \<Longrightarrow> l \<noteq> k \<Longrightarrow> p \<in> set (layer_panes_of l ps) \<Longrightarrow> p \<notin> set (layer_panes_of k ps)"
  by (auto simp: layer_panes_of_def distinct_map inj_on_def)

lemma layer_panes_of_union:
  "proj_pane ` set ps = set (layer_panes_of Pinned ps) \<union> set (layer_panes_of Floating ps) \<union>
     set (layer_panes_of Tiled ps)"
proof
  show "proj_pane ` set ps \<subseteq> set (layer_panes_of Pinned ps) \<union> set (layer_panes_of Floating ps) \<union>
     set (layer_panes_of Tiled ps)"
  proof clarify
    fix q assume q: "q \<in> set ps" "proj_pane q \<notin> set (layer_panes_of Tiled ps)"
      "proj_pane q \<notin> set (layer_panes_of Floating ps)"
    then show "proj_pane q \<in> set (layer_panes_of Pinned ps)"
      by (cases "proj_layer q") (auto simp: layer_panes_of_def)
  qed
qed (auto simp: layer_panes_of_def)

definition media_order :: "tab \<Rightarrow> pane_projection list \<Rightarrow> pane_id list" where
  "media_order t ps =
     filter (\<lambda>p. p = tab_focused t) (map proj_pane ps) @
     filter (\<lambda>p. p \<noteq> tab_focused t)
       (layer_panes_of Pinned (rev ps) @ layer_panes_of Floating (rev ps)) @
     filter (\<lambda>p. p \<noteq> tab_focused t \<and> tab_last_tiled t = Some p) (layer_panes_of Tiled ps) @
     filter (\<lambda>p. p \<noteq> tab_focused t \<and> tab_last_tiled t \<noteq> Some p) (sort (layer_panes_of Tiled ps))"

lemma filter_eq_distinct: "distinct xs \<Longrightarrow> filter (\<lambda>p. p = x) xs = (if x \<in> set xs then [x] else [])"
  by (induction xs) auto

lemma filter_other_eq: "distinct xs \<Longrightarrow> filter (\<lambda>q. q \<noteq> f \<and> p = q) xs = (if p \<in> set xs \<and> p \<noteq> f then [p] else [])"
  by (induction xs) auto

lemma shown_iff: "list_ex (\<lambda>q. proj_pane q = p) ps \<longleftrightarrow> p \<in> set (map proj_pane ps)"
  by (auto simp: list_ex_iff)

lemma priority_media_order:
  assumes "distinct (map proj_pane ps)"
  shows "projection_pane_priority t ps = media_order t ps"
proof -
  note d = layer_panes_of_distinct[OF assms]
  note j = layer_panes_of_disjoint[OF assms]
  note u = layer_panes_of_union[of ps]
  let ?P = "layer_panes_of Pinned (rev ps)" and ?F = "layer_panes_of Floating (rev ps)"
  let ?T = "layer_panes_of Tiled ps" and ?f = "tab_focused t"
  define o1 where "o1 = (if ?f \<in> set (map proj_pane ps) then [?f] else [])"
  have o1: "o1 = filter (\<lambda>p. p = ?f) (map proj_pane ps)"
    using filter_eq_distinct[OF assms] by (simp add: o1_def)
  have so1: "p \<in> set o1 \<longleftrightarrow> p = ?f" if "p \<in> set ?P \<union> set ?F \<union> set ?T" for p
    using that u by (auto simp: o1_def layer_panes_of_rev)
  have o3: "fold push_new ?F (fold push_new ?P o1) = o1 @ filter (\<lambda>p. p \<noteq> ?f) (?P @ ?F)" (is "_ = ?o3")
  proof -
    have "fold push_new ?F (fold push_new ?P o1) = o1 @ filter (\<lambda>p. p \<notin> set o1) ?P @
        filter (\<lambda>p. p \<notin> set o1 \<and> (p \<in> set ?P \<longrightarrow> p \<in> set o1)) ?F"
      using d[of Pinned] d[of Floating] by (simp add: fold_push_new layer_panes_of_rev)
    moreover have "filter (\<lambda>p. p \<notin> set o1) ?P = filter (\<lambda>p. p \<noteq> ?f) ?P"
      using so1 by (intro filter_cong) auto
    moreover have "filter (\<lambda>p. p \<notin> set o1 \<and> (p \<in> set ?P \<longrightarrow> p \<in> set o1)) ?F = filter (\<lambda>p. p \<noteq> ?f) ?F"
      using so1 j[of Floating Pinned] by (intro filter_cong) (auto simp: layer_panes_of_rev)
    ultimately show ?thesis by simp
  qed
  define o4 where "o4 = (case tab_last_tiled t of None \<Rightarrow> ?o3
      | Some p \<Rightarrow> if p \<in> set (map proj_pane ps) then push_new p ?o3 else ?o3)"
  have o4: "o4 = ?o3 @ filter (\<lambda>p. p \<noteq> ?f \<and> tab_last_tiled t = Some p) ?T"
  proof (cases "tab_last_tiled t")
    case None
    then show ?thesis by (simp add: o4_def)
  next
    case (Some p)
    have "filter (\<lambda>q. q \<noteq> ?f \<and> p = q) ?T = (if p \<in> set ?T \<and> p \<noteq> ?f then [p] else [])"
      by (rule filter_other_eq[OF d])
    moreover have "p \<in> set ?T \<longleftrightarrow> p \<in> set (map proj_pane ps) \<and> p \<notin> set ?P \<union> set ?F"
      using u j[of Tiled Pinned p] j[of Tiled Floating p] by (auto simp: layer_panes_of_rev)
    ultimately show ?thesis using Some so1[of p] by (auto simp: o4_def push_new_def o1_def)
  qed
  have "p \<in> set o4 \<longleftrightarrow> p = ?f \<or> tab_last_tiled t = Some p" if p: "p \<in> set ?T" for p
    using p j[of Tiled Pinned p] j[of Tiled Floating p] so1[of p] by (auto simp: o4 layer_panes_of_rev)
  then have "fold push_new (sort ?T) o4 = o4 @ filter (\<lambda>p. p \<noteq> ?f \<and> tab_last_tiled t \<noteq> Some p) (sort ?T)"
    using d[of Tiled] by (auto simp: fold_push_new intro!: filter_cong)
  moreover have "(if ?f \<in> set (map proj_pane ps) then push_new ?f [] else []) = o1"
    by (simp add: o1_def push_new_def)
  then have "projection_pane_priority t ps = fold push_new (sort ?T) o4"
    unfolding projection_pane_priority_def Let_def shown_iff o4_def by (simp only: o3)
  ultimately show ?thesis by (simp add: media_order_def o1 o4)
qed

lemma fold_push_new_set: "set (fold push_new xs out) = set xs \<union> set out"
  by (induction xs arbitrary: out) (auto simp: push_new_def)

lemma fold_push_new_distinct: "distinct out \<Longrightarrow> distinct (fold push_new xs out)"
  by (induction xs arbitrary: out) (auto simp: push_new_def)

lemma priority_set: "set (projection_pane_priority t ps) = proj_pane ` set ps"
  unfolding projection_pane_priority_def Let_def shown_iff
  by (auto simp: fold_push_new_set push_new_def layer_panes_of_union layer_panes_of_rev split: option.splits)

lemma priority_distinct: "distinct (projection_pane_priority t ps)"
  unfolding projection_pane_priority_def Let_def
  by (auto simp: fold_push_new_distinct push_new_def split: option.split intro!: fold_push_new_distinct)

text \<open>
  C34. The order in which media quota is handed out is a permutation of the panes a tab shows: the
  focused pane, the pinned floats and the ordinary floats from the top down, the tiled pane focused
  last, and the other tiled panes by ascending number, each pane once.
\<close>

theorem media_priority_permutation:
  assumes "session_ok s" and "active_tab s = Some t"
    and "visible_projections t (content_area s) = Some ps"
  shows "projection_pane_priority t ps = media_order t ps \<and>
    mset (projection_pane_priority t ps) = mset (map proj_pane ps)"
proof -
  have d: "distinct (map proj_pane ps)"
    using visible_projections_panes(3)[OF active_tab_ok[OF assms(1,2)] assms(3)] .
  then have "mset (projection_pane_priority t ps) = mset (map proj_pane ps)"
    using set_eq_iff_mset_eq_distinct[OF priority_distinct d] priority_set by (metis list.set_map)
  with priority_media_order[OF d] show ?thesis by simp
qed

theorem media_priority_permutation_witness:
  "\<exists>s t ps. start (example_world True) example_config = Some s \<and> active_tab s = Some t \<and>
     visible_projections t (content_area s) = Some ps \<and>
     mset (projection_pane_priority t ps) = mset (map proj_pane ps)"
proof -
  obtain s t ps where s: "start (example_world True) example_config = Some s" "session_ok s"
    "active_tab s = Some t" "visible_projections t (content_area s) = Some ps"
    using example_view by blast
  with media_priority_permutation[OF s(2-4)] show ?thesis by blast
qed

section \<open>Fragment ids\<close>

text \<open>The ids kept from the last call: each below 256, no two rectangles sharing one.\<close>

definition fragments_ok :: "fragment_map \<Rightarrow> bool" where
  "fragments_ok m \<longleftrightarrow> inj_on m (dom m) \<and> ran m \<subseteq> {..<256}"

lemma find_free:
  assumes "List.find (\<lambda>c. c \<notin> set used) [0..<256] = Some i"
  shows "i < 256" and "i \<notin> set used"
  using assms by (auto simp: find_Some_iff)

lemma assign_from_ok:
  assumes "ran m \<subseteq> {..<256}"
  shows "assign_from m used fs = Some out \<Longrightarrow>
    map snd out = fs \<and> distinct (map fst out) \<and> set (map fst out) \<inter> set used = {} \<and>
    set (map fst out) \<subseteq> {..<256} \<and> (\<forall>(i, f)\<in>set out. \<forall>j. m f = Some j \<longrightarrow> i = j)"
proof (induction fs arbitrary: used out)
  case (Cons f fs)
  obtain i rest where r: "out = (i, f) # rest" "assign_from m (i # used) fs = Some rest"
    "i \<notin> set used" "i < 256" "\<forall>j. m f = Some j \<longrightarrow> i = j"
    using Cons.prems assms find_free
    by (auto split: option.splits if_splits intro: ranI)
  from Cons.IH[OF r(2)] r show ?case by auto
qed simp

lemma free_id:
  assumes "length used < 256"
  shows "List.find (\<lambda>c. c \<notin> set used) [0..<256] \<noteq> None"
proof
  assume "List.find (\<lambda>c. c \<notin> set used) [0..<256] = None"
  then have "{..<256} \<subseteq> set used" by (auto simp: find_None_iff)
  then have "card {..<256::nat} \<le> card (set used)" by (intro card_mono) auto
  with assms card_length[of used] show False by simp
qed

lemma assign_new:
  "length used + length fs \<le> 256 \<Longrightarrow> set fs \<inter> dom m = {} \<Longrightarrow> assign_from m used fs \<noteq> None"
proof (induction fs arbitrary: used)
  case (Cons f fs)
  then have f: "m f = None" by auto
  from Cons.prems(1) free_id[of used] obtain i where
    "List.find (\<lambda>c. c \<notin> set used) [0..<256] = Some i" by auto
  with f Cons.IH[of "i # used"] Cons.prems show ?case by auto
qed simp

lemma assign_old_first:
  assumes "inj_on m (dom m)"
  shows "length used + length old + length new \<le> 256 \<Longrightarrow> distinct old \<Longrightarrow> set old \<subseteq> dom m \<Longrightarrow>
    set used \<inter> the ` m ` set old = {} \<Longrightarrow> set new \<inter> dom m = {} \<Longrightarrow>
    assign_from m used (old @ new) \<noteq> None"
proof (induction old arbitrary: used)
  case Nil
  then show ?case using assign_new[of used new m] by simp
next
  case (Cons f old)
  then obtain i where i: "m f = Some i" by auto
  have "i \<notin> the ` m ` set old"
  proof
    assume "i \<in> the ` m ` set old"
    then obtain g where g: "g \<in> set old" "i = the (m g)" by auto
    with Cons.prems(3) i have "m g = m f" by auto
    with inj_onD[OF assms this] g Cons.prems(2,3) show False by auto
  qed
  with Cons.IH[of "i # used"] Cons.prems i show ?case by auto
qed

text \<open>
  C35. Whenever the fragments of a surface get ids, they are listed in their order with pairwise
  distinct ids below 256, a fragment that had an id keeps it, and exactly these ids are remembered
  for the next call. At most 256 distinct fragments always get ids if those that already have one
  are listed first.
\<close>

theorem fragment_ids_stable:
  assumes "fragments_ok m"
  shows "(\<forall>fs out m'. fragment_assign fs m = (Some out, m') \<longrightarrow>
      map snd out = fs \<and> distinct (map fst out) \<and> set (map fst out) \<subseteq> {..<256} \<and>
      (\<forall>(i, f)\<in>set out. \<forall>j. m f = Some j \<longrightarrow> i = j) \<and>
      fragments_ok m' \<and> (\<forall>f i. m' f = Some i \<longleftrightarrow> (i, f) \<in> set out)) \<and>
    (\<forall>old new. set old \<subseteq> dom m \<longrightarrow> set new \<inter> dom m = {} \<longrightarrow> distinct (old @ new) \<longrightarrow>
      length (old @ new) \<le> 256 \<longrightarrow> fst (fragment_assign (old @ new) m) \<noteq> None)"
proof (intro conjI allI impI)
  fix old new
  assume "set old \<subseteq> dom m" "set new \<inter> dom m = {}" "distinct (old @ new)" "length (old @ new) \<le> 256"
  with assign_old_first[of m "[]" old new] assms show "fst (fragment_assign (old @ new) m) \<noteq> None"
    by (auto simp: fragment_assign_def fragments_ok_def split: option.split)
next
  fix fs out m' assume a: "fragment_assign fs m = (Some out, m')"
  then have fs: "distinct fs" "assign_from m [] fs = Some out" "m' = map_of (map (\<lambda>(i, f). (f, i)) out)"
    by (auto simp: fragment_assign_def split: if_splits option.splits)
  from assms have "ran m \<subseteq> {..<256}" by (simp add: fragments_ok_def)
  note o = assign_from_ok[OF this fs(2)]
  then show "map snd out = fs" "distinct (map fst out)" "set (map fst out) \<subseteq> {..<256}"
    "\<forall>(i, f)\<in>set out. \<forall>j. m f = Some j \<longrightarrow> i = j" by simp_all
  have "distinct (map fst (map (\<lambda>(i, f). (f, i)) out))"
    using o fs(1) by (simp add: comp_def case_prod_beta')
  then have m': "m' f = Some i \<longleftrightarrow> (i, f) \<in> set out" for f i
    unfolding fs(3) by (subst map_of_eq_Some_iff) auto
  then show "m' f = Some i \<longleftrightarrow> (i, f) \<in> set out" for f i .
  have "f = g" if "m' f = Some i" "m' g = Some i" for f g i
    using that o eq_key_imp_eq_value[of out i f g] by (auto simp: m')
  then have "inj_on m' (dom m')" by (auto simp: inj_on_def dom_def) 
  moreover have "ran m' \<subseteq> {..<256}" using o by (auto simp: ran_def m')
  ultimately show "fragments_ok m'" by (simp add: fragments_ok_def)
qed

theorem fragment_ids_stable_witness:
  "fst (fragment_assign
      [FixedRect 0 0 5 5, FixedRect 5 0 2 5]
      (Map.empty(FixedRect 0 0 5 5 \<mapsto> 7))) \<noteq> None"
proof -
  let ?f = "FixedRect 0 0 5 5"
  let ?g = "FixedRect 5 0 2 5"
  show ?thesis
    using fragment_ids_stable[of "Map.empty(?f \<mapsto> 7)", THEN conjunct2, rule_format, of "[?f]" "[?g]"]
    by (simp add: fragments_ok_def)
qed

section \<open>Bracketed paste\<close>

lemma paste_end_bytes: "paste_end = [27, 91, 50, 48, 49, 126]"
  and broken_end_bytes: "broken_end = [27, 91, 50, 48, 49, 59, 126]"
  by (simp_all add: paste_end_def broken_end_def ascii_def esc_def)

lemma paste_end_nth: "i < 6 \<Longrightarrow> 0 < i \<Longrightarrow> paste_end ! i \<noteq> esc"
proof -
  assume "i < 6" "0 < i"
  then have "i \<in> {1, 2, 3, 4, 5}" by auto
  then show ?thesis by (auto simp: paste_end_bytes esc_def)
qed

lemma paste_end_length [simp]: "length paste_end = 6"
  by (simp add: paste_end_def ascii_def)

text \<open>The end bracket holds a single escape byte, its first, so it cannot straddle one.\<close>

lemma no_straddle:
  assumes "prefix paste_end (drop j (xs @ esc # ys))" and "j < length xs"
  shows "prefix paste_end (drop j xs)"
proof -
  from assms(1) obtain zs where z: "drop j (xs @ esc # ys) = paste_end @ zs" by (auto simp: prefix_def)
  have "\<not> length xs - j < 6"
  proof
    assume l: "length xs - j < 6"
    then have "(paste_end @ zs) ! (length xs - j) = paste_end ! (length xs - j)" by (simp add: nth_append)
    moreover have "(drop j (xs @ esc # ys)) ! (length xs - j) = esc"
      using assms(2) by (simp add: nth_append)
    ultimately show False using paste_end_nth[OF l] assms(2) z by simp
  qed
  then have "length paste_end \<le> length (drop j xs)" by simp
  moreover have "prefix paste_end (drop j xs @ esc # ys)" using assms by simp
  ultimately show ?thesis by (metis prefixI prefix_length_prefix)
qed

text \<open>The first end bracket of the sanitized text and a closing bracket is the closing one.\<close>

definition ends_at :: "bytes \<Rightarrow> nat set" where
  "ends_at xs = {j. prefix paste_end (drop j xs)}"

lemma ends_at_escape:
  assumes "ends_at xs = {}"
  shows "ends_at (xs @ esc # ys) = (\<lambda>j. length xs + j) ` ends_at (esc # ys)"
proof
  show "ends_at (xs @ esc # ys) \<subseteq> (\<lambda>j. length xs + j) ` ends_at (esc # ys)"
  proof
    fix j assume j: "j \<in> ends_at (xs @ esc # ys)"
    then have "\<not> j < length xs" using no_straddle[of j xs ys] assms by (auto simp: ends_at_def)
    with j show "j \<in> (\<lambda>j. length xs + j) ` ends_at (esc # ys)"
      by (intro image_eqI[of _ _ "j - length xs"]) (simp_all add: ends_at_def)
  qed
qed (auto simp: ends_at_def)

lemma ends_at_Cons: "ends_at (x # xs) = (if prefix paste_end (x # xs) then {0} else {}) \<union> Suc ` ends_at xs"
proof -
  have "j \<in> ends_at (x # xs) \<longleftrightarrow> j = 0 \<and> prefix paste_end (x # xs) \<or> (\<exists>i. j = Suc i \<and> i \<in> ends_at xs)" for j
    by (cases j) (auto simp: ends_at_def)
  then show ?thesis by auto
qed

lemma ends_at_broken: "ends_at (broken_end @ ys) = (\<lambda>j. length broken_end + j) ` ends_at ys"
proof -
  have "ends_at (broken_end @ ys) = Suc ` Suc ` Suc ` Suc ` Suc ` Suc ` Suc ` ends_at ys"
    by (simp add: broken_end_bytes ends_at_Cons paste_end_bytes)
  then show ?thesis by (simp add: image_image broken_end_bytes)
qed

lemma ends_at_find: "find_bytes xs paste_end = None \<longleftrightarrow> ends_at xs = {}"
  by (simp add: ends_at_def find_bytes_None_iff paste_end_bytes)

lemma ends_at_take: "find_bytes xs paste_end = Some i \<Longrightarrow> ends_at (take i xs) = {}"
proof -
  assume f: "find_bytes xs paste_end = Some i"
  have "\<not> prefix paste_end (drop j (take i xs))" for j
  proof
    assume p: "prefix paste_end (drop j (take i xs))"
    then have "j < i" by (cases "j < i") (auto simp: paste_end_bytes)
    moreover have "prefix paste_end (drop j xs)"
      using p by (metis drop_take take_is_prefix prefix_order.trans)
    ultimately show False using f by (auto simp: find_bytes_Some_iff paste_end_bytes)
  qed
  then show "ends_at (take i xs) = {}" by (simp add: ends_at_def)
qed

lemma ends_at_paste_end: "ends_at paste_end = {0}"
  by (simp add: paste_end_bytes ends_at_Cons) (simp add: ends_at_def paste_end_bytes)

lemma ends_at_more: "ends_at xs \<subseteq> ends_at (xs @ ys)"
  by (auto simp: ends_at_def)

lemma ends_at_sanitized:
  "ends_at (sanitize_bracketed_paste bs @ paste_end) = {length (sanitize_bracketed_paste bs)}"
proof (induction bs rule: sanitize_bracketed_paste.induct)
  case (1 bs)
  obtain r q where r: "paste_end = esc # r" "broken_end = esc # q"
    by (simp add: paste_end_def broken_end_def)
  show ?case
  proof (cases "find_bytes bs paste_end")
    case None
    then have "sanitize_bracketed_paste bs = bs" "ends_at bs = {}"
      by (simp_all add: sanitize_bracketed_paste.simps[of bs] ends_at_find[symmetric])
    with ends_at_escape[of bs r] show ?thesis by (simp add: r(1)[symmetric] ends_at_paste_end)
  next
    case (Some i)
    let ?s = "sanitize_bracketed_paste (drop (i + length paste_end) bs)"
    have "ends_at (take i bs @ broken_end @ ?s @ paste_end) =
        (\<lambda>j. length (take i bs) + j) ` ends_at (broken_end @ ?s @ paste_end)"
      using ends_at_escape[OF ends_at_take[OF Some], of "q @ ?s @ paste_end"] by (simp add: r(2))
    with 1[OF Some] show ?thesis
      by (simp add: ends_at_broken sanitize_bracketed_paste.simps[of bs] Some)
  qed
qed

text \<open>
  C36. Text pasted into an application that asked for brackets stays inside them: what is sent is
  the opening bracket, the sanitized text and the closing bracket, and after the opening one the
  closing bracket occurs nowhere but at the end. Text without a closing bracket is sent as it is,
  and sanitizing twice changes nothing more.
\<close>

theorem paste_stays_bracketed:
  "\<exists>text. paste_bytes True bs = paste_start @ text @ paste_end \<and>
     (\<forall>j. prefix paste_end (drop j (text @ paste_end)) \<longleftrightarrow> j = length text) \<and>
     sanitize_bracketed_paste text = text \<and>
     (find_bytes bs paste_end = None \<longrightarrow> text = bs)"
proof (intro exI conjI)
  let ?s = "sanitize_bracketed_paste bs"
  show "paste_bytes True bs = paste_start @ ?s @ paste_end" by (simp add: paste_bytes_def)
  show ends: "\<forall>j. prefix paste_end (drop j (?s @ paste_end)) \<longleftrightarrow> j = length ?s"
    using ends_at_sanitized[of bs] by (auto simp: ends_at_def set_eq_iff)
  have "j = length ?s" if "j \<in> ends_at ?s" for j
    using that ends_at_more[of ?s paste_end] ends_at_sanitized[of bs] by auto
  then have "ends_at ?s = {}" by (force simp: ends_at_def paste_end_bytes)
  then show "sanitize_bracketed_paste ?s = ?s"
    by (simp add: ends_at_find[symmetric] sanitize_bracketed_paste.simps[of ?s])
  show "find_bytes bs paste_end = None \<longrightarrow> ?s = bs"
    by (simp add: sanitize_bracketed_paste.simps[of bs])
qed

theorem paste_stays_bracketed_witness:
  "sanitize_bracketed_paste (ascii ''ls'') = ascii ''ls''"
proof -
  have "find_bytes (ascii ''ls'') paste_end = None" by (simp add: paste_end_bytes ascii_def)
  with paste_stays_bracketed[of "ascii ''ls''"] show ?thesis by (auto simp: paste_bytes_def)
qed

end
