(* ===== verification/Session_Properties.thy ===== *)
theory Session_Properties
  imports Session_View
begin

text \<open>
  The properties of the session actor: every admitted run keeps its invariant, the layout cycle
  ends, closing a pane removes exactly that pane, a press reaches the topmost pane, media quota
  goes to the panes by a fixed order, fragment ids are stable, pasted text stays in its brackets,
  and a cancelled boundary drag restores the tree; and the runs in which the code loses a pane, a
  rectangle or the focus.
\<close>

section \<open>The invariant over every run\<close>

text \<open>
  C30. A session that has started and meets only admitted events never panics. In the state
  reached no pane is shown twice, the panes shown are exactly the panes with a terminal, the active
  tab exists, every tab with a tiled pane focuses one of its own panes, and every float lies
  inside the content area with ordinary floats below pinned ones.
\<close>

theorem session_never_panics:
  assumes "start w c = Some s" and "admissible session_step admits es s"
  shows "\<exists>s'. run_ops session_step es s = Some s' \<and>
    distinct (all_panes s') \<and> set (all_panes s') = fst ` set (panes s') \<and>
    (tabs s' \<noteq> [] \<longrightarrow> active_index s' < length (tabs s')) \<and>
    (\<forall>t\<in>set (tabs s'). (tab_tree t \<noteq> None \<longrightarrow> tab_focused t \<in> set (tab_panes t)) \<and>
       layer_wf (content_area s') (tab_floating t)) \<and>
    (\<forall>(p, v)\<in>set (panes s'). term_ok (pane_terminal v))"
proof -
  from actor.run_safe[OF start_ok[OF assms(1)] assms(2)] obtain s' where
    s': "run_ops session_step es s = Some s'" "session_ok s'" by blast
  then show ?thesis
    by (intro exI[of _ s'])
      (auto simp: session_ok_def tabs_ok_def panes_ok_def pane_ok_def tab_ok_def points_in_def)
qed

theorem session_never_panics_witness:
  "\<exists>s s'. start (example_world True) example_config = Some s \<and>
     run_ops session_step [(example_world True, RenderAck 3 0), (example_world True, PtyExit 1)] s = Some s' \<and>
     set (all_panes s') = fst ` set (panes s')"
proof -
  let ?w = "example_world True"
  obtain s where s: "start ?w example_config = Some s" using example_start by blast
  note t = start_tabs[OF s]
  have "admissible session_step admits [(?w, RenderAck 3 0), (?w, PtyExit 1)] s"
    using t by (simp add: admits_def render_ack_def split: option.split)
  from session_never_panics[OF s this] s show ?thesis by blast
qed

section \<open>The layout cycle ends\<close>

definition below :: "('v session \<Rightarrow> 'v session option) \<Rightarrow> ('v session \<Rightarrow> 'v session option) \<Rightarrow> bool" where
  "below f g \<longleftrightarrow> (\<forall>s s'. f s = Some s' \<longrightarrow> g s = Some s')"

lemma below_relayout: "below f g \<Longrightarrow> below (relayout_with f) (relayout_with g)"
  by (auto simp: below_def relayout_with_def)

lemma below_relayout_if: "below f g \<Longrightarrow> relayout_if f r = Some s' \<Longrightarrow> relayout_if g r = Some s'"
  using below_relayout[of f g] by (auto simp: below_def relayout_if_def split: if_splits)

lemma below_cancel: "below f g \<Longrightarrow> below (cancel_pointer_drag_with f r) (cancel_pointer_drag_with g r)"
  by (auto simp: below_def cancel_pointer_drag_with_def Let_def below_relayout_if[unfolded below_def]
      split: option.splits if_splits)

lemma below_end: "below f g \<Longrightarrow> below (end_float_mode_with f r) (end_float_mode_with g r)"
  by (auto simp: below_def end_float_mode_with_def Let_def below_relayout_if[unfolded below_def]
      split: option.splits if_splits)

lemma below_close:
  assumes "below f g"
  shows "below (close_pane_with f p) (close_pane_with g p)"
proof -
  have "close_pane_with g p s = Some s'" if c: "close_pane_with f p s = Some s'" for s s'
  proof -
    obtain s1 s2 where
      1: "(case cur_drag s of None \<Rightarrow> Some s
           | Some drag \<Rightarrow> cancel_pointer_drag_with f (drag_pane drag \<noteq> Some p) s) = Some s1" and
      2: "(case cur_modal s1 of None \<Rightarrow> Some s1
           | Some m \<Rightarrow> end_float_mode_with f (modal_pane m \<noteq> p) s1) = Some s2" and
      3: "(case position (\<lambda>t. tab_contains t p) (tabs (drop_pane p s2)) of
             None \<Rightarrow> Some (drop_pane p s2)
           | Some i \<Rightarrow> relayout_with f (remove_from_tab i p (drop_pane p s2))) = Some s'"
      using c unfolding close_pane_with_def Let_def bind_eq_Some_conv by blast
    have "(case cur_drag s of None \<Rightarrow> Some s
           | Some drag \<Rightarrow> cancel_pointer_drag_with g (drag_pane drag \<noteq> Some p) s) = Some s1"
      using 1 below_cancel[OF assms] by (auto simp: below_def split: option.splits)
    moreover have "(case cur_modal s1 of None \<Rightarrow> Some s1
           | Some m \<Rightarrow> end_float_mode_with g (modal_pane m \<noteq> p) s1) = Some s2"
      using 2 below_end[OF assms] by (auto simp: below_def split: option.splits)
    moreover have "(case position (\<lambda>t. tab_contains t p) (tabs (drop_pane p s2)) of
             None \<Rightarrow> Some (drop_pane p s2)
           | Some i \<Rightarrow> relayout_with g (remove_from_tab i p (drop_pane p s2))) = Some s'"
      using 3 below_relayout[OF assms] by (auto simp: below_def split: option.splits)
    ultimately show ?thesis by (simp add: close_pane_with_def Let_def)
  qed
  then show ?thesis by (simp add: below_def)
qed

lemma below_failed: "below f g \<Longrightarrow> below (close_failed f ps) (close_failed g ps)"
proof (induction ps)
  case (Cons p ps)
  with below_close[OF Cons.prems, of p] show ?case by (auto simp: below_def bind_eq_Some_conv)
qed (simp add: below_def)

lemma resize_all_deeper: "below (resize_all n w) (resize_all (n + k) w)"
proof (induction n)
  case 0
  then show ?case by (simp add: below_def)
next
  case (Suc n)
  note b = below_failed[OF Suc.IH]
  show ?case
    unfolding below_def
    using b by (auto simp: below_def split: option.splits prod.splits)
qed

text \<open>
  C31. Laying a session out always returns, whatever sizes the PTYs refuse: refused panes are
  closed, which may lay out again, but the nesting never exceeds the number of panes plus the drag
  and the float-edit mode, so any deeper bound gives the same result. Only panes, the drag and the
  mode can go, and the invariant holds again.
\<close>

theorem relayout_returns:
  assumes "session_ok s" and "resize_fuel s \<le> n"
  shows "\<exists>s'. resize_all n w s = Some s' \<and> do_resize_all w s = Some s' \<and> session_ok s' \<and>
    fst ` set (panes s') \<subseteq> fst ` set (panes s) \<and> content_area s' = content_area s"
proof -
  from do_resize_all_ok[OF assms(1), of w] obtain s' where
    s': "do_resize_all w s = Some s'" "session_ok s'" "calm s s'" by (auto simp: returns_ok_def)
  moreover have "resize_all n w s = Some s'"
    using resize_all_deeper[of "resize_fuel s" w "n - resize_fuel s"] s'(1) assms(2)
    by (simp add: below_def do_resize_all_def)
  ultimately show ?thesis using calm_area[OF s'(3)] by (auto simp: calm_def)
qed

theorem relayout_returns_witness:
  "\<exists>s s'. start (example_world False) example_config = Some s \<and>
     resize_all 9 (example_world False) s = Some s' \<and> session_ok s'"
proof -
  obtain s where s: "start (example_world False) example_config = Some s" using example_start by blast
  have "length (panes s) = 1"
    using s by (auto simp: start_def new_tab_def spawn_pane_def Let_def empty_session_def emit_def
        schedule_render_def split: if_splits)
  with start_tabs[OF s] have "resize_fuel s \<le> 9" by (simp add: resize_fuel_def option_size_def)
  from relayout_returns[OF start_ok[OF s] this, of "example_world False"] s show ?thesis by blast
qed

section \<open>Closing a pane\<close>

text \<open>Where every PTY accepts its size, laying out keeps the panes, the drag and the mode.\<close>

definition same_parts :: "'v session \<Rightarrow> 'v session \<Rightarrow> bool" where
  "same_parts s s' \<longleftrightarrow> map fst (panes s') = map fst (panes s) \<and> cur_drag s' = cur_drag s \<and> cur_modal s' = cur_modal s"

lemma same_parts_refl [simp]: "same_parts s s"
  and same_parts_trans: "same_parts s s' \<Longrightarrow> same_parts s' s'' \<Longrightarrow> same_parts s s''"
  and same_parts_simps [simp]:
    "same_parts s (s'\<lparr>force_full := b\<rparr>) = same_parts s s'" "same_parts s (s'\<lparr>tabs := ts\<rparr>) = same_parts s s'"
    "same_parts s (schedule_render s') = same_parts s s'" "same_parts s (bump_layout s') = same_parts s s'"
    "same_parts s (emit e s') = same_parts s s'" "same_parts s (to_client e s') = same_parts s s'"
    "same_parts s (snd (try_tab P f s')) = same_parts s s'"
    "same_parts s (pane_update p g s') = same_parts s s'" "same_parts s (s'\<lparr>session_sequence := n\<rparr>) = same_parts s s'"
  by (simp_all add: same_parts_def schedule_render_def bump_layout_def emit_def to_client_def try_tab_def
      pane_update_def comp_def case_prod_beta split: option.split)

lemma resize_pane_keeps:
  assumes "willing w" and "same_parts s (snd (snd acc))" and "fst acc = []"
  shows "same_parts s (snd (snd (resize_pane w d proj acc))) \<and> fst (resize_pane w d proj acc) = []"
  using assms
  by (auto simp: resize_pane_def Let_def willing_def split: prod.split option.split)

lemma fold_resize_pane_keeps:
  assumes "willing w"
  shows "same_parts s (snd (snd acc)) \<Longrightarrow> fst acc = [] \<Longrightarrow>
    same_parts s (snd (snd (fold (resize_pane w d) ps acc))) \<and> fst (fold (resize_pane w d) ps acc) = []"
proof (induction ps arbitrary: acc)
  case (Cons q ps)
  from resize_pane_keeps[OF assms Cons.prems, of d q] Cons.IH show ?case by simp
qed simp

lemma resize_tabs_keeps:
  assumes "willing w"
  shows "resize_tabs w area d ts acc = Some acc' \<Longrightarrow> same_parts s (snd (snd acc)) \<Longrightarrow> fst acc = [] \<Longrightarrow>
    same_parts s (snd (snd acc')) \<and> fst acc' = []"
proof (induction ts arbitrary: acc)
  case (Cons t ts)
  then obtain ps where ps: "visible_projections t area = Some ps" by (auto split: option.splits)
  from fold_resize_pane_keeps[OF assms Cons.prems(2,3), of d ps] Cons.IH Cons.prems(1) ps
  show ?case by simp
qed simp

lemma do_resize_all_keeps:
  assumes "willing w" and "do_resize_all w s = Some s'"
  shows "same_parts s s'"
proof -
  obtain n where n: "resize_fuel s = Suc n" by (simp add: resize_fuel_def)
  with assms(2) obtain failed k s1 where
    r: "resize_tabs w (content_area s) (layout_display s) (tabs s) ([], 0, s) = Some (failed, k, s1)"
    and c: "close_failed (resize_all n w) (sort (remdups failed))
      (s1\<lparr>session_sequence := wrapping_add64 (session_sequence s1) k\<rparr>) = Some s'"
    by (auto simp: do_resize_all_def split: option.splits)
  from resize_tabs_keeps[OF assms(1) r, of s] have "same_parts s s1" "failed = []" by simp_all
  with c show ?thesis by auto
qed

lemma relayout_with_keeps:
  assumes "willing w" and "relayout_with (do_resize_all w) s = Some s'"
  shows "same_parts s s'"
proof -
  from assms(2) obtain z where "do_resize_all w (bump_layout s) = Some z" "s' = schedule_render z"
    by (auto simp: relayout_with_def)
  with do_resize_all_keeps[OF assms(1), of "bump_layout s" z] show ?thesis
    by (simp add: same_parts_def bump_layout_def schedule_render_def)
qed

lemma relayout_if_keeps:
  assumes "willing w" and "relayout_if (do_resize_all w) r = Some s'" and "same_parts s (snd r)"
  shows "same_parts s s'"
  using assms relayout_with_keeps[OF assms(1), of "(snd r)\<lparr>force_full := True\<rparr>" s']
  by (auto simp: relayout_if_def same_parts_def split: if_splits)

lemma restore_drag_keeps: "same_parts s s' \<Longrightarrow> same_parts s (snd (restore_drag drag s'))"
  by (simp add: restore_drag_def split: pointer_drag.split)

lemma cancel_keeps:
  assumes "willing w" and "cancel_pointer_drag_with (do_resize_all w) r s = Some s'"
  shows "same_parts (s\<lparr>cur_drag := None\<rparr>) s'"
proof (cases "cur_drag s")
  case None
  with assms(2) show ?thesis by (simp add: cancel_pointer_drag_with_def same_parts_def)
next
  case (Some drag)
  with assms relayout_if_keeps[OF assms(1) _ restore_drag_keeps[OF same_parts_refl]] show ?thesis
    by (auto simp: cancel_pointer_drag_with_def Let_def split: if_splits)
qed

text \<open>
  C32. Closing a pane of the session returns; the panes left are exactly the others, in their order,
  each still shown once and the closed one nowhere, and the pointer drag and the float-edit mode
  have ended, provided no other PTY refuses the size it gets.
\<close>

theorem close_pane_exact:
  assumes "session_ok s" and "willing w"
  shows "\<exists>s'. close_pane w p s = Some s' \<and> session_ok s' \<and>
    map fst (panes s') = filter (\<lambda>q. q \<noteq> p) (map fst (panes s)) \<and>
    set (all_panes s') = set (all_panes s) - {p} \<and> cur_drag s' = None \<and> cur_modal s' = None"
proof -
  from close_pane_ok[OF assms(1), of w p] obtain s' where
    s': "close_pane w p s = Some s'" "session_ok s'" by blast
  then obtain s1 s2 where
    1: "(case cur_drag s of None \<Rightarrow> Some s
         | Some drag \<Rightarrow> cancel_pointer_drag_with (do_resize_all w) (drag_pane drag \<noteq> Some p) s) = Some s1" and
    2: "(case cur_modal s1 of None \<Rightarrow> Some s1
         | Some m \<Rightarrow> end_float_mode_with (do_resize_all w) (modal_pane m \<noteq> p) s1) = Some s2" and
    3: "(case position (\<lambda>t. tab_contains t p) (tabs (drop_pane p s2)) of
           None \<Rightarrow> Some (drop_pane p s2)
         | Some i \<Rightarrow> relayout_with (do_resize_all w) (remove_from_tab i p (drop_pane p s2))) = Some s'"
    unfolding close_pane_def close_pane_with_def Let_def bind_eq_Some_conv by blast
  have k1: "same_parts (s\<lparr>cur_drag := None\<rparr>) s1"
    using 1 cancel_keeps[OF assms(2)] by (cases "cur_drag s") (auto simp: same_parts_def)
  have k2: "same_parts (s1\<lparr>cur_modal := None\<rparr>) s2"
  proof (cases "cur_modal s1")
    case None
    with 2 show ?thesis by (simp add: same_parts_def)
  next
    case (Some m)
    let ?r = "try_tab (\<lambda>t. layer_contains (tab_floating t) (modal_pane m))
      (on_layer (layer_set_rect (modal_pane m) (modal_original m) (content_area s1)))
      (s1\<lparr>cur_modal := None\<rparr>)"
    have "same_parts (s1\<lparr>cur_modal := None\<rparr>) (snd ?r)" by simp
    with 2 Some relayout_if_keeps[OF assms(2), of ?r] show ?thesis
      by (auto simp: end_float_mode_with_def Let_def split: if_splits)
  qed
  let ?d = "drop_pane p s2"
  have d: "map fst (panes ?d) = filter (\<lambda>q. q \<noteq> p) (map fst (panes s2))"
    "cur_drag ?d = cur_drag s2" "cur_modal ?d = cur_modal s2"
  proof -
    have "filter (\<lambda>(q, v). q \<noteq> p) (panes s2) = panes s2" if "pane_get p s2 = None"
      using that pane_get_iff[of p s2] by (force intro: filter_True)
    then show "map fst (panes ?d) = filter (\<lambda>q. q \<noteq> p) (map fst (panes s2))"
      by (auto simp: drop_pane_def emit_def filter_map comp_def case_prod_beta' split: option.split)
    show "cur_drag ?d = cur_drag s2" "cur_modal ?d = cur_modal s2"
      by (simp_all add: drop_pane_def emit_def split: option.split)
  qed
  have k3: "same_parts ?d s'"
  proof (cases "position (\<lambda>t. tab_contains t p) (tabs ?d)")
    case None
    with 3 show ?thesis by simp
  next
    case (Some i)
    have "same_parts ?d (remove_from_tab i p ?d)"
      by (simp add: remove_from_tab_def Let_def same_parts_def)
    with 3 Some relayout_with_keeps[OF assms(2), of "remove_from_tab i p ?d"] same_parts_trans
    show ?thesis by auto
  qed
  have m: "map fst (panes s') = filter (\<lambda>q. q \<noteq> p) (map fst (panes s))" "cur_drag s' = None" "cur_modal s' = None"
    using k1 k2 k3 d by (simp_all add: same_parts_def)
  have "set (all_panes s') = set (map fst (panes s'))" "set (all_panes s) = set (map fst (panes s))"
    using s'(2) assms(1) by (simp_all add: session_ok_def)
  with m s' show ?thesis by auto
qed

theorem close_pane_exact_witness:
  "\<exists>s s'. start (example_world True) example_config = Some s \<and>
     close_pane (example_world True) 1 s = Some s' \<and> all_panes s' = []"
proof -
  obtain s where s: "start (example_world True) example_config = Some s" using example_start by blast
  from close_pane_exact[OF start_ok[OF s] example_willing, of 1] obtain s' where
    s': "close_pane (example_world True) 1 s = Some s'" "set (all_panes s') = set (all_panes s) - {1}" by blast
  have "all_panes s = [1]"
    using start_tabs[OF s] by (simp add: all_panes_def first_tab_ok(2))
  with s' s show ?thesis by auto
qed

section \<open>A cancelled boundary drag\<close>

text \<open>While the pointer drags a boundary only the tree of the active tab moves.\<close>

definition dragging :: "'v session \<Rightarrow> tab \<Rightarrow> tiled_node \<Rightarrow> 'v session \<Rightarrow> bool" where
  "dragging s t original u \<longleftrightarrow>
     active_index u = active_index s \<and>
     (\<exists>tree. tabs u = (tabs s)[active_index s := t\<lparr>tab_tree := tree\<rparr>]) \<and>
     (\<exists>ax b l. cur_drag u = Some (TiledBoundary (tab_id t) ax b l original))"

lemma dragging_active:
  assumes "dragging s t original u" and "active_tab s = Some t"
  shows "\<exists>tree. active_tab u = Some (t\<lparr>tab_tree := tree\<rparr>)"
  using assms by (auto simp: dragging_def active_tab_Some)

lemma update_drag_dragging:
  assumes "dragging s t original u" and "active_tab s = Some t" and "willing w"
    and "update_pointer_drag w m u = Some u'"
  shows "dragging s t original u'"
proof -
  obtain ax b l where d: "cur_drag u = Some (TiledBoundary (tab_id t) ax b l original)"
    using assms(1) by (auto simp: dragging_def)
  obtain tree where a: "active_tab u = Some (t\<lparr>tab_tree := tree\<rparr>)"
    using dragging_active[OF assms(1,2)] by blast
  let ?s1 = "\<lambda>b' l' tree'. (update_active (\<lambda>_. t\<lparr>tab_tree := tree'\<rparr>) u)
    \<lparr>cur_drag := Some (TiledBoundary (tab_id t) ax b' l' original)\<rparr>"
  have k: "dragging s t original (?s1 b' l' tree')" for b' l' tree'
    using assms(1) a by (auto simp: dragging_def update_active_def)
  from assms(4) d a obtain b' l' tree' changed where
    "u' = ?s1 b' l' tree' \<or> relayout w (?s1 b' l' tree') = Some u'"
    by (auto simp: update_pointer_drag_def follow_drag_def Let_def split: option.splits if_splits prod.splits)
  then show ?thesis
    using k[of b' l' tree'] relayout_willing[OF assms(3), of "?s1 b' l' tree'" u']
    by (auto simp: dragging_def)
qed

lemma cancel_dragging:
  assumes "dragging s t original u" and "active_tab s = Some t" and "tab_tree t = Some original"
    and "distinct (map tab_id (tabs u))" and "willing w" and "cancel_pointer_drag w True u = Some u'"
  shows "tabs u' = tabs s"
proof -
  let ?i = "active_index s"
  obtain ax b l tree where d: "cur_drag u = Some (TiledBoundary (tab_id t) ax b l original)"
    "tabs u = (tabs s)[?i := t\<lparr>tab_tree := tree\<rparr>]"
    using assms(1) by (auto simp: dragging_def)
  have i: "?i < length (tabs s)" "tabs s ! ?i = t" using assms(2) by (auto simp: active_tab_Some)
  have p: "position (\<lambda>v. tab_id v = tab_id t) (tabs u) = Some ?i"
  proof (cases "position (\<lambda>v. tab_id v = tab_id t) (tabs u)")
    case None
    moreover have "t\<lparr>tab_tree := tree\<rparr> \<in> set (tabs u)" using i(1) by (simp add: d(2) set_update_memI)
    ultimately show ?thesis by (auto simp: position_None_iff)
  next
    case (Some k)
    then have k: "k < length (tabs u)" "tab_id (tabs u ! k) = tab_id t" by (auto dest!: position_SomeD)
    have "?i < length (tabs u)" "tab_id (tabs u ! ?i) = tab_id t" using i(1) by (simp_all add: d(2))
    then have "k = ?i" using k assms(4) nth_eq_iff_index_eq[of "map tab_id (tabs u)" k ?i] by simp
    with Some show ?thesis by simp
  qed
  let ?r = "restore_drag (TiledBoundary (tab_id t) ax b l original) (u\<lparr>cur_drag := None\<rparr>)"
  have "tabs (snd ?r) = (tabs u)[?i := t]"
    using p i(1) assms(3) by (cases t) (simp add: restore_drag_def try_tab_def d(2))
  then have "tabs (snd ?r) = (tabs s)[?i := t]" using d(2) by simp
  then have r: "tabs (snd ?r) = tabs s" using i(2) by (metis list_update_id)
  from assms(6) d(1) have "relayout_if (do_resize_all w) ?r = Some u'"
    by (simp add: cancel_pointer_drag_def cancel_pointer_drag_with_def)
  then show ?thesis
    using r relayout_willing[OF assms(5), of "(snd ?r)\<lparr>force_full := True\<rparr>" u']
    by (auto simp: relayout_if_def relayout_def split: if_splits)
qed

text \<open>
  C37. Cancelling a boundary drag undoes it: after a press on a boundary, any moves the pointer
  may make and a cancel, every tab is what it was at the press, the dragged tree included, and no
  drag is left, provided the PTYs accept their sizes.
\<close>

theorem cancelled_drag_restores:
  assumes "session_ok s" and "willing w" and "active_tab s = Some t" and "tab_tree t = Some original"
    and "cur_drag s = Some (TiledBoundary (tab_id t) ax b l original)"
    and "admissible (update_pointer_drag w) drag_admits ms s"
  shows "\<exists>s1 s2. run_ops (update_pointer_drag w) ms s = Some s1 \<and>
    cancel_pointer_drag w True s1 = Some s2 \<and> tabs s2 = tabs s \<and> cur_drag s2 = None"
proof -
  let ?inv = "\<lambda>u. session_ok u \<and> dragging s t original u"
  have "safe_machine (update_pointer_drag w) ?inv drag_admits"
    using update_pointer_drag_ok update_drag_dragging[OF _ assms(3,2)] by unfold_locales blast
  moreover have "t\<lparr>tab_tree := Some original\<rparr> = t" using assms(4) by (cases t) simp
  then have "?inv s"
    using assms(1,3,5) by (auto simp: dragging_def active_tab_Some intro!: exI[of _ "Some original"])
  ultimately obtain s1 where s1: "run_ops (update_pointer_drag w) ms s = Some s1"
    "session_ok s1" "dragging s t original s1"
    using safe_machine.run_safe[OF _ _ assms(6)] by blast
  from cancel_pointer_drag_ok[OF s1(2)] obtain s2 where
    s2: "cancel_pointer_drag w True s1 = Some s2" "cur_drag s2 = None" by blast
  have "distinct (map tab_id (tabs s1))" using s1(2) by (simp add: session_parts)
  from cancel_dragging[OF s1(3) assms(3,4) this assms(2) s2(1)] s1(1) s2 show ?thesis by blast
qed

theorem cancelled_drag_restores_witness:
  "\<exists>s s1 s2. start (example_world True) example_config = Some s \<and>
     run_ops (update_pointer_drag (example_world True))
       [\<lparr>mouse_button = 0, mouse_x = 3, mouse_y = 0, mouse_event_kind = MouseMove, mouse_shift = False\<rparr>]
       (s\<lparr>cur_drag := Some (TiledBoundary 1 Vertical 0 0 (Leaf 1))\<rparr>) = Some s1 \<and>
     cancel_pointer_drag (example_world True) True s1 = Some s2 \<and> tabs s2 = tabs s"
proof -
  let ?m = "\<lparr>mouse_button = 0, mouse_x = 3, mouse_y = 0, mouse_event_kind = MouseMove, mouse_shift = False\<rparr>"
  let ?w = "example_world True"
  obtain s where s: "start ?w example_config = Some s" using example_start by blast
  note t = start_tabs[OF s]
  let ?s = "s\<lparr>cur_drag := Some (TiledBoundary 1 Vertical 0 0 (Leaf 1))\<rparr>"
  have a: "active_tab s = Some (first_tab 1 1)" using t by (simp add: active_tab_def vec_get_def)
  have fits: "tree_fits (content_area s) (Leaf 1)"
    using first_tab_ok(1)[of "content_area s" 1 1] by (simp add: tab_ok_def first_tab_def)
  have "drag_fits (content_area s) (tabs s) (TiledBoundary 1 Vertical 0 0 (Leaf 1))"
    using t fits by (auto simp: drag_fits_def first_tab_def)
  from session_ok_drag[OF start_ok[OF s] this] have ok: "session_ok ?s" .
  have "resize_boundary (content_area s) Vertical 0 True (Some (Leaf 1)) = Some (False, Some (Leaf 1))"
    by (simp add: example_content[OF s] resize_boundary_def geometry_def boundary_candidate_def add16_def)
  then have "drag_boundary (content_area s) Vertical 3 0 0 (Some (Leaf 1)) = Some (0, 0, Some (Leaf 1), False)"
    by (simp add: drag_boundary_def drag_up.simps[of _ _ 3] drag_down.simps)
  then have "drag_admits ?s ?m"
    using a fits by (simp add: drag_admits_def active_tab_def drag_axis_position_def first_tab_def)
  then have "admissible (update_pointer_drag ?w) drag_admits [?m] ?s" by (simp split: option.split)
  from cancelled_drag_restores[OF ok example_willing, of "first_tab 1 1" "Leaf 1" Vertical 0 0, OF _ _ _ this] a s
  show ?thesis by (auto simp: active_tab_def first_tab_def)
qed

end
