(* ===== verification/Session_Findings.thy ===== *)
theory Session_Findings
  imports Session_Properties
begin

text \<open>
  Runs in which the session actor does not do what it means to: a fragment id is taken away from
  a rectangle that had one, a press on the frame of a zoomed float takes the whole area for the
  float's rectangle, a split through the automation interface during a boundary drag leaves its
  pane in no tab, and closing the last visible pane leaves the focus on a pane that is gone.
\<close>

section \<open>Fragment ids\<close>

text \<open>
  A rectangle that is new and listed first takes the id of one that is still there: the whole
  assignment is refused, and the map that caused it is kept for the next call.
\<close>

lemma new_fragment_takes_retained_id:
  assumes "f \<noteq> g"
  shows "fragment_assign [f, g] (Map.empty(g \<mapsto> 0)) = (None, Map.empty(g \<mapsto> 0))"
proof -
  have "List.find (\<lambda>c. c \<notin> set []) [0..<256] = Some (0::nat)"
    by (simp add: upt_conv_Cons)
  with assms show ?thesis by (simp add: fragment_assign_def)
qed

section \<open>The frame of a zoomed float\<close>

text \<open>
  A zoomed float is shown with the whole content area as its outer rectangle. A press on its top
  row starts to move the float from that rectangle, so the next move or a cancel overwrites the
  rectangle the float had before the zoom.
\<close>

lemma zoomed_float_press:
  assumes "active_tab s = Some t" and "tab_zoomed t = Some p" and "tab_focused t = p"
    and "layer_get (tab_floating t) p = Some f" and "cur_drag s = None"
    and "content_area s = \<lparr>rect_x = 0, rect_y = 0, rect_width = 80, rect_height = 23\<rparr>"
    and "border_drag_margin (config s) = 1"
  shows "\<exists>s'. mouse w \<lparr>mouse_button = 0, mouse_x = 40, mouse_y = 0, mouse_event_kind = MousePress,
      mouse_shift = False\<rparr> s = Some s' \<and>
    cur_drag s' = Some (MoveFloat (tab_id t) p (40, 0) (content_area s))"
proof -
  have "content_area (schedule_render x) = content_area x" for x :: "'a session"
    by (simp add: schedule_render_def)
  with assms show ?thesis
    by (simp add: mouse_def Let_def cancel_pointer_drag_def cancel_pointer_drag_with_def press_on_tab_def
        visible_projections_def hit_projection_def rect_contains_def add16_def click_focus_def press_mouse_def
        update_active_def float_pointer_target_def float_layer_of_def start_float_drag_def schedule_render_def)
qed

lemma cancel_overwrites_float:
  assumes "cur_drag s = Some (MoveFloat (tab_id t) p origin (content_area s))"
  shows "cancel_pointer_drag w True s =
    relayout_if (do_resize_all w)
      (try_tab (\<lambda>v. tab_id v = tab_id t)
        (on_layer (layer_set_rect p (content_area s) (content_area s))) (s\<lparr>cur_drag := None\<rparr>))"
  using assms by (simp add: cancel_pointer_drag_def cancel_pointer_drag_with_def restore_drag_def)

section \<open>A split during a boundary drag\<close>

text \<open>
  The automation interface splits a tab without ending the drag of one of its boundaries. The
  drag still holds the tree of its press: the cancel puts it back, and the pane the split
  answered with has a terminal and a process but is in no tab.
\<close>

lemma distinct_concat_index:
  "distinct (concat xss) \<Longrightarrow> i < length xss \<Longrightarrow> j < length xss \<Longrightarrow> p \<in> set (xss ! i) \<Longrightarrow>
     p \<in> set (xss ! j) \<Longrightarrow> i = j"
proof (induction xss arbitrary: i j)
  case (Cons xs xss)
  then show ?case by (cases i; cases j) (auto, (blast dest: nth_mem)+)
qed simp

lemma one_tab:
  assumes "session_ok s" and "i < length (tabs s)" and "j < length (tabs s)"
    and "tab_contains (tabs s ! i) p" and "tab_contains (tabs s ! j) p"
  shows "i = j"
proof -
  have "distinct (concat (map tab_panes (tabs s)))"
    using assms(1) by (simp add: session_parts all_panes_def)
  from distinct_concat_index[OF this, of i j p] assms(2-5) show ?thesis by simp
qed

lemma split_during_drag_is_lost:
  assumes "session_ok s" and "willing w" and "active_tab s = Some t" and "tab_tree t = Some original"
    and "cur_drag s = Some (TiledBoundary (tab_id t) ax b l original)"
    and "q \<in> set (pane_ids original)"
    and "automation_split w q ax' s = Some (Inr n, s1)"
    and "cancel_pointer_drag w True s1 = Some s2"
  shows "n \<in> fst ` set (panes s2) \<and> n \<notin> set (all_panes s2)"
proof -
  let ?i = "active_index s" and ?n = "next_pane_id s"
  have i: "?i < length (tabs s)" "tabs s ! ?i = t" using assms(3) by (auto simp: active_tab_Some)
  have qt: "tab_contains t q" using assms(4,6) by (simp add: tab_panes_def)
  have f: "find_tab q s = Some ?i"
  proof (cases "find_tab q s")
    case None
    with i qt show ?thesis by (auto simp: find_tab_def position_None_iff)
  next
    case (Some k)
    then have "k < length (tabs s)" "tab_contains (tabs s ! k) q"
      by (auto simp: find_tab_def dest!: position_SomeD)
    with Some i qt show ?thesis using one_tab[OF assms(1)] by auto
  qed
  from assms(7) f i assms(4) obtain cand u where
    c: "node_split original q ?n ax' (content_area s) = Some (Inr cand)" "n = ?n"
    and u: "spawn_pane w ?n (tab_id t) s = Some u"
    and r: "relayout w (u\<lparr>next_pane_id := wrapping_inc64 ?n,
      tabs := (tabs u)[?i := set_focus ?n ((tabs u ! ?i)\<lparr>tab_tree := Some cand\<rparr>)],
      force_full := True\<rparr>) = Some s1"
    by (auto simp: automation_split_def split: if_splits option.splits sum.splits)
  have su: "tabs u = tabs s" "cur_drag u = cur_drag s" "active_index u = ?i" "?n \<in> fst ` set (panes u)"
    using u bt_insert_keys[of ?n _ "panes s"] by (auto simp: spawn_pane_def emit_def split: if_splits)
  have d: "distinct (pane_ids original)"
    using active_tab_ok[OF assms(1,3)] assms(4) by (simp add: tab_ok_def tab_panes_def)
  have "?n \<in> set (pane_ids cand)" using node_split_ids[OF c(1) d] by (metis in_set_conv_decomp list.set_intros(1) Un_iff set_append list.set_intros(2))
  then have sf: "set_focus ?n (t\<lparr>tab_tree := Some cand\<rparr>) =
      (t\<lparr>tab_focused := ?n, tab_last_tiled := Some ?n\<rparr>)\<lparr>tab_tree := Some cand\<rparr>"
    by (cases t) (simp add: set_focus_def)
  let ?t = "t\<lparr>tab_focused := ?n, tab_last_tiled := Some ?n\<rparr>"
  let ?s = "s\<lparr>tabs := (tabs s)[?i := ?t]\<rparr>"
  have r1: "tabs s1 = (tabs s)[?i := ?t\<lparr>tab_tree := Some cand\<rparr>]" "active_index s1 = ?i"
    "cur_drag s1 = cur_drag s" "?n \<in> fst ` set (panes s1)"
    using relayout_willing[OF assms(2) r] relayout_with_keeps[OF assms(2) r[unfolded relayout_def]] su sf i
    by (simp_all add: same_parts_def) (metis image_set)
  then have g: "dragging ?s ?t original s1"
    using assms(5) i(1) by (auto simp: dragging_def)
  have "map tab_id (tabs s1) = map tab_id (tabs s)"
    using i r1(1) by (simp add: map_update list_update_same_conv) 
  then have ids: "distinct (map tab_id (tabs s1))" using assms(1) by (simp add: session_parts)
  have "active_tab ?s = Some ?t" using i(1) by (simp add: active_tab_Some)
  from cancel_dragging[OF g this _ ids assms(2,8)] assms(4) have "tabs s2 = (tabs s)[?i := ?t]" by simp
  then have "map tab_panes (tabs s2) = map tab_panes (tabs s)"
    using i by (simp add: map_update list_update_same_conv tab_panes_def)
  then have "all_panes s2 = all_panes s" by (simp add: all_panes_def)
  moreover have "?n \<notin> set (all_panes s)" using assms(1) by (force simp: session_parts)
  moreover have "same_parts (s1\<lparr>cur_drag := None\<rparr>) s2"
    using assms(2,8) by (intro cancel_keeps) (auto simp: cancel_pointer_drag_def)
  then have "map fst (panes s2) = map fst (panes s1)" by (simp add: same_parts_def)
  with r1(4) have "?n \<in> fst ` set (panes s2)" by (metis image_set)
  ultimately show ?thesis using c(2) by simp
qed

section \<open>Focus without a pane\<close>

text \<open>
  When the last tiled pane closes while ordinary floats are hidden, no pane is left to focus:
  the tab keeps its hidden floats and stays focused on the pane that is gone.
\<close>

lemma focus_stays_on_closed_pane:
  "let hidden = \<lparr>layer_panes = [\<lparr>float_pane = 2, float_rect = \<lparr>rect_x = 0, rect_y = 0, rect_width = 20,
         rect_height = 10\<rparr>, float_pinned = False\<rparr>], ordinary_visible = False\<rparr>;
       t = \<lparr>tab_id = 1, tab_tree = Some (Leaf 1), tab_floating = hidden, tab_focused = 1,
         tab_last_tiled = Some 1, tab_zoomed = None\<rparr>;
       t' = refocus 1 (forget_pane 1 t)
   in \<not> tab_is_empty t' \<and> tab_focused t' = 1 \<and> \<not> tab_contains t' 1"
  by code_simp

end
