(* ===== verification/Screen.thy ===== *)
theory Screen
  imports Geometry Terminal_Text Text_Encoding
begin

text \<open>
  The screen compositor (\<open>src/src/screen.rs\<close>): the buffer of one frame, the operations that draw
  text, frames and terminals into it, and \<open>ansi_diff\<close>, the escape sequences that turn the last
  frame on the host into the new one. \<open>None\<close> is a panic. The output is built from the sequences
  \<open>screen_out\<close>, whose bytes \<open>out_bytes\<close> spells.
\<close>

section \<open>The buffer\<close>

record screen =
  scr_rows :: nat
  scr_columns :: nat
  scr_cells :: "cell list"
  scr_cursor :: "(nat \<times> nat) option"

definition screen_new :: "nat \<Rightarrow> nat \<Rightarrow> screen" where
  "screen_new width height =
     \<lparr>scr_rows = height, scr_columns = width, scr_cells = replicate (width * height) default_cell,
      scr_cursor = None\<rparr>"

text \<open>Overwriting one half of a wide glyph erases the other half.\<close>

definition screen_set :: "nat \<Rightarrow> nat \<Rightarrow> cell \<Rightarrow> screen \<Rightarrow> screen option" where
  "screen_set x y c s =
     (if x < scr_columns s \<and> y < scr_rows s
      then let index = y * scr_columns s + x in do {
        old \<leftarrow> vec_get index (scr_cells s);
        cells1 \<leftarrow> (if cell_wide_continuation old \<and> 0 < x
                   then vec_set (index - 1) default_cell (scr_cells s) else Some (scr_cells s));
        cells2 \<leftarrow> (if x + 1 < scr_columns s
                   then do { after \<leftarrow> vec_get (index + 1) cells1;
                             if cell_wide_continuation after
                             then vec_set (index + 1) default_cell cells1 else Some cells1 }
                   else Some cells1);
        cells3 \<leftarrow> vec_set index c cells2;
        Some (s\<lparr>scr_cells := cells3\<rparr>) }
      else Some s)"

section \<open>Drawing\<close>

definition coloured :: "nat \<Rightarrow> uchar \<Rightarrow> cell" where
  "coloured color c = default_cell\<lparr>cell_ch := c, cell_foreground := Indexed color\<rparr>"

fun draw_text :: "nat \<Rightarrow> nat \<Rightarrow> uchar list \<Rightarrow> nat \<Rightarrow> nat \<Rightarrow> nat \<Rightarrow> screen \<Rightarrow> screen option" where
  "draw_text x y [] foreground background offset s = Some s"
| "draw_text x y (c # cs) foreground background offset s =
     (let x' = sat_add16 x (offset mod 65536)
      in if scr_columns s \<le> x' then Some s
         else do { s' \<leftarrow> screen_set x' y ((coloured foreground c)
                       \<lparr>cell_background := Indexed background\<rparr>) s;
                   draw_text x y cs foreground background (offset + 1) s' })"

definition box_horizontal :: uchar where "box_horizontal = 9472"
definition box_vertical :: uchar where "box_vertical = 9474"
definition box_top_left :: uchar where "box_top_left = 9484"
definition box_top_right :: uchar where "box_top_right = 9488"
definition box_bottom_left :: uchar where "box_bottom_left = 9492"
definition box_bottom_right :: uchar where "box_bottom_right = 9496"

text \<open>The cells of a frame, in the order they are set.\<close>

definition frame_cells :: "rect \<Rightarrow> uchar list \<Rightarrow> (nat \<times> nat \<times> uchar) list" where
  "frame_cells r text =
     (let right = add16 (rect_x r) (rect_width r) - 1;
          bottom = add16 (rect_y r) (rect_height r) - 1
      in concat (map (\<lambda>x. [(x, rect_y r, box_horizontal), (x, bottom, box_horizontal)])
                   [rect_x r + 1..<right]) @
         concat (map (\<lambda>y. [(rect_x r, y, box_vertical), (right, y, box_vertical)])
                   [rect_y r + 1..<bottom]) @
         [(rect_x r, rect_y r, box_top_left), (right, rect_y r, box_top_right),
          (rect_x r, bottom, box_bottom_left), (right, bottom, box_bottom_right)] @
         map (\<lambda>(offset, c). (add16 (rect_x r + 2) offset, rect_y r, c))
           (enumerate 0 (take (rect_width r - 4) text)))"

definition set_coloured :: "nat \<Rightarrow> nat \<times> nat \<times> uchar \<Rightarrow> screen \<Rightarrow> screen option" where
  "set_coloured color cell s = (case cell of (x, y, c) \<Rightarrow> screen_set x y (coloured color c) s)"

definition draw_frame :: "rect \<Rightarrow> uchar list \<Rightarrow> nat \<Rightarrow> screen \<Rightarrow> screen option" where
  "draw_frame r text color s =
     (if rect_width r < 2 \<or> rect_height r < 2 then Some s
      else run_ops (set_coloured color) (frame_cells r text) s)"

text \<open>The lines of the viewport, scrolled back by an offset and clipped to the rectangle.\<close>

definition terminal_cells :: "rect \<Rightarrow> terminal \<Rightarrow> nat \<Rightarrow> (nat \<times> nat \<times> cell) list" where
  "terminal_cells r t scroll_offset =
     concat (map (\<lambda>row.
       (case viewport_line (int row - int scroll_offset) t of
          None \<Rightarrow> []
        | Some line \<Rightarrow>
            List.map_filter (\<lambda>column. map_option
                (\<lambda>c. (add16 (rect_x r) column, add16 (rect_y r) row, c)) (vec_get column line))
              [0..<rect_width r]))
       [0..<rect_height r])"

definition set_cell :: "nat \<times> nat \<times> cell \<Rightarrow> screen \<Rightarrow> screen option" where
  "set_cell cell s = (case cell of (x, y, c) \<Rightarrow> screen_set x y c s)"

definition draw_terminal :: "rect \<Rightarrow> terminal \<Rightarrow> nat \<Rightarrow> screen \<Rightarrow> screen option" where
  "draw_terminal r t scroll_offset = run_ops set_cell (terminal_cells r t scroll_offset)"

section \<open>Styles\<close>

record style =
  sty_foreground :: terminal_color
  sty_background :: terminal_color
  sty_bold :: bool
  sty_dim :: bool
  sty_italic :: bool
  sty_underline :: underline_style
  sty_underline_color :: "terminal_color option"
  sty_blink :: bool
  sty_inverse :: bool
  sty_hidden :: bool
  sty_strikeout :: bool
  sty_hyperlink :: "terminal_hyperlink option"

definition is_control :: "uchar \<Rightarrow> bool" where
  "is_control c \<longleftrightarrow> c < 32 \<or> 127 \<le> c \<and> c < 160"

text \<open>A hyperlink whose text could end its own sequence is left out.\<close>

definition safe_link :: "terminal_hyperlink \<Rightarrow> bool" where
  "safe_link link \<longleftrightarrow>
     \<not> list_ex is_control (link_uri link) \<and>
     (case link_id link of None \<Rightarrow> True
      | Some ident \<Rightarrow> \<not> list_ex is_control ident \<and> 59 \<notin> set ident)"

definition style_of :: "cell \<Rightarrow> style" where
  "style_of c =
     \<lparr>sty_foreground = cell_foreground c, sty_background = cell_background c,
      sty_bold = cell_bold c, sty_dim = cell_dim c, sty_italic = cell_italic c,
      sty_underline = cell_underline_style c, sty_underline_color = cell_underline_color c,
      sty_blink = cell_blink c, sty_inverse = cell_inverse c, sty_hidden = cell_hidden c,
      sty_strikeout = cell_strikeout c,
      sty_hyperlink = (case cell_hyperlink c of None \<Rightarrow> None
        | Some link \<Rightarrow> if safe_link link then Some link else None)\<rparr>"

definition write_color :: "terminal_color \<Rightarrow> bool \<Rightarrow> bytes" where
  "write_color color fg =
     (case color of
        ColorDefault \<Rightarrow> ascii (if fg then '';39'' else '';49'')
      | Indexed index \<Rightarrow>
          if index < 8 then ascii '';'' @ decimal ((if fg then 30 else 40) + index)
          else if index < 16 then ascii '';'' @ decimal ((if fg then 90 else 100) + index - 8)
          else ascii '';'' @ decimal (if fg then 38 else 48) @ ascii '';5;'' @ decimal index
      | Rgb red green blue \<Rightarrow>
          ascii '';'' @ decimal (if fg then 38 else 48) @ ascii '';2;'' @ decimal red @
          ascii '';'' @ decimal green @ ascii '';'' @ decimal blue)"

definition write_underline_color :: "terminal_color option \<Rightarrow> bytes" where
  "write_underline_color color =
     (case color of
        None \<Rightarrow> ascii '';59''
      | Some ColorDefault \<Rightarrow> ascii '';59''
      | Some (Indexed index) \<Rightarrow> ascii '';58;5;'' @ decimal index
      | Some (Rgb red green blue) \<Rightarrow>
          ascii '';58;2;'' @ decimal red @ ascii '';'' @ decimal green @ ascii '';'' @ decimal blue)"

definition underline_bytes :: "underline_style \<Rightarrow> bytes" where
  "underline_bytes u =
     (case u of UnderlineNone \<Rightarrow> [] | UnderlineSingle \<Rightarrow> ascii '';4'' | UnderlineDouble \<Rightarrow> ascii '';4:2''
      | UnderlineCurl \<Rightarrow> ascii '';4:3'' | UnderlineDotted \<Rightarrow> ascii '';4:4''
      | UnderlineDashed \<Rightarrow> ascii '';4:5'')"

definition string_terminator :: bytes where "string_terminator = [esc, 92]"

text \<open>No hyperlink is open.\<close>

definition no_link :: bytes where "no_link = esc # ascii '']8;;'' @ string_terminator"

definition link_bytes :: "terminal_hyperlink \<Rightarrow> bytes" where
  "link_bytes link =
     esc # ascii '']8;'' @
     (case link_id link of None \<Rightarrow> [] | Some ident \<Rightarrow> ascii ''id='' @ encode_utf8 ident) @
     ascii '';'' @ encode_utf8 (link_uri link) @ string_terminator"

definition write_style :: "style \<Rightarrow> bytes" where
  "write_style s =
     no_link @ esc # ascii ''[0'' @
     (if sty_bold s then ascii '';1'' else []) @ (if sty_dim s then ascii '';2'' else []) @
     (if sty_italic s then ascii '';3'' else []) @ underline_bytes (sty_underline s) @
     (if sty_blink s then ascii '';5'' else []) @ (if sty_inverse s then ascii '';7'' else []) @
     (if sty_hidden s then ascii '';8'' else []) @ (if sty_strikeout s then ascii '';9'' else []) @
     write_color (sty_foreground s) True @ write_color (sty_background s) False @
     write_underline_color (sty_underline_color s) @ ascii ''m'' @
     (case sty_hyperlink s of None \<Rightarrow> [] | Some link \<Rightarrow> link_bytes link)"

section \<open>The difference of two frames\<close>

datatype screen_out =
    StartFrame
  | MoveTo nat nat
  | SetStyle style
  | PutText "uchar list"
  | EndStyle
  | ShowCursor nat nat
  | HideCursor

fun out_bytes :: "screen_out \<Rightarrow> bytes" where
  "out_bytes StartFrame = esc # ascii ''[0m'' @ esc # ascii ''[?25l'' @ esc # ascii ''[H''"
| "out_bytes (MoveTo row column) = esc # ascii ''['' @ decimal row @ ascii '';'' @ decimal column @ ascii ''H''"
| "out_bytes (SetStyle s) = write_style s"
| "out_bytes (PutText cs) = encode_utf8 cs"
| "out_bytes EndStyle = no_link @ esc # ascii ''[0m''"
| "out_bytes (ShowCursor row column) =
     esc # ascii ''['' @ decimal row @ ascii '';'' @ decimal column @ ascii ''H'' @ esc # ascii ''[?25h''"
| "out_bytes HideCursor = esc # ascii ''[?25l''"

definition full_frame :: "screen option \<Rightarrow> screen \<Rightarrow> bool \<Rightarrow> bool" where
  "full_frame previous current force_full \<longleftrightarrow>
     force_full \<or>
     (case previous of None \<Rightarrow> True
      | Some old \<Rightarrow> scr_rows old \<noteq> scr_rows current \<or> scr_columns old \<noteq> scr_columns current)"

text \<open>The cells of a row that are sent, in order, each with whether it differs from the last frame.\<close>

definition row_changes :: "screen option \<Rightarrow> screen \<Rightarrow> bool \<Rightarrow> nat \<Rightarrow> (bool \<times> cell) list" where
  "row_changes previous current full row =
     map (\<lambda>column.
         let index = row * scr_columns current + column; c = scr_cells current ! index
         in (full \<or> (case previous of None \<Rightarrow> True | Some old \<Rightarrow> scr_cells old ! index \<noteq> c), c))
       [0..<scr_columns current]"

definition cell_out :: "style option \<Rightarrow> cell \<Rightarrow> screen_out list" where
  "cell_out st c =
     (if st = Some (style_of c) then [] else [SetStyle (style_of c)]) @
     (if cell_wide_continuation c then [] else [PutText (cell_ch c # cell_combining c)])"

text \<open>A run starts with a cursor motion and ends at the first unchanged cell.\<close>

fun diff_row ::
    "nat \<Rightarrow> nat \<Rightarrow> bool \<Rightarrow> style option \<Rightarrow> (bool \<times> cell) list \<Rightarrow> screen_out list \<times> style option" where
  "diff_row row column running st [] = ([], st)"
| "diff_row row column running st ((changed, c) # cs) =
     (if changed
      then let (rest, st') = diff_row row (column + 1) True (Some (style_of c)) cs
           in ((if running then [] else [MoveTo (row + 1) (column + 1)]) @ cell_out st c @ rest, st')
      else diff_row row (column + 1) False st cs)"

fun diff_rows ::
    "screen option \<Rightarrow> screen \<Rightarrow> bool \<Rightarrow> style option \<Rightarrow> nat list \<Rightarrow> screen_out list" where
  "diff_rows previous current full st [] = []"
| "diff_rows previous current full st (row # rest) =
     (let (out, st') = diff_row row 0 False st (row_changes previous current full row)
      in out @ diff_rows previous current full st' rest)"

definition screen_diff :: "screen option \<Rightarrow> screen \<Rightarrow> bool \<Rightarrow> screen_out list" where
  "screen_diff previous current force_full =
     (let full = full_frame previous current force_full
      in (if full then [StartFrame] else []) @
         diff_rows previous current full None [0..<scr_rows current] @
         [EndStyle] @
         (case scr_cursor current of
            Some (x, y) \<Rightarrow> [ShowCursor (y + 1) (x + 1)] | None \<Rightarrow> [HideCursor]))"

definition ansi_diff :: "screen option \<Rightarrow> screen \<Rightarrow> bool \<Rightarrow> bytes" where
  "ansi_diff previous current force_full =
     concat (map out_bytes (screen_diff previous current force_full))"

end
