(* ===== verification/Session_Render.thy ===== *)
theory Session_Render
  imports Session_Handlers Screen
begin

text \<open>
  Rendering (\<open>render\<close> in \<open>src/src/session.rs\<close>): the frame composed of the panes of the active tab
  and the status row, the gate that holds frames back while the client has not displayed the last
  ones, and the record handed to the client. Media is synchronised afterwards; that part is not
  modelled. \<open>loop_step\<close> is one turn of the actor: an event or a render.
\<close>

record appearance =
  session_name :: "uchar list"
  active_frame :: nat
  inactive_frame :: nat
  status_foreground :: nat
  status_background :: nat

definition max_unacknowledged_frames :: nat where "max_unacknowledged_frames = 8"

definition literal :: "string \<Rightarrow> uchar list" where "literal s = map of_char s"
definition number_text :: "nat \<Rightarrow> uchar list" where "number_text n = map unat (decimal n)"

section \<open>Composition\<close>

definition pane_title :: "pane_id \<Rightarrow> 'v pane \<Rightarrow> pane_layer \<Rightarrow> uchar list" where
  "pane_title p v l =
     literal '' '' @
     (case title (pane_terminal v) of None \<Rightarrow> literal ''pane '' @ number_text p | Some text \<Rightarrow> text) @
     (if pane_copy v \<noteq> None then literal '' [copy]'' else []) @
     (if l = Pinned then literal '' [pin]'' else []) @ literal '' ''"

text \<open>Where the focused pane wants the cursor: in copy mode, or at a visible terminal cursor.\<close>

definition pane_cursor :: "rect \<Rightarrow> 'v pane \<Rightarrow> (nat \<times> nat) option" where
  "pane_cursor c v =
     (let at = (\<lambda>column row. (add16 (rect_x c) (min column (rect_width c - 1)),
                              add16 (rect_y c) (min row (rect_height c - 1))))
      in case pane_copy v of
           Some copy \<Rightarrow> Some (at (copy_column copy) (copy_row copy))
         | None \<Rightarrow>
             if cursor_visible (modes (pane_terminal v))
             then Some (at (cursor_col (pane_terminal v)) (cursor_row (pane_terminal v))) else None)"

definition draw_pane ::
    "appearance \<Rightarrow> 'v session \<Rightarrow> nat \<times> pane_projection \<Rightarrow> screen \<times> ((nat \<times> nat) \<times> nat) option \<Rightarrow>
     (screen \<times> ((nat \<times> nat) \<times> nat) option) option" where
  "draw_pane ap s ip acc =
     (case (ip, acc) of ((index, q), (screen, cursor)) \<Rightarrow>
       (case pane_get (proj_pane q) s of
          None \<Rightarrow> Some acc
        | Some v \<Rightarrow> do {
            framed \<leftarrow> draw_frame (proj_outer q) (pane_title (proj_pane q) v (proj_layer q))
              (if proj_focused q then active_frame ap else inactive_frame ap) screen;
            drawn \<leftarrow> draw_terminal (proj_content q) (pane_terminal v) (copy_view (pane_copy v)) framed;
            Some (drawn,
              if proj_focused q
              then (case pane_cursor (proj_content q) v of
                      None \<Rightarrow> cursor | Some xy \<Rightarrow> Some (xy, index))
              else cursor) }))"

text \<open>A pane drawn later hides the cursor under it.\<close>

definition visible_cursor ::
    "pane_projection list \<Rightarrow> ((nat \<times> nat) \<times> nat) option \<Rightarrow> (nat \<times> nat) option" where
  "visible_cursor ps cursor =
     (case cursor of
        None \<Rightarrow> None
      | Some ((x, y), index) \<Rightarrow>
          if list_all (\<lambda>later. \<not> rect_contains (proj_outer later) x y) (drop (index + 1) ps)
          then Some (x, y) else None)"

definition draw_tab :: "appearance \<Rightarrow> 'v session \<Rightarrow> screen \<Rightarrow> screen option" where
  "draw_tab ap s screen =
     (case active_tab s of
        None \<Rightarrow> Some screen
      | Some t \<Rightarrow> do {
          ps \<leftarrow> visible_projections t (content_area s);
          (drawn, cursor) \<leftarrow> run_ops (draw_pane ap s) (enumerate 0 ps) (screen, None);
          Some (drawn\<lparr>scr_cursor := visible_cursor ps cursor\<rparr>) })"

definition status_text :: "appearance \<Rightarrow> 'v session \<Rightarrow> uchar list" where
  "status_text ap s =
     literal '' vvmux:'' @ session_name ap @ literal ''  tab '' @ number_text (active_index s + 1) @
     literal ''/'' @ number_text (length (tabs s)) @ literal '' (id:'' @
     number_text (case active_tab s of None \<Rightarrow> 0 | Some t \<Rightarrow> tab_id t) @ literal '')  panes:'' @
     number_text (length (panes s)) @ literal ''  rev:'' @ number_text (layout_revision s) @ literal '' ''"

definition compose :: "appearance \<Rightarrow> 'v session \<Rightarrow> display_metrics \<Rightarrow> screen option" where
  "compose ap s d = do {
     screen \<leftarrow> draw_tab ap s (screen_new (disp_columns d) (disp_rows d));
     if status_visible (config s) \<and> 0 < scr_rows screen
     then draw_text 0 (scr_rows screen - 1) (status_text ap s)
            (status_foreground ap) (status_background ap) 0 screen
     else Some screen }"

section \<open>The render gate\<close>

definition held_frames :: "'v session \<Rightarrow> nat" where
  "held_frames s = (case attached s of None \<Rightarrow> 0 | Some a \<Rightarrow> frame_id s - client_acknowledged a)"

definition note_frame :: "nat \<Rightarrow> nat \<Rightarrow> attached_client \<Rightarrow> attached_client" where
  "note_frame frame sequence a = a\<lparr>client_frames := keep_last 1024 (client_frames a @ [(frame, sequence)])\<rparr>"

record frame_record =
  frame_number :: nat
  frame_sequence :: nat
  frame_full :: bool
  frame_bytes :: bytes

text \<open>
  The session, the last frame kept for the difference and the record handed to the client; \<open>sent\<close>
  says whether the connection took it.
\<close>

definition render ::
    "appearance \<Rightarrow> bool \<Rightarrow> 'v session \<Rightarrow> screen option \<Rightarrow>
     ('v session \<times> screen option \<times> frame_record option) option" where
  "render ap sent s last_screen =
     (if max_unacknowledged_frames \<le> held_frames s
      then Some (s\<lparr>pending_render := True\<rparr>, last_screen, None)
      else let s1 = s\<lparr>pending_render := False\<rparr> in
        case attached s1 of
          None \<Rightarrow> Some (s1, last_screen, None)
        | Some a \<Rightarrow> do {
            screen \<leftarrow> compose ap s1 (client_display a);
            let s2 = s1\<lparr>frame_id := wrapping_inc64 (frame_id s1)\<rparr>;
            let frame = \<lparr>frame_number = frame_id s2, frame_sequence = session_sequence s2,
                  frame_full = force_full s2, frame_bytes = ansi_diff last_screen screen (force_full s2)\<rparr>;
            Some (if sent
              then (s2\<lparr>attached := Some (note_frame (frame_id s2) (session_sequence s2) a),
                     force_full := False\<rparr>, Some screen, Some frame)
              else ((emit (SentDetached ''frame delivery failed'') s2)
                     \<lparr>attached := None, force_full := False\<rparr>, None, Some frame)) })"

section \<open>One turn of the actor\<close>

datatype loop_event = SessionEvent session_event | RenderNow bool

text \<open>The events after which the last frame is forgotten.\<close>

fun forgets_frame :: "session_event \<Rightarrow> 'v session \<Rightarrow> bool" where
  "forgets_frame (Attach c replace d vivid) s = (attached s = None \<or> replace)"
| "forgets_frame (RenderResync c) s = client_is c s"
| "forgets_frame (Detach c) s = client_is c s"
| "forgets_frame (Disconnected c) s = client_is c s"
| "forgets_frame _ s = False"

fun loop_step ::
    "appearance \<Rightarrow> 'v world \<times> loop_event \<Rightarrow> 'v session \<times> screen option \<Rightarrow>
     ('v session \<times> screen option) option" where
  "loop_step ap (w, SessionEvent e) (s, last_screen) =
     map_option (\<lambda>s'. (s', if forgets_frame e s then None else last_screen)) (session_event_step w e s)"
| "loop_step ap (w, RenderNow sent) (s, last_screen) =
     (if pending_render s then map_option (\<lambda>(s', l, _). (s', l)) (render ap sent s last_screen)
      else Some (s, last_screen))"

end
