(* ===== verification/Screen_Correct.thy ===== *)
theory Screen_Correct
  imports Screen
begin

text \<open>
  The compositor is right when the host terminal shows the frame. The host is a grid of glyphs on
  which the sequences of \<open>screen_diff\<close> act as a terminal executes them; a wide glyph covers two
  columns, and writing over one half of it erases the other. Drawing never panics.
\<close>

section \<open>Drawing returns\<close>

definition screen_wf :: "screen \<Rightarrow> bool" where
  "screen_wf s \<longleftrightarrow> length (scr_cells s) = scr_rows s * scr_columns s"

definition same_screen :: "screen \<Rightarrow> screen \<Rightarrow> bool" where
  "same_screen s s' \<longleftrightarrow> screen_wf s' \<and> scr_rows s' = scr_rows s \<and> scr_columns s' = scr_columns s \<and>
     scr_cursor s' = scr_cursor s"

lemma screen_wf_new [simp]: "screen_wf (screen_new w h)"
  by (simp add: screen_wf_def screen_new_def mult.commute)

lemma cell_index: "x < n \<Longrightarrow> y < m \<Longrightarrow> y * n + x < m * (n::nat)"
proof -
  assume "x < n" "y < m"
  then have "y * n + x < (y + 1) * n" by simp
  also have "\<dots> \<le> m * n" using \<open>y < m\<close> by (intro mult_le_mono1) simp
  finally show ?thesis .
qed

lemma screen_set_ok:
  assumes "screen_wf s"
  shows "\<exists>s'. screen_set x y c s = Some s' \<and> same_screen s s'"
proof (cases "x < scr_columns s \<and> y < scr_rows s")
  case True
  then have "y * scr_columns s + x < length (scr_cells s)"
    using cell_index[of x "scr_columns s" y "scr_rows s"] assms by (simp add: screen_wf_def)
  moreover have "x + 1 < scr_columns s \<Longrightarrow> y * scr_columns s + x + 1 < length (scr_cells s)"
    using cell_index[of "x + 1" "scr_columns s" y "scr_rows s"] True assms by (simp add: screen_wf_def)
  ultimately show ?thesis
    using True assms
    by (auto simp: screen_set_def Let_def vec_get_def vec_set_def same_screen_def screen_wf_def)
next
  case False
  with assms show ?thesis by (auto simp: screen_set_def same_screen_def)
qed

lemma same_screen_trans: "same_screen s s' \<Longrightarrow> same_screen s' s'' \<Longrightarrow> same_screen s s''"
  by (simp add: same_screen_def)

lemma run_sets_ok:
  assumes "\<And>c s. screen_wf s \<Longrightarrow> \<exists>s'. step c s = Some s' \<and> same_screen s s'"
  shows "screen_wf s \<Longrightarrow> \<exists>s'. run_ops step cs s = Some s' \<and> same_screen s s'"
proof (induction cs arbitrary: s)
  case Nil
  then show ?case by (simp add: same_screen_def)
next
  case (Cons c cs)
  from assms[OF Cons.prems] obtain s1 where s1: "step c s = Some s1" "same_screen s s1" by blast
  then have "screen_wf s1" by (simp add: same_screen_def)
  from Cons.IH[OF this] s1 same_screen_trans show ?case by (metis run_ops.simps(2) option.simps(5))
qed

lemma draw_text_ok:
  "screen_wf s \<Longrightarrow> \<exists>s'. draw_text x y cs fg bg offset s = Some s' \<and> same_screen s s'"
proof (induction x y cs fg bg offset s rule: draw_text.induct)
  case (2 x y c cs fg bg offset s)
  let ?x = "sat_add16 x (offset mod 65536)"
  obtain s1 where s1: "screen_set ?x y ((coloured fg c)\<lparr>cell_background := Indexed bg\<rparr>) s = Some s1"
    "same_screen s s1" using screen_set_ok[OF 2(2)] by blast
  then have "screen_wf s1" by (simp add: same_screen_def)
  with 2 s1 same_screen_trans show ?case by (fastforce simp: Let_def same_screen_def)
qed (simp add: same_screen_def)

lemma draw_frame_ok: "screen_wf s \<Longrightarrow> \<exists>s'. draw_frame r text color s = Some s' \<and> same_screen s s'"
  unfolding draw_frame_def
  using run_sets_ok[of "set_coloured color" s] screen_set_ok
  by (auto simp: set_coloured_def same_screen_def split: prod.splits)

lemma draw_terminal_ok: "screen_wf s \<Longrightarrow> \<exists>s'. draw_terminal r t offset s = Some s' \<and> same_screen s s'"
  unfolding draw_terminal_def
  by (intro run_sets_ok) (auto simp: set_cell_def screen_set_ok split: prod.split)

section \<open>The host terminal\<close>

datatype shown = Glyph "uchar list" style | Right_Half

record host =
  host_cells :: "nat \<Rightarrow> nat \<Rightarrow> shown"
  host_row :: nat
  host_column :: nat
  host_style :: style
  host_cursor :: "(nat \<times> nat) option"

fun wide_text :: "(uchar \<Rightarrow> nat option) \<Rightarrow> uchar list \<Rightarrow> bool" where
  "wide_text cw [] = False"
| "wide_text cw (c # cs) = (cw c = Some 2)"

definition text_width :: "(uchar \<Rightarrow> nat option) \<Rightarrow> uchar list \<Rightarrow> nat" where
  "text_width cw cs = (if wide_text cw cs then 2 else 1)"

definition plain_style :: style where "plain_style = style_of default_cell"

definition put_line ::
    "(uchar \<Rightarrow> nat option) \<Rightarrow> uchar list \<Rightarrow> style \<Rightarrow> nat \<Rightarrow> (nat \<Rightarrow> shown) \<Rightarrow> nat \<Rightarrow> shown" where
  "put_line cw cs st column line =
     (\<lambda>x. if x = column then Glyph cs st
          else if wide_text cw cs \<and> x = column + 1 then Right_Half
          else if x = column + text_width cw cs \<and> line x = Right_Half then Glyph [] plain_style
          else if x + 1 = column \<and> line column = Right_Half then Glyph [] plain_style
          else line x)"

fun host_step :: "(uchar \<Rightarrow> nat option) \<Rightarrow> screen_out \<Rightarrow> host \<Rightarrow> host" where
  "host_step cw StartFrame h =
     h\<lparr>host_row := 0, host_column := 0, host_style := plain_style, host_cursor := None\<rparr>"
| "host_step cw (MoveTo row column) h = h\<lparr>host_row := row - 1, host_column := column - 1\<rparr>"
| "host_step cw (SetStyle s) h = h\<lparr>host_style := s\<rparr>"
| "host_step cw (PutText cs) h =
     h\<lparr>host_cells := (host_cells h)
          (host_row h := put_line cw cs (host_style h) (host_column h) (host_cells h (host_row h))),
       host_column := host_column h + text_width cw cs\<rparr>"
| "host_step cw EndStyle h = h\<lparr>host_style := plain_style\<rparr>"
| "host_step cw (ShowCursor row column) h =
     h\<lparr>host_row := row - 1, host_column := column - 1, host_cursor := Some (column - 1, row - 1)\<rparr>"
| "host_step cw HideCursor h = h\<lparr>host_cursor := None\<rparr>"

definition host_run :: "(uchar \<Rightarrow> nat option) \<Rightarrow> screen_out list \<Rightarrow> host \<Rightarrow> host" where
  "host_run cw os h = fold (host_step cw) os h"

lemma host_run_simps [simp]:
  "host_run cw [] h = h" "host_run cw (e # es) h = host_run cw es (host_step cw e h)"
  "host_run cw (es @ fs) h = host_run cw fs (host_run cw es h)"
  by (simp_all add: host_run_def)

definition glyph_of :: "cell \<Rightarrow> shown" where
  "glyph_of c =
     (if cell_wide_continuation c then Right_Half else Glyph (cell_ch c # cell_combining c) (style_of c))"

definition wide_cell :: "(uchar \<Rightarrow> nat option) \<Rightarrow> cell \<Rightarrow> bool" where
  "wide_cell cw c \<longleftrightarrow> \<not> cell_wide_continuation c \<and> cw (cell_ch c) = Some 2"

definition wide_glyph :: "(uchar \<Rightarrow> nat option) \<Rightarrow> shown \<Rightarrow> bool" where
  "wide_glyph cw g = (case g of Glyph cs _ \<Rightarrow> wide_text cw cs | Right_Half \<Rightarrow> False)"

text \<open>On the host the halves of a wide glyph stay together.\<close>

definition line_paired :: "(uchar \<Rightarrow> nat option) \<Rightarrow> (nat \<Rightarrow> shown) \<Rightarrow> bool" where
  "line_paired cw line \<longleftrightarrow>
     (\<forall>x. line (Suc x) = Right_Half \<longleftrightarrow> wide_glyph cw (line x)) \<and> line 0 \<noteq> Right_Half"

lemma wide_glyph_of [simp]: "wide_glyph cw (glyph_of c) = wide_cell cw c"
  by (simp add: wide_glyph_def glyph_of_def wide_cell_def)

lemma glyph_half [simp]: "glyph_of c = Right_Half \<longleftrightarrow> cell_wide_continuation c"
  by (simp add: glyph_of_def)

lemma put_line_paired:
  assumes "line_paired cw line"
  shows "line_paired cw (put_line cw cs st column line)"
proof -
  let ?l = "put_line cw cs st column line"
  have p: "line (Suc x) = Right_Half \<longleftrightarrow> wide_glyph cw (line x)" for x
    using assms by (simp add: line_paired_def)
  have "?l (Suc x) = Right_Half \<longleftrightarrow> wide_glyph cw (?l x)" for x
  proof -
    consider "Suc (Suc x) < column" | "Suc (Suc x) = column" | "Suc x = column" | "x = column"
      | "x = Suc column" | "Suc column < x" by linarith
    then show ?thesis
      using p[of x] p[of "Suc x"] p[of "Suc (Suc x)"] p[of column]
      by cases (auto simp: put_line_def wide_glyph_def text_width_def split: shown.splits)
  qed
  moreover have "?l 0 \<noteq> Right_Half"
    using assms by (auto simp: put_line_def line_paired_def)
  ultimately show ?thesis by (simp add: line_paired_def)
qed

section \<open>One row\<close>

text \<open>
  A row of changes whose wide glyphs have both halves; an unchanged left half has an unchanged
  right half.
\<close>

definition row_paired :: "(uchar \<Rightarrow> nat option) \<Rightarrow> (bool \<times> cell) list \<Rightarrow> bool" where
  "row_paired cw xs \<longleftrightarrow>
     (\<forall>k<length xs.
        (wide_cell cw (snd (xs ! k)) \<longrightarrow> Suc k < length xs \<and> cell_wide_continuation (snd (xs ! Suc k)) \<and>
           (fst (xs ! Suc k) \<longrightarrow> fst (xs ! k))) \<and>
        (cell_wide_continuation (snd (xs ! k)) \<longrightarrow> 0 < k \<and> wide_cell cw (snd (xs ! (k - 1)))))"

lemma row_paired_half:
  assumes "row_paired cw xs" and "Suc k < length xs" and "cell_wide_continuation (snd (xs ! Suc k))"
  shows "wide_cell cw (snd (xs ! k))"
  using assms(1)[unfolded row_paired_def, rule_format, OF assms(2)] assms(3) by simp

text \<open>The host before column \<open>k\<close>: what was sent is there, and what is skipped was there already.\<close>

definition row_shown :: "(bool \<times> cell) list \<Rightarrow> nat \<Rightarrow> (nat \<Rightarrow> shown) \<Rightarrow> bool" where
  "row_shown xs k line \<longleftrightarrow>
     (\<forall>j<length xs. j < k \<or> \<not> fst (xs ! j) \<longrightarrow> line j = glyph_of (snd (xs ! j)))"

definition at_column :: "(bool \<times> cell) list \<Rightarrow> nat \<Rightarrow> nat" where
  "at_column xs k = (if k < length xs \<and> cell_wide_continuation (snd (xs ! k)) then Suc k else k)"

lemma row_shown_put:
  assumes "row_paired cw xs" and "line_paired cw line" and "row_shown xs k line" and "k < length xs"
    and "\<not> cell_wide_continuation (snd (xs ! k))"
  shows "row_shown xs (Suc k)
    (put_line cw (cell_ch (snd (xs ! k)) # cell_combining (snd (xs ! k))) (style_of (snd (xs ! k))) k line)"
proof -
  let ?c = "snd (xs ! k)"
  let ?l = "put_line cw (cell_ch ?c # cell_combining ?c) (style_of ?c) k line"
  have w: "wide_text cw (cell_ch ?c # cell_combining ?c) \<longleftrightarrow> wide_cell cw ?c"
    using assms(5) by (simp add: wide_cell_def)
  have r: "wide_cell cw (snd (xs ! j)) \<Longrightarrow> Suc j < length xs \<and> cell_wide_continuation (snd (xs ! Suc j))"
    "cell_wide_continuation (snd (xs ! j)) \<Longrightarrow> 0 < j \<and> wide_cell cw (snd (xs ! (j - 1)))"
    if "j < length xs" for j
    using assms(1) that by (simp_all add: row_paired_def)
  have left: "line k \<noteq> Right_Half"
  proof
    assume h: "line k = Right_Half"
    then obtain j where j: "k = Suc j" using assms(2) by (cases k) (auto simp: line_paired_def)
    with h assms(2) have "wide_glyph cw (line j)" by (simp add: line_paired_def)
    moreover have "line j = glyph_of (snd (xs ! j))" using assms(3,4) j by (simp add: row_shown_def)
    ultimately show False using r(1)[of j] assms(4,5) j by simp
  qed
  show ?thesis
    unfolding row_shown_def
  proof (intro allI impI)
    fix j assume j: "j < length xs" "j < Suc k \<or> \<not> fst (xs ! j)"
    consider "j < k" | "j = k" | "j = Suc k" | "Suc k < j" by linarith
    then show "?l j = glyph_of (snd (xs ! j))"
    proof cases
      case 1
      then show ?thesis using assms(3) j left by (simp add: put_line_def row_shown_def text_width_def)
    next
      case 2
      then show ?thesis using assms(5) by (simp add: put_line_def glyph_of_def)
    next
      case 3
      with j have o: "line j = glyph_of (snd (xs ! j))" using assms(3) by (simp add: row_shown_def)
      show ?thesis
      proof (cases "wide_cell cw ?c")
        case True
        with w 3 r(1)[OF assms(4)] show ?thesis by (simp add: put_line_def glyph_of_def)
      next
        case False
        then have "\<not> cell_wide_continuation (snd (xs ! j))" using r(2)[OF j(1)] 3 by auto
        with False w 3 o show ?thesis by (simp add: put_line_def)
      qed
    next
      case 4
      with j have o: "line j = glyph_of (snd (xs ! j))" using assms(3) by (simp add: row_shown_def)
      have "\<not> cell_wide_continuation (snd (xs ! j))" if "j = Suc (Suc k)" "wide_cell cw ?c"
      proof
        assume "cell_wide_continuation (snd (xs ! j))"
        then have "wide_cell cw (snd (xs ! Suc k))" using r(2)[OF j(1)] that(1) by simp
        with r(1)[OF assms(4) that(2)] show False by (simp add: wide_cell_def)
      qed
      with 4 o w show ?thesis by (auto simp: put_line_def text_width_def)
    qed
  qed
qed

text \<open>Sending the rest of a row from column \<open>k\<close> on leaves the whole row shown and nothing else changed.\<close>

lemma diff_row_shown:
  assumes "row_paired cw xs"
  shows "k \<le> length xs \<Longrightarrow> diff_row row k running st (drop k xs) = (out, st') \<Longrightarrow>
    (\<forall>r. line_paired cw (host_cells h r)) \<Longrightarrow> row_shown xs k (host_cells h row) \<Longrightarrow>
    (\<forall>s. st = Some s \<longrightarrow> host_style h = s) \<Longrightarrow>
    (if running then host_row h = row \<and> host_column h = at_column xs k
     else k = 0 \<or> \<not> fst (xs ! (k - 1))) \<Longrightarrow>
    h' = host_run cw out h \<Longrightarrow>
    (\<forall>r. line_paired cw (host_cells h' r)) \<and> row_shown xs (length xs) (host_cells h' row) \<and>
    (\<forall>s. st' = Some s \<longrightarrow> host_style h' = s) \<and> (\<forall>r. r \<noteq> row \<longrightarrow> host_cells h' r = host_cells h r)"
proof (induction "length xs - k" arbitrary: k running st out h)
  case 0
  then show ?case by simp
next
  case (Suc n)
  then have k: "k < length xs" by simp
  obtain changed c where x: "xs ! k = (changed, c)" by fastforce
  have d: "drop k xs = (changed, c) # drop (Suc k) xs" using k x by (metis Cons_nth_drop_Suc)
  have n: "n = length xs - Suc k" "Suc k \<le> length xs" using Suc.hyps(2) k by simp_all
  note ih = Suc.hyps(1)[OF n]
  show ?case
  proof (cases changed)
    case False
    have "row_shown xs (Suc k) (host_cells h row)"
      using Suc.prems(4) False x by (auto simp: row_shown_def less_Suc_eq)
    moreover have "diff_row row (Suc k) False st (drop (Suc k) xs) = (out, st')"
      using Suc.prems(2) d False by simp
    ultimately show ?thesis using ih[of False st out h] Suc.prems(3,5,7) False x by simp
  next
    case True
    let ?h1 = "if running then h else host_step cw (MoveTo (row + 1) (k + 1)) h"
    let ?h2 = "?h1\<lparr>host_style := style_of c\<rparr>"
    let ?h3 = "host_run cw (cell_out st c) ?h1"
    obtain rest where rest: "diff_row row (Suc k) True (Some (style_of c)) (drop (Suc k) xs) = (rest, st')"
      "out = (if running then [] else [MoveTo (row + 1) (k + 1)]) @ cell_out st c @ rest"
      using Suc.prems(2) d True by (auto simp: Let_def split: prod.splits)
    have half: "cell_wide_continuation c \<Longrightarrow> 0 < k \<and> wide_cell cw (snd (xs ! (k - 1)))"
      and wide: "wide_cell cw c \<Longrightarrow> Suc k < length xs \<and> cell_wide_continuation (snd (xs ! Suc k))"
      using assms k x by (auto simp: row_paired_def)
    have "running \<or> \<not> cell_wide_continuation c"
    proof (rule ccontr)
      assume a: "\<not> (running \<or> \<not> cell_wide_continuation c)"
      then have b: "0 < k" "wide_cell cw (snd (xs ! (k - 1)))" "\<not> fst (xs ! (k - 1))"
        using half Suc.prems(6) by auto
      then have "\<not> fst (xs ! k)" using assms k by (auto simp: row_paired_def dest!: spec[of _ "k - 1"])
      with x True show False by simp
    qed
    then have at: "host_row ?h1 = row" "host_column ?h1 = at_column xs k"
      "host_cells ?h1 = host_cells h"
      using Suc.prems(6) x k by (auto simp: at_column_def split: if_splits)
    have h3: "?h3 = (if cell_wide_continuation c then ?h2
        else host_step cw (PutText (cell_ch c # cell_combining c)) ?h2)"
    proof (cases "st = Some (style_of c)")
      case True
      then have e: "?h2 = ?h1" using Suc.prems(5) by auto
      have "?h3 = (if cell_wide_continuation c then ?h1
          else host_step cw (PutText (cell_ch c # cell_combining c)) ?h1)"
        using True by (simp add: cell_out_def)
      then show ?thesis by (simp only: e)
    next
      case False
      then show ?thesis by (simp add: cell_out_def)
    qed
    have h3': "host_row ?h3 = row \<and> host_column ?h3 = at_column xs (Suc k) \<and>
        row_shown xs (Suc k) (host_cells ?h3 row) \<and> (\<forall>r. line_paired cw (host_cells ?h3 r)) \<and>
        host_style ?h3 = style_of c \<and> (\<forall>r. r \<noteq> row \<longrightarrow> host_cells ?h3 r = host_cells h r)"
    proof (cases "cell_wide_continuation c")
      case True
      obtain j where j: "k = Suc j" "wide_cell cw (snd (xs ! j))" using half[OF True] by (cases k) auto
      then have "host_cells h row j = glyph_of (snd (xs ! j))" using Suc.prems(4) k by (simp add: row_shown_def)
      then have "host_cells h row k = Right_Half"
        using j Suc.prems(3) by (metis line_paired_def wide_glyph_of)
      then have "row_shown xs (Suc k) (host_cells h row)"
        using Suc.prems(4) x True by (auto simp: row_shown_def less_Suc_eq glyph_of_def)
      moreover have "at_column xs (Suc k) = Suc k"
        using assms True x by (auto simp: at_column_def row_paired_def wide_cell_def)
      moreover have "at_column xs k = Suc k" using True x k by (simp add: at_column_def)
      ultimately show ?thesis using h3 at True Suc.prems(3) by simp
    next
      case False
      have "row_shown xs (Suc k) (put_line cw (cell_ch c # cell_combining c) (style_of c) k (host_cells h row))"
        using row_shown_put[OF assms _ Suc.prems(4) k] Suc.prems(3) x False by simp
      moreover have "at_column xs k = k" using False x by (simp add: at_column_def)
      moreover have "at_column xs (Suc k) = k + text_width cw (cell_ch c # cell_combining c)"
      proof -
        have tw: "text_width cw (cell_ch c # cell_combining c) = (if wide_cell cw c then 2 else 1)"
          using False by (simp add: text_width_def wide_cell_def)
        show ?thesis
        proof (cases "wide_cell cw c")
          case True
          with wide tw show ?thesis by (simp add: at_column_def)
        next
          case False
          then have "\<not> (Suc k < length xs \<and> cell_wide_continuation (snd (xs ! Suc k)))"
            using row_paired_half[OF assms, of k] x by auto
          with False tw show ?thesis by (simp add: at_column_def)
        qed
      qed
      moreover have "line_paired cw (put_line cw cs v j (host_cells h row))" for cs v j
        using Suc.prems(3) put_line_paired by blast
      ultimately show ?thesis using h3 at False Suc.prems(3) by simp
    qed
    have "h' = host_run cw rest ?h3" using Suc.prems(7) rest(2) by simp
    with ih[OF rest(1), of ?h3] h3' show ?thesis by simp
  qed
qed

section \<open>The whole frame\<close>

definition screen_at :: "screen \<Rightarrow> nat \<Rightarrow> nat \<Rightarrow> cell" where
  "screen_at s row column = scr_cells s ! (row * scr_columns s + column)"

text \<open>The right half of a wide glyph as the pane terminal writes it: the same pen, no text.\<close>

definition right_half_of :: "cell \<Rightarrow> cell" where
  "right_half_of c = c\<lparr>cell_ch := space, cell_combining := [], cell_wide_continuation := True\<rparr>"

definition screen_paired :: "(uchar \<Rightarrow> nat option) \<Rightarrow> screen \<Rightarrow> bool" where
  "screen_paired cw s \<longleftrightarrow>
     (\<forall>r < scr_rows s. \<forall>k < scr_columns s.
        (wide_cell cw (screen_at s r k) \<longrightarrow> Suc k < scr_columns s \<and>
           screen_at s r (Suc k) = right_half_of (screen_at s r k)) \<and>
        (cell_wide_continuation (screen_at s r k) \<longrightarrow> 0 < k \<and> wide_cell cw (screen_at s r (k - 1))))"

definition shows_screen :: "host \<Rightarrow> screen \<Rightarrow> bool" where
  "shows_screen h s \<longleftrightarrow>
     (\<forall>r < scr_rows s. \<forall>k < scr_columns s. host_cells h r k = glyph_of (screen_at s r k))"

definition host_paired :: "(uchar \<Rightarrow> nat option) \<Rightarrow> host \<Rightarrow> bool" where
  "host_paired cw h \<longleftrightarrow> (\<forall>r. line_paired cw (host_cells h r))"

lemma row_changes_nth:
  "length (row_changes previous s full row) = scr_columns s"
  "k < scr_columns s \<Longrightarrow> snd (row_changes previous s full row ! k) = screen_at s row k"
  "k < scr_columns s \<Longrightarrow> fst (row_changes previous s full row ! k) \<longleftrightarrow>
     full \<or> (\<forall>old. previous = Some old \<longrightarrow> scr_cells old ! (row * scr_columns s + k) \<noteq> screen_at s row k)"
  by (auto simp: row_changes_def screen_at_def Let_def split: option.splits)

text \<open>What the last frame must be for a partial one: of the same size, and on the host.\<close>

definition follows :: "(uchar \<Rightarrow> nat option) \<Rightarrow> host \<Rightarrow> screen option \<Rightarrow> screen \<Rightarrow> bool \<Rightarrow> bool" where
  "follows cw h previous s full \<longleftrightarrow>
     full \<or> (\<exists>old. previous = Some old \<and> scr_rows old = scr_rows s \<and> scr_columns old = scr_columns s \<and>
       screen_paired cw old \<and> shows_screen h old)"

lemma row_changes_paired:
  assumes "screen_paired cw s" and "follows cw h previous s full" and "row < scr_rows s"
  shows "row_paired cw (row_changes previous s full row)"
proof -
  let ?xs = "row_changes previous s full row"
  have "fst (?xs ! Suc k) \<longrightarrow> fst (?xs ! k)"
    if k: "Suc k < scr_columns s" "wide_cell cw (screen_at s row k)" for k
  proof (cases full)
    case False
    then obtain old where old: "previous = Some old" "scr_rows old = scr_rows s"
      "scr_columns old = scr_columns s" "screen_paired cw old" using assms(2) by (auto simp: follows_def)
    have "screen_at old row (Suc k) = screen_at s row (Suc k)" if e: "screen_at old row k = screen_at s row k"
    proof -
      have "screen_at old row (Suc k) = right_half_of (screen_at old row k)"
        using old(2-4) k assms(3) e by (simp add: screen_paired_def)
      moreover have "screen_at s row (Suc k) = right_half_of (screen_at s row k)"
        using assms(1,3) k by (simp add: screen_paired_def)
      ultimately show ?thesis using e by simp
    qed
    then show ?thesis using k old(1,3) False by (auto simp: row_changes_nth screen_at_def)
  qed (simp add: row_changes_nth k Suc_lessD[OF k(1)])
  then show ?thesis
    using assms(1,3)
    by (auto simp: row_paired_def row_changes_nth screen_paired_def right_half_of_def)
qed

lemma row_changes_shown:
  assumes "follows cw h previous s full" and "row < scr_rows s"
  shows "row_shown (row_changes previous s full row) 0 (host_cells h row)"
  using assms by (auto simp: row_shown_def row_changes_nth follows_def shows_screen_def screen_at_def)

lemma diff_rows_shown:
  assumes "\<And>r. r < scr_rows s \<Longrightarrow> row_paired cw (row_changes previous s full r)"
  shows "distinct rs \<Longrightarrow> (\<forall>r\<in>set rs. r < scr_rows s) \<Longrightarrow> host_paired cw h \<Longrightarrow>
    (\<forall>r\<in>set rs. row_shown (row_changes previous s full r) 0 (host_cells h r)) \<Longrightarrow>
    (\<forall>v. st = Some v \<longrightarrow> host_style h = v) \<Longrightarrow>
    h' = host_run cw (diff_rows previous s full st rs) h \<Longrightarrow>
    host_paired cw h' \<and> (\<forall>r. r \<notin> set rs \<longrightarrow> host_cells h' r = host_cells h r) \<and>
    (\<forall>r\<in>set rs. \<forall>k < scr_columns s. host_cells h' r k = glyph_of (screen_at s r k))"
proof (induction rs arbitrary: st h)
  case (Cons r rs)
  let ?xs = "row_changes previous s full r"
  obtain out st' where o: "diff_row r 0 False st ?xs = (out, st')" by fastforce
  let ?h1 = "host_run cw out h"
  have p: "row_paired cw ?xs" using assms Cons.prems(2) by simp
  have "diff_row r 0 False st (drop 0 ?xs) = (out, st')" using o by simp
  from diff_row_shown[OF p _ this, of h ?h1] Cons.prems(3,4,5) have
    1: "host_paired cw ?h1" "row_shown ?xs (length ?xs) (host_cells ?h1 r)"
    "\<forall>v. st' = Some v \<longrightarrow> host_style ?h1 = v" "\<forall>q. q \<noteq> r \<longrightarrow> host_cells ?h1 q = host_cells h q"
    by (simp_all add: host_paired_def)
  have h': "h' = host_run cw (diff_rows previous s full st' rs) ?h1"
    using Cons.prems(6) o by simp
  have "\<forall>q\<in>set rs. row_shown (row_changes previous s full q) 0 (host_cells ?h1 q)"
    using Cons.prems(1,4) 1(4) by auto
  from Cons.IH[OF _ _ 1(1) this 1(3) h'] Cons.prems(1,2) have
    2: "host_paired cw h'" "\<forall>q. q \<notin> set rs \<longrightarrow> host_cells h' q = host_cells ?h1 q"
    "\<forall>q\<in>set rs. \<forall>k < scr_columns s. host_cells h' q k = glyph_of (screen_at s q k)" by simp_all
  have "\<forall>k < scr_columns s. host_cells h' r k = glyph_of (screen_at s r k)"
    using 1(2) 2(2) Cons.prems(1) by (simp add: row_shown_def row_changes_nth)
  with 1(4) 2 show ?case by simp
qed simp

text \<open>
  C38. The host shows the frame: whatever it shows before a full frame, and the last frame before
  a partial one, after the sequences of \<open>screen_diff\<close> every cell of the frame is on the host with its
  text and style, the cursor is where the frame has it or hidden, and the host can take the next
  frame, provided the wide glyphs of both frames have both halves.
\<close>

theorem host_shows_frame:
  assumes "screen_paired cw s" and "host_paired cw h"
    and "follows cw h previous s (full_frame previous s force_full)"
    and "h' = fold (host_step cw) (screen_diff previous s force_full) h"
  shows "shows_screen h' s \<and> host_cursor h' = scr_cursor s \<and> host_paired cw h' \<and>
    (\<forall>s'. scr_rows s' = scr_rows s \<longrightarrow> scr_columns s' = scr_columns s \<longrightarrow>
       follows cw h' (Some s) s' False)"
proof -
  let ?full = "full_frame previous s force_full"
  let ?h0 = "if ?full then host_step cw StartFrame h else h"
  let ?h1 = "host_run cw (diff_rows previous s ?full None [0..<scr_rows s]) ?h0"
  have c: "host_cells ?h0 = host_cells h" by simp
  then have f: "follows cw ?h0 previous s ?full" using assms(3) by (simp add: follows_def shows_screen_def)
  have "host_paired cw ?h0" using assms(2) c by (simp add: host_paired_def)
  with diff_rows_shown[OF row_changes_paired[OF assms(1) f], of "[0..<scr_rows s]" ?h0 None ?h1]
    row_changes_shown[OF f]
  have 1: "host_paired cw ?h1" "shows_screen ?h1 s" by (auto simp: shows_screen_def)
  have h': "h' = host_run cw ([EndStyle] @ (case scr_cursor s of
      Some (x, y) \<Rightarrow> [ShowCursor (y + 1) (x + 1)] | None \<Rightarrow> [HideCursor])) ?h1"
    unfolding assms(4) screen_diff_def Let_def host_run_def[symmetric] by simp
  then have "host_cells h' = host_cells ?h1" "host_cursor h' = scr_cursor s"
    by (auto split: option.splits)
  with 1 assms(1) show ?thesis by (simp add: shows_screen_def host_paired_def follows_def)
qed

text \<open>An example width table: \<open>W\<close> is wide.\<close>

definition example_width :: "uchar \<Rightarrow> nat option" where
  "example_width c = (if c = 87 then Some 2 else Some 1)"

definition wide_screen :: screen where
  "wide_screen =
     \<lparr>scr_rows = 1, scr_columns = 3,
      scr_cells = [default_cell\<lparr>cell_ch := 87\<rparr>, right_half_of (default_cell\<lparr>cell_ch := 87\<rparr>),
        default_cell\<lparr>cell_ch := 120\<rparr>],
      scr_cursor = Some (2, 0)\<rparr>"

definition blank_host :: host where
  "blank_host = \<lparr>host_cells = (\<lambda>_ _. Glyph [] plain_style), host_row = 0, host_column = 0,
     host_style = plain_style, host_cursor = None\<rparr>"

lemma blank_host_paired: "host_paired cw blank_host"
  by (simp add: host_paired_def line_paired_def blank_host_def wide_glyph_def)

theorem host_shows_frame_witness:
  "shows_screen (fold (host_step example_width) (screen_diff None wide_screen False) blank_host) wide_screen"
proof -
  have "k < 3 \<longleftrightarrow> k = 0 \<or> k = 1 \<or> k = 2" for k :: nat by auto
  then have "screen_paired example_width wide_screen"
    by (auto simp: screen_paired_def wide_screen_def screen_at_def wide_cell_def example_width_def
        right_half_of_def default_cell_def space_def)
  moreover have "follows example_width blank_host None wide_screen (full_frame None wide_screen False)"
    by (simp add: follows_def full_frame_def)
  ultimately show ?thesis using host_shows_frame[OF _ blank_host_paired _ refl] by blast
qed

section \<open>Half a wide glyph\<close>

text \<open>
  Without its right half a wide glyph still takes two columns of the host: the next cell of the
  run, drawn without a cursor motion, lands one column to the right of its place. The pane
  terminal leaves such a half when a narrow character is written over the right one, and a pane's
  title is drawn one cell per character whatever its width.
\<close>

lemma half_glyph_shifts_row:
  "let cells = [default_cell\<lparr>cell_ch := 87\<rparr>, default_cell\<lparr>cell_ch := 120\<rparr>, default_cell];
       s = \<lparr>scr_rows = 1, scr_columns = 3, scr_cells = cells, scr_cursor = None\<rparr>;
       h = fold (host_step example_width) (screen_diff None s True) blank_host
   in host_cells h 0 1 = Right_Half \<and> host_cells h 0 2 = glyph_of (cells ! 1)"
  by (simp add: screen_diff_def full_frame_def row_changes_def upt_conv_Cons cell_out_def Let_def put_line_def
      text_width_def example_width_def blank_host_def glyph_of_def default_cell_def space_def style_of_def)

lemma update_Cons_numeral: "(x # xs)[numeral v := y] = x # xs[pred_numeral v := y]"
  by (simp add: numeral_eq_Suc)

lemma replicate_pred: "replicate (numeral v) x = x # replicate (pred_numeral v) x"
  by (simp add: numeral_eq_Suc)

lemma wide_title_breaks_frame:
  "map_option (\<lambda>s. (wide_cell example_width (screen_at s 0 3), cell_wide_continuation (screen_at s 0 4)))
     (draw_frame \<lparr>rect_x = 0, rect_y = 0, rect_width = 8, rect_height = 2\<rparr> [32, 87, 32] 7
        (screen_new 8 2)) = Some (True, False)"
proof -
  have f: "frame_cells \<lparr>rect_x = 0, rect_y = 0, rect_width = 8, rect_height = 2\<rparr> [32, 87, 32] =
      concat (map (\<lambda>x. [(x, 0, box_horizontal), (x, 1, box_horizontal)]) [1, 2, 3, 4, 5, 6]) @
      [(0, 0, box_top_left), (7, 0, box_top_right), (0, 1, box_bottom_left), (7, 1, box_bottom_right),
       (2, 0, 32), (3, 0, 87), (4, 0, 32)]"
    by (simp add: frame_cells_def add16_def upt_conv_Cons Let_def)
  show ?thesis
    by (simp add: draw_frame_def f set_coloured_def screen_set_def screen_new_def vec_get_def vec_set_def
        coloured_def default_cell_def Let_def screen_at_def wide_cell_def example_width_def
        update_Cons_numeral replicate_pred)
qed

lemma narrow_over_wide_leaves_half:
  "map_option (\<lambda>t. (wide_cell example_width (grid t ! 0 ! 0), cell_wide_continuation (grid t ! 0 ! 1)))
     (Option.bind (put_char example_width 87 (terminal_new 1 2 0))
       (\<lambda>t. put_char example_width 120 (t\<lparr>cursor_col := 1\<rparr>))) = Some (True, False)"
  by code_simp

end
