(* ===== verification/Session_Frames.thy ===== *)
theory Session_Frames
  imports Session_Render Session_Examples Screen_Correct
begin

text \<open>
  The frames a client has not displayed: no event but attachment, acknowledgement and rendering
  touches them, the gate keeps at most eight outstanding, and composing a frame never panics.
\<close>

section \<open>What leaves the client alone\<close>

definition same_client :: "'v session \<Rightarrow> 'v session \<Rightarrow> bool" where
  "same_client s s' \<longleftrightarrow> attached s' = attached s \<and> frame_id s' = frame_id s"

named_theorems client_frame

definition spares_client :: "('v session \<Rightarrow> 'v session option) \<Rightarrow> bool" where
  "spares_client f \<longleftrightarrow> (\<forall>s s'. f s = Some s' \<longrightarrow> same_client s s')"

lemma spares_clientD: "spares_client f \<Longrightarrow> f s = Some s' \<Longrightarrow> same_client s s'"
  by (simp add: spares_client_def)

lemma same_client_refl [simp]: "same_client s s"
  by (simp add: same_client_def)

lemma same_client_trans: "same_client s s' \<Longrightarrow> same_client s' s'' \<Longrightarrow> same_client s s''"
  by (simp add: same_client_def)

lemma same_client_simps [simp]:
  "same_client s (s'\<lparr>force_full := b\<rparr>) = same_client s s'" "same_client s (s'\<lparr>tabs := ts\<rparr>) = same_client s s'"
  "same_client s (s'\<lparr>active_index := n\<rparr>) = same_client s s'" "same_client s (s'\<lparr>panes := ps\<rparr>) = same_client s s'"
  "same_client s (s'\<lparr>cur_drag := d\<rparr>) = same_client s s'" "same_client s (s'\<lparr>cur_modal := m\<rparr>) = same_client s s'"
  "same_client s (s'\<lparr>next_pane_id := n\<rparr>) = same_client s s'" "same_client s (s'\<lparr>next_tab_id := n\<rparr>) = same_client s s'"
  "same_client s (s'\<lparr>session_sequence := n\<rparr>) = same_client s s'" "same_client s (s'\<lparr>copy_buffer := bs\<rparr>) = same_client s s'"
  "same_client s (s'\<lparr>next_float_mode := n\<rparr>) = same_client s s'" "same_client s (schedule_render s') = same_client s s'"
  "same_client s (bump_layout s') = same_client s s'" "same_client s (projection_changed s') = same_client s s'"
  "same_client s (emit e s') = same_client s s'" "same_client s (to_client e s') = same_client s s'"
  "same_client s (status msg s') = same_client s s'" "same_client s (update_active f s') = same_client s s'"
  "same_client s (snd (try_active g s')) = same_client s s'" "same_client s (snd (try_tab P g s')) = same_client s s'"
  "same_client s (pane_update p k s') = same_client s s'" "same_client s (mark_pane_screen_change p c s') = same_client s s'"
  by (simp_all add: same_client_def schedule_render_def bump_layout_def projection_changed_def emit_def
      to_client_def status_def update_active_def try_active_def try_tab_def pane_update_def
      mark_pane_screen_change_def split: option.split)

lemma same_client_base [simp]:
  "same_client (s\<lparr>cur_drag := d\<rparr>) s' = same_client s s'" "same_client (s\<lparr>cur_modal := m\<rparr>) s' = same_client s s'"
  "same_client (s\<lparr>force_full := b\<rparr>) s' = same_client s s'" "same_client (s\<lparr>tabs := ts\<rparr>) s' = same_client s s'"
  "same_client (s\<lparr>active_index := n\<rparr>) s' = same_client s s'" "same_client (s\<lparr>panes := ps\<rparr>) s' = same_client s s'"
  "same_client (s\<lparr>next_pane_id := n\<rparr>) s' = same_client s s'" "same_client (s\<lparr>session_sequence := n\<rparr>) s' = same_client s s'"
  "same_client (bump_layout s) s' = same_client s s'" "same_client (status msg s) s' = same_client s s'"
  "same_client (schedule_render s) s' = same_client s s'" "same_client (emit e s) s' = same_client s s'"
  "same_client (update_active f s) s' = same_client s s'" "same_client (pane_update p k s) s' = same_client s s'"
  "same_client (snd (try_tab P g s)) s' = same_client s s'" "same_client (snd (try_active g s)) s' = same_client s s'"
  by (simp_all add: same_client_def schedule_render_def bump_layout_def emit_def
      to_client_def status_def update_active_def try_active_def try_tab_def pane_update_def split: option.split)

section \<open>The layout core\<close>

lemma spares_relayout_with: "spares_client ra \<Longrightarrow> spares_client (relayout_with ra)"
  by (fastforce simp: spares_client_def relayout_with_def)

lemma spares_relayout_if:
  assumes "spares_client ra" and "relayout_if ra r = Some s'"
  shows "same_client (snd r) s'"
  using assms spares_clientD[OF spares_relayout_with[OF assms(1)], of "(snd r)\<lparr>force_full := True\<rparr>" s']
  by (auto simp: relayout_if_def split: if_splits)

lemma restore_drag_client [simp]: "same_client s (snd (restore_drag drag s')) = same_client s s'"
  by (simp add: restore_drag_def split: pointer_drag.split)

lemma restore_drag_base [simp]: "same_client (snd (restore_drag drag s)) s' = same_client s s'"
  by (simp add: restore_drag_def split: pointer_drag.split)

lemma spares_cancel:
  assumes "spares_client ra"
  shows "spares_client (cancel_pointer_drag_with ra r)"
proof -
  have "same_client s s'" if c: "cancel_pointer_drag_with ra r s = Some s'" for s s'
  proof (cases "cur_drag s")
    case (Some drag)
    with c spares_relayout_if[OF assms, of "restore_drag drag (s\<lparr>cur_drag := None\<rparr>)" s'] show ?thesis
      by (auto simp: cancel_pointer_drag_with_def Let_def split: if_splits)
  qed (use c in \<open>simp add: cancel_pointer_drag_with_def\<close>)
  then show ?thesis by (simp add: spares_client_def)
qed

lemma spares_end_mode:
  assumes "spares_client ra"
  shows "spares_client (end_float_mode_with ra r)"
proof -
  have "same_client s s'" if c: "end_float_mode_with ra r s = Some s'" for s s'
  proof (cases "cur_modal s")
    case (Some m)
    let ?r = "try_tab (\<lambda>t. layer_contains (tab_floating t) (modal_pane m))
      (on_layer (layer_set_rect (modal_pane m) (modal_original m) (content_area s))) (s\<lparr>cur_modal := None\<rparr>)"
    from c Some spares_relayout_if[OF assms, of ?r] show ?thesis
      by (auto simp: end_float_mode_with_def Let_def split: if_splits)
  qed (use c in \<open>simp add: end_float_mode_with_def\<close>)
  then show ?thesis by (simp add: spares_client_def)
qed

lemma drop_pane_client [simp]: "same_client s (drop_pane p s') = same_client s s'"
  by (simp add: drop_pane_def split: option.split)

lemma remove_from_tab_client [simp]:
  "same_client s (remove_from_tab i p s') = same_client s s'"
  "same_client (remove_from_tab i p s) s' = same_client s s'" "same_client (drop_pane p s) s' = same_client s s'"
  by (simp_all add: remove_from_tab_def drop_pane_def Let_def same_client_def emit_def split: option.split)

lemma spares_close: 
  assumes "spares_client ra"
  shows "spares_client (close_pane_with ra p)"
  unfolding spares_client_def
proof (intro allI impI)
  fix s s' assume "close_pane_with ra p s = Some s'"
  then obtain s1 s2 where
    1: "(case cur_drag s of None \<Rightarrow> Some s
         | Some drag \<Rightarrow> cancel_pointer_drag_with ra (drag_pane drag \<noteq> Some p) s) = Some s1" and
    2: "(case cur_modal s1 of None \<Rightarrow> Some s1
         | Some m \<Rightarrow> end_float_mode_with ra (modal_pane m \<noteq> p) s1) = Some s2" and
    3: "(case position (\<lambda>t. tab_contains t p) (tabs (drop_pane p s2)) of
           None \<Rightarrow> Some (drop_pane p s2)
         | Some i \<Rightarrow> relayout_with ra (remove_from_tab i p (drop_pane p s2))) = Some s'"
    unfolding close_pane_with_def Let_def bind_eq_Some_conv by blast
  have "same_client s s1" using 1 spares_clientD[OF spares_cancel[OF assms]] by (auto split: option.splits)
  moreover have "same_client s1 s2"
    using 2 spares_clientD[OF spares_end_mode[OF assms]] by (auto split: option.splits)
  moreover have "same_client s2 s'"
  proof (cases "position (\<lambda>t. tab_contains t p) (tabs (drop_pane p s2))")
    case (Some i)
    with 3 spares_clientD[OF spares_relayout_with[OF assms], of "remove_from_tab i p (drop_pane p s2)" s']
    show ?thesis by simp
  qed (use 3 in auto)
  ultimately show "same_client s s'" using same_client_trans by blast
qed

lemma spares_close_failed:
  assumes "spares_client ra"
  shows "spares_client (close_failed ra ps)"
proof (induction ps)
  case (Cons p ps)
  have "same_client s s'" if c: "close_failed ra (p # ps) s = Some s'" for s s'
  proof -
    from c obtain s1 where
      "close_pane_with ra p (status (pane_message p ''PTY resize failed'') s) = Some s1"
      "close_failed ra ps s1 = Some s'" by (auto simp: bind_eq_Some_conv)
    with spares_clientD[OF spares_close[OF assms]] spares_clientD[OF Cons.IH] same_client_trans
    show ?thesis by fastforce
  qed
  then show ?case by (simp add: spares_client_def)
qed (simp add: spares_client_def)

lemma resize_pane_client: "same_client s (snd (snd (resize_pane w d q acc))) = same_client s (snd (snd acc))"
  by (simp add: resize_pane_def Let_def split: prod.split option.split)

lemma fold_resize_client:
  "same_client s (snd (snd (fold (resize_pane w d) qs acc))) = same_client s (snd (snd acc))"
  by (induction qs arbitrary: acc) (simp_all add: resize_pane_client)

lemma resize_tabs_client:
  "resize_tabs w area d ts acc = Some acc' \<Longrightarrow> same_client s (snd (snd acc)) \<Longrightarrow> same_client s (snd (snd acc'))"
  by (induction ts arbitrary: acc) (auto simp: fold_resize_client split: option.splits)

lemma spares_resize_all: "spares_client (resize_all n w)"
proof (induction n)
  case (Suc n)
  have "same_client s s'" if r: "resize_all (Suc n) w s = Some s'" for s s'
  proof -
    from r obtain failed k s1 where
      1: "resize_tabs w (content_area s) (layout_display s) (tabs s) ([], 0, s) = Some (failed, k, s1)"
      "close_failed (resize_all n w) (sort (remdups failed))
         (s1\<lparr>session_sequence := wrapping_add64 (session_sequence s1) k\<rparr>) = Some s'"
      by (auto split: option.splits)
    have "same_client s s1" using resize_tabs_client[OF 1(1), of s] by simp
    with spares_clientD[OF spares_close_failed[OF Suc] 1(2)] same_client_trans show ?thesis by fastforce
  qed
  then show ?case by (simp add: spares_client_def)
qed (simp add: spares_client_def)

lemma spares_do_resize_all: "spares_client (do_resize_all w)"
  using spares_resize_all by (fastforce simp: spares_client_def do_resize_all_def)

lemmas spares_core = spares_do_resize_all
  spares_relayout_with[OF spares_do_resize_all, folded relayout_def]
  spares_cancel[OF spares_do_resize_all, folded cancel_pointer_drag_def]
  spares_end_mode[OF spares_do_resize_all, folded end_float_mode_def]
  spares_close[OF spares_do_resize_all, folded close_pane_def]

lemmas core_client [dest] = spares_core[THEN spares_clientD]

section \<open>The handlers\<close>

lemma relayout_client: "relayout w u = Some s' \<Longrightarrow> same_client s u \<Longrightarrow> same_client s s'"
  and close_client: "close_pane w p u = Some s' \<Longrightarrow> same_client s u \<Longrightarrow> same_client s s'"
  and end_mode_client: "end_float_mode w b u = Some s' \<Longrightarrow> same_client s u \<Longrightarrow> same_client s s'"
  and cancel_client: "cancel_pointer_drag w b u = Some s' \<Longrightarrow> same_client s u \<Longrightarrow> same_client s s'"
  using spares_core[THEN spares_clientD, of w] same_client_trans[of s u s'] by auto

lemmas core_clients = relayout_client close_client end_mode_client cancel_client

lemma settle_client: "settle w s = Some s' \<Longrightarrow> same_client s s'"
  by (auto simp: settle_def bind_eq_Some_conv intro: end_mode_client cancel_client[OF _ same_client_refl])

lemma report_client: "report_input_failure w p f u = Some s' \<Longrightarrow> same_client s u \<Longrightarrow> same_client s s'"
  by (auto simp: report_input_failure_def Let_def split: option.splits if_splits intro: close_client)

lemma queue_client: "same_client s (snd (queue_pane_input w p bs s')) = same_client s s'"
  by (simp add: queue_pane_input_def split: option.split)

lemma send_client: "send_pane_input w p bs u = Some s' \<Longrightarrow> same_client s u \<Longrightarrow> same_client s s'"
  using queue_client[of s w p bs u]
  by (auto simp: send_pane_input_def split: option.splits prod.splits intro: report_client)

lemma copy_input_client [simp]: "same_client s (copy_input p bs s') = same_client s s'"
  by (auto simp: copy_input_def take_copy_def Let_def same_client_def[of s "u\<lparr>copy_buffer := x\<rparr>" for u x]
      split: option.splits)

lemma pane_input_client: "pane_input w bs s = Some s' \<Longrightarrow> same_client s s'"
  using queue_client[of s w _ bs s, unfolded same_client_refl]
  by (auto simp: pane_input_def Let_def split: option.splits prod.splits if_splits intro: report_client)
    (metis report_client snd_conv)

lemma paste_client: "paste w s = Some s' \<Longrightarrow> same_client s s'"
  by (auto simp: paste_def Let_def split: option.splits intro: send_client)

lemma spawn_client: "spawn_pane w p tid s = Some u \<Longrightarrow> same_client s u"
  by (auto simp: spawn_pane_def split: if_splits)

lemma split_client: "split w ax s = Some s' \<Longrightarrow> same_client s s'"
  unfolding split_def
  by (auto split: option.split_asm if_split_asm sum.split_asm elim!: relayout_client dest: spawn_client)

lemma focus_client: "focus d s = Some s' \<Longrightarrow> same_client s s'"
  unfolding focus_def by (auto split: option.split_asm if_split_asm)

lemma resize_key_client: "resize_key w d s = Some s' \<Longrightarrow> same_client s s'"
  unfolding resize_key_def Let_def
  by (auto split: option.split_asm if_split_asm elim!: relayout_client)

lemma new_tab_client: "new_tab w s = Some s' \<Longrightarrow> same_client s s'"
  unfolding new_tab_def Let_def by (auto dest: spawn_client)

lemma new_float_client: "new_float w s = Some s' \<Longrightarrow> same_client s s'"
  unfolding new_float_def Let_def
  by (auto split: option.split_asm if_split_asm elim!: relayout_client dest: spawn_client)

lemma toggle_floats_client: "toggle_floats w s = Some s' \<Longrightarrow> same_client s s'"
  unfolding toggle_floats_def by (auto split: option.split_asm if_split_asm elim!: relayout_client)

lemma toggle_zoom_client: "toggle_zoom w s = Some s' \<Longrightarrow> same_client s s'"
  unfolding toggle_zoom_def by (auto split: option.split_asm elim!: relayout_client)

lemma mode_client [simp]:
  "same_client s (toggle_pin s') = same_client s s'"
  "same_client s (enter_copy_mode s') = same_client s s'"
  "same_client s (enter_float_mode kind s') = same_client s s'"
  by (simp_all add: toggle_pin_def enter_copy_mode_def enter_float_mode_def split: option.split)

lemma float_edit_client:
  assumes "float_edit w i c s = Some s'"
  shows "same_client s s'"
proof (cases "cur_modal s")
  case (Some m)
  show ?thesis
  proof (cases c)
    case (EditStep d n)
    let ?r = "try_active (on_layer (edit_layer (modal_kind m) (modal_pane m) (edit_step d (int n)) (content_area s))) s"
    have "same_client s (snd ?r)" by simp
    with assms Some EditStep show ?thesis
      by (auto simp: float_edit_def Let_def case_prod_beta split: if_split_asm elim!: core_clients)
  qed (use assms Some in \<open>auto simp: float_edit_def split: if_split_asm elim!: core_clients\<close>)
qed (use assms in \<open>simp add: float_edit_def\<close>)

lemma go_to_tab_client: "go_to_tab w i s = Some s' \<Longrightarrow> same_client s s'"
  unfolding go_to_tab_def by (auto elim!: relayout_client)

lemma perform_client:
  assumes "perform w a s = Some s'"
  shows "same_client s s'"
proof (cases a)
  case NewTab
  with assms new_tab_client[of w s] show ?thesis
    by (auto simp: perform_def split: option.split_asm elim!: relayout_client)
qed (use assms in \<open>auto simp: perform_def split: if_split_asm option.split_asm
    intro: split_client focus_client resize_key_client go_to_tab_client close_client toggle_zoom_client
      paste_client new_float_client toggle_floats_client\<close>)

lemma action_client: "action w a s = Some s' \<Longrightarrow> same_client s s'"
  by (auto simp: action_def bind_eq_Some_conv dest!: settle_client perform_client intro: same_client_trans)

lemma update_drag_client:
  assumes "update_pointer_drag w m s = Some s'"
  shows "same_client s s'"
  using assms unfolding update_pointer_drag_def Let_def
  by (auto split: option.split_asm if_split_asm prod.split_asm elim!: core_clients)

lemma content_mouse_client: "content_mouse w m p c s = Some s' \<Longrightarrow> same_client s s'"
  unfolding content_mouse_def Let_def
  by (auto split: option.split_asm if_split_asm elim!: send_client)

lemma click_focus_client: "click_focus w hit f s = Some s' \<Longrightarrow> same_client s s'"
  unfolding click_focus_def Let_def
  by (auto simp: bind_eq_Some_conv split: if_split_asm dest!: end_mode_client[OF _ same_client_refl])

lemma press_mouse_client: "press_mouse w m t hit s = Some s' \<Longrightarrow> same_client s s'"
  unfolding press_mouse_def Let_def
  by (auto split: option.split_asm if_split_asm dest: content_mouse_client)

lemma press_on_tab_client: "press_on_tab w m s = Some s' \<Longrightarrow> same_client s s'"
  unfolding press_on_tab_def
  by (auto simp: bind_eq_Some_conv split: option.split_asm
      dest!: click_focus_client press_mouse_client intro: same_client_trans)

lemma mouse_client: "mouse w m s = Some s' \<Longrightarrow> same_client s s'"
  unfolding mouse_def Let_def
  by (auto simp: bind_eq_Some_conv split: if_split_asm
      dest!: update_drag_client press_on_tab_client cancel_client[OF _ same_client_refl] intro: same_client_trans)

lemma terminal_effect_client: "same_client s (snd (terminal_effect w p e fs)) = same_client s (snd fs)"
proof (cases fs)
  case (Pair f u)
  show ?thesis
  proof (cases e)
    case (PtyWrite bs)
    then show ?thesis using Pair queue_client[of s w p bs u] by (auto split: prod.split option.split)
  qed (simp_all add: Pair)
qed

lemma fold_effect_client: "same_client s (snd (fold (terminal_effect w p) es fs)) = same_client s (snd fs)"
  by (induction es arbitrary: fs) (simp_all add: terminal_effect_client)

lemma note_output_client [simp]: "same_client s (note_output p old new s') = same_client s s'"
  by (simp add: note_output_def)

lemma pty_output_client:
  assumes "pty_output w p bs s = Some s'"
  shows "same_client s s'"
proof (cases "pane_get p s")
  case (Some v)
  obtain evs parser t where f: "feed (host_platform w) (parser_advance w) (char_width w) bs
      (pane_parser v, pane_terminal v) = Some (evs, parser, t)"
    using assms Some by (auto simp: pty_output_def split: option.split_asm)
  let ?s1 = "pane_update p (\<lambda>v. v\<lparr>pane_terminal := t, pane_parser := parser\<rparr>) s"
  have "same_client s (snd (fold (terminal_effect w p) evs (\<lparr>fail_warn = False, fail_close = False\<rparr>, ?s1)))"
    by (simp add: fold_effect_client)
  with assms Some f show ?thesis
    by (auto simp: pty_output_def Let_def case_prod_beta elim!: report_client)
qed (use assms in \<open>simp add: pty_output_def\<close>)

lemma automation_client:
  "automation_split w p ax s = Some (r, s') \<Longrightarrow> same_client s s'"
  "automation_focus w p s = Some (q, s') \<Longrightarrow> same_client s s'"
  unfolding automation_split_def automation_focus_def
  by (auto split: option.split_asm if_split_asm sum.split_asm elim!: relayout_client dest: spawn_client)

section \<open>Outstanding frames\<close>

definition frames_ok :: "'v session \<Rightarrow> bool" where
  "frames_ok s \<longleftrightarrow>
     (\<forall>a. attached s = Some a \<longrightarrow>
        client_acknowledged a \<le> frame_id s \<and> frame_id s \<le> client_acknowledged a + max_unacknowledged_frames \<and>
        map fst (client_frames a) = [Suc (client_acknowledged a)..<Suc (frame_id s)])"

lemma frames_ok_same: "same_client s s' \<Longrightarrow> frames_ok s \<Longrightarrow> frames_ok s'"
  by (simp add: same_client_def frames_ok_def)

lemma frames_ok_none: "attached s = None \<Longrightarrow> frames_ok s"
  by (simp add: frames_ok_def)

lemma frames_ok_fresh:
  "attached s = Some a \<Longrightarrow> client_acknowledged a = frame_id s \<Longrightarrow> client_frames a = [] \<Longrightarrow> frames_ok s"
  by (simp add: frames_ok_def)

lemma attach_frames:
  assumes "attach w c replace d vivid s = Some s'" and "frames_ok s"
  shows "frames_ok s'"
proof -
  from assms(1) obtain s1 where s1: "settle w s = Some s1" by (auto simp: attach_def bind_eq_Some_conv)
  show ?thesis
  proof (cases "attached s1 \<noteq> None \<and> \<not> replace")
    case True
    with assms(1) s1 have "s' = emit (SentError ''session already has an attached client'') s1"
      by (auto simp: attach_def)
    with settle_client[OF s1] frames_ok_same[OF _ assms(2)] show ?thesis by simp
  next
    case False
    let ?s2 = "to_client (SentDetached ''replaced by another client'') s1"
    let ?d = "normalized_display d (status_visible (config s))"
    let ?a = "\<lparr>client_id = c, client_display = ?d, client_vivid = vivid,
      client_acknowledged = frame_id ?s2, client_rendered = 0, client_frames = []\<rparr>"
    let ?u = "(emit (SentAttached (\<not> vivid))
      (clamp_tabs (?s2\<lparr>last_display := ?d, attached := Some ?a\<rparr>)))\<lparr>force_full := True\<rparr>"
    from assms(1) s1 False obtain s4 where s4: "do_resize_all w ?u = Some s4" "s' = schedule_render s4"
      unfolding attach_def Let_def by (auto simp: bind_eq_Some_conv)
    have "frames_ok ?u" by (rule frames_ok_fresh[of _ ?a]) (simp_all add: clamp_tabs_def emit_def)
    moreover have "same_client ?u s'"
      using spares_clientD[OF spares_do_resize_all s4(1)] unfolding s4(2) same_client_simps .
    ultimately show ?thesis by (rule frames_ok_same[rotated])
  qed
qed

lemma client_resize_frames:
  assumes "client_resize w d s = Some s'" and "frames_ok s"
  shows "frames_ok s'"
proof -
  from assms(1) obtain s1 where s1: "settle w s = Some s1"
    and r: "relayout w ((clamp_tabs (case attached s1 of None \<Rightarrow> s1
      | Some a \<Rightarrow> s1\<lparr>attached := Some (a\<lparr>client_display := normalized_display d (status_visible (config s1))\<rparr>),
          last_display := normalized_display d (status_visible (config s1))\<rparr>))\<lparr>force_full := True\<rparr>) = Some s'"
    unfolding client_resize_def Let_def by (auto simp: bind_eq_Some_conv)
  have "frames_ok s1" using settle_client[OF s1] assms(2) frames_ok_same by blast
  then have "frames_ok ((clamp_tabs (case attached s1 of None \<Rightarrow> s1
      | Some a \<Rightarrow> s1\<lparr>attached := Some (a\<lparr>client_display := normalized_display d (status_visible (config s1))\<rparr>),
          last_display := normalized_display d (status_visible (config s1))\<rparr>))\<lparr>force_full := True\<rparr>)"
    by (auto simp: frames_ok_def clamp_tabs_def split: option.split)
  with relayout_client[OF r same_client_refl] frames_ok_same show ?thesis by blast
qed

lemma leave_frames:
  "detach w s = Some s' \<Longrightarrow> frames_ok s'" "disconnected w s = Some s' \<Longrightarrow> frames_ok s'"
proof -
  have e: "end_float_mode w True u = Some s' \<Longrightarrow> attached u = None \<Longrightarrow> frames_ok s'" for u
    using end_mode_client[of w True u s' u] frames_ok_same frames_ok_none by auto
  show "detach w s = Some s' \<Longrightarrow> frames_ok s'" "disconnected w s = Some s' \<Longrightarrow> frames_ok s'"
    by (auto simp: detach_def disconnected_def bind_eq_Some_conv intro: e)
qed

lemma dropWhile_upt: "dropWhile (\<lambda>f. f \<le> n) [i..<j] = [max (Suc n) i..<j]"
proof (induction "j - i" arbitrary: i)
  case (Suc k)
  then have "[i..<j] = i # [Suc i..<j]" by (simp add: upt_conv_Cons)
  moreover have "k = j - Suc i" using Suc.hyps(2) by simp
  ultimately show ?case using Suc.hyps(1)[of "Suc i"] by (auto simp: max_def not_less_eq_eq)
qed (simp add: max_def)

lemma dropWhile_fst: "map fst (dropWhile (\<lambda>(f, _). f \<le> n) xs) = dropWhile (\<lambda>f. f \<le> n) (map fst xs)"
  by (induction xs) auto

lemma acknowledge_frames:
  assumes "frames_ok s"
  shows "frames_ok (render_ack c frame s)" and "frames_ok (render_resync s)"
proof -
  show "frames_ok (render_ack c frame s)"
  proof (cases "attached s")
    case (Some a)
    with assms show ?thesis
      by (auto simp: render_ack_def acknowledge_def Let_def frames_ok_def dropWhile_fst dropWhile_upt max_def
          simp del: upt_Suc)
  qed (use assms in \<open>simp add: render_ack_def\<close>)
  show "frames_ok (render_resync s)"
    by (auto simp: render_resync_def frames_ok_def schedule_render_def)
qed

lemma event_frames:
  assumes "session_event_step w e s = Some s'" and "frames_ok s"
  shows "frames_ok s'"
proof (cases e)
  case (Attach c replace d vivid)
  with attach_frames assms show ?thesis by simp
next
  case (ClientResize c d)
  with client_resize_frames assms show ?thesis by (auto simp: from_client_def split: if_split_asm)
next
  case (Detach c)
  with leave_frames(1) assms show ?thesis by (auto simp: from_client_def split: if_split_asm)
next
  case (Disconnected c)
  with leave_frames(2) assms show ?thesis by (auto simp: from_client_def split: if_split_asm)
next
  case (RenderAck c f)
  with acknowledge_frames(1)[OF assms(2), of c f] assms(1) show ?thesis by simp
next
  case (RenderResync c)
  with acknowledge_frames(2) assms show ?thesis by (auto simp: from_client_def split: if_split_asm)
next
  case (AutomationSplit p ax)
  with automation_client(1)[of w p ax s _ s'] frames_ok_same[OF _ assms(2)] assms(1) show ?thesis by auto
next
  case (AutomationFocus p)
  with automation_client(2)[of w p s _ s'] frames_ok_same[OF _ assms(2)] assms(1) show ?thesis by auto
qed (use assms in \<open>auto simp: from_client_def split: if_split_asm option.split_asm
    intro: frames_ok_same pane_input_client mouse_client action_client float_edit_client pty_output_client
      close_client[OF _ same_client_refl]\<close>)

section \<open>Rendering returns\<close>

lemma draw_pane_ok:
  assumes "screen_wf (fst acc)"
  shows "\<exists>acc'. draw_pane ap s ip acc = Some acc' \<and> same_screen (fst acc) (fst acc')"
proof -
  obtain index q screen cursor where a: "ip = (index, q)" "acc = (screen, cursor)" by (cases ip; cases acc)
  show ?thesis
  proof (cases "pane_get (proj_pane q) s")
    case None
    with a assms show ?thesis by (simp add: draw_pane_def same_screen_def)
  next
    case (Some v)
    have "screen_wf screen" using assms a by simp
    from draw_frame_ok[OF this] obtain s1 where s1: "draw_frame (proj_outer q) (pane_title (proj_pane q) v (proj_layer q))
        (if proj_focused q then active_frame ap else inactive_frame ap) screen = Some s1"
      "same_screen screen s1" by blast
    then have "screen_wf s1" by (simp add: same_screen_def)
    from draw_terminal_ok[OF this] obtain s2 where
      "draw_terminal (proj_content q) (pane_terminal v) (copy_view (pane_copy v)) s1 = Some s2"
      "same_screen s1 s2" by blast
    with s1 a Some same_screen_trans show ?thesis by (fastforce simp: draw_pane_def)
  qed
qed

lemma draw_panes_ok:
  "screen_wf (fst acc) \<Longrightarrow>
     \<exists>acc'. run_ops (draw_pane ap s) ips acc = Some acc' \<and> same_screen (fst acc) (fst acc')"
proof (induction ips arbitrary: acc)
  case Nil
  then show ?case by (simp add: same_screen_def)
next
  case (Cons ip ips)
  from draw_pane_ok[OF Cons.prems] obtain a where a: "draw_pane ap s ip acc = Some a"
    "same_screen (fst acc) (fst a)" by blast
  then have "screen_wf (fst a)" by (simp add: same_screen_def)
  from Cons.IH[OF this] obtain b where "run_ops (draw_pane ap s) ips a = Some b" "same_screen (fst a) (fst b)"
    by blast
  with a same_screen_trans show ?case by auto
qed

lemma compose_ok:
  assumes "session_ok s"
  shows "\<exists>screen. compose ap s d = Some screen \<and> screen_wf screen \<and>
    scr_rows screen = disp_rows d \<and> scr_columns screen = disp_columns d"
proof -
  let ?new = "screen_new (disp_columns d) (disp_rows d)"
  have "\<exists>drawn. draw_tab ap s ?new = Some drawn \<and> screen_wf drawn \<and>
      scr_rows drawn = disp_rows d \<and> scr_columns drawn = disp_columns d"
  proof (cases "active_tab s")
    case None
    then show ?thesis by (simp add: draw_tab_def screen_new_def screen_wf_def mult.commute)
  next
    case (Some t)
    from visible_projections_ok[OF active_tab_ok[OF assms Some]] obtain ps where
      ps: "visible_projections t (content_area s) = Some ps" by blast
    obtain drawn cursor where
      "run_ops (draw_pane ap s) (enumerate 0 ps) (?new, None) = Some (drawn, cursor)"
      "same_screen ?new drawn" using draw_panes_ok[of "(?new, None)"] by force
    with Some ps show ?thesis by (simp add: draw_tab_def same_screen_def screen_wf_def screen_new_def)
  qed
  then obtain drawn where d: "draw_tab ap s ?new = Some drawn" "screen_wf drawn"
    "scr_rows drawn = disp_rows d" "scr_columns drawn = disp_columns d" by blast
  with draw_text_ok[OF d(2), of 0 "scr_rows drawn - 1" "status_text ap s" "status_foreground ap"
      "status_background ap" 0] show ?thesis by (auto simp: compose_def same_screen_def)
qed

lemma session_ok_client:
  assumes "session_ok s" and "attached s = Some a" and "client_display b = client_display a"
  shows "session_ok (s\<lparr>attached := Some b\<rparr>)"
proof -
  have "content_area (s\<lparr>attached := Some b\<rparr>) = content_area s"
    using assms(2,3) by (simp add: content_area_def layout_display_def)
  with assms show ?thesis by (simp add: session_parts all_panes_def)
qed

lemma render_ok:
  assumes "session_ok s" and "frames_ok s" and "Suc (frame_id s) < 2 ^ 64"
  shows "\<exists>s' l r. render ap sent s l0 = Some (s', l, r) \<and> session_ok s' \<and> frames_ok s'"
proof (cases "max_unacknowledged_frames \<le> held_frames s")
  case True
  with assms show ?thesis by (simp add: render_def frames_ok_def)
next
  case open_gate: False
  let ?s1 = "s\<lparr>pending_render := False\<rparr>"
  show ?thesis
  proof (cases "attached s")
    case None
    with open_gate assms show ?thesis by (simp add: render_def frames_ok_def)
  next
    case (Some a)
    have "session_ok ?s1" using assms(1) by simp
    from compose_ok[OF this] obtain screen where c: "compose ap ?s1 (client_display a) = Some screen" by blast
    let ?f = "Suc (frame_id s)"
    have f: "wrapping_inc64 (frame_id s) = ?f" using assms(3) by (simp add: wrapping_inc64_def)
    let ?s3 = "s\<lparr>pending_render := False, frame_id := ?f, attached := Some (note_frame ?f (session_sequence s) a),
      force_full := False\<rparr>"
    let ?s4 = "(emit (SentDetached ''frame delivery failed'') (s\<lparr>pending_render := False, frame_id := ?f\<rparr>))
      \<lparr>attached := None, force_full := False\<rparr>"
    have "frames_ok ?s3"
    proof -
      have k: "client_acknowledged a \<le> frame_id s" "frame_id s < client_acknowledged a + max_unacknowledged_frames"
        "map fst (client_frames a) = [Suc (client_acknowledged a)..<?f]"
        using assms(2) Some open_gate by (auto simp: frames_ok_def held_frames_def)
      from k(3) have "length (client_frames a) = length [Suc (client_acknowledged a)..<?f]" by (metis length_map)
      with k(2) have "length (client_frames a) < 8" by (simp add: max_unacknowledged_frames_def del: upt_Suc)
      then have "keep_last 1024 (client_frames a @ [(?f, n)]) = client_frames a @ [(?f, n)]" for n
        by (simp add: keep_last_def)
      with k show ?thesis by (simp add: frames_ok_def note_frame_def)
    qed
    moreover
    have "session_ok ((s\<lparr>pending_render := False, frame_id := ?f\<rparr>)
        \<lparr>attached := Some (note_frame ?f (session_sequence s) a)\<rparr>)"
      using assms(1) Some by (intro session_ok_client) (simp_all add: note_frame_def)
    then have "session_ok ?s3" by simp
    moreover
    have "session_ok ((emit (SentDetached ''frame delivery failed'')
        (s\<lparr>pending_render := False, frame_id := ?f\<rparr>))\<lparr>attached := None\<rparr>)"
      using assms(1) by (intro session_ok_unattach) simp
    then have "session_ok ?s4" by simp
    moreover have "frames_ok ?s4" by (simp add: frames_ok_none)
    ultimately show ?thesis
      using open_gate Some c f by (cases sent) (simp_all add: render_def Let_def)
  qed
qed

text \<open>
  An event is admitted as before; a render must not meet the last frame number of 64 bits.
\<close>

definition loop_admits :: "'v session \<times> screen option \<Rightarrow> 'v world \<times> loop_event \<Rightarrow> bool" where
  "loop_admits st we =
     (case we of (w, SessionEvent e) \<Rightarrow> admits (fst st) (w, e)
      | (w, RenderNow sent) \<Rightarrow> Suc (frame_id (fst st)) < 2 ^ 64)"

definition loop_ok :: "'v session \<times> screen option \<Rightarrow> bool" where
  "loop_ok st \<longleftrightarrow> session_ok (fst st) \<and> frames_ok (fst st)"

interpretation actor_loop: safe_machine "loop_step ap" loop_ok loop_admits for ap
proof unfold_locales
  fix st :: "'a session \<times> screen option" and we :: "'a world \<times> loop_event"
  assume a: "loop_ok st" "loop_admits st we"
  obtain s l w e where st: "st = (s, l)" "we = (w, e)" by (cases st; cases we)
  show "\<exists>st'. loop_step ap we st = Some st' \<and> loop_ok st'"
  proof (cases e)
    case (SessionEvent ev)
    with a st have "session_ok s" "admits s (w, ev)" by (simp_all add: loop_ok_def loop_admits_def)
    from session_step_safe[OF this] obtain s' where "session_event_step w ev s = Some s'" "session_ok s'" by auto
    with SessionEvent a(1) st event_frames show ?thesis by (fastforce simp: loop_ok_def)
  next
    case (RenderNow sent)
    with a st render_ok[of s ap sent l] show ?thesis by (auto simp: loop_ok_def loop_admits_def)
  qed
qed

definition example_appearance :: appearance where
  "example_appearance = \<lparr>session_name = literal ''main'', active_frame = 2, inactive_frame = 8,
     status_foreground = 0, status_background = 7\<rparr>"

text \<open>
  C39. The client is never more than eight frames behind: in every run of events and renders from a
  started session nothing panics, and the frames sent and not yet acknowledged are exactly the
  numbers after the acknowledged one up to the last frame, at most eight.
\<close>

theorem outstanding_frames_bounded:
  assumes "start w c = Some s" and "admissible (loop_step ap) loop_admits es (s, None)"
  shows "\<exists>s' last_screen. run_ops (loop_step ap) es (s, None) = Some (s', last_screen) \<and> session_ok s' \<and>
    (\<forall>a. attached s' = Some a \<longrightarrow>
       client_acknowledged a \<le> frame_id s' \<and> frame_id s' \<le> client_acknowledged a + 8 \<and>
       map fst (client_frames a) = [client_acknowledged a + 1..<frame_id s' + 1])"
proof -
  have "attached s = None"
    using assms(1)
    by (auto simp: start_def new_tab_def spawn_pane_def Let_def empty_session_def emit_def schedule_render_def
        split: if_splits)
  then have "loop_ok (s, None :: screen option)"
    using start_ok[OF assms(1)] by (simp add: loop_ok_def frames_ok_none)
  from actor_loop.run_safe[OF this assms(2)] obtain st where
    "run_ops (loop_step ap) es (s, None) = Some st" "loop_ok st" by blast
  then show ?thesis
    by (cases st) (auto simp: loop_ok_def frames_ok_def max_unacknowledged_frames_def)
qed

theorem outstanding_frames_bounded_witness:
  "\<exists>s s' l. start (example_world True) example_config = Some s \<and>
     run_ops (loop_step example_appearance)
       [(example_world True, SessionEvent (RenderAck 3 0)), (example_world True, RenderNow True)] (s, None) =
       Some (s', l) \<and> session_ok s'"
proof -
  let ?w = "example_world True"
  let ?es = "[(?w, SessionEvent (RenderAck 3 0)), (?w, RenderNow True)]"
  obtain s where s: "start ?w example_config = Some s" using example_start by blast
  note t = start_tabs[OF s]
  have "frame_id s = 0"
    using s by (auto simp: start_def new_tab_def spawn_pane_def Let_def empty_session_def emit_def
        schedule_render_def split: if_splits)
  then have "admissible (loop_step example_appearance) loop_admits ?es (s, None)"
    using t by (simp add: loop_admits_def admits_def render_ack_def split: option.split)
  from outstanding_frames_bounded[OF s this] s show ?thesis by blast
qed

end
