(* ===== verification/Media_Raster.thy ===== *)
theory Media_Raster
  imports Prelude
begin

text \<open>
  Raster deltas (\<open>src/src/media.rs\<close>): the operations of a delta frame applied to the retained
  pixels, and the number of pixels they damage. Pixels are four bytes, rows follow each other. An
  operation outside the pixels panics, which is \<open>None\<close>; the frame parser keeps operations inside.
\<close>

section \<open>Applying operations\<close>

datatype raster_operation =
    Overwrite nat nat nat nat bytes
  | CopyRect nat nat nat nat nat nat

text \<open>A slice \<open>v[from..from + n]\<close> and writing one over it.\<close>

definition slice :: "nat \<Rightarrow> nat \<Rightarrow> 'a list \<Rightarrow> 'a list option" where
  "slice from n v = (if from + n \<le> length v then Some (take n (drop from v)) else None)"

definition write_slice :: "nat \<Rightarrow> 'a list \<Rightarrow> 'a list \<Rightarrow> 'a list option" where
  "write_slice to s v =
     (if to + length s \<le> length v then Some (take to v @ s @ drop (to + length s) v) else None)"

definition overwrite_row ::
    "nat \<Rightarrow> nat \<Rightarrow> nat \<Rightarrow> nat \<Rightarrow> bytes \<Rightarrow> nat \<Rightarrow> bytes \<Rightarrow> bytes option" where
  "overwrite_row stride x y row_bytes rgba row pixels =
     do { s \<leftarrow> slice (row * row_bytes) row_bytes rgba;
          write_slice ((y + row) * stride + x * 4) s pixels }"

definition copy_row ::
    "nat \<Rightarrow> nat \<times> nat \<Rightarrow> nat \<times> nat \<Rightarrow> nat \<Rightarrow> nat \<Rightarrow> bytes \<Rightarrow> bytes option" where
  "copy_row stride dst src row_bytes row pixels =
     do { s \<leftarrow> slice ((snd src + row) * stride + fst src * 4) row_bytes pixels;
          write_slice ((snd dst + row) * stride + fst dst * 4) s pixels }"

fun apply_raster_delta_operation :: "nat \<Rightarrow> raster_operation \<Rightarrow> bytes \<Rightarrow> bytes option" where
  "apply_raster_delta_operation source_width (Overwrite x y width height rgba) pixels =
     run_ops (overwrite_row (source_width * 4) x y (width * 4) rgba) [0..<height] pixels"
| "apply_raster_delta_operation source_width (CopyRect dx dy width height sx sy) pixels =
     run_ops (copy_row (source_width * 4) (dx, dy) (sx, sy) (width * 4))
       (if sy < dy then rev [0..<height] else [0..<height]) pixels"

section \<open>Counting damaged pixels\<close>

definition wrap32 :: "nat \<Rightarrow> nat" where "wrap32 n = n mod 4294967296"
definition checked_u64 :: "nat \<Rightarrow> nat option" where
  "checked_u64 n = (if n \<le> 18446744073709551615 then Some n else None)"

type_synonym damage_rect = "nat \<times> nat \<times> nat \<times> nat"

fun operation_rect :: "raster_operation \<Rightarrow> damage_rect" where
  "operation_rect (Overwrite x y width height _) = (x, y, width, height)"
| "operation_rect (CopyRect dx dy width height _ _) = (dx, dy, width, height)"

definition y_edges :: "damage_rect list \<Rightarrow> nat list" where
  "y_edges rs = remdups_adj (sort (concat (map (\<lambda>(x, y, w, h). [y, wrap32 (y + h)]) rs)))"

definition band_intervals :: "damage_rect list \<Rightarrow> nat \<Rightarrow> nat \<Rightarrow> (nat \<times> nat) list" where
  "band_intervals rs upper lower =
     sort (map (\<lambda>(x, y, w, h). (x, wrap32 (x + w)))
       (filter (\<lambda>(x, y, w, h). y \<le> upper \<and> lower \<le> wrap32 (y + h)) rs))"

definition merge_interval :: "nat \<times> nat \<Rightarrow> (nat \<times> nat) list \<Rightarrow> (nat \<times> nat) list" where
  "merge_interval iv merged =
     (if merged \<noteq> [] \<and> fst iv \<le> snd (last merged)
      then butlast merged @ [(fst (last merged), max (snd (last merged)) (snd iv))]
      else merged @ [iv])"

fun sum_widths :: "nat \<Rightarrow> (nat \<times> nat) list \<Rightarrow> nat option" where
  "sum_widths acc [] = Some acc"
| "sum_widths acc ((left, right) # ivs) =
     (case checked_u64 (acc + (right - left)) of None \<Rightarrow> None | Some t \<Rightarrow> sum_widths t ivs)"

text \<open>The bands between adjacent edges; \<open>None\<close> is the error of an overflowing count.\<close>

fun count_bands :: "damage_rect list \<Rightarrow> nat list \<Rightarrow> nat \<Rightarrow> nat option" where
  "count_bands rs (upper # lower # edges) pixels =
     do { width \<leftarrow> sum_widths 0 (fold merge_interval (band_intervals rs upper lower) []);
          band \<leftarrow> checked_u64 (width * (lower - upper));
          so_far \<leftarrow> checked_u64 (pixels + band);
          count_bands rs (lower # edges) so_far }"
| "count_bands rs edges pixels = Some pixels"

definition raster_damage_pixels :: "raster_operation list \<Rightarrow> nat option" where
  "raster_damage_pixels ops =
     (let rs = map operation_rect ops in count_bands rs (y_edges rs) 0)"

section \<open>The operations are exact\<close>

text \<open>The byte in a row and column of bytes.\<close>

definition byte_at :: "nat \<Rightarrow> bytes \<Rightarrow> nat \<Rightarrow> nat \<Rightarrow> byte" where
  "byte_at stride pixels row col = pixels ! (row * stride + col)"

lemma slice_nth: "slice from n v = Some s \<Longrightarrow> i < n \<Longrightarrow> s ! i = v ! (from + i)"
  by (auto simp: slice_def split: if_splits)

lemma slice_length: "slice from n v = Some s \<Longrightarrow> length s = n"
  by (auto simp: slice_def split: if_splits)

lemma write_slice_nth:
  assumes "write_slice to s v = Some v'"
  shows "length v' = length v" and "i < length v \<Longrightarrow>
    v' ! i = (if to \<le> i \<and> i < to + length s then s ! (i - to) else v ! i)"
  using assms by (auto simp: write_slice_def nth_append min_def split: if_splits)

text \<open>Rows do not overlap: writing within one row changes only bytes of that row.\<close>

lemma row_index:
  fixes stride :: nat
  assumes "col < stride" and "from + n \<le> stride"
  shows "r * stride + from \<le> row * stride + col \<and> row * stride + col < r * stride + from + n \<longleftrightarrow>
    row = r \<and> from \<le> col \<and> col < from + n"
proof (cases row r rule: linorder_cases)
  case less
  then have "row * stride + stride \<le> r * stride" using mult_le_mono1[of "row + 1" r stride] by simp
  with assms less show ?thesis by auto
next
  case greater
  then have "r * stride + stride \<le> row * stride" using mult_le_mono1[of "r + 1" row stride] by simp
  with assms greater show ?thesis by auto
qed auto

lemma write_row:
  assumes "write_slice (r * stride + from) s v = Some v'" and "from + length s \<le> stride"
    and "length v = rows * stride" and "row < rows" and "col < stride"
  shows "byte_at stride v' row col =
    (if row = r \<and> from \<le> col \<and> col < from + length s then s ! (col - from) else byte_at stride v row col)"
proof -
  have "row * stride + col < length v"
  proof -
    have "(row + 1) * stride \<le> rows * stride" using assms(4) by (intro mult_le_mono1) simp
    with assms(3,5) show ?thesis by simp
  qed
  from write_slice_nth(2)[OF assms(1) this] row_index[OF assms(5,2), of r row]
  show ?thesis by (auto simp: byte_at_def)
qed

lemma row_fits:
  fixes stride :: nat
  assumes "row < rows" and "from + n \<le> stride"
  shows "row * stride + from + n \<le> rows * stride"
proof -
  have "(row + 1) * stride \<le> rows * stride" using assms(1) by (intro mult_le_mono1) simp
  with assms(2) show ?thesis by simp
qed

lemma overwrite_rows:
  assumes "4 * x + n \<le> stride" and "\<forall>r\<in>set rs. y + r < rows \<and> (r + 1) * n \<le> length rgba"
    and "distinct rs" and "length pixels = rows * stride"
  shows "\<exists>px. run_ops (overwrite_row stride x y n rgba) rs pixels = Some px \<and> length px = length pixels \<and>
    (\<forall>row< rows. \<forall>col< stride. byte_at stride px row col =
      (if (\<exists>r\<in>set rs. row = y + r) \<and> 4 * x \<le> col \<and> col < 4 * x + n
       then rgba ! ((row - y) * n + (col - 4 * x)) else byte_at stride pixels row col))"
  using assms(2-4)
proof (induction rs arbitrary: pixels)
  case Nil
  then show ?case by simp
next
  case (Cons r rs)
  have s: "slice (r * n) n rgba = Some (take n (drop (r * n) rgba))" (is "_ = Some ?s")
    using Cons.prems(1) by (simp add: slice_def)
  have fits: "(y + r) * stride + 4 * x + n \<le> length pixels"
    using row_fits[OF _ assms(1), of "y + r" rows] Cons.prems(1,3) by simp
  then obtain px1 where px1: "write_slice ((y + r) * stride + 4 * x) ?s pixels = Some px1"
    using slice_length[OF s] by (simp add: write_slice_def)
  note w = write_slice_nth(1)[OF px1]
  from Cons.IH[of px1] Cons.prems w obtain px where px:
    "run_ops (overwrite_row stride x y n rgba) rs px1 = Some px" "length px = length pixels"
    "\<forall>row< rows. \<forall>col< stride. byte_at stride px row col =
      (if (\<exists>r\<in>set rs. row = y + r) \<and> 4 * x \<le> col \<and> col < 4 * x + n
       then rgba ! ((row - y) * n + (col - 4 * x)) else byte_at stride px1 row col)" by auto
  have one: "overwrite_row stride x y n rgba r pixels = Some px1"
    using s px1 by (simp add: overwrite_row_def mult.commute)
  have "byte_at stride px1 row col = (if row = y + r \<and> 4 * x \<le> col \<and> col < 4 * x + n
      then rgba ! ((row - y) * n + (col - 4 * x)) else byte_at stride pixels row col)"
    if "row < rows" "col < stride" for row col
    using write_row[OF px1 _ Cons.prems(3) that] slice_length[OF s] assms(1) Cons.prems(1)
    by (auto simp: min_def)
  with px one show ?case by auto
qed

text \<open>
  Rows are copied so that none is overwritten before it is read: downwards from the last row, upwards
  from the first. Within one row the slice is read before it is written.
\<close>

lemma copy_rows:
  assumes "4 * dx + n \<le> stride" and "4 * sx + n \<le> stride"
    and "\<forall>r\<in>set rs. dy + r < rows \<and> sy + r < rows"
    and "distinct rs" and "sorted_wrt (\<lambda>r r'. dy + r \<noteq> sy + r') rs" and "length pixels = rows * stride"
  shows "\<exists>px. run_ops (copy_row stride (dx, dy) (sx, sy) n) rs pixels = Some px \<and> length px = length pixels \<and>
    (\<forall>row < rows. \<forall>col < stride. byte_at stride px row col =
      (if (\<exists>r\<in>set rs. row = dy + r) \<and> 4 * dx \<le> col \<and> col < 4 * dx + n
       then byte_at stride pixels (row - dy + sy) (col - 4 * dx + 4 * sx) else byte_at stride pixels row col))"
  using assms(3-6)
proof (induction rs arbitrary: pixels)
  case Nil
  then show ?case by simp
next
  case (Cons r rs)
  have "(sy + r) * stride + 4 * sx + n \<le> length pixels"
    using row_fits[OF _ assms(2), of "sy + r" rows] Cons.prems(1,4) by simp
  then obtain s where s: "slice ((sy + r) * stride + 4 * sx) n pixels = Some s"
    by (simp add: slice_def)
  have "(dy + r) * stride + 4 * dx + n \<le> length pixels"
    using row_fits[OF _ assms(1), of "dy + r" rows] Cons.prems(1,4) by simp
  then obtain px1 where px1: "write_slice ((dy + r) * stride + 4 * dx) s pixels = Some px1"
    using slice_length[OF s] by (simp add: write_slice_def)
  have one: "copy_row stride (dx, dy) (sx, sy) n r pixels = Some px1"
    using s px1 by (simp add: copy_row_def mult.commute)
  from Cons.IH[of px1] Cons.prems write_slice_nth(1)[OF px1] obtain px where px:
    "run_ops (copy_row stride (dx, dy) (sx, sy) n) rs px1 = Some px" "length px = length pixels"
    "\<forall>row < rows. \<forall>col < stride. byte_at stride px row col =
      (if (\<exists>r\<in>set rs. row = dy + r) \<and> 4 * dx \<le> col \<and> col < 4 * dx + n
       then byte_at stride px1 (row - dy + sy) (col - 4 * dx + 4 * sx) else byte_at stride px1 row col)" by auto
  have first: "byte_at stride px1 row col = (if row = dy + r \<and> 4 * dx \<le> col \<and> col < 4 * dx + n
      then byte_at stride pixels (row - dy + sy) (col - 4 * dx + 4 * sx) else byte_at stride pixels row col)"
    if "row < rows" "col < stride" for row col
    using write_row[OF px1 _ Cons.prems(4) that] slice_length[OF s] slice_nth[OF s] assms(1)
    by (auto simp: byte_at_def algebra_simps)
  have later: "byte_at stride px1 (row - dy + sy) (col - 4 * dx + 4 * sx) =
      byte_at stride pixels (row - dy + sy) (col - 4 * dx + 4 * sx)"
    if "r' \<in> set rs" "row = dy + r'" "4 * dx \<le> col" "col < 4 * dx + n" for r' row col
  proof -
    have r': "sy + r' < rows" "row - dy + sy = sy + r'" "col - 4 * dx + 4 * sx < stride" "sy + r' \<noteq> dy + r"
      using that assms(2) Cons.prems(1,3) by auto
    show ?thesis unfolding r'(2) using first[OF r'(1,3)] r'(4) by simp
  qed
  have "byte_at stride px row col =
      (if (\<exists>r'\<in>set (r # rs). row = dy + r') \<and> 4 * dx \<le> col \<and> col < 4 * dx + n
       then byte_at stride pixels (row - dy + sy) (col - 4 * dx + 4 * sx) else byte_at stride pixels row col)"
    if rc: "row < rows" "col < stride" for row col
  proof (cases "(\<exists>r'\<in>set rs. row = dy + r') \<and> 4 * dx \<le> col \<and> col < 4 * dx + n")
    case True
    with px(3) rc later show ?thesis by auto
  next
    case False
    then have "byte_at stride px row col = byte_at stride px1 row col" using px(3) rc by auto
    with first[OF rc] False show ?thesis by auto
  qed
  with one px(1,2) show ?case by simp
qed

text \<open>The frame parser's check of an operation: inside the image, payload of its size.\<close>

fun operation_fits :: "nat \<Rightarrow> nat \<Rightarrow> raster_operation \<Rightarrow> bool" where
  "operation_fits w h (Overwrite x y width height rgba) \<longleftrightarrow>
     x + width \<le> w \<and> y + height \<le> h \<and> length rgba = 4 * width * height"
| "operation_fits w h (CopyRect dx dy width height sx sy) \<longleftrightarrow>
     dx + width \<le> w \<and> dy + height \<le> h \<and> sx + width \<le> w \<and> sy + height \<le> h"

text \<open>The colour of a pixel, and what an operation is to do to it.\<close>

definition pixel :: "nat \<Rightarrow> bytes \<Rightarrow> nat \<Rightarrow> nat \<Rightarrow> bytes" where
  "pixel w pixels px py = map (\<lambda>c. byte_at (4 * w) pixels py (4 * px + c)) [0..<4]"

fun operation_pixel :: "nat \<Rightarrow> raster_operation \<Rightarrow> bytes \<Rightarrow> nat \<Rightarrow> nat \<Rightarrow> bytes" where
  "operation_pixel w (Overwrite x y width height rgba) pixels px py =
     (if x \<le> px \<and> px < x + width \<and> y \<le> py \<and> py < y + height
      then pixel width rgba (px - x) (py - y) else pixel w pixels px py)"
| "operation_pixel w (CopyRect dx dy width height sx sy) pixels px py =
     (if dx \<le> px \<and> px < dx + width \<and> dy \<le> py \<and> py < dy + height
      then pixel w pixels (px - dx + sx) (py - dy + sy) else pixel w pixels px py)"

lemma row_range: "(\<exists>r\<in>set [0..<n]. row = (y::nat) + r) \<longleftrightarrow> y \<le> row \<and> row < y + n"
  by (auto intro!: bexI[of _ "row - y"])

lemma pixel_columns:
  fixes c :: nat
  assumes "c < 4"
  shows "4 * x \<le> 4 * px + c \<and> 4 * px + c < 4 * x + 4 * width \<longleftrightarrow> x \<le> px \<and> px < x + width"
    and "x \<le> px \<Longrightarrow> 4 * px + c - 4 * x = 4 * (px - x) + c"
  using assms by auto

lemma pixelI:
  assumes "\<And>c. c < 4 \<Longrightarrow> byte_at (4 * w) out py (4 * px + c) = byte_at (4 * v) pixels qy (4 * qx + c)"
  shows "pixel w out px py = pixel v pixels qx qy"
  using assms by (auto simp: pixel_def)

lemma overwrite_exact:
  assumes "length pixels = 4 * w * h" and fits: "operation_fits w h (Overwrite x y width height rgba)"
  shows "\<exists>out. apply_raster_delta_operation w (Overwrite x y width height rgba) pixels = Some out \<and>
    length out = length pixels \<and>
    (\<forall>px < w. \<forall>py < h. pixel w out px py = operation_pixel w (Overwrite x y width height rgba) pixels px py)"
proof -
  have "(r + 1) * (4 * width) \<le> length rgba" if "r < height" for r
    using mult_le_mono1[of "r + 1" height "4 * width"] that fits by (simp add: mult.commute)
  then have "4 * x + 4 * width \<le> 4 * w" "length pixels = h * (4 * w)"
    "\<forall>r\<in>set [0..<height]. y + r < h \<and> (r + 1) * (4 * width) \<le> length rgba"
    using assms by auto
  from overwrite_rows[OF this(1,3) _ this(2)] obtain out where out:
    "run_ops (overwrite_row (4 * w) x y (4 * width) rgba) [0..<height] pixels = Some out"
    "length out = length pixels"
    "\<forall>row < h. \<forall>col < 4 * w. byte_at (4 * w) out row col =
      (if (\<exists>r\<in>set [0..<height]. row = y + r) \<and> 4 * x \<le> col \<and> col < 4 * x + 4 * width
       then rgba ! ((row - y) * (4 * width) + (col - 4 * x)) else byte_at (4 * w) pixels row col)" by auto
  have "pixel w out px py = operation_pixel w (Overwrite x y width height rgba) pixels px py" if p: "px < w" "py < h" for px py
  proof -
    have b: "byte_at (4 * w) out py (4 * px + c) = (if x \<le> px \<and> px < x + width \<and> y \<le> py \<and> py < y + height
        then byte_at (4 * width) rgba (py - y) (4 * (px - x) + c) else byte_at (4 * w) pixels py (4 * px + c))"
      if "c < 4" for c
      using out(3)[unfolded row_range, rule_format, OF p(2), of "4 * px + c"] p(1) that
        pixel_columns(1)[OF that, of x px width] pixel_columns(2)[OF that, of x px]
      by (auto simp: byte_at_def[of "4 * width"])
    then show ?thesis by (auto intro!: pixelI)
  qed
  with out show ?thesis by (auto simp: mult.commute)
qed

lemma copy_exact:
  assumes "length pixels = 4 * w * h" and fits: "operation_fits w h (CopyRect dx dy width height sx sy)"
  shows "\<exists>out. apply_raster_delta_operation w (CopyRect dx dy width height sx sy) pixels = Some out \<and>
    length out = length pixels \<and>
    (\<forall>px < w. \<forall>py < h. pixel w out px py = operation_pixel w (CopyRect dx dy width height sx sy) pixels px py)"
proof -
  define rs where "rs = (if sy < dy then rev [0..<height] else [0..<height])"
  have range: "set rs = set [0..<height]" by (simp add: rs_def)
  have "sorted_wrt (\<lambda>r r'. dy + r \<noteq> sy + r') rs"
    by (auto simp: rs_def sorted_wrt_rev intro: sorted_wrt_mono_rel[OF _ sorted_wrt_upt])
  moreover have "4 * dx + 4 * width \<le> 4 * w" "4 * sx + 4 * width \<le> 4 * w" "length pixels = h * (4 * w)"
    "\<forall>r\<in>set rs. dy + r < h \<and> sy + r < h" "distinct rs"
    using assms by (auto simp: rs_def)
  ultimately obtain out where out: "run_ops (copy_row (4 * w) (dx, dy) (sx, sy) (4 * width)) rs pixels = Some out"
    "length out = length pixels"
    "\<forall>row < h. \<forall>col < 4 * w. byte_at (4 * w) out row col =
      (if (\<exists>r\<in>set rs. row = dy + r) \<and> 4 * dx \<le> col \<and> col < 4 * dx + 4 * width
       then byte_at (4 * w) pixels (row - dy + sy) (col - 4 * dx + 4 * sx) else byte_at (4 * w) pixels row col)"
    using copy_rows[of dx "4 * width" "4 * w" sx rs dy h sy pixels] by auto
  have "pixel w out px py = operation_pixel w (CopyRect dx dy width height sx sy) pixels px py" if p: "px < w" "py < h" for px py
  proof -
    have "byte_at (4 * w) out py (4 * px + c) = (if dx \<le> px \<and> px < dx + width \<and> dy \<le> py \<and> py < dy + height
        then byte_at (4 * w) pixels (py - dy + sy) (4 * (px - dx + sx) + c)
        else byte_at (4 * w) pixels py (4 * px + c))" if "c < 4" for c
      using out(3)[unfolded range row_range, rule_format, OF p(2), of "4 * px + c"] p(1) that
        pixel_columns(1)[OF that, of dx px width] pixel_columns(2)[OF that, of dx px]
      by (auto simp: algebra_simps)
    then show ?thesis by (auto intro!: pixelI)
  qed
  with out show ?thesis by (auto simp: mult.commute rs_def)
qed

text \<open>
  C10. A raster delta operation does exactly what it says. On an image of the declared size, an
  operation that the frame parser accepts never indexes out of range, keeps the size, and sets every
  pixel of its destination rectangle to the payload's pixel or to the pixel the source rectangle had
  before the operation (also when the two rectangles overlap, in any direction), and leaves every
  other pixel as it was.
\<close>

theorem raster_operation_exact:
  assumes "length pixels = 4 * w * h" and "operation_fits w h op"
  shows "\<exists>out. apply_raster_delta_operation w op pixels = Some out \<and> length out = length pixels \<and>
    (\<forall>px < w. \<forall>py < h. pixel w out px py = operation_pixel w op pixels px py)"
  using assms overwrite_exact[OF assms(1)] copy_exact[OF assms(1)] by (cases op) blast+

text \<open>A copy one pixel to the right over itself.\<close>

theorem raster_operation_exact_witness:
  "\<exists>out. apply_raster_delta_operation 3 (CopyRect 1 0 2 1 0 0) [1, 1, 1, 1, 2, 2, 2, 2, 3, 3, 3, 3] = Some out \<and>
     pixel 3 out 0 0 = [1, 1, 1, 1] \<and> pixel 3 out 1 0 = [1, 1, 1, 1] \<and> pixel 3 out 2 0 = [2, 2, 2, 2]"
proof -
  let ?image = "[1, 1, 1, 1, 2, 2, 2, 2, 3, 3, 3, 3] :: bytes"
  have "length ?image = 4 * 3 * 1" "operation_fits 3 1 (CopyRect 1 0 2 1 0 0)" by simp_all
  from raster_operation_exact[OF this] obtain out where
    "apply_raster_delta_operation 3 (CopyRect 1 0 2 1 0 0) ?image = Some out"
    "\<forall>px < 3. \<forall>py < 1. pixel 3 out px py = operation_pixel 3 (CopyRect 1 0 2 1 0 0) ?image px py" by blast
  then show ?thesis by (intro exI[of _ out]) (simp add: pixel_def[of 3 ?image] byte_at_def upt_rec)
qed

end
