(* ===== verification/Media_Damage.thy ===== *)
theory Media_Damage
  imports Media_Raster
begin

text \<open>
  The damage of a delta frame is the area of the union of its rectangles: the sweep over bands of
  rows, with the intervals of a band sorted and merged, counts every pixel of the union once.
\<close>

section \<open>Merging intervals\<close>

definition widths :: "(nat \<times> nat) list \<Rightarrow> nat" where
  "widths ivs = sum_list (map (\<lambda>(l, r). r - l) ivs)"

definition interval_union :: "(nat \<times> nat) list \<Rightarrow> nat set" where
  "interval_union ivs = (\<Union>(l, r)\<in>set ivs. {l..<r})"

definition merged_ok :: "nat set \<Rightarrow> (nat \<times> nat) list \<Rightarrow> bool" where
  "merged_ok S merged \<longleftrightarrow> finite S \<and> card S = widths merged \<and>
     (if merged = [] then S = {}
      else fst (last merged) \<le> snd (last merged) \<and> {fst (last merged)..<snd (last merged)} \<subseteq> S \<and>
        (\<forall>p\<in>S. p < snd (last merged)))"

lemma widths_simps [simp]: "widths [] = 0" "widths (xs @ ys) = widths xs + widths ys"
  "widths [(l, r)] = r - l"
  by (simp_all add: widths_def)

lemma merge_interval_ok:
  assumes "merged_ok S merged" and "l \<le> r" and "merged \<noteq> [] \<Longrightarrow> fst (last merged) \<le> l"
  shows "merged_ok (S \<union> {l..<r}) (merge_interval (l, r) merged)"
    and "merge_interval (l, r) merged \<noteq> []" and "fst (last (merge_interval (l, r) merged)) \<le> l"
proof -
  have "merged_ok (S \<union> {l..<r}) (merge_interval (l, r) merged) \<and> merge_interval (l, r) merged \<noteq> [] \<and>
    fst (last (merge_interval (l, r) merged)) \<le> l"
  proof (cases "merged \<noteq> [] \<and> l \<le> snd (last merged)")
    case True
    obtain init a b where m: "merged = init @ [(a, b)]" using True by (metis append_butlast_last_id prod.collapse)
    have ok: "finite S" "card S = widths init + (b - a)" "a \<le> b" "{a..<b} \<subseteq> S" "\<forall>p\<in>S. p < b" "a \<le> l" "l \<le> b"
      using assms(1,3) True by (auto simp: merged_ok_def m)
    then have "S \<union> {l..<r} = S \<union> {b..<max b r}" by auto
    moreover have "card (S \<union> {b..<max b r}) = card S + (max b r - b)"
      using ok(1,5) by (subst card_Un_disjoint) auto
    ultimately show ?thesis using ok by (auto simp: merge_interval_def merged_ok_def m)
  next
    case False
    then have "\<forall>p\<in>S. p < l" using assms(1) by (auto simp: merged_ok_def split: if_splits)
    then have "card (S \<union> {l..<r}) = card S + (r - l)"
      using assms(1) by (subst card_Un_disjoint) (auto simp: merged_ok_def)
    with False \<open>\<forall>p\<in>S. p < l\<close> assms(1,2) show ?thesis
      by (auto simp: merge_interval_def merged_ok_def)
  qed
  then show "merged_ok (S \<union> {l..<r}) (merge_interval (l, r) merged)"
    "merge_interval (l, r) merged \<noteq> []" "fst (last (merge_interval (l, r) merged)) \<le> l" by blast+
qed

lemma merge_intervals_ok:
  "sorted (map fst ivs) \<Longrightarrow> \<forall>(l, r)\<in>set ivs. l \<le> r \<Longrightarrow> merged_ok S merged \<Longrightarrow>
     (merged \<noteq> [] \<Longrightarrow> \<forall>iv\<in>set ivs. fst (last merged) \<le> fst iv) \<Longrightarrow>
     merged_ok (S \<union> interval_union ivs) (fold merge_interval ivs merged)"
proof (induction ivs arbitrary: S merged)
  case (Cons iv ivs)
  obtain l r where iv: "iv = (l, r)" by fastforce
  have pre: "l \<le> r" "merged \<noteq> [] \<Longrightarrow> fst (last merged) \<le> l" using Cons.prems(2,4) iv by auto
  note m = merge_interval_ok[OF Cons.prems(3) pre]
  have "\<forall>iv\<in>set ivs. fst (last (merge_interval (l, r) merged)) \<le> fst iv"
    using Cons.prems(1) m(3) iv by fastforce
  with Cons.IH[OF _ _ m(1)] Cons.prems(1,2) show ?case
    by (auto simp: iv interval_union_def Un_assoc)
qed (simp add: interval_union_def)

lemma merged_widths:
  assumes "sorted ivs" and "\<forall>(l, r)\<in>set ivs. l \<le> r"
  shows "widths (fold merge_interval ivs []) = card (interval_union ivs)"
proof -
  have "sorted (map fst ivs)"
    using assms(1) by (induction ivs) (auto simp: less_eq_prod_def)
  from merge_intervals_ok[OF this assms(2), of "{}" "[]"] show ?thesis by (simp add: merged_ok_def)
qed

lemma sum_widths_eq:
  "acc + widths ivs \<le> 18446744073709551615 \<Longrightarrow> sum_widths acc ivs = Some (acc + widths ivs)"
  by (induction acc ivs rule: sum_widths.induct) (auto simp: widths_def checked_u64_def)

section \<open>The sweep\<close>

definition in_rect :: "nat \<Rightarrow> nat \<Rightarrow> damage_rect \<Rightarrow> bool" where
  "in_rect px py r = (case r of (x, y, w, h) \<Rightarrow> x \<le> px \<and> px < x + w \<and> y \<le> py \<and> py < y + h)"

definition row_of :: "damage_rect list \<Rightarrow> nat \<Rightarrow> nat set" where
  "row_of rs py = {px. \<exists>r\<in>set rs. in_rect px py r}"

definition damaged :: "damage_rect list \<Rightarrow> (nat \<times> nat) set" where
  "damaged rs = {(px, py). \<exists>r\<in>set rs. in_rect px py r}"

text \<open>Inside an image: no coordinate wraps.\<close>

definition within_image :: "nat \<Rightarrow> nat \<Rightarrow> damage_rect list \<Rightarrow> bool" where
  "within_image w h rs \<longleftrightarrow> w < 4294967296 \<and> h < 4294967296 \<and>
     (\<forall>(x, y, rw, rh)\<in>set rs. x + rw \<le> w \<and> y + rh \<le> h)"

lemma rect_edges:
  "(x, y, rw, rh) \<in> set rs \<Longrightarrow> y \<in> set (y_edges rs)"
  "(x, y, rw, rh) \<in> set rs \<Longrightarrow> wrap32 (y + rh) \<in> set (y_edges rs)"
  unfolding y_edges_def remdups_adj_set set_sort set_concat set_map by force+

lemma band_row:
  assumes "within_image w h rs" and "a \<le> py" and "py < b"
    and "\<forall>e\<in>set (y_edges rs). e \<le> a \<or> b \<le> e"
  shows "interval_union (band_intervals rs a b) = row_of rs py"
    and "\<forall>(l, r)\<in>set (band_intervals rs a b). l \<le> r" and "sorted (band_intervals rs a b)"
proof -
  have wr: "wrap32 (x + rw) = x + rw" "wrap32 (y + rh) = y + rh" if "(x, y, rw, rh) \<in> set rs" for x y rw rh
    using assms(1) that by (auto simp: within_image_def wrap32_def)
  have "px \<in> interval_union (band_intervals rs a b) \<longleftrightarrow>
      (\<exists>(x, y, rw, rh)\<in>set rs. y \<le> a \<and> b \<le> y + rh \<and> x \<le> px \<and> px < x + rw)" for px
    using wr by (fastforce simp: interval_union_def band_intervals_def)
  moreover have "y \<le> a \<and> b \<le> y + rh \<longleftrightarrow> y \<le> py \<and> py < y + rh" if "(x, y, rw, rh) \<in> set rs" for x y rw rh
    using rect_edges[OF that] wr[OF that] assms(2-4) by fastforce
  ultimately show "interval_union (band_intervals rs a b) = row_of rs py"
    by (fastforce simp: row_of_def in_rect_def)
  show "\<forall>(l, r)\<in>set (band_intervals rs a b). l \<le> r" using wr by (auto simp: band_intervals_def)
  show "sorted (band_intervals rs a b)" by (simp add: band_intervals_def)
qed

lemma row_of_bounded:
  assumes "within_image w h rs"
  shows "row_of rs py \<subseteq> {..<w}" and "h \<le> py \<Longrightarrow> row_of rs py = {}"
proof -
  have *: "px < w \<and> py < h" if "r \<in> set rs" "in_rect px py r" for px r
  proof -
    obtain x y rw rh where r: "r = (x, y, rw, rh)" by (cases r)
    with assms that(1) have "x + rw \<le> w" "y + rh \<le> h" by (auto simp: within_image_def)
    with that(2) r show ?thesis by (simp add: in_rect_def)
  qed
  show "row_of rs py \<subseteq> {..<w}" unfolding row_of_def using * by blast
  show "row_of rs py = {}" if "h \<le> py"
  proof (rule equals0I)
    fix px assume "px \<in> row_of rs py"
    then obtain r where "r \<in> set rs" "in_rect px py r" by (auto simp: row_of_def)
    from *[OF this] that show False by simp
  qed
qed

lemma band_sum:
  assumes "within_image w h rs" and "a < b" and "\<forall>e\<in>set (y_edges rs). e \<le> a \<or> b \<le> e"
  shows "sum_widths 0 (fold merge_interval (band_intervals rs a b) []) = Some (card (row_of rs a))"
    and "(\<Sum>py = a..<b. card (row_of rs py)) = card (row_of rs a) * (b - a)"
proof -
  have row: "row_of rs py = row_of rs a" if "a \<le> py" "py < b" for py
    using band_row(1)[OF assms(1) that assms(3)] band_row(1)[OF assms(1) order_refl assms(2,3)] by simp
  have "(\<Sum>py = a..<b. card (row_of rs py)) = (\<Sum>py = a..<b. card (row_of rs a))"
    by (intro sum.cong refl arg_cong[of _ _ card] row) auto
  then show "(\<Sum>py = a..<b. card (row_of rs py)) = card (row_of rs a) * (b - a)" by simp
  note band = band_row[OF assms(1) order_refl assms(2,3)]
  have "card (row_of rs a) \<le> w"
    using card_mono[OF _ row_of_bounded(1)[OF assms(1), of a]] by simp
  then have "widths (fold merge_interval (band_intervals rs a b) []) \<le> 18446744073709551615"
    using assms(1) by (simp add: merged_widths[OF band(3,2)] band(1) within_image_def)
  then show "sum_widths 0 (fold merge_interval (band_intervals rs a b) []) = Some (card (row_of rs a))"
    using sum_widths_eq[of 0] by (simp add: merged_widths[OF band(3,2)] band(1))
qed

lemma count_bands_sweep:
  "within_image w h rs \<Longrightarrow> es \<noteq> [] \<Longrightarrow> sorted_wrt (<) es \<Longrightarrow> \<forall>e\<in>set (y_edges rs). e \<in> set es \<or> e < hd es \<Longrightarrow>
    pixels + (\<Sum>py = hd es..<last es. card (row_of rs py)) \<le> 18446744073709551615 \<Longrightarrow>
    count_bands rs es pixels = Some (pixels + (\<Sum>py = hd es..<last es. card (row_of rs py)))"
proof (induction rs es pixels rule: count_bands.induct)
  case (1 rs a b es pixels)
  note ok = 1(2)
  have ab: "a < b" "b \<le> last (b # es)" using 1(4) last_in_set[of es] by (auto simp: less_imp_le)
  have gap: "\<forall>e\<in>set (y_edges rs). e \<le> a \<or> b \<le> e" using 1(4,5) by fastforce
  have split: "(\<Sum>py = a..<last (b # es). card (row_of rs py)) =
      card (row_of rs a) * (b - a) + (\<Sum>py = b..<last (b # es). card (row_of rs py))"
    using sum.atLeastLessThan_concat[of a b "last (b # es)" "\<lambda>py. card (row_of rs py)"] ab
      band_sum(2)[OF ok ab(1) gap] by simp
  let ?rest = "\<Sum>py = hd (b # es)..<last (b # es). card (row_of rs py)"
  have total: "pixels + (card (row_of rs a) * (b - a) + ?rest) \<le> 18446744073709551615"
    using 1(6) split by simp
  have "count_bands rs (b # es) (pixels + card (row_of rs a) * (b - a)) =
      Some (pixels + card (row_of rs a) * (b - a) + ?rest)"
  proof (rule 1(1)[OF band_sum(1)[OF ok ab(1) gap] _ _ ok])
    show "checked_u64 (card (row_of rs a) * (b - a)) = Some (card (row_of rs a) * (b - a))"
      "checked_u64 (pixels + card (row_of rs a) * (b - a)) = Some (pixels + card (row_of rs a) * (b - a))"
      using total by (simp_all add: checked_u64_def)
    show "sorted_wrt (<) (b # es)" using 1(4) by simp
    show "\<forall>e\<in>set (y_edges rs). e \<in> set (b # es) \<or> e < hd (b # es)" using 1(5) ab(1) by fastforce
  qed (use total in simp_all)
  with total split show ?case
    by (simp add: band_sum(1)[OF ok ab(1) gap] checked_u64_def)
qed simp_all

lemma damaged_rows:
  assumes "within_image w h rs"
  shows "card (damaged rs) = (\<Sum>py = 0..<h. card (row_of rs py))"
proof -
  have "damaged rs = prod.swap ` (SIGMA py:{0..<h}. row_of rs py)"
    using row_of_bounded(2)[OF assms] by (force simp: damaged_def row_of_def image_iff not_le[symmetric])
  then have "card (damaged rs) = card (SIGMA py:{0..<h}. row_of rs py)"
    by (simp add: card_image inj_on_def)
  also have "\<dots> = (\<Sum>py = 0..<h. card (row_of rs py))"
    using row_of_bounded(1)[OF assms] by (intro card_SigmaI) (auto intro: finite_subset)
  finally show ?thesis .
qed

lemma remdups_adj_strict: "sorted (xs :: nat list) \<Longrightarrow> sorted_wrt (<) (remdups_adj xs)"
  by (induction xs rule: remdups_adj.induct) (auto simp: order_less_le)

lemma y_edges_sorted: "sorted_wrt (<) (y_edges rs)"
  by (simp add: y_edges_def remdups_adj_strict)

lemma row_outside_edges:
  assumes "within_image w h rs" and "row_of rs py \<noteq> {}"
  shows "y_edges rs \<noteq> [] \<and> hd (y_edges rs) \<le> py \<and> py < last (y_edges rs)"
proof -
  let ?es = "y_edges rs"
  obtain px x y rw rh where r: "(x, y, rw, rh) \<in> set rs" "y \<le> py" "py < y + rh"
    using assms(2) by (fastforce simp: row_of_def in_rect_def)
  have "wrap32 (y + rh) = y + rh" using assms(1) r(1) by (auto simp: within_image_def wrap32_def)
  then have e: "y \<in> set ?es" "y + rh \<in> set ?es"
    using rect_edges[OF r(1)] by simp_all
  have s: "sorted ?es" using y_edges_sorted[of rs] by (simp add: strict_sorted_imp_sorted)
  have "?es \<noteq> []" using e(1) by auto
  moreover from e(1) s have "hd ?es \<le> y" by (cases ?es) auto
  moreover from e(2) s have "y + rh \<le> last ?es"
    by (cases ?es rule: rev_cases) (auto simp: sorted_append)
  ultimately show ?thesis using r(2,3) by simp
qed

lemma last_edge_inside:
  assumes "within_image w h rs" and "y_edges rs \<noteq> []"
  shows "last (y_edges rs) \<le> h"
proof -
  have "last (y_edges rs) \<in> set (y_edges rs)" using assms(2) by simp
  then obtain x y rw rh where "(x, y, rw, rh) \<in> set rs" "last (y_edges rs) \<in> {y, wrap32 (y + rh)}"
    unfolding y_edges_def remdups_adj_set set_sort set_concat set_map by auto
  with assms(1) show ?thesis by (auto simp: within_image_def wrap32_def)
qed

text \<open>
  C21. The damage charged for a raster delta is the area it touches. For operations inside an image
  of 32-bit size, counting never overflows, and the count is the number of pixels in the union of
  the operations' destination rectangles: overlapping operations are charged once.
\<close>

theorem raster_damage_exact:
  assumes "within_image w h (map operation_rect ops)"
  shows "raster_damage_pixels ops = Some (card (damaged (map operation_rect ops)))"
proof -
  let ?rs = "map operation_rect ops" and ?es = "y_edges (map operation_rect ops)"
  let ?f = "\<lambda>py. card (row_of ?rs py)"
  have "?f py \<le> w" for py
    using card_mono[OF _ row_of_bounded(1)[OF assms, of py]] by simp
  then have "(\<Sum>py = 0..<h. ?f py) \<le> h * w"
    using sum_bounded_above[of "{0..<h}" ?f w] by simp
  also have "h * w \<le> 4294967295 * 4294967295"
    using assms by (intro mult_le_mono) (auto simp: within_image_def)
  finally have bound: "card (damaged ?rs) \<le> 18446744073709551615"
    by (simp add: damaged_rows[OF assms])
  show ?thesis
  proof (cases "?es = []")
    case True
    then have "?f py = 0" for py using row_outside_edges[OF assms, of py]
      by (cases "row_of ?rs py = {}") auto
    with True show ?thesis by (simp add: raster_damage_pixels_def damaged_rows[OF assms])
  next
    case False
    have "?f py = 0" if "py \<in> {0..<h} - {hd ?es..<last ?es}" for py
      using row_outside_edges[OF assms, of py] that
      by (cases "row_of ?rs py = {}") auto
    then have "card (damaged ?rs) = (\<Sum>py = hd ?es..<last ?es. ?f py)"
      unfolding damaged_rows[OF assms] using last_edge_inside[OF assms False]
      by (intro sum.mono_neutral_right) auto
    with count_bands_sweep[OF assms False y_edges_sorted, of 0] bound show ?thesis
      by (simp add: raster_damage_pixels_def Let_def)
  qed
qed

theorem raster_damage_exact_witness:
  "raster_damage_pixels [CopyRect 0 0 2 2 0 0, CopyRect 1 1 2 2 0 0] =
     Some (card (damaged [(0, 0, 2, 2), (1, 1, 2, 2)]))"
proof -
  let ?ops = "[CopyRect 0 0 2 2 0 0, CopyRect 1 1 2 2 0 0]"
  have "within_image 3 3 (map operation_rect ?ops)" by (simp add: within_image_def)
  from raster_damage_exact[OF this] show ?thesis by simp
qed

end
