(* ===== verification/Media_Scene.thy ===== *)
theory Media_Scene
  imports Session_Tabs
begin

text \<open>
  The scene nodes of the virtual media service (\<open>src/src/media.rs\<close>) and their resolution for a
  projection: which nodes of the shown panes have a place, and where. A node is at a fixed place in
  its pane or is placed by an anchor, a marker in the pane's text that scrolls with it.
\<close>

type_synonym source_key = "nat \<times> nat"
type_synonym node_key = "nat \<times> nat"

text \<open>\<open>SceneNode\<close> with the fields of its \<open>ParsedSceneNode\<close>; a clip is its four numbers.\<close>

record scene_node =
  sn_producer :: nat
  sn_pane :: pane_id
  sn_node :: nat
  sn_source :: nat
  sn_x :: int
  sn_y :: int
  sn_width :: int
  sn_height :: int
  sn_z :: int
  sn_visible :: bool
  sn_clip :: "(int \<times> int \<times> int \<times> int) option"
  sn_anchor :: "nat option"
  sn_retained :: "(int \<times> nat) option"

definition node_key :: "scene_node \<Rightarrow> node_key" where
  "node_key n = (sn_producer n, sn_node n)"

definition node_source :: "scene_node \<Rightarrow> source_key" where
  "node_source n = (sn_producer n, sn_source n)"

text \<open>\<open>(column as i64) << 32\<close>: both steps drop the bits that do not fit.\<close>

definition wrap_i64 :: "int \<Rightarrow> int" where
  "wrap_i64 v = (v + 2 ^ 63) mod 2 ^ 64 - 2 ^ 63"

definition usize_i64 :: "nat \<Rightarrow> int option" where
  "usize_i64 n = checked64 (int n)"

definition move_clip ::
    "int \<Rightarrow> int \<Rightarrow> int \<times> int \<times> int \<times> int \<Rightarrow> (int \<times> int \<times> int \<times> int) option" where
  "move_clip dx dy c =
     (case c of (cx, cy, w, h) \<Rightarrow>
        do { x' \<leftarrow> checked64 (cx + dx); y' \<leftarrow> checked64 (cy + dy); Some (x', y', w, h) })"

text \<open>\<open>None\<close>: the node is left out of the snapshot.\<close>

definition resolve_node ::
    "(nat \<Rightarrow> nat \<Rightarrow> (int \<times> nat) option) \<Rightarrow> (pane_id \<Rightarrow> nat) \<Rightarrow> scene_node \<Rightarrow> scene_node option" where
  "resolve_node anchors offsets n =
     (case sn_anchor n of
        None \<Rightarrow> Some n
      | Some a \<Rightarrow> do {
          (line, column) \<leftarrow> or_else (anchors (sn_producer n) a) (sn_retained n);
          let dx = wrap_i64 (wrap_i64 (int column) * 2 ^ 32);
          viewport \<leftarrow> usize_i64 (offsets (sn_pane n));
          moved \<leftarrow> checked64 (line + viewport);
          dy \<leftarrow> checked64 (moved * 2 ^ 32);
          x' \<leftarrow> checked64 (sn_x n + dx);
          y' \<leftarrow> checked64 (sn_y n + dy);
          clip \<leftarrow> (case sn_clip n of None \<Rightarrow> Some None
                   | Some c \<Rightarrow> map_option Some (move_clip dx dy c));
          Some (n\<lparr>sn_x := x', sn_y := y', sn_clip := clip, sn_anchor := None\<rparr>) })"

definition resolve_nodes ::
    "(nat \<Rightarrow> nat \<Rightarrow> (int \<times> nat) option) \<Rightarrow> pane_id set \<Rightarrow> (pane_id \<Rightarrow> nat) \<Rightarrow>
     scene_node list \<Rightarrow> scene_node list" where
  "resolve_nodes anchors shown offsets nodes =
     List.map_filter (resolve_node anchors offsets) (filter (\<lambda>n. sn_pane n \<in> shown) nodes)"

section \<open>The snapshot handed to the session\<close>

text \<open>
  \<open>'d\<close> is what only travels with a source: its configuration, play request and labels.
\<close>

datatype source_kind = Raster | Image | Video | Audio "nat option"

record 'd snapshot_source =
  ss_key :: source_key
  ss_kind :: source_kind
  ss_retained :: "bytes option"
  ss_playing :: bool
  ss_eos_epoch :: "nat option"
  ss_rest :: 'd

record 'd projection_snapshot =
  snap_revision :: nat
  snap_sources :: "'d snapshot_source list"
  snap_nodes :: "scene_node list"
  snap_live_nodes :: "node_key list"
  snap_videos :: "source_key list"

end
