(* ===== verification/Media_State.thy ===== *)
theory Media_State
  imports Media_Scene "HOL-Library.AList"
begin

text \<open>
  The state of the virtual media service (\<open>State\<close> in \<open>src/src/media.rs\<close>): the producers connected
  to the panes, their sources and scene nodes, open transactions and the deliveries on their way to
  the client. A hash map is an association list in no particular order. What is written to the
  producers and to the session is the list \<open>ms_out\<close>. The clocks of playback, the media tickets, the
  pane capabilities and the metrics are left out. Revisions, packet sequences and the parsers of
  the protocol crate are the record \<open>media_env\<close>.
\<close>

section \<open>Sources and producers\<close>

datatype attachment = NeverAttached | MediaIsAttached | MediaIsClosed

datatype milestone =
    FirstMediaRecord | DecoderInitialized | FirstDecodedOutput | FirstVisiblePresentation
  | RandomAccessAccepted | PlaybackStarted | PlaybackEnded | EosAccepted | MediaWasAttached | SourceLost

datatype capture_denial = DenyPosterRetention | DenySemanticExport | DenyOther nat

datatype keyframe_reason =
    ReasonInitial | ReasonDecoderError | ReasonEpochDiscontinuity | ReasonDeviceReset
  | ReasonTransportLoss | ReasonOther nat

datatype full_frame_reason = BaseUnavailable | DamageBudget | FullReasonOther nat

text \<open>\<open>'q\<close> is the packet sequence, \<open>'d\<close> the configuration and the labels of a source.\<close>

record ('q, 'd) source =
  src_owner :: nat
  src_kind :: source_kind
  src_config :: 'd
  src_retained :: "bytes option"
  src_sequence :: 'q
  src_retained_bytes :: nat
  src_playing :: bool
  src_play_start :: int
  src_ended :: bool
  src_eos_epoch :: "nat option"
  src_desynchronized :: bool
  src_minimum_epoch :: nat
  src_pending_reason :: "keyframe_reason option"
  src_last_pts :: "int option"
  src_last_record :: nat
  src_revision :: nat
  src_attachment :: attachment
  src_generation :: nat
  src_window_bytes :: nat
  src_window_packets :: nat
  src_out_bytes :: nat
  src_out_packets :: nat
  src_charged_bytes :: nat
  src_charged_packets :: nat
  src_last_media :: nat
  src_milestones :: "milestone set"
  src_policy :: "capture_denial set"
  src_full_reason :: "full_frame_reason option"
  src_damage_started :: nat
  src_damage_pixels :: nat

datatype wait_condition =
    WaitRevision | WaitFirstVisible | WaitRasterFrame | WaitVideoPts | WaitPlaybackStarted
  | WaitPlaybackEnded | WaitAttached | WaitClosed | WaitLost | WaitUnknown nat

record source_wait =
  wait_source :: nat
  wait_condition :: wait_condition
  wait_value :: "nat option"

record producer =
  prod_pane :: pane_id
  prod_writer :: bool
  prod_anchors :: "nat \<rightharpoonup> int \<times> nat"
  prod_seen :: "nat list"
  prod_scene_revision :: nat
  prod_sequence :: nat
  prod_watches_scene :: bool
  prod_watches_sources :: bool
  prod_watches_playback :: bool
  prod_lost_source :: "nat option"
  prod_lost_scene :: "nat option"
  prod_waits :: "(nat \<times> source_wait) list"
  prod_clips :: bool

record pending_delivery =
  del_source :: source_key
  del_credit :: nat
  del_queued :: nat

datatype mutation = CreateNode scene_node | UpdateNode scene_node | DeleteNode nat nat

record media_config =
  max_nodes :: nat
  max_sources :: nat
  retained_limit :: nat
  bridge_queue_limit :: nat

datatype scene_change = ProducerCommit | AnchorGone | LostSource

datatype source_change =
    ChangedLifecycle | ChangedPlayback | ChangedMilestones | ChangedCredit | ChangedVisibility
  | ChangedEpoch | ChangedAttachment | ChangedDescriptor | ChangedPolicy

datatype media_out =
    GrantCredit source_key nat nat
  | NeedKeyframe source_key nat keyframe_reason
  | NeedFullFrame source_key full_frame_reason
  | SceneChanged nat nat scene_change nat "nat option"
  | SourceChanged source_key nat "source_change set" nat "nat option"
  | PlaybackState source_key nat nat
  | WaitSatisfied nat nat nat "nat option"
  | AnchorReady nat nat
  | LiveMedia nat source_key "(nat \<times> int) option" bytes

record ('q, 'd) media_state =
  ms_config :: media_config
  ms_producers :: "(nat \<times> producer) list"
  ms_next_producer :: nat
  ms_sources :: "(source_key \<times> ('q, 'd) source) list"
  ms_nodes :: "(node_key \<times> scene_node) list"
  ms_transactions :: "((nat \<times> nat) \<times> mutation list) list"
  ms_retained_bytes :: nat
  ms_projection_revision :: nat
  ms_projected :: "source_key set"
  ms_active_panes :: "pane_id set"
  ms_deliveries :: "(nat \<times> pending_delivery) list"
  ms_next_delivery :: nat
  ms_queued_bytes :: nat
  ms_events :: bool
  ms_out :: "media_out list"

text \<open>
  What the service takes from the protocol crate and from its surroundings. \<open>advance\<close> is the next
  revision or sequence number, if there is one; \<open>observer_takes\<close> says whether a producer's queue of
  observations has room, \<open>scene_valid\<close> is the crate's check of a scene.
\<close>

record video_packet =
  vp_epoch :: nat
  vp_id :: nat
  vp_pts :: int
  vp_key :: bool
  vp_data :: nat

record ('q, 'd) media_env =
  advance :: "nat \<Rightarrow> nat option"
  seq_accept :: "'q \<Rightarrow> nat \<Rightarrow> nat \<Rightarrow> 'q option"
  seq_epoch :: "'q \<Rightarrow> nat"
  seq_default :: 'q
  observer_takes :: "nat \<Rightarrow> bool"
  scene_valid :: "(source_key \<times> source_kind) list \<Rightarrow> scene_node list \<Rightarrow> bool"
  on_windows :: bool

section \<open>Access\<close>

lemma update_fresh: "k \<notin> fst ` set xs \<Longrightarrow> AList.update k b xs = xs @ [(k, b)]"
  by (induction xs) auto

definition source_at :: "source_key \<Rightarrow> ('q, 'd) media_state \<Rightarrow> ('q, 'd) source option" where
  "source_at k s = map_of (ms_sources s) k"

definition producer_at :: "nat \<Rightarrow> ('q, 'd) media_state \<Rightarrow> producer option" where
  "producer_at p s = map_of (ms_producers s) p"

definition put_source ::
    "source_key \<Rightarrow> ('q, 'd) source \<Rightarrow> ('q, 'd) media_state \<Rightarrow> ('q, 'd) media_state" where
  "put_source k v s = s\<lparr>ms_sources := AList.update k v (ms_sources s)\<rparr>"

definition put_producer :: "nat \<Rightarrow> producer \<Rightarrow> ('q, 'd) media_state \<Rightarrow> ('q, 'd) media_state" where
  "put_producer p v s = s\<lparr>ms_producers := AList.update p v (ms_producers s)\<rparr>"

definition write_out :: "media_out \<Rightarrow> ('q, 'd) media_state \<Rightarrow> ('q, 'd) media_state" where
  "write_out e s = s\<lparr>ms_out := ms_out s @ [e]\<rparr>"

text \<open>A producer's connection, if it is still there.\<close>

definition writer_at :: "nat \<Rightarrow> ('q, 'd) media_state \<Rightarrow> bool" where
  "writer_at p s = (case producer_at p s of None \<Rightarrow> False | Some v \<Rightarrow> prod_writer v)"

definition is_static :: "source_kind \<Rightarrow> bool" where
  "is_static k \<longleftrightarrow> k = Raster \<or> k = Image"

definition is_timed :: "source_kind \<Rightarrow> bool" where
  "is_timed k = (\<not> is_static k)"

section \<open>Revisions and observers\<close>

definition advance_projection :: "('q, 'd) media_state \<Rightarrow> ('q, 'd) media_state" where
  "advance_projection s = s\<lparr>ms_projection_revision := sat_add64 (ms_projection_revision s) 1\<rparr>"

text \<open>An operation's error, if it failed, and the state it leaves.\<close>

type_synonym ('q, 'd) step = "('q, 'd) media_state \<Rightarrow> string option \<times> ('q, 'd) media_state"

definition advance_scene :: "('q, 'd) media_env \<Rightarrow> nat \<Rightarrow> scene_change \<Rightarrow> ('q, 'd) step" where
  "advance_scene env p reason s =
     (case producer_at p s of
        None \<Rightarrow> (Some ''producer missing'', s)
      | Some v \<Rightarrow>
          (case advance env (prod_scene_revision v) of
             None \<Rightarrow> (Some ''scene revision exhausted'', s)
           | Some r \<Rightarrow>
               let v1 = v\<lparr>prod_scene_revision := r\<rparr>
               in if \<not> prod_watches_scene v then (None, put_producer p v1 s)
                  else (case advance env (prod_sequence v) of
                          None \<Rightarrow> (Some ''observation sequence exhausted'', put_producer p v1 s)
                        | Some n \<Rightarrow>
                            let v2 = v1\<lparr>prod_sequence := n, prod_lost_scene := None\<rparr>
                            in (None,
                              if observer_takes env p
                              then write_out (SceneChanged p r reason n (prod_lost_scene v)) (put_producer p v2 s)
                              else put_producer p (v2\<lparr>prod_lost_scene := Some n\<rparr>) s))))"

text \<open>Whether a wait is over, and the value it reports.\<close>

definition wait_reached :: "('q, 'd) source \<Rightarrow> source_wait \<Rightarrow> bool" where
  "wait_reached v w =
     (let wanted = (case wait_value w of None \<Rightarrow> 18446744073709551615 | Some n \<Rightarrow> n)
      in case wait_condition w of
           WaitRevision \<Rightarrow> wanted \<le> src_revision v
         | WaitFirstVisible \<Rightarrow> FirstVisiblePresentation \<in> src_milestones v
         | WaitRasterFrame \<Rightarrow> src_kind v = Raster \<and> wanted \<le> src_last_media v
         | WaitVideoPts \<Rightarrow> src_kind v = Video \<and>
             wrap_i64 (int wanted) \<le> (case src_last_pts v of None \<Rightarrow> i64_min | Some p \<Rightarrow> p)
         | WaitPlaybackStarted \<Rightarrow> PlaybackStarted \<in> src_milestones v
         | WaitPlaybackEnded \<Rightarrow> PlaybackEnded \<in> src_milestones v
         | WaitAttached \<Rightarrow> src_attachment v \<noteq> NeverAttached
         | WaitClosed \<Rightarrow> src_attachment v = MediaIsClosed
         | WaitLost \<Rightarrow> SourceLost \<in> src_milestones v
         | WaitUnknown _ \<Rightarrow> False)"

definition evaluate_wait :: "('q, 'd) source \<Rightarrow> source_wait \<Rightarrow> nat option option" where
  "evaluate_wait v w =
     (if \<not> wait_reached v w then None
      else Some (case wait_condition w of
           WaitRevision \<Rightarrow> Some (src_revision v)
         | WaitRasterFrame \<Rightarrow> Some (src_last_media v)
         | WaitVideoPts \<Rightarrow> map_option (\<lambda>p. nat (max p 0)) (src_last_pts v)
         | _ \<Rightarrow> None))"

definition playback_clock :: "('q, 'd) source \<Rightarrow> int option" where
  "playback_clock v =
     (if is_timed (src_kind v)
      then Some (case src_last_pts v of None \<Rightarrow> src_play_start v | Some p \<Rightarrow> p) else None)"

text \<open>The part of \<open>advance_source\<close> that numbers the observations of a producer.\<close>

definition number_observations ::
    "('q, 'd) media_env \<Rightarrow> bool \<Rightarrow> bool \<Rightarrow> producer \<Rightarrow>
     string option \<times> producer \<times> nat option \<times> nat option" where
  "number_observations env event playback v =
     (case (if event then map_option Some (advance env (prod_sequence v)) else Some None) of
        None \<Rightarrow> (Some ''observation sequence exhausted'', v, None, None)
      | Some first \<Rightarrow>
          let v1 = (case first of None \<Rightarrow> v
                    | Some n \<Rightarrow> v\<lparr>prod_sequence := n, prod_lost_source := None\<rparr>)
          in (case (if playback then map_option Some (advance env (prod_sequence v1)) else Some None) of
                None \<Rightarrow> (Some ''observation sequence exhausted'', v1, None, None)
              | Some second \<Rightarrow>
                  (None, (case second of None \<Rightarrow> v1 | Some n \<Rightarrow> v1\<lparr>prod_sequence := n\<rparr>), first, second)))"

definition note_lost :: "nat \<Rightarrow> producer \<Rightarrow> producer" where
  "note_lost n v =
     v\<lparr>prod_lost_source := (case prod_lost_source v of None \<Rightarrow> Some n | Some m \<Rightarrow> Some m)\<rparr>"

definition satisfied_waits :: "('q, 'd) source \<Rightarrow> producer \<Rightarrow> (nat \<times> nat option) list" where
  "satisfied_waits v p =
     List.map_filter (\<lambda>(r, w). map_option (Pair r) (evaluate_wait v w)) (prod_waits p)"

definition send_observations ::
    "('q, 'd) media_env \<Rightarrow> source_key \<Rightarrow> nat \<Rightarrow> source_change set \<Rightarrow> nat option \<Rightarrow> nat option \<Rightarrow>
     nat option \<Rightarrow> producer \<Rightarrow> producer \<times> media_out list" where
  "send_observations env k revision changed lost first second v =
     (case (case first of None \<Rightarrow> (v, [])
            | Some n \<Rightarrow> if observer_takes env (fst k) then (v, [SourceChanged k revision changed n lost])
                        else (note_lost n v, [])) of
        (v1, out1) \<Rightarrow>
          (case second of None \<Rightarrow> (v1, out1)
           | Some n \<Rightarrow> if observer_takes env (fst k) then (v1, out1 @ [PlaybackState k revision n])
                       else (note_lost n v1, out1)))"

definition advance_source ::
    "('q, 'd) media_env \<Rightarrow> source_key \<Rightarrow> source_change set \<Rightarrow> ('q, 'd) step" where
  "advance_source env k changed s =
     (case source_at k s of
        None \<Rightarrow> (Some ''source missing'', s)
      | Some src \<Rightarrow>
          (case advance env (src_revision src) of
             None \<Rightarrow> (Some ''source revision exhausted'', s)
           | Some r \<Rightarrow>
               let src1 = src\<lparr>src_revision := r\<rparr>; s1 = put_source k src1 s
               in case producer_at (fst k) s1 of
                    None \<Rightarrow> (Some ''producer missing'', s1)
                  | Some v \<Rightarrow>
                      (case number_observations env (prod_watches_sources v)
                              (ChangedPlayback \<in> changed \<and> prod_watches_playback v \<and>
                               playback_clock src1 \<noteq> None) v of
                         (Some e, v1, _, _) \<Rightarrow> (Some e, put_producer (fst k) v1 s1)
                       | (None, v1, first, second) \<Rightarrow>
                           let done = satisfied_waits src1 v1;
                               v2 = v1\<lparr>prod_waits :=
                                 filter (\<lambda>(q, _). q \<notin> fst ` set done) (prod_waits v1)\<rparr>;
                               (v3, out) = send_observations env k r changed (prod_lost_source v)
                                 first second v2;
                               replies = (if prod_writer v
                                 then map (\<lambda>(q, observed). WaitSatisfied q (snd k) r observed) done else [])
                           in (None, (put_producer (fst k) v3 s1)\<lparr>ms_out := ms_out s1 @ out @ replies\<rparr>))))"

text \<open>The same event without a new revision.\<close>

definition emit_source_event ::
    "('q, 'd) media_env \<Rightarrow> source_key \<Rightarrow> source_change set \<Rightarrow> ('q, 'd) step" where
  "emit_source_event env k changed s =
     (case source_at k s of
        None \<Rightarrow> (Some ''source missing'', s)
      | Some src \<Rightarrow>
          (case producer_at (fst k) s of
             None \<Rightarrow> (Some ''producer missing'', s)
           | Some v \<Rightarrow>
               if \<not> prod_watches_sources v then (None, s)
               else (case advance env (prod_sequence v) of
                       None \<Rightarrow> (Some ''observation sequence exhausted'', s)
                     | Some n \<Rightarrow>
                         let v1 = v\<lparr>prod_sequence := n, prod_lost_source := None\<rparr>
                         in (None,
                           if observer_takes env (fst k)
                           then write_out (SourceChanged k (src_revision src) changed n (prod_lost_source v))
                                  (put_producer (fst k) v1 s)
                           else put_producer (fst k) (note_lost n v1) s))))"

end
