(* ===== verification/Media_Credit.thy ===== *)
theory Media_Credit
  imports Media_State
begin

text \<open>
  Credit, deliveries and recovery of the media service (\<open>src/src/media.rs\<close>). A producer may send
  what it has credit for; a record's credit is charged while the record is on its way to the client
  and returned when it has been shown or dropped. Where deliveries are lost, the producer is asked
  for a key frame or a full frame.
\<close>

section \<open>Credit\<close>

definition consume_source_credit :: "source_key \<Rightarrow> nat \<Rightarrow> ('q, 'd) step" where
  "consume_source_credit k bytes s =
     (case source_at k s of
        None \<Rightarrow> (Some ''source no longer exists'', s)
      | Some v \<Rightarrow>
          if bytes = 0 \<or> src_out_bytes v < bytes \<or> src_out_packets v = 0
          then (Some ''media record exceeds outstanding source credit'', s)
          else let v1 = v\<lparr>src_out_bytes := src_out_bytes v - bytes, src_out_packets := src_out_packets v - 1\<rparr>
               in if 18446744073709551615 < src_charged_bytes v + bytes
                  then (Some ''charged byte credit overflow'', put_source k v1 s)
                  else let v2 = v1\<lparr>src_charged_bytes := src_charged_bytes v + bytes\<rparr>
                       in if 18446744073709551615 < src_charged_packets v + 1
                          then (Some ''charged packet credit overflow'', put_source k v2 s)
                          else (None, put_source k
                                  (v2\<lparr>src_charged_packets := src_charged_packets v + 1\<rparr>) s))"

text \<open>The rolling window is topped up only while the source is shown.\<close>

definition top_up :: "('q, 'd) source \<Rightarrow> nat \<times> nat" where
  "top_up v =
     (src_window_bytes v - sat_add64 (src_out_bytes v) (src_charged_bytes v),
      src_window_packets v - sat_add64 (src_out_packets v) (src_charged_packets v))"

definition give_credit :: "nat \<Rightarrow> nat \<Rightarrow> ('q, 'd) source \<Rightarrow> ('q, 'd) source" where
  "give_credit bytes packets v =
     v\<lparr>src_out_bytes := sat_add64 (src_out_bytes v) bytes,
       src_out_packets := sat_add64 (src_out_packets v) packets\<rparr>"

definition prepare_credit_return ::
    "source_key \<Rightarrow> nat \<Rightarrow> nat \<Rightarrow> ('q, 'd) media_state \<Rightarrow> (nat \<times> nat) \<times> ('q, 'd) media_state" where
  "prepare_credit_return k bytes packets s =
     (case source_at k s of
        None \<Rightarrow> ((bytes, packets), s)
      | Some v \<Rightarrow>
          if src_charged_bytes v < bytes \<or> src_charged_packets v < packets then ((0, 0), s)
          else let v1 = give_credit bytes packets
                     (v\<lparr>src_charged_bytes := src_charged_bytes v - bytes,
                        src_charged_packets := src_charged_packets v - packets\<rparr>)
               in if k \<notin> ms_projected s then ((bytes, packets), put_source k v1 s)
                  else case top_up v1 of (more_bytes, more_packets) \<Rightarrow>
                    ((sat_add64 bytes more_bytes, sat_add64 packets more_packets),
                     put_source k (give_credit more_bytes more_packets v1) s))"

text \<open>Returning a record's credit and writing it to the producer.\<close>

record credit_return =
  ret_writer :: bool
  ret_source :: source_key
  ret_grant :: "nat \<times> nat"

definition prepare_credit_write ::
    "source_key \<Rightarrow> nat \<Rightarrow> nat \<Rightarrow> ('q, 'd) media_state \<Rightarrow> credit_return \<times> ('q, 'd) media_state" where
  "prepare_credit_write k bytes packets s =
     (case prepare_credit_return k bytes packets s of
        (grant, s') \<Rightarrow> (\<lparr>ret_writer = writer_at (fst k) s, ret_source = k, ret_grant = grant\<rparr>, s'))"

definition write_delivery_credit :: "credit_return \<Rightarrow> ('q, 'd) media_state \<Rightarrow> ('q, 'd) media_state" where
  "write_delivery_credit c s =
     (case ret_grant c of (bytes, packets) \<Rightarrow>
        if ret_writer c \<and> (bytes \<noteq> 0 \<or> packets \<noteq> 0)
        then write_out (GrantCredit (ret_source c) bytes packets) s else s)"

definition return_delivery_credits ::
    "credit_return list \<Rightarrow> ('q, 'd) media_state \<Rightarrow> ('q, 'd) media_state" where
  "return_delivery_credits cs s = fold write_delivery_credit cs s"

section \<open>Deliveries\<close>

definition remove_delivery :: "nat \<Rightarrow> pending_delivery \<Rightarrow> ('q, 'd) media_state \<Rightarrow> ('q, 'd) media_state" where
  "remove_delivery i d s =
     s\<lparr>ms_deliveries := AList.delete i (ms_deliveries s),
       ms_queued_bytes := ms_queued_bytes s - del_queued d\<rparr>"

definition take_delivery ::
    "nat \<Rightarrow> credit_return list \<times> ('q, 'd) media_state \<Rightarrow> credit_return list \<times> ('q, 'd) media_state" where
  "take_delivery i acc =
     (case acc of (released, s) \<Rightarrow>
        (case map_of (ms_deliveries s) i of
           None \<Rightarrow> acc
         | Some d \<Rightarrow>
             (case prepare_credit_write (del_source d) (del_credit d) 1 (remove_delivery i d s) of
                (c, s') \<Rightarrow> (released @ [c], s'))))"

definition take_deliveries ::
    "nat list \<Rightarrow> ('q, 'd) media_state \<Rightarrow> credit_return list \<times> ('q, 'd) media_state" where
  "take_deliveries ids s = fold take_delivery ids ([], s)"

definition release_deliveries :: "nat list \<Rightarrow> ('q, 'd) media_state \<Rightarrow> ('q, 'd) media_state" where
  "release_deliveries ids s =
     (case take_deliveries ids s of (released, s') \<Rightarrow> return_delivery_credits released s')"

definition cancel_source_deliveries :: "source_key \<Rightarrow> ('q, 'd) media_state \<Rightarrow> ('q, 'd) media_state" where
  "cancel_source_deliveries k s =
     release_deliveries (map fst (filter (\<lambda>(_, d). del_source d = k) (ms_deliveries s))) s"

definition change_sources ::
    "(('q, 'd) source \<Rightarrow> ('q, 'd) source) \<Rightarrow> ('q, 'd) media_state \<Rightarrow> ('q, 'd) media_state" where
  "change_sources f s = s\<lparr>ms_sources := map (\<lambda>(k, v). (k, f v)) (ms_sources s)\<rparr>"

definition deactivate_bridge :: "('q, 'd) media_state \<Rightarrow> ('q, 'd) media_state" where
  "deactivate_bridge s =
     release_deliveries (map fst (ms_deliveries s))
       (change_sources (\<lambda>v. if src_kind v = Video \<and> src_playing v
                            then v\<lparr>src_desynchronized := True\<rparr> else v)
         (s\<lparr>ms_projected := {}\<rparr>))"

section \<open>Recovery\<close>

definition normalize_keyframe_reason :: "keyframe_reason \<Rightarrow> keyframe_reason" where
  "normalize_keyframe_reason r = (case r of ReasonOther _ \<Rightarrow> ReasonDecoderError | _ \<Rightarrow> r)"

definition minimum_epoch_for :: "keyframe_reason \<Rightarrow> nat option \<Rightarrow> nat \<Rightarrow> nat" where
  "minimum_epoch_for reason requested current =
     (if reason = ReasonTransportLoss then current
      else case requested of
             Some minimum \<Rightarrow> max minimum current
           | None \<Rightarrow> if reason = ReasonInitial then current else sat_add32 current 1)"

definition is_damped :: "keyframe_reason \<Rightarrow> nat \<Rightarrow> ('q, 'd) source \<Rightarrow> bool" where
  "is_damped reason minimum v =
     (case src_pending_reason v of
        None \<Rightarrow> False
      | Some pending \<Rightarrow> minimum \<le> src_minimum_epoch v \<and>
          \<not> (pending = ReasonTransportLoss \<and> reason \<noteq> ReasonTransportLoss))"

definition emitted_reason :: "keyframe_reason \<Rightarrow> keyframe_reason option \<Rightarrow> keyframe_reason" where
  "emitted_reason reason pending =
     (case pending of
        None \<Rightarrow> reason
      | Some p \<Rightarrow>
          if p = reason \<or> p = ReasonTransportLoss then reason
          else if reason = ReasonTransportLoss then p else ReasonDecoderError)"

datatype recovery_outcome = Forwarded | Damped | Ignored

definition request_recovery ::
    "('q, 'd) media_env \<Rightarrow> source_key \<Rightarrow> nat option \<Rightarrow> keyframe_reason \<Rightarrow> ('q, 'd) media_state \<Rightarrow>
     recovery_outcome \<times> ('q, 'd) media_state" where
  "request_recovery env k requested requested_reason s =
     (let reason = normalize_keyframe_reason requested_reason
      in case source_at k s of
           None \<Rightarrow> (Ignored, s)
         | Some v \<Rightarrow>
             if src_kind v \<noteq> Video \<or> src_ended v then (Ignored, s)
             else let minimum = minimum_epoch_for reason requested (seq_epoch env (src_sequence v))
                  in if is_damped reason minimum v then (Damped, s)
                     else let epoch = max (src_minimum_epoch v) minimum;
                              why = emitted_reason reason (src_pending_reason v)
                          in if \<not> writer_at (fst k) s then (Ignored, s)
                             else (Forwarded, write_out (NeedKeyframe k epoch why)
                               (put_source k (v\<lparr>src_minimum_epoch := epoch, src_pending_reason := Some why,
                                  src_desynchronized := True\<rparr>) s)))"

definition request_keyframe ::
    "('q, 'd) media_env \<Rightarrow> source_key \<Rightarrow> nat option \<Rightarrow> keyframe_reason \<Rightarrow> ('q, 'd) media_state \<Rightarrow>
     ('q, 'd) media_state" where
  "request_keyframe env k requested reason s = snd (request_recovery env k requested reason s)"

definition request_full_frame ::
    "full_frame_reason \<Rightarrow> source_key \<Rightarrow> ('q, 'd) media_state \<Rightarrow> ('q, 'd) media_state" where
  "request_full_frame reason k s =
     (case source_at k s of
        None \<Rightarrow> s
      | Some v \<Rightarrow>
          if src_kind v \<noteq> Raster \<or> src_ended v \<or> src_full_reason v = Some reason then s
          else let s1 = put_source k (v\<lparr>src_full_reason := Some reason\<rparr>) s
               in if writer_at (fst k) s1 then write_out (NeedFullFrame k reason) s1 else s1)"

definition request_full_frames ::
    "source_key list \<Rightarrow> full_frame_reason \<Rightarrow> ('q, 'd) media_state \<Rightarrow> ('q, 'd) media_state" where
  "request_full_frames ks reason s = fold (request_full_frame reason) ks s"

section \<open>The end of a delivery\<close>

definition adjust_source ::
    "source_key \<Rightarrow> (('q, 'd) source \<Rightarrow> ('q, 'd) source) \<Rightarrow> ('q, 'd) media_state \<Rightarrow> ('q, 'd) media_state" where
  "adjust_source k f s = (case source_at k s of None \<Rightarrow> s | Some v \<Rightarrow> put_source k (f v) s)"

definition lost_video :: "source_key \<Rightarrow> ('q, 'd) media_state \<Rightarrow> bool" where
  "lost_video k s \<longleftrightarrow> k \<in> ms_projected s \<and>
     (case source_at k s of None \<Rightarrow> False | Some v \<Rightarrow> src_kind v = Video \<and> \<not> src_ended v)"

text \<open>The answer says whether a key frame is needed.\<close>

definition complete_bridge_delivery ::
    "('q, 'd) media_env \<Rightarrow> nat \<Rightarrow> bool \<Rightarrow> ('q, 'd) media_state \<Rightarrow> bool \<times> ('q, 'd) media_state" where
  "complete_bridge_delivery env i delivered s =
     (case map_of (ms_deliveries s) i of
        None \<Rightarrow> (False, s)
      | Some d \<Rightarrow>
          let k = del_source d;
              s1 = remove_delivery i d s;
              lost = (\<not> delivered \<and> lost_video k s1);
              s2 = (if lost then adjust_source k (\<lambda>v. v\<lparr>src_desynchronized := True\<rparr>) s1
                    else if delivered \<and> k \<in> ms_projected s1
                    then adjust_source k (\<lambda>v. v\<lparr>src_milestones :=
                           insert FirstVisiblePresentation (src_milestones v)\<rparr>) s1
                    else s1);
              s3 = snd (advance_source env k
                     (if delivered then {ChangedMilestones, ChangedCredit} else {ChangedCredit}) s2);
              (grant, s4) = prepare_credit_return k (del_credit d) 1 s3;
              s5 = write_delivery_credit
                     \<lparr>ret_writer = writer_at (fst k) s1, ret_source = k, ret_grant = grant\<rparr> s4
          in (lost, if lost then request_keyframe env k None ReasonTransportLoss s5 else s5))"

datatype outer_playback = OuterPlaying | OuterEnded | OuterOther

definition apply_outer_playback ::
    "('q, 'd) media_env \<Rightarrow> source_key \<Rightarrow> outer_playback \<Rightarrow> bool \<Rightarrow> ('q, 'd) media_state \<Rightarrow>
     ('q, 'd) media_state" where
  "apply_outer_playback env k playback eos_accepted s =
     (case source_at k s of
        None \<Rightarrow> s
      | Some v \<Rightarrow>
          if playback = OuterPlaying
          then snd (advance_source env k {ChangedPlayback, ChangedMilestones}
                 (put_source k (v\<lparr>src_milestones := insert PlaybackStarted (src_milestones v)\<rparr>) s))
          else if playback = OuterEnded \<and> eos_accepted
          then snd (advance_source env k {ChangedPlayback, ChangedLifecycle, ChangedMilestones}
                 (advance_projection (put_source k
                    (v\<lparr>src_playing := False,
                       src_milestones := insert PlaybackEnded (src_milestones v)\<rparr>) s)))
          else snd (advance_source env k {ChangedPlayback} s))"

definition apply_inner_eos :: "('q, 'd) media_env \<Rightarrow> source_key \<Rightarrow> nat \<Rightarrow> ('q, 'd) step" where
  "apply_inner_eos env k epoch s =
     (case source_at k s of
        None \<Rightarrow> (Some ''source missing'', s)
      | Some v \<Rightarrow>
          let v1 = v\<lparr>src_ended := True, src_eos_epoch := Some epoch,
                     src_milestones := insert EosAccepted (src_milestones v)\<rparr>;
              v2 = (if is_static (src_kind v) then v1
                    else v1\<lparr>src_retained := None, src_retained_bytes := 0\<rparr>)
          in case advance_source env k {ChangedLifecycle, ChangedPlayback, ChangedMilestones}
                    (put_source k v2 s) of
               (Some e, s') \<Rightarrow> (Some e, s')
             | (None, s') \<Rightarrow> (None, advance_projection s'))"

end
