(* ===== verification/Media_Service.thy ===== *)
theory Media_Service
  imports Media_Credit
begin

text \<open>
  The scene of the media service (\<open>src/src/media.rs\<close>): transactions on the nodes, creation and
  removal of sources, the end of a producer and of a pane, anchors, playback control and the
  snapshot taken for a projection.
\<close>

section \<open>Producers\<close>

definition max_producers :: nat where "max_producers = 16"

text \<open>
  A producer that has authenticated itself for a pane with usable metrics; \<open>clips\<close> says whether it
  negotiated node clips.
\<close>

definition admit_producer :: "pane_id \<Rightarrow> bool \<Rightarrow> ('q, 'd) step" where
  "admit_producer pane clips s =
     (if max_producers \<le> length (ms_producers s) then (Some ''producer quota exceeded'', s)
      else if 18446744073709551615 < ms_next_producer s + 1 then (Some ''producer IDs exhausted'', s)
      else let p = ms_next_producer s + 1
           in (None, put_producer p
                 \<lparr>prod_pane = pane, prod_writer = True, prod_anchors = Map.empty, prod_seen = [],
                  prod_scene_revision = 0, prod_sequence = 0, prod_watches_scene = False,
                  prod_watches_sources = False, prod_watches_playback = False, prod_lost_source = None,
                  prod_lost_scene = None, prod_waits = [], prod_clips = clips\<rparr>
                 (s\<lparr>ms_next_producer := p\<rparr>)))"

definition set_observation :: "nat \<Rightarrow> bool \<Rightarrow> bool \<Rightarrow> bool \<Rightarrow> ('q, 'd) step" where
  "set_observation p scenes sources playback s =
     (case producer_at p s of
        None \<Rightarrow> (Some ''producer missing'', s)
      | Some v \<Rightarrow> (None, put_producer p
          (v\<lparr>prod_watches_scene := scenes, prod_watches_sources := sources,
             prod_watches_playback := playback, prod_lost_source := None, prod_lost_scene := None\<rparr>) s))"

section \<open>Transactions\<close>

definition validate_node ::
    "('q, 'd) media_env \<Rightarrow> nat \<Rightarrow> scene_node \<Rightarrow> ('q, 'd) media_state \<Rightarrow> string option" where
  "validate_node env p n s =
     (if sn_producer n \<noteq> p \<or> source_at (p, sn_source n) s = None
      then Some ''node source is outside producer scope''
      else case sn_anchor n of
             None \<Rightarrow> None
           | Some a \<Rightarrow>
               (case producer_at p s of
                  None \<Rightarrow> Some ''producer missing''
                | Some v \<Rightarrow> if prod_anchors v a = None \<and> \<not> on_windows env
                            then Some ''node anchor does not exist'' else None))"

definition apply_mutation ::
    "('q, 'd) media_env \<Rightarrow> ('q, 'd) media_state \<Rightarrow> nat \<Rightarrow> mutation \<Rightarrow> (node_key \<times> scene_node) list \<Rightarrow>
     string + (node_key \<times> scene_node) list" where
  "apply_mutation env s p m nodes =
     (case m of
        CreateNode n \<Rightarrow>
          (case validate_node env p n s of
             Some e \<Rightarrow> Inl e
           | None \<Rightarrow> if map_of nodes (p, sn_node n) \<noteq> None then Inl ''node ID already exists''
                     else Inr (AList.update (p, sn_node n) n nodes))
      | UpdateNode n \<Rightarrow>
          (case validate_node env p n s of
             Some e \<Rightarrow> Inl e
           | None \<Rightarrow> if map_of nodes (p, sn_node n) = None then Inl ''updated node does not exist''
                     else Inr (AList.update (p, sn_node n) n nodes))
      | DeleteNode owner i \<Rightarrow>
          if map_of nodes (owner, i) = None then Inl ''deleted node does not exist''
          else Inr (AList.delete (owner, i) nodes))"

fun apply_mutations ::
    "('q, 'd) media_env \<Rightarrow> ('q, 'd) media_state \<Rightarrow> nat \<Rightarrow> mutation list \<Rightarrow> (node_key \<times> scene_node) list \<Rightarrow>
     string + (node_key \<times> scene_node) list" where
  "apply_mutations env s p [] nodes = Inr nodes"
| "apply_mutations env s p (m # ms) nodes =
     (case apply_mutation env s p m nodes of
        Inl e \<Rightarrow> Inl e | Inr nodes' \<Rightarrow> apply_mutations env s p ms nodes')"

definition apply_transaction :: "('q, 'd) media_env \<Rightarrow> nat \<Rightarrow> mutation list \<Rightarrow> ('q, 'd) step" where
  "apply_transaction env p ms s =
     (case apply_mutations env s p ms (ms_nodes s) of
        Inl e \<Rightarrow> (Some e, s)
      | Inr nodes \<Rightarrow>
          if \<not> scene_valid env (map (\<lambda>(k, v). (k, src_kind v)) (ms_sources s)) (map snd nodes)
          then (Some ''invalid scene'', s)
          else if max_nodes (ms_config s) < length nodes then (Some ''node quota exceeded'', s)
          else case advance_scene env p ProducerCommit (s\<lparr>ms_nodes := nodes\<rparr>) of
                 (Some e, s') \<Rightarrow> (Some e, s')
               | (None, s') \<Rightarrow> (None, advance_projection s'))"

text \<open>The control records that open, fill, commit and abort a transaction.\<close>

definition begin_transaction :: "nat \<Rightarrow> nat \<Rightarrow> ('q, 'd) step" where
  "begin_transaction p t s =
     (if map_of (ms_transactions s) (p, t) \<noteq> None
      then (Some ''transaction already exists'',
            s\<lparr>ms_transactions := AList.update (p, t) [] (ms_transactions s)\<rparr>)
      else (None, s\<lparr>ms_transactions := AList.update (p, t) [] (ms_transactions s)\<rparr>))"

definition push_mutation :: "nat \<Rightarrow> nat \<Rightarrow> mutation \<Rightarrow> ('q, 'd) step" where
  "push_mutation p t m s =
     (case map_of (ms_transactions s) (p, t) of
        None \<Rightarrow> (Some ''transaction has not begun'', s)
      | Some ms \<Rightarrow> (None, s\<lparr>ms_transactions := AList.update (p, t) (ms @ [m]) (ms_transactions s)\<rparr>))"

text \<open>\<open>CREATE_NODE\<close> and \<open>UPDATE_NODE\<close>: the service fills in the producer and its pane.\<close>

definition put_node :: "bool \<Rightarrow> nat \<Rightarrow> nat \<Rightarrow> scene_node \<Rightarrow> ('q, 'd) step" where
  "put_node creates p t n s =
     (case producer_at p s of
        None \<Rightarrow> (Some ''producer missing'', s)
      | Some v \<Rightarrow>
          if sn_clip n \<noteq> None \<and> \<not> prod_clips v then (Some ''node clip feature was not negotiated'', s)
          else let n' = n\<lparr>sn_producer := p, sn_pane := prod_pane v, sn_retained := None\<rparr>
               in push_mutation p t (if creates then CreateNode n' else UpdateNode n') s)"

definition delete_node :: "nat \<Rightarrow> nat \<Rightarrow> nat \<Rightarrow> ('q, 'd) step" where
  "delete_node p t i s = push_mutation p t (DeleteNode p i) s"

definition commit_transaction :: "('q, 'd) media_env \<Rightarrow> nat \<Rightarrow> nat \<Rightarrow> ('q, 'd) step" where
  "commit_transaction env p t s =
     (case map_of (ms_transactions s) (p, t) of
        None \<Rightarrow> (Some ''transaction has not begun'', s)
      | Some ms \<Rightarrow> apply_transaction env p ms
                     (s\<lparr>ms_transactions := AList.delete (p, t) (ms_transactions s)\<rparr>))"

definition abort_transaction :: "nat \<Rightarrow> nat \<Rightarrow> ('q, 'd) step" where
  "abort_transaction p t s = (None, s\<lparr>ms_transactions := AList.delete (p, t) (ms_transactions s)\<rparr>)"

section \<open>Sources\<close>

text \<open>
  A new source: it is shown at once when its pane is, so that what arrives before the next snapshot
  is not taken for hidden. \<open>maximum\<close> is the largest legal record of its configuration.
\<close>

definition fresh_source ::
    "('q, 'd) media_env \<Rightarrow> nat \<Rightarrow> source_kind \<Rightarrow> 'd \<Rightarrow> capture_denial set \<Rightarrow> nat \<Rightarrow> nat \<Rightarrow> ('q, 'd) source" where
  "fresh_source env p kind conf policy maximum now =
     \<lparr>src_owner = p, src_kind = kind, src_config = conf, src_retained = None,
      src_sequence = seq_default env, src_retained_bytes = 0, src_playing = False, src_play_start = 0,
      src_ended = False, src_eos_epoch = None, src_desynchronized = False, src_minimum_epoch = 0,
      src_pending_reason = None, src_last_pts = None, src_last_record = 0, src_revision = 1,
      src_attachment = NeverAttached, src_generation = 0, src_window_bytes = maximum,
      src_window_packets = 8, src_out_bytes = maximum, src_out_packets = 1, src_charged_bytes = 0,
      src_charged_packets = 0, src_last_media = 0, src_milestones = {}, src_policy = policy,
      src_full_reason = None, src_damage_started = now, src_damage_pixels = 0\<rparr>"

definition producer_shown :: "nat \<Rightarrow> ('q, 'd) media_state \<Rightarrow> bool" where
  "producer_shown p s =
     (case producer_at p s of None \<Rightarrow> False | Some v \<Rightarrow> prod_pane v \<in> ms_active_panes s)"

definition create_source ::
    "('q, 'd) media_env \<Rightarrow> nat \<Rightarrow> nat \<Rightarrow> source_kind \<Rightarrow> 'd \<Rightarrow> capture_denial set \<Rightarrow> nat \<Rightarrow> nat \<Rightarrow> ('q, 'd) step" where
  "create_source env p i kind conf policy maximum now s =
     (if i = 0 then (Some ''source object ID mismatch'', s)
      else if max_sources (ms_config s) \<le> length (ms_sources s) then (Some ''source quota exceeded'', s)
      else if retained_limit (ms_config s) < maximum
      then (Some ''source cannot receive one maximum legal record'', s)
      else if source_at (p, i) s \<noteq> None then (Some ''source ID already exists'', s)
      else let s1 = put_source (p, i) (fresh_source env p kind conf policy maximum now) s;
               s2 = (if ms_events s \<and> producer_shown p s
                     then s1\<lparr>ms_projected := insert (p, i) (ms_projected s1)\<rparr> else s1)
           in emit_source_event env (p, i) {ChangedLifecycle, ChangedAttachment, ChangedDescriptor}
                (advance_projection s2))"

definition remove_source :: "('q, 'd) media_env \<Rightarrow> source_key \<Rightarrow> ('q, 'd) step" where
  "remove_source env k s =
     (case source_at k s of
        None \<Rightarrow> (Some ''source does not exist'', s)
      | Some v \<Rightarrow>
          let s1 = s\<lparr>ms_sources := AList.delete k (ms_sources s),
                     ms_retained_bytes := ms_retained_bytes s - src_retained_bytes v,
                     ms_nodes := filter (\<lambda>(_, n). node_source n \<noteq> k) (ms_nodes s)\<rparr>
          in if producer_at (fst k) s1 = None then (None, advance_projection s1)
             else case advance_scene env (fst k) LostSource s1 of
                    (Some e, s') \<Rightarrow> (Some e, s')
                  | (None, s') \<Rightarrow> (None, advance_projection s'))"

text \<open>Sources whose producer is gone and that no node shows any more.\<close>

definition prune_orphaned_sources :: "('q, 'd) media_state \<Rightarrow> ('q, 'd) media_state" where
  "prune_orphaned_sources s =
     (let orphan = (\<lambda>(k, v). producer_at (fst k) s = None \<and> k \<notin> node_source ` snd ` set (ms_nodes s));
          removed = filter orphan (ms_sources s)
      in s\<lparr>ms_sources := filter (\<lambda>e. \<not> orphan e) (ms_sources s),
           ms_retained_bytes := fold (\<lambda>(_, v) total. total - src_retained_bytes v) removed
                                  (ms_retained_bytes s)\<rparr>)"

section \<open>The end of a producer and of a pane\<close>

definition retain_anchor :: "nat \<Rightarrow> producer \<Rightarrow> scene_node \<Rightarrow> scene_node" where
  "retain_anchor p v n =
     (if sn_producer n \<noteq> p then n
      else n\<lparr>sn_retained := (case sn_anchor n of None \<Rightarrow> None | Some a \<Rightarrow> prod_anchors v a)\<rparr>)"

text \<open>An anchored node of a static source stays, where its producer left the poster to be kept.\<close>

definition kept_poster :: "('q, 'd) media_state \<Rightarrow> scene_node \<Rightarrow> bool" where
  "kept_poster s n \<longleftrightarrow> sn_retained n \<noteq> None \<and>
     (case source_at (node_source n) s of
        None \<Rightarrow> False
      | Some v \<Rightarrow> is_static (src_kind v) \<and> src_retained v \<noteq> None \<and> DenyPosterRetention \<notin> src_policy v)"

definition cleanup_producer :: "nat \<Rightarrow> bool \<Rightarrow> ('q, 'd) media_state \<Rightarrow> ('q, 'd) media_state" where
  "cleanup_producer p preserve s =
     (case producer_at p s of
        None \<Rightarrow> s
      | Some v \<Rightarrow>
          advance_projection (prune_orphaned_sources
            (s\<lparr>ms_producers := AList.delete p (ms_producers s),
               ms_transactions := filter (\<lambda>((owner, _), _). owner \<noteq> p) (ms_transactions s),
               ms_nodes := filter (\<lambda>(_, n). sn_producer n \<noteq> p \<or> preserve \<and> kept_poster s n)
                 (map (\<lambda>(k, n). (k, retain_anchor p v n)) (ms_nodes s))\<rparr>)))"

definition pane_producers :: "pane_id \<Rightarrow> ('q, 'd) media_state \<Rightarrow> nat list" where
  "pane_producers pane s = map fst (filter (\<lambda>(_, v). prod_pane v = pane) (ms_producers s))"

definition revoke_pane :: "pane_id \<Rightarrow> ('q, 'd) media_state \<Rightarrow> ('q, 'd) media_state" where
  "revoke_pane pane s =
     (let s1 = fold (\<lambda>p. cleanup_producer p False) (pane_producers pane s) s
      in advance_projection (prune_orphaned_sources
           (s1\<lparr>ms_nodes := filter (\<lambda>(_, n). sn_pane n \<noteq> pane) (ms_nodes s1)\<rparr>)))"

section \<open>Anchors\<close>

definition change_producers :: "pane_id \<Rightarrow> (producer \<Rightarrow> producer) \<Rightarrow> ('q, 'd) media_state \<Rightarrow> ('q, 'd) media_state" where
  "change_producers pane f s =
     s\<lparr>ms_producers := map (\<lambda>(p, v). (p, if prod_pane v = pane then f v else v)) (ms_producers s)\<rparr>"

definition advance_scenes ::
    "('q, 'd) media_env \<Rightarrow> scene_change \<Rightarrow> nat list \<Rightarrow> ('q, 'd) media_state \<Rightarrow> ('q, 'd) media_state" where
  "advance_scenes env reason ps s = fold (\<lambda>p s. snd (advance_scene env p reason s)) ps s"

definition scroll_line :: "int \<Rightarrow> int \<times> nat \<Rightarrow> int \<times> nat" where
  "scroll_line lines a = (sat_add_i32 (fst a) (- lines), snd a)"

definition scroll_anchors :: "('q, 'd) media_env \<Rightarrow> pane_id \<Rightarrow> int \<Rightarrow> ('q, 'd) media_state \<Rightarrow> ('q, 'd) media_state" where
  "scroll_anchors env pane lines s =
     (let s1 = change_producers pane
            (\<lambda>v. v\<lparr>prod_anchors := map_option (scroll_line lines) \<circ> prod_anchors v\<rparr>) s;
          s2 = s1\<lparr>ms_nodes := map (\<lambda>(k, n). (k, if sn_pane n = pane
                 then n\<lparr>sn_retained := map_option (scroll_line lines) (sn_retained n)\<rparr> else n)) (ms_nodes s1)\<rparr>
      in advance_projection (advance_scenes env ProducerCommit (pane_producers pane s) s2))"

definition clear_anchors :: "('q, 'd) media_env \<Rightarrow> pane_id \<Rightarrow> ('q, 'd) media_state \<Rightarrow> ('q, 'd) media_state" where
  "clear_anchors env pane s =
     (let s1 = change_producers pane (\<lambda>v. v\<lparr>prod_anchors := Map.empty\<rparr>) s;
          s2 = s1\<lparr>ms_nodes := filter (\<lambda>(_, n). sn_pane n \<noteq> pane \<or> sn_retained n = None) (ms_nodes s1)\<rparr>
      in advance_projection (advance_scenes env AnchorGone (pane_producers pane s)
           (prune_orphaned_sources s2)))"

definition max_seen_anchors :: nat where "max_seen_anchors = 4096"

text \<open>
  A marker found in a pane's output. \<open>owns\<close> says which producer's key verifies the marker (the hash
  is the protocol crate's); the answer says whether the anchor was taken.
\<close>

definition observe_marker ::
    "('q, 'd) media_env \<Rightarrow> pane_id \<Rightarrow> (nat \<Rightarrow> bool) \<Rightarrow> nat \<Rightarrow> int \<times> nat \<Rightarrow> ('q, 'd) media_state \<Rightarrow>
     bool \<times> ('q, 'd) media_state" where
  "observe_marker env pane owns a at s =
     (case List.find (\<lambda>(p, v). prod_pane v = pane \<and> owns p) (ms_producers s) of
        None \<Rightarrow> (False, s)
      | Some (p, v) \<Rightarrow>
          if max_seen_anchors \<le> length (prod_seen v) \<or> a \<in> set (prod_seen v) \<or> \<not> prod_writer v
          then (False, s)
          else let s1 = put_producer p (v\<lparr>prod_seen := a # prod_seen v,
                          prod_anchors := (prod_anchors v)(a \<mapsto> at)\<rparr>) s;
                   s2 = advance_projection (snd (advance_scene env p ProducerCommit s1))
               in (True, write_out (AnchorReady p a) s2))"

section \<open>Playback\<close>

text \<open>
  \<open>PLAY\<close>, \<open>PAUSE\<close> and \<open>DRAIN\<close>: \<open>request\<close> is the start time of a play request, and \<open>other\<close> whether the
  rest of the request differs from the last one.
\<close>

definition control_playback ::
    "('q, 'd) media_env \<Rightarrow> source_key \<Rightarrow> int option \<Rightarrow> bool \<Rightarrow> ('q, 'd) step" where
  "control_playback env k request other s0 =
     (let s = (if request = None then cancel_source_deliveries k s0 else s0); playing = (request \<noteq> None)
      in case source_at k s of
           None \<Rightarrow> (Some ''source missing'', s)
         | Some v \<Rightarrow>
             if \<not> is_timed (src_kind v) then (Some ''playback controls require a timed source'', s)
             else let changed = (src_playing v \<noteq> playing \<or>
                        playing \<and> (other \<or> request \<noteq> Some (src_play_start v)));
                      v1 = v\<lparr>src_playing := playing,
                             src_play_start := (case request of None \<Rightarrow> src_play_start v | Some t \<Rightarrow> t),
                             src_milestones := (if changed \<and> playing \<and> \<not> ms_events s
                               then insert PlaybackStarted (src_milestones v) else src_milestones v)\<rparr>;
                      s1 = put_source k v1 s
                  in if \<not> changed then (None, s1)
                     else case advance_source env k {ChangedPlayback, ChangedMilestones} s1 of
                            (Some e, s') \<Rightarrow> (Some e, s')
                          | (None, s') \<Rightarrow> (None, advance_projection s'))"

definition flush_source :: "('q, 'd) media_env \<Rightarrow> source_key \<Rightarrow> nat \<Rightarrow> ('q, 'd) step" where
  "flush_source env k epoch s0 =
     (let s = cancel_source_deliveries k s0
      in case source_at k s of
           None \<Rightarrow> (Some ''source missing'', s)
         | Some v \<Rightarrow> advance_source env k {ChangedEpoch, ChangedMilestones}
             (put_source k (v\<lparr>src_sequence := seq_default env, src_minimum_epoch := epoch,
                src_ended := False, src_eos_epoch := None, src_desynchronized := True, src_last_media := 0,
                src_last_pts := None, src_milestones := src_milestones v \<inter> {MediaWasAttached}\<rparr>) s))"

definition tightened_capture_policy ::
    "capture_denial set \<Rightarrow> capture_denial set \<Rightarrow> string + capture_denial set option" where
  "tightened_capture_policy current requested =
     (if \<not> current \<subseteq> requested then Inl ''capture policy cannot be relaxed''
      else Inr (if requested = current then None else Some requested))"

definition set_source_policy :: "('q, 'd) media_env \<Rightarrow> source_key \<Rightarrow> capture_denial set \<Rightarrow> ('q, 'd) step" where
  "set_source_policy env k requested s =
     (case source_at k s of
        None \<Rightarrow> (Some ''source does not exist in this pane context'', s)
      | Some v \<Rightarrow>
          (case tightened_capture_policy (src_policy v) requested of
             Inl e \<Rightarrow> (Some e, s)
           | Inr None \<Rightarrow> (None, s)
           | Inr (Some policy) \<Rightarrow>
               (case advance_source env k {ChangedPolicy} (put_source k (v\<lparr>src_policy := policy\<rparr>) s) of
                  (Some e, s') \<Rightarrow> (Some e, s')
                | (None, s') \<Rightarrow> (None, advance_projection s'))))"

text \<open>Waiting for a source; the answer is at once, or later by \<open>advance_source\<close>.\<close>

definition max_registered_waits :: nat where "max_registered_waits = 64"

definition wait_for_source :: "nat \<Rightarrow> nat \<Rightarrow> source_wait \<Rightarrow> ('q, 'd) step" where
  "wait_for_source p request w s =
     (case source_at (p, wait_source w) s of
        None \<Rightarrow> (Some ''source does not exist in this pane context'', s)
      | Some v \<Rightarrow>
          if wait_condition w = WaitFirstVisible \<and> (p, wait_source w) \<notin> ms_projected s
          then (Some ''pane source is not projected to the outer presenter'', s)
          else case evaluate_wait v w of
                 Some observed \<Rightarrow>
                   (None, write_out (WaitSatisfied request (wait_source w) (src_revision v) observed) s)
               | None \<Rightarrow>
                   (case producer_at p s of
                      None \<Rightarrow> (Some ''producer missing'', s)
                    | Some r \<Rightarrow>
                        if max_registered_waits \<le> length (prod_waits r)
                        then (Some ''source wait quota exceeded'', s)
                        else let s' = put_producer p
                                 (r\<lparr>prod_waits := AList.update request w (prod_waits r)\<rparr>) s
                             in (if map_of (prod_waits r) request \<noteq> None
                                 then (Some ''wait request ID is already registered'', s') else (None, s'))))"

text \<open>A wait that is cancelled or has timed out; the answer is the wait that was registered.\<close>

definition end_wait :: "nat \<Rightarrow> nat \<Rightarrow> ('q, 'd) media_state \<Rightarrow> source_wait option \<times> ('q, 'd) media_state" where
  "end_wait p request s =
     (case producer_at p s of
        None \<Rightarrow> (None, s)
      | Some v \<Rightarrow> (map_of (prod_waits v) request,
          put_producer p (v\<lparr>prod_waits := AList.delete request (prod_waits v)\<rparr>) s))"

text \<open>A media channel attaches to its source and closes.\<close>

definition attach_media :: "('q, 'd) media_env \<Rightarrow> source_key \<Rightarrow> ('q, 'd) step" where
  "attach_media env k s =
     (case source_at k s of
        None \<Rightarrow> (Some ''source missing'', s)
      | Some v \<Rightarrow>
          if 18446744073709551615 < src_generation v + 1 then (Some ''attachment generation exhausted'', s)
          else advance_source env k {ChangedAttachment, ChangedMilestones}
            (put_source k (v\<lparr>src_generation := src_generation v + 1, src_attachment := MediaIsAttached,
               src_milestones := insert MediaWasAttached (src_milestones v)\<rparr>) s))"

definition close_media :: "('q, 'd) media_env \<Rightarrow> source_key \<Rightarrow> ('q, 'd) media_state \<Rightarrow> ('q, 'd) media_state" where
  "close_media env k s =
     (case source_at k s of
        None \<Rightarrow> s
      | Some v \<Rightarrow> snd (advance_source env k {ChangedAttachment}
                         (put_source k (v\<lparr>src_attachment := MediaIsClosed\<rparr>) s)))"

section \<open>The snapshot for a projection\<close>

definition anchors_of :: "('q, 'd) media_state \<Rightarrow> nat \<Rightarrow> nat \<Rightarrow> (int \<times> nat) option" where
  "anchors_of s p a = (case producer_at p s of None \<Rightarrow> None | Some v \<Rightarrow> prod_anchors v a)"

definition snapshot_of :: "source_key \<times> ('q, 'd) source \<Rightarrow> ('q, 'd) source snapshot_source" where
  "snapshot_of e =
     (case e of (k, v) \<Rightarrow>
        \<lparr>ss_key = k, ss_kind = src_kind v, ss_retained = src_retained v, ss_playing = src_playing v,
         ss_eos_epoch = src_eos_epoch v, ss_rest = v\<rparr>)"

definition needs_keyframe :: "('q, 'd) source \<Rightarrow> bool" where
  "needs_keyframe v \<longleftrightarrow> src_kind v = Video \<and> src_playing v \<and> \<not> src_ended v \<and> src_desynchronized v"

definition projection_snapshot ::
    "('q, 'd) media_env \<Rightarrow> pane_id set \<Rightarrow> (pane_id \<Rightarrow> nat) \<Rightarrow> ('q, 'd) media_state \<Rightarrow>
     ('q, 'd) source projection_snapshot \<times> ('q, 'd) media_state" where
  "projection_snapshot env shown offsets s =
     (let live = sort (map fst (ms_nodes s));
          active = fst ` set (filter (\<lambda>(_, v). prod_pane v \<in> shown) (ms_producers s));
          nodes = resolve_nodes (anchors_of s) shown offsets (map snd (ms_nodes s));
          chosen = filter (\<lambda>(k, v). src_owner v \<in> active \<or> k \<in> node_source ` set nodes) (ms_sources s);
          projected = fst ` set chosen;
          hidden = map fst (filter (\<lambda>(_, d). del_source d \<notin> projected) (ms_deliveries s));
          changes = filter (\<lambda>k. (k \<in> ms_projected s) \<noteq> (k \<in> projected)) (map fst (ms_sources s));
          (released, s1) = take_deliveries hidden (s\<lparr>ms_projected := projected\<rparr>);
          s2 = fold (\<lambda>k s. snd (advance_source env k {ChangedVisibility} s)) changes
                 (s1\<lparr>ms_active_panes := shown\<rparr>)
      in (\<lparr>snap_revision = ms_projection_revision s2, snap_sources = map snapshot_of chosen,
            snap_nodes = nodes, snap_live_nodes = live,
            snap_videos = map fst (filter (\<lambda>(_, v). needs_keyframe v) chosen)\<rparr>,
          return_delivery_credits released s2))"

end
