(* ===== verification/Media_Ingest.thy ===== *)
theory Media_Ingest
  imports Media_Service Media_Raster
begin

text \<open>
  A media record arriving at the service (\<open>prepare_raster\<close>, \<open>ingest_record\<close> in \<open>src/src/media.rs\<close>):
  its credit is charged, a raster delta is composed with the retained frame, images and rasters are
  retained, and what is shown is handed to the session as a delivery if the queue has room. The
  parsers and the pixel codecs are the protocol crate's. The lock is released for a moment before
  the record is handed over; the model takes the step as one.
\<close>

datatype record_type = RasterRecord | ImageRecord | VideoRecord | AudioRecord | OtherRecord

record media_record =
  rec_type :: record_type
  rec_sequence :: nat
  rec_body :: bytes

record full_frame =
  ff_epoch :: nat
  ff_id :: nat
  ff_pts :: int
  ff_duration :: nat
  ff_width :: nat
  ff_height :: nat

record delta_frame =
  df_epoch :: nat
  df_base :: nat
  df_id :: nat
  df_pts :: int
  df_duration :: nat
  df_operations :: "raster_operation list"

text \<open>The formats of the protocol crate and what the configuration of a source says of them.\<close>

record 'd media_formats =
  delta_flag :: "bytes \<Rightarrow> bool"
  parse_full :: "bytes \<Rightarrow> full_frame option"
  decode_pixels :: "bytes \<Rightarrow> bytes option"
  parse_delta :: "bytes \<Rightarrow> nat \<Rightarrow> nat \<Rightarrow> nat \<Rightarrow> delta_frame option"
  raster_frame_body :: "nat \<Rightarrow> nat \<Rightarrow> nat \<Rightarrow> nat \<Rightarrow> bytes \<Rightarrow> bytes option"
  parse_video :: "bytes \<Rightarrow> video_packet option"
  parse_audio :: "bytes \<Rightarrow> video_packet option"
  image_decodes :: "'d \<Rightarrow> bytes \<Rightarrow> bool"
  conf_width :: "'d \<Rightarrow> nat"
  conf_height :: "'d \<Rightarrow> nat"
  conf_operations :: "'d \<Rightarrow> nat option"
  conf_unit :: "'d \<Rightarrow> nat"
  conf_image :: "'d \<Rightarrow> nat"

definition raster_damage_frames :: nat where "raster_damage_frames = 8"
definition raster_damage_interval :: nat where "raster_damage_interval = 100"

section \<open>Raster frames\<close>

record 'q prepared_raster =
  pre_body :: bytes
  pre_sequence :: 'q
  pre_id :: nat
  pre_pts :: int
  pre_started :: nat
  pre_pixels :: nat

datatype 'q raster_preparation = Composed "'q prepared_raster" | NotComposed full_frame_reason bool

definition be64 :: "int \<Rightarrow> bytes" where
  "be64 v = map (\<lambda>i. word_of_int (v div 2 ^ (56 - 8 * i))) [0..<8]"

definition canonical_raster_full_body ::
    "'d media_formats \<Rightarrow> nat \<Rightarrow> nat \<Rightarrow> int \<Rightarrow> nat \<Rightarrow> nat \<Rightarrow> nat \<Rightarrow> bytes \<Rightarrow> bytes option" where
  "canonical_raster_full_body fmt epoch frame pts duration w h pixels =
     do { body \<leftarrow> raster_frame_body fmt epoch frame w h pixels;
          stamped \<leftarrow> write_slice 24 (be64 pts) body;
          write_slice 32 (be64 (int duration)) stamped }"

definition fail_if_none :: "string \<Rightarrow> 'a option \<Rightarrow> string + 'a" where
  "fail_if_none msg v = (case v of None \<Rightarrow> Inl msg | Some x \<Rightarrow> Inr x)"

definition prepare_full ::
    "('q, 'd) media_env \<Rightarrow> 'd media_formats \<Rightarrow> ('q, 'd) source \<Rightarrow> bytes \<Rightarrow> nat \<Rightarrow>
     'q raster_preparation option" where
  "prepare_full env fmt v body now = do {
     f \<leftarrow> parse_full fmt body;
     if ff_width f \<noteq> conf_width fmt (src_config v) \<or> ff_height f \<noteq> conf_height fmt (src_config v) then None
     else do {
       pixels \<leftarrow> decode_pixels fmt body;
       full \<leftarrow> canonical_raster_full_body fmt (ff_epoch f) (ff_id f) (ff_pts f) (ff_duration f)
         (conf_width fmt (src_config v)) (conf_height fmt (src_config v)) pixels;
       q \<leftarrow> seq_accept env (src_sequence v) (ff_id f) (ff_epoch f);
       Some (Composed \<lparr>pre_body = full, pre_sequence = q, pre_id = ff_id f, pre_pts = ff_pts f,
         pre_started = now, pre_pixels = 0\<rparr>) } }"

text \<open>The damage charged so far in the current interval.\<close>

definition damage_window :: "('q, 'd) source \<Rightarrow> nat \<Rightarrow> nat \<times> nat" where
  "damage_window v now =
     (if raster_damage_interval \<le> now - src_damage_started v then (now, 0)
      else (src_damage_started v, src_damage_pixels v))"

definition damage_budget :: "'d media_formats \<Rightarrow> ('q, 'd) source \<Rightarrow> nat" where
  "damage_budget fmt v =
     min 18446744073709551615 (min 18446744073709551615
       (conf_width fmt (src_config v) * conf_height fmt (src_config v)) * raster_damage_frames)"

definition compose_delta ::
    "('q, 'd) media_env \<Rightarrow> 'd media_formats \<Rightarrow> ('q, 'd) source \<Rightarrow> bytes \<Rightarrow> delta_frame \<Rightarrow> nat \<times> nat \<Rightarrow>
     'q raster_preparation option" where
  "compose_delta env fmt v retained f window = do {
     base \<leftarrow> decode_pixels fmt retained;
     pixels \<leftarrow> run_ops (apply_raster_delta_operation (conf_width fmt (src_config v))) (df_operations f) base;
     q \<leftarrow> seq_accept env (src_sequence v) (df_id f) (df_epoch f);
     full \<leftarrow> canonical_raster_full_body fmt (df_epoch f) (df_id f) (df_pts f) (df_duration f)
       (conf_width fmt (src_config v)) (conf_height fmt (src_config v)) pixels;
     Some (Composed \<lparr>pre_body = full, pre_sequence = q, pre_id = df_id f, pre_pts = df_pts f,
       pre_started = fst window, pre_pixels = snd window\<rparr>) }"

text \<open>\<open>None\<close> ends the connection.\<close>

definition prepare_delta ::
    "('q, 'd) media_env \<Rightarrow> 'd media_formats \<Rightarrow> ('q, 'd) source \<Rightarrow> bytes \<Rightarrow> nat \<Rightarrow>
     'q raster_preparation option" where
  "prepare_delta env fmt v body now = do {
     limit \<leftarrow> conf_operations fmt (src_config v);
     f \<leftarrow> parse_delta fmt body (conf_width fmt (src_config v)) (conf_height fmt (src_config v)) limit;
     (case src_full_reason v of
        Some reason \<Rightarrow> Some (NotComposed reason False)
      | None \<Rightarrow>
          (case src_retained v of
             None \<Rightarrow> Some (NotComposed BaseUnavailable True)
           | Some retained \<Rightarrow> do {
               current \<leftarrow> parse_full fmt retained;
               if df_epoch f \<noteq> ff_epoch current \<or> df_base f \<noteq> ff_id current
               then Some (NotComposed BaseUnavailable True)
               else do {
                 damaged \<leftarrow> raster_damage_pixels (df_operations f);
                 let (started, so_far) = damage_window v now;
                 let charged = sat_add64 so_far damaged;
                 if damage_budget fmt v < charged then Some (NotComposed DamageBudget True)
                 else compose_delta env fmt v retained f (started, charged) } })) }"

definition prepare_raster ::
    "('q, 'd) media_env \<Rightarrow> 'd media_formats \<Rightarrow> ('q, 'd) source \<Rightarrow> bytes \<Rightarrow> nat \<Rightarrow>
     'q raster_preparation option" where
  "prepare_raster env fmt v body now =
     (if length body < 8 then None
      else if delta_flag fmt body then prepare_delta env fmt v body now
      else prepare_full env fmt v body now)"

section \<open>One record\<close>

definition validate_encoded_image ::
    "'d media_formats \<Rightarrow> source_key \<Rightarrow> media_record \<Rightarrow> ('q, 'd) media_state \<Rightarrow> string option" where
  "validate_encoded_image fmt k r s =
     (if rec_type r \<noteq> ImageRecord then None
      else case source_at k s of
             None \<Rightarrow> Some ''source no longer exists''
           | Some v \<Rightarrow>
               if src_kind v \<noteq> Image then None
               else if length (rec_body r) \<noteq> conf_image fmt (src_config v)
               then Some ''image body count or length is invalid''
               else if \<not> image_decodes fmt (src_config v) (rec_body r) then Some ''image decoder rejected body''
               else None)"

text \<open>
  The record against its source: the source after it, the body to retain and the key frame that ends
  a recovery. \<open>None\<close> ends the connection; nothing has changed then.
\<close>

definition accept_video ::
    "('q, 'd) media_env \<Rightarrow> bool \<Rightarrow> video_packet \<Rightarrow> ('q, 'd) source \<Rightarrow>
     (('q, 'd) source \<times> bytes option \<times> (nat \<times> int) option) option" where
  "accept_video env shown p v = do {
     q \<leftarrow> seq_accept env (src_sequence v) (vp_id p) (vp_epoch p);
     let v1 = v\<lparr>src_sequence := q, src_last_pts := Some (vp_pts p), src_last_media := vp_id p\<rparr>;
     if src_desynchronized v \<and> src_minimum_epoch v \<le> vp_epoch p \<and> vp_key p
     then Some (v1\<lparr>src_desynchronized := False, src_pending_reason := None\<rparr>, None,
                Some (vp_epoch p, vp_pts p))
     else if \<not> shown then Some (v1\<lparr>src_desynchronized := True\<rparr>, None, None)
     else Some (v1, None, None) }"

definition accept_record ::
    "('q, 'd) media_env \<Rightarrow> 'd media_formats \<Rightarrow> bool \<Rightarrow> 'q prepared_raster option \<Rightarrow> media_record \<Rightarrow>
     ('q, 'd) source \<Rightarrow> (('q, 'd) source \<times> bytes option \<times> (nat \<times> int) option) option" where
  "accept_record env fmt shown prepared r v =
     (case (src_kind v, rec_type r) of
        (Raster, RasterRecord) \<Rightarrow> map_option (\<lambda>p. (v, Some (pre_body p), None)) prepared
      | (Image, ImageRecord) \<Rightarrow>
          if src_retained v \<noteq> None \<or> length (rec_body r) \<noteq> conf_image fmt (src_config v) then None
          else Some (v\<lparr>src_last_media := 1\<rparr>, Some (rec_body r), None)
      | (Video, VideoRecord) \<Rightarrow> do {
          p \<leftarrow> parse_video fmt (rec_body r);
          if conf_unit fmt (src_config v) < vp_data p then None else accept_video env shown p v }
      | (Audio link, AudioRecord) \<Rightarrow> do {
          p \<leftarrow> parse_audio fmt (rec_body r);
          if conf_unit fmt (src_config v) < vp_data p then None
          else do {
            q \<leftarrow> seq_accept env (src_sequence v) (vp_id p) (vp_epoch p);
            Some (v\<lparr>src_sequence := q, src_last_pts := Some (vp_pts p), src_last_media := vp_id p\<rparr>,
                  None, None) } }
      | _ \<Rightarrow> None)"

text \<open>What goes to the session: of a raster whichever is shorter, the delta or the composed frame.\<close>

definition forward_body :: "'d media_formats \<Rightarrow> source_kind \<Rightarrow> media_record \<Rightarrow> bytes option \<Rightarrow> bytes" where
  "forward_body fmt kind r retained =
     (if kind \<noteq> Raster then rec_body r
      else if rec_type r = RasterRecord \<and> 8 \<le> length (rec_body r) \<and> delta_flag fmt (rec_body r) \<and>
        (case retained of None \<Rightarrow> True | Some full \<Rightarrow> length (rec_body r) < length full)
      then rec_body r
      else case retained of None \<Rightarrow> rec_body r | Some full \<Rightarrow> full)"

definition is_forwarded :: "bool \<Rightarrow> source_key \<Rightarrow> ('q, 'd) source \<Rightarrow> ('q, 'd) media_state \<Rightarrow> bool" where
  "is_forwarded shown k v s \<longleftrightarrow>
     src_kind v \<noteq> Image \<and> shown \<and> \<not> src_desynchronized v \<and>
     (case src_kind v of
        Audio (Some video) \<Rightarrow>
          (case source_at (fst k, video) s of None \<Rightarrow> True | Some w \<Rightarrow> \<not> src_desynchronized w)
      | _ \<Rightarrow> True)"

definition body_length :: "bytes option \<Rightarrow> nat" where
  "body_length b = (case b of None \<Rightarrow> 0 | Some full \<Rightarrow> length full)"

text \<open>The source once the record is accepted.\<close>

definition note_record ::
    "'d media_formats \<Rightarrow> bool \<Rightarrow> 'q prepared_raster option \<Rightarrow> media_record \<Rightarrow> bytes option \<Rightarrow>
     ('q, 'd) source \<Rightarrow> ('q, 'd) source" where
  "note_record fmt shown prepared r retained v =
     (let v1 = (case prepared of
            None \<Rightarrow> v
          | Some p \<Rightarrow> v\<lparr>src_sequence := pre_sequence p, src_last_media := pre_id p, src_full_reason := None,
              src_damage_started := pre_started p, src_damage_pixels := pre_pixels p,
              src_last_pts := Some (pre_pts p)\<rparr>);
          v2 = (case retained of
            None \<Rightarrow> v1
          | Some full \<Rightarrow> v1\<lparr>src_retained := Some full, src_retained_bytes := length full\<rparr>)
      in v2\<lparr>src_last_record := rec_sequence r,
            src_milestones := src_milestones v2 \<union> {FirstMediaRecord, DecoderInitialized, FirstDecodedOutput} \<union>
              (if shown then {FirstVisiblePresentation} else {}) \<union>
              (if rec_type r = VideoRecord \<and>
                 (case parse_video fmt (rec_body r) of None \<Rightarrow> False | Some p \<Rightarrow> vp_key p)
               then {RandomAccessAccepted} else {})\<rparr>)"

definition queue_has_room :: "nat \<Rightarrow> ('q, 'd) media_state \<Rightarrow> bool" where
  "queue_has_room n s \<longleftrightarrow>
     ms_events s \<and> (ms_queued_bytes s = 0 \<or>
       sat_add64 (ms_queued_bytes s) n \<le> bridge_queue_limit (ms_config s))"

datatype ingest_outcome =
    IngestError string
  | IngestAccepted
  | DeltaRejected full_frame_reason bool credit_return

text \<open>The video's clients cannot go on without a key frame.\<close>

definition lose_video :: "('q, 'd) media_env \<Rightarrow> source_key \<Rightarrow> ('q, 'd) media_state \<Rightarrow> ('q, 'd) media_state" where
  "lose_video env k s =
     (case source_at k s of
        None \<Rightarrow> s
      | Some v \<Rightarrow>
          if src_kind v \<noteq> Video then s
          else request_keyframe env k None ReasonTransportLoss
                 (put_source k (v\<lparr>src_desynchronized := True\<rparr>) s))"

definition return_now :: "source_key \<Rightarrow> nat \<Rightarrow> ('q, 'd) media_state \<Rightarrow> ('q, 'd) media_state" where
  "return_now k bytes s =
     (case prepare_credit_write k bytes 1 s of (c, s') \<Rightarrow> write_delivery_credit c s')"

text \<open>\<open>taken\<close>: the session's queue of media events has room.\<close>

definition deliver_record ::
    "('q, 'd) media_env \<Rightarrow> bool \<Rightarrow> bool \<Rightarrow> source_key \<Rightarrow> nat \<Rightarrow> bytes \<Rightarrow> (nat \<times> int) option \<Rightarrow>
     ('q, 'd) media_state \<Rightarrow> ingest_outcome \<times> ('q, 'd) media_state" where
  "deliver_record env taken forward k bytes body recovered s =
     (if forward \<and> queue_has_room (length body) s then
        if 18446744073709551615 < ms_next_delivery s + 1
        then (IngestError ''bridge delivery IDs exhausted'', s)
        else let i = ms_next_delivery s + 1;
                 d = \<lparr>del_source = k, del_credit = bytes, del_queued = length body\<rparr>;
                 s1 = s\<lparr>ms_next_delivery := i,
                        ms_queued_bytes := sat_add64 (ms_queued_bytes s) (length body),
                        ms_deliveries := AList.update i d (ms_deliveries s)\<rparr>
             in if taken then (IngestAccepted, write_out (LiveMedia i k recovered body) s1)
                else (IngestAccepted, lose_video env k (return_now k bytes (remove_delivery i d s1)))
      else (IngestAccepted,
        (let s1 = return_now k bytes s in if forward then lose_video env k s1 else s1)))"

definition ingest_accepted ::
    "('q, 'd) media_env \<Rightarrow> 'd media_formats \<Rightarrow> bool \<Rightarrow> source_key \<Rightarrow> media_record \<Rightarrow>
     'q prepared_raster option \<Rightarrow> ('q, 'd) source \<Rightarrow> ('q, 'd) source \<times> bytes option \<times> (nat \<times> int) option \<Rightarrow>
     ('q, 'd) media_state \<Rightarrow> ingest_outcome \<times> ('q, 'd) media_state" where
  "ingest_accepted env fmt taken k r prepared v accepted s =
     (case accepted of (v1, retained, recovered) \<Rightarrow>
        let shown = (k \<in> ms_projected s);
            old = src_retained_bytes v1;
            new = body_length retained;
            total = sat_add64 (ms_retained_bytes s - old) new;
            forward = is_forwarded shown k v1 (put_source k v1 s);
            body = forward_body fmt (src_kind v1) r retained;
            s1 = (put_source k (note_record fmt shown prepared r retained v1) s)\<lparr>ms_retained_bytes := total\<rparr>;
            s2 = (if src_kind v1 = Image \<and> 0 < new \<and> old = 0 then advance_projection s1 else s1)
        in if retained_limit (ms_config s) < total
           then (IngestError ''aggregate retained media quota exceeded'', put_source k v1 s)
           else case advance_source env k {ChangedEpoch, ChangedMilestones, ChangedCredit} s2 of
                  (Some e, s') \<Rightarrow> (IngestError e, s')
                | (None, s') \<Rightarrow> deliver_record env taken forward k (length (rec_body r)) body recovered s')"

definition ingest_record ::
    "('q, 'd) media_env \<Rightarrow> 'd media_formats \<Rightarrow> nat \<Rightarrow> bool \<Rightarrow> source_key \<Rightarrow> media_record \<Rightarrow>
     ('q, 'd) media_state \<Rightarrow> ingest_outcome \<times> ('q, 'd) media_state" where
  "ingest_record env fmt now taken k r s =
     (case validate_encoded_image fmt k r s of
        Some e \<Rightarrow> (IngestError e, s)
      | None \<Rightarrow>
          (case consume_source_credit k (length (rec_body r)) s of
             (Some e, s1) \<Rightarrow> (IngestError e, s1)
           | (None, s1) \<Rightarrow>
               (case source_at k s1 of
                  None \<Rightarrow> (IngestError ''source no longer exists'', s1)
                | Some v \<Rightarrow>
                    (case (if src_kind v = Raster \<and> rec_type r = RasterRecord
                           then map_option Some (prepare_raster env fmt v (rec_body r) now) else Some None) of
                       None \<Rightarrow> (IngestError ''invalid raster frame'', s1)
                     | Some (Some (NotComposed reason notify)) \<Rightarrow>
                         (case prepare_credit_write k (length (rec_body r)) 1
                                 (put_source k (v\<lparr>src_full_reason := Some reason\<rparr>) s1) of
                            (c, s2) \<Rightarrow> (DeltaRejected reason notify c, s2))
                     | Some prepared \<Rightarrow>
                         (let p = (case prepared of Some (Composed p) \<Rightarrow> Some p | _ \<Rightarrow> None)
                          in case accept_record env fmt (k \<in> ms_projected s1) p r v of
                               None \<Rightarrow> (IngestError ''invalid media record'', s1)
                             | Some accepted \<Rightarrow> ingest_accepted env fmt taken k r p v accepted s1)))))"

text \<open>The media channel's answer to a rejected delta: the credit goes back to the producer.\<close>

definition answer_rejection :: "source_key \<Rightarrow> ingest_outcome \<Rightarrow> ('q, 'd) media_state \<Rightarrow> ('q, 'd) media_state" where
  "answer_rejection k outcome s =
     (case outcome of
        DeltaRejected reason notify c \<Rightarrow>
          write_delivery_credit c
            (if ret_writer c \<and> notify then write_out (NeedFullFrame k reason) s else s)
      | _ \<Rightarrow> s)"

end
