(* ===== verification/Session_Media.thy ===== *)
theory Session_Media
  imports Session_Actor Media_Scene
begin

text \<open>
  The media projection of the session actor (\<open>project_logical_node\<close>, \<open>sync_media_inner\<close> in
  \<open>src/src/session.rs\<close>): every scene node of a shown pane is translated to the grid, clipped to its
  pane and cut by the panes above it; its pieces get stable fragment ids, and the list of all pieces
  goes to the client, which places them on the outer server. The media service is reached through
  its revision and its snapshot; the metrics recorded on the way are left out.
\<close>

definition max_node_fragments :: nat where "max_node_fragments = 8"
definition max_projected_nodes :: nat where "max_projected_nodes = 256"

section \<open>One node\<close>

record bridge_node =
  bn_producer :: nat
  bn_node :: nat
  bn_fragment :: nat
  bn_source :: source_key
  bn_x :: int
  bn_y :: int
  bn_width :: int
  bn_height :: int
  bn_z :: int
  bn_visible :: bool
  bn_clip :: fixed_rect

datatype projection_issue = Arithmetic | FragmentLimit

text \<open>
  Where a node lies and what of it its pane, the area and its own clip leave: \<open>None\<close> for numbers that
  do not fit, \<open>Some None\<close> for nothing left.
\<close>

definition node_clip ::
    "scene_node \<Rightarrow> rect \<Rightarrow> rect \<Rightarrow> ((int \<times> int) \<times> fixed_rect) option option" where
  "node_clip n pane area = do {
     dx \<leftarrow> checked64 (int (rect_x pane) * fixed_one);
     dy \<leftarrow> checked64 (int (rect_y pane) * fixed_one);
     x' \<leftarrow> checked64 (sn_x n + dx);
     y' \<leftarrow> checked64 (sn_y n + dy);
     bounds \<leftarrow> fr_new x' y' (sn_width n) (sn_height n);
     within \<leftarrow> from_cells pane;
     (case intersect bounds within of
        None \<Rightarrow> Some None
      | Some c1 \<Rightarrow> do {
          shown \<leftarrow> from_cells area;
          (case intersect c1 shown of
             None \<Rightarrow> Some None
           | Some c2 \<Rightarrow>
               (case sn_clip n of
                  None \<Rightarrow> Some (Some ((x', y'), c2))
                | Some (cx, cy, w, h) \<Rightarrow> do {
                    cx' \<leftarrow> checked64 (cx + dx);
                    cy' \<leftarrow> checked64 (cy + dy);
                    downstream \<leftarrow> fr_new cx' cy' w h;
                    Some (map_option (\<lambda>c. ((x', y'), c)) (intersect c2 downstream)) })) }) }"

text \<open>The pieces of a node, each with the node the client will place there.\<close>

definition base_node :: "scene_node \<Rightarrow> int \<times> int \<Rightarrow> fixed_rect \<Rightarrow> bridge_node" where
  "base_node n xy clip =
     \<lparr>bn_producer = sn_producer n, bn_node = sn_node n, bn_fragment = 0, bn_source = node_source n,
      bn_x = fst xy, bn_y = snd xy, bn_width = sn_width n, bn_height = sn_height n, bn_z = sn_z n,
      bn_visible = True, bn_clip = clip\<rparr>"

definition project_logical_node ::
    "scene_node \<Rightarrow> rect \<Rightarrow> rect \<Rightarrow> fixed_rect list \<Rightarrow>
     projection_issue + (fixed_rect \<times> bridge_node) list" where
  "project_logical_node n pane area occluders =
     (if \<not> sn_visible n then Inr []
      else case node_clip n pane area of
             None \<Rightarrow> Inl Arithmetic
           | Some None \<Rightarrow> Inr []
           | Some (Some (xy, clip)) \<Rightarrow>
               (case subtract_all clip occluders max_node_fragments of
                  None \<Rightarrow> Inl FragmentLimit
                | Some fragments \<Rightarrow> Inr (map (\<lambda>f. (f, base_node n xy clip)) fragments)))"

section \<open>All nodes\<close>

type_synonym fragment_assignments = "node_key \<rightharpoonup> fragment_map"

text \<open>\<open>entry(key).or_default().assign(fragments)\<close>.\<close>

definition assign_fragments ::
    "node_key \<Rightarrow> fixed_rect list \<Rightarrow> fragment_assignments \<Rightarrow>
     (nat \<times> fixed_rect) list option \<times> fragment_assignments" where
  "assign_fragments k fs m =
     (let (answer, m') = fragment_assign fs (case m k of None \<Rightarrow> Map.empty | Some v \<Rightarrow> v)
      in (answer, m(k \<mapsto> m')))"

record projected =
  pr_assignments :: fragment_assignments
  pr_nodes :: "bridge_node list"
  pr_fragment_omissions :: nat
  pr_arithmetic_omissions :: nat
  pr_quota_omissions :: nat

text \<open>The order of the nodes: their panes' priority, higher \<open>z\<close> first, then the node's key.\<close>

definition pane_rank :: "pane_id list \<Rightarrow> pane_id \<Rightarrow> nat option" where
  "pane_rank priority p = position (\<lambda>q. q = p) priority"

definition node_order ::
    "pane_id list \<Rightarrow> scene_node \<Rightarrow> (nat \<times> int) \<times> (nat \<times> nat)" where
  "node_order priority n =
     ((case pane_rank priority (sn_pane n) of None \<Rightarrow> 18446744073709551615 | Some r \<Rightarrow> r, - sn_z n),
      node_key n)"

text \<open>The outer rectangles of the panes drawn after the one at \<open>i\<close>.\<close>

definition occluders_above :: "pane_projection list \<Rightarrow> nat \<Rightarrow> fixed_rect list" where
  "occluders_above ps i = List.map_filter (from_cells \<circ> proj_outer) (drop (i + 1) ps)"

definition place_fragments ::
    "(nat \<times> fixed_rect) list \<Rightarrow> (fixed_rect \<times> bridge_node) list \<Rightarrow> bridge_node list" where
  "place_fragments assigned fragments =
     map (\<lambda>((i, clip), (_, b)). b\<lparr>bn_fragment := i, bn_clip := clip\<rparr>) (zip assigned fragments)"

text \<open>A node that cannot be placed loses its ids.\<close>

definition omit_node :: "projection_issue \<Rightarrow> node_key \<Rightarrow> projected \<Rightarrow> projected" where
  "omit_node issue k st =
     (let st' = st\<lparr>pr_assignments := snd (assign_fragments k [] (pr_assignments st))\<rparr>
      in case issue of
           FragmentLimit \<Rightarrow> st'\<lparr>pr_fragment_omissions := pr_fragment_omissions st + 1\<rparr>
         | Arithmetic \<Rightarrow> st'\<lparr>pr_arithmetic_omissions := pr_arithmetic_omissions st + 1\<rparr>)"

text \<open>One turn of the loop: the new state, and whether the node quota ends it.\<close>

definition project_node ::
    "pane_projection list \<Rightarrow> rect \<Rightarrow> scene_node \<Rightarrow> projected \<Rightarrow> projected \<times> bool" where
  "project_node ps area n st =
     (case position (\<lambda>q. proj_pane q = sn_pane n) ps of
        None \<Rightarrow> (st, False)
      | Some i \<Rightarrow>
          (case project_logical_node n (proj_content (ps ! i)) area (occluders_above ps i) of
             Inl issue \<Rightarrow> (omit_node issue (node_key n) st, False)
           | Inr fragments \<Rightarrow>
               (case assign_fragments (node_key n) (map fst fragments) (pr_assignments st) of
                  (None, m) \<Rightarrow>
                    (st\<lparr>pr_assignments := m,
                        pr_arithmetic_omissions := pr_arithmetic_omissions st + 1\<rparr>, False)
                | (Some assigned, m) \<Rightarrow>
                    if max_projected_nodes < length (pr_nodes st) + length assigned
                    then (st\<lparr>pr_assignments := m\<rparr>, True)
                    else (st\<lparr>pr_assignments := m,
                             pr_nodes := pr_nodes st @ place_fragments assigned fragments\<rparr>, False))))"

fun project_nodes ::
    "pane_projection list \<Rightarrow> rect \<Rightarrow> scene_node list \<Rightarrow> projected \<Rightarrow> projected" where
  "project_nodes ps area [] st = st"
| "project_nodes ps area (n # ns) st =
     (case project_node ps area n st of
        (st', True) \<Rightarrow> st'\<lparr>pr_quota_omissions := length (n # ns)\<rparr>
      | (st', False) \<Rightarrow> project_nodes ps area ns st')"

definition start_projection :: "fragment_assignments \<Rightarrow> projected" where
  "start_projection m =
     \<lparr>pr_assignments = m, pr_nodes = [], pr_fragment_omissions = 0, pr_arithmetic_omissions = 0,
      pr_quota_omissions = 0\<rparr>"

definition project_scene ::
    "pane_id list \<Rightarrow> pane_projection list \<Rightarrow> rect \<Rightarrow> scene_node list \<Rightarrow> fragment_assignments \<Rightarrow>
     projected" where
  "project_scene priority ps area nodes m =
     project_nodes ps area (sort_key (node_order priority) nodes) (start_projection m)"

section \<open>Synchronising with the client\<close>

text \<open>What the session keeps between two synchronisations.\<close>

record media_view =
  fragment_assignments :: fragment_assignments
  last_projection_warning :: "media_projection_key option"
  last_media_projection :: "media_projection_key option"
  media_projection_revision :: nat

datatype retained_record = RasterFrame | ImageData

datatype 'd media_effect =
    DeactivateBridge
  | OmittedNodes nat nat nat
  | MediaSnapshot nat "'d snapshot_source list" "bridge_node list" "source_key list"
  | RetainedMedia source_key retained_record bytes

text \<open>
  The service as the session sees it, and whether the client's connection takes a record.
\<close>

record 'd media_peer =
  service_revision :: nat
  service_snapshot :: "pane_id set \<Rightarrow> (pane_id \<Rightarrow> nat) \<Rightarrow> 'd projection_snapshot"
  takes_snapshot :: bool
  takes_body :: "source_key \<Rightarrow> bool"

definition viewport_offset :: "'v session \<Rightarrow> pane_id \<Rightarrow> nat" where
  "viewport_offset s p =
     (case pane_get p s of None \<Rightarrow> 0
      | Some v \<Rightarrow> (case pane_copy v of None \<Rightarrow> 0 | Some copy \<Rightarrow> copy_offset copy))"

definition retained_type :: "source_kind \<Rightarrow> retained_record option" where
  "retained_type k = (case k of Raster \<Rightarrow> Some RasterFrame | Image \<Rightarrow> Some ImageData | _ \<Rightarrow> None)"

definition should_replay_retained :: "source_key \<Rightarrow> source_key option \<Rightarrow> bool" where
  "should_replay_retained source live \<longleftrightarrow> Some source \<noteq> live"

text \<open>The retained bodies replayed in order; \<open>False\<close>: the connection failed on the way.\<close>

fun replay_retained ::
    "(source_key \<Rightarrow> bool) \<Rightarrow> source_key option \<Rightarrow> 'd snapshot_source list \<Rightarrow>
     bool \<times> 'd media_effect list" where
  "replay_retained takes live [] = (True, [])"
| "replay_retained takes live (s # ss) =
     (case (if should_replay_retained (ss_key s) live then ss_retained s else None,
            retained_type (ss_kind s)) of
        (Some body, Some kind) \<Rightarrow>
          if takes (ss_key s)
          then (let (ok, rest) = replay_retained takes live ss
                in (ok, RetainedMedia (ss_key s) kind body # rest))
          else (False, [])
      | _ \<Rightarrow> replay_retained takes live ss)"

text \<open>The media half of \<open>sync_media_inner\<close>, once the tab and its projections are known.\<close>

definition send_projection ::
    "'d media_peer \<Rightarrow> source_key option \<Rightarrow> 'd projection_snapshot \<Rightarrow> nat \<Rightarrow> projected \<Rightarrow>
     media_view \<Rightarrow> media_view \<times> 'd media_effect list" where
  "send_projection peer live snap layout pr mv =
     (let key = \<lparr>virtual_revision = snap_revision snap, projected_layout_revision = layout\<rparr>;
          counts = (pr_fragment_omissions pr, pr_arithmetic_omissions pr, pr_quota_omissions pr);
          mv1 = mv\<lparr>fragment_assignments := pr_assignments pr\<rparr>;
          warn = (counts \<noteq> (0, 0, 0) \<and> last_projection_warning mv \<noteq> Some key);
          mv2 = (if warn then mv1\<lparr>last_projection_warning := Some key\<rparr> else mv1);
          warning = (if warn
                     then [OmittedNodes (fst counts) (fst (snd counts)) (snd (snd counts))] else []);
          revision = wrapping_inc64 (media_projection_revision mv)
      in if \<not> takes_snapshot peer then (mv2, warning)
         else let (ok, replayed) = replay_retained (takes_body peer) live (snap_sources snap);
                  out = warning @ MediaSnapshot revision (snap_sources snap) (pr_nodes pr)
                          (snap_videos snap) # replayed
              in if ok then (mv2\<lparr>last_media_projection := Some key,
                               media_projection_revision := revision\<rparr>, out)
                 else (mv2, out))"

text \<open>\<open>None\<close>: the placement of the tab's tiled tree panics.\<close>

definition sync_media ::
    "'d media_peer \<Rightarrow> bool \<Rightarrow> source_key option \<Rightarrow> 'v session \<Rightarrow> media_view \<Rightarrow>
     (media_view \<times> 'd media_effect list) option" where
  "sync_media peer force live s mv =
     (case attached s of
        None \<Rightarrow> Some (mv, [DeactivateBridge])
      | Some c \<Rightarrow>
          if \<not> client_vivid c then Some (mv, [DeactivateBridge])
          else (case active_tab s of
                  None \<Rightarrow> Some (mv, [])
                | Some t \<Rightarrow> do {
                    ps \<leftarrow> visible_projections t (content_area s);
                    let key = \<lparr>virtual_revision = service_revision peer,
                               projected_layout_revision = layout_revision s\<rparr>;
                    Some (if \<not> should_sync_media force (last_media_projection mv) key then (mv, [])
                      else let snap = service_snapshot peer (proj_pane ` set ps) (viewport_offset s);
                               kept = fragment_assignments mv |` set (snap_live_nodes snap);
                               pr = project_scene (projection_pane_priority t ps) ps
                                      (content_area s) (snap_nodes snap) kept
                           in send_projection peer live snap (layout_revision s) pr
                                (mv\<lparr>fragment_assignments := kept\<rparr>)) }))"

end
