(* ===== verification/Media_View.thy ===== *)
theory Media_View
  imports Session_Media Session_View
begin

text \<open>
  What the client is told to show: the pieces of a scene node cover exactly the part of the node
  that its pane, the area, its own clip and the panes above leave visible, each point once; pieces
  have distinct names, are bounded in number, and do not depend on the order of the service's map.
\<close>

section \<open>Points\<close>

definition in_cells :: "rect \<Rightarrow> int \<Rightarrow> int \<Rightarrow> bool" where
  "in_cells r px py \<longleftrightarrow>
     int (rect_x r) * fixed_one \<le> px \<and> px < int (rect_x r + rect_width r) * fixed_one \<and>
     int (rect_y r) * fixed_one \<le> py \<and> py < int (rect_y r + rect_height r) * fixed_one"

definition in_box :: "int \<Rightarrow> int \<Rightarrow> int \<times> int \<times> int \<times> int \<Rightarrow> int \<Rightarrow> int \<Rightarrow> bool" where
  "in_box dx dy b px py =
     (case b of (bx, byy, w, h) \<Rightarrow> bx + dx \<le> px \<and> px < bx + dx + w \<and> byy + dy \<le> py \<and> py < byy + dy + h)"

text \<open>Numbers of 64 bits, as the fields of a node are.\<close>

definition i64_box :: "int \<times> int \<times> int \<times> int \<Rightarrow> bool" where
  "i64_box b = (case b of (bx, byy, w, h) \<Rightarrow> w \<le> i64_max \<and> h \<le> i64_max)"

definition node_box :: "scene_node \<Rightarrow> int \<times> int \<times> int \<times> int" where
  "node_box n = (sn_x n, sn_y n, sn_width n, sn_height n)"

definition i64_node :: "scene_node \<Rightarrow> bool" where
  "i64_node n \<longleftrightarrow> i64_box (node_box n) \<and> (\<forall>c. sn_clip n = Some c \<longrightarrow> i64_box c)"

definition projection_fits :: "pane_projection \<Rightarrow> bool" where
  "projection_fits q \<longleftrightarrow> rect_ok (proj_outer q) \<and> rect_ok (proj_content q)"

text \<open>The point of the grid shows the node in the pane projected at \<open>i\<close>.\<close>

definition clip_shows :: "scene_node \<Rightarrow> rect \<Rightarrow> rect \<Rightarrow> int \<Rightarrow> int \<Rightarrow> bool" where
  "clip_shows n pane area px py \<longleftrightarrow>
     (let dx = int (rect_x pane) * fixed_one; dy = int (rect_y pane) * fixed_one
      in in_box dx dy (node_box n) px py \<and> in_cells pane px py \<and> in_cells area px py \<and>
         (case sn_clip n of None \<Rightarrow> True | Some c \<Rightarrow> in_box dx dy c px py))"

definition node_shows ::
    "pane_projection list \<Rightarrow> rect \<Rightarrow> scene_node \<Rightarrow> int \<Rightarrow> int \<Rightarrow> bool" where
  "node_shows ps area n px py \<longleftrightarrow>
     sn_visible n \<and>
     (\<exists>below q above. ps = below @ q # above \<and> proj_pane q = sn_pane n \<and>
        proj_pane q \<notin> proj_pane ` set below \<and>
        clip_shows n (proj_content q) area px py \<and>
        (\<forall>r\<in>set above. \<not> in_cells (proj_outer r) px py))"

text \<open>The rectangle covers these points, or there is none and there are no points.\<close>

definition region_is :: "fixed_rect option \<Rightarrow> (int \<Rightarrow> int \<Rightarrow> bool) \<Rightarrow> bool" where
  "region_is r P \<longleftrightarrow>
     (case r of None \<Rightarrow> \<forall>px py. \<not> P px py
      | Some f \<Rightarrow> fr_valid f \<and> (\<forall>px py. covers f px py = P px py))"

lemma region_intersect:
  assumes "region_is (Some a) P" and "region_is (Some b) Q"
  shows "region_is (intersect a b) (\<lambda>px py. P px py \<and> Q px py)"
  using assms intersect_SomeD(1,2)[of a b] intersect_NoneD[of a b]
  by (cases "intersect a b") (auto simp: region_is_def)

lemma region_cells:
  assumes "rect_ok r"
  shows "region_is (from_cells r) (in_cells r)"
proof (cases "rect_width r = 0 \<or> rect_height r = 0")
  case True
  then have "from_cells r = None" "\<not> in_cells r px py" for px py
    by (auto simp: from_cells_def fr_new_def in_cells_def checked64_def split: bind_splits if_splits)
  then show ?thesis by (simp add: region_is_def)
next
  case False
  let ?f = "FixedRect (int (rect_x r) * fixed_one) (int (rect_y r) * fixed_one)
    (int (rect_width r) * fixed_one) (int (rect_height r) * fixed_one)"
  have b: "int (rect_x r) + int (rect_width r) \<le> 65535" "int (rect_y r) + int (rect_height r) \<le> 65535"
    using assms by (auto simp: rect_ok_def)
  then have "from_cells r = Some ?f"
    using False by (simp add: from_cells_def fr_new_def checked64_def fixed_one_def)
  moreover have "fr_valid ?f"
    using False b by (simp add: fr_valid_def region_limits fixed_one_def)
  ultimately show ?thesis by (auto simp: region_is_def covers_FixedRect in_cells_def algebra_simps)
qed

lemma region_box:
  assumes "checked64 (bx + dx) = Some x'" and "checked64 (byy + dy) = Some y'"
    and "fr_new x' y' w h = Some f" and "i64_box (bx, byy, w, h)"
  shows "region_is (Some f) (in_box dx dy (bx, byy, w, h))"
proof -
  have x: "x' = bx + dx" "y' = byy + dy" "i64_min \<le> x'" "i64_min \<le> y'"
    using assms(1,2) by (auto simp: checked64_def i64_min_def split: if_splits)
  with fr_new_valid[OF x(3,4) _ _ assms(3)] assms(4) show ?thesis
    by (simp add: region_is_def i64_box_def fr_new_Some[OF assms(3)] covers_FixedRect in_box_def)
qed

section \<open>One node\<close>

lemma node_clip_exact:
  assumes ok: "rect_ok pane" "rect_ok area" "i64_node n" and clip: "node_clip n pane area = Some r"
  shows "region_is (map_option snd r) (clip_shows n pane area)"
proof -
  let ?dx = "int (rect_x pane) * fixed_one" and ?dy = "int (rect_y pane) * fixed_one"
  obtain x' y' bounds within where p: "checked64 (sn_x n + ?dx) = Some x'"
    "checked64 (sn_y n + ?dy) = Some y'" "fr_new x' y' (sn_width n) (sn_height n) = Some bounds"
    "from_cells pane = Some within" "checked64 ?dx = Some ?dx" "checked64 ?dy = Some ?dy"
    using clip by (auto simp: node_clip_def bind_eq_Some_conv checked64_def split: if_splits)
  note eq = clip[unfolded node_clip_def, simplified p bind.bind_lunit]
  have "region_is (Some bounds) (in_box ?dx ?dy (node_box n))"
    using region_box[OF p(1-3)] ok(3) by (simp add: i64_node_def node_box_def)
  from region_intersect[OF this region_cells[OF ok(1), unfolded p(4)]]
  have c1: "region_is (intersect bounds within)
      (\<lambda>px py. in_box ?dx ?dy (node_box n) px py \<and> in_cells pane px py)" .
  show ?thesis
  proof (cases "intersect bounds within")
    case None
    with eq c1 show ?thesis by (auto simp: region_is_def clip_shows_def Let_def)
  next
    case (Some within')
    with eq obtain shown where s: "from_cells area = Some shown" by (auto simp: bind_eq_Some_conv)
    note c2 = region_intersect[OF c1[unfolded Some] region_cells[OF ok(2), unfolded s]]
    show ?thesis
    proof (cases "intersect within' shown = None \<or> sn_clip n = None")
      case True
      with eq Some s c2 show ?thesis
        by (auto simp: region_is_def clip_shows_def Let_def split: option.splits)
    next
      case False
      then obtain m cx cy w h where m: "intersect within' shown = Some m" "sn_clip n = Some (cx, cy, w, h)"
        by auto
      with eq Some s obtain cx' cy' down where q: "checked64 (cx + ?dx) = Some cx'"
        "checked64 (cy + ?dy) = Some cy'" "fr_new cx' cy' w h = Some down"
        and r: "r = map_option (\<lambda>c. ((x', y'), c)) (intersect m down)"
        by (auto simp: bind_eq_Some_conv)
      from region_box[OF q] ok(3) m have "region_is (Some down) (in_box ?dx ?dy (cx, cy, w, h))"
        by (simp add: i64_node_def)
      from region_intersect[OF c2[unfolded m] this] m show ?thesis
        by (auto simp: r clip_shows_def Let_def region_is_def split: option.splits)
    qed
  qed
qed

definition pieces_of :: "pane_projection list \<Rightarrow> rect \<Rightarrow> scene_node \<Rightarrow> bridge_node list \<Rightarrow> bool" where
  "pieces_of ps area n bs \<longleftrightarrow>
     (\<forall>b\<in>set bs. (bn_producer b, bn_node b) = node_key n \<and> bn_fragment b < 256) \<and>
     distinct (map bn_fragment bs) \<and> length bs \<le> max_node_fragments \<and>
     (\<forall>px py. cover_count (map bn_clip bs) px py = (if node_shows ps area n px py then 1 else 0))"

lemma node_shows_at:
  assumes "position (\<lambda>q. proj_pane q = sn_pane n) ps = Some i"
  shows "node_shows ps area n px py \<longleftrightarrow> sn_visible n \<and> clip_shows n (proj_content (ps ! i)) area px py \<and>
    (\<forall>r\<in>set (drop (i + 1) ps). \<not> in_cells (proj_outer r) px py)"
proof
  assume "node_shows ps area n px py"
  then obtain below q above where s: "sn_visible n" "ps = below @ q # above" "proj_pane q = sn_pane n"
    "proj_pane q \<notin> proj_pane ` set below" "clip_shows n (proj_content q) area px py"
    "\<forall>r\<in>set above. \<not> in_cells (proj_outer r) px py"
    by (auto simp: node_shows_def)
  from s(3,4) have "position (\<lambda>q. proj_pane q = sn_pane n) ps = Some (length below)"
    unfolding s(2) by (intro position_append_first) (auto simp: image_iff)
  with assms have "i = length below" by simp
  with s show "sn_visible n \<and> clip_shows n (proj_content (ps ! i)) area px py \<and>
      (\<forall>r\<in>set (drop (i + 1) ps). \<not> in_cells (proj_outer r) px py)"
    by (simp add: nth_append)
next
  assume s: "sn_visible n \<and> clip_shows n (proj_content (ps ! i)) area px py \<and>
    (\<forall>r\<in>set (drop (i + 1) ps). \<not> in_cells (proj_outer r) px py)"
  from position_SomeD[OF assms] have i: "i < length ps" "proj_pane (ps ! i) = sn_pane n"
    "\<forall>j<i. proj_pane (ps ! j) \<noteq> sn_pane n" by auto
  then have "ps = take i ps @ ps ! i # drop (i + 1) ps" by (simp add: id_take_nth_drop)
  moreover have "proj_pane (ps ! i) \<notin> proj_pane ` set (take i ps)"
    unfolding i(2) by (metis i(3) imageE in_set_conv_nth length_take min_less_iff_conj nth_take)
  ultimately show "node_shows ps area n px py" using s i(2) unfolding node_shows_def by blast
qed

lemma node_shows_nowhere:
  "position (\<lambda>q. proj_pane q = sn_pane n) ps = None \<Longrightarrow> \<not> node_shows ps area n px py"
  by (auto simp: node_shows_def position_None_iff)

lemma occluders_exact:
  assumes "list_all projection_fits ps"
  shows "list_all fr_valid (occluders_above ps i)"
    and "list_ex (\<lambda>h. covers h px py) (occluders_above ps i) \<longleftrightarrow>
      (\<exists>r\<in>set (drop (i + 1) ps). in_cells (proj_outer r) px py)"
proof -
  have f: "fr_valid f \<and> (\<forall>px py. covers f px py = in_cells r px py)"
    if "rect_ok r" "from_cells r = Some f" for r f
    using region_cells[OF that(1)] that(2) by (simp add: region_is_def)
  have n: "\<not> in_cells r px py" if "rect_ok r" "from_cells r = None" for r px py
    using region_cells[OF that(1)] that(2) by (simp add: region_is_def)
  have d: "\<forall>r\<in>set (drop (i + 1) ps). rect_ok (proj_outer r)"
    using assms by (auto simp: list_all_iff projection_fits_def dest: in_set_dropD)
  show "list_all fr_valid (occluders_above ps i)"
    using d f by (auto simp: occluders_above_def list_all_iff List.map_filter_def)
  show "list_ex (\<lambda>h. covers h px py) (occluders_above ps i) \<longleftrightarrow>
      (\<exists>r\<in>set (drop (i + 1) ps). in_cells (proj_outer r) px py)"
    using d f n by (fastforce simp: occluders_above_def list_ex_iff List.map_filter_def)
qed

lemma project_node_exact:
  assumes fits: "list_all projection_fits ps" "rect_ok area" "i64_node n"
    and i: "position (\<lambda>q. proj_pane q = sn_pane n) ps = Some i"
    and pr: "project_logical_node n (proj_content (ps ! i)) area (occluders_above ps i) = Inr fragments"
  shows "length fragments \<le> max_node_fragments" and "\<forall>(f, b)\<in>set fragments. (bn_producer b, bn_node b) = node_key n"
    and "cover_count (map fst fragments) px py = (if node_shows ps area n px py then 1 else 0)"
proof -
  note occ = occluders_exact[OF fits(1), where i = i]
  have ok: "rect_ok (proj_content (ps ! i))"
    using fits(1) position_SomeD[OF i] by (auto simp: list_all_iff projection_fits_def)
  show "length fragments \<le> max_node_fragments"
    using pr by (auto simp: project_logical_node_def subtract_all_def Let_def max_node_fragments_def
        split: if_splits option.splits)
  show "\<forall>(f, b)\<in>set fragments. (bn_producer b, bn_node b) = node_key n"
    using pr by (auto simp: project_logical_node_def base_node_def node_key_def split: if_splits option.splits)
  show "cover_count (map fst fragments) px py = (if node_shows ps area n px py then 1 else 0)"
  proof (cases "sn_visible n")
    case False
    with pr show ?thesis by (simp add: project_logical_node_def node_shows_at[OF i])
  next
    case True
    then obtain r where r: "node_clip n (proj_content (ps ! i)) area = Some r"
      using pr by (cases "node_clip n (proj_content (ps ! i)) area") (auto simp: project_logical_node_def)
    note c = node_clip_exact[OF ok fits(2,3) r]
    show ?thesis
    proof (cases r)
      case None
      with pr True r c show ?thesis
        by (auto simp: project_logical_node_def node_shows_at[OF i] region_is_def)
    next
      case (Some xc)
      with pr True r obtain fs where fs: "subtract_all (snd xc) (occluders_above ps i) max_node_fragments = Some fs"
        "map fst fragments = fs"
        by (auto simp: project_logical_node_def comp_def split: prod.splits option.splits)
      from c Some have v: "fr_valid (snd xc)"
        "covers (snd xc) px py = clip_shows n (proj_content (ps ! i)) area px py"
        by (simp_all add: region_is_def)
      from subtract_all_exact[OF fs(1) v(1) occ(1)] fs(2) v(2) True show ?thesis
        by (auto simp: node_shows_at[OF i] occ(2))
    qed
  qed
qed

section \<open>All nodes\<close>

definition assignments_ok :: "fragment_assignments \<Rightarrow> bool" where
  "assignments_ok m \<longleftrightarrow> (\<forall>k v. m k = Some v \<longrightarrow> ran v \<subseteq> {..<256})"

lemma assign_fragments_ok:
  assumes "assignments_ok m" and "assign_fragments k fs m = (answer, m')"
  shows "assignments_ok m'"
    and "answer = Some out \<Longrightarrow> map snd out = fs \<and> distinct (map fst out) \<and> set (map fst out) \<subseteq> {..<256}"
proof -
  let ?v = "case m k of None \<Rightarrow> Map.empty | Some v \<Rightarrow> v"
  have v: "ran ?v \<subseteq> {..<256}" using assms(1) unfolding assignments_ok_def by (cases "m k") (simp, metis option.simps(5))
  have a: "answer = fst (fragment_assign fs ?v)" "m' = m(k \<mapsto> snd (fragment_assign fs ?v))"
    using assms(2) by (auto simp: assign_fragments_def split: prod.splits)
  have out: "map snd out = fs \<and> distinct (map fst out) \<and> set (map fst out) \<subseteq> {..<256}"
    if "assign_from ?v [] fs = Some out" for out using assign_from_ok[OF v that] by blast
  then show "answer = Some out \<Longrightarrow> map snd out = fs \<and> distinct (map fst out) \<and> set (map fst out) \<subseteq> {..<256}"
    unfolding a by (auto simp: fragment_assign_def split: if_splits option.splits)
  have "ran (snd (fragment_assign fs ?v)) \<subseteq> {..<256}"
  proof (cases "assign_from ?v [] fs")
    case (Some assigned)
    from out[OF this] have "fst ` set assigned \<subseteq> {..<256}" by simp
    moreover have "ran (map_of (map (\<lambda>(i, f). (f, i)) assigned)) \<subseteq> fst ` set assigned"
      by (force simp: ran_def dest: map_of_SomeD)
    ultimately have "ran (map_of (map (\<lambda>(i, f). (f, i)) assigned)) \<subseteq> {..<256}" by blast
    then show ?thesis using v Some by (simp add: fragment_assign_def)
  qed (use v in \<open>simp add: fragment_assign_def\<close>)
  with assms(1) show "assignments_ok m'" by (auto simp: a assignments_ok_def)
qed

lemma place_fragments_pieces:
  assumes "length fragments \<le> max_node_fragments"
    and "\<forall>(f, b)\<in>set fragments. (bn_producer b, bn_node b) = node_key n"
    and "\<And>px py. cover_count (map fst fragments) px py = (if node_shows ps area n px py then 1 else 0)"
    and "map snd assigned = map fst fragments" and "distinct (map fst assigned)"
    and "set (map fst assigned) \<subseteq> {..<256}"
  shows "pieces_of ps area n (place_fragments assigned fragments)"
proof -
  let ?bs = "place_fragments assigned fragments"
  have l: "length assigned = length fragments" using assms(4) by (metis length_map)
  have m: "map bn_fragment ?bs = map fst assigned" "map bn_clip ?bs = map snd assigned" "length ?bs = length fragments"
    using l by (simp_all add: place_fragments_def list_eq_iff_nth_eq split: prod.splits)
  have "\<forall>b\<in>set ?bs. (bn_producer b, bn_node b) = node_key n"
    using assms(2) by (auto simp: place_fragments_def dest!: set_zip_rightD)
  moreover have "\<forall>b\<in>set ?bs. bn_fragment b < 256"
    using assms(6) m(1) by (metis image_eqI lessThan_iff list.set_map subsetD)
  ultimately show ?thesis
    using assms(1,3,4,5) m by (simp add: pieces_of_def)
qed

definition omissions :: "projected \<Rightarrow> nat" where
  "omissions st = pr_fragment_omissions st + pr_arithmetic_omissions st + pr_quota_omissions st"

text \<open>What a turn keeps, whatever it does with its node.\<close>

definition projected_ok :: "projected \<Rightarrow> bool" where
  "projected_ok st \<longleftrightarrow> assignments_ok (pr_assignments st) \<and>
     length (pr_nodes st) \<le> max_projected_nodes \<and> pr_quota_omissions st = 0"

lemma project_node_step:
  assumes fits: "list_all projection_fits ps" "rect_ok area" "i64_node n" and st: "projected_ok st"
    and node: "project_node ps area n st = (st', stop)"
  shows "projected_ok st'" and "omissions st \<le> omissions st'"
    and "stop \<Longrightarrow> pr_nodes st' = pr_nodes st"
    and "\<not> stop \<Longrightarrow> \<exists>bs. pr_nodes st' = pr_nodes st @ bs \<and>
      (pieces_of ps area n bs \<or> bs = [] \<and> omissions st < omissions st')"
proof -
  have "projected_ok st' \<and> omissions st \<le> omissions st' \<and> (stop \<longrightarrow> pr_nodes st' = pr_nodes st) \<and>
    (\<not> stop \<longrightarrow> (\<exists>bs. pr_nodes st' = pr_nodes st @ bs \<and>
      (pieces_of ps area n bs \<or> bs = [] \<and> omissions st < omissions st')))"
  proof (cases "position (\<lambda>q. proj_pane q = sn_pane n) ps")
    case None
    then have "pieces_of ps area n []" by (simp add: pieces_of_def node_shows_nowhere)
    with None node st show ?thesis by (auto simp: project_node_def)
  next
    case i: (Some i)
    show ?thesis
    proof (cases "project_logical_node n (proj_content (ps ! i)) area (occluders_above ps i)")
      case (Inl issue)
      obtain a m where "assign_fragments (node_key n) [] (pr_assignments st) = (a, m)" by fastforce
      with assign_fragments_ok(1)[OF _ this] Inl i node st show ?thesis
        by (auto simp: project_node_def projected_ok_def omit_node_def Let_def omissions_def
            split: projection_issue.splits)
    next
      case (Inr fragments)
      obtain answer m where am:
        "assign_fragments (node_key n) (map fst fragments) (pr_assignments st) = (answer, m)" by fastforce
      have ok: "assignments_ok m" "\<And>out. answer = Some out \<Longrightarrow>
          map snd out = map fst fragments \<and> distinct (map fst out) \<and> set (map fst out) \<subseteq> {..<256}"
        using assign_fragments_ok[OF _ am] st by (simp_all add: projected_ok_def)
      have "pieces_of ps area n (place_fragments out fragments)" if "answer = Some out" for out
        using ok(2)[OF that] project_node_exact[OF fits i Inr] by (intro place_fragments_pieces) auto
      moreover have "length (place_fragments out fragments) = length out" if "answer = Some out" for out
        using arg_cong[OF conjunct1[OF ok(2)[OF that]], of length] by (simp add: place_fragments_def)
      ultimately show ?thesis using ok(1) am i Inr node st
        by (cases answer) (auto simp: project_node_def projected_ok_def omissions_def split: if_splits)
    qed
  qed
  then show "projected_ok st'" "omissions st \<le> omissions st'" "stop \<Longrightarrow> pr_nodes st' = pr_nodes st"
    "\<not> stop \<Longrightarrow> \<exists>bs. pr_nodes st' = pr_nodes st @ bs \<and>
      (pieces_of ps area n bs \<or> bs = [] \<and> omissions st < omissions st')" by blast+
qed

text \<open>
  Each node contributes its pieces or nothing; it contributes nothing only when an omission is
  counted.
\<close>

lemma project_nodes_pieces:
  assumes fits: "list_all projection_fits ps" "rect_ok area"
  shows "\<forall>n\<in>set ns. i64_node n \<Longrightarrow> projected_ok st \<Longrightarrow>
    assignments_ok (pr_assignments (project_nodes ps area ns st)) \<and>
    length (pr_nodes (project_nodes ps area ns st)) \<le> max_projected_nodes \<and>
    omissions st \<le> omissions (project_nodes ps area ns st) \<and>
    (\<exists>bss. pr_nodes (project_nodes ps area ns st) = pr_nodes st @ concat bss \<and>
       list_all2 (\<lambda>n bs. pieces_of ps area n bs \<or>
         bs = [] \<and> omissions st < omissions (project_nodes ps area ns st)) ns bss)"
proof (induction ns arbitrary: st)
  case Nil
  then show ?case by (auto simp: projected_ok_def intro!: exI[of _ "[]"])
next
  case (Cons n ns)
  obtain st' stop where node: "project_node ps area n st = (st', stop)" by fastforce
  from Cons.prems(1) have "i64_node n" by simp
  note step = project_node_step[OF fits this Cons.prems(2) node]
  show ?case
  proof (cases stop)
    case True
    let ?out = "st'\<lparr>pr_quota_omissions := Suc (length ns)\<rparr>"
    have "omissions st < omissions ?out" using step(1,2) by (simp add: omissions_def projected_ok_def)
    moreover have "concat (replicate k []) = []" for k :: nat by (induction k) auto
    ultimately show ?thesis using step(1,3) True node
      by (auto simp: projected_ok_def list_all2_conv_all_nth simp del: replicate.simps
          intro!: exI[of _ "replicate (Suc (length ns)) []"])
  next
    case False
    let ?out = "project_nodes ps area ns st'"
    from step(4)[OF False] obtain bs where bs: "pr_nodes st' = pr_nodes st @ bs"
      "pieces_of ps area n bs \<or> bs = [] \<and> omissions st < omissions st'" by blast
    from Cons.IH[of st'] Cons.prems(1) step(1) obtain bss where r:
      "assignments_ok (pr_assignments ?out)" "length (pr_nodes ?out) \<le> max_projected_nodes"
      "omissions st' \<le> omissions ?out" "pr_nodes ?out = pr_nodes st' @ concat bss"
      "list_all2 (\<lambda>n bs. pieces_of ps area n bs \<or> bs = [] \<and> omissions st' < omissions ?out) ns bss"
      by auto
    have "list_all2 (\<lambda>n bs. pieces_of ps area n bs \<or> bs = [] \<and> omissions st < omissions ?out)
        (n # ns) (bs # bss)"
      using step(2) bs(2) r(3) by (auto intro: list_all2_mono[OF r(5)])
    with r bs(1) step(2) False node show ?thesis by (auto intro!: exI[of _ "bs # bss"])
  qed
qed

section \<open>The scene of a session\<close>

text \<open>The pieces placed for one node, and how many of them show a point.\<close>

definition named :: "node_key \<Rightarrow> bridge_node list \<Rightarrow> bridge_node list" where
  "named k bs = filter (\<lambda>b. (bn_producer b, bn_node b) = k) bs"

definition shown_pieces :: "projected \<Rightarrow> scene_node \<Rightarrow> int \<Rightarrow> int \<Rightarrow> nat" where
  "shown_pieces pr n px py =
     cover_count (map bn_clip (named (node_key n) (pr_nodes pr))) px py"

definition piece_name :: "bridge_node \<Rightarrow> (nat \<times> nat) \<times> nat" where
  "piece_name b = ((bn_producer b, bn_node b), bn_fragment b)"

lemma concat_node_pieces:
  assumes "list_all2 (\<lambda>n bs. pieces_of ps area n bs \<or> bs = [] \<and> c) ns bss" and "distinct (map node_key ns)"
  shows "distinct (map piece_name (concat bss)) \<and>
    piece_name ` set (concat bss) \<subseteq> node_key ` set ns \<times> {..<256} \<and>
    (\<forall>n\<in>set ns. pieces_of ps area n (named (node_key n) (concat bss)) \<or>
       named (node_key n) (concat bss) = [] \<and> c)"
  using assms
proof (induction ns arbitrary: bss)
  case (Cons n ns)
  then obtain bs rest where b: "bss = bs # rest" "pieces_of ps area n bs \<or> bs = [] \<and> c"
    "list_all2 (\<lambda>n bs. pieces_of ps area n bs \<or> bs = [] \<and> c) ns rest"
    by (auto simp: list_all2_Cons1)
  let ?at = "\<lambda>n. named (node_key n)"
  have d: "node_key n \<notin> node_key ` set ns" "distinct (map node_key ns)" using Cons.prems(2) by simp_all
  note IH = Cons.IH[OF b(3) d(2)]
  have k: "\<forall>x\<in>set bs. (bn_producer x, bn_node x) = node_key n \<and> bn_fragment x < 256"
    "distinct (map bn_fragment bs)" using b(2) by (auto simp: pieces_of_def)
  note rests = IH[THEN conjunct1] IH[THEN conjunct2, THEN conjunct1]
  have names: "distinct (map piece_name bs)" "piece_name ` set bs \<subseteq> {node_key n} \<times> {..<256}"
    using k by (auto simp: distinct_map piece_name_def inj_on_def)
  have rest: "?at n (concat rest) = []"
  proof (rule ccontr)
    assume "?at n (concat rest) \<noteq> []"
    then obtain x where x: "x \<in> set (concat rest)" "(bn_producer x, bn_node x) = node_key n"
      by (auto simp: named_def filter_empty_conv simp del: set_concat)
    from IH x(1) have "piece_name x \<in> node_key ` set ns \<times> {..<256}" by blast
    with x(2) d(1) show False by (simp add: piece_name_def)
  qed
  have here: "?at n bs = bs" using k(1) by (simp add: named_def filter_id_conv)
  have other: "?at n' bs = []" if "n' \<in> set ns" for n'
    using k(1) that d(1) by (auto simp: named_def filter_empty_conv)
  have "piece_name ` set bs \<inter> piece_name ` set (concat rest) = {}"
  proof (rule equals0I)
    fix k assume "k \<in> piece_name ` set bs \<inter> piece_name ` set (concat rest)"
    then have "k \<in> {node_key n} \<times> {..<256}" "k \<in> node_key ` set ns \<times> {..<256}"
      using subsetD[OF names(2), of k] subsetD[OF rests(2), of k] by (simp_all only: Int_iff)
    with d(1) show False by (cases k) simp
  qed
  then have "distinct (map piece_name (bs @ concat rest))" using rests(1) names(1) by (simp del: set_concat)
  moreover have "piece_name ` set (bs @ concat rest) \<subseteq> node_key ` set (n # ns) \<times> {..<256}"
    using rests(2) names(2) by (auto simp del: set_concat)
  moreover have "?at n' (bs @ concat rest) = ?at n' bs @ ?at n' (concat rest)" for n'
    by (simp add: named_def)
  then have "\<forall>n'\<in>set (n # ns). pieces_of ps area n' (?at n' (bs @ concat rest)) \<or> ?at n' (bs @ concat rest) = [] \<and> c"
    using IH rest here other b(2) by simp
  ultimately show ?case by (simp only: b(1) concat.simps simp_thms)
qed simp

lemma project_scene_exact:
  assumes fits: "list_all projection_fits ps" "rect_ok area"
    and nodes: "distinct (map node_key nodes)" "\<forall>n\<in>set nodes. i64_node n" "assignments_ok m"
    and pr: "pr = project_scene priority ps area nodes m"
  shows "length (pr_nodes pr) \<le> max_projected_nodes" and "distinct (map piece_name (pr_nodes pr))"
    and "piece_name ` set (pr_nodes pr) \<subseteq> node_key ` set nodes \<times> {..<256}"
    and "assignments_ok (pr_assignments pr)"
    and "n \<in> set nodes \<Longrightarrow> shown_pieces pr n px py \<le> (if node_shows ps area n px py then 1 else 0)"
    and "n \<in> set nodes \<Longrightarrow> omissions pr = 0 \<Longrightarrow>
      shown_pieces pr n px py = (if node_shows ps area n px py then 1 else 0)"
proof -
  let ?ns = "sort_key (node_order priority) nodes"
  have st: "projected_ok (start_projection m)" "omissions (start_projection m) = 0"
    using nodes(3) by (simp_all add: projected_ok_def start_projection_def omissions_def)
  have d: "distinct (map node_key ?ns)" using nodes(1) by (simp add: distinct_map)
  from project_nodes_pieces[OF fits, of ?ns "start_projection m"] st nodes(2) obtain bss where r:
    "assignments_ok (pr_assignments pr)" "length (pr_nodes pr) \<le> max_projected_nodes"
    "pr_nodes pr = concat bss"
    "list_all2 (\<lambda>n bs. pieces_of ps area n bs \<or> bs = [] \<and> 0 < omissions pr) ?ns bss"
    by (auto simp: pr project_scene_def start_projection_def)
  note c = concat_node_pieces[OF r(4) d, folded r(3)]
  then show "distinct (map piece_name (pr_nodes pr))"
    "piece_name ` set (pr_nodes pr) \<subseteq> node_key ` set nodes \<times> {..<256}" by simp_all
  show "length (pr_nodes pr) \<le> max_projected_nodes" "assignments_ok (pr_assignments pr)" by (fact r)+
  assume "n \<in> set nodes"
  with c have bs: "pieces_of ps area n (named (node_key n) (pr_nodes pr)) \<or>
      named (node_key n) (pr_nodes pr) = [] \<and> 0 < omissions pr" by simp
  then show "shown_pieces pr n px py \<le> (if node_shows ps area n px py then 1 else 0)"
    by (auto simp: shown_pieces_def pieces_of_def)
  assume "omissions pr = 0"
  with bs show "shown_pieces pr n px py = (if node_shows ps area n px py then 1 else 0)"
    by (simp add: shown_pieces_def pieces_of_def)
qed

text \<open>The service keeps its nodes in a hash map; the order it lists them in does not matter.\<close>

lemma project_scene_order:
  assumes "mset nodes = mset nodes'" and "distinct (map node_key nodes)"
  shows "project_scene priority ps area nodes m = project_scene priority ps area nodes' m"
proof -
  have "inj_on node_key (set nodes)" using assms(2) by (simp add: distinct_map)
  then have "inj_on (node_order priority) (set nodes)" by (auto simp: inj_on_def node_order_def)
  then have "sort_key (node_order priority) nodes = sort_key (node_order priority) nodes'"
    using assms(1) by (intro sort_key_inj_key_eq) auto
  then show ?thesis by (simp add: project_scene_def)
qed

section \<open>Panes\<close>

lemma content_ok: "rect_ok r \<Longrightarrow> rect_ok (content r)"
  by (auto simp: rect_ok_def content_def layout_consts sat_add16_def)

lemma in_content: "rect_ok r \<Longrightarrow> in_cells (content r) px py \<Longrightarrow> in_cells r px py"
  by (auto simp: rect_ok_def content_def layout_consts sat_add16_def in_cells_def fixed_one_def)

lemma visible_projections_fit:
  assumes "tab_ok area t" and "area_ok area" and "visible_projections t area = Some ps"
  shows "list_all projection_fits ps" and "\<forall>q\<in>set ps. proj_content q = content (proj_outer q)"
proof -
  have area: "rect_ok area" using assms(2) by (simp add: area_ok_def)
  have floats: "\<forall>f\<in>set (layer_panes (tab_floating t)). inside (float_rect f) area"
    using assms(1) by (auto simp: tab_ok_def layer_wf_def float_fits_def)
  have tiled: "rect_ok r" if "tab_tree t = Some tree" "geometry tree area = Some g" "(p, r) \<in> set g" for tree g p r
  proof -
    have "distinct (pane_ids tree)" using assms(1) that(1) by (simp add: tab_ok_def tab_panes_def)
    from geometry_set[OF that(2) this] that(3) leaf_areas_inside[OF _ assms(2)]
    show ?thesis by (metis area_ok_def snd_conv)
  qed
  show "\<forall>q\<in>set ps. proj_content q = content (proj_outer q)"
    using assms(3) by (auto simp: visible_projections_def bind_eq_Some_conv split: option.splits)
  moreover have "\<forall>q\<in>set ps. rect_ok (proj_outer q)"
    using assms(3) area tiled inside_ok[OF _ area] floats
    by (auto simp: visible_projections_def layer_visible_def bind_eq_Some_conv split: option.splits)
  ultimately show "list_all projection_fits ps"
    by (simp add: list_all_iff projection_fits_def content_ok)
qed

lemma shown_by_one_pane:
  assumes fits: "list_all projection_fits ps" and c: "\<forall>q\<in>set ps. proj_content q = content (proj_outer q)"
    and n: "node_shows ps area n px py" "node_shows ps area n' px py"
  shows "sn_pane n = sn_pane n'"
proof (rule ccontr)
  assume ne: "sn_pane n \<noteq> sn_pane n'"
  obtain i i' where i: "position (\<lambda>q. proj_pane q = sn_pane n) ps = Some i"
    "position (\<lambda>q. proj_pane q = sn_pane n') ps = Some i'"
    using node_shows_nowhere[of n ps area px py] node_shows_nowhere[of n' ps area px py] n by fastforce
  note at = position_SomeD[OF i(1)] position_SomeD[OF i(2)]
  note shown = n(1)[unfolded node_shows_at[OF i(1)]] n(2)[unfolded node_shows_at[OF i(2)]]
  have inner: "in_cells (proj_outer (ps ! k)) px py" if "k < length ps" "in_cells (proj_content (ps ! k)) px py" for k
    using that fits c in_content by (auto simp: list_all_iff projection_fits_def)
  have above: "ps ! k \<in> set (drop (j + 1) ps)" if "j < k" "k < length ps" for j k
    using that by (auto simp: in_set_conv_nth intro!: exI[of _ "k - (j + 1)"])
  from ne at have "i < i' \<or> i' < i" by (metis linorder_neqE_nat)
  moreover have "in_cells (proj_outer (ps ! i)) px py" "in_cells (proj_outer (ps ! i')) px py"
    using shown at inner by (auto simp: clip_shows_def Let_def)
  ultimately show False using shown at above[of i i'] above[of i' i] by blast
qed

text \<open>
  C12. The client is told to show exactly what a session's panes leave visible of its media. For
  every scene node of the service, at every point of the 32.32 grid, the pieces sent for the node
  cover the point once if the node is visible there (inside the node, its pane's content, the
  content area and its own clip, and under no pane drawn above it) and not at all otherwise; only
  when an omission is counted may a node be missing, and then it is missing as a whole or shows
  nothing it should not. There are at most 256 pieces, they have distinct names with fragment ids
  below 256, a point is never covered by media of two panes, and the order in which the service
  lists its nodes changes nothing.
\<close>

theorem media_shown_exactly:
  assumes "session_ok s" and "active_tab s = Some t" and "visible_projections t (content_area s) = Some ps"
    and "distinct (map node_key nodes)" and "\<forall>n\<in>set nodes. i64_node n" and "assignments_ok m"
    and "pr = project_scene (projection_pane_priority t ps) ps (content_area s) nodes m"
  shows "(\<forall>n\<in>set nodes. \<forall>px py.
      shown_pieces pr n px py \<le> (if node_shows ps (content_area s) n px py then 1 else 0) \<and>
      (omissions pr = 0 \<longrightarrow>
        shown_pieces pr n px py = (if node_shows ps (content_area s) n px py then 1 else 0))) \<and>
    length (pr_nodes pr) \<le> 256 \<and> distinct (map piece_name (pr_nodes pr)) \<and>
    piece_name ` set (pr_nodes pr) \<subseteq> node_key ` set nodes \<times> {..<256} \<and>
    assignments_ok (pr_assignments pr) \<and>
    (\<forall>n\<in>set nodes. \<forall>n'\<in>set nodes. \<forall>px py.
      0 < shown_pieces pr n px py \<and> 0 < shown_pieces pr n' px py \<longrightarrow> sn_pane n = sn_pane n') \<and>
    (\<forall>nodes'. mset nodes' = mset nodes \<longrightarrow>
      project_scene (projection_pane_priority t ps) ps (content_area s) nodes' m = pr)"
proof (intro conjI ballI allI impI)
  have area: "rect_ok (content_area s)" using session_area[OF assms(1)] by (simp add: area_ok_def)
  note fit = visible_projections_fit[OF active_tab_ok[OF assms(1,2)] session_area[OF assms(1)] assms(3)]
  note ex = project_scene_exact[OF fit(1) area assms(4-7)]
  show "length (pr_nodes pr) \<le> 256" using ex(1) by (simp add: max_projected_nodes_def)
  show "distinct (map piece_name (pr_nodes pr))" "assignments_ok (pr_assignments pr)"
    "piece_name ` set (pr_nodes pr) \<subseteq> node_key ` set nodes \<times> {..<256}" by (fact ex)+
  fix n px py assume n: "n \<in> set nodes"
  show "shown_pieces pr n px py \<le> (if node_shows ps (content_area s) n px py then 1 else 0)" by (rule ex(5)[OF n])
  show "omissions pr = 0 \<Longrightarrow>
      shown_pieces pr n px py = (if node_shows ps (content_area s) n px py then 1 else 0)" by (rule ex(6)[OF n])
  fix n' assume n': "n' \<in> set nodes" and c: "0 < shown_pieces pr n px py \<and> 0 < shown_pieces pr n' px py"
  from c ex(5)[OF n, of px py] ex(5)[OF n', of px py]
  show "sn_pane n = sn_pane n'" by (intro shown_by_one_pane[OF fit]) (auto split: if_splits)
next
  fix nodes' assume "mset nodes' = mset nodes"
  then show "project_scene (projection_pane_priority t ps) ps (content_area s) nodes' m = pr"
    using project_scene_order[of nodes nodes'] assms(4,7) by metis
qed

definition example_node :: scene_node where
  "example_node =
     \<lparr>sn_producer = 1, sn_pane = 1, sn_node = 1, sn_source = 1, sn_x = 0, sn_y = 0,
      sn_width = 2 * fixed_one, sn_height = fixed_one, sn_z = 0, sn_visible = True, sn_clip = None,
      sn_anchor = None, sn_retained = None\<rparr>"

lemma coalesce_one: "order_and_coalesce [f] = [f]"
  by (subst order_and_coalesce.simps) (simp add: sort_fragments_def find_merge_def index_pairs_def)

lemma example_projection:
  assumes "visible_projections (first_tab 1 1) \<lparr>rect_x = 0, rect_y = 0, rect_width = 80, rect_height = 23\<rparr> = Some ps"
  shows "omissions (project_scene (projection_pane_priority (first_tab 1 1) ps) ps
      \<lparr>rect_x = 0, rect_y = 0, rect_width = 80, rect_height = 23\<rparr> [example_node] Map.empty) = 0"
    and "node_shows ps \<lparr>rect_x = 0, rect_y = 0, rect_width = 80, rect_height = 23\<rparr> example_node
      fixed_one fixed_one"
proof -
  let ?area = "\<lparr>rect_x = 0, rect_y = 0, rect_width = 80, rect_height = 23\<rparr>"
  have ps: "ps = [\<lparr>proj_pane = 1, proj_outer = ?area, proj_content = content ?area, proj_layer = Tiled,
      proj_focused = True\<rparr>]"
    using assms by (simp add: visible_projections_def first_tab_def geometry_def bt_insert.simps
        layer_visible_def layer_default_def)
  show "node_shows ps ?area example_node fixed_one fixed_one"
    by (subst node_shows_at[where i = 0])
      (simp_all add: ps example_node_def clip_shows_def in_box_def in_cells_def content_def layout_consts
        sat_add16_def node_box_def fixed_one_def Let_def)
  have "node_clip example_node (content ?area) ?area =
      Some (Some ((fixed_one, fixed_one), FixedRect fixed_one fixed_one (2 * fixed_one) fixed_one))"
    by (simp add: node_clip_def example_node_def content_def layout_consts sat_add16_def fixed_one_def
        checked64_def fr_new_def from_cells_def intersect_def fr_right_def fr_bottom_def)
  then have "project_logical_node example_node (content ?area) ?area [] =
      Inr [(FixedRect fixed_one fixed_one (2 * fixed_one) fixed_one,
        base_node example_node (fixed_one, fixed_one)
          (FixedRect fixed_one fixed_one (2 * fixed_one) fixed_one))]"
    by (simp add: project_logical_node_def subtract_all_def coalesce_one max_node_fragments_def
        example_node_def)
  then show "omissions (project_scene (projection_pane_priority (first_tab 1 1) ps) ps ?area
      [example_node] Map.empty) = 0"
    by (simp add: project_scene_def project_node_def ps occluders_above_def List.map_filter_def
        assign_fragments_def fragment_assign_def start_projection_def omissions_def
        max_projected_nodes_def example_node_def upt_rec)
qed

theorem media_shown_exactly_witness:
  "\<exists>s t ps pr. start (example_world True) example_config = Some s \<and> active_tab s = Some t \<and>
     visible_projections t (content_area s) = Some ps \<and>
     pr = project_scene (projection_pane_priority t ps) ps (content_area s) [example_node] Map.empty \<and>
     shown_pieces pr example_node fixed_one fixed_one = 1 \<and> length (pr_nodes pr) \<le> 256"
proof -
  obtain s t ps where s: "start (example_world True) example_config = Some s" "session_ok s"
    "active_tab s = Some t" "t = first_tab 1 1" "visible_projections t (content_area s) = Some ps"
    using example_view by blast
  note ex = example_projection[folded example_content[OF s(1)], OF s(5)[unfolded s(4)]]
  have "distinct (map node_key [example_node])" "\<forall>n\<in>set [example_node]. i64_node n"
    "assignments_ok Map.empty"
    by (simp_all add: example_node_def i64_node_def i64_box_def node_box_def fixed_one_def i64_max_def
        assignments_ok_def)
  from media_shown_exactly[OF s(2,3,5) this refl] ex s show ?thesis by auto
qed

section \<open>Synchronising\<close>

fun is_snapshot :: "'d media_effect \<Rightarrow> bool" where
  "is_snapshot (MediaSnapshot _ _ _ _) = True"
| "is_snapshot _ = False"

text \<open>What is replayed: the retained bodies of rasters and images, but not the source about to be sent.\<close>

definition retained_bodies :: "source_key option \<Rightarrow> 'd snapshot_source list \<Rightarrow> 'd media_effect list" where
  "retained_bodies live ss =
     concat (map (\<lambda>s. case (ss_retained s, retained_type (ss_kind s)) of
        (Some body, Some kind) \<Rightarrow>
          if Some (ss_key s) = live then [] else [RetainedMedia (ss_key s) kind body]
      | _ \<Rightarrow> []) ss)"

lemma replay_all:
  "(\<And>k. takes k) \<Longrightarrow> replay_retained takes live ss = (True, retained_bodies live ss)"
  by (induction ss) (auto simp: retained_bodies_def should_replay_retained_def split: option.split)

lemma replay_quiet: "filter is_snapshot (snd (replay_retained takes live ss)) = []"
  by (induction ss) (auto split: option.split prod.split)

definition current_key :: "'d media_peer \<Rightarrow> 'v session \<Rightarrow> media_projection_key" where
  "current_key peer s =
     \<lparr>virtual_revision = service_revision peer, projected_layout_revision = layout_revision s\<rparr>"

lemma sync_media_cases:
  assumes "session_ok s" and "attached s = Some c" and "client_vivid c" and "active_tab s = Some t"
  obtains (Current) "\<not> force" "last_media_projection mv = Some (current_key peer s)"
      "sync_media peer force live s mv = Some (mv, [])"
  | (Sent) pr snap mv0 where "force \<or> last_media_projection mv \<noteq> Some (current_key peer s)"
      "\<exists>shown offsets. snap = service_snapshot peer shown offsets"
      "mv0 = mv\<lparr>fragment_assignments := fragment_assignments mv |` set (snap_live_nodes snap)\<rparr>"
      "sync_media peer force live s mv = Some (send_projection peer live snap (layout_revision s) pr mv0)"
proof -
  obtain ps where ps: "visible_projections t (content_area s) = Some ps"
    using visible_projections_ok[OF active_tab_ok[OF assms(1,4)]] by blast
  show thesis
  proof (cases "should_sync_media force (last_media_projection mv) (current_key peer s)")
    case True
    with assms(2-4) ps show thesis
      by (intro Sent) (auto simp: sync_media_def should_sync_media_def current_key_def Let_def)
  next
    case False
    with assms(2-4) ps show thesis
      by (intro Current) (auto simp: sync_media_def should_sync_media_def current_key_def Let_def)
  qed
qed

text \<open>
  C11. Media is synchronised once per change. For a client that shows media, synchronising always
  returns. If neither the service's revision nor the layout changed since the last completed
  projection, an unforced call does nothing. Otherwise, if the client's connection takes it, exactly
  one snapshot with the next revision is sent, followed by the retained bodies of all rasters and
  images except the source whose live record follows, and the projection is remembered, so that a
  second call does nothing. If the connection refuses the snapshot, the projection is not remembered
  and the revision is not used up.
\<close>

theorem media_synchronised_once:
  assumes "session_ok s" and "attached s = Some c" and "client_vivid c" and "active_tab s = Some t"
    and "\<And>shown offsets. snap_revision (service_snapshot peer shown offsets) = service_revision peer"
  shows "\<exists>mv' out. sync_media peer force live s mv = Some (mv', out) \<and>
    (if \<not> force \<and> last_media_projection mv = Some (current_key peer s) then mv' = mv \<and> out = []
     else if takes_snapshot peer \<and> (\<forall>k. takes_body peer k)
     then last_media_projection mv' = Some (current_key peer s) \<and>
       media_projection_revision mv' = wrapping_inc64 (media_projection_revision mv) \<and>
       (\<exists>before sources nodes videos. out = before @
          MediaSnapshot (media_projection_revision mv') sources nodes videos # retained_bodies live sources \<and>
          filter is_snapshot before = []) \<and>
       (\<forall>live'. sync_media peer False live' s mv' = Some (mv', []))
     else \<not> takes_snapshot peer \<longrightarrow> filter is_snapshot out = [] \<and>
       last_media_projection mv' = last_media_projection mv \<and>
       media_projection_revision mv' = media_projection_revision mv)"
proof (rule sync_media_cases[OF assms(1-4), of force mv peer live])
  assume "\<not> force" "last_media_projection mv = Some (current_key peer s)"
    "sync_media peer force live s mv = Some (mv, [])"
  then show ?thesis by auto
next
  fix pr snap mv0
  assume changed: "force \<or> last_media_projection mv \<noteq> Some (current_key peer s)"
    and snap: "\<exists>shown offsets. snap = service_snapshot peer shown offsets"
    and mv0: "mv0 = mv\<lparr>fragment_assignments := fragment_assignments mv |` set (snap_live_nodes snap)\<rparr>"
    and sync: "sync_media peer force live s mv = Some (send_projection peer live snap (layout_revision s) pr mv0)"
  from snap assms(5) have rev: "snap_revision snap = service_revision peer" by auto
  obtain mv' out where r: "send_projection peer live snap (layout_revision s) pr mv0 = (mv', out)" by fastforce
  show ?thesis
  proof (cases "takes_snapshot peer \<and> (\<forall>k. takes_body peer k)")
    case True
    then have all: "takes_snapshot peer" "\<And>k. takes_body peer k" by blast+
    have m: "last_media_projection mv' = Some (current_key peer s)"
      "media_projection_revision mv' = wrapping_inc64 (media_projection_revision mv)"
      using r all(1) by (auto simp: send_projection_def Let_def replay_all[OF all(2)] rev mv0 current_key_def
          split: if_splits)
    obtain before where b: "out = before @ MediaSnapshot (media_projection_revision mv') (snap_sources snap)
        (pr_nodes pr) (snap_videos snap) # retained_bodies live (snap_sources snap)"
      "filter is_snapshot before = []"
      using r all(1) m(2) by (auto simp: send_projection_def Let_def replay_all[OF all(2)] mv0 split: if_splits)
    have "sync_media peer False live' s mv' = Some (mv', [])" for live'
      by (rule sync_media_cases[OF assms(1-4), of False mv' peer live']) (use m(1) in auto)
    with changed sync r m b True show ?thesis by auto
  next
    case False
    have "filter is_snapshot out = [] \<and> last_media_projection mv' = last_media_projection mv \<and>
        media_projection_revision mv' = media_projection_revision mv" if "\<not> takes_snapshot peer"
      using r that by (auto simp: send_projection_def Let_def mv0 split: if_splits)
    with changed sync r False show ?thesis by auto
  qed
qed

definition example_client :: "display_metrics \<Rightarrow> attached_client" where
  "example_client d =
     \<lparr>client_id = 1, client_display = d, client_vivid = True, client_acknowledged = 0, client_rendered = 0,
      client_frames = []\<rparr>"

definition example_peer :: "unit media_peer" where
  "example_peer =
     \<lparr>service_revision = 5,
      service_snapshot = (\<lambda>_ _. \<lparr>snap_revision = 5, snap_sources = [], snap_nodes = [example_node],
        snap_live_nodes = [(1, 1)], snap_videos = []\<rparr>),
      takes_snapshot = True, takes_body = (\<lambda>_. True)\<rparr>"

definition example_media :: media_view where
  "example_media =
     \<lparr>fragment_assignments = Map.empty, last_projection_warning = None, last_media_projection = None,
      media_projection_revision = 3\<rparr>"

lemma example_attached:
  assumes "session_ok s" and "attached s = None"
  defines "s' \<equiv> s\<lparr>attached := Some (example_client (last_display s))\<rparr>"
  shows "session_ok s'" and "active_tab s' = active_tab s"
proof -
  have "content_area s' = content_area s"
    using assms(2) by (simp add: s'_def content_area_def layout_display_def example_client_def)
  with assms(1) show "session_ok s'"
    by (simp add: s'_def session_parts all_panes_def example_client_def)
  show "active_tab s' = active_tab s" by (simp add: s'_def active_tab_def)
qed

theorem media_synchronised_once_witness:
  "\<exists>(s :: unit session) mv' out. sync_media example_peer False None s example_media = Some (mv', out) \<and>
     media_projection_revision mv' = 4 \<and> sync_media example_peer False None s mv' = Some (mv', [])"
proof -
  obtain s t ps where s: "start (example_world True) example_config = Some s" "session_ok s"
    "active_tab s = Some t" using example_view by blast
  let ?s = "s\<lparr>attached := Some (example_client (last_display s))\<rparr>"
  have "attached s = None" using start_tabs[OF s(1)] by simp
  note ok = example_attached[OF s(2) this]
  have c: "attached ?s = Some (example_client (last_display s))" "client_vivid (example_client (last_display s))"
    by (simp_all add: example_client_def)
  have p: "snap_revision (service_snapshot example_peer sh off) = service_revision example_peer" for sh off
    by (simp add: example_peer_def)
  from media_synchronised_once[OF ok(1) c ok(2)[unfolded s(3)] p, of False None example_media]
  obtain mv' out where r: "sync_media example_peer False None ?s example_media = Some (mv', out)"
    "media_projection_revision mv' = wrapping_inc64 3" "sync_media example_peer False None ?s mv' = Some (mv', [])"
    by (auto simp: example_peer_def example_media_def)
  from r(2) have "media_projection_revision mv' = 4" by (simp add: wrapping_inc64_def)
  with r(1,3) show ?thesis by blast
qed

end
