(* ===== verification/Media_Ledger.thy ===== *)
theory Media_Ledger
  imports Media_Ingest Media_View
begin

text \<open>
  The ledger of the media service: the part of its state that the limits and the credit are about
  (sources with their credit and retained bodies, nodes, open transactions, deliveries). Most
  operations leave it as it is; the others change it in one of a few ways, each of which keeps
  \<open>ledger_ok\<close>. The theory shows this for every operation of the service.
\<close>

section \<open>Association lists\<close>

lemma sum_update:
  fixes f :: "'b \<Rightarrow> nat"
  assumes "map_of xs k = Some a"
  shows "(\<Sum>(_, v)\<leftarrow>AList.update k b xs. f v) + f a = (\<Sum>(_, v)\<leftarrow>xs. f v) + f b"
  using assms by (induction xs) (auto split: if_splits)

lemma sum_delete:
  fixes f :: "'b \<Rightarrow> nat"
  assumes "distinct (map fst xs)" and "map_of xs k = Some a"
  shows "(\<Sum>(_, v)\<leftarrow>AList.delete k xs. f v) + f a = (\<Sum>(_, v)\<leftarrow>xs. f v)"
  using assms
proof (induction xs)
  case (Cons e xs)
  show ?case
  proof (cases "fst e = k")
    case True
    with Cons.prems have "k \<notin> fst ` set xs" by auto
    then have "AList.delete k xs = xs" by (force simp: AList.delete_eq filter_id_conv)
    with True Cons.prems show ?thesis by (cases e) simp
  next
    case False
    with Cons show ?thesis by (cases e) simp
  qed
qed simp

lemma sum_update_new:
  fixes f :: "'b \<Rightarrow> nat"
  assumes "map_of xs k = None"
  shows "(\<Sum>(_, v)\<leftarrow>AList.update k b xs. f v) = (\<Sum>(_, v)\<leftarrow>xs. f v) + f b"
  using assms by (induction xs) (auto split: if_splits)

lemma in_update: "e \<in> set (AList.update k b xs) \<Longrightarrow> e = (k, b) \<or> e \<in> set xs"
  by (induction xs) (auto split: if_splits)

lemma keys_update: "map_of xs k = Some a \<Longrightarrow> map fst (AList.update k b xs) = map fst xs"
  by (induction xs) (auto split: if_splits)

lemma map_update:
  "map (\<lambda>(k, v). (k, f v)) (AList.update k b xs) = AList.update k (f b) (map (\<lambda>(k, v). (k, f v)) xs)"
  by (induction xs) auto

lemma map_delete:
  "map (\<lambda>(k, v). (k, f v)) (AList.delete k xs) = AList.delete k (map (\<lambda>(k, v). (k, f v)) xs)"
  by (induction xs) auto

lemma map_of_map_snd: "map_of (map (\<lambda>(k, v). (k, f v)) xs) k = map_option f (map_of xs k)"
  by (induction xs) auto

section \<open>The ledger\<close>

record account =
  acc_owner :: nat
  acc_kind :: source_kind
  acc_retained :: "bytes option"
  acc_held :: nat
  acc_window_bytes :: nat
  acc_window_packets :: nat
  acc_out_bytes :: nat
  acc_out_packets :: nat
  acc_charged_bytes :: nat
  acc_charged_packets :: nat
  acc_lost :: bool

record ledger =
  led_config :: media_config
  led_accounts :: "(source_key \<times> account) list"
  led_nodes :: "(node_key \<times> scene_node) list"
  led_transactions :: "((nat \<times> nat) \<times> mutation list) list"
  led_deliveries :: "(nat \<times> pending_delivery) list"
  led_next :: nat
  led_queued :: nat
  led_retained :: nat

definition account_of :: "('q, 'd) source \<Rightarrow> account" where
  "account_of v =
     \<lparr>acc_owner = src_owner v, acc_kind = src_kind v, acc_retained = src_retained v,
      acc_held = src_retained_bytes v, acc_window_bytes = src_window_bytes v,
      acc_window_packets = src_window_packets v, acc_out_bytes = src_out_bytes v,
      acc_out_packets = src_out_packets v, acc_charged_bytes = src_charged_bytes v,
      acc_charged_packets = src_charged_packets v,
      acc_lost = (SourceLost \<in> src_milestones v)\<rparr>"

definition accounts :: "(source_key \<times> ('q, 'd) source) list \<Rightarrow> (source_key \<times> account) list" where
  "accounts xs = map (\<lambda>(k, v). (k, account_of v)) xs"

definition ledger :: "('q, 'd) media_state \<Rightarrow> ledger" where
  "ledger s =
     \<lparr>led_config = ms_config s, led_accounts = accounts (ms_sources s), led_nodes = ms_nodes s,
      led_transactions = ms_transactions s, led_deliveries = ms_deliveries s,
      led_next = ms_next_delivery s, led_queued = ms_queued_bytes s, led_retained = ms_retained_bytes s\<rparr>"

definition u64_limit :: nat where "u64_limit = 18446744073709551615"

definition config_ok :: "media_config \<Rightarrow> bool" where
  "config_ok c \<longleftrightarrow> retained_limit c < u64_limit \<and> bridge_queue_limit c < u64_limit"

text \<open>What a source may send is what it was given and has not used, never more than its window.\<close>

definition credit_ok :: "account \<Rightarrow> bool" where
  "credit_ok a \<longleftrightarrow>
     acc_out_bytes a + acc_charged_bytes a \<le> acc_window_bytes a \<and>
     acc_out_packets a + acc_charged_packets a \<le> acc_window_packets a \<and>
     acc_window_bytes a \<le> u64_limit \<and> acc_window_packets a \<le> u64_limit"

definition account_ok :: "media_config \<Rightarrow> source_key \<times> account \<Rightarrow> bool" where
  "account_ok c e =
     (case e of (k, a) \<Rightarrow>
        acc_owner a = fst k \<and> acc_held a = body_length (acc_retained a) \<and>
        (is_timed (acc_kind a) \<longrightarrow> acc_retained a = None) \<and> credit_ok a \<and>
        acc_window_bytes a \<le> retained_limit c \<and> \<not> acc_lost a)"

fun mutation_ok :: "nat \<Rightarrow> mutation \<Rightarrow> bool" where
  "mutation_ok p (CreateNode n) = (sn_producer n = p \<and> i64_node n)"
| "mutation_ok p (UpdateNode n) = (sn_producer n = p \<and> i64_node n)"
| "mutation_ok p (DeleteNode owner _) = (owner = p)"

definition nodes_ok :: "source_key set \<Rightarrow> (node_key \<times> scene_node) list \<Rightarrow> bool" where
  "nodes_ok ks ns \<longleftrightarrow> distinct (map fst ns) \<and>
     (\<forall>(k, n)\<in>set ns. k = node_key n \<and> node_source n \<in> ks \<and> i64_node n)"

definition transactions_ok :: "((nat \<times> nat) \<times> mutation list) list \<Rightarrow> bool" where
  "transactions_ok ts \<longleftrightarrow> (\<forall>(k, ms)\<in>set ts. list_all (mutation_ok (fst k)) ms)"

definition deliveries_ok :: "ledger \<Rightarrow> bool" where
  "deliveries_ok l \<longleftrightarrow> distinct (map fst (led_deliveries l)) \<and>
     (\<forall>(i, _)\<in>set (led_deliveries l). i \<le> led_next l) \<and>
     led_queued l = (\<Sum>(_, d)\<leftarrow>led_deliveries l. del_queued d) \<and>
     (led_queued l \<le> bridge_queue_limit (led_config l) \<or> length (filter (\<lambda>(_, d). 0 < del_queued d) (led_deliveries l)) \<le> 1)"

definition ledger_ok :: "ledger \<Rightarrow> bool" where
  "ledger_ok l \<longleftrightarrow> config_ok (led_config l) \<and>
     distinct (map fst (led_accounts l)) \<and> list_all (account_ok (led_config l)) (led_accounts l) \<and>
     length (led_accounts l) \<le> max_sources (led_config l) \<and>
     led_retained l = (\<Sum>(_, a)\<leftarrow>led_accounts l. acc_held a) \<and>
     led_retained l \<le> retained_limit (led_config l) \<and>
     nodes_ok (fst ` set (led_accounts l)) (led_nodes l) \<and>
     length (led_nodes l) \<le> max_nodes (led_config l) \<and>
     transactions_ok (led_transactions l) \<and> deliveries_ok l"

definition media_ok :: "('q, 'd) media_state \<Rightarrow> bool" where
  "media_ok s = ledger_ok (ledger s)"

section \<open>Operations that leave the ledger alone\<close>

named_theorems quiet \<open>what does not change the ledger\<close>

lemma ledger_cong:
  "ms_config s' = ms_config s \<Longrightarrow> ms_sources s' = ms_sources s \<Longrightarrow> ms_nodes s' = ms_nodes s \<Longrightarrow>
   ms_transactions s' = ms_transactions s \<Longrightarrow> ms_deliveries s' = ms_deliveries s \<Longrightarrow>
   ms_next_delivery s' = ms_next_delivery s \<Longrightarrow> ms_queued_bytes s' = ms_queued_bytes s \<Longrightarrow>
   ms_retained_bytes s' = ms_retained_bytes s \<Longrightarrow> ledger s' = ledger s"
  by (simp add: ledger_def)

lemma ledger_out [quiet]: "ledger (s\<lparr>ms_out := out\<rparr>) = ledger s"
  by (simp add: ledger_def)

lemma ledger_projected [quiet]: "ledger (s\<lparr>ms_projected := ks\<rparr>) = ledger s"
  by (simp add: ledger_def)

lemma ledger_active [quiet]: "ledger (s\<lparr>ms_active_panes := ps\<rparr>) = ledger s"
  by (simp add: ledger_def)

lemma ledger_next_producer [quiet]: "ledger (s\<lparr>ms_next_producer := p\<rparr>) = ledger s"
  by (simp add: ledger_def)

lemma ledger_producers [quiet]: "ledger (s\<lparr>ms_producers := ps\<rparr>) = ledger s"
  by (simp add: ledger_def)

lemma ledger_revision [quiet]: "ledger (advance_projection s) = ledger s"
  by (simp add: ledger_def advance_projection_def)

lemma ledger_put_producer [quiet]: "ledger (put_producer p v s) = ledger s"
  by (simp add: put_producer_def quiet)

lemma ledger_write_out [quiet]: "ledger (write_out e s) = ledger s"
  by (simp add: write_out_def quiet)

lemma ledger_put_source:
  "ledger (put_source k v s) =
     ledger s\<lparr>led_accounts := AList.update k (account_of v) (led_accounts (ledger s))\<rparr>"
  by (simp add: ledger_def put_source_def accounts_def map_update)

lemma account_at: "map_of (led_accounts (ledger s)) k = map_option account_of (source_at k s)"
  by (simp add: ledger_def accounts_def source_at_def map_of_map_snd)

lemma quiet_put_source:
  "source_at k s = Some w \<Longrightarrow> account_of v = account_of w \<Longrightarrow> ledger (put_source k v s) = ledger s"
  by (simp add: ledger_put_source AList.update_triv account_at)

lemma ledger_advance_scene [quiet]: "ledger (snd (advance_scene env p why s)) = ledger s"
  by (auto simp: advance_scene_def quiet Let_def split: option.split)

lemma ledger_advance_source [quiet]: "ledger (snd (advance_source env k ch s)) = ledger s"
proof (cases "source_at k s")
  case None
  then show ?thesis by (simp add: advance_source_def)
next
  case (Some v)
  have "ledger (put_source k (v\<lparr>src_revision := r\<rparr>) s) = ledger s" for r
    by (rule quiet_put_source[OF Some]) (simp add: account_of_def)
  then show ?thesis using Some
    by (auto simp: advance_source_def quiet Let_def split: option.split prod.split)
qed

lemma advance_source_quiet: "advance_source env k ch s = (e, s') \<Longrightarrow> ledger s' = ledger s"
  using ledger_advance_source[of env k ch s] by simp

lemma advance_scene_quiet: "advance_scene env p why s = (e, s') \<Longrightarrow> ledger s' = ledger s"
  using ledger_advance_scene[of env p why s] by simp

lemma ledger_emit [quiet]: "ledger (snd (emit_source_event env k ch s)) = ledger s"
  by (auto simp: emit_source_event_def quiet Let_def split: option.split)

lemma ledger_write_credit [quiet]: "ledger (write_delivery_credit c s) = ledger s"
  by (auto simp: write_delivery_credit_def quiet split: prod.split)

lemma ledger_return_credits [quiet]: "ledger (return_delivery_credits cs s) = ledger s"
  unfolding return_delivery_credits_def by (induction cs arbitrary: s) (simp_all add: quiet)

lemma ledger_request_recovery [quiet]: "ledger (snd (request_recovery env k req why s)) = ledger s"
  by (auto simp: request_recovery_def Let_def quiet account_of_def split: option.split
      intro!: quiet_put_source)

lemma ledger_request_keyframe [quiet]: "ledger (request_keyframe env k req why s) = ledger s"
  by (simp add: request_keyframe_def quiet)

lemma ledger_full_frame [quiet]: "ledger (request_full_frame why k s) = ledger s"
  by (auto simp: request_full_frame_def Let_def quiet account_of_def split: option.split
      intro!: quiet_put_source)

lemma ledger_full_frames [quiet]: "ledger (request_full_frames ks why s) = ledger s"
  unfolding request_full_frames_def by (induction ks arbitrary: s) (simp_all add: quiet)

lemma ledger_advance_scenes [quiet]: "ledger (advance_scenes env why ps s) = ledger s"
  unfolding advance_scenes_def by (induction ps arbitrary: s) (simp_all add: quiet)

lemma ledger_change_producers [quiet]: "ledger (change_producers pane f s) = ledger s"
  by (simp add: change_producers_def quiet)

lemma ledger_adjust_source:
  "(\<And>v. account_of (f v) = account_of v) \<Longrightarrow> ledger (adjust_source k f s) = ledger s"
  by (auto simp: adjust_source_def split: option.split intro: quiet_put_source)

lemma ledger_lose_video [quiet]: "ledger (lose_video env k s) = ledger s"
  by (auto simp: lose_video_def quiet account_of_def split: option.split intro!: quiet_put_source)

lemma ledger_change_sources:
  "(\<And>v. account_of (f v) = account_of v) \<Longrightarrow> ledger (change_sources f s) = ledger s"
  by (auto simp: change_sources_def ledger_def accounts_def)

lemma ledger_outer_playback [quiet]: "ledger (apply_outer_playback env k pb eos s) = ledger s"
  by (auto simp: apply_outer_playback_def quiet account_of_def split: option.split
      intro!: quiet_put_source)

lemma ledger_observe_marker [quiet]: "ledger (snd (observe_marker env pane owns a at s)) = ledger s"
  by (auto simp: observe_marker_def Let_def quiet split: option.split prod.split)

lemma ledger_wait [quiet]: "ledger (snd (wait_for_source p q w s)) = ledger s"
  by (auto simp: wait_for_source_def Let_def quiet split: option.split)

lemma ledger_admit [quiet]: "ledger (snd (admit_producer pane clips s)) = ledger s"
  by (simp add: admit_producer_def Let_def quiet)

lemma ledger_set_observation [quiet]: "ledger (snd (set_observation p a b c s)) = ledger s"
  by (simp add: set_observation_def quiet split: option.split)

lemma ledger_end_wait [quiet]: "ledger (snd (end_wait p q s)) = ledger s"
  by (simp add: end_wait_def quiet split: option.split)

lemma ledger_set_policy [quiet]: "ledger (snd (set_source_policy env k pol s)) = ledger s"
proof (cases "source_at k s")
  case None
  then show ?thesis by (simp add: set_source_policy_def)
next
  case (Some v)
  have "ledger (put_source k (v\<lparr>src_policy := pol'\<rparr>) s) = ledger s" for pol'
    by (rule quiet_put_source[OF Some]) (simp add: account_of_def)
  then show ?thesis using Some
    by (auto simp: set_source_policy_def quiet split: sum.split option.split prod.split
        dest!: advance_source_quiet)
qed

lemma ledger_attach [quiet]: "ledger (snd (attach_media env k s)) = ledger s"
  by (auto simp: attach_media_def quiet account_of_def split: option.split intro!: quiet_put_source)

lemma ledger_close_media [quiet]: "ledger (close_media env k s) = ledger s"
  by (auto simp: close_media_def quiet account_of_def split: option.split intro!: quiet_put_source)

lemma ledger_answer [quiet]: "ledger (answer_rejection k out s) = ledger s"
  by (auto simp: answer_rejection_def quiet split: ingest_outcome.split)

section \<open>Credit\<close>

definition give :: "nat \<Rightarrow> nat \<Rightarrow> account \<Rightarrow> account" where
  "give bytes packets a =
     a\<lparr>acc_out_bytes := acc_out_bytes a + bytes, acc_out_packets := acc_out_packets a + packets\<rparr>"

definition charge :: "nat \<Rightarrow> nat \<Rightarrow> account \<Rightarrow> account" where
  "charge bytes packets a =
     a\<lparr>acc_out_bytes := acc_out_bytes a - bytes, acc_out_packets := acc_out_packets a - packets,
       acc_charged_bytes := acc_charged_bytes a + bytes,
       acc_charged_packets := acc_charged_packets a + packets\<rparr>"

definition uncharge :: "nat \<Rightarrow> nat \<Rightarrow> account \<Rightarrow> account" where
  "uncharge bytes packets a =
     give bytes packets (a\<lparr>acc_charged_bytes := acc_charged_bytes a - bytes,
       acc_charged_packets := acc_charged_packets a - packets\<rparr>)"

text \<open>What the window of a shown source still holds.\<close>

definition refill :: "account \<Rightarrow> account" where
  "refill a = a\<lparr>acc_out_bytes := acc_window_bytes a - acc_charged_bytes a,
     acc_out_packets := acc_window_packets a - acc_charged_packets a\<rparr>"

lemma credit_moves:
  assumes "credit_ok a"
  shows "n \<le> acc_out_bytes a \<Longrightarrow> m \<le> acc_out_packets a \<Longrightarrow> credit_ok (charge n m a)"
    and "n \<le> acc_charged_bytes a \<Longrightarrow> m \<le> acc_charged_packets a \<Longrightarrow> credit_ok (uncharge n m a)"
    and "credit_ok (refill a)"
  using assms by (simp_all add: credit_ok_def charge_def uncharge_def give_def refill_def)

text \<open>\<open>consume_source_credit\<close> charges the record or leaves everything as it is.\<close>

lemma consume_ledger:
  assumes v: "source_at k s = Some v" and ok: "credit_ok (account_of v)"
  shows "(fst (consume_source_credit k n s) = None \<longleftrightarrow> 0 < n \<and> n \<le> src_out_bytes v \<and> 0 < src_out_packets v)"
    and "fst (consume_source_credit k n s) = None \<Longrightarrow> snd (consume_source_credit k n s) =
      put_source k (v\<lparr>src_out_bytes := src_out_bytes v - n, src_out_packets := src_out_packets v - 1,
        src_charged_bytes := src_charged_bytes v + n, src_charged_packets := src_charged_packets v + 1\<rparr>) s"
    and "fst (consume_source_credit k n s) \<noteq> None \<Longrightarrow> snd (consume_source_credit k n s) = s"
proof -
  have "src_out_bytes v + src_charged_bytes v \<le> 18446744073709551615"
    "src_out_packets v + src_charged_packets v \<le> 18446744073709551615"
    using ok by (simp_all add: credit_ok_def account_of_def u64_limit_def)
  then show "(fst (consume_source_credit k n s) = None \<longleftrightarrow> 0 < n \<and> n \<le> src_out_bytes v \<and> 0 < src_out_packets v)"
    "fst (consume_source_credit k n s) = None \<Longrightarrow> snd (consume_source_credit k n s) =
      put_source k (v\<lparr>src_out_bytes := src_out_bytes v - n, src_out_packets := src_out_packets v - 1,
        src_charged_bytes := src_charged_bytes v + n, src_charged_packets := src_charged_packets v + 1\<rparr>) s"
    "fst (consume_source_credit k n s) \<noteq> None \<Longrightarrow> snd (consume_source_credit k n s) = s"
    using v by (auto simp: consume_source_credit_def Let_def not_less)
qed

lemma prepare_return_at:
  assumes v: "source_at k s = Some v" and ok: "credit_ok (account_of v)"
    and fits: "n \<le> src_charged_bytes v" "m \<le> src_charged_packets v"
  obtains w where "snd (prepare_credit_return k n m s) = put_source k w s"
    and "account_of w = (if k \<in> ms_projected s then refill (uncharge n m (account_of v))
                        else uncharge n m (account_of v))"
    and "fst (prepare_credit_return k n m s) =
      (src_out_bytes w - src_out_bytes v, src_out_packets w - src_out_packets v)"
    and "src_out_bytes v \<le> src_out_bytes w" and "src_out_packets v \<le> src_out_packets w"
proof -
  let ?v1 = "give_credit n m (v\<lparr>src_charged_bytes := src_charged_bytes v - n,
    src_charged_packets := src_charged_packets v - m\<rparr>)"
  let ?w = "if k \<in> ms_projected s
    then give_credit (fst (top_up ?v1)) (snd (top_up ?v1)) ?v1 else ?v1"
  have b: "src_out_bytes v + src_charged_bytes v \<le> src_window_bytes v"
    "src_out_packets v + src_charged_packets v \<le> src_window_packets v"
    "src_window_bytes v \<le> 18446744073709551615" "src_window_packets v \<le> 18446744073709551615"
    using ok by (simp_all add: credit_ok_def account_of_def u64_limit_def)
  show ?thesis
  proof (rule that[of ?w])
    show "snd (prepare_credit_return k n m s) = put_source k ?w s"
      using v fits by (simp add: prepare_credit_return_def Let_def split: prod.split)
    show "account_of ?w = (if k \<in> ms_projected s then refill (uncharge n m (account_of v))
        else uncharge n m (account_of v))"
      using b fits by (auto simp: account_of_def refill_def uncharge_def give_def give_credit_def
          top_up_def sat_add64_def)
    show "fst (prepare_credit_return k n m s) =
      (src_out_bytes ?w - src_out_bytes v, src_out_packets ?w - src_out_packets v)"
      using v b fits by (auto simp: prepare_credit_return_def Let_def give_credit_def top_up_def
          sat_add64_def add.commute split: prod.split)
    show "src_out_bytes v \<le> src_out_bytes ?w" "src_out_packets v \<le> src_out_packets ?w"
      using b fits by (auto simp: give_credit_def sat_add64_def top_up_def)
  qed
qed

section \<open>The moves of the ledger\<close>

lemma deliveries_ok_frame [simp]:
  "deliveries_ok (l\<lparr>led_accounts := xs\<rparr>) = deliveries_ok l"
  "deliveries_ok (l\<lparr>led_retained := r\<rparr>) = deliveries_ok l"
  "deliveries_ok (l\<lparr>led_nodes := ns\<rparr>) = deliveries_ok l"
  "deliveries_ok (l\<lparr>led_transactions := ts\<rparr>) = deliveries_ok l"
  by (simp_all add: deliveries_ok_def)

lemma put_account_ok:
  assumes ok: "ledger_ok l" and a: "map_of (led_accounts l) k = Some a"
    and b: "account_ok (led_config l) (k, b)"
    and r: "r + acc_held a = led_retained l + acc_held b" "r \<le> retained_limit (led_config l)"
  shows "ledger_ok (l\<lparr>led_accounts := AList.update k b (led_accounts l), led_retained := r\<rparr>)"
proof -
  let ?xs = "AList.update k b (led_accounts l)"
  have keys: "map fst ?xs = map fst (led_accounts l)" by (rule keys_update[OF a])
  have "(\<Sum>(_, v)\<leftarrow>?xs. acc_held v) + acc_held a = led_retained l + acc_held b"
    using sum_update[OF a, of acc_held b] ok by (simp add: ledger_ok_def)
  then have "r = (\<Sum>(_, v)\<leftarrow>?xs. acc_held v)" using r by simp
  moreover have "list_all (account_ok (led_config l)) ?xs"
    using ok b by (auto simp: ledger_ok_def list_all_iff dest!: in_update)
  moreover have "fst ` set ?xs = fst ` set (led_accounts l)" "length ?xs = length (led_accounts l)"
    using keys by (metis set_map, metis length_map)
  ultimately show ?thesis using ok keys r(2) by (simp add: ledger_ok_def)
qed

lemma filter_delete_le: "length (filter P (AList.delete k xs)) \<le> length (filter P xs)"
  by (induction xs) auto

lemma pop_delivery_ok:
  assumes ok: "ledger_ok l" and d: "map_of (led_deliveries l) i = Some d"
  shows "ledger_ok (l\<lparr>led_deliveries := AList.delete i (led_deliveries l),
    led_queued := led_queued l - del_queued d\<rparr>)"
proof -
  let ?ds = "AList.delete i (led_deliveries l)"
  have dl: "deliveries_ok l" using ok by (simp add: ledger_ok_def)
  then have "(\<Sum>(_, d)\<leftarrow>?ds. del_queued d) + del_queued d = led_queued l"
    using sum_delete[OF _ d, of del_queued] by (simp add: deliveries_ok_def)
  moreover have "distinct (map fst ?ds)" using dl by (simp add: deliveries_ok_def AList.distinct_delete)
  moreover have "\<forall>(j, _)\<in>set ?ds. j \<le> led_next l"
    using dl by (auto simp: deliveries_ok_def AList.delete_eq)
  moreover have "led_queued l - del_queued d \<le> bridge_queue_limit (led_config l) \<or>
      length (filter (\<lambda>(_, d). 0 < del_queued d) ?ds) \<le> 1"
    using dl filter_delete_le[of "\<lambda>(_, d). 0 < del_queued d" i "led_deliveries l"]
    by (auto simp: deliveries_ok_def)
  ultimately have "deliveries_ok (l\<lparr>led_deliveries := ?ds, led_queued := led_queued l - del_queued d\<rparr>)"
    unfolding deliveries_ok_def by simp
  with ok show ?thesis by (simp add: ledger_ok_def)
qed

lemma sum_zero_filter: "(\<Sum>(_, d)\<leftarrow>ds. f d) = (0::nat) \<Longrightarrow> filter (\<lambda>(_, d). 0 < f d) ds = []"
  by (induction ds) auto

lemma push_delivery_ok:
  assumes ok: "ledger_ok l"
    and room: "led_queued l = 0 \<or> led_queued l + del_queued d \<le> bridge_queue_limit (led_config l)"
  shows "ledger_ok (l\<lparr>led_next := led_next l + 1, led_queued := led_queued l + del_queued d,
    led_deliveries := AList.update (led_next l + 1) d (led_deliveries l)\<rparr>)"
proof -
  let ?ds = "AList.update (led_next l + 1) d (led_deliveries l)"
  have dl: "deliveries_ok l" using ok by (simp add: ledger_ok_def)
  then have new: "led_next l + 1 \<notin> fst ` set (led_deliveries l)"
    by (auto simp: deliveries_ok_def)
  then have ds: "?ds = led_deliveries l @ [(led_next l + 1, d)]" by (rule update_fresh)
  have "deliveries_ok (l\<lparr>led_next := led_next l + 1, led_queued := led_queued l + del_queued d,
      led_deliveries := led_deliveries l @ [(led_next l + 1, d)]\<rparr>)"
    using dl new room sum_zero_filter[of del_queued "led_deliveries l"]
    by (auto simp: deliveries_ok_def)
  with ok show ?thesis unfolding ds by (simp add: ledger_ok_def)
qed

lemma shrink_ok:
  assumes ok: "ledger_ok l"
    and xs: "set xs \<subseteq> set (led_accounts l)" "distinct (map fst xs)" "length xs \<le> length (led_accounts l)"
    and r: "r = (\<Sum>(_, a)\<leftarrow>xs. acc_held a)" "r \<le> led_retained l"
    and ns: "nodes_ok (fst ` set xs) (led_nodes l)"
  shows "ledger_ok (l\<lparr>led_accounts := xs, led_retained := r\<rparr>)"
proof -
  have "list_all (account_ok (led_config l)) xs" using ok xs(1) by (auto simp: ledger_ok_def list_all_iff)
  then show ?thesis using ok r ns xs by (auto simp: ledger_ok_def)
qed

lemma new_account_ok:
  assumes ok: "ledger_ok l" and new: "map_of (led_accounts l) k = None"
    and room: "length (led_accounts l) < max_sources (led_config l)"
    and a: "account_ok (led_config l) (k, a)" "acc_held a = 0"
  shows "ledger_ok (l\<lparr>led_accounts := AList.update k a (led_accounts l)\<rparr>)"
proof -
  have "k \<notin> fst ` set (led_accounts l)" using new by (simp add: map_of_eq_None_iff)
  then have xs: "AList.update k a (led_accounts l) = led_accounts l @ [(k, a)]"
    by (rule update_fresh)
  have "nodes_ok (insert k (fst ` set (led_accounts l))) (led_nodes l)"
    using ok by (auto simp: ledger_ok_def nodes_ok_def)
  then show ?thesis using ok room a \<open>k \<notin> _\<close>
    by (auto simp: ledger_ok_def xs)
qed

lemma set_nodes_ok:
  "ledger_ok l \<Longrightarrow> nodes_ok (fst ` set (led_accounts l)) ns \<Longrightarrow> length ns \<le> max_nodes (led_config l) \<Longrightarrow>
   ledger_ok (l\<lparr>led_nodes := ns\<rparr>)"
  by (simp add: ledger_ok_def)

lemma set_transactions_ok: "ledger_ok l \<Longrightarrow> transactions_ok ts \<Longrightarrow> ledger_ok (l\<lparr>led_transactions := ts\<rparr>)"
  by (simp add: ledger_ok_def)

end
