(* ===== verification/Media_Limits.thy ===== *)
theory Media_Limits
  imports Media_Ledger
begin

text \<open>
  Every operation of the media service keeps \<open>media_ok\<close>: the quotas of sources, nodes and retained
  bytes, the bound of the delivery queue, and the credit of every source.
\<close>

lemma media_ok_quiet: "ledger s' = ledger s \<Longrightarrow> media_ok s' \<longleftrightarrow> media_ok s"
  by (simp add: media_ok_def)

lemma media_ok_frame [simp]:
  "media_ok (s\<lparr>ms_out := out\<rparr>) = media_ok s" "media_ok (s\<lparr>ms_projected := ks\<rparr>) = media_ok s"
  "media_ok (s\<lparr>ms_active_panes := ps\<rparr>) = media_ok s" "media_ok (s\<lparr>ms_producers := vs\<rparr>) = media_ok s"
  "media_ok (advance_projection s) = media_ok s" "media_ok (put_producer p v s) = media_ok s"
  "media_ok (write_out e s) = media_ok s" "media_ok (snd (advance_scene env p why s)) = media_ok s"
  "media_ok (snd (advance_source env k ch s)) = media_ok s"
  "media_ok (snd (emit_source_event env k ch s)) = media_ok s"
  "media_ok (write_delivery_credit c s) = media_ok s" "media_ok (return_delivery_credits cs s) = media_ok s"
  "media_ok (request_keyframe env k req kf s) = media_ok s" "media_ok (request_full_frames lks fr s) = media_ok s"
  "media_ok (advance_scenes env why pl s) = media_ok s" "media_ok (change_producers pane pf s) = media_ok s"
  "media_ok (lose_video env k s) = media_ok s" "media_ok (apply_outer_playback env k pb eos s) = media_ok s"
  "media_ok (snd (observe_marker env pane owns a at s)) = media_ok s"
  "media_ok (snd (wait_for_source p q w s)) = media_ok s" "media_ok (snd (set_source_policy env k pol s)) = media_ok s"
  "media_ok (snd (attach_media env k s)) = media_ok s" "media_ok (close_media env k s) = media_ok s"
  "media_ok (answer_rejection k oc s) = media_ok s" "media_ok (snd (admit_producer pane clips s)) = media_ok s"
  "media_ok (snd (set_observation p x y z s)) = media_ok s" "media_ok (snd (end_wait p q s)) = media_ok s"
  by (simp_all add: media_ok_def quiet)

lemma media_ok_result:
  "advance_source env k ch s = (e, s') \<Longrightarrow> media_ok s' = media_ok s"
  "advance_scene env p why s = (e, s') \<Longrightarrow> media_ok s' = media_ok s"
  by (rule media_ok_quiet, erule advance_source_quiet, rule media_ok_quiet, erule advance_scene_quiet)

lemma account_ok_at:
  assumes "media_ok s" and "source_at k s = Some v"
  shows "account_ok (ms_config s) (k, account_of v)"
proof -
  have "map_of (led_accounts (ledger s)) k = Some (account_of v)" using assms(2) by (simp add: account_at)
  then have "(k, account_of v) \<in> set (led_accounts (ledger s))" by (rule map_of_SomeD)
  with assms(1) show ?thesis by (auto simp: media_ok_def ledger_ok_def list_all_iff ledger_def)
qed

lemma credit_ok_at: "media_ok s \<Longrightarrow> source_at k s = Some v \<Longrightarrow> credit_ok (account_of v)"
  using account_ok_at[of s k v] by (simp add: account_ok_def)

lemma never_lost: "media_ok s \<Longrightarrow> source_at k s = Some v \<Longrightarrow> SourceLost \<notin> src_milestones v"
  using account_ok_at[of s k v] by (simp add: account_ok_def account_of_def)

lemma retained_ok: "media_ok s \<Longrightarrow> ms_retained_bytes s \<le> retained_limit (ms_config s)"
  by (simp add: media_ok_def ledger_ok_def ledger_def)

lemma put_source_ok:
  assumes ok: "media_ok s" and v: "source_at k s = Some v"
    and w: "account_ok (ms_config s) (k, account_of w)" "src_retained_bytes w = src_retained_bytes v"
  shows "media_ok (put_source k w s)"
proof -
  have "ledger_ok (ledger s\<lparr>led_accounts := AList.update k (account_of w) (led_accounts (ledger s)),
      led_retained := led_retained (ledger s)\<rparr>)"
    using ok v w retained_ok[OF ok]
    by (intro put_account_ok[where a = "account_of v"]) (simp_all add: media_ok_def account_at,
        simp_all add: ledger_def account_of_def)
  then show ?thesis by (simp add: media_ok_def ledger_put_source)
qed

section \<open>Credit and deliveries\<close>

lemma consume_ok: "media_ok s \<Longrightarrow> media_ok (snd (consume_source_credit k n s))"
proof (cases "source_at k s")
  case None
  then show "media_ok s \<Longrightarrow> ?thesis" by (simp add: consume_source_credit_def)
next
  case v: (Some v)
  assume ok: "media_ok s"
  note acc = account_ok_at[OF ok v]
  show ?thesis
  proof (cases "fst (consume_source_credit k n s) = None")
    case True
    note c = consume_ledger[OF v credit_ok_at[OF ok v], of n]
    let ?w = "v\<lparr>src_out_bytes := src_out_bytes v - n, src_out_packets := src_out_packets v - 1,
      src_charged_bytes := src_charged_bytes v + n, src_charged_packets := src_charged_packets v + 1\<rparr>"
    have "account_ok (ms_config s) (k, account_of ?w)"
      using acc c(1) True by (auto simp: account_ok_def credit_ok_def account_of_def)
    then have "media_ok (put_source k ?w s)" by (rule put_source_ok[OF ok v]) simp
    then show ?thesis using c(2)[OF True] by simp
  next
    case False
    then show ?thesis using consume_ledger(3)[OF v credit_ok_at[OF ok v]] ok by simp
  qed
qed

lemma credit_return_ok:
  assumes ok: "media_ok s"
  shows "media_ok (snd (prepare_credit_return k n m s))"
proof (cases "\<exists>v. source_at k s = Some v \<and> n \<le> src_charged_bytes v \<and> m \<le> src_charged_packets v")
  case False
  then show ?thesis using ok by (auto simp: prepare_credit_return_def not_le split: option.split)
next
  case True
  then obtain v where v: "source_at k s = Some v" "n \<le> src_charged_bytes v" "m \<le> src_charged_packets v"
    by blast
  obtain w where w: "snd (prepare_credit_return k n m s) = put_source k w s"
    "account_of w = (if k \<in> ms_projected s then refill (uncharge n m (account_of v)) else uncharge n m (account_of v))"
    using prepare_return_at[OF v(1) credit_ok_at[OF ok v(1)] v(2,3)] by metis
  note acc = account_ok_at[OF ok v(1)]
  have "credit_ok (account_of w)"
    unfolding w(2) using credit_moves credit_ok_at[OF ok v(1)] v(2,3) by (simp add: account_of_def)
  moreover have "acc_owner (account_of w) = src_owner v" "acc_kind (account_of w) = src_kind v"
    "acc_retained (account_of w) = src_retained v" "acc_held (account_of w) = src_retained_bytes v"
    "acc_window_bytes (account_of w) = src_window_bytes v"
    "acc_lost (account_of w) = (SourceLost \<in> src_milestones v)"
    unfolding w(2) by (simp_all add: refill_def uncharge_def give_def account_of_def)
  ultimately have "account_ok (ms_config s) (k, account_of w)" "src_retained_bytes w = src_retained_bytes v"
    using acc by (simp_all add: account_ok_def account_of_def)
  then show ?thesis unfolding w(1) by (rule put_source_ok[OF ok v(1)])
qed

lemma credit_write_ok: "media_ok s \<Longrightarrow> media_ok (snd (prepare_credit_write k n m s))"
  using credit_return_ok[of s k n m] by (auto simp: prepare_credit_write_def split: prod.split)

lemma credit_write_result: "prepare_credit_write k n m s = (c, s') \<Longrightarrow> media_ok s \<Longrightarrow> media_ok s'"
  using credit_write_ok[of s k n m] by simp

lemma return_now_ok: "media_ok s \<Longrightarrow> media_ok (return_now k n s)"
  using credit_write_ok[of s k n 1] by (auto simp: return_now_def split: prod.split)

lemma remove_delivery_ok:
  assumes "media_ok s" and "map_of (ms_deliveries s) i = Some d"
  shows "media_ok (remove_delivery i d s)"
  using pop_delivery_ok[of "ledger s" i d] assms
  by (simp add: media_ok_def ledger_def remove_delivery_def)

lemma take_delivery_ok: "media_ok (snd acc) \<Longrightarrow> media_ok (snd (take_delivery i acc))"
  by (auto simp: take_delivery_def split: prod.split option.split
      intro: remove_delivery_ok elim!: credit_write_result)

lemma take_deliveries_ok: "media_ok s \<Longrightarrow> media_ok (snd (take_deliveries ids s))"
proof -
  have "media_ok (snd acc) \<Longrightarrow> media_ok (snd (fold take_delivery ids acc))" for acc
    by (induction ids arbitrary: acc) (simp, metis fold_simps(2) take_delivery_ok)
  from this[of "([], s)"] show "media_ok s \<Longrightarrow> ?thesis" by (simp add: take_deliveries_def)
qed

lemma release_deliveries_ok: "media_ok s \<Longrightarrow> media_ok (release_deliveries ids s)"
  using take_deliveries_ok[of s ids] by (auto simp: release_deliveries_def split: prod.split)

lemma cancel_ok: "media_ok s \<Longrightarrow> media_ok (cancel_source_deliveries k s)"
  by (simp add: cancel_source_deliveries_def release_deliveries_ok)

lemma deactivate_ok: "media_ok s \<Longrightarrow> media_ok (deactivate_bridge s)"
  unfolding deactivate_bridge_def
  by (intro release_deliveries_ok)
    (simp add: media_ok_def ledger_change_sources account_of_def quiet)

lemma complete_delivery_ok:
  assumes ok: "media_ok s"
  shows "media_ok (snd (complete_bridge_delivery env i dlv s))"
proof (cases "map_of (ms_deliveries s) i")
  case None
  then show ?thesis using ok by (simp add: complete_bridge_delivery_def)
next
  case (Some d)
  let ?s1 = "remove_delivery i d s" and ?k = "del_source d"
  have s1: "media_ok ?s1" by (rule remove_delivery_ok[OF ok Some])
  have adj: "media_ok (adjust_source ?k (\<lambda>v. v\<lparr>src_desynchronized := True\<rparr>) ?s1)"
    "media_ok (adjust_source ?k (\<lambda>v. v\<lparr>src_milestones := insert FirstVisiblePresentation (src_milestones v)\<rparr>) ?s1)"
    using s1 by (simp_all add: media_ok_def ledger_adjust_source account_of_def)
  have fin: "media_ok (snd (prepare_credit_return ?k (del_credit d) 1 (snd (advance_source env ?k ch t))))"
    if "media_ok t" for ch t using that by (intro credit_return_ok) simp
  show ?thesis
    by (auto simp: complete_bridge_delivery_def Let_def split_beta Some intro!: fin[simplified] adj s1)
qed

section \<open>The scene\<close>

lemma accounts_keys: "fst ` set (accounts xs) = fst ` set xs"
  by (simp add: accounts_def image_image split_beta)

lemma media_ok_nodes:
  assumes "media_ok s" and "nodes_ok (fst ` set (ms_sources s)) ns" and "length ns \<le> max_nodes (ms_config s)"
  shows "media_ok (s\<lparr>ms_nodes := ns\<rparr>)"
proof -
  have "fst ` set (led_accounts (ledger s)) = fst ` set (ms_sources s)"
    by (simp add: ledger_def accounts_keys)
  then show ?thesis
    using set_nodes_ok[of "ledger s" ns] assms by (simp add: media_ok_def ledger_def)
qed

lemma media_ok_transactions:
  "media_ok s \<Longrightarrow> transactions_ok ts \<Longrightarrow> media_ok (s\<lparr>ms_transactions := ts\<rparr>)"
  using set_transactions_ok[of "ledger s" ts] by (simp add: media_ok_def ledger_def)

lemma transactions_at:
  "media_ok s \<Longrightarrow> map_of (ms_transactions s) k = Some ms \<Longrightarrow> list_all (mutation_ok (fst k)) ms"
  by (auto simp: media_ok_def ledger_ok_def ledger_def transactions_ok_def dest!: map_of_SomeD)

lemma nodes_ok_at: "media_ok s \<Longrightarrow> nodes_ok (fst ` set (ms_sources s)) (ms_nodes s)"
  by (simp add: media_ok_def ledger_ok_def ledger_def accounts_keys)

lemma transactions_set:
  assumes "media_ok s" and "list_all (mutation_ok (fst k)) ms"
  shows "media_ok (s\<lparr>ms_transactions := AList.update k ms (ms_transactions s)\<rparr>)"
proof (rule media_ok_transactions[OF assms(1)])
  show "transactions_ok (AList.update k ms (ms_transactions s))"
    using assms by (auto simp: media_ok_def ledger_ok_def ledger_def transactions_ok_def dest!: in_update)
qed

lemma transactions_drop:
  assumes "media_ok s"
  shows "media_ok (s\<lparr>ms_transactions := AList.delete k (ms_transactions s)\<rparr>)"
proof (rule media_ok_transactions[OF assms])
  show "transactions_ok (AList.delete k (ms_transactions s))"
    using assms by (auto simp: media_ok_def ledger_ok_def ledger_def transactions_ok_def AList.delete_eq)
qed

lemma begin_ok: "media_ok s \<Longrightarrow> media_ok (snd (begin_transaction p t s))"
  using transactions_set[of s "(p, t)" "[]"] by (simp add: begin_transaction_def)

lemma push_ok: "media_ok s \<Longrightarrow> mutation_ok p m \<Longrightarrow> media_ok (snd (push_mutation p t m s))"
  by (auto simp: push_mutation_def split: option.split intro!: transactions_set dest: transactions_at)

lemma put_node_ok: "media_ok s \<Longrightarrow> i64_node n \<Longrightarrow> media_ok (snd (put_node creates p t n s))"
  by (auto simp: put_node_def Let_def i64_node_def i64_box_def node_box_def split: option.split intro!: push_ok)

lemma delete_node_ok: "media_ok s \<Longrightarrow> media_ok (snd (delete_node p t i s))"
  by (simp add: delete_node_def push_ok)

lemma abort_ok: "media_ok s \<Longrightarrow> media_ok (snd (abort_transaction p t s))"
  by (simp add: abort_transaction_def transactions_drop)

text \<open>A commit leaves the nodes of the scene well-formed, or as they are.\<close>

lemma validated_node:
  "validate_node env p n s = None \<Longrightarrow> sn_producer n = p \<and> (p, sn_source n) \<in> fst ` set (ms_sources s)"
  by (auto simp: validate_node_def source_at_def map_of_eq_None_iff split: if_splits option.splits)

lemma put_in_nodes:
  assumes "nodes_ok ks ns" and "i64_node n" and "sn_producer n = p" and "(p, sn_source n) \<in> ks"
  shows "nodes_ok ks (AList.update (p, sn_node n) n ns)"
proof -
  have "distinct (map fst (AList.update (p, sn_node n) n ns))"
    using assms(1) by (simp add: nodes_ok_def AList.distinct_update)
  with assms show ?thesis by (auto simp: nodes_ok_def node_key_def node_source_def dest!: in_update)
qed

lemma mutation_nodes:
  assumes "nodes_ok (fst ` set (ms_sources s)) ns" and "mutation_ok p m" and "apply_mutation env s p m ns = Inr ns'"
  shows "nodes_ok (fst ` set (ms_sources s)) ns'"
proof (cases m)
  case (DeleteNode owner i)
  with assms show ?thesis
    by (auto simp: apply_mutation_def nodes_ok_def distinct_map_filter AList.delete_eq split: if_splits)
next
  case (CreateNode n)
  with assms show ?thesis
    by (auto simp: apply_mutation_def split: option.splits if_splits dest!: validated_node intro!: put_in_nodes)
next
  case (UpdateNode n)
  with assms show ?thesis
    by (auto simp: apply_mutation_def split: option.splits if_splits dest!: validated_node intro!: put_in_nodes)
qed

lemma mutations_nodes:
  "apply_mutations env s p ms ns = Inr ns' \<Longrightarrow> nodes_ok (fst ` set (ms_sources s)) ns \<Longrightarrow>
   list_all (mutation_ok p) ms \<Longrightarrow> nodes_ok (fst ` set (ms_sources s)) ns'"
  by (induction ms arbitrary: ns) (auto split: sum.splits dest: mutation_nodes)

lemma apply_transaction_ok:
  assumes "media_ok s" and "list_all (mutation_ok p) ms"
  shows "media_ok (snd (apply_transaction env p ms s))"
proof (cases "apply_mutations env s p ms (ms_nodes s)")
  case (Inl e)
  then show ?thesis using assms by (simp add: apply_transaction_def)
next
  case (Inr ns)
  have "media_ok (s\<lparr>ms_nodes := ns\<rparr>)" if "length ns \<le> max_nodes (ms_config s)"
    by (rule media_ok_nodes[OF assms(1) mutations_nodes[OF Inr nodes_ok_at[OF assms(1)] assms(2)] that])
  then show ?thesis using assms Inr
    by (auto simp: apply_transaction_def media_ok_result split: option.split prod.split)
qed

lemma commit_ok: "media_ok s \<Longrightarrow> media_ok (snd (commit_transaction env p t s))"
  using transactions_at[of s "(p, t)"]
  by (auto simp: commit_transaction_def split: option.split intro!: apply_transaction_ok transactions_drop)

section \<open>Sources come and go\<close>

lemma create_ok: "media_ok s \<Longrightarrow> media_ok (snd (create_source env p i kind conf pol most now s))"
proof (cases "i = 0 \<or> max_sources (ms_config s) \<le> length (ms_sources s) \<or>
    retained_limit (ms_config s) < most \<or> source_at (p, i) s \<noteq> None")
  case True
  then show "media_ok s \<Longrightarrow> ?thesis" by (auto simp: create_source_def)
next
  case False
  assume ok: "media_ok s"
  let ?v = "fresh_source env p kind conf pol most now"
  have "config_ok (ms_config s)" using ok by (simp add: media_ok_def ledger_ok_def ledger_def)
  then have "account_ok (ms_config s) ((p, i), account_of ?v)" "acc_held (account_of ?v) = 0"
    using False by (auto simp: account_ok_def account_of_def fresh_source_def credit_ok_def config_ok_def
        body_length_def u64_limit_def)
  then have "ledger_ok (ledger s\<lparr>led_accounts := AList.update (p, i) (account_of ?v) (led_accounts (ledger s))\<rparr>)"
    using ok False by (intro new_account_ok) (simp_all add: media_ok_def account_at ledger_def accounts_def source_at_def map_of_map_snd)
  then have "media_ok (put_source (p, i) ?v s)" by (simp add: media_ok_def ledger_put_source)
  with False show ?thesis by (auto simp: create_source_def Let_def)
qed

lemma keep_sources_ok:
  assumes ok: "media_ok s" and ns: "nodes_ok (fst ` set (filter keep (ms_sources s))) (ms_nodes s)"
  shows "media_ok (s\<lparr>ms_sources := filter keep (ms_sources s),
    ms_retained_bytes := ms_retained_bytes s - (\<Sum>(_, v)\<leftarrow>filter (\<lambda>e. \<not> keep e) (ms_sources s). src_retained_bytes v)\<rparr>)"
proof -
  let ?xs = "filter keep (ms_sources s)"
  have held: "(\<Sum>(_, a)\<leftarrow>accounts xs. acc_held a) = (\<Sum>(_, v)\<leftarrow>xs. src_retained_bytes v)" for xs
    by (induction xs) (auto simp: accounts_def account_of_def)
  have part: "(\<Sum>(_, v)\<leftarrow>xs. src_retained_bytes v) = (\<Sum>(_, v)\<leftarrow>filter keep xs. src_retained_bytes v) +
      (\<Sum>(_, v)\<leftarrow>filter (\<lambda>e. \<not> keep e) xs. src_retained_bytes v)" for xs
    by (induction xs) auto
  have l: "ledger_ok (ledger s)" "led_accounts (ledger s) = accounts (ms_sources s)"
    "led_retained (ledger s) = ms_retained_bytes s" "led_nodes (ledger s) = ms_nodes s"
    using ok by (simp_all add: media_ok_def ledger_def)
  have total: "ms_retained_bytes s = (\<Sum>(_, v)\<leftarrow>ms_sources s. src_retained_bytes v)"
    using l held by (simp add: ledger_ok_def)
  have "distinct (map fst (ms_sources s))" using l by (simp add: ledger_ok_def accounts_def map_map comp_def split_beta)
  then have "distinct (map fst (accounts ?xs))" by (simp add: accounts_def comp_def split_beta distinct_map_filter)
  moreover have "set (accounts ?xs) \<subseteq> set (led_accounts (ledger s))" unfolding l by (auto simp: accounts_def)
  moreover have "length (accounts ?xs) \<le> length (led_accounts (ledger s))" unfolding l by (simp add: accounts_def)
  moreover have "nodes_ok (fst ` set (accounts ?xs)) (led_nodes (ledger s))" using ns by (simp add: l accounts_keys)
  moreover have "ms_retained_bytes s - (\<Sum>(_, v)\<leftarrow>filter (\<lambda>e. \<not> keep e) (ms_sources s). src_retained_bytes v) =
      (\<Sum>(_, a)\<leftarrow>accounts ?xs. acc_held a)"
    by (simp only: held total part[of "ms_sources s"])
  ultimately have "ledger_ok (ledger s\<lparr>led_accounts := accounts ?xs, led_retained := ms_retained_bytes s -
      (\<Sum>(_, v)\<leftarrow>filter (\<lambda>e. \<not> keep e) (ms_sources s). src_retained_bytes v)\<rparr>)"
    using l by (intro shrink_ok) simp_all
  then show ?thesis by (simp add: media_ok_def ledger_def)
qed

lemma nodes_filter: "nodes_ok ks ns \<Longrightarrow> nodes_ok ks (filter P ns)"
  by (auto simp: nodes_ok_def distinct_map_filter)

lemma media_ok_filter_nodes: "media_ok s \<Longrightarrow> media_ok (s\<lparr>ms_nodes := filter P (ms_nodes s)\<rparr>)"
proof (rule media_ok_nodes)
  assume ok: "media_ok s"
  show "nodes_ok (fst ` set (ms_sources s)) (filter P (ms_nodes s))"
    by (rule nodes_filter[OF nodes_ok_at[OF ok]])
  have "length (ms_nodes s) \<le> max_nodes (ms_config s)" using ok by (simp add: media_ok_def ledger_ok_def ledger_def)
  then show "length (filter P (ms_nodes s)) \<le> max_nodes (ms_config s)"
    by (meson length_filter_le order_trans)
qed

lemma media_ok_move_nodes:
  assumes ok: "media_ok s"
    and g: "\<And>n. node_key (g n) = node_key n \<and> node_source (g n) = node_source n \<and> i64_node (g n) = i64_node n"
  shows "media_ok (s\<lparr>ms_nodes := map (\<lambda>(k, n). (k, g n)) (ms_nodes s)\<rparr>)"
proof (rule media_ok_nodes[OF ok])
  show "nodes_ok (fst ` set (ms_sources s)) (map (\<lambda>(k, n). (k, g n)) (ms_nodes s))"
    using nodes_ok_at[OF ok] g by (auto simp: nodes_ok_def comp_def split_beta)
  show "length (map (\<lambda>(k, n). (k, g n)) (ms_nodes s)) \<le> max_nodes (ms_config s)"
    using ok by (simp add: media_ok_def ledger_ok_def ledger_def)
qed

lemma total_retained: "media_ok s \<Longrightarrow> ms_retained_bytes s = (\<Sum>(_, v)\<leftarrow>ms_sources s. src_retained_bytes v)"
proof -
  have "(\<Sum>(_, a)\<leftarrow>accounts xs. acc_held a) = (\<Sum>(_, v)\<leftarrow>xs. src_retained_bytes v)"
    for xs :: "(source_key \<times> ('a, 'b) source) list"
    by (induction xs) (auto simp: accounts_def account_of_def)
  then show "media_ok s \<Longrightarrow> ?thesis" by (simp add: media_ok_def ledger_ok_def ledger_def)
qed

lemma sources_distinct: "media_ok s \<Longrightarrow> distinct (map fst (ms_sources s))"
  by (simp add: media_ok_def ledger_ok_def ledger_def accounts_def comp_def split_beta)

lemma only_one:
  "distinct (map fst xs) \<Longrightarrow> map_of xs k = Some v \<Longrightarrow> filter (\<lambda>e. \<not> fst e \<noteq> k) xs = [(k, v)]"
proof (induction xs)
  case (Cons e xs)
  show ?case
  proof (cases "fst e = k")
    case True
    with Cons.prems have "k \<notin> fst ` set xs" by auto
    then have "filter (\<lambda>e. \<not> fst e \<noteq> k) xs = []" by (auto simp: filter_empty_conv)
    with True Cons.prems show ?thesis by (cases e) auto
  next
    case False
    with Cons show ?thesis by (cases e) auto
  qed
qed simp

lemma remove_ok: "media_ok s \<Longrightarrow> media_ok (snd (remove_source env k s))"
proof (cases "source_at k s")
  case None
  then show "media_ok s \<Longrightarrow> ?thesis" by (simp add: remove_source_def)
next
  case (Some v)
  assume ok: "media_ok s"
  let ?s0 = "s\<lparr>ms_nodes := filter (\<lambda>(_, n). node_source n \<noteq> k) (ms_nodes s)\<rparr>"
  have s0: "media_ok ?s0" by (rule media_ok_filter_nodes[OF ok])
  have del: "AList.delete k (ms_sources s) = filter (\<lambda>e. fst e \<noteq> k) (ms_sources s)"
    unfolding AList.delete_eq by (rule filter_cong) auto
  have one: "filter (\<lambda>e. \<not> fst e \<noteq> k) (ms_sources s) = [(k, v)]"
    using only_one[OF sources_distinct[OF ok]] Some by (simp add: source_at_def)
  have "nodes_ok (fst ` set (filter (\<lambda>e. fst e \<noteq> k) (ms_sources ?s0))) (ms_nodes ?s0)"
    using nodes_ok_at[OF ok] unfolding nodes_ok_def by (force simp: distinct_map_filter)
  from keep_sources_ok[OF s0 this]
  have "media_ok (s\<lparr>ms_sources := AList.delete k (ms_sources s),
      ms_retained_bytes := ms_retained_bytes s - src_retained_bytes v,
      ms_nodes := filter (\<lambda>(_, n). node_source n \<noteq> k) (ms_nodes s)\<rparr>)"
    unfolding del using one by (simp add: media_ok_def ledger_def)
  then show ?thesis using Some
    by (auto simp: remove_source_def Let_def media_ok_result split: option.split prod.split)
qed

lemma fold_subtract: "fold (\<lambda>(_, v) t. t - f v) xs (t::nat) = t - (\<Sum>(_, v)\<leftarrow>xs. f v)"
  by (induction xs arbitrary: t) auto

lemma prune_ok:
  assumes ok: "media_ok s"
  shows "media_ok (prune_orphaned_sources s)"
proof -
  let ?orphan = "\<lambda>(k, v). producer_at (fst k) s = None \<and> k \<notin> node_source ` snd ` set (ms_nodes s)"
  have "nodes_ok (fst ` set (filter (\<lambda>e. \<not> ?orphan e) (ms_sources s))) (ms_nodes s)"
    using nodes_ok_at[OF ok] unfolding nodes_ok_def by force
  from keep_sources_ok[OF ok this] show ?thesis
    by (simp add: prune_orphaned_sources_def Let_def fold_subtract)
qed

lemma cleanup_ok:
  assumes ok: "media_ok s"
  shows "media_ok (cleanup_producer p preserve s)"
proof (cases "producer_at p s")
  case None
  then show ?thesis using ok by (simp add: cleanup_producer_def)
next
  case (Some v)
  let ?s1 = "s\<lparr>ms_nodes := map (\<lambda>(k, n). (k, retain_anchor p v n)) (ms_nodes s)\<rparr>"
  have s1: "media_ok ?s1"
    by (rule media_ok_move_nodes[OF ok])
      (simp add: retain_anchor_def node_key_def node_source_def i64_node_def node_box_def)
  let ?s2 = "?s1\<lparr>ms_nodes := filter (\<lambda>(_, n). sn_producer n \<noteq> p \<or> preserve \<and> kept_poster s n) (ms_nodes ?s1)\<rparr>"
  have "transactions_ok (filter (\<lambda>((owner, _), _). owner \<noteq> p) (ms_transactions s))"
    using ok by (auto simp: media_ok_def ledger_ok_def ledger_def transactions_ok_def)
  from media_ok_transactions[OF media_ok_filter_nodes[OF s1] this]
  have "media_ok (s\<lparr>ms_producers := AList.delete p (ms_producers s),
      ms_transactions := filter (\<lambda>((owner, _), _). owner \<noteq> p) (ms_transactions s),
      ms_nodes := ms_nodes ?s2\<rparr>)"
    by (simp add: media_ok_def ledger_def)
  from prune_ok[OF this] show ?thesis using Some by (simp add: cleanup_producer_def)
qed

lemma revoke_ok:
  assumes ok: "media_ok s"
  shows "media_ok (revoke_pane pane s)"
proof -
  have "media_ok s' \<Longrightarrow> media_ok (fold (\<lambda>p. cleanup_producer p False) ps s')" for ps s'
    by (induction ps arbitrary: s') (simp_all add: cleanup_ok)
  from this[OF ok] show ?thesis
    unfolding revoke_pane_def Let_def media_ok_frame by (intro prune_ok media_ok_filter_nodes)
qed

lemma scroll_anchors_ok: "media_ok s \<Longrightarrow> media_ok (scroll_anchors env pane n s)"
  by (simp add: scroll_anchors_def Let_def)
    (rule media_ok_move_nodes, simp_all add: node_key_def node_source_def i64_node_def node_box_def)

lemma clear_ok: "media_ok s \<Longrightarrow> media_ok (clear_anchors env pane s)"
  by (simp add: clear_anchors_def Let_def prune_ok media_ok_filter_nodes)

section \<open>Playback\<close>

lemma put_same_account:
  "media_ok s \<Longrightarrow> source_at k s = Some v \<Longrightarrow> account_of w = account_of v \<Longrightarrow> media_ok (put_source k w s)"
  by (simp add: media_ok_def quiet_put_source)

lemma advanced_ok:
  "media_ok (snd (case advance_source env k ch t of
     (Some e, s') \<Rightarrow> (Some e, s') | (None, s') \<Rightarrow> (None, advance_projection s'))) = media_ok t"
  by (auto simp: media_ok_result split: option.split prod.split)

lemma control_ok: "media_ok s \<Longrightarrow> media_ok (snd (control_playback env k req other s))"
proof -
  assume "media_ok s"
  then have ok: "media_ok (if req = None then cancel_source_deliveries k s else s)" by (simp add: cancel_ok)
  define t where "t = (if req = None then cancel_source_deliveries k s else s)"
  show ?thesis
  proof (cases "source_at k t")
    case None
    then show ?thesis using ok by (simp add: control_playback_def Let_def t_def[symmetric])
  next
    case (Some v)
    have w: "account_of w = account_of v \<Longrightarrow> media_ok (put_source k w t)" for w
      using put_same_account[OF _ Some] ok by (simp add: t_def)
    show ?thesis
      unfolding control_playback_def Let_def t_def[symmetric] Some option.case
      using ok[folded t_def] by (simp add: if_distrib[of snd] advanced_ok if_distrib[of media_ok] w account_of_def)
  qed
qed

lemma flush_ok: "media_ok s \<Longrightarrow> media_ok (snd (flush_source env k epoch s))"
  using cancel_ok[of s k]
  by (auto simp: flush_source_def Let_def account_of_def split: option.split
      intro!: put_same_account dest: never_lost)

lemma eos_ok: "media_ok s \<Longrightarrow> media_ok (snd (apply_inner_eos env k epoch s))"
proof (cases "source_at k s")
  case None
  then show "media_ok s \<Longrightarrow> ?thesis" by (simp add: apply_inner_eos_def)
next
  case (Some v)
  assume ok: "media_ok s"
  have "is_static (src_kind v) \<or> src_retained v = None \<and> src_retained_bytes v = 0"
    using account_ok_at[OF ok Some] by (auto simp: account_ok_def account_of_def is_timed_def body_length_def)
  then show ?thesis using ok Some
    by (auto simp: apply_inner_eos_def Let_def media_ok_result account_of_def split: prod.split option.split
        intro: put_same_account)
qed

lemma snapshot_ok: "media_ok s \<Longrightarrow> media_ok (snd (projection_snapshot env shown offsets s))"
proof -
  have fold: "media_ok s' \<Longrightarrow> media_ok (fold (\<lambda>k s. snd (advance_source env k ch s)) ks s')" for ch ks s'
    by (induction ks arbitrary: s') simp_all
  assume ok: "media_ok s"
  have take: "take_deliveries ids (s\<lparr>ms_projected := ks\<rparr>) = (rel, s1) \<Longrightarrow> media_ok s1" for ids ks rel s1
    using take_deliveries_ok[of "s\<lparr>ms_projected := ks\<rparr>" ids] ok by simp
  show ?thesis
    by (auto simp: projection_snapshot_def Let_def split: prod.split intro!: fold dest!: take)
qed

section \<open>Records\<close>

lemma accepted_account:
  assumes "accept_record env fmt shown prep r v = Some (v1, body, key)"
  shows "account_of v1 = account_of v" and "body = None \<Longrightarrow> is_timed (src_kind v)"
    and "body \<noteq> None \<Longrightarrow> is_static (src_kind v)"
  using assms
  by (auto simp: accept_record_def accept_video_def account_of_def is_timed_def is_static_def Let_def
      split: source_kind.splits record_type.splits option.splits if_splits bind_splits)

lemma note_account:
  "account_of (note_record fmt shown prep r body v) =
     (case body of None \<Rightarrow> account_of v
      | Some full \<Rightarrow> account_of v\<lparr>acc_retained := Some full, acc_held := length full\<rparr>)"
  by (simp add: note_record_def account_of_def Let_def split: option.split)

lemma sat_exact: "a + b \<le> u64_limit \<Longrightarrow> sat_add64 a b = a + b"
  by (simp add: sat_add64_def u64_limit_def)

lemma sat_below: "sat_add64 a b \<le> n \<Longrightarrow> n < u64_limit \<Longrightarrow> a + b \<le> n \<and> sat_add64 a b = a + b"
  by (auto simp: sat_add64_def u64_limit_def)

lemma deliver_ok:
  assumes ok: "media_ok s" and small: "length body \<le> u64_limit"
  shows "media_ok (snd (deliver_record env taken fwd k n body rec s))"
proof (cases "fwd \<and> queue_has_room (length body) s \<and> ms_next_delivery s + 1 \<le> 18446744073709551615")
  case False
  then show ?thesis using ok return_now_ok[OF ok]
    by (auto simp: deliver_record_def Let_def)
next
  case True
  let ?d = "\<lparr>del_source = k, del_credit = n, del_queued = length body\<rparr>"
  let ?i = "ms_next_delivery s + 1"
  let ?s1 = "s\<lparr>ms_next_delivery := ?i, ms_queued_bytes := sat_add64 (ms_queued_bytes s) (length body),
    ms_deliveries := AList.update ?i ?d (ms_deliveries s)\<rparr>"
  have "config_ok (ms_config s)" using ok by (simp add: media_ok_def ledger_ok_def ledger_def)
  then have lim: "bridge_queue_limit (ms_config s) < u64_limit" by (simp add: config_ok_def)
  have room: "ms_queued_bytes s = 0 \<or> ms_queued_bytes s + length body \<le> bridge_queue_limit (ms_config s)"
    "sat_add64 (ms_queued_bytes s) (length body) = ms_queued_bytes s + length body"
    using True small sat_below[OF _ lim] sat_exact[of 0 "length body"] by (auto simp: queue_has_room_def)
  have s1: "media_ok ?s1"
    using push_delivery_ok[of "ledger s" ?d] ok room by (simp add: media_ok_def ledger_def)
  then have "media_ok (remove_delivery ?i ?d ?s1)"
    by (rule remove_delivery_ok) (simp add: AList.update_conv')
  from return_now_ok[OF this] show ?thesis
    using True s1 by (simp add: deliver_record_def Let_def)
qed

lemma retain_ok:
  assumes ok: "media_ok s" and v: "source_at k s = Some v"
    and w: "account_of w = (case body of None \<Rightarrow> account_of v
        | Some full \<Rightarrow> account_of v\<lparr>acc_retained := Some full, acc_held := length full\<rparr>)"
    and body: "body = None \<Longrightarrow> is_timed (src_kind v)" "body \<noteq> None \<Longrightarrow> is_static (src_kind v)"
    and tot: "tot = sat_add64 (ms_retained_bytes s - src_retained_bytes v) (body_length body)"
      "tot \<le> retained_limit (ms_config s)"
  shows "media_ok (put_source k w s\<lparr>ms_retained_bytes := tot\<rparr>)"
proof -
  note acc = account_ok_at[OF ok v]
  have lim: "retained_limit (ms_config s) < u64_limit"
    using ok by (simp add: media_ok_def ledger_ok_def ledger_def config_ok_def)
  have held: "acc_held (account_of w) = body_length body"
    using w acc body by (auto simp: account_ok_def account_of_def body_length_def split: option.splits)
  have "src_retained_bytes v \<le> ms_retained_bytes s"
    unfolding total_retained[OF ok] using v
    by (auto simp: source_at_def dest!: map_of_SomeD intro!: member_le_sum_list)
  then have eqn: "tot + src_retained_bytes v = ms_retained_bytes s + body_length body"
    using tot sat_below[of "ms_retained_bytes s - src_retained_bytes v" "body_length body", OF _ lim] by simp
  have "account_ok (ms_config s) (k, account_of w)"
    using w acc body held by (auto simp: account_ok_def account_of_def is_timed_def credit_ok_def split: option.splits)
  then have "ledger_ok (ledger s\<lparr>led_accounts := AList.update k (account_of w) (led_accounts (ledger s)),
      led_retained := tot\<rparr>)"
    using ok v eqn held tot(2)
    by (intro put_account_ok[where a = "account_of v"]) (auto simp: media_ok_def account_at ledger_def account_of_def
        source_at_def accounts_def map_of_map_snd)
  moreover have "ledger (put_source k w s\<lparr>ms_retained_bytes := tot\<rparr>) =
      ledger (put_source k w s)\<lparr>led_retained := tot\<rparr>"
    by (simp add: ledger_def)
  ultimately show ?thesis by (simp add: media_ok_def ledger_put_source)
qed

lemma forward_small:
  assumes "length (rec_body r) \<le> n" and "body_length body \<le> n"
  shows "length (forward_body fmt kind r body) \<le> n"
  using assms by (auto simp: forward_body_def body_length_def split: option.split)

lemma ingest_accepted_ok:
  assumes ok: "media_ok s" and v: "source_at k s = Some v"
    and acc: "accept_record env fmt (k \<in> ms_projected s) prep r v = Some accepted"
    and small: "length (rec_body r) \<le> u64_limit"
  shows "media_ok (snd (ingest_accepted env fmt taken k r prep v accepted s))"
proof -
  obtain v1 body key where a: "accepted = (v1, body, key)" by (cases accepted)
  note v1 = accepted_account[OF acc[unfolded a]]
  let ?total = "sat_add64 (ms_retained_bytes s - src_retained_bytes v1) (body_length body)"
  let ?w = "note_record fmt (k \<in> ms_projected s) prep r body v1"
  let ?s1 = "put_source k ?w s\<lparr>ms_retained_bytes := ?total\<rparr>"
  have kind: "src_kind v1 = src_kind v" "src_retained_bytes v1 = src_retained_bytes v"
    using v1(1) by (simp_all add: account_of_def)
  show ?thesis
  proof (cases "retained_limit (ms_config s) < ?total")
    case True
    then show ?thesis using put_same_account[OF ok v v1(1)]
      by (simp add: ingest_accepted_def a Let_def)
  next
    case False
    have "config_ok (ms_config s)" using ok by (simp add: media_ok_def ledger_ok_def ledger_def)
    then have len: "body_length body \<le> u64_limit"
      using False sat_below[of "ms_retained_bytes s - src_retained_bytes v1" "body_length body"
          "retained_limit (ms_config s)"] by (simp add: config_ok_def)
    have s1: "media_ok ?s1"
      using False v1 by (intro retain_ok[OF ok v, where body = body]) (simp_all add: note_account kind split: option.split)
    have dl: "media_ok t \<Longrightarrow> media_ok (snd (deliver_record env taken fw k n (forward_body fmt kd r body) key t))" for t fw n kd
      by (intro deliver_ok forward_small small len)
    show ?thesis using False s1
      by (auto simp: ingest_accepted_def a Let_def media_ok_result split: prod.split option.split intro!: dl)
  qed
qed

lemma ingest_ok:
  assumes ok: "media_ok s"
  shows "media_ok (snd (ingest_record env fmt now taken k r s))"
proof (cases "validate_encoded_image fmt k r s = None \<and> fst (consume_source_credit k (length (rec_body r)) s) = None")
  case False
  then show ?thesis using ok consume_ok[OF ok, of k "length (rec_body r)"]
    by (auto simp: ingest_record_def split: option.split prod.split)
next
  case True
  let ?n = "length (rec_body r)"
  define s1 where "s1 = snd (consume_source_credit k ?n s)"
  obtain v0 where v0: "source_at k s = Some v0"
    using True by (auto simp: consume_source_credit_def split: option.splits)
  note c = consume_ledger[OF v0 credit_ok_at[OF ok v0], of ?n]
  have run: "consume_source_credit k ?n s = (None, s1)" using True by (simp add: s1_def prod_eq_iff)
  have small: "?n \<le> u64_limit"
    using c(1) True credit_ok_at[OF ok v0] by (auto simp: credit_ok_def account_of_def)
  have s1: "media_ok s1" unfolding s1_def by (rule consume_ok[OF ok])
  obtain v where v: "source_at k s1 = Some v"
    using c(2) True by (simp add: s1_def source_at_def put_source_def AList.update_conv')
  have rej: "media_ok (put_source k (v\<lparr>src_full_reason := why\<rparr>) s1)" for why
    by (rule put_same_account[OF s1 v]) (simp add: account_of_def)
  show ?thesis
    using True s1 rej ingest_accepted_ok[OF s1 v _ small]
    by (auto simp: ingest_record_def run v Let_def split: option.split raster_preparation.split prod.split
        elim!: credit_write_result)
qed

end
