(* ===== verification/Media_Correct.thy ===== *)
theory Media_Correct
  imports Media_Limits
begin

text \<open>
  The media service as a machine: every operation a producer, a media channel, the session or the
  bridge can ask of it, the limits that hold along every run, and the snapshot it hands to the
  session.
\<close>

section \<open>The limits are fixed\<close>

named_theorems fixed_config \<open>operations do not change the limits\<close>

lemma config_quiet: "ledger s' = ledger s \<Longrightarrow> ms_config s' = ms_config s"
  by (simp add: ledger_def)

lemmas [fixed_config] = quiet[THEN config_quiet]

lemma config_put_source [fixed_config]: "ms_config (put_source k v s) = ms_config s"
  by (simp add: put_source_def)

lemma config_consume [fixed_config]: "ms_config (snd (consume_source_credit k n s)) = ms_config s"
  by (simp add: consume_source_credit_def Let_def fixed_config split: option.split)

lemma config_return [fixed_config]: "ms_config (snd (prepare_credit_return k n m s)) = ms_config s"
  by (simp add: prepare_credit_return_def Let_def fixed_config split: option.split prod.split)

lemma config_write [fixed_config]: "ms_config (snd (prepare_credit_write k n m s)) = ms_config s"
  by (simp add: prepare_credit_write_def split_beta fixed_config)

lemma config_remove_delivery [fixed_config]: "ms_config (remove_delivery i d s) = ms_config s"
  by (simp add: remove_delivery_def)

lemma config_take [fixed_config]: "ms_config (snd (take_delivery i acc)) = ms_config (snd acc)"
  by (simp add: take_delivery_def split_beta fixed_config split: option.split)

lemma config_fold_take: "ms_config (snd (fold take_delivery ids acc)) = ms_config (snd acc)"
  by (induction ids arbitrary: acc) (simp_all add: fixed_config)

lemma config_takes [fixed_config]: "ms_config (snd (take_deliveries ids s)) = ms_config s"
  by (simp add: take_deliveries_def config_fold_take)

lemma config_release [fixed_config]: "ms_config (release_deliveries ids s) = ms_config s"
  by (simp add: release_deliveries_def split_beta fixed_config)

lemma config_cancel [fixed_config]: "ms_config (cancel_source_deliveries k s) = ms_config s"
  by (simp add: cancel_source_deliveries_def fixed_config)

lemma config_deactivate [fixed_config]: "ms_config (deactivate_bridge s) = ms_config s"
  by (simp add: deactivate_bridge_def change_sources_def fixed_config)

lemma config_adjust [fixed_config]: "ms_config (adjust_source k f s) = ms_config s"
  by (simp add: adjust_source_def fixed_config split: option.split)

lemma config_complete [fixed_config]: "ms_config (snd (complete_bridge_delivery env i dlv s)) = ms_config s"
  by (simp add: complete_bridge_delivery_def Let_def split_beta fixed_config split: option.split)

lemma config_result:
  "advance_source env k ch s = (e, s') \<Longrightarrow> ms_config s' = ms_config s"
  "advance_scene env p why s = (e, s') \<Longrightarrow> ms_config s' = ms_config s"
  by (auto dest: advance_source_quiet advance_scene_quiet config_quiet)

lemma config_eos [fixed_config]: "ms_config (snd (apply_inner_eos env k epoch s)) = ms_config s"
  by (auto simp: apply_inner_eos_def Let_def fixed_config config_result split: option.split prod.split)

lemma config_transaction [fixed_config]: "ms_config (snd (apply_transaction env p ms s)) = ms_config s"
  by (auto simp: apply_transaction_def fixed_config config_result split: sum.split option.split prod.split)

lemma config_push [fixed_config]: "ms_config (snd (push_mutation p t m s)) = ms_config s"
  by (simp add: push_mutation_def split: option.split)

lemma config_transactions [fixed_config]:
  "ms_config (snd (begin_transaction p t s)) = ms_config s"
  "ms_config (snd (put_node creates p t n s)) = ms_config s"
  "ms_config (snd (delete_node p t i s)) = ms_config s"
  "ms_config (snd (commit_transaction env p t s)) = ms_config s"
  "ms_config (snd (abort_transaction p t s)) = ms_config s"
  by (simp_all add: begin_transaction_def put_node_def Let_def delete_node_def commit_transaction_def
      abort_transaction_def fixed_config split: option.split)

lemma config_create [fixed_config]: "ms_config (snd (create_source env p i kind conf pol most now s)) = ms_config s"
  by (simp add: create_source_def Let_def fixed_config)

lemma config_remove [fixed_config]: "ms_config (snd (remove_source env k s)) = ms_config s"
  by (auto simp: remove_source_def Let_def fixed_config config_result split: option.split prod.split)

lemma config_prune [fixed_config]: "ms_config (prune_orphaned_sources s) = ms_config s"
  by (simp add: prune_orphaned_sources_def Let_def)

lemma config_cleanup [fixed_config]: "ms_config (cleanup_producer p preserve s) = ms_config s"
  by (simp add: cleanup_producer_def fixed_config split: option.split)

lemma config_revoke [fixed_config]: "ms_config (revoke_pane pane s) = ms_config s"
proof -
  have "ms_config (fold (\<lambda>p. cleanup_producer p False) ps t) = ms_config t" for ps t
    by (induction ps arbitrary: t) (simp_all add: fixed_config)
  then show ?thesis by (simp add: revoke_pane_def Let_def fixed_config)
qed

lemma config_anchors [fixed_config]:
  "ms_config (scroll_anchors env pane n s) = ms_config s" "ms_config (clear_anchors env pane s) = ms_config s"
  by (simp_all add: scroll_anchors_def clear_anchors_def Let_def fixed_config)

lemma config_advanced [fixed_config]:
  "ms_config (snd (case advance_source env k ch t of
     (Some e, s') \<Rightarrow> (Some e, s') | (None, s') \<Rightarrow> (None, advance_projection s'))) = ms_config t"
  by (auto simp: fixed_config config_result split: option.split prod.split)

lemma config_control [fixed_config]: "ms_config (snd (control_playback env k req other s)) = ms_config s"
proof -
  define t where "t = (if req = None then cancel_source_deliveries k s else s)"
  have t: "ms_config t = ms_config s" by (simp add: t_def fixed_config)
  show ?thesis
    unfolding control_playback_def Let_def t_def[symmetric]
    by (cases "source_at k t") (simp_all add: t fixed_config if_distrib[of snd] if_distrib[of ms_config])
qed

lemma config_flush [fixed_config]: "ms_config (snd (flush_source env k epoch s)) = ms_config s"
  by (simp add: flush_source_def Let_def fixed_config split: option.split)

lemma config_fold_sources: "ms_config (fold (\<lambda>k s. snd (advance_source env k ch s)) ks t) = ms_config t"
  by (induction ks arbitrary: t) (simp_all add: fixed_config)

lemma config_snapshot [fixed_config]: "ms_config (snd (projection_snapshot env vis offsets s)) = ms_config s"
  unfolding projection_snapshot_def Let_def split_beta snd_conv
  by (simp only: fixed_config config_fold_sources)

lemma config_return_now [fixed_config]: "ms_config (return_now k n s) = ms_config s"
  by (simp add: return_now_def split_beta fixed_config)

lemma config_deliver [fixed_config]: "ms_config (snd (deliver_record env taken fwd k n body rec s)) = ms_config s"
  by (simp add: deliver_record_def Let_def fixed_config)

lemma config_accepted [fixed_config]:
  "ms_config (snd (ingest_accepted env fmt taken k r prep v accepted s)) = ms_config s"
  by (auto simp: ingest_accepted_def Let_def fixed_config config_result split: prod.split option.split)

lemma config_ingest [fixed_config]: "ms_config (snd (ingest_record env fmt now taken k r s)) = ms_config s"
proof -
  have c: "consume_source_credit k n s = (e, t) \<Longrightarrow> ms_config t = ms_config s" for n e t
    using config_consume[of k n s] by simp
  have w: "prepare_credit_write k n m t = (cr, t') \<Longrightarrow> ms_config t' = ms_config t" for n m t cr t'
    using config_write[of k n m t] by simp
  show ?thesis
    by (auto simp: ingest_record_def Let_def fixed_config
        split: option.split prod.split raster_preparation.split dest!: c w)
qed

section \<open>The service as a machine\<close>

datatype 'd media_event =
    AdmitProducer pane_id bool | ProducerLeaves nat | SetObservation nat bool bool bool
  | BeginTxn nat nat | PutNode bool nat nat scene_node | DropNode nat nat nat
  | CommitTxn nat nat | AbortTxn nat nat
  | CreateSource nat nat source_kind 'd "capture_denial set" nat nat | DestroySource nat nat
  | ControlPlayback source_key "int option" bool | FlushSource source_key nat | EndStream source_key nat
  | SetPolicy source_key "capture_denial set" | WaitFor nat nat source_wait | EndWait nat nat
  | AttachMedia source_key | MediaRecord nat bool source_key media_record | CloseMedia source_key
  | RevokePane pane_id | ScrollAnchors pane_id int | ClearAnchors pane_id
  | Marker pane_id "nat \<Rightarrow> bool" nat "int \<times> nat"
  | Project "pane_id set" "pane_id \<Rightarrow> nat" | DeactivateBridge
  | Delivered nat bool | OuterPlayback source_key outer_playback bool
  | WantKeyframe source_key "nat option" keyframe_reason | WantFullFrames "source_key list" full_frame_reason

text \<open>
  One operation under the service's lock. The producer of a control record is the one its
  connection was admitted as; an error answer is part of what the operation returns, not of the
  state.
\<close>

fun media_serve ::
    "('q, 'd) media_env \<Rightarrow> 'd media_formats \<Rightarrow> 'd media_event \<Rightarrow> ('q, 'd) media_state \<Rightarrow> ('q, 'd) media_state" where
  "media_serve env fmt (AdmitProducer pane clips) s = snd (admit_producer pane clips s)"
| "media_serve env fmt (ProducerLeaves p) s = cleanup_producer p True s"
| "media_serve env fmt (SetObservation p a b c) s = snd (set_observation p a b c s)"
| "media_serve env fmt (BeginTxn p t) s = snd (begin_transaction p t s)"
| "media_serve env fmt (PutNode creates p t n) s = snd (put_node creates p t n s)"
| "media_serve env fmt (DropNode p t i) s = snd (delete_node p t i s)"
| "media_serve env fmt (CommitTxn p t) s = snd (commit_transaction env p t s)"
| "media_serve env fmt (AbortTxn p t) s = snd (abort_transaction p t s)"
| "media_serve env fmt (CreateSource p i kind conf pol most now) s =
     snd (create_source env p i kind conf pol most now s)"
| "media_serve env fmt (DestroySource p i) s = snd (remove_source env (p, i) s)"
| "media_serve env fmt (ControlPlayback k req other) s = snd (control_playback env k req other s)"
| "media_serve env fmt (FlushSource k epoch) s = snd (flush_source env k epoch s)"
| "media_serve env fmt (EndStream k epoch) s = snd (apply_inner_eos env k epoch s)"
| "media_serve env fmt (SetPolicy k pol) s = snd (set_source_policy env k pol s)"
| "media_serve env fmt (WaitFor p q w) s = snd (wait_for_source p q w s)"
| "media_serve env fmt (EndWait p q) s = snd (end_wait p q s)"
| "media_serve env fmt (AttachMedia k) s = snd (attach_media env k s)"
| "media_serve env fmt (MediaRecord now taken k r) s =
     (case ingest_record env fmt now taken k r s of (outcome, s') \<Rightarrow> answer_rejection k outcome s')"
| "media_serve env fmt (CloseMedia k) s = close_media env k s"
| "media_serve env fmt (RevokePane pane) s = revoke_pane pane s"
| "media_serve env fmt (ScrollAnchors pane n) s = scroll_anchors env pane n s"
| "media_serve env fmt (ClearAnchors pane) s = clear_anchors env pane s"
| "media_serve env fmt (Marker pane owns a at) s = snd (observe_marker env pane owns a at s)"
| "media_serve env fmt (Project vis offsets) s = snd (projection_snapshot env vis offsets s)"
| "media_serve env fmt DeactivateBridge s = deactivate_bridge s"
| "media_serve env fmt (Delivered i dlv) s = snd (complete_bridge_delivery env i dlv s)"
| "media_serve env fmt (OuterPlayback k pb eos) s = apply_outer_playback env k pb eos s"
| "media_serve env fmt (WantKeyframe k req why) s = request_keyframe env k req why s"
| "media_serve env fmt (WantFullFrames ks why) s = request_full_frames ks why s"

definition media_step ::
    "('q, 'd) media_env \<Rightarrow> 'd media_formats \<Rightarrow> 'd media_event \<Rightarrow> ('q, 'd) media_state \<Rightarrow>
     ('q, 'd) media_state option" where
  "media_step env fmt e s = Some (media_serve env fmt e s)"

text \<open>The numbers of a node come out of the parser as \<open>i64\<close>.\<close>

fun media_admits :: "'d media_event \<Rightarrow> bool" where
  "media_admits (PutNode _ _ _ n) = i64_node n"
| "media_admits _ = True"

definition fresh_service :: "media_config \<Rightarrow> bool \<Rightarrow> ('q, 'd) media_state" where
  "fresh_service c ev =
     \<lparr>ms_config = c, ms_producers = [], ms_next_producer = 0, ms_sources = [], ms_nodes = [],
      ms_transactions = [], ms_retained_bytes = 0, ms_projection_revision = 0, ms_projected = {},
      ms_active_panes = {}, ms_deliveries = [], ms_next_delivery = 0, ms_queued_bytes = 0,
      ms_events = ev, ms_out = []\<rparr>"

lemma fresh_ok: "config_ok c \<Longrightarrow> media_ok (fresh_service c ev)"
  by (simp add: media_ok_def ledger_ok_def ledger_def fresh_service_def nodes_ok_def transactions_ok_def
      deliveries_ok_def accounts_def)

lemma record_ok:
  "media_ok s \<Longrightarrow> media_ok (case ingest_record env fmt now taken k r s of (oc, s') \<Rightarrow> answer_rejection k oc s')"
  using ingest_ok[of s env fmt now taken k r] by (auto split: prod.split)

lemma serve_ok: "media_ok s \<Longrightarrow> media_admits e \<Longrightarrow> media_ok (media_serve env fmt e s)"
  by (cases e) (simp_all add: cleanup_ok begin_ok put_node_ok delete_node_ok commit_ok abort_ok create_ok
      remove_ok control_ok flush_ok eos_ok record_ok revoke_ok scroll_anchors_ok clear_ok snapshot_ok deactivate_ok
      complete_delivery_ok del: One_nat_def)

lemma serve_config: "ms_config (media_serve env fmt e s) = ms_config s"
  by (cases e) (simp_all add: fixed_config split_beta)

interpretation media: safe_machine "media_step env fmt" "\<lambda>s. media_ok s \<and> ms_config s = c" "\<lambda>_ e. media_admits e"
  for env fmt c
  by unfold_locales (simp add: media_step_def serve_ok serve_config)

lemma admits_all: "list_all media_admits es \<Longrightarrow> admissible (media_step env fmt) (\<lambda>_ e. media_admits e) es s"
  by (induction es arbitrary: s) (simp_all add: media_step_def)

lemma media_run:
  assumes "config_ok c" and "list_all media_admits es"
  shows "\<exists>s. run_ops (media_step env fmt) es (fresh_service c ev) = Some s \<and> media_ok s \<and> ms_config s = c"
proof -
  have "ms_config (fresh_service c ev) = c" by (simp add: fresh_service_def)
  then show ?thesis by (intro media.run_safe admits_all assms(2)) (simp add: fresh_ok assms(1))
qed

lemma retained_bodies_sum:
  assumes ok: "media_ok s"
  shows "ms_retained_bytes s = (\<Sum>(_, v)\<leftarrow>ms_sources s. body_length (src_retained v))"
proof -
  have "map (\<lambda>(_, v). src_retained_bytes v) (ms_sources s) = map (\<lambda>(_, v). body_length (src_retained v)) (ms_sources s)"
  proof (rule map_cong[OF refl])
    fix e assume e: "e \<in> set (ms_sources s)"
    obtain k v where kv: "e = (k, v)" by (cases e)
    with e sources_distinct[OF ok] have "source_at k s = Some v" by (simp add: source_at_def)
    then show "(case e of (_, v) \<Rightarrow> src_retained_bytes v) = (case e of (_, v) \<Rightarrow> body_length (src_retained v))"
      using account_ok_at[OF ok] kv by (simp add: account_ok_def account_of_def)
  qed
  then show ?thesis unfolding total_retained[OF ok] by (rule arg_cong)
qed

section \<open>Properties\<close>

lemma account_fields:
  "acc_owner (account_of v) = src_owner v" "acc_kind (account_of v) = src_kind v"
  "acc_retained (account_of v) = src_retained v" "acc_window_bytes (account_of v) = src_window_bytes v"
  by (simp_all add: account_of_def)

lemma source_known: "source_at k s \<noteq> None \<longleftrightarrow> k \<in> fst ` set (ms_sources s)"
  by (simp only: source_at_def map_of_eq_None_iff) simp

lemma source_at_put: "source_at k (put_source k v s) = Some v"
  by (simp add: source_at_def put_source_def AList.update_conv')

lemma put_source_twice: "put_source k v (put_source k w s) = put_source k v s"
proof -
  have "AList.update k v (AList.update k w xs) = AList.update k v xs" for xs :: "(source_key \<times> ('a, 'b) source) list"
    by (induction xs) auto
  then show ?thesis by (simp add: put_source_def)
qed

lemma put_source_same: "source_at k s = Some v \<Longrightarrow> put_source k v s = s"
  by (simp add: put_source_def source_at_def AList.update_triv)

lemma put_source_projected: "ms_projected (put_source k v s) = ms_projected s"
  by (simp add: put_source_def)

lemma credit_taken:
  assumes v: "source_at k s = Some v" and ok: "credit_ok (account_of v)"
  shows "(case consume_source_credit k n s of (e, s') \<Rightarrow>
      (e = None \<longleftrightarrow> 0 < n \<and> n \<le> src_out_bytes v \<and> 0 < src_out_packets v) \<and>
      s' = (if e \<noteq> None then s else put_source k
        (v\<lparr>src_out_bytes := src_out_bytes v - n, src_out_packets := src_out_packets v - 1,
           src_charged_bytes := src_charged_bytes v + n, src_charged_packets := src_charged_packets v + 1\<rparr>) s) \<and>
      (e = None \<and> k \<notin> ms_projected s \<longrightarrow> prepare_credit_return k n 1 s' = ((n, 1), s)))"
proof -
  have b: "src_out_bytes v + src_charged_bytes v \<le> src_window_bytes v"
    "src_out_packets v + src_charged_packets v \<le> src_window_packets v"
    "src_window_bytes v \<le> 18446744073709551615" "src_window_packets v \<le> 18446744073709551615"
    using ok by (simp_all add: credit_ok_def account_of_def u64_limit_def)
  note c = consume_ledger[OF v ok, of n]
  let ?w = "v\<lparr>src_out_bytes := src_out_bytes v - n, src_out_packets := src_out_packets v - 1,
    src_charged_bytes := src_charged_bytes v + n, src_charged_packets := src_charged_packets v + 1\<rparr>"
  have round: "prepare_credit_return k n 1 (put_source k ?w s) = ((n, 1), s)"
    if "n \<le> src_out_bytes v" "0 < src_out_packets v" "k \<notin> ms_projected s"
  proof -
    have "give_credit n 1 (?w\<lparr>src_charged_bytes := src_charged_bytes ?w - n,
        src_charged_packets := src_charged_packets ?w - 1\<rparr>) = v"
      using that b by (simp add: give_credit_def sat_add64_def)
    then show ?thesis using that
      by (simp only: prepare_credit_return_def source_at_put put_source_twice put_source_same[OF v] Let_def
          put_source_projected option.case if_True if_False source.simps) simp
  qed
  show ?thesis
  proof (cases "fst (consume_source_credit k n s) = None")
    case True
    then show ?thesis using c(1) c(2)[OF True] round by (simp add: split_beta)
  next
    case False
    then show ?thesis using c(1) c(3)[OF False] by (auto simp: split_beta)
  qed
qed

lemma credit_given_back:
  assumes v: "source_at k s = Some v" and ok: "credit_ok (account_of v)"
  shows "(case prepare_credit_return k n m s of ((bytes, packets), s') \<Rightarrow>
      if n \<le> src_charged_bytes v \<and> m \<le> src_charged_packets v
      then (\<exists>w. s' = put_source k w s \<and> credit_ok (account_of w) \<and>
        src_charged_bytes w = src_charged_bytes v - n \<and> src_charged_packets w = src_charged_packets v - m \<and>
        src_out_bytes w = src_out_bytes v + bytes \<and> src_out_packets w = src_out_packets v + packets \<and>
        (if k \<in> ms_projected s
         then src_out_bytes w + src_charged_bytes w = src_window_bytes v \<and>
           src_out_packets w + src_charged_packets w = src_window_packets v
         else bytes = n \<and> packets = m))
      else bytes = 0 \<and> packets = 0 \<and> s' = s)"
proof -
  have b: "src_out_bytes v + src_charged_bytes v \<le> src_window_bytes v"
    "src_out_packets v + src_charged_packets v \<le> src_window_packets v"
    "src_window_bytes v \<le> 18446744073709551615" "src_window_packets v \<le> 18446744073709551615"
    using ok by (simp_all add: credit_ok_def account_of_def u64_limit_def)
  show ?thesis
  proof (cases "n \<le> src_charged_bytes v \<and> m \<le> src_charged_packets v")
    case False
    then show ?thesis using v by (auto simp: prepare_credit_return_def)
  next
    case True
    then obtain w where w: "snd (prepare_credit_return k n m s) = put_source k w s"
      "account_of w = (if k \<in> ms_projected s then refill (uncharge n m (account_of v)) else uncharge n m (account_of v))"
      "fst (prepare_credit_return k n m s) = (src_out_bytes w - src_out_bytes v, src_out_packets w - src_out_packets v)"
      "src_out_bytes v \<le> src_out_bytes w" "src_out_packets v \<le> src_out_packets w"
      using prepare_return_at[OF v ok] by metis
    have "credit_ok (account_of w)" unfolding w(2) using credit_moves ok True by (simp add: account_of_def)
    moreover have "src_charged_bytes w = src_charged_bytes v - n" "src_charged_packets w = src_charged_packets v - m"
      "k \<in> ms_projected s \<Longrightarrow> src_out_bytes w + src_charged_bytes w = src_window_bytes v \<and>
        src_out_packets w + src_charged_packets w = src_window_packets v"
      "k \<notin> ms_projected s \<Longrightarrow> src_out_bytes w = src_out_bytes v + n \<and> src_out_packets w = src_out_packets v + m"
      using w(2) b by (auto simp: account_of_def refill_def uncharge_def give_def split: if_splits)
    ultimately show ?thesis using True w by (auto simp: split_beta)
  qed
qed

text \<open>
  C24. Credit is conserved. Where a source's credit accounts are within their windows, a record is
  taken exactly if it is not empty and within the outstanding credit, and then its bytes and one
  packet move from what is outstanding to what is charged and nothing else changes; a refused
  record changes nothing. Returning credit grants the producer exactly what the outstanding credit
  grows by, never lets outstanding and charged credit together exceed the window, and fills a
  shown source's window exactly; more than was charged is never returned. Taking a record and
  returning it leaves a hidden source as it was.
\<close>

theorem credit_conserved:
  assumes v: "source_at k s = Some v" and ok: "credit_ok (account_of v)"
  shows "(case consume_source_credit k n s of (e, s') \<Rightarrow>
      (e = None \<longleftrightarrow> 0 < n \<and> n \<le> src_out_bytes v \<and> 0 < src_out_packets v) \<and>
      s' = (if e \<noteq> None then s else put_source k
        (v\<lparr>src_out_bytes := src_out_bytes v - n, src_out_packets := src_out_packets v - 1,
           src_charged_bytes := src_charged_bytes v + n, src_charged_packets := src_charged_packets v + 1\<rparr>) s) \<and>
      (e = None \<and> k \<notin> ms_projected s \<longrightarrow> prepare_credit_return k n 1 s' = ((n, 1), s))) \<and>
    (case prepare_credit_return k n m s of ((bytes, packets), s') \<Rightarrow>
      if n \<le> src_charged_bytes v \<and> m \<le> src_charged_packets v
      then (\<exists>w. s' = put_source k w s \<and> credit_ok (account_of w) \<and>
        src_charged_bytes w = src_charged_bytes v - n \<and> src_charged_packets w = src_charged_packets v - m \<and>
        src_out_bytes w = src_out_bytes v + bytes \<and> src_out_packets w = src_out_packets v + packets \<and>
        (if k \<in> ms_projected s
         then src_out_bytes w + src_charged_bytes w = src_window_bytes v \<and>
           src_out_packets w + src_charged_packets w = src_window_packets v
         else bytes = n \<and> packets = m))
      else bytes = 0 \<and> packets = 0 \<and> s' = s)"
  by (rule conjI[OF credit_taken[OF assms] credit_given_back[OF assms]])

definition example_service_env :: "(nat, unit) media_env" where
  "example_service_env =
     \<lparr>advance = (\<lambda>n. Some (n + 1)), seq_accept = (\<lambda>q i e. if q < i then Some i else None),
      seq_epoch = (\<lambda>_. 1), seq_default = 0, observer_takes = (\<lambda>_. True),
      scene_valid = (\<lambda>_ _. True), on_windows = False\<rparr>"

definition example_packet :: video_packet where
  "example_packet = \<lparr>vp_epoch = 1, vp_id = 1, vp_pts = 0, vp_key = True, vp_data = 1\<rparr>"

definition example_formats :: "unit media_formats" where
  "example_formats =
     \<lparr>delta_flag = (\<lambda>_. False), parse_full = (\<lambda>_. None), decode_pixels = (\<lambda>_. None),
      parse_delta = (\<lambda>_ _ _ _. None), raster_frame_body = (\<lambda>_ _ _ _ _. None),
      parse_video = (\<lambda>_. Some example_packet), parse_audio = (\<lambda>_. None),
      image_decodes = (\<lambda>_ _. False), conf_width = (\<lambda>_. 1), conf_height = (\<lambda>_. 1),
      conf_operations = (\<lambda>_. None), conf_unit = (\<lambda>_. 4), conf_image = (\<lambda>_. 0)\<rparr>"

definition example_limits :: media_config where
  "example_limits = \<lparr>max_nodes = 2, max_sources = 2, retained_limit = 100, bridge_queue_limit = 100\<rparr>"

text \<open>A producer joins, shows a video and sends a packet, which goes to the session.\<close>

definition example_run :: "unit media_event list" where
  "example_run =
     [AdmitProducer 1 False, CreateSource 1 1 Video () {} 10 0, BeginTxn 1 1, PutNode True 1 1 example_node,
      CommitTxn 1 1, Project {1} (\<lambda>_. 0), AttachMedia (1, 1),
      MediaRecord 0 True (1, 1) \<lparr>rec_type = VideoRecord, rec_sequence = 1, rec_body = [1, 2, 3]\<rparr>]"

definition example_service :: "(nat, unit) media_state" where
  "example_service =
     fold (media_serve example_service_env example_formats) example_run (fresh_service example_limits True)"

lemmas service_evaluates =
  admit_producer_def create_source_def begin_transaction_def put_node_def push_mutation_def
  commit_transaction_def apply_transaction_def apply_mutation_def validate_node_def attach_media_def
  advance_scene_def advance_source_def emit_source_event_def advance_projection_def put_source_def
  put_producer_def source_at_def producer_at_def write_out_def fresh_source_def producer_shown_def
  number_observations_def satisfied_waits_def send_observations_def max_producers_def
  List.map_filter_def playback_clock_def sat_add64_def

lemmas snapshot_evaluates =
  projection_snapshot_def resolve_nodes_def resolve_node_def anchors_of_def snapshot_of_def needs_keyframe_def
  take_deliveries_def return_delivery_credits_def node_source_def

lemmas record_evaluates =
  ingest_record_def validate_encoded_image_def consume_source_credit_def accept_record_def accept_video_def
  ingest_accepted_def deliver_record_def queue_has_room_def note_record_def forward_body_def is_forwarded_def
  body_length_def answer_rejection_def

lemma example_numbers:
  "(length (ms_sources example_service), length (ms_nodes example_service), ms_queued_bytes example_service,
    map (\<lambda>(k, v). (k, src_out_bytes v, src_charged_bytes v)) (ms_sources example_service)) =
   (1, 1, 3, [((1, 1), 7, 3)])"
  by (simp add: example_service_def example_run_def service_evaluates snapshot_evaluates record_evaluates Let_def
      fresh_service_def example_limits_def example_service_env_def example_node_def example_formats_def
      example_packet_def)

theorem credit_conserved_witness:
  "\<exists>s::(nat, unit) media_state. source_at (1, 1) s \<noteq> None \<and> fst (consume_source_credit (1, 1) 10 s) = None \<and>
     prepare_credit_return (1, 1) 10 1 (snd (consume_source_credit (1, 1) 10 s)) = ((10, 1), s)"
proof -
  obtain v :: "(nat, unit) source" where v: "credit_ok (account_of v)" "src_out_bytes v = 10" "src_out_packets v = 1"
    by (rule that[of "fresh_source example_service_env 1 Video () {} 10 0"])
      (simp_all add: credit_ok_def account_of_def fresh_source_def u64_limit_def)
  let ?s = "put_source (1, 1) v (fresh_service example_limits True)"
  have at: "source_at (1, 1) ?s = Some v" by (rule source_at_put)
  have hidden: "(1, 1) \<notin> ms_projected ?s" unfolding put_source_projected by (simp add: fresh_service_def)
  have "fst (consume_source_credit (1, 1) 10 ?s) = None \<and>
      prepare_credit_return (1, 1) 10 1 (snd (consume_source_credit (1, 1) 10 ?s)) = ((10, 1), ?s)"
    using credit_conserved[OF at v(1), of 10 0, THEN conjunct1] hidden v(2,3)
    by (auto simp: split_beta)
  with at show ?thesis by (intro exI[of _ ?s]) simp
qed

text \<open>
  C29. Whatever the modelled requests of producers, media channels, the session and the bridge (the
  events of \<open>media_step\<close>; no update of a source's description, no capability notice and no ticket is
  among them) and their order, the service stays within its limits: never more sources or nodes than
  configured; every node is
  filed under its own name and shows a source that exists; the retained bytes are exactly the sum of
  the retained bodies and within the quota; a source belongs to the producer in its name, its credit
  is within its window and a timed source retains nothing; the queued bytes are exactly those of the
  pending deliveries and within the queue's limit, but for a single record that may exceed it.
\<close>

theorem media_within_limits:
  assumes "config_ok c" and "list_all media_admits es"
  shows "\<exists>s. run_ops (media_step env fmt) es (fresh_service c ev) = Some s \<and> ms_config s = c \<and>
    length (ms_sources s) \<le> max_sources c \<and> length (ms_nodes s) \<le> max_nodes c \<and>
    (\<forall>(k, n)\<in>set (ms_nodes s). k = node_key n \<and> source_at (node_source n) s \<noteq> None) \<and>
    ms_retained_bytes s = (\<Sum>(_, v)\<leftarrow>ms_sources s. body_length (src_retained v)) \<and>
    ms_retained_bytes s \<le> retained_limit c \<and>
    (\<forall>k v. source_at k s = Some v \<longrightarrow> src_owner v = fst k \<and> credit_ok (account_of v) \<and>
      src_window_bytes v \<le> retained_limit c \<and> (is_timed (src_kind v) \<longrightarrow> src_retained v = None)) \<and>
    ms_queued_bytes s = (\<Sum>(_, d)\<leftarrow>ms_deliveries s. del_queued d) \<and>
    (ms_queued_bytes s \<le> bridge_queue_limit c \<or>
      length (filter (\<lambda>(_, d). 0 < del_queued d) (ms_deliveries s)) \<le> 1)"
proof -
  obtain s where s: "run_ops (media_step env fmt) es (fresh_service c ev) = Some s" "media_ok s" "ms_config s = c"
    using media_run[OF assms] by blast
  have l: "ledger_ok (ledger s)" using s(2) by (simp add: media_ok_def)
  have "length (ms_sources s) \<le> max_sources c" "length (ms_nodes s) \<le> max_nodes c"
    "ms_retained_bytes s \<le> retained_limit c"
    using l s(3) by (simp_all add: ledger_ok_def ledger_def accounts_def)
  moreover have "deliveries_ok (ledger s)" using l by (simp add: ledger_ok_def)
  then have "ms_queued_bytes s = (\<Sum>(_, d)\<leftarrow>ms_deliveries s. del_queued d)"
    "ms_queued_bytes s \<le> bridge_queue_limit c \<or>
      length (filter (\<lambda>(_, d). 0 < del_queued d) (ms_deliveries s)) \<le> 1"
    unfolding deliveries_ok_def ledger_def ledger.simps s(3) by blast+
  moreover have "\<forall>(k, n)\<in>set (ms_nodes s). k = node_key n \<and> source_at (node_source n) s \<noteq> None"
    using nodes_ok_at[OF s(2)] unfolding nodes_ok_def source_known by blast
  moreover have "ms_retained_bytes s = (\<Sum>(_, v)\<leftarrow>ms_sources s. body_length (src_retained v))"
    by (rule retained_bodies_sum[OF s(2)])
  moreover have "\<forall>k v. source_at k s = Some v \<longrightarrow> src_owner v = fst k \<and> credit_ok (account_of v) \<and>
      src_window_bytes v \<le> retained_limit c \<and> (is_timed (src_kind v) \<longrightarrow> src_retained v = None)"
    using account_ok_at[OF s(2)] s(3) by (auto simp: account_ok_def account_fields)
  ultimately show ?thesis using s(1,3) by blast
qed

lemma example_reached:
  "run_ops (media_step example_service_env example_formats) example_run (fresh_service example_limits True) =
     Some example_service"
proof -
  have "run_ops (media_step env fmt) es s = Some (fold (media_serve env fmt) es s)"
    for env :: "(nat, unit) media_env" and fmt es s
    by (induction es arbitrary: s) (simp_all add: media_step_def)
  then show ?thesis by (simp add: example_service_def)
qed

theorem media_within_limits_witness:
  "length (ms_sources example_service) = 1 \<and> ms_queued_bytes example_service = 3 \<and>
   ms_queued_bytes example_service = (\<Sum>(_, d)\<leftarrow>ms_deliveries example_service. del_queued d)"
proof -
  have "config_ok example_limits" "list_all media_admits example_run"
    by (simp_all add: example_limits_def config_ok_def u64_limit_def example_run_def example_node_def
        i64_node_def i64_box_def node_box_def fixed_one_def i64_max_def)
  from media_within_limits[OF this, of example_service_env example_formats True]
  show ?thesis using example_numbers by (auto simp: example_reached)
qed

end
