(* ===== verification/Media_Shown.thy ===== *)
theory Media_Shown
  imports Media_Correct
begin

text \<open>
  The media service and the session together: what the service's snapshot holds after any run of
  the service, and that the session shows exactly the nodes the producers have committed.
\<close>

section \<open>The nodes of a snapshot\<close>

lemma resolved_node:
  assumes "resolve_node anchors offsets n = Some r"
  shows "node_key r = node_key n" and "node_source r = node_source n" and "sn_pane r = sn_pane n"
    and "i64_node n \<Longrightarrow> i64_node r"
  using assms
  by (auto simp: resolve_node_def node_key_def node_source_def i64_node_def i64_box_def node_box_def Let_def
      move_clip_def split: option.splits prod.splits bind_splits)

lemma resolved_in:
  "r \<in> set (resolve_nodes anchors vis offsets ns) \<longleftrightarrow>
     (\<exists>n\<in>set ns. sn_pane n \<in> vis \<and> resolve_node anchors offsets n = Some r)"
  by (force simp: resolve_nodes_def List.map_filter_def image_iff)

lemma resolved_keys:
  "distinct (map node_key ns) \<Longrightarrow> distinct (map node_key (resolve_nodes anchors vis offsets ns))"
proof (induction ns)
  case (Cons n ns)
  let ?rs = "resolve_nodes anchors vis offsets ns"
  have "node_key r \<noteq> node_key n" if r: "r \<in> set ?rs" for r
  proof -
    obtain n' where n': "n' \<in> set ns" "resolve_node anchors offsets n' = Some r"
      using r by (auto simp: resolved_in)
    from n'(1) have "node_key n' \<in> node_key ` set ns" by (rule imageI)
    with resolved_node(1)[OF n'(2)] Cons.prems show ?thesis by auto
  qed
  moreover have "distinct (map node_key ?rs)" using Cons by simp
  ultimately have r: "distinct (map node_key (r # ?rs))" if "resolve_node anchors offsets n = Some r" for r
    using resolved_node(1)[OF that] by force
  show ?case
  proof (cases "if sn_pane n \<in> vis then resolve_node anchors offsets n else None")
    case None
    then have "resolve_nodes anchors vis offsets (n # ns) = ?rs"
      by (simp add: resolve_nodes_def List.map_filter_def split: if_splits)
    then show ?thesis using Cons by simp
  next
    case (Some x)
    then have "resolve_nodes anchors vis offsets (n # ns) = x # ?rs" "resolve_node anchors offsets n = Some x"
      by (simp_all add: resolve_nodes_def List.map_filter_def split: if_splits)
    then show ?thesis using r by simp
  qed
qed (simp add: resolve_nodes_def List.map_filter_def)

section \<open>What a snapshot does to the deliveries\<close>

lemma delete_filter: "AList.delete i xs = filter (\<lambda>(j, _). j \<noteq> i) xs"
  unfolding AList.delete_eq by (rule filter_cong) auto

lemma return_deliveries: "ms_deliveries (snd (prepare_credit_return k n m s)) = ms_deliveries s"
  "ms_projected (snd (prepare_credit_return k n m s)) = ms_projected s"
  by (simp_all add: prepare_credit_return_def Let_def put_source_def split: option.split prod.split)

lemma take_one:
  "ms_deliveries (snd (take_delivery i acc)) = filter (\<lambda>(j, _). j \<noteq> i) (ms_deliveries (snd acc))"
  "ms_projected (snd (take_delivery i acc)) = ms_projected (snd acc)"
proof -
  have "filter (\<lambda>(j, _). j \<noteq> i) xs = xs" if "map_of xs i = None" for xs :: "(nat \<times> pending_delivery) list"
    using that by (force simp: filter_id_conv map_of_eq_None_iff)
  then show "ms_deliveries (snd (take_delivery i acc)) = filter (\<lambda>(j, _). j \<noteq> i) (ms_deliveries (snd acc))"
    by (simp add: take_delivery_def split_beta prepare_credit_write_def return_deliveries remove_delivery_def
        delete_filter split: option.split)
  show "ms_projected (snd (take_delivery i acc)) = ms_projected (snd acc)"
    by (simp add: take_delivery_def split_beta prepare_credit_write_def return_deliveries remove_delivery_def
        split: option.split)
qed

lemma take_all:
  "ms_deliveries (snd (fold take_delivery ids acc)) = filter (\<lambda>(j, _). j \<notin> set ids) (ms_deliveries (snd acc))"
  "ms_projected (snd (fold take_delivery ids acc)) = ms_projected (snd acc)"
proof (induction ids arbitrary: acc)
  case (Cons i ids)
  {
    case 1
    show ?case by (simp add: Cons.IH(1) take_one filter_filter split_beta conj_commute)
  next
    case 2
    show ?case by (simp add: Cons.IH(2) take_one)
  }
qed simp_all

lemma advance_source_projected: "ms_projected (snd (advance_source env k ch s)) = ms_projected s"
  by (auto simp: advance_source_def put_source_def put_producer_def Let_def split: option.split prod.split)

lemma fold_sources:
  "ms_projected (fold (\<lambda>k s. snd (advance_source env k ch s)) ks s) = ms_projected s"
  "ms_deliveries (fold (\<lambda>k s. snd (advance_source env k ch s)) ks s) = ms_deliveries s"
proof -
  have "ms_deliveries (snd (advance_source env k ch t)) = ms_deliveries t" for k t
    using ledger_advance_source[of env k ch t] by (simp add: ledger_def)
  note one = this
  show "ms_deliveries (fold (\<lambda>k s. snd (advance_source env k ch s)) ks s) = ms_deliveries s"
    by (induction ks arbitrary: s) (simp_all add: one)
  show "ms_projected (fold (\<lambda>k s. snd (advance_source env k ch s)) ks s) = ms_projected s"
    by (induction ks arbitrary: s) (simp_all add: advance_source_projected)
qed

lemma written_credit:
  "ms_projected (return_delivery_credits cs s) = ms_projected s"
  "ms_deliveries (return_delivery_credits cs s) = ms_deliveries s"
proof -
  have "ms_projected (write_delivery_credit c t) = ms_projected t"
    "ms_deliveries (write_delivery_credit c t) = ms_deliveries t" for c and t :: "('a, 'b) media_state"
    by (simp_all add: write_delivery_credit_def write_out_def split_beta)
  then show "ms_projected (return_delivery_credits cs s) = ms_projected s"
    "ms_deliveries (return_delivery_credits cs s) = ms_deliveries s"
    unfolding return_delivery_credits_def by (induction cs arbitrary: s) simp_all
qed

definition shown_source ::
    "pane_id set \<Rightarrow> (pane_id \<Rightarrow> nat) \<Rightarrow> ('q, 'd) media_state \<Rightarrow> source_key \<times> ('q, 'd) source \<Rightarrow> bool" where
  "shown_source vis offsets s e \<longleftrightarrow>
     (\<exists>p v. (p, v) \<in> set (ms_producers s) \<and> prod_pane v \<in> vis \<and> p = src_owner (snd e)) \<or>
     fst e \<in> node_source ` set (resolve_nodes (anchors_of s) vis offsets (map snd (ms_nodes s)))"

lemma snapshot_parts:
  assumes "projection_snapshot env vis offsets s = (snap, s')"
  shows "snap_nodes snap = resolve_nodes (anchors_of s) vis offsets (map snd (ms_nodes s))"
    and "snap_live_nodes snap = sort (map fst (ms_nodes s))"
    and "map ss_key (snap_sources snap) = map fst (filter (shown_source vis offsets s) (ms_sources s))"
    and "ms_projected s' = fst ` set (filter (shown_source vis offsets s) (ms_sources s))"
    and "ms_deliveries s' = filter (\<lambda>(j, _). j \<notin> set (map fst (filter (\<lambda>(_, d).
      del_source d \<notin> ms_projected s') (ms_deliveries s)))) (ms_deliveries s)"
proof -
  let ?nodes = "resolve_nodes (anchors_of s) vis offsets (map snd (ms_nodes s))"
  have chosen: "filter (\<lambda>(k, v). src_owner v \<in> fst ` set (filter (\<lambda>(_, v). prod_pane v \<in> vis) (ms_producers s)) \<or>
      k \<in> node_source ` set ?nodes) (ms_sources s) = filter (shown_source vis offsets s) (ms_sources s)"
    by (rule filter_cong) (auto simp: shown_source_def image_iff split: prod.splits)
  have key: "ss_key (snapshot_of e) = fst e" for e :: "source_key \<times> ('a, 'b) source"
    by (simp add: snapshot_of_def split_beta)
  note u = assms[unfolded projection_snapshot_def Let_def chosen split_beta prod.inject]
  note p = conjunct1[OF u, symmetric] conjunct2[OF u, symmetric]
  show "snap_nodes snap = ?nodes" "snap_live_nodes snap = sort (map fst (ms_nodes s))"
    "map ss_key (snap_sources snap) = map fst (filter (shown_source vis offsets s) (ms_sources s))"
    using p by (simp_all add: key)
  show proj: "ms_projected s' = fst ` set (filter (shown_source vis offsets s) (ms_sources s))"
    using p by (simp add: written_credit fold_sources take_deliveries_def take_all)
  show "ms_deliveries s' = filter (\<lambda>(j, _). j \<notin> set (map fst (filter (\<lambda>(_, d).
      del_source d \<notin> ms_projected s') (ms_deliveries s)))) (ms_deliveries s)"
    unfolding proj using p by (simp add: written_credit fold_sources take_deliveries_def take_all split_beta)
qed

lemma kept_keys:
  assumes "distinct (map fst xs)"
  shows "(i, d) \<in> set (filter (\<lambda>(j, _). j \<notin> set (map fst (filter (\<lambda>(_, e). P e) xs))) xs) \<longleftrightarrow>
    (i, d) \<in> set xs \<and> \<not> P d"
proof -
  have "i \<in> set (map fst (filter (\<lambda>(_, e). P e) xs)) \<longleftrightarrow> P d" if "(i, d) \<in> set xs"
  proof
    assume "i \<in> set (map fst (filter (\<lambda>(_, e). P e) xs))"
    then obtain e where "(i, e) \<in> set xs" "P e" by auto
    with eq_key_imp_eq_value[OF assms that] show "P d" by blast
  qed (use that in force)
  then show ?thesis by auto
qed

section \<open>Service and session\<close>

lemma snapshot_fits:
  assumes ok: "media_ok s" and snap: "projection_snapshot env vis offsets s = (snap, s')"
  shows "distinct (map node_key (snap_nodes snap))" and "\<forall>n\<in>set (snap_nodes snap). i64_node n"
    and "\<forall>n\<in>set (snap_nodes snap). node_source n \<in> ss_key ` set (snap_sources snap)"
    and "distinct (map ss_key (snap_sources snap))"
proof -
  note n = nodes_ok_at[OF ok, unfolded nodes_ok_def]
  have "map fst (ms_nodes s) = map node_key (map snd (ms_nodes s))" using n by (auto simp: comp_def)
  then show "distinct (map node_key (snap_nodes snap))"
    using n unfolding snapshot_parts(1)[OF snap] by (metis resolved_keys)
  show "\<forall>n\<in>set (snap_nodes snap). i64_node n"
    using n unfolding snapshot_parts(1)[OF snap] by (force simp: resolved_in dest: resolved_node(4))
  have keys: "ss_key ` set (snap_sources snap) = fst ` set (filter (shown_source vis offsets s) (ms_sources s))"
    using snapshot_parts(3)[OF snap] by (metis set_map)
  show "\<forall>n\<in>set (snap_nodes snap). node_source n \<in> ss_key ` set (snap_sources snap)"
  proof
    fix r assume r: "r \<in> set (snap_nodes snap)"
    then obtain k n0 where n0: "(k, n0) \<in> set (ms_nodes s)" "resolve_node (anchors_of s) offsets n0 = Some r"
      unfolding snapshot_parts(1)[OF snap] by (auto simp: resolved_in)
    with n have "node_source r \<in> fst ` set (ms_sources s)" using resolved_node(2)[OF n0(2)] by fastforce
    then obtain e where e: "e \<in> set (ms_sources s)" "fst e = node_source r" by force
    with r have "shown_source vis offsets s e"
      unfolding snapshot_parts(1)[OF snap] by (auto simp: shown_source_def)
    with e show "node_source r \<in> ss_key ` set (snap_sources snap)" unfolding keys by force
  qed
  show "distinct (map ss_key (snap_sources snap))"
    unfolding snapshot_parts(3)[OF snap] using sources_distinct[OF ok] by (simp add: distinct_map_filter)
qed

text \<open>
  C40. From the producers to the screen. After any run of the media service, when the session takes
  its snapshot for the shown panes and projects it: a node that a producer has committed in a shown
  pane and whose anchor is known is shown at every point of the grid where it is visible, once, and
  nowhere else (a node may be missing only if an omission is counted); nothing else is shown; every
  node's source travels with it, no source twice; the nodes reported as live are all nodes of the
  service, so none loses its fragment names by being hidden; and exactly the deliveries of sources
  that are no longer shown are taken back.
\<close>

theorem committed_nodes_shown:
  assumes c: "config_ok c" "list_all media_admits es"
      "run_ops (media_step env fmt) es (fresh_service c ev) = Some svc"
    and s: "session_ok s" "active_tab s = Some t" "visible_projections t (content_area s) = Some ps"
      "assignments_ok m"
    and snap: "projection_snapshot env vis offsets svc = (snap, svc')"
    and pr: "pr = project_scene (projection_pane_priority t ps) ps (content_area s) (snap_nodes snap) m"
  shows "(\<forall>(k, n)\<in>set (ms_nodes svc). \<forall>r px py.
      sn_pane n \<in> vis \<and> resolve_node (anchors_of svc) offsets n = Some r \<longrightarrow>
      shown_pieces pr r px py \<le> (if node_shows ps (content_area s) r px py then 1 else 0) \<and>
      (omissions pr = 0 \<longrightarrow>
        shown_pieces pr r px py = (if node_shows ps (content_area s) r px py then 1 else 0))) \<and>
    piece_name ` set (pr_nodes pr) \<subseteq> {k. \<exists>n. (k, n) \<in> set (ms_nodes svc) \<and> sn_pane n \<in> vis \<and>
      resolve_node (anchors_of svc) offsets n \<noteq> None} \<times> {..<256} \<and>
    (\<forall>n\<in>set (snap_nodes snap). node_source n \<in> ss_key ` set (snap_sources snap)) \<and>
    distinct (map ss_key (snap_sources snap)) \<and>
    set (snap_live_nodes snap) = fst ` set (ms_nodes svc) \<and>
    ms_projected svc' = ss_key ` set (snap_sources snap) \<and>
    (\<forall>i d. (i, d) \<in> set (ms_deliveries svc') \<longleftrightarrow>
      (i, d) \<in> set (ms_deliveries svc) \<and> del_source d \<in> ms_projected svc')"
proof -
  obtain s0 where "run_ops (media_step env fmt) es (fresh_service c ev) = Some s0" "media_ok s0"
    using media_run[OF c(1,2)] by blast
  with c(3) have ok: "media_ok svc" by simp
  note parts = snapshot_parts[OF snap] and fits = snapshot_fits[OF ok snap]
  have area: "rect_ok (content_area s)" using session_area[OF s(1)] by (simp add: area_ok_def)
  note fit = visible_projections_fit[OF active_tab_ok[OF s(1,2)] session_area[OF s(1)] s(3)]
  note ex = project_scene_exact[OF fit(1) area fits(1,2) s(4) pr]
  have key: "k = node_key n" if "(k, n) \<in> set (ms_nodes svc)" for k n
    using that nodes_ok_at[OF ok] by (auto simp: nodes_ok_def)
  have "\<forall>(k, n)\<in>set (ms_nodes svc). \<forall>r px py.
      sn_pane n \<in> vis \<and> resolve_node (anchors_of svc) offsets n = Some r \<longrightarrow>
      shown_pieces pr r px py \<le> (if node_shows ps (content_area s) r px py then 1 else 0) \<and>
      (omissions pr = 0 \<longrightarrow>
        shown_pieces pr r px py = (if node_shows ps (content_area s) r px py then 1 else 0))"
  proof (intro ballI, clarify)
    fix k n r px py assume "(k, n) \<in> set (ms_nodes svc)" "sn_pane n \<in> vis"
      "resolve_node (anchors_of svc) offsets n = Some r"
    then have "r \<in> set (snap_nodes snap)" unfolding parts(1) by (force simp: resolved_in)
    then show "shown_pieces pr r px py \<le> (if node_shows ps (content_area s) r px py then 1 else 0) \<and>
      (omissions pr = 0 \<longrightarrow>
        shown_pieces pr r px py = (if node_shows ps (content_area s) r px py then 1 else 0))"
      using ex(5,6) by blast
  qed
  moreover have "node_key ` set (snap_nodes snap) \<subseteq> {k. \<exists>n. (k, n) \<in> set (ms_nodes svc) \<and> sn_pane n \<in> vis \<and>
      resolve_node (anchors_of svc) offsets n \<noteq> None}"
  proof (rule image_subsetI, unfold parts(1))
    fix r assume "r \<in> set (resolve_nodes (anchors_of svc) vis offsets (map snd (ms_nodes svc)))"
    then obtain k n where n: "(k, n) \<in> set (ms_nodes svc)" "sn_pane n \<in> vis"
      "resolve_node (anchors_of svc) offsets n = Some r"
      by (auto simp: resolved_in)
    with key[OF n(1)] resolved_node(1)[OF n(3)]
    show "node_key r \<in> {k. \<exists>n. (k, n) \<in> set (ms_nodes svc) \<and> sn_pane n \<in> vis \<and>
        resolve_node (anchors_of svc) offsets n \<noteq> None}" by auto
  qed
  then have "piece_name ` set (pr_nodes pr) \<subseteq> {k. \<exists>n. (k, n) \<in> set (ms_nodes svc) \<and> sn_pane n \<in> vis \<and>
      resolve_node (anchors_of svc) offsets n \<noteq> None} \<times> {..<256}"
    by (intro subset_trans[OF ex(3)] Sigma_mono) auto
  moreover have "ms_projected svc' = ss_key ` set (snap_sources snap)"
    using parts(3,4) by (metis set_map)
  moreover have "distinct (map fst (ms_deliveries svc))"
    using ok by (simp add: media_ok_def ledger_ok_def deliveries_ok_def ledger_def)
  then have "(i, d) \<in> set (ms_deliveries svc') \<longleftrightarrow>
      (i, d) \<in> set (ms_deliveries svc) \<and> del_source d \<in> ms_projected svc'" for i d
    using kept_keys[of "ms_deliveries svc" i d "\<lambda>e. del_source e \<notin> ms_projected svc'"]
    unfolding parts(5)[symmetric] by simp
  ultimately show ?thesis using fits(3,4) parts(2) by simp
qed

lemma example_scene: "map snd (ms_nodes example_service) = [example_node]"
  by (simp add: example_service_def example_run_def service_evaluates snapshot_evaluates record_evaluates Let_def
      fresh_service_def example_limits_def example_service_env_def example_node_def example_formats_def
      example_packet_def)

lemma example_admitted: "config_ok example_limits" "list_all media_admits example_run"
  by (simp_all add: example_limits_def config_ok_def u64_limit_def example_run_def example_node_def
      i64_node_def i64_box_def node_box_def fixed_one_def i64_max_def)

theorem committed_nodes_shown_witness:
  "\<exists>s t ps pr k. start (example_world True) example_config = Some s \<and> active_tab s = Some t \<and>
     visible_projections t (content_area s) = Some ps \<and> (k, example_node) \<in> set (ms_nodes example_service) \<and>
     pr = project_scene (projection_pane_priority t ps) ps (content_area s)
       (snap_nodes (fst (projection_snapshot example_service_env {1} (\<lambda>_. 0) example_service))) Map.empty \<and>
     shown_pieces pr example_node fixed_one fixed_one = 1"
proof -
  obtain s t ps where s: "start (example_world True) example_config = Some s" "session_ok s"
    "active_tab s = Some t" "t = first_tab 1 1" "visible_projections t (content_area s) = Some ps"
    using example_view by blast
  note ex = example_projection[folded example_content[OF s(1)], OF s(5)[unfolded s(4)]]
  obtain snap svc where snap: "projection_snapshot example_service_env {1} (\<lambda>_. 0) example_service = (snap, svc)"
    by fastforce
  let ?pr = "project_scene (projection_pane_priority t ps) ps (content_area s) (snap_nodes snap) Map.empty"
  have nodes: "snap_nodes snap = [example_node]"
    unfolding snapshot_parts(1)[OF snap] example_scene
    by (simp add: resolve_nodes_def List.map_filter_def resolve_node_def example_node_def)
  have "example_node \<in> snd ` set (ms_nodes example_service)"
    using example_scene by (metis list.set_intros(1) set_map)
  then obtain k where k: "(k, example_node) \<in> set (ms_nodes example_service)" by force
  have here: "sn_pane example_node \<in> {1} \<and>
      resolve_node (anchors_of example_service) (\<lambda>_. 0) example_node = Some example_node" and "assignments_ok Map.empty"
    by (simp_all add: example_node_def resolve_node_def assignments_ok_def)
  note committed_nodes_shown[OF example_admitted example_reached s(2,3,5) this(2) snap refl, THEN conjunct1,
      THEN bspec, OF k, unfolded prod.case, rule_format, OF here, of fixed_one fixed_one]
  then have "shown_pieces ?pr example_node fixed_one fixed_one = 1"
    using ex unfolding nodes s(4)[symmetric] by simp
  with s k snap show ?thesis by (intro exI[of _ s] exI[of _ t] exI[of _ ps] exI[of _ ?pr] exI[of _ k]) simp
qed

end
