(* ===== verification/Media_Findings.thy ===== *)
theory Media_Findings
  imports Media_Shown
begin

text \<open>
  Behaviour of the media service that is not what its callers expect, each on the model of the code
  as it is.
\<close>

text \<open>
  \<open>advance_source\<close> looks at every wait of the producer without asking which source it is for: here
  the wait for source 2 to be attached is answered when source 1 is attached.
\<close>

definition foreign_wait_run :: "unit media_event list" where
  "foreign_wait_run =
     [AdmitProducer 1 False, CreateSource 1 1 Video () {} 10 0, CreateSource 1 2 Video () {} 10 0,
      WaitFor 1 7 \<lparr>wait_source = 2, wait_condition = WaitAttached, wait_value = None\<rparr>, AttachMedia (1, 1)]"

lemma foreign_wait_answered:
  "(let s = fold (media_serve example_service_env example_formats) foreign_wait_run (fresh_service example_limits True)
    in WaitSatisfied 7 1 2 None \<in> set (ms_out s) \<and> map (prod_waits \<circ> snd) (ms_producers s) = [[]] \<and>
       map_option src_attachment (source_at (1, 2) s) = Some NeverAttached)"
  by (simp add: foreign_wait_run_def service_evaluates wait_for_source_def evaluate_wait_def wait_reached_def
      max_registered_waits_def fresh_service_def example_limits_def example_service_env_def Let_def)

text \<open>Nothing ever records that a source is lost, so a wait for it only ends by its time limit.\<close>

lemma lost_never_reached:
  assumes "config_ok c" and "list_all media_admits es"
    and "run_ops (media_step env fmt) es (fresh_service c ev) = Some s"
    and "source_at k s = Some v" and "wait_condition w = WaitLost"
  shows "evaluate_wait v w = None"
proof -
  from media_run[OF assms(1,2), of env fmt ev] assms(3) have "media_ok s" by auto
  from never_lost[OF this assms(4)] assms(5) show ?thesis by (simp add: evaluate_wait_def wait_reached_def)
qed

text \<open>Removing a source does not answer the waits for it.\<close>

lemma removal_keeps_waits:
  assumes "producer_at (fst k) s = Some v"
  shows "map_option prod_waits (producer_at (fst k) (snd (remove_source env k s))) = Some (prod_waits v)"
proof -
  have "map_option prod_waits (producer_at q (snd (advance_scene env p why t))) = map_option prod_waits (producer_at q t)"
    for q and env :: "('a, 'b) media_env" and p why and t :: "('a, 'b) media_state"
    by (auto simp: advance_scene_def producer_at_def put_producer_def write_out_def Let_def AList.update_conv'
        split: option.split)
  note keep = this
  show ?thesis
  proof (cases "source_at k s")
    case None
    then show ?thesis using assms by (simp add: remove_source_def)
  next
    case (Some w)
    let ?s1 = "s\<lparr>ms_sources := AList.delete k (ms_sources s), ms_retained_bytes := ms_retained_bytes s - src_retained_bytes w,
      ms_nodes := filter (\<lambda>(_, n). node_source n \<noteq> k) (ms_nodes s)\<rparr>"
    have s1: "producer_at (fst k) ?s1 = Some v" using assms by (simp add: producer_at_def)
    obtain e t' where r: "advance_scene env (fst k) LostSource ?s1 = (e, t')" by fastforce
    have "map_option prod_waits (producer_at (fst k) t') = Some (prod_waits v)"
      using keep[of "fst k" env "fst k" LostSource ?s1] s1 r by simp
    then show ?thesis using Some s1 r
      by (cases e) (simp_all add: remove_source_def Let_def advance_projection_def producer_at_def)
  qed
qed

text \<open>A second \<open>BEGIN_TXN\<close> for an open transaction is refused, but the mutations sent so far are gone.\<close>

lemma second_begin_discards:
  assumes "map_of (ms_transactions s) (p, t) = Some ms"
  shows "fst (begin_transaction p t s) \<noteq> None \<and>
    map_of (ms_transactions (snd (begin_transaction p t s))) (p, t) = Some []"
  using assms by (simp add: begin_transaction_def AList.update_conv')

text \<open>A commit that ends in an error because the scene revision is exhausted has still changed the scene.\<close>

lemma failed_commit_applies:
  assumes "apply_mutations env s p ms (ms_nodes s) = Inr ns" and "producer_at p s = Some v"
    and "scene_valid env (map (\<lambda>(k, v). (k, src_kind v)) (ms_sources s)) (map snd ns)"
    and "length ns \<le> max_nodes (ms_config s)" and "advance env (prod_scene_revision v) = None"
  shows "fst (apply_transaction env p ms s) \<noteq> None \<and> ms_nodes (snd (apply_transaction env p ms s)) = ns"
  using assms by (simp add: apply_transaction_def advance_scene_def producer_at_def)

text \<open>
  \<open>create_source\<close> does not ask whether the producer is still there: a request that arrives while its
  pane is being closed leaves a source that no producer owns and that counts against the quota until
  the next producer leaves.
\<close>

lemma source_without_producer:
  "(let s = fold (media_serve example_service_env example_formats)
        [AdmitProducer 1 False, RevokePane 1, CreateSource 1 1 Video () {} 10 0] (fresh_service example_limits True)
    in ms_producers s = [] \<and> length (ms_sources s) = 1)"
  by (simp add: service_evaluates revoke_pane_def pane_producers_def cleanup_producer_def
      prune_orphaned_sources_def fresh_service_def example_limits_def example_service_env_def Let_def)

text \<open>
  The deliveries of a destroyed source stay: their credit goes to whichever source has the same
  name when they end.
\<close>

lemma removal_keeps_deliveries: "ms_deliveries (snd (remove_source env k s)) = ms_deliveries s"
proof -
  have scene: "advance_scene env p why t = (e, t') \<Longrightarrow> ms_deliveries t' = ms_deliveries t" for p why t e t'
    using advance_scene_quiet[of env p why t e t'] by (simp add: ledger_def)
  show ?thesis
    by (auto simp: remove_source_def Let_def advance_projection_def scene split: option.split prod.split)
qed

end
