(* ===== verification/Bridge_Control.thy ===== *)
theory Bridge_Control
  imports Media_State
begin

text \<open>
  The control connection of the outer bridge (\<open>src/src/bridge.rs\<close>): vvmux as a client of the host's
  Vivid presenter. The bridge's worker thread registers and writes requests and waits for their
  replies; a reader thread routes what the presenter sends; a heartbeat thread pings a silent
  presenter; media writers wait for credit. They share the record \<open>control_state\<close>, and each function
  here is what one of them does while it holds the lock. Times are microseconds. A hash set is a
  list without repetition. The parsers and the credit ledger of the protocol crate are the record
  \<open>control_crate\<close>.
\<close>

section \<open>State\<close>

datatype control_type =
    PingType | PongType | CreditType | NeedKeyframeType | NeedFullFrameType | SourceLostType
  | DisplayChangedType | CapsChangedType | SourceChangedType | SceneChangedType
  | PlaybackStateType | ErrorType | ReplyType nat

record 'b outer_record =
  or_type :: control_type
  or_object :: nat
  or_body :: 'b

record outer_keyframe =
  ok_source :: nat
  ok_minimum_epoch :: nat
  ok_reason :: keyframe_reason

record capability_change =
  cc_generation :: nat
  cc_reason_mask :: nat

record outer_playback_event =
  op_source :: nat
  op_state :: nat
  op_eos_state :: nat

record ('b, 'c, 'l) control_crate =
  request_id :: "'b \<Rightarrow> nat option"
  decode_ping :: "'b \<Rightarrow> nat option"
  parse_credit :: "'b \<Rightarrow> 'c option"
  parse_need_keyframe :: "'b \<Rightarrow> outer_keyframe option"
  parse_need_full_frame :: "'b \<Rightarrow> nat option"
  parse_source_lost :: "'b \<Rightarrow> nat option"
  parse_display_changed :: "'b \<Rightarrow> nat option"
  parse_caps_changed :: "'b \<Rightarrow> capability_change option"
  parse_source_changed :: "'b \<Rightarrow> (nat \<times> nat) option"
  parse_scene_changed :: "'b \<Rightarrow> nat option"
  parse_playback_state :: "'b \<Rightarrow> outer_playback_event option"
  ledger_new :: "'c \<Rightarrow> 'l"
  ledger_default :: 'l
  ledger_grant :: "'c \<Rightarrow> 'l \<Rightarrow> bool \<times> 'l"
  ledger_mark_lost :: "'l \<Rightarrow> 'l"
  ledger_is_lost :: "'l \<Rightarrow> bool"
  ledger_can_consume :: "nat \<Rightarrow> 'l \<Rightarrow> bool"
  ledger_consume :: "nat \<Rightarrow> 'l \<Rightarrow> bool \<times> 'l"
  buffer_for_rtt :: "nat \<Rightarrow> nat option \<Rightarrow> nat"

definition max_pending_control_replies :: nat where "max_pending_control_replies = 4096"
definition control_reply_timeout :: nat where "control_reply_timeout = 5000000"
definition outer_credit_timeout :: nat where "outer_credit_timeout = 15000000"
definition heartbeat_interval :: nat where "heartbeat_interval = 15000000"

datatype control_write = WrotePing nat | WrotePong nat | WroteRequest nat

text \<open>\<open>reader_runs\<close> and \<open>heart_runs\<close> say that the thread has not left its loop.\<close>

record ('b, 'l) control_state =
  replies :: "(nat \<times> 'b outer_record) list"
  pending_requests :: "nat list"
  abandoned_requests :: "nat list"
  oldest_pending_request :: "nat option"
  wait_us :: nat
  wait_timeouts :: nat
  credits :: "(nat \<times> 'l) list"
  keyframes :: "outer_keyframe list"
  full_frames :: "nat list"
  source_losses :: "nat list"
  playback_states :: "outer_playback_event list"
  display_generation :: nat
  capability_generation :: nat
  capability_changes :: "capability_change list"
  closed :: "string option"
  last_inbound :: nat
  last_probe_sent :: "nat option"
  unanswered_probes :: nat
  next_ping_id :: nat
  pending_pings :: "(nat \<times> nat) list"
  rtt_us :: "nat option"
  outer_scene_revision :: nat
  outer_source_revisions :: "(nat \<times> nat) list"
  reader_runs :: bool
  heart_runs :: bool
  control_written :: "control_write list"

definition dispatcher_start :: "nat \<Rightarrow> nat \<Rightarrow> nat \<Rightarrow> ('b, 'l) control_state" where
  "dispatcher_start now display capability =
     \<lparr>replies = [], pending_requests = [], abandoned_requests = [], oldest_pending_request = None,
      wait_us = 0, wait_timeouts = 0, credits = [], keyframes = [], full_frames = [],
      source_losses = [], playback_states = [], display_generation = display,
      capability_generation = capability, capability_changes = [], closed = None,
      last_inbound = now, last_probe_sent = None, unanswered_probes = 0,
      next_ping_id = 18446744073709551615, pending_pings = [], rtt_us = None,
      outer_scene_revision = 0, outer_source_revisions = [], reader_runs = True,
      heart_runs = True, control_written = []\<rparr>"

text \<open>\<open>closed.get_or_insert_with\<close>: the first reason stays.\<close>

definition close_with :: "string \<Rightarrow> ('b, 'l) control_state \<Rightarrow> ('b, 'l) control_state" where
  "close_with why s =
     s\<lparr>closed := (case closed s of None \<Rightarrow> Some why | Some first \<Rightarrow> Some first)\<rparr>"

definition stop_reader :: "('b, 'l) control_state \<Rightarrow> ('b, 'l) control_state" where
  "stop_reader s = s\<lparr>reader_runs := False\<rparr>"

definition stop_heart :: "('b, 'l) control_state \<Rightarrow> ('b, 'l) control_state" where
  "stop_heart s = s\<lparr>heart_runs := False\<rparr>"

definition note_written ::
    "control_write \<Rightarrow> ('b, 'l) control_state \<Rightarrow> ('b, 'l) control_state" where
  "note_written w s = s\<lparr>control_written := control_written s @ [w]\<rparr>"

section \<open>The reader thread\<close>

text \<open>The error of a routed record, which closes the connection, and the state it leaves.\<close>

type_synonym ('b, 'l) routed = "string option \<times> ('b, 'l) control_state"

definition apply_capability_change ::
    "capability_change \<Rightarrow> ('b, 'l) control_state \<Rightarrow> ('b, 'l) routed" where
  "apply_capability_change c s =
     (if cc_generation c \<le> capability_generation s
      then (Some ''outer capability generation did not advance'', s)
      else (None, s\<lparr>capability_generation := cc_generation c,
                    capability_changes := capability_changes s @ [c]\<rparr>))"

text \<open>An event that is parsed and then applied.\<close>

definition parsed ::
    "'v option \<Rightarrow> ('v \<Rightarrow> ('b, 'l) control_state \<Rightarrow> ('b, 'l) routed) \<Rightarrow>
     ('b, 'l) control_state \<Rightarrow> ('b, 'l) routed" where
  "parsed v f s = (case v of None \<Rightarrow> (Some ''malformed control record'', s) | Some x \<Rightarrow> f x s)"

definition grant_credit ::
    "('b, 'c, 'l) control_crate \<Rightarrow> nat \<Rightarrow> 'c \<Rightarrow> ('b, 'l) control_state \<Rightarrow> ('b, 'l) routed" where
  "grant_credit crate source c s =
     (let ledger = (case map_of (credits s) source of None \<Rightarrow> ledger_default crate | Some l \<Rightarrow> l)
      in case ledger_grant crate c ledger of
           (granted, ledger') \<Rightarrow>
             (if granted then None else Some ''credit overflow'',
              s\<lparr>credits := AList.update source ledger' (credits s)\<rparr>))"

definition lose_source ::
    "('b, 'c, 'l) control_crate \<Rightarrow> nat \<Rightarrow> ('b, 'l) control_state \<Rightarrow> ('b, 'l) control_state" where
  "lose_source crate source s =
     s\<lparr>credits := map (\<lambda>(k, l). (k, if k = source then ledger_mark_lost crate l else l)) (credits s),
       source_losses := source_losses s @ [source]\<rparr>"

text \<open>The smoothed round trip time: seven parts of the old value and one of the sample.\<close>

definition note_pong :: "nat \<Rightarrow> nat \<Rightarrow> ('b, 'l) control_state \<Rightarrow> ('b, 'l) control_state" where
  "note_pong now q s =
     (case map_of (pending_pings s) q of
        None \<Rightarrow> s
      | Some sent \<Rightarrow>
          let sample = now - sent
          in s\<lparr>pending_pings := AList.delete q (pending_pings s),
               rtt_us := Some (case rtt_us s of
                 None \<Rightarrow> sample
               | Some r \<Rightarrow> sat_add64 (min 18446744073709551615 (r * 7)) sample div 8)\<rparr>)"

text \<open>Replies go to the request that waits for them, or nowhere when the wait gave up.\<close>

definition settle_request :: "nat \<Rightarrow> ('b, 'l) control_state \<Rightarrow> ('b, 'l) control_state" where
  "settle_request q s =
     (let left = removeAll q (pending_requests s)
      in s\<lparr>pending_requests := left,
           oldest_pending_request := (if left = [] then None else oldest_pending_request s)\<rparr>)"

definition route_reply ::
    "'b outer_record \<Rightarrow> nat \<Rightarrow> ('b, 'l) control_state \<Rightarrow> ('b, 'l) routed" where
  "route_reply r q s =
     (if q = 0 then (None, s)
      else if q \<in> set (abandoned_requests s)
      then (None, s\<lparr>abandoned_requests := removeAll q (abandoned_requests s)\<rparr>)
      else if q \<notin> set (pending_requests s)
      then (Some ''outer presenter replied to an unknown request'', s)
      else let s1 = settle_request q s
           in if max_pending_control_replies \<le> length (replies s1)
              then (Some ''outer control reply queue overflow or duplicate'', s1)
              else (if map_of (replies s1) q = None then None
                    else Some ''outer control reply queue overflow or duplicate'',
                    s1\<lparr>replies := AList.update q r (replies s1)\<rparr>))"

definition mismatch :: "'b outer_record \<Rightarrow> nat \<Rightarrow> bool" where
  "mismatch r source \<longleftrightarrow> source \<noteq> or_object r"

definition unless_mismatch ::
    "'b outer_record \<Rightarrow> nat \<Rightarrow> ('b, 'l) control_state \<Rightarrow> ('b, 'l) control_state \<Rightarrow>
     ('b, 'l) routed" where
  "unless_mismatch r source s s' =
     (if mismatch r source then (Some ''outer source/object ID mismatch'', s) else (None, s'))"

definition route ::
    "('b, 'c, 'l) control_crate \<Rightarrow> nat \<Rightarrow> 'b outer_record \<Rightarrow> ('b, 'l) control_state \<Rightarrow>
     ('b, 'l) routed" where
  "route crate now r s =
     (let body = or_body r
      in case or_type r of
        CreditType \<Rightarrow> parsed (parse_credit crate body) (grant_credit crate (or_object r)) s
      | NeedKeyframeType \<Rightarrow>
          parsed (parse_need_keyframe crate body) (\<lambda>k s. (None, s\<lparr>keyframes := keyframes s @ [k]\<rparr>)) s
      | NeedFullFrameType \<Rightarrow>
          parsed (parse_need_full_frame crate body)
            (\<lambda>source s. unless_mismatch r source s (s\<lparr>full_frames := full_frames s @ [source]\<rparr>)) s
      | SourceLostType \<Rightarrow>
          parsed (parse_source_lost crate body)
            (\<lambda>source s. unless_mismatch r source s (lose_source crate source s)) s
      | DisplayChangedType \<Rightarrow>
          parsed (parse_display_changed crate body) (\<lambda>g s. (None, s\<lparr>display_generation := g\<rparr>)) s
      | CapsChangedType \<Rightarrow> parsed (parse_caps_changed crate body) apply_capability_change s
      | SourceChangedType \<Rightarrow>
          parsed (parse_source_changed crate body)
            (\<lambda>(source, revision) s. unless_mismatch r source s
               (s\<lparr>outer_source_revisions := AList.update source revision (outer_source_revisions s)\<rparr>)) s
      | SceneChangedType \<Rightarrow>
          parsed (parse_scene_changed crate body) (\<lambda>v s. (None, s\<lparr>outer_scene_revision := v\<rparr>)) s
      | PlaybackStateType \<Rightarrow>
          parsed (parse_playback_state crate body)
            (\<lambda>e s. (None, s\<lparr>playback_states := playback_states s @ [e]\<rparr>)) s
      | PongType \<Rightarrow>
          parsed (request_id crate body)
            (\<lambda>q s. if or_object r \<noteq> 0 \<or> q = 0
                   then (Some ''outer PONG is not a correlated session-level reply'', s)
                   else (None, note_pong now q s)) s
      | _ \<Rightarrow> parsed (request_id crate body) (route_reply r) s)"

text \<open>Every record counts as a sign of life, whatever its type.\<close>

definition note_inbound ::
    "nat \<Rightarrow> 'b outer_record \<Rightarrow> ('b, 'l) control_state \<Rightarrow> ('b, 'l) control_state" where
  "note_inbound now r s =
     s\<lparr>last_inbound := now, last_probe_sent := None, unanswered_probes := 0,
       pending_pings := (if or_type r = PongType then pending_pings s else [])\<rparr>"

text \<open>\<open>pong_sent\<close>: the connection takes the answer to a PING. A PING leaves the loop running even
  when the heartbeat has closed the connection.\<close>

definition receive ::
    "('b, 'c, 'l) control_crate \<Rightarrow> nat \<Rightarrow> bool \<Rightarrow> 'b outer_record \<Rightarrow>
     ('b, 'l) control_state \<Rightarrow> ('b, 'l) control_state" where
  "receive crate now pong_sent r s =
     (let s1 = note_inbound now r s
      in if or_type r = PingType
         then (case decode_ping crate (or_body r) of
                 None \<Rightarrow> stop_reader (close_with ''malformed control record'' s1)
               | Some q \<Rightarrow>
                   if or_object r \<noteq> 0 \<or> q = 0
                   then stop_reader
                     (close_with ''outer PING is not a correlated session-level request'' s1)
                   else if pong_sent then note_written (WrotePong q) s1
                   else stop_reader (close_with ''write failed'' s1))
         else (case route crate now r s1 of
                 (failed, s2) \<Rightarrow>
                   let s3 = (case failed of None \<Rightarrow> s2 | Some why \<Rightarrow> close_with why s2)
                   in if closed s3 \<noteq> None then stop_reader s3 else s3))"

definition reader_failed :: "string \<Rightarrow> ('b, 'l) control_state \<Rightarrow> ('b, 'l) control_state" where
  "reader_failed why s = stop_reader (close_with why s)"

section \<open>The heartbeat thread\<close>

definition request_stalled :: "nat \<Rightarrow> ('b, 'l) control_state \<Rightarrow> bool" where
  "request_stalled now s =
     (case oldest_pending_request s of
        None \<Rightarrow> False | Some issued \<Rightarrow> heartbeat_interval \<le> now - issued)"

definition probe_not_due :: "nat \<Rightarrow> ('b, 'l) control_state \<Rightarrow> bool" where
  "probe_not_due now s =
     (now - last_inbound s < heartbeat_interval \<and> \<not> request_stalled now s \<or>
      (case last_probe_sent s of None \<Rightarrow> False | Some sent \<Rightarrow> now - sent < heartbeat_interval))"

definition heartbeat :: "nat \<Rightarrow> bool \<Rightarrow> ('b, 'l) control_state \<Rightarrow> ('b, 'l) control_state" where
  "heartbeat now ping_sent s =
     (if closed s \<noteq> None then stop_heart s
      else if probe_not_due now s then s
      else if 3 \<le> unanswered_probes s
      then stop_heart (s\<lparr>closed := Some ''outer Vivid heartbeat timed out''\<rparr>)
      else let q = next_ping_id s;
               s1 = s\<lparr>next_ping_id := q - 1, last_probe_sent := Some now,
                      unanswered_probes := min 255 (unanswered_probes s + 1),
                      pending_pings := AList.update q now (pending_pings s)\<rparr>
           in if ping_sent then note_written (WrotePing q) s1
              else stop_heart (close_with ''outer heartbeat write failed'' s1))"

section \<open>Requests and their replies\<close>

definition write_request ::
    "('b, 'c, 'l) control_crate \<Rightarrow> nat \<Rightarrow> bool \<Rightarrow> 'b \<Rightarrow> ('b, 'l) control_state \<Rightarrow> ('b, 'l) routed" where
  "write_request crate now sent body s =
     (case request_id crate body of
        None \<Rightarrow> (Some ''malformed control record'', s)
      | Some q \<Rightarrow>
          if q = 0 then (Some ''outbound outer request has request ID zero'', s)
          else if max_pending_control_replies \<le> length (pending_requests s) \<or>
                  q \<in> set (pending_requests s)
          then (Some ''outer pending request bound exceeded or request ID was reused'', s)
          else let s1 = s\<lparr>pending_requests := q # pending_requests s,
                          oldest_pending_request := (case oldest_pending_request s of
                            None \<Rightarrow> Some now | Some issued \<Rightarrow> Some issued)\<rparr>
               in if sent then (None, note_written (WroteRequest q) s1)
                  else (Some ''write failed'',
                        s1\<lparr>pending_requests := removeAll q (pending_requests s1)\<rparr>))"

text \<open>A reply is what the request asked for, an error of the presenter, or something else.\<close>

definition check_reply :: "control_type \<Rightarrow> nat \<Rightarrow> 'b outer_record \<Rightarrow> string + 'b outer_record" where
  "check_reply expected obj r =
     (if or_object r \<noteq> obj then Inl ''outer reply has another object''
      else if or_type r = ErrorType then Inl ''outer Vivid error''
      else if or_type r \<noteq> expected then Inl ''outer reply has another type''
      else Inr r)"

datatype 'b wait_outcome = Answered "'b outer_record" | WaitFailed string | StillWaiting

definition outcome_of :: "string + 'b outer_record \<Rightarrow> 'b wait_outcome" where
  "outcome_of v = (case v of Inl why \<Rightarrow> WaitFailed why | Inr r \<Rightarrow> Answered r)"

definition note_wait :: "nat \<Rightarrow> ('b, 'l) control_state \<Rightarrow> ('b, 'l) control_state" where
  "note_wait spent s = s\<lparr>wait_us := sat_add64 (wait_us s) spent\<rparr>"

definition abandon_request :: "nat \<Rightarrow> ('b, 'l) control_state \<Rightarrow> ('b, 'l) control_state" where
  "abandon_request q s =
     settle_request q
       (s\<lparr>abandoned_requests :=
            (if length (abandoned_requests s) < max_pending_control_replies
             then List.insert q (abandoned_requests s) else abandoned_requests s),
          wait_timeouts := sat_add64 (wait_timeouts s) 1\<rparr>)"

text \<open>One turn of \<open>wait_reply_on\<close> for a wait begun at \<open>started\<close>.\<close>

definition wait_reply ::
    "nat \<Rightarrow> nat \<Rightarrow> nat \<Rightarrow> control_type \<Rightarrow> nat \<Rightarrow> ('b, 'l) control_state \<Rightarrow>
     'b wait_outcome \<times> ('b, 'l) control_state" where
  "wait_reply started now q expected obj s =
     (case map_of (replies s) q of
        Some r \<Rightarrow>
          (outcome_of (check_reply expected obj r),
           note_wait (now - started) (s\<lparr>replies := AList.delete q (replies s)\<rparr>))
      | None \<Rightarrow>
          (case closed s of
             Some why \<Rightarrow> (WaitFailed why, s)
           | None \<Rightarrow>
               if now \<le> started + control_reply_timeout then (StillWaiting, s)
               else (WaitFailed ''outer reply did not arrive within the deadline'',
                     note_wait (now - started) (abandon_request q s))))"

section \<open>Credit of the outer sources\<close>

datatype reservation = Reserved | ReserveFailed string | NoCreditYet

definition reserve_outer_credit ::
    "('b, 'c, 'l) control_crate \<Rightarrow> nat \<Rightarrow> nat \<Rightarrow> nat \<Rightarrow> nat \<Rightarrow> ('b, 'l) control_state \<Rightarrow>
     reservation \<times> ('b, 'l) control_state" where
  "reserve_outer_credit crate started now source bytes s =
     (case map_of (credits s) source of
        None \<Rightarrow> (ReserveFailed ''outer source has no credit ledger'', s)
      | Some l \<Rightarrow>
          if ledger_is_lost crate l then (ReserveFailed ''outer source was lost'', s)
          else if ledger_can_consume crate bytes l
          then (case ledger_consume crate bytes l of
                  (taken, l') \<Rightarrow>
                    (if taken then Reserved else ReserveFailed ''credit'',
                     s\<lparr>credits := AList.update source l' (credits s)\<rparr>))
          else (case closed s of
                  Some why \<Rightarrow> (ReserveFailed why, s)
                | None \<Rightarrow>
                    (if now \<le> started + outer_credit_timeout then NoCreditYet
                     else ReserveFailed ''outer source did not grant credit within the deadline'', s)))"

definition retire_source :: "nat \<Rightarrow> ('b, 'l) control_state \<Rightarrow> ('b, 'l) control_state" where
  "retire_source source s = s\<lparr>credits := AList.delete source (credits s)\<rparr>"

definition register_source ::
    "('b, 'c, 'l) control_crate \<Rightarrow> nat \<Rightarrow> 'c \<Rightarrow> ('b, 'l) control_state \<Rightarrow> ('b, 'l) routed" where
  "register_source crate source c s =
     (if map_of (credits s) source = None then None
      else Some ''outer source credit ledger already exists'',
      s\<lparr>credits := AList.update source (ledger_new crate c) (credits s)\<rparr>)"

section \<open>What the worker takes\<close>

definition take_wait_stats ::
    "('b, 'l) control_state \<Rightarrow> (nat \<times> nat) \<times> ('b, 'l) control_state" where
  "take_wait_stats s = ((wait_us s, wait_timeouts s), s\<lparr>wait_us := 0, wait_timeouts := 0\<rparr>)"

definition take_keyframes ::
    "('b, 'l) control_state \<Rightarrow> outer_keyframe list \<times> ('b, 'l) control_state" where
  "take_keyframes s = (keyframes s, s\<lparr>keyframes := []\<rparr>)"

definition take_full_frames ::
    "('b, 'l) control_state \<Rightarrow> nat list \<times> ('b, 'l) control_state" where
  "take_full_frames s = (full_frames s, s\<lparr>full_frames := []\<rparr>)"

definition take_source_losses ::
    "('b, 'l) control_state \<Rightarrow> nat list \<times> ('b, 'l) control_state" where
  "take_source_losses s = (source_losses s, s\<lparr>source_losses := []\<rparr>)"

definition take_playback_states ::
    "('b, 'l) control_state \<Rightarrow> outer_playback_event list \<times> ('b, 'l) control_state" where
  "take_playback_states s = (playback_states s, s\<lparr>playback_states := []\<rparr>)"

definition take_capability_changes ::
    "('b, 'l) control_state \<Rightarrow> capability_change list \<times> ('b, 'l) control_state" where
  "take_capability_changes s = (capability_changes s, s\<lparr>capability_changes := []\<rparr>)"

definition adjusted_minimum_buffer ::
    "('b, 'c, 'l) control_crate \<Rightarrow> nat \<Rightarrow> ('b, 'l) control_state \<Rightarrow> nat" where
  "adjusted_minimum_buffer crate requested s = buffer_for_rtt crate requested (rtt_us s)"

definition drop_dispatcher :: "('b, 'l) control_state \<Rightarrow> ('b, 'l) control_state" where
  "drop_dispatcher s = close_with ''outer bridge closed'' s"

end
