(* ===== verification/Control_Correct.thy ===== *)
theory Control_Correct
  imports Bridge_Control
begin

text \<open>
  What the control connection of the outer bridge guarantees, for any interleaving of its threads:
  a reply reaches the request it answers and no other, a reply that comes too late is dropped
  quietly, a silent presenter is noticed within a bounded time and one that talks is not cut off.
\<close>

section \<open>Events of the threads\<close>

datatype ('b, 'c) control_event =
    Receives nat bool "'b outer_record"
  | ReaderFails string
  | Beats nat bool
  | Requests nat bool 'b
  | WaitsFor nat nat nat control_type nat
  | Reserves nat nat nat nat
  | Registers nat 'c
  | Retires nat
  | TakesStats | TakesKeyframes | TakesFullFrames | TakesLosses | TakesPlayback | TakesCapabilities
  | DropsDispatcher

fun control_step ::
    "('b, 'c, 'l) control_crate \<Rightarrow> ('b, 'c) control_event \<Rightarrow> ('b, 'l) control_state \<Rightarrow>
     ('b, 'l) control_state option" where
  "control_step crate (Receives now sent r) s = Some (receive crate now sent r s)"
| "control_step crate (ReaderFails why) s = Some (reader_failed why s)"
| "control_step crate (Beats now sent) s = Some (if heart_runs s then heartbeat now sent s else s)"
| "control_step crate (Requests now sent body) s = Some (snd (write_request crate now sent body s))"
| "control_step crate (WaitsFor started now q expected obj) s =
     Some (snd (wait_reply started now q expected obj s))"
| "control_step crate (Reserves started now source bytes) s =
     Some (snd (reserve_outer_credit crate started now source bytes s))"
| "control_step crate (Registers source c) s = Some (snd (register_source crate source c s))"
| "control_step crate (Retires source) s = Some (retire_source source s)"
| "control_step crate TakesStats s = Some (snd (take_wait_stats s))"
| "control_step crate TakesKeyframes s = Some (snd (take_keyframes s))"
| "control_step crate TakesFullFrames s = Some (snd (take_full_frames s))"
| "control_step crate TakesLosses s = Some (snd (take_source_losses s))"
| "control_step crate TakesPlayback s = Some (snd (take_playback_states s))"
| "control_step crate TakesCapabilities s = Some (snd (take_capability_changes s))"
| "control_step crate DropsDispatcher s = Some (drop_dispatcher s)"

text \<open>
  The reader acts while it runs (the heartbeat's wake-ups may go on without it), the clock does not
  run backwards, and the worker numbers its
  requests upwards, so a new request never has a number that is still in use.
\<close>

definition clock_ok :: "nat \<Rightarrow> ('b, 'l) control_state \<Rightarrow> bool" where
  "clock_ok now s \<longleftrightarrow> last_inbound s \<le> now \<and>
     (case last_probe_sent s of None \<Rightarrow> True | Some sent \<Rightarrow> sent \<le> now)"

definition in_use :: "('b, 'l) control_state \<Rightarrow> nat set" where
  "in_use s = set (pending_requests s) \<union> set (abandoned_requests s) \<union> fst ` set (replies s)"

fun possible :: "('b, 'c, 'l) control_crate \<Rightarrow> ('b, 'l) control_state \<Rightarrow> ('b, 'c) control_event \<Rightarrow> bool" where
  "possible crate s (Receives now sent r) \<longleftrightarrow> reader_runs s \<and> clock_ok now s"
| "possible crate s (Beats now sent) \<longleftrightarrow> clock_ok now s"
| "possible crate s (Requests now sent body) \<longleftrightarrow>
     (case request_id crate body of None \<Rightarrow> True | Some q \<Rightarrow> q \<notin> in_use s)"
| "possible crate s _ \<longleftrightarrow> True"

section \<open>The invariant\<close>

definition requests_ok :: "('b, 'l) control_state \<Rightarrow> bool" where
  "requests_ok s \<longleftrightarrow>
     distinct (pending_requests s) \<and> distinct (abandoned_requests s) \<and> distinct (map fst (replies s)) \<and>
     set (pending_requests s) \<inter> set (abandoned_requests s) = {} \<and>
     set (pending_requests s) \<inter> fst ` set (replies s) = {} \<and>
     set (abandoned_requests s) \<inter> fst ` set (replies s) = {} \<and>
     length (pending_requests s) \<le> max_pending_control_replies \<and>
     length (abandoned_requests s) \<le> max_pending_control_replies \<and>
     length (replies s) \<le> max_pending_control_replies \<and>
     0 \<notin> set (pending_requests s) \<and>
     (pending_requests s \<noteq> [] \<longrightarrow> oldest_pending_request s \<noteq> None)"

definition probes_ok :: "('b, 'l) control_state \<Rightarrow> bool" where
  "probes_ok s \<longleftrightarrow>
     (case last_probe_sent s of
        None \<Rightarrow> unanswered_probes s = 0
      | Some sent \<Rightarrow> 1 \<le> unanswered_probes s \<and> unanswered_probes s \<le> 3 \<and>
          last_inbound s + (unanswered_probes s - 1) * heartbeat_interval \<le> sent)"

definition dispatcher_ok :: "('b, 'l) control_state \<Rightarrow> bool" where
  "dispatcher_ok s \<longleftrightarrow> requests_ok s \<and> probes_ok s"

lemma fresh_dispatcher_ok: "dispatcher_ok (dispatcher_start now display capability)"
  by (simp add: dispatcher_ok_def requests_ok_def probes_ok_def dispatcher_start_def)

text \<open>Most operations leave the requests or the probes alone.\<close>

definition requests_of :: "('b, 'l) control_state \<Rightarrow>
    nat list \<times> nat list \<times> (nat \<times> 'b outer_record) list \<times> nat option" where
  "requests_of s = (pending_requests s, abandoned_requests s, replies s, oldest_pending_request s)"

definition probes_of :: "('b, 'l) control_state \<Rightarrow> nat option \<times> nat \<times> nat" where
  "probes_of s = (last_probe_sent s, unanswered_probes s, last_inbound s)"

lemma requests_ok_cong: "requests_of s' = requests_of s \<Longrightarrow> requests_ok s' = requests_ok s"
  by (simp add: requests_of_def requests_ok_def)

lemma probes_ok_cong: "probes_of s' = probes_of s \<Longrightarrow> probes_ok s' = probes_ok s"
  by (auto simp: probes_of_def probes_ok_def split: option.split)

named_theorems untouched \<open>operations that leave requests or probes alone\<close>

lemma close_with_untouched [untouched]:
  "requests_of (close_with why s) = requests_of s" "probes_of (close_with why s) = probes_of s"
  by (simp_all add: close_with_def requests_of_def probes_of_def)

lemma stop_untouched [untouched]:
  "requests_of (stop_reader s) = requests_of s" "probes_of (stop_reader s) = probes_of s"
  "requests_of (stop_heart s) = requests_of s" "probes_of (stop_heart s) = probes_of s"
  by (simp_all add: stop_reader_def stop_heart_def requests_of_def probes_of_def)

lemma note_untouched [untouched]:
  "requests_of (note_written w s) = requests_of s" "probes_of (note_written w s) = probes_of s"
  "requests_of (note_wait t s) = requests_of s" "probes_of (note_wait t s) = probes_of s"
  "requests_of (note_pong t q s) = requests_of s" "probes_of (note_pong t q s) = probes_of s"
  "requests_of (note_inbound t r s) = requests_of s"
  by (auto simp: note_written_def note_wait_def note_pong_def note_inbound_def requests_of_def
      probes_of_def Let_def split: option.split)

lemma settle_probes [untouched]:
  "probes_of (settle_request q s) = probes_of s" "probes_of (abandon_request q s) = probes_of s"
  by (simp_all add: abandon_request_def settle_request_def probes_of_def Let_def)

lemma route_reply_probes [untouched]: "probes_of (snd (route_reply r q s)) = probes_of s"
  using settle_probes(1)[of q s] by (simp add: route_reply_def Let_def) (simp add: probes_of_def)

lemma route_probes: "probes_of (snd (route crate now r s)) = probes_of s"
  by (cases "or_type r")
    (auto simp: route_def Let_def parsed_def grant_credit_def unless_mismatch_def lose_source_def
      apply_capability_change_def untouched probes_of_def[of "_\<lparr>credits := _\<rparr>"]
      split: option.split prod.split | simp add: probes_of_def)+

lemma route_requests:
  assumes "\<forall>n. or_type r \<noteq> ReplyType n" and "or_type r \<noteq> ErrorType" and "or_type r \<noteq> PingType"
  shows "requests_of (snd (route crate now r s)) = requests_of s"
  using assms by (cases "or_type r")
    (auto simp: route_def Let_def parsed_def grant_credit_def unless_mismatch_def lose_source_def
      apply_capability_change_def untouched split: option.split prod.split | simp add: requests_of_def)+

lemma in_use_start: "in_use (dispatcher_start now display capability) = {}"
  by (simp add: in_use_def dispatcher_start_def)

lemma settle_requests: "requests_ok s \<Longrightarrow> requests_ok (settle_request q s)"
  by (auto simp: requests_ok_def settle_request_def Let_def distinct_removeAll
      intro: le_trans[OF length_removeAll_less_eq])

text \<open>A reply leaves the requests in order: its number moves from the open to the answered ones.\<close>

lemma route_reply_ok:
  assumes "requests_ok s"
  shows "requests_ok (snd (route_reply r q s))"
proof -
  have settled: "requests_ok (settle_request q s)" by (rule settle_requests[OF assms])
  have gone: "q \<notin> set (pending_requests (settle_request q s))"
    by (simp add: settle_request_def Let_def)
  have same: "abandoned_requests (settle_request q s) = abandoned_requests s"
    "replies (settle_request q s) = replies s"
    by (simp_all add: settle_request_def Let_def)
  show ?thesis
  proof (cases "q = 0 \<or> q \<in> set (abandoned_requests s) \<or> q \<notin> set (pending_requests s)")
    case True
    with assms show ?thesis
      by (auto simp: route_reply_def requests_ok_def distinct_removeAll
          intro: le_trans[OF length_removeAll_less_eq])
  next
    case False
    then have "q \<notin> fst ` set (replies s)" using assms by (auto simp: requests_ok_def)
    with False settled gone same show ?thesis
      by (auto simp: route_reply_def Let_def requests_ok_def update_fresh)
  qed
qed

lemma route_ok:
  assumes "requests_ok s"
  shows "requests_ok (snd (route crate now r s))"
proof (cases "(\<forall>n. or_type r \<noteq> ReplyType n) \<and> or_type r \<noteq> ErrorType \<and> or_type r \<noteq> PingType")
  case True
  then have "requests_of (snd (route crate now r s)) = requests_of s"
    by (intro route_requests) blast+
  from requests_ok_cong[OF this] assms show ?thesis by simp
next
  case False
  then have "(\<exists>n. or_type r = ReplyType n) \<or> or_type r = ErrorType \<or> or_type r = PingType" by blast
  then have "route crate now r s = parsed (request_id crate (or_body r)) (route_reply r) s"
    by (elim disjE exE) (simp_all add: route_def)
  with assms show ?thesis by (simp add: parsed_def route_reply_ok split: option.split)
qed

lemma inbound_probes: "probes_ok (note_inbound now r s)"
  by (simp add: note_inbound_def probes_ok_def)

lemma receive_ok:
  assumes "dispatcher_ok s"
  shows "dispatcher_ok (receive crate now sent r s)"
proof -
  let ?s1 = "note_inbound now r s"
  have q1: "requests_ok ?s1" using assms by (simp add: dispatcher_ok_def requests_ok_cong[OF note_untouched(7)])
  have q2: "requests_ok (snd (route crate now r ?s1))" by (rule route_ok[OF q1])
  have p1: "probes_ok ?s1" by (rule inbound_probes)
  have p2: "probes_ok (snd (route crate now r ?s1))" using p1 route_probes probes_ok_cong by blast
  show ?thesis
    using q1 q2 p1 p2
    by (auto simp: receive_def Let_def dispatcher_ok_def untouched requests_ok_cong[OF untouched(1)]
        requests_ok_cong[OF stop_untouched(1)] probes_ok_cong[OF stop_untouched(2)]
        requests_ok_cong[OF close_with_untouched(1)] probes_ok_cong[OF close_with_untouched(2)]
        requests_ok_cong[OF note_untouched(1)] probes_ok_cong[OF note_untouched(2)]
        split: option.split prod.split)
qed

lemma heartbeat_requests: "requests_of (heartbeat now sent s) = requests_of s"
  by (simp add: heartbeat_def Let_def untouched) (simp add: requests_of_def)

lemma heartbeat_probes:
  assumes "probes_ok s" and "clock_ok now s"
  shows "probes_ok (heartbeat now sent s)"
proof (cases "closed s = None \<and> \<not> probe_not_due now s \<and> unanswered_probes s < 3")
  case True
  then have beat: "probes_of (heartbeat now sent s) = (Some now, Suc (unanswered_probes s), last_inbound s)"
    by (auto simp: heartbeat_def Let_def untouched) (simp_all add: probes_of_def)
  have "last_inbound s + unanswered_probes s * heartbeat_interval \<le> now"
  proof (cases "last_probe_sent s")
    case None
    with assms show ?thesis by (simp add: probes_ok_def clock_ok_def)
  next
    case (Some sent)
    with True have "heartbeat_interval \<le> now - sent" by (simp add: probe_not_due_def)
    moreover have "last_inbound s + (unanswered_probes s - 1) * heartbeat_interval \<le> sent"
      "1 \<le> unanswered_probes s" "sent \<le> now"
      using assms Some by (simp_all add: probes_ok_def clock_ok_def)
    ultimately show ?thesis by (cases "unanswered_probes s") auto
  qed
  with beat True show ?thesis by (simp add: probes_ok_def probes_of_def)
next
  case False
  then have "probes_of (heartbeat now sent s) = probes_of s"
    by (auto simp: heartbeat_def Let_def untouched) (simp_all add: probes_of_def)
  with assms probes_ok_cong show ?thesis by blast
qed

lemma write_request_ok:
  assumes "requests_ok s" and "\<forall>q. request_id crate body = Some q \<longrightarrow> q \<notin> in_use s"
  shows "requests_ok (snd (write_request crate now sent body s))"
proof (cases "request_id crate body")
  case None
  with assms show ?thesis by (simp add: write_request_def)
next
  case (Some q)
  let ?oldest = "case oldest_pending_request s of None \<Rightarrow> Some now | Some issued \<Rightarrow> Some issued"
  from assms(2) Some have q: "q \<notin> set (pending_requests s)" "q \<notin> set (abandoned_requests s)"
    "q \<notin> fst ` set (replies s)" by (auto simp: in_use_def)
  show ?thesis
  proof (cases "q = 0 \<or> max_pending_control_replies \<le> length (pending_requests s)")
    case True
    with assms(1) Some show ?thesis by (auto simp: write_request_def)
  next
    case False
    let ?s1 = "s\<lparr>pending_requests := q # pending_requests s, oldest_pending_request := ?oldest\<rparr>"
    have s1: "requests_ok ?s1" using assms(1) q False by (auto simp: requests_ok_def split: option.split)
    show ?thesis
    proof (cases sent)
      case True
      with Some False q s1 show ?thesis
        by (simp add: write_request_def Let_def requests_ok_cong[OF note_untouched(1)])
    next
      case sent: False
      have "requests_ok (?s1\<lparr>pending_requests := removeAll q (pending_requests ?s1)\<rparr>)"
        using assms(1) q by (auto simp: requests_ok_def split: option.split)
      with sent Some False q show ?thesis by (simp add: write_request_def Let_def)
    qed
  qed
qed

lemma write_request_probes: "probes_of (snd (write_request crate now sent body s)) = probes_of s"
  by (simp add: write_request_def Let_def untouched split: option.split) (simp add: probes_of_def)

lemma abandon_ok:
  assumes "requests_ok s" and "map_of (replies s) q = None"
  shows "requests_ok (abandon_request q s)"
proof -
  have q: "q \<notin> fst ` set (replies s)" using assms(2) by (simp add: map_of_eq_None_iff)
  let ?s1 = "settle_request q s"
  have s1: "requests_ok ?s1" "q \<notin> set (pending_requests ?s1)"
    using settle_requests[OF assms(1)] by (simp_all add: settle_request_def Let_def)
  have "abandon_request q s = ?s1\<lparr>abandoned_requests :=
      (if length (abandoned_requests s) < max_pending_control_replies
       then List.insert q (abandoned_requests s) else abandoned_requests s),
      wait_timeouts := sat_add64 (wait_timeouts s) 1\<rparr>"
    by (simp add: abandon_request_def settle_request_def Let_def)
  with s1 q show ?thesis
    by (auto simp: requests_ok_def settle_request_def Let_def List.insert_def)
qed

lemma keys_delete: "fst ` set (AList.delete k m) = fst ` set m - {k}"
  by (induction m) auto

lemma delete_reply_ok: "requests_ok s \<Longrightarrow> requests_ok (s\<lparr>replies := AList.delete q (replies s)\<rparr>)"
  by (auto simp: requests_ok_def distinct_delete keys_delete intro: le_trans[OF length_delete_le])

lemma wait_reply_ok: "requests_ok s \<Longrightarrow> requests_ok (snd (wait_reply started now q expected obj s))"
  by (simp add: wait_reply_def requests_ok_cong[OF note_untouched(3)] delete_reply_ok abandon_ok
      split: option.split)

lemma wait_reply_probes: "probes_of (snd (wait_reply started now q expected obj s)) = probes_of s"
  by (simp add: wait_reply_def untouched split: option.split) (simp add: probes_of_def)

text \<open>What touches neither requests nor probes.\<close>

lemma others_untouched [untouched]:
  "requests_of (snd (reserve_outer_credit crate a b c d s)) = requests_of s"
  "probes_of (snd (reserve_outer_credit crate a b c d s)) = probes_of s"
  "requests_of (snd (register_source crate k v s)) = requests_of s"
  "probes_of (snd (register_source crate k v s)) = probes_of s"
  "requests_of (retire_source k s) = requests_of s" "probes_of (retire_source k s) = probes_of s"
  "requests_of (drop_dispatcher s) = requests_of s" "probes_of (drop_dispatcher s) = probes_of s"
  "requests_of (reader_failed why s) = requests_of s" "probes_of (reader_failed why s) = probes_of s"
  by (simp_all add: reserve_outer_credit_def register_source_def retire_source_def drop_dispatcher_def
      reader_failed_def untouched split: option.split prod.split)
    (simp_all add: requests_of_def probes_of_def)

lemma takes_untouched [untouched]:
  "requests_of (snd (take_wait_stats s)) = requests_of s" "probes_of (snd (take_wait_stats s)) = probes_of s"
  "requests_of (snd (take_keyframes s)) = requests_of s" "probes_of (snd (take_keyframes s)) = probes_of s"
  "requests_of (snd (take_full_frames s)) = requests_of s" "probes_of (snd (take_full_frames s)) = probes_of s"
  "requests_of (snd (take_source_losses s)) = requests_of s"
  "probes_of (snd (take_source_losses s)) = probes_of s"
  "requests_of (snd (take_playback_states s)) = requests_of s"
  "probes_of (snd (take_playback_states s)) = probes_of s"
  "requests_of (snd (take_capability_changes s)) = requests_of s"
  "probes_of (snd (take_capability_changes s)) = probes_of s"
  by (simp_all add: take_wait_stats_def take_keyframes_def take_full_frames_def take_source_losses_def
      take_playback_states_def take_capability_changes_def requests_of_def probes_of_def)

lemma dispatcher_ok_cong:
  "requests_of s' = requests_of s \<Longrightarrow> probes_of s' = probes_of s \<Longrightarrow> dispatcher_ok s \<Longrightarrow> dispatcher_ok s'"
  using requests_ok_cong probes_ok_cong by (auto simp: dispatcher_ok_def)

lemma control_step_ok:
  assumes "dispatcher_ok s" and "possible crate s e"
  shows "\<exists>s'. control_step crate e s = Some s' \<and> dispatcher_ok s'"
proof (cases e)
  case (Receives now sent r)
  with assms receive_ok show ?thesis by auto
next
  case (Beats now sent)
  with assms heartbeat_probes[of s now sent] requests_ok_cong[OF heartbeat_requests[of now sent s]]
  show ?thesis by (auto simp: dispatcher_ok_def)
next
  case (Requests now sent body)
  with assms have "requests_ok (snd (write_request crate now sent body s))"
    by (intro write_request_ok) (auto simp: dispatcher_ok_def)
  with Requests assms probes_ok_cong[OF write_request_probes[of crate now sent body s]] show ?thesis
    by (auto simp: dispatcher_ok_def)
next
  case (WaitsFor started now q expected obj)
  with assms wait_reply_ok[of s started now q expected obj]
    probes_ok_cong[OF wait_reply_probes[of started now q expected obj s]] show ?thesis
    by (auto simp: dispatcher_ok_def)
qed (use assms in \<open>auto intro!: dispatcher_ok_cong[of _ s] simp: untouched\<close>)

interpretation control: safe_machine "control_step crate" dispatcher_ok "possible crate"
  for crate :: "('b, 'c, 'l) control_crate"
  by unfold_locales (rule control_step_ok)

section \<open>Replies reach their requests\<close>

definition not_waiting_for :: "nat \<Rightarrow> ('b, 'c) control_event \<Rightarrow> bool" where
  "not_waiting_for q e = (case e of WaitsFor _ _ q' _ _ \<Rightarrow> q' \<noteq> q | _ \<Rightarrow> True)"

text \<open>A reply that has been routed stays until its request takes it.\<close>

lemma route_reply_keeps:
  assumes "requests_ok s" and "map_of (replies s) q = Some v"
  shows "map_of (replies (snd (route_reply r q' s))) q = Some v"
proof (cases "q' = q")
  case True
  from assms(2) have "q \<in> fst ` set (replies s)" by (metis map_of_eq_None_iff option.distinct(1))
  with assms(1) have "q \<notin> set (pending_requests s)" by (auto simp: requests_ok_def)
  with True assms(2) show ?thesis by (auto simp: route_reply_def)
next
  case False
  with assms(2) show ?thesis by (simp add: route_reply_def Let_def settle_request_def update_conv')
qed

lemma route_keeps:
  assumes "requests_ok s" and "map_of (replies s) q = Some v"
  shows "map_of (replies (snd (route crate now r s))) q = Some v"
proof (cases "(\<forall>n. or_type r \<noteq> ReplyType n) \<and> or_type r \<noteq> ErrorType \<and> or_type r \<noteq> PingType")
  case True
  then have "requests_of (snd (route crate now r s)) = requests_of s"
    by (intro route_requests) blast+
  with assms(2) show ?thesis by (simp add: requests_of_def)
next
  case False
  then have "(\<exists>n. or_type r = ReplyType n) \<or> or_type r = ErrorType \<or> or_type r = PingType" by blast
  then have "route crate now r s = parsed (request_id crate (or_body r)) (route_reply r) s"
    by (elim disjE exE) (simp_all add: route_def)
  with assms route_reply_keeps[OF assms] show ?thesis by (simp add: parsed_def split: option.split)
qed

lemma replies_cong: "requests_of s' = requests_of s \<Longrightarrow> replies s' = replies s"
  by (simp add: requests_of_def)

lemmas replies_untouched =
  others_untouched(1,3,5,7,9)[THEN replies_cong] takes_untouched(1,3,5,7,9,11)[THEN replies_cong]

lemma receive_keeps:
  assumes "requests_ok s" and "map_of (replies s) q = Some v"
  shows "map_of (replies (receive crate now sent r s)) q = Some v"
proof -
  let ?s1 = "note_inbound now r s"
  have s1: "requests_ok ?s1" "map_of (replies ?s1) q = Some v"
    using assms requests_ok_cong[OF note_untouched(7)] by (simp_all add: note_inbound_def[of _ _ s] requests_ok_def)
  from route_keeps[OF this] have "map_of (replies (snd (route crate now r ?s1))) q = Some v" .
  with s1(2) show ?thesis
    by (auto simp: receive_def Let_def close_with_def stop_reader_def note_written_def
        split: option.split prod.split)
qed

lemma step_keeps_reply:
  assumes "dispatcher_ok s" and "map_of (replies s) q = Some v" and "not_waiting_for q e"
    and "control_step crate e s = Some s'"
  shows "map_of (replies s') q = Some v"
proof (cases e)
  case (Receives now sent r)
  with assms receive_keeps show ?thesis by (auto simp: dispatcher_ok_def)
next
  case (Beats now sent)
  with assms replies_cong[OF heartbeat_requests[of now sent s]] show ?thesis by auto
next
  case (Requests now sent body)
  have "replies (snd (write_request crate now sent body s)) = replies s"
    by (simp add: write_request_def Let_def note_written_def split: option.split)
  with Requests assms show ?thesis by auto
next
  case (WaitsFor started now q' expected obj)
  with assms show ?thesis
    by (auto simp: not_waiting_for_def wait_reply_def note_wait_def abandon_request_def settle_request_def
        Let_def delete_conv' split: option.split)
qed (use assms in \<open>auto simp: replies_untouched\<close>)

lemma run_keeps_reply:
  assumes "dispatcher_ok s" and "map_of (replies s) q = Some v" and "list_all (not_waiting_for q) es"
    and "admissible (control_step crate) (possible crate) es s"
    and "run_ops (control_step crate) es s = Some s'"
  shows "map_of (replies s') q = Some v"
  using assms
proof (induction es arbitrary: s)
  case (Cons e es)
  then obtain s1 where s1: "control_step crate e s = Some s1" by (auto split: option.splits)
  with Cons.prems control_step_ok[of s crate e] have "dispatcher_ok s1" by auto
  moreover have "map_of (replies s1) q = Some v"
    using step_keeps_reply[OF Cons.prems(1,2) _ s1] Cons.prems(3) by simp
  ultimately show ?case using Cons.IH[of s1] Cons.prems(3-5) s1 by simp
qed simp

text \<open>What answers a request: a reply of any type or an error, with its number.\<close>

definition answers :: "('b, 'c, 'l) control_crate \<Rightarrow> nat \<Rightarrow> 'b outer_record \<Rightarrow> bool" where
  "answers crate q r \<longleftrightarrow>
     (case or_type r of ReplyType _ \<Rightarrow> True | ErrorType \<Rightarrow> True | _ \<Rightarrow> False) \<and>
     request_id crate (or_body r) = Some q"

lemma answer_routed:
  assumes "answers crate q r"
  shows "route crate now r s = route_reply r q s" and "or_type r \<noteq> PingType"
  using assms by (auto simp: answers_def route_def parsed_def split: control_type.splits)

lemma answer_filed:
  assumes "dispatcher_ok s" and "answers crate q r" and "q \<in> set (pending_requests s)"
    and "length (replies s) < max_pending_control_replies"
  shows "map_of (replies (receive crate now sent r s)) q = Some r"
proof -
  let ?s1 = "note_inbound now r s"
  have q: "q \<noteq> 0" "q \<notin> set (abandoned_requests s)" "map_of (replies s) q = None"
    using assms(1,3) by (auto simp: dispatcher_ok_def requests_ok_def map_of_eq_None_iff)
  with assms(3,4) have "map_of (replies (snd (route_reply r q ?s1))) q = Some r"
    by (simp add: route_reply_def note_inbound_def settle_request_def Let_def update_conv')
  then show ?thesis
    using answer_routed[OF assms(2)]
    by (auto simp: receive_def Let_def close_with_def stop_reader_def split: option.split prod.split)
qed

text \<open>
  C26. A reply reaches the request it answers. In any run of the control connection, when a reply
  or an error with the number of an open request arrives, then whatever the threads do next short of
  waiting for that request (other requests and replies, events, pings, the end of the connection),
  the wait for it ends at once with that reply: the record itself when type and object are the
  expected ones, an error otherwise. The only condition is that the table of answered requests is
  not full.
\<close>

theorem replies_reach_their_requests:
  assumes "admissible (control_step crate) (possible crate) es (dispatcher_start start display capability)"
    and "run_ops (control_step crate) es (dispatcher_start start display capability) = Some s"
    and "q \<in> set (pending_requests s)" and "length (replies s) < 4096" and "answers crate q r"
    and "admissible (control_step crate) (possible crate) (Receives now sent r # later) s"
    and "run_ops (control_step crate) (Receives now sent r # later) s = Some s'"
    and "list_all (not_waiting_for q) later"
  shows "fst (wait_reply started time q expected obj s') = outcome_of (check_reply expected obj r)"
proof -
  have ok: "dispatcher_ok s" by (rule control.run_invariant[OF fresh_dispatcher_ok assms(1,2)])
  then have "dispatcher_ok (receive crate now sent r s)" by (rule receive_ok)
  moreover have "map_of (replies (receive crate now sent r s)) q = Some r"
    using answer_filed[OF ok assms(5,3)] assms(4) by (simp add: max_pending_control_replies_def)
  ultimately have "map_of (replies s') q = Some r"
    using run_keeps_reply[of _ q r later crate s'] assms(6-8) by simp
  then show ?thesis by (simp add: wait_reply_def)
qed

text \<open>A protocol whose records are their numbers, with a ledger that counts bytes.\<close>

definition example_crate :: "(nat, nat, nat) control_crate" where
  "example_crate =
     \<lparr>request_id = Some, decode_ping = Some, parse_credit = Some,
      parse_need_keyframe = (\<lambda>b. Some \<lparr>ok_source = b, ok_minimum_epoch = 0, ok_reason = ReasonInitial\<rparr>),
      parse_need_full_frame = Some, parse_source_lost = Some, parse_display_changed = Some,
      parse_caps_changed = (\<lambda>b. Some \<lparr>cc_generation = b, cc_reason_mask = 1\<rparr>),
      parse_source_changed = (\<lambda>b. Some (b, b)), parse_scene_changed = Some,
      parse_playback_state = (\<lambda>b. Some \<lparr>op_source = b, op_state = 0, op_eos_state = 0\<rparr>),
      ledger_new = id, ledger_default = 0, ledger_grant = (\<lambda>c l. (True, l + c)),
      ledger_mark_lost = (\<lambda>l. 0), ledger_is_lost = (\<lambda>l. False),
      ledger_can_consume = (\<lambda>n l. n \<le> l), ledger_consume = (\<lambda>n l. (n \<le> l, l - n)),
      buffer_for_rtt = (\<lambda>n rtt. n)\<rparr>"

definition example_dispatcher :: "(nat, nat) control_state" where
  "example_dispatcher = dispatcher_start 0 1 1"

definition example_reply :: "nat outer_record" where
  "example_reply = \<lparr>or_type = ReplyType 2, or_object = 5, or_body = 7\<rparr>"

lemmas run_examples =
  example_crate_def example_dispatcher_def example_reply_def dispatcher_start_def write_request_def
  receive_def note_inbound_def route_def parsed_def route_reply_def settle_request_def heartbeat_def
  probe_not_due_def request_stalled_def in_use_def clock_ok_def close_with_def stop_reader_def
  stop_heart_def note_written_def wait_reply_def abandon_request_def note_wait_def
  max_pending_control_replies_def heartbeat_interval_def control_reply_timeout_def sat_add64_def

theorem replies_reach_their_requests_witness:
  "fst (wait_reply 10 900 7 (ReplyType 2) 5
     (the (run_ops (control_step example_crate)
       [Requests 10 True 7, Receives 20 True example_reply, Requests 30 True 8,
        Receives 40 True \<lparr>or_type = DisplayChangedType, or_object = 0, or_body = 3\<rparr>, ReaderFails ''end'']
       example_dispatcher))) = Answered example_reply"
proof -
  let ?later = "[Requests 30 True 8,
    Receives 40 True \<lparr>or_type = DisplayChangedType, or_object = 0, or_body = 3\<rparr>, ReaderFails ''end'']"
  obtain s where s: "run_ops (control_step example_crate) [Requests 10 True 7] example_dispatcher = Some s"
    "admissible (control_step example_crate) (possible example_crate) [Requests 10 True 7] example_dispatcher"
    "7 \<in> set (pending_requests s)" "length (replies s) < 4096"
    "admissible (control_step example_crate) (possible example_crate)
       (Receives 20 True example_reply # ?later) s"
    by (simp add: run_examples)
  obtain s' where s': "run_ops (control_step example_crate) (Receives 20 True example_reply # ?later) s = Some s'"
    by simp
  have "answers example_crate 7 example_reply" "list_all (not_waiting_for 7) ?later"
    by (simp_all add: answers_def run_examples not_waiting_for_def)
  from replies_reach_their_requests[OF s(2)[unfolded example_dispatcher_def] s(1)[unfolded example_dispatcher_def]
      s(3,4) this(1) s(5) s' this(2), of 10 900 "ReplyType 2" 5]
  have "fst (wait_reply 10 900 7 (ReplyType 2) 5 s') = Answered example_reply"
    by (simp add: outcome_of_def check_reply_def example_reply_def)
  with s(1) s' show ?thesis by simp
qed

section \<open>Replies that come too late\<close>

definition not_answering ::
    "('b, 'c, 'l) control_crate \<Rightarrow> nat \<Rightarrow> ('b, 'c) control_event \<Rightarrow> bool" where
  "not_answering crate q e = (case e of Receives _ _ r \<Rightarrow> \<not> answers crate q r | _ \<Rightarrow> True)"

lemma route_keeps_abandoned:
  assumes "\<not> answers crate q r" and "or_type r \<noteq> PingType" and "q \<in> set (abandoned_requests s)"
  shows "q \<in> set (abandoned_requests (snd (route crate now r s)))"
proof (cases "(\<forall>n. or_type r \<noteq> ReplyType n) \<and> or_type r \<noteq> ErrorType \<and> or_type r \<noteq> PingType")
  case True
  then have "requests_of (snd (route crate now r s)) = requests_of s"
    by (intro route_requests) blast+
  with assms(3) show ?thesis by (simp add: requests_of_def)
next
  case False
  then have t: "(\<exists>n. or_type r = ReplyType n) \<or> or_type r = ErrorType" using assms(2) by blast
  then have "route crate now r s = parsed (request_id crate (or_body r)) (route_reply r) s"
    by (elim disjE exE) (simp_all add: route_def)
  moreover have "request_id crate (or_body r) \<noteq> Some q"
    using assms(1) t by (auto simp: answers_def)
  ultimately show ?thesis using assms(3)
    by (auto simp: parsed_def route_reply_def settle_request_def Let_def split: option.split)
qed

lemma abandoned_cong: "requests_of s' = requests_of s \<Longrightarrow> abandoned_requests s' = abandoned_requests s"
  by (simp add: requests_of_def)

lemmas abandoned_untouched =
  others_untouched(1,3,5,7,9)[THEN abandoned_cong] takes_untouched(1,3,5,7,9,11)[THEN abandoned_cong]

lemma step_keeps_abandoned:
  assumes "q \<in> set (abandoned_requests s)" and "not_answering crate q e"
    and "control_step crate e s = Some s'"
  shows "q \<in> set (abandoned_requests s')"
proof (cases e)
  case (Receives now sent r)
  have n: "abandoned_requests (note_inbound now r s) = abandoned_requests s"
    by (simp add: note_inbound_def)
  have "q \<in> set (abandoned_requests (receive crate now sent r s))"
    using route_keeps_abandoned[of crate q r "note_inbound now r s" now] assms(1,2) n Receives
    by (auto simp: not_answering_def receive_def Let_def close_with_def stop_reader_def note_written_def
        split: option.split prod.split)
  with Receives assms show ?thesis by auto
next
  case (Beats now sent)
  with assms abandoned_cong[OF heartbeat_requests[of now sent s]] show ?thesis by auto
next
  case (Requests now sent body)
  have "abandoned_requests (snd (write_request crate now sent body s)) = abandoned_requests s"
    by (simp add: write_request_def Let_def note_written_def split: option.split)
  with Requests assms show ?thesis by auto
next
  case (WaitsFor started now q' expected obj)
  with assms show ?thesis
    by (auto simp: wait_reply_def note_wait_def abandon_request_def settle_request_def
        Let_def split: option.split)
qed (use assms in \<open>auto simp: abandoned_untouched\<close>)

lemma run_keeps_abandoned:
  "q \<in> set (abandoned_requests s) \<Longrightarrow> list_all (not_answering crate q) es \<Longrightarrow>
   run_ops (control_step crate) es s = Some s' \<Longrightarrow> q \<in> set (abandoned_requests s')"
proof (induction es arbitrary: s)
  case (Cons e es)
  then obtain s1 where "control_step crate e s = Some s1" by (auto split: option.splits)
  with Cons.prems Cons.IH[of s1] step_keeps_abandoned[of q s crate e s1] show ?case by simp
qed simp

text \<open>
  A reply that comes after its wait gave up does no harm. When the wait for a request ends by
  its time limit of five seconds (with room in the table of abandoned requests), then whatever
  happens before the reply arrives, its arrival neither closes the connection nor is handed to
  another request: the connection is as open as it was, and the answered and open requests are the
  same.
\<close>

theorem late_replies_are_dropped:
  assumes "map_of (replies s) q = None" and "closed s = None" and "started + 5000000 < time"
    and "length (abandoned_requests s) < 4096" and "q \<noteq> 0"
    and "run_ops (control_step crate) es (snd (wait_reply started time q expected obj s)) = Some s'"
    and "list_all (not_answering crate q) es" and "answers crate q r"
  shows "closed (receive crate now sent r s') = closed s' \<and>
    replies (receive crate now sent r s') = replies s' \<and>
    pending_requests (receive crate now sent r s') = pending_requests s'"
proof -
  have "q \<in> set (abandoned_requests (snd (wait_reply started time q expected obj s)))"
    using assms(1-4) by (simp add: wait_reply_def control_reply_timeout_def note_wait_def abandon_request_def
        settle_request_def Let_def max_pending_control_replies_def)
  from run_keeps_abandoned[OF this assms(7,6)] have "q \<in> set (abandoned_requests s')" .
  with assms(5) answer_routed[OF assms(8)] show ?thesis
    by (simp add: receive_def Let_def route_reply_def note_inbound_def close_with_def stop_reader_def)
qed

theorem late_replies_are_dropped_witness:
  "closed (receive example_crate 6000000 True example_reply
     (snd (wait_reply 10 5000011 7 (ReplyType 2) 5 (snd (write_request example_crate 10 True 7 example_dispatcher))))) = None"
proof -
  let ?s = "snd (write_request example_crate 10 True 7 example_dispatcher)"
  let ?s' = "snd (wait_reply 10 5000011 7 (ReplyType 2) 5 ?s)"
  have "map_of (replies ?s) 7 = None" "closed ?s = None" "length (abandoned_requests ?s) < 4096"
    "closed ?s' = None" "answers example_crate 7 example_reply"
    by (simp_all add: run_examples answers_def)
  moreover have "run_ops (control_step example_crate) [] ?s' = Some ?s'"
    "list_all (not_answering example_crate 7) []" by simp_all
  ultimately show ?thesis 
    using late_replies_are_dropped[of ?s 7 10 5000011 example_crate "[]" "ReplyType 2" 5 ?s' example_reply] by simp
qed

section \<open>Silent and talking presenters\<close>

text \<open>When the next probe is due, and when a presenter that stays silent has been given up.\<close>

definition probe_due :: "('b, 'l) control_state \<Rightarrow> nat" where
  "probe_due s =
     (case last_probe_sent s of None \<Rightarrow> last_inbound s | Some sent \<Rightarrow> sent) + heartbeat_interval"

definition give_up_time :: "nat \<Rightarrow> ('b, 'l) control_state \<Rightarrow> nat" where
  "give_up_time gap s = probe_due s + (3 - unanswered_probes s) * (heartbeat_interval + gap) + gap"

text \<open>The times the heartbeat thread wakes up, at most \<open>gap\<close> apart.\<close>

fun paced :: "nat \<Rightarrow> nat \<Rightarrow> nat list \<Rightarrow> bool" where
  "paced gap t [] \<longleftrightarrow> True"
| "paced gap t (u # us) \<longleftrightarrow> t \<le> u \<and> u \<le> t + gap \<and> paced gap u us"

definition beat_times :: "('b, 'c) control_event list \<Rightarrow> nat list" where
  "beat_times es = concat (map (\<lambda>e. case e of Beats now _ \<Rightarrow> [now] | _ \<Rightarrow> []) es)"

definition is_inbound :: "('b, 'c) control_event \<Rightarrow> bool" where
  "is_inbound e = (case e of Receives _ _ _ \<Rightarrow> True | _ \<Rightarrow> False)"

definition is_beat :: "('b, 'c) control_event \<Rightarrow> bool" where
  "is_beat e = (case e of Beats _ _ \<Rightarrow> True | _ \<Rightarrow> False)"

text \<open>Once closed, the connection stays closed.\<close>

lemma route_closed: "closed (snd (route crate now r s)) = closed s"
  by (cases "or_type r")
    (auto simp: route_def Let_def parsed_def grant_credit_def unless_mismatch_def lose_source_def
      apply_capability_change_def note_pong_def route_reply_def settle_request_def
      split: option.split prod.split)

lemma step_keeps_closed:
  assumes "closed s \<noteq> None" and "control_step crate e s = Some s'"
  shows "closed s' \<noteq> None"
proof (cases e)
  case (Receives now sent r)
  have "closed (snd (route crate now r (note_inbound now r s))) = closed s"
    by (simp add: route_closed) (simp add: note_inbound_def)
  with assms Receives show ?thesis
    by (auto simp: receive_def Let_def close_with_def stop_reader_def note_written_def note_inbound_def
        split: option.splits prod.splits)
qed (use assms in \<open>auto simp: reader_failed_def close_with_def stop_reader_def heartbeat_def stop_heart_def
    write_request_def Let_def note_written_def wait_reply_def note_wait_def abandon_request_def
    settle_request_def reserve_outer_credit_def register_source_def retire_source_def take_wait_stats_def
    take_keyframes_def take_full_frames_def take_source_losses_def take_playback_states_def
    take_capability_changes_def drop_dispatcher_def split: option.splits if_splits prod.splits\<close>)

lemma route_heart: "heart_runs (snd (route crate now r s)) = heart_runs s"
  by (cases "or_type r")
    (auto simp: route_def Let_def parsed_def grant_credit_def unless_mismatch_def lose_source_def
      apply_capability_change_def note_pong_def route_reply_def settle_request_def
      split: option.split prod.split)

text \<open>The heartbeat thread ends only with the connection.\<close>

lemma step_keeps_heart:
  assumes "control_step crate e s = Some s'" and "heart_runs s" and "closed s' = None"
  shows "heart_runs s'"
proof (cases e)
  case (Receives now sent r)
  have "heart_runs (snd (route crate now r (note_inbound now r s))) = heart_runs s"
    by (simp add: route_heart) (simp add: note_inbound_def)
  with assms Receives show ?thesis
    by (auto simp: receive_def Let_def close_with_def stop_reader_def note_written_def note_inbound_def
        split: option.splits prod.splits if_splits)
qed (use assms in \<open>auto simp: reader_failed_def close_with_def stop_reader_def heartbeat_def stop_heart_def
    write_request_def Let_def note_written_def wait_reply_def note_wait_def abandon_request_def
    settle_request_def reserve_outer_credit_def register_source_def retire_source_def take_wait_stats_def
    take_keyframes_def take_full_frames_def take_source_losses_def take_playback_states_def
    take_capability_changes_def drop_dispatcher_def split: option.splits if_splits prod.splits\<close>)

lemma run_keeps_heart:
  "run_ops (control_step crate) es s = Some s' \<Longrightarrow> closed s = None \<longrightarrow> heart_runs s \<Longrightarrow>
   closed s' = None \<longrightarrow> heart_runs s'"
proof (induction es arbitrary: s)
  case (Cons e es)
  then obtain s1 where s1: "control_step crate e s = Some s1" by (auto split: option.splits)
  then have "closed s1 = None \<longrightarrow> heart_runs s1"
    using Cons.prems(2) step_keeps_heart[OF s1] step_keeps_closed[OF _ s1] by blast
  with Cons.prems(1) Cons.IH[of s1] s1 show ?case by simp
qed simp

lemma run_keeps_closed:
  "closed s \<noteq> None \<Longrightarrow> run_ops (control_step crate) es s = Some s' \<Longrightarrow> closed s' \<noteq> None"
proof (induction es arbitrary: s)
  case (Cons e es)
  then obtain s1 where "control_step crate e s = Some s1" by (auto split: option.splits)
  with Cons.prems Cons.IH[of s1] step_keeps_closed[of s crate e s1] show ?case by simp
qed simp

text \<open>A beat either finds that no probe is due, or sends one, or gives up.\<close>

lemma beat_cases:
  assumes "probes_ok s" and "closed s = None" and "closed (heartbeat now sent s) = None"
  obtains "now < probe_due s" and "probes_of (heartbeat now sent s) = probes_of s"
  | "unanswered_probes s < 3"
    and "probes_of (heartbeat now sent s) = (Some now, Suc (unanswered_probes s), last_inbound s)"
proof (cases "probe_not_due now s")
  case True
  then have h: "heartbeat now sent s = s" using assms(2) by (simp add: heartbeat_def)
  have "now < probe_due s"
  proof (cases "last_probe_sent s")
    case None
    with True show ?thesis by (auto simp: probe_not_due_def probe_due_def heartbeat_interval_def)
  next
    case (Some p)
    with assms(1) have "last_inbound s \<le> p" by (simp add: probes_ok_def)
    with Some True show ?thesis by (auto simp: probe_not_due_def probe_due_def heartbeat_interval_def)
  qed
  with h that(1) show ?thesis by simp
next
  case False
  with assms(2,3) have "unanswered_probes s < 3" "sent"
    by (auto simp: heartbeat_def Let_def close_with_def stop_heart_def split: if_splits)
  moreover from this False assms(2) have
    "probes_of (heartbeat now sent s) = (Some now, Suc (unanswered_probes s), last_inbound s)"
    by (simp add: heartbeat_def Let_def untouched) (simp add: probes_of_def)
  ultimately show ?thesis using that(2) by blast
qed

lemma give_up_cong:
  "probes_of s' = probes_of s \<Longrightarrow> probe_due s' = probe_due s \<and> give_up_time gap s' = give_up_time gap s"
  by (auto simp: probes_of_def probe_due_def give_up_time_def split: option.split)

lemma step_probes:
  "control_step crate e s = Some s' \<Longrightarrow> \<not> is_inbound e \<Longrightarrow> \<not> is_beat e \<Longrightarrow> probes_of s' = probes_of s"
  by (cases e) (auto simp: is_inbound_def is_beat_def untouched write_request_probes wait_reply_probes)

text \<open>The last beat at or after the time to give up finds the connection closed.\<close>

lemma silence_is_noticed:
  assumes "run_ops (control_step crate) es s = Some s'" and "probes_ok s"
    and "list_all (\<lambda>e. \<not> is_inbound e) es" and "admissible (control_step crate) (possible crate) es s"
    and "paced gap t (beat_times es)" and "t \<le> probe_due s"
    and "beat_times es \<noteq> []" and "give_up_time gap s \<le> last (beat_times es)"
    and "closed s = None \<longrightarrow> heart_runs s"
  shows "closed s' \<noteq> None"
  using assms
proof (induction es arbitrary: s t)
  case (Cons e es)
  then obtain s1 where s1: "control_step crate e s = Some s1" by (auto split: option.splits)
  with Cons.prems have run: "run_ops (control_step crate) es s1 = Some s'"
    and adm: "admissible (control_step crate) (possible crate) es s1"
    and quiet: "list_all (\<lambda>e. \<not> is_inbound e) es" "\<not> is_inbound e" by simp_all
  have heart: "closed s1 = None \<longrightarrow> heart_runs s1"
    using step_keeps_heart[OF s1] Cons.prems(9) step_keeps_closed[OF _ s1] by blast
  show ?case
  proof (cases "closed s1 = None")
    case False
    from run_keeps_closed[OF this run] show ?thesis .
  next
    case open1: True
    then have open0: "closed s = None" using step_keeps_closed[OF _ s1] by blast
    show ?thesis
    proof (cases "is_beat e")
      case False
      from step_probes[OF s1 quiet(2) this] have same: "probes_of s1 = probes_of s" .
      have "beat_times (e # es) = beat_times es"
        using False by (auto simp: beat_times_def is_beat_def split: control_event.splits)
      with Cons.prems show ?thesis
        using Cons.IH[OF run _ quiet(1) adm, of t] give_up_cong[OF same, of gap] probes_ok_cong[OF same] heart by simp
    next
      case True
      then obtain now sent where e: "e = Beats now sent" by (auto simp: is_beat_def split: control_event.splits)
      have runs: "heart_runs s" using open0 Cons.prems(9) by blast
      with s1 e have h: "s1 = heartbeat now sent s" by simp
      from e Cons.prems have t: "t \<le> now" "now \<le> t + gap" "paced gap now (beat_times es)" "clock_ok now s"
        by (simp_all add: beat_times_def)
      have last: "last (beat_times (e # es)) = (if beat_times es = [] then now else last (beat_times es))"
        by (simp add: e beat_times_def)
      have ok1: "probes_ok s1" using heartbeat_probes[OF Cons.prems(2) t(4)] h by simp
      from Cons.prems(2) open0 open1[unfolded h] show ?thesis
      proof (cases rule: beat_cases)
        case 1
        from give_up_cong[OF 1(2), of gap] h have same: "probe_due s1 = probe_due s"
          "give_up_time gap s1 = give_up_time gap s" by simp_all
        have "probe_due s \<le> give_up_time gap s" by (simp add: give_up_time_def)
        with 1(1) Cons.prems(8) last have "beat_times es \<noteq> []" by (auto split: if_splits)
        with heart Cons.IH[OF run ok1 quiet(1) adm t(3)] 1(1) same Cons.prems(8) last show ?thesis by simp
      next
        case 2
        from 2(2) h have p1: "last_probe_sent s1 = Some now" "unanswered_probes s1 = Suc (unanswered_probes s)"
          by (simp_all add: probes_of_def)
        have due1: "probe_due s1 = now + heartbeat_interval" by (simp add: probe_due_def p1)
        have "now \<le> probe_due s + gap" using t(2) Cons.prems(6) by simp
        moreover obtain k where k: "3 - unanswered_probes s = Suc k" "3 - Suc (unanswered_probes s) = k"
          using 2(1) by (metis Suc_diff_Suc)
        ultimately have later: "give_up_time gap s1 \<le> give_up_time gap s"
          by (simp add: give_up_time_def due1 p1 k)
        have "now < give_up_time gap s1" by (simp add: give_up_time_def due1 heartbeat_interval_def)
        with later Cons.prems(8) last have "beat_times es \<noteq> []" by (auto split: if_splits)
        with heart Cons.IH[OF run ok1 quiet(1) adm t(3)] due1 later Cons.prems(8) last show ?thesis by simp
      qed
    qed
  qed
qed (simp add: beat_times_def)

text \<open>
  C25. A silent presenter is noticed. When the heartbeat thread wakes up at most \<open>gap\<close> apart and
  nothing more arrives after some record, then whatever the other threads do (issuing requests,
  waiting, writing media), the connection is closed by the first wake-up 60 seconds plus four gaps
  after that record: three probes go unanswered for 15 seconds each, and the fourth finds them so.
\<close>

theorem silent_presenter_is_closed:
  assumes "admissible (control_step crate) (possible crate) es (dispatcher_start start display capability)"
    and "run_ops (control_step crate) es (dispatcher_start start display capability) = Some s"
    and "last_probe_sent s = None"
    and "admissible (control_step crate) (possible crate) later s"
    and "run_ops (control_step crate) later s = Some s'"
    and "list_all (\<lambda>e. \<not> is_inbound e) later"
    and "beat_times later \<noteq> []" and "paced gap (last_inbound s) (beat_times later)"
    and "last_inbound s + 60000000 + 4 * gap \<le> last (beat_times later)"
  shows "closed s' \<noteq> None"
proof -
  have ok: "probes_ok s" using control.run_invariant[OF fresh_dispatcher_ok assms(1,2)] by (simp add: dispatcher_ok_def)
  then have "unanswered_probes s = 0" using assms(3) by (simp add: probes_ok_def)
  then have "give_up_time gap s \<le> last (beat_times later)" "last_inbound s \<le> probe_due s"
    using assms(3,9) by (simp_all add: give_up_time_def probe_due_def heartbeat_interval_def)
  moreover have "closed s = None \<longrightarrow> heart_runs s"
    using run_keeps_heart[OF assms(2)] by (simp add: dispatcher_start_def)
  ultimately show ?thesis by (intro silence_is_noticed[OF assms(5) ok assms(6,4,8) _ assms(7)])
qed

text \<open>A presenter that never says a word, seen by a heartbeat that wakes up every 20 seconds.\<close>

lemma run_total: "\<exists>s'. run_ops (control_step crate) es s = Some s'"
proof (induction es arbitrary: s)
  case (Cons e es)
  then show ?case by (cases e) simp_all
qed simp

definition silent_beats :: "(nat, nat) control_event list" where
  "silent_beats = map (\<lambda>n. Beats (n * 20000000) True) [0..<8]"

theorem silent_presenter_is_closed_witness:
  "closed (the (run_ops (control_step example_crate) silent_beats example_dispatcher)) \<noteq> None"
proof -
  obtain s' where s': "run_ops (control_step example_crate) silent_beats example_dispatcher = Some s'"
    using run_total by blast
  have "admissible (control_step example_crate) (possible example_crate) silent_beats example_dispatcher"
    unfolding silent_beats_def by (simp add: upt_rec run_examples)
  moreover have "beat_times silent_beats = map (\<lambda>n. n * 20000000) [0..<8]"
    by (simp add: beat_times_def silent_beats_def upt_rec)
  moreover have "list_all (\<lambda>e. \<not> is_inbound e) silent_beats"
    by (simp add: silent_beats_def is_inbound_def upt_rec)
  ultimately show ?thesis
    using silent_presenter_is_closed[of example_crate "[]" 0 1 1 example_dispatcher silent_beats s' 20000000] s'
    by (simp add: example_dispatcher_def dispatcher_start_def upt_rec)
qed

text \<open>
  A presenter that talks is not cut off: in any run, the heartbeat gives the connection up only
  at a wake-up at least 45 seconds after the last record of any kind. Replies are not asked for: a
  presenter that keeps sending events while a request stays unanswered is never given up.
\<close>

theorem heartbeat_needs_silence:
  assumes "admissible (control_step crate) (possible crate) es (dispatcher_start start display capability)"
    and "run_ops (control_step crate) es (dispatcher_start start display capability) = Some s"
    and "closed s = None" and "closed (heartbeat now True s) \<noteq> None"
  shows "last_inbound s + 45000000 \<le> now"
proof -
  have ok: "probes_ok s" using control.run_invariant[OF fresh_dispatcher_ok assms(1,2)] by (simp add: dispatcher_ok_def)
  from assms(3,4) have due: "3 \<le> unanswered_probes s" "\<not> probe_not_due now s"
    by (auto simp: heartbeat_def Let_def note_written_def split: if_splits)
  then obtain sent where sent: "last_probe_sent s = Some sent" using ok by (auto simp: probes_ok_def split: option.splits)
  with ok due(1) have "unanswered_probes s = 3" "last_inbound s + 2 * heartbeat_interval \<le> sent"
    by (auto simp: probes_ok_def)
  with sent due(2) show ?thesis by (auto simp: probe_not_due_def heartbeat_interval_def)
qed

theorem heartbeat_needs_silence_witness:
  "\<exists>s. run_ops (control_step example_crate) (take 4 silent_beats) example_dispatcher = Some s \<and>
     closed (heartbeat 80000000 True s) \<noteq> None \<and> last_inbound s + 45000000 \<le> 80000000"
proof -
  obtain s where s: "run_ops (control_step example_crate) (take 4 silent_beats) example_dispatcher = Some s"
    "closed s = None" "closed (heartbeat 80000000 True s) \<noteq> None"
    by (simp add: silent_beats_def upt_rec run_examples)
  have "admissible (control_step example_crate) (possible example_crate) (take 4 silent_beats) example_dispatcher"
    by (simp add: silent_beats_def upt_rec run_examples)
  from heartbeat_needs_silence[OF this[unfolded example_dispatcher_def] s(1)[unfolded example_dispatcher_def] s(2,3)]
  show ?thesis using s by blast
qed

text \<open>
  A request is issued and never answered; the presenter sends an event every 20 seconds. The
  heartbeat sees the stalled request and sends a probe at each of its wake-ups, but every event counts
  as an answer to all of them.
\<close>

lemma events_hide_a_stalled_request:
  "\<exists>s. run_ops (control_step example_crate)
       (Requests 0 True 7 # concat (map (\<lambda>n.
          [Beats (n * 20000000 + 15000000) True, Beats (n * 20000000 + 16000000) True,
           Receives (n * 20000000 + 20000000) True \<lparr>or_type = DisplayChangedType, or_object = 0, or_body = 1\<rparr>])
          [0..<6]))
       example_dispatcher = Some s \<and>
     closed s = None \<and> pending_requests s = [7] \<and> oldest_pending_request s = Some 0 \<and>
     last_inbound s = 120000000"
  by (simp add: upt_rec run_examples)

text \<open>When the write of a request fails, the time it was issued stays as the oldest.\<close>

lemma failed_write_keeps_oldest:
  "let s = snd (write_request example_crate 10 False 7 example_dispatcher)
   in pending_requests s = [] \<and> oldest_pending_request s = Some 10"
  by (simp add: run_examples)

end
