(* ===== verification/Bridge_State.thy ===== *)
theory Bridge_State
  imports Session_Media Media_Ingest Bridge_Control
begin

text \<open>
  The outer bridge (\<open>OuterBridge\<close> in \<open>src/src/bridge.rs\<close>): its state, how it talks to the outer
  presenter, and the transaction that brings the nodes of the outer scene in line with the session's
  projection. The worker thread sends a request, numbered by a counter, and waits for its reply; what
  comes back is the record \<open>outer_world\<close>. The requests the presenter took are the list \<open>br_sent\<close>. A
  hash map is an association list; where the code walks through one, the order is that of the list.
\<close>

section \<open>Sources, requests and state\<close>

text \<open>\<open>'c\<close> is the rest of a codec's configuration.\<close>

datatype 'c bridge_kind =
    BridgeRaster nat nat nat nat "nat option"
  | BridgeImage nat nat nat nat "bytes option"
  | BridgeVideo nat nat nat 'c
  | BridgeAudio "source_key option" nat 'c

record play_request =
  pr_start_pts :: int
  pr_minimum_buffer :: nat
  pr_maximum_latency :: nat
  pr_rate :: int
  pr_late_policy :: nat
  pr_loop_count :: nat
  pr_start_policy :: nat

record source_descriptor =
  ds_role :: nat
  ds_title :: bytes
  ds_content_revision :: nat
  ds_semantic :: nat
  ds_locator :: bytes

record 'c bridge_source =
  bs_key :: source_key
  bs_kind :: "'c bridge_kind"
  bs_capture_policy :: nat
  bs_descriptor :: "source_descriptor option"
  bs_playing :: bool
  bs_play_request :: play_request
  bs_eos_epoch :: "nat option"
  bs_causation :: "bytes option"

record scene_config =
  sc_source :: nat
  sc_context :: nat
  sc_x :: int
  sc_y :: int
  sc_width :: int
  sc_height :: int
  sc_z :: int
  sc_visible :: bool
  sc_clip :: fixed_rect

record context_quotas =
  cq_sources :: nat
  cq_nodes :: nat
  cq_pixels :: nat
  cq_media_bytes :: nat
  cq_connections :: nat

datatype 'c outer_request =
    BeginTransaction nat
  | NodeCreate nat nat scene_config
  | NodeUpdate nat nat scene_config
  | NodeDelete nat nat
  | CommitTransaction nat nat
  | SourceCreate nat "'c bridge_kind" "nat option" "nat option" bool nat "source_descriptor option"
      "bytes option"
  | SetPolicy nat nat
  | UpdateDescriptor nat source_descriptor
  | SourceDestroy nat
  | PlaySource nat play_request "bytes option"
  | PauseSource nat "bytes option"
  | EndSource nat nat "(nat \<times> nat) option" "bytes option"
  | CreateContext nat nat context_quotas
  | DelegateContext nat
  | RevokeContext nat
  | SetOuterObservation
  | Goodbye

record source_ready =
  sr_source :: nat
  sr_media_required :: bool

record media_write =
  mw_delivery :: nat
  mw_type :: record_type
  mw_object :: nat
  mw_body :: bytes

record media_writer =
  wr_queue :: "media_write list"
  wr_alive :: bool
  wr_last_sequence :: nat

record media_completion =
  mc_delivery_id :: nat
  mc_delivered :: bool
  mc_sequence :: nat

record pending_body =
  pb_type :: record_type
  pb_total :: nat
  pb_received :: nat
  pb_cached :: bool
  pb_bytes :: bytes

record raster_chain =
  rc_epoch :: nat
  rc_base :: nat
  rc_damage :: nat
  rc_window_started :: nat

record bridge_features =
  with_decoder_description :: bool
  with_contexts :: bool
  with_capture_policy :: bool
  with_descriptors :: bool
  with_order_barrier :: bool
  with_image_cache :: bool
  with_raster_delta :: bool
  with_raster_zstd :: bool
  with_observability :: bool

type_synonym stable_key = "nat \<times> nat \<times> nat"

record 'c bridge =
  br_root_context :: nat
  br_next_context :: nat
  br_next_request :: nat
  br_next_source :: nat
  br_next_node :: nat
  br_next_transaction :: nat
  br_source_ids :: "(source_key \<times> nat) list"
  br_reverse_ids :: "(nat \<times> source_key) list"
  br_media :: "(source_key \<times> media_writer) list"
  br_retired :: "media_writer list"
  br_pending :: "(source_key \<times> pending_body) list"
  br_completions :: "media_completion list"
  br_source_kinds :: "(source_key \<times> 'c bridge_kind) list"
  br_raster_ids :: "(source_key \<times> nat) list"
  br_raster_chains :: "(source_key \<times> raster_chain) list"
  br_needs_full :: "source_key list"
  br_active :: "(source_key \<times> 'c bridge_source) list"
  br_node_ids :: "(stable_key \<times> nat) list"
  br_applied_revision :: nat
  br_instance :: nat
  br_generations :: "(source_key \<times> nat) list"
  br_features :: bridge_features
  br_cached_images :: "source_key list"
  br_contexts :: "(nat \<times> nat) list"
  br_sent :: "(nat \<times> 'c outer_request) list"

text \<open>A snapshot as the protocol crate's check sees it.\<close>

record validation_source =
  vs_key :: source_key
  vs_is_video :: bool
  vs_linked_video :: "source_key option"

record validation_node =
  vn_owner :: nat
  vn_node :: nat
  vn_fragment :: nat
  vn_source :: source_key
  vn_x :: int
  vn_y :: int
  vn_width :: int
  vn_height :: int
  vn_clip :: "fixed_rect option"

text \<open>
  The other side, by request number: whether the connection takes the request, the reply that comes
  before the deadline, and what of it the crate's parsers read; the display generation at a commit,
  and the buffer the round trip time asks for. \<open>media_opens\<close> is the opening and attaching of the
  media connection of an outer source, \<open>ledger_free\<close> that no credit ledger has its number yet,
  \<open>written_as\<close> the sequence number a media body is sent with, if it gets its credit and is sent.
\<close>

record ('b, 'c) outer_world =
  takes :: "nat \<Rightarrow> bool"
  reply_to :: "nat \<Rightarrow> 'b outer_record option"
  parse_source_ready :: "'b \<Rightarrow> source_ready option"
  parse_context_ready :: "'b \<Rightarrow> (nat \<times> nat) option"
  parse_context_capability :: "'b \<Rightarrow> (nat \<times> nat) option"
  display_at :: "nat \<Rightarrow> nat"
  buffer_at :: "nat \<Rightarrow> nat \<Rightarrow> nat"
  written_as :: "media_write \<Rightarrow> nat option"
  media_opens :: "nat \<Rightarrow> bool"
  ledger_free :: "nat \<Rightarrow> bool"
  validate_scene_snapshot :: "validation_source list \<Rightarrow> validation_node list \<Rightarrow> bool"
  policy_is_valid :: "nat \<Rightarrow> bool"
  descriptor_is_valid :: "source_descriptor \<Rightarrow> bool"
  create_encodes :: "'c bridge_source \<Rightarrow> bool"
  causation_encodes :: "bytes \<Rightarrow> bool"
  undescribed :: "'c \<Rightarrow> 'c"
  media_body_length :: "'c bridge_kind \<Rightarrow> nat option"
  deny_cache :: "nat \<Rightarrow> bool"
  context_encodes :: "context_quotas \<Rightarrow> bool"
  presenter_welcome :: "(bridge_features \<times> nat) option"

section \<open>Snapshots\<close>

definition source_to_validate :: "'c bridge_source \<Rightarrow> validation_source" where
  "source_to_validate s =
     \<lparr>vs_key = bs_key s,
      vs_is_video = (case bs_kind s of BridgeVideo _ _ _ _ \<Rightarrow> True | _ \<Rightarrow> False),
      vs_linked_video = (case bs_kind s of BridgeAudio v _ _ \<Rightarrow> v | _ \<Rightarrow> None)\<rparr>"

definition node_to_validate :: "bridge_node \<Rightarrow> validation_node" where
  "node_to_validate n =
     \<lparr>vn_owner = bn_producer n, vn_node = bn_node n, vn_fragment = bn_fragment n, vn_source = bn_source n,
      vn_x = bn_x n, vn_y = bn_y n, vn_width = bn_width n, vn_height = bn_height n, vn_clip = Some (bn_clip n)\<rparr>"

text \<open>\<open>validate_snapshot\<close>.\<close>

definition scene_is_valid ::
    "('b, 'c) outer_world \<Rightarrow> 'c bridge_source list \<Rightarrow> bridge_node list \<Rightarrow> bool" where
  "scene_is_valid w ss nodes =
     validate_scene_snapshot w (map source_to_validate ss) (map node_to_validate nodes)"

section \<open>Conversation\<close>

type_synonym ('c, 'a) talk = "'c bridge \<Rightarrow> (string + 'a) \<times> 'c bridge"

definition done_with :: "'a \<Rightarrow> ('c, 'a) talk" where
  "done_with v b = (Inr v, b)"

definition give_up :: "string \<Rightarrow> ('c, 'a) talk" where
  "give_up why b = (Inl why, b)"

text \<open>The operator \<open>?\<close>: an error ends the operation where it occurs.\<close>

definition and_then :: "('c, 'a) talk \<Rightarrow> ('a \<Rightarrow> ('c, 'e) talk) \<Rightarrow> ('c, 'e) talk" where
  "and_then m f b = (case m b of (Inl why, b') \<Rightarrow> (Inl why, b') | (Inr v, b') \<Rightarrow> f v b')"

primrec for_each :: "('a \<Rightarrow> ('c, unit) talk) \<Rightarrow> 'a list \<Rightarrow> ('c, unit) talk" where
  "for_each f [] = done_with ()"
| "for_each f (x # xs) = and_then (f x) (\<lambda>_. for_each f xs)"

definition some_or :: "string \<Rightarrow> 'a option \<Rightarrow> ('c, 'a) talk" where
  "some_or why v = (case v of None \<Rightarrow> give_up why | Some x \<Rightarrow> done_with x)"

definition require_that :: "string \<Rightarrow> bool \<Rightarrow> ('c, unit) talk" where
  "require_that why p = (if p then done_with () else give_up why)"

definition state_of :: "('c bridge \<Rightarrow> 'a) \<Rightarrow> ('c, 'a) talk" where
  "state_of f b = (Inr (f b), b)"

definition change_state :: "('c bridge \<Rightarrow> 'c bridge) \<Rightarrow> ('c, unit) talk" where
  "change_state f b = (Inr (), f b)"

text \<open>\<open>checked_add(1)\<close> on a 64-bit counter.\<close>

definition next_id :: "nat \<Rightarrow> nat option" where
  "next_id n = (if n < 18446744073709551615 then Some (n + 1) else None)"

definition take_request_id :: "('c, nat) talk" where
  "take_request_id b =
     (case next_id (br_next_request b) of
        None \<Rightarrow> (Inl ''outer Vivid request ID space exhausted'', b)
      | Some q \<Rightarrow> (Inr q, b\<lparr>br_next_request := q\<rparr>))"

definition write_outer :: "('b, 'c) outer_world \<Rightarrow> nat \<Rightarrow> 'c outer_request \<Rightarrow> ('c, unit) talk" where
  "write_outer w q r b =
     (if takes w q then (Inr (), b\<lparr>br_sent := br_sent b @ [(q, r)]\<rparr>) else (Inl ''write failed'', b))"

definition send_request :: "('b, 'c) outer_world \<Rightarrow> 'c outer_request \<Rightarrow> ('c, nat) talk" where
  "send_request w r =
     and_then take_request_id (\<lambda>q. and_then (write_outer w q r) (\<lambda>_. done_with q))"

text \<open>\<open>wait_reply\<close>, with the test of the reply shared with the control connection.\<close>

definition wait_outer ::
    "('b, 'c) outer_world \<Rightarrow> nat \<Rightarrow> control_type \<Rightarrow> nat \<Rightarrow> ('c, 'b outer_record) talk" where
  "wait_outer w q expected obj b =
     (case reply_to w q of
        None \<Rightarrow> (Inl ''outer reply did not arrive within the deadline'', b)
      | Some r \<Rightarrow> (check_reply expected obj r, b))"

definition wait_for :: "('b, 'c) outer_world \<Rightarrow> nat \<Rightarrow> control_type \<Rightarrow> nat \<Rightarrow> ('c, unit) talk" where
  "wait_for w q expected obj = and_then (wait_outer w q expected obj) (\<lambda>_. done_with ())"

definition ok_type :: control_type where "ok_type = ReplyType 0"
definition presented_type :: control_type where "presented_type = ReplyType 1"
definition source_ready_type :: control_type where "source_ready_type = ReplyType 2"
definition context_ready_type :: control_type where "context_ready_type = ReplyType 3"
definition context_capability_type :: control_type where "context_capability_type = ReplyType 4"

text \<open>A request and its acknowledgement.\<close>

definition ask :: "('b, 'c) outer_world \<Rightarrow> 'c outer_request \<Rightarrow> nat \<Rightarrow> ('c, unit) talk" where
  "ask w r obj = and_then (send_request w r) (\<lambda>q. wait_for w q ok_type obj)"

section \<open>The nodes of the outer scene\<close>

definition stable_key :: "bridge_node \<Rightarrow> stable_key" where
  "stable_key n = (bn_producer n, bn_node n, bn_fragment n)"

definition node_config :: "nat \<Rightarrow> nat \<Rightarrow> bridge_node \<Rightarrow> scene_config" where
  "node_config root source n =
     \<lparr>sc_source = source, sc_context = root, sc_x = bn_x n, sc_y = bn_y n, sc_width = bn_width n,
      sc_height = bn_height n, sc_z = bn_z n, sc_visible = bn_visible n, sc_clip = bn_clip n\<rparr>"

type_synonym node_ids = "(stable_key \<times> nat) list"

text \<open>An id for a node: the one it has, or the next one, which is used up whatever follows.\<close>

definition node_id_for :: "stable_key \<Rightarrow> node_ids \<Rightarrow> ('c, bool \<times> nat \<times> node_ids) talk" where
  "node_id_for k ids b =
     (case map_of ids k of
        Some i \<Rightarrow> (Inr (False, i, ids), b)
      | None \<Rightarrow>
          (case next_id (br_next_node b) of
             None \<Rightarrow> (Inl ''outer Vivid node ID space exhausted'', b)
           | Some i \<Rightarrow> (Inr (True, i, AList.update k i ids), b\<lparr>br_next_node := i\<rparr>)))"

fun put_nodes ::
    "('b, 'c) outer_world \<Rightarrow> nat \<Rightarrow> bridge_node list \<Rightarrow> node_ids \<Rightarrow>
     ('c, node_ids \<times> (nat \<times> nat) list) talk" where
  "put_nodes w txn [] ids = done_with (ids, [])"
| "put_nodes w txn (n # ns) ids =
     and_then (node_id_for (stable_key n) ids) (\<lambda>(new, i, ids').
     and_then (\<lambda>b. some_or ''node source missing'' (map_of (br_source_ids b) (bn_source n)) b) (\<lambda>source.
     and_then (state_of br_root_context) (\<lambda>root.
     and_then (send_request w
        (if new then NodeCreate txn i (node_config root source n)
         else NodeUpdate txn i (node_config root source n))) (\<lambda>q.
     and_then (put_nodes w txn ns ids') (\<lambda>(ids'', sent). done_with (ids'', (q, i) # sent))))))"

fun delete_nodes ::
    "('b, 'c) outer_world \<Rightarrow> nat \<Rightarrow> (stable_key \<times> nat) list \<Rightarrow> node_ids \<Rightarrow>
     ('c, node_ids \<times> (nat \<times> nat) list) talk" where
  "delete_nodes w txn [] ids = done_with (ids, [])"
| "delete_nodes w txn ((k, i) # gone) ids =
     and_then (send_request w (NodeDelete txn i)) (\<lambda>q.
     and_then (delete_nodes w txn gone (AList.delete k ids)) (\<lambda>(ids', sent).
     done_with (ids', (q, i) # sent)))"

definition take_transaction_id :: "('c, nat) talk" where
  "take_transaction_id b =
     (case next_id (br_next_transaction b) of
        None \<Rightarrow> (Inl ''outer Vivid transaction ID space exhausted'', b)
      | Some t \<Rightarrow> (Inr t, b\<lparr>br_next_transaction := t\<rparr>))"

text \<open>\<open>COMMIT_TXN\<close> names the display generation known when it is written.\<close>

definition commit_transaction :: "('b, 'c) outer_world \<Rightarrow> nat \<Rightarrow> ('c, nat) talk" where
  "commit_transaction w txn =
     and_then take_request_id (\<lambda>q.
     and_then (write_outer w q (CommitTransaction txn (display_at w q))) (\<lambda>_. done_with q))"

definition vanished_nodes :: "bridge_node list \<Rightarrow> 'c bridge \<Rightarrow> (stable_key \<times> nat) list" where
  "vanished_nodes nodes b = filter (\<lambda>(k, i). k \<notin> stable_key ` set nodes) (br_node_ids b)"

definition reconcile_nodes :: "('b, 'c) outer_world \<Rightarrow> bridge_node list \<Rightarrow> ('c, unit) talk" where
  "reconcile_nodes w nodes =
     and_then take_transaction_id (\<lambda>txn.
     and_then (send_request w (BeginTransaction txn)) (\<lambda>begin_request.
     and_then (state_of br_node_ids) (\<lambda>known.
     and_then (put_nodes w txn nodes known) (\<lambda>(ids, placed).
     and_then (state_of (vanished_nodes nodes)) (\<lambda>gone.
     and_then (delete_nodes w txn gone ids) (\<lambda>(ids', deleted).
     and_then (commit_transaction w txn) (\<lambda>commit_request.
     and_then (wait_for w begin_request ok_type 0) (\<lambda>_.
     and_then (for_each (\<lambda>(q, i). wait_for w q ok_type i) (placed @ deleted)) (\<lambda>_.
     and_then (wait_for w commit_request presented_type 0) (\<lambda>_.
     change_state (\<lambda>b. b\<lparr>br_node_ids := ids'\<rparr>)))))))))))"

end
