(* ===== verification/Bridge_Sources.thy ===== *)
theory Bridge_Sources
  imports Bridge_State
begin

text \<open>
  The sources of the outer bridge (\<open>src/src/bridge.rs\<close>): creating them with their media connections,
  playing, pausing and ending them, and \<open>reconcile\<close>, which brings the outer session from the snapshot
  it has to the next one; when that fails the session is replaced.
\<close>

section \<open>Media writers\<close>

text \<open>
  A writer thread sends the bodies of one source in order and reports each. It ends at the first body
  it cannot send, and takes the rest of its queue with it.
\<close>

definition media_writer_queue :: nat where "media_writer_queue = 32"

definition new_writer :: media_writer where
  "new_writer = \<lparr>wr_queue = [], wr_alive = True, wr_last_sequence = 1\<rparr>"

definition writer_turn ::
    "('b, 'c) outer_world \<Rightarrow> media_writer \<Rightarrow> media_completion list \<times> media_writer" where
  "writer_turn w v =
     (case wr_queue v of
        [] \<Rightarrow> ([], v)
      | m # ms \<Rightarrow>
          (case written_as w m of
             None \<Rightarrow> ([\<lparr>mc_delivery_id = mw_delivery m, mc_delivered = False, mc_sequence = 0\<rparr>],
                      v\<lparr>wr_queue := [], wr_alive := False\<rparr>)
           | Some n \<Rightarrow> ([\<lparr>mc_delivery_id = mw_delivery m, mc_delivered = True, mc_sequence = n\<rparr>],
                        v\<lparr>wr_queue := ms, wr_last_sequence := n\<rparr>)))"

fun drain_writer ::
    "('b, 'c) outer_world \<Rightarrow> media_write list \<Rightarrow> media_writer \<Rightarrow> media_completion list \<times> media_writer" where
  "drain_writer w [] v = ([], v)"
| "drain_writer w (m # ms) v =
     (case writer_turn w (v\<lparr>wr_queue := m # ms\<rparr>) of
        (done, v') \<Rightarrow>
          if wr_alive v' then (case drain_writer w ms v' of (done', v'') \<Rightarrow> (done @ done', v''))
          else (done, v'))"

definition run_media_writer ::
    "('b, 'c) outer_world \<Rightarrow> source_key \<Rightarrow> 'c bridge \<Rightarrow> 'c bridge" where
  "run_media_writer w k b =
     (case map_of (br_media b) k of
        None \<Rightarrow> b
      | Some v \<Rightarrow>
          (case writer_turn w v of
             (done, v') \<Rightarrow> b\<lparr>br_media := AList.update k v' (br_media b),
                              br_completions := br_completions b @ done\<rparr>))"

text \<open>A barrier is answered behind everything queued, unless the writer ends before it.\<close>

definition await_barrier :: "('b, 'c) outer_world \<Rightarrow> source_key \<Rightarrow> ('c, nat) talk" where
  "await_barrier w k b =
     (case map_of (br_media b) k of
        None \<Rightarrow> (Inl ''ended source media channel missing'', b)
      | Some v \<Rightarrow>
          if \<not> wr_alive v then (Inl ''media writer stopped'', b)
          else (case drain_writer w (wr_queue v) v of
                  (done, v') \<Rightarrow>
                    (if wr_alive v' then Inr (wr_last_sequence v')
                     else Inl ''media writer did not report sequence'',
                     b\<lparr>br_media := AList.update k v' (br_media b),
                       br_completions := br_completions b @ done\<rparr>)))"

section \<open>Creating sources\<close>

definition is_timed_kind :: "'c bridge_kind \<Rightarrow> bool" where
  "is_timed_kind k = (case k of BridgeVideo _ _ _ _ \<Rightarrow> True | BridgeAudio _ _ _ \<Rightarrow> True | _ \<Rightarrow> False)"

definition is_image_kind :: "'c bridge_kind \<Rightarrow> bool" where
  "is_image_kind k = (case k of BridgeImage _ _ _ _ _ \<Rightarrow> True | _ \<Rightarrow> False)"

definition is_raster_kind :: "'c bridge_kind \<Rightarrow> bool" where
  "is_raster_kind k = (case k of BridgeRaster _ _ _ _ _ \<Rightarrow> True | _ \<Rightarrow> False)"

definition linked_video :: "'c bridge_kind \<Rightarrow> source_key option" where
  "linked_video k = (case k of BridgeAudio v _ _ \<Rightarrow> v | _ \<Rightarrow> None)"

text \<open>Videos before the audio that is linked to them.\<close>

definition creation_rank :: "'c bridge_source \<Rightarrow> nat" where
  "creation_rank s =
     (case bs_kind s of BridgeVideo _ _ _ _ \<Rightarrow> 0 | BridgeAudio _ _ _ \<Rightarrow> 2 | _ \<Rightarrow> 1)"

text \<open>What goes into a request to create a source; optional fields only where they were negotiated.\<close>

definition sent_kind :: "('b, 'c) outer_world \<Rightarrow> bridge_features \<Rightarrow> 'c bridge_kind \<Rightarrow> 'c bridge_kind" where
  "sent_kind w fs k =
     (if with_decoder_description fs then k
      else case k of
        BridgeVideo x y n c \<Rightarrow> BridgeVideo x y n (undescribed w c)
      | BridgeAudio v n c \<Rightarrow> BridgeAudio v n (undescribed w c)
      | _ \<Rightarrow> k)"

definition delta_limit :: "bridge_features \<Rightarrow> 'c bridge_kind \<Rightarrow> nat option" where
  "delta_limit fs k =
     (case k of BridgeRaster _ _ _ _ limit \<Rightarrow> if with_raster_delta fs then limit else None | _ \<Rightarrow> None)"

definition looks_in_cache :: "('b, 'c) outer_world \<Rightarrow> bridge_features \<Rightarrow> 'c bridge_source \<Rightarrow> bool" where
  "looks_in_cache w fs s =
     (case bs_kind s of
        BridgeImage _ _ _ _ sha \<Rightarrow>
          with_image_cache fs \<and> sha \<noteq> None \<and> \<not> deny_cache w (bs_capture_policy s)
      | _ \<Rightarrow> False)"

definition create_request ::
    "('b, 'c) outer_world \<Rightarrow> 'c bridge \<Rightarrow> 'c bridge_source \<Rightarrow> nat \<Rightarrow> 'c outer_request" where
  "create_request w b s upstream =
     SourceCreate upstream (sent_kind w (br_features b) (bs_kind s))
       (delta_limit (br_features b) (bs_kind s))
       (Option.bind (linked_video (bs_kind s)) (map_of (br_source_ids b)))
       (looks_in_cache w (br_features b) s) (bs_capture_policy s) (bs_descriptor s) (bs_causation s)"

definition take_source_id :: "source_key \<Rightarrow> ('c, nat) talk" where
  "take_source_id k b =
     (case next_id (br_next_source b) of
        None \<Rightarrow> (Inl ''outer Vivid source ID space exhausted'', b)
      | Some u \<Rightarrow> (Inr u, b\<lparr>br_next_source := u,
                           br_source_ids := AList.update k u (br_source_ids b),
                           br_reverse_ids := AList.update u k (br_reverse_ids b)\<rparr>))"

definition open_source ::
    "('b, 'c) outer_world \<Rightarrow> 'c bridge_source \<Rightarrow> ('c, 'c bridge_source \<times> nat \<times> nat) talk" where
  "open_source w s =
     and_then (take_source_id (bs_key s)) (\<lambda>u.
     and_then take_request_id (\<lambda>q.
     and_then (require_that ''source cannot be encoded'' (create_encodes w s)) (\<lambda>_.
     and_then (state_of (\<lambda>b. create_request w b s u)) (\<lambda>r.
     and_then (write_outer w q r) (\<lambda>_. done_with (s, q, u))))))"

definition count_attachment :: "source_key \<Rightarrow> (source_key \<times> nat) list \<Rightarrow> (source_key \<times> nat) list" where
  "count_attachment k m =
     AList.update k (sat_add64 (case map_of m k of None \<Rightarrow> 0 | Some n \<Rightarrow> n) 1) m"

definition note_created :: "'c bridge_source \<Rightarrow> 'c bridge \<Rightarrow> 'c bridge" where
  "note_created s b =
     b\<lparr>br_source_kinds := AList.update (bs_key s) (bs_kind s) (br_source_kinds b),
       br_generations := count_attachment (bs_key s) (br_generations b)\<rparr>"

definition note_attached :: "'c bridge_source \<Rightarrow> 'c bridge \<Rightarrow> 'c bridge" where
  "note_attached s b =
     b\<lparr>br_media := AList.update (bs_key s) new_writer (br_media b),
       br_cached_images := removeAll (bs_key s) (br_cached_images b),
       br_raster_ids := (if is_raster_kind (bs_kind s) then AList.update (bs_key s) 0 (br_raster_ids b)
                         else br_raster_ids b)\<rparr>"

text \<open>The reply to a creation: a media connection is attached, unless an image was found cached.\<close>

definition attach_source :: "('b, 'c) outer_world \<Rightarrow> 'c bridge_source \<times> nat \<times> nat \<Rightarrow> ('c, unit) talk" where
  "attach_source w created =
     (case created of (s, q, u) \<Rightarrow>
        and_then (wait_outer w q source_ready_type u) (\<lambda>r.
        and_then (some_or ''malformed reply'' (parse_source_ready w (or_body r))) (\<lambda>ready.
        and_then (require_that ''outer SOURCE_READY object/source ID mismatch'' (sr_source ready = u)) (\<lambda>_.
        and_then (change_state (note_created s)) (\<lambda>_.
          if \<not> sr_media_required ready
          then and_then (require_that ''outer presenter returned a cache hit for a non-image source''
                 (is_image_kind (bs_kind s))) (\<lambda>_.
               change_state (\<lambda>b. b\<lparr>br_cached_images := List.insert (bs_key s) (br_cached_images b)\<rparr>))
          else and_then (require_that ''outer source credit ledger already exists'' (ledger_free w u)) (\<lambda>_.
               and_then (require_that ''outer media connection failed'' (media_opens w u)) (\<lambda>_.
               change_state (note_attached s))))))))"

fun open_sources ::
    "('b, 'c) outer_world \<Rightarrow> 'c bridge_source list \<Rightarrow> ('c, ('c bridge_source \<times> nat \<times> nat) list) talk" where
  "open_sources w [] = done_with []"
| "open_sources w (s # ss) =
     and_then (open_source w s) (\<lambda>c. and_then (open_sources w ss) (\<lambda>cs. done_with (c # cs)))"

text \<open>All creations are under way before the first reply is awaited.\<close>

definition create_sources :: "('b, 'c) outer_world \<Rightarrow> 'c bridge_source list \<Rightarrow> ('c, unit) talk" where
  "create_sources w ss =
     and_then (open_sources w (sort_key creation_rank ss)) (\<lambda>created. for_each (attach_source w) created)"

section \<open>Playback\<close>

definition upstream_of :: "source_key \<Rightarrow> ('c, nat) talk" where
  "upstream_of k b = some_or ''playback source missing'' (map_of (br_source_ids b) k) b"

definition caused :: "('b, 'c) outer_world \<Rightarrow> 'c bridge_source \<Rightarrow> ('c, unit) talk" where
  "caused w s =
     require_that ''causation cannot be encoded''
       (case bs_causation s of None \<Rightarrow> True | Some c \<Rightarrow> causation_encodes w c)"

definition send_about ::
    "('b, 'c) outer_world \<Rightarrow> 'c bridge_source \<Rightarrow> nat \<Rightarrow> nat \<Rightarrow> 'c outer_request \<Rightarrow> ('c, unit) talk" where
  "send_about w s q u r =
     and_then (caused w s) (\<lambda>_. and_then (write_outer w q r) (\<lambda>_. wait_for w q ok_type u))"

definition adjusted_play :: "nat \<Rightarrow> play_request \<Rightarrow> play_request" where
  "adjusted_play buffer p =
     p\<lparr>pr_minimum_buffer := buffer, pr_maximum_latency := max (pr_maximum_latency p) buffer\<rparr>"

definition play_source :: "('b, 'c) outer_world \<Rightarrow> 'c bridge_source \<Rightarrow> ('c, unit) talk" where
  "play_source w s =
     (if \<not> is_timed_kind (bs_kind s) then done_with ()
      else and_then (upstream_of (bs_key s)) (\<lambda>u.
           and_then take_request_id (\<lambda>q.
           send_about w s q u (PlaySource u
             (adjusted_play (buffer_at w q (pr_minimum_buffer (bs_play_request s))) (bs_play_request s))
             (bs_causation s)))))"

definition pause_source :: "('b, 'c) outer_world \<Rightarrow> 'c bridge_source \<Rightarrow> ('c, unit) talk" where
  "pause_source w s =
     (if \<not> is_timed_kind (bs_kind s) then done_with ()
      else and_then (upstream_of (bs_key s)) (\<lambda>u.
           and_then take_request_id (\<lambda>q.
           send_about w s q u (PauseSource u (bs_causation s)))))"

text \<open>With an order barrier, the end names the attachment and the last record sent before it.\<close>

definition end_barrier :: "('b, 'c) outer_world \<Rightarrow> source_key \<Rightarrow> ('c, (nat \<times> nat) option) talk" where
  "end_barrier w k =
     and_then (state_of (\<lambda>b. with_order_barrier (br_features b))) (\<lambda>barrier.
       if \<not> barrier then done_with None
       else and_then (await_barrier w k) (\<lambda>final.
            and_then (\<lambda>b. some_or ''ended source attachment generation missing''
              (map_of (br_generations b) k) b) (\<lambda>generation.
            done_with (if 1 < final then Some (generation, final) else None))))"

definition end_source :: "('b, 'c) outer_world \<Rightarrow> 'c bridge_source \<Rightarrow> ('c, unit) talk" where
  "end_source w s =
     (case bs_eos_epoch s of
        None \<Rightarrow> done_with ()
      | Some epoch \<Rightarrow>
          if \<not> is_timed_kind (bs_kind s) then done_with ()
          else and_then (upstream_of (bs_key s)) (\<lambda>u.
               and_then take_request_id (\<lambda>q.
               and_then (end_barrier w (bs_key s)) (\<lambda>barrier.
               send_about w s q u (EndSource u epoch barrier (bs_causation s))))))"

definition playback_changed :: "'c bridge_source \<Rightarrow> 'c bridge_source \<Rightarrow> bool" where
  "playback_changed old s \<longleftrightarrow>
     bs_playing old \<noteq> bs_playing s \<or> bs_playing s \<and> bs_play_request old \<noteq> bs_play_request s"

definition update_one ::
    "('b, 'c) outer_world \<Rightarrow> 'c bridge_source list \<Rightarrow> 'c bridge_source \<Rightarrow> ('c, unit) talk" where
  "update_one w previous s =
     (case List.find (\<lambda>old. bs_key old = bs_key s) previous of
        None \<Rightarrow> done_with ()
      | Some old \<Rightarrow>
          and_then (if \<not> playback_changed old s then done_with ()
                    else if bs_playing s then play_source w s else pause_source w s) (\<lambda>_.
          if bs_eos_epoch old \<noteq> bs_eos_epoch s then end_source w s else done_with ()))"

definition update_playback ::
    "('b, 'c) outer_world \<Rightarrow> 'c bridge_source list \<Rightarrow> 'c bridge_source list \<Rightarrow> ('c, unit) talk" where
  "update_playback w previous current =
     and_then (require_that ''invalid scene'' (scene_is_valid w current [])) (\<lambda>_.
     for_each (update_one w previous) current)"

definition update_nodes :: "('b, 'c) outer_world \<Rightarrow> bridge_node list \<Rightarrow> ('c, unit) talk" where
  "update_nodes w nodes =
     and_then (state_of (\<lambda>b. map snd (br_active b))) (\<lambda>sources.
     and_then (require_that ''invalid scene'' (scene_is_valid w sources nodes)) (\<lambda>_.
     reconcile_nodes w nodes))"

definition pause_rank :: "'c bridge_source \<Rightarrow> nat" where
  "pause_rank s =
     (case bs_kind s of BridgeVideo _ _ _ _ \<Rightarrow> 0 | BridgeAudio _ _ _ \<Rightarrow> 1 | _ \<Rightarrow> 2)"

definition pause_playing_sources ::
    "('b, 'c) outer_world \<Rightarrow> 'c bridge_source list \<Rightarrow> ('c, unit) talk" where
  "pause_playing_sources w ss = for_each (pause_source w) (sort_key pause_rank (filter bs_playing ss))"

end
