(* ===== verification/Bridge_Sync.thy ===== *)
theory Bridge_Sync
  imports Bridge_Sources
begin

text \<open>
  \<open>OuterBridge::reconcile\<close> (\<open>src/src/bridge.rs\<close>): from the sources and nodes the outer session has to
  those of the next snapshot. Sources whose description changed are made anew, with the audio linked
  to them; what is no longer wanted is destroyed last, when no node shows it any more.
\<close>

section \<open>What has to be made anew\<close>

definition changed_sources :: "'c bridge_source list \<Rightarrow> 'c bridge \<Rightarrow> source_key list" where
  "changed_sources ss b =
     remdups (map bs_key (filter (\<lambda>s. map_of (br_source_kinds b) (bs_key s) \<noteq> Some (bs_kind s)) ss))"

definition add_linked :: "'c bridge_source \<Rightarrow> source_key list \<Rightarrow> source_key list" where
  "add_linked s keys =
     (case linked_video (bs_kind s) of
        None \<Rightarrow> keys
      | Some v \<Rightarrow> if v \<in> set keys then List.insert (bs_key s) keys else keys)"

text \<open>A set that did not grow in a pass over the sources is complete.\<close>

lemma add_linked_set: "set keys \<subseteq> set (add_linked s keys)"
  by (auto simp: add_linked_def split: option.split)

lemma add_linked_in: "k \<in> set (add_linked s keys) \<Longrightarrow> k \<in> set keys \<or> k = bs_key s"
  by (auto simp: add_linked_def split: option.splits if_splits)

lemma fold_linked_length: "length keys \<le> length (fold add_linked ss keys)"
proof (induction ss arbitrary: keys)
  case (Cons s ss)
  have "length keys \<le> length (add_linked s keys)"
    by (auto simp: add_linked_def List.insert_def split: option.split)
  also have "\<dots> \<le> length (fold add_linked (s # ss) keys)" using Cons.IH[of "add_linked s keys"] by simp
  finally show ?case .
qed simp

text \<open>Keys are added at the front, and each at most once.\<close>

definition unlisted :: "'c bridge_source list \<Rightarrow> source_key list \<Rightarrow> nat" where
  "unlisted ss keys = length (filter (\<lambda>k. k \<notin> set keys) (remdups (map bs_key ss)))"

lemma fold_linked_set: "set keys \<subseteq> set (fold add_linked ss keys)"
proof (induction ss arbitrary: keys)
  case (Cons s ss)
  from Cons.IH[of "add_linked s keys"] add_linked_set[of keys s] show ?case by auto
qed simp

lemma fold_linked_grows:
  "length (fold add_linked ss keys) \<noteq> length keys \<Longrightarrow>
     \<exists>k\<in>bs_key ` set ss. k \<in> set (fold add_linked ss keys) \<and> k \<notin> set keys"
proof (induction ss arbitrary: keys)
  case (Cons s ss)
  note more = fold_linked_set[of "add_linked s keys" ss]
  show ?case
  proof (cases "add_linked s keys = keys")
    case True
    with Cons show ?thesis by auto
  next
    case False
    then have "bs_key s \<in> set (add_linked s keys)" "bs_key s \<notin> set keys"
      by (auto simp: add_linked_def List.insert_def split: option.splits if_splits)
    with more show ?thesis by auto
  qed
qed simp

lemma unlisted_shrinks:
  assumes "length (fold add_linked ss keys) \<noteq> length keys"
  shows "unlisted ss (fold add_linked ss keys) < unlisted ss keys"
proof -
  from fold_linked_grows[OF assms] obtain k where k: "k \<in> bs_key ` set ss"
    "k \<in> set (fold add_linked ss keys)" "k \<notin> set keys" by blast
  let ?open = "\<lambda>ks. {k \<in> bs_key ` set ss. k \<notin> set ks}"
  have card: "unlisted ss ks = card (?open ks)" for ks
    by (simp add: unlisted_def distinct_card[symmetric] conj_commute)
  have "?open (fold add_linked ss keys) \<subset> ?open keys" using fold_linked_set[of keys ss] k by blast
  then show ?thesis unfolding card by (intro psubset_card_mono) auto
qed

function recreate_closure :: "'c bridge_source list \<Rightarrow> source_key list \<Rightarrow> source_key list" where
  "recreate_closure ss keys =
     (let keys' = fold add_linked ss keys
      in if length keys' = length keys then keys' else recreate_closure ss keys')"
  by pat_completeness auto

termination
  by (relation "measure (\<lambda>(ss, keys). unlisted ss keys)") (auto simp: unlisted_shrinks)

declare recreate_closure.simps [simp del]

section \<open>Contexts of the panes\<close>

definition source_pixels :: "'c bridge_source \<Rightarrow> nat" where
  "source_pixels s =
     (case bs_kind s of
        BridgeRaster x y _ _ _ \<Rightarrow> x * y | BridgeImage _ x y _ _ \<Rightarrow> x * y | BridgeVideo x y _ _ \<Rightarrow> x * y
      | BridgeAudio _ _ _ \<Rightarrow> 0)"

definition media_body_of :: "('b, 'c) outer_world \<Rightarrow> 'c bridge_source \<Rightarrow> nat" where
  "media_body_of w s =
     (case bs_kind s of
        BridgeImage _ _ _ n _ \<Rightarrow> n
      | k \<Rightarrow> (case media_body_length w k of None \<Rightarrow> 18446744073709551615 | Some n \<Rightarrow> n))"

text \<open>A sum that does not fit in 64 bits counts as the largest number.\<close>

definition u64_sum :: "nat list \<Rightarrow> nat" where
  "u64_sum ns = (if sum_list ns \<le> 18446744073709551615 then sum_list ns else 18446744073709551615)"

definition quotas_for ::
    "('b, 'c) outer_world \<Rightarrow> nat \<Rightarrow> 'c bridge_source list \<Rightarrow> bridge_node list \<Rightarrow> context_quotas" where
  "quotas_for w p ss nodes =
     (let own = filter (\<lambda>s. fst (bs_key s) = p) ss; n = max (length own) 1
      in \<lparr>cq_sources = n,
          cq_nodes = max (length (filter (\<lambda>v. bn_producer v = p) nodes)) 1,
          cq_pixels = max (u64_sum (map source_pixels own)) 1,
          cq_media_bytes =
            min 18446744073709551615 (Max (set (4194304 # map (media_body_of w) own)) * n),
          cq_connections = n\<rparr>)"

definition revoke_one :: "('b, 'c) outer_world \<Rightarrow> nat \<Rightarrow> ('c, unit) talk" where
  "revoke_one w p =
     and_then (\<lambda>b. some_or ''removed pane context exists'' (map_of (br_contexts b) p) b) (\<lambda>c.
     and_then (change_state (\<lambda>b. b\<lparr>br_contexts := AList.delete p (br_contexts b)\<rparr>)) (\<lambda>_.
     ask w (RevokeContext c) c))"

definition take_context_id :: "('c, nat) talk" where
  "take_context_id b =
     (case next_id (br_next_context b) of
        None \<Rightarrow> (Inl ''outer Vivid context ID space exhausted'', b)
      | Some c \<Rightarrow> (Inr c, b\<lparr>br_next_context := c\<rparr>))"

text \<open>A reply that carries its own request and context numbers.\<close>

definition wait_correlated ::
    "('b, 'c) outer_world \<Rightarrow> nat \<Rightarrow> control_type \<Rightarrow> nat \<Rightarrow> ('b \<Rightarrow> (nat \<times> nat) option) \<Rightarrow> ('c, unit) talk" where
  "wait_correlated w q expected c parse =
     and_then (wait_outer w q expected c) (\<lambda>r.
     and_then (some_or ''malformed reply'' (parse (or_body r))) (\<lambda>p.
     require_that ''outer context correlation mismatch'' (p = (q, c))))"

definition delegate_one ::
    "('b, 'c) outer_world \<Rightarrow> 'c bridge_source list \<Rightarrow> bridge_node list \<Rightarrow> nat \<Rightarrow> ('c, unit) talk" where
  "delegate_one w ss nodes p =
     and_then (state_of (\<lambda>b. map_of (br_contexts b) p)) (\<lambda>known.
       if known \<noteq> None then done_with ()
       else and_then take_context_id (\<lambda>c.
            and_then take_request_id (\<lambda>q.
            and_then (require_that ''context cannot be encoded'' (context_encodes w (quotas_for w p ss nodes))) (\<lambda>_.
            and_then (state_of br_root_context) (\<lambda>root.
            and_then (write_outer w q (CreateContext c root (quotas_for w p ss nodes))) (\<lambda>_.
            and_then (wait_correlated w q context_ready_type c (parse_context_ready w)) (\<lambda>_.
            and_then (send_request w (DelegateContext c)) (\<lambda>q'.
            and_then (wait_correlated w q' context_capability_type c (parse_context_capability w)) (\<lambda>_.
            change_state (\<lambda>b. b\<lparr>br_contexts := AList.update p c (br_contexts b)\<rparr>))))))))))"

definition sync_pane_contexts ::
    "('b, 'c) outer_world \<Rightarrow> 'c bridge_source list \<Rightarrow> bridge_node list \<Rightarrow> ('c, unit) talk" where
  "sync_pane_contexts w ss nodes =
     and_then (state_of (\<lambda>b. with_contexts (br_features b))) (\<lambda>enabled.
       if \<not> enabled then done_with ()
       else let producers = remdups (map (fst \<circ> bs_key) ss)
            in and_then (state_of (\<lambda>b. filter (\<lambda>p. p \<notin> set producers) (map fst (br_contexts b)))) (\<lambda>gone.
               and_then (for_each (revoke_one w) gone) (\<lambda>_.
               for_each (delegate_one w ss nodes) producers)))"

section \<open>The next snapshot\<close>

text \<open>Bits of a policy may be added, and a descriptor only replaced by a later revision.\<close>

definition policy_kept :: "nat \<Rightarrow> nat \<Rightarrow> bool" where
  "policy_kept old new \<longleftrightarrow> (\<forall>i\<in>set [0..<64]. odd (old div 2 ^ i) \<longrightarrow> odd (new div 2 ^ i))"

definition descriptor_advances :: "source_descriptor option \<Rightarrow> source_descriptor option \<Rightarrow> bool" where
  "descriptor_advances old new =
     (case old of
        None \<Rightarrow> True
      | Some d \<Rightarrow> (case new of None \<Rightarrow> False
                  | Some d' \<Rightarrow> d = d' \<or> ds_content_revision d < ds_content_revision d'))"

definition check_source :: "('b, 'c) outer_world \<Rightarrow> 'c bridge_source \<Rightarrow> ('c, unit) talk" where
  "check_source w s =
     and_then (require_that ''invalid capture policy'' (policy_is_valid w (bs_capture_policy s))) (\<lambda>_.
     and_then (state_of br_features) (\<lambda>fs.
     and_then (case bs_descriptor s of None \<Rightarrow> done_with ()
               | Some d \<Rightarrow> and_then (require_that ''invalid descriptor'' (descriptor_is_valid w d)) (\<lambda>_.
                   require_that ''outer presenter lacks source-descriptor-v1'' (with_descriptors fs))) (\<lambda>_.
     and_then (require_that ''outer presenter lacks source-capture-policy-v1''
               (bs_capture_policy s = 0 \<or> with_capture_policy fs)) (\<lambda>_.
     and_then (state_of (\<lambda>b. map_of (br_active b) (bs_key s))) (\<lambda>previous.
       case previous of
         None \<Rightarrow> done_with ()
       | Some old \<Rightarrow>
           and_then (require_that ''capture policy cannot be relaxed across the bridge''
             (policy_kept (bs_capture_policy old) (bs_capture_policy s))) (\<lambda>_.
           require_that ''descriptor cannot change this way across the bridge''
             (descriptor_advances (bs_descriptor old) (bs_descriptor s))))))))"

definition forget_source ::
    "source_key list \<Rightarrow> source_key \<times> nat \<Rightarrow> 'c bridge \<Rightarrow> 'c bridge" where
  "forget_source requested ku b =
     (case ku of (k, u) \<Rightarrow>
        b\<lparr>br_retired := br_retired b @ (case map_of (br_media b) k of None \<Rightarrow> [] | Some v \<Rightarrow> [v]),
          br_media := AList.delete k (br_media b),
          br_pending := AList.delete k (br_pending b),
          br_raster_ids := AList.delete k (br_raster_ids b),
          br_raster_chains := AList.delete k (br_raster_chains b),
          br_needs_full := removeAll k (br_needs_full b),
          br_cached_images := removeAll k (br_cached_images b),
          br_reverse_ids := AList.delete u (br_reverse_ids b),
          br_source_ids := (if k \<in> set requested then br_source_ids b else AList.delete k (br_source_ids b)),
          br_source_kinds := (if k \<in> set requested then br_source_kinds b
                              else AList.delete k (br_source_kinds b))\<rparr>)"

definition update_policy :: "('b, 'c) outer_world \<Rightarrow> 'c bridge_source \<Rightarrow> ('c, unit) talk" where
  "update_policy w s =
     and_then (state_of (\<lambda>b. map_of (br_active b) (bs_key s))) (\<lambda>previous.
       case previous of
         None \<Rightarrow> done_with ()
       | Some old \<Rightarrow>
           if bs_capture_policy s = bs_capture_policy old then done_with ()
           else and_then (upstream_of (bs_key s)) (\<lambda>u. ask w (SetPolicy u (bs_capture_policy s)) u))"

definition update_descriptor :: "('b, 'c) outer_world \<Rightarrow> 'c bridge_source \<Rightarrow> ('c, unit) talk" where
  "update_descriptor w s =
     and_then (state_of (\<lambda>b. map_of (br_active b) (bs_key s))) (\<lambda>previous.
       case previous of
         None \<Rightarrow> done_with ()
       | Some old \<Rightarrow>
           if bs_descriptor s = bs_descriptor old then done_with ()
           else (case bs_descriptor s of None \<Rightarrow> done_with ()
                 | Some d \<Rightarrow> and_then (upstream_of (bs_key s)) (\<lambda>u. ask w (UpdateDescriptor u d) u)))"

definition destroy_source :: "('b, 'c) outer_world \<Rightarrow> source_key \<times> nat \<Rightarrow> ('c, unit) talk" where
  "destroy_source w ku = ask w (SourceDestroy (snd ku)) (snd ku)"

definition obsolete_sources ::
    "source_key list \<Rightarrow> source_key list \<Rightarrow> 'c bridge \<Rightarrow> (source_key \<times> nat) list" where
  "obsolete_sources requested recreate b =
     filter (\<lambda>(k, u). k \<notin> set requested \<or> k \<in> set recreate) (br_source_ids b)"

text \<open>The second half of \<open>reconcile\<close>, in which the outer presenter is spoken to.\<close>

definition apply_sources ::
    "('b, 'c) outer_world \<Rightarrow> 'c bridge_source list \<Rightarrow> bridge_node list \<Rightarrow> source_key list \<Rightarrow>
     (source_key \<times> nat) list \<Rightarrow> ('c, unit) talk" where
  "apply_sources w ss nodes recreate obsolete =
     (let kept = filter (\<lambda>s. bs_key s \<notin> set recreate) ss;
          made = filter (\<lambda>s. bs_key s \<in> set recreate) ss
      in and_then (create_sources w made) (\<lambda>_.
         and_then (for_each (update_policy w) kept) (\<lambda>_.
         and_then (for_each (update_descriptor w) kept) (\<lambda>_.
         and_then (reconcile_nodes w nodes) (\<lambda>_.
         and_then (state_of (\<lambda>b. map snd (br_active b))) (\<lambda>previous.
         and_then (update_playback w previous ss) (\<lambda>_.
         and_then (for_each (play_source w) (filter bs_playing made)) (\<lambda>_.
         and_then (for_each (end_source w) (filter (\<lambda>s. bs_eos_epoch s \<noteq> None) made)) (\<lambda>_.
         and_then (for_each (destroy_source w) obsolete) (\<lambda>_.
         change_state (\<lambda>b. b\<lparr>br_active :=
           fold (\<lambda>s. AList.update (bs_key s) s) ss []\<rparr>)))))))))))"

definition reconcile ::
    "('b, 'c) outer_world \<Rightarrow> 'c bridge_source list \<Rightarrow> bridge_node list \<Rightarrow> ('c, source_key list) talk" where
  "reconcile w ss nodes =
     and_then (for_each (check_source w) ss) (\<lambda>_.
     and_then (sync_pane_contexts w ss nodes) (\<lambda>_.
     and_then (state_of (\<lambda>b. recreate_closure ss (changed_sources ss b))) (\<lambda>recreate.
     and_then (state_of (obsolete_sources (map bs_key ss) recreate)) (\<lambda>obsolete.
     and_then (change_state (fold (forget_source (map bs_key ss)) obsolete)) (\<lambda>_.
     and_then (apply_sources w ss nodes recreate obsolete) (\<lambda>_. done_with recreate))))))"

section \<open>Sessions\<close>

text \<open>A new connection: the presenter's welcome says what was negotiated and names the root context.\<close>

definition fresh_bridge :: "bridge_features \<Rightarrow> nat \<Rightarrow> 'c bridge" where
  "fresh_bridge fs root =
     \<lparr>br_root_context = root, br_next_context = root, br_next_request = 1, br_next_source = 0,
      br_next_node = 0, br_next_transaction = 0, br_source_ids = [], br_reverse_ids = [],
      br_media = [], br_retired = [], br_pending = [], br_completions = [], br_source_kinds = [],
      br_raster_ids = [], br_raster_chains = [], br_needs_full = [], br_active = [],
      br_node_ids = [], br_applied_revision = 0, br_instance = 1, br_generations = [],
      br_features = fs, br_cached_images = [], br_contexts = [], br_sent = []\<rparr>"

definition observe_session :: "('b, 'c) outer_world \<Rightarrow> ('c, unit) talk" where
  "observe_session w =
     and_then (state_of (\<lambda>b. with_observability (br_features b))) (\<lambda>observed.
       if observed then ask w SetOuterObservation 0 else done_with ())"

definition connect_outer :: "('b, 'c) outer_world \<Rightarrow> string + 'c bridge" where
  "connect_outer w =
     (case presenter_welcome w of
        None \<Rightarrow> Inl ''no outer presenter''
      | Some (fs, root) \<Rightarrow>
          (case observe_session w (fresh_bridge fs root) of
             (Inl why, _) \<Rightarrow> Inl why
           | (Inr _, b) \<Rightarrow> Inr b))"

text \<open>\<open>w\<close> is the connection there is, \<open>w'\<close> the one that replaces it.\<close>

definition replacement ::
    "('b, 'c) outer_world \<Rightarrow> 'c bridge_source list \<Rightarrow> bridge_node list \<Rightarrow> ('c, source_key list) talk" where
  "replacement w' ss nodes b =
     (case connect_outer w' of
        Inl why \<Rightarrow> (Inl why, b)
      | Inr fresh \<Rightarrow>
          (case reconcile w' ss nodes fresh of
             (Inl why, _) \<Rightarrow> (Inl why, b)
           | (Inr recreated, b') \<Rightarrow> (Inr recreated, b'\<lparr>br_instance := sat_add64 (br_instance b) 1\<rparr>)))"

definition replace_session ::
    "('b, 'c) outer_world \<Rightarrow> ('b, 'c) outer_world \<Rightarrow> 'c bridge_source list \<Rightarrow> bridge_node list \<Rightarrow>
     ('c, source_key list) talk" where
  "replace_session w w' ss nodes =
     and_then (require_that ''invalid scene'' (scene_is_valid w ss nodes)) (\<lambda>_.
     and_then (\<lambda>b. (Inr (), snd (pause_playing_sources w (map snd (br_active b)) b))) (\<lambda>_.
     replacement w' ss nodes))"

definition rebuild ::
    "('b, 'c) outer_world \<Rightarrow> ('b, 'c) outer_world \<Rightarrow> 'c bridge_source list \<Rightarrow> bridge_node list \<Rightarrow>
     ('c, source_key list) talk" where
  "rebuild w w' ss nodes =
     and_then (require_that ''invalid scene'' (scene_is_valid w ss nodes)) (\<lambda>_ b.
       (case reconcile w ss nodes b of
          (Inr recreated, b') \<Rightarrow> (Inr recreated, b')
        | (Inl _, b') \<Rightarrow>
            and_then (\<lambda>b. (Inr (), snd (pause_playing_sources w (map snd (br_active b)) b))) (\<lambda>_.
              replacement w' ss nodes) b'))"

definition mark_projection_applied :: "('c, nat) talk" where
  "mark_projection_applied b =
     (let n = sat_add64 (br_applied_revision b) 1 in (Inr n, b\<lparr>br_applied_revision := n\<rparr>))"

definition attachment_generations :: "'c bridge \<Rightarrow> (source_key \<times> nat) list" where
  "attachment_generations b = sort_key fst (br_generations b)"

definition drop_bridge :: "('b, 'c) outer_world \<Rightarrow> 'c bridge \<Rightarrow> 'c bridge" where
  "drop_bridge w b = snd (ask w Goodbye 0 b)"

end
