(* ===== verification/Bridge_Presenter.thy ===== *)
theory Bridge_Presenter
  imports Bridge_Sync
begin

text \<open>
  What the outer bridge makes the outer presenter do. The presenter is specified by what it has to
  refuse: sources and nodes that exist already or do not exist, mutations outside the transaction, nodes
  of missing sources, and the destruction of a source that is still shown. A completed \<open>reconcile\<close>
  sends nothing of the kind, and leaves exactly the sources and nodes of the snapshot.
\<close>

section \<open>The presenter\<close>

record presenter =
  ps_sources :: "nat set"
  ps_scene :: "nat \<rightharpoonup> scene_config"
  ps_draft :: "(nat \<times> (nat \<rightharpoonup> scene_config)) option"
  ps_refused :: bool

definition new_presenter :: presenter where
  "new_presenter = \<lparr>ps_sources = {}, ps_scene = Map.empty, ps_draft = None, ps_refused = False\<rparr>"

definition when_allowed :: "bool \<Rightarrow> (presenter \<Rightarrow> presenter) \<Rightarrow> presenter \<Rightarrow> presenter" where
  "when_allowed ok f p = (if ok then f p else p\<lparr>ps_refused := True\<rparr>)"

definition draft_of :: "nat \<Rightarrow> presenter \<Rightarrow> (nat \<rightharpoonup> scene_config) option" where
  "draft_of t p = (case ps_draft p of None \<Rightarrow> None | Some (t', m) \<Rightarrow> if t' = t then Some m else None)"

definition put_draft :: "nat \<Rightarrow> (nat \<rightharpoonup> scene_config) \<Rightarrow> presenter \<Rightarrow> presenter" where
  "put_draft t m p = p\<lparr>ps_draft := Some (t, m)\<rparr>"

fun present :: "'c outer_request \<Rightarrow> presenter \<Rightarrow> presenter" where
  "present (BeginTransaction t) p = when_allowed (ps_draft p = None) (put_draft t (ps_scene p)) p"
| "present (NodeCreate t i c) p =
     (case draft_of t p of None \<Rightarrow> p\<lparr>ps_refused := True\<rparr>
      | Some m \<Rightarrow> when_allowed (m i = None \<and> sc_source c \<in> ps_sources p) (put_draft t (m(i \<mapsto> c))) p)"
| "present (NodeUpdate t i c) p =
     (case draft_of t p of None \<Rightarrow> p\<lparr>ps_refused := True\<rparr>
      | Some m \<Rightarrow> when_allowed (m i \<noteq> None \<and> sc_source c \<in> ps_sources p) (put_draft t (m(i \<mapsto> c))) p)"
| "present (NodeDelete t i) p =
     (case draft_of t p of None \<Rightarrow> p\<lparr>ps_refused := True\<rparr>
      | Some m \<Rightarrow> when_allowed (m i \<noteq> None) (put_draft t (m(i := None))) p)"
| "present (CommitTransaction t g) p =
     (case draft_of t p of None \<Rightarrow> p\<lparr>ps_refused := True\<rparr>
      | Some m \<Rightarrow> p\<lparr>ps_scene := m, ps_draft := None\<rparr>)"
| "present (SourceCreate u k limit linked cached policy descriptor causation) p =
     when_allowed (u \<notin> ps_sources p \<and> (case linked of None \<Rightarrow> True | Some v \<Rightarrow> v \<in> ps_sources p))
       (\<lambda>p. p\<lparr>ps_sources := insert u (ps_sources p)\<rparr>) p"
| "present (SourceDestroy u) p =
     when_allowed (u \<in> ps_sources p \<and> (\<forall>c\<in>ran (ps_scene p). sc_source c \<noteq> u))
       (\<lambda>p. p\<lparr>ps_sources := ps_sources p - {u}\<rparr>) p"
| "present (SetPolicy u policy) p = when_allowed (u \<in> ps_sources p) id p"
| "present (UpdateDescriptor u d) p = when_allowed (u \<in> ps_sources p) id p"
| "present (PlaySource u r c) p = when_allowed (u \<in> ps_sources p) id p"
| "present (PauseSource u c) p = when_allowed (u \<in> ps_sources p) id p"
| "present (EndSource u e barrier c) p = when_allowed (u \<in> ps_sources p) id p"
| "present _ p = p"

definition presented :: "'c bridge \<Rightarrow> presenter" where
  "presented b = fold (\<lambda>(q, r). present r) (br_sent b) new_presenter"

section \<open>What an operation changes\<close>

text \<open>The part of the bridge the presenter's state has to agree with.\<close>

record 'c view =
  v_ids :: "(source_key \<times> nat) list"
  v_kinds :: "(source_key \<times> 'c bridge_kind) list"
  v_nodes :: node_ids
  v_next_source :: nat
  v_next_node :: nat
  v_root :: nat
  v_presenter :: presenter

definition view :: "'c bridge \<Rightarrow> 'c view" where
  "view b = \<lparr>v_ids = br_source_ids b, v_kinds = br_source_kinds b, v_nodes = br_node_ids b, v_next_source = br_next_source b,
     v_next_node = br_next_node b, v_root = br_root_context b, v_presenter = presented b\<rparr>"

definition told :: "'c outer_request \<Rightarrow> 'c view \<Rightarrow> 'c view" where
  "told r v = v\<lparr>v_presenter := present r (v_presenter v)\<rparr>"

lemma and_then_Inr:
  "and_then m f b = (Inr v, b') \<longleftrightarrow> (\<exists>x b1. m b = (Inr x, b1) \<and> f x b1 = (Inr v, b'))"
  by (auto simp: and_then_def split: prod.splits sum.splits)

lemma simple_Inr:
  "done_with x b = (Inr v, b') \<longleftrightarrow> v = x \<and> b' = b"
  "give_up why b \<noteq> (Inr v, b')"
  "some_or why opt b = (Inr v, b') \<longleftrightarrow> opt = Some v \<and> b' = b"
  "require_that why p b = (Inr u, b') \<longleftrightarrow> p \<and> b' = b"
  "state_of f b = (Inr v, b') \<longleftrightarrow> v = f b \<and> b' = b"
  "change_state g b = (Inr u, b') \<longleftrightarrow> b' = g b"
  by (auto simp: done_with_def give_up_def some_or_def require_that_def state_of_def change_state_def
      split: option.split)

lemma view_simps [simp]:
  "v_ids (view b) = br_source_ids b" "v_kinds (view b) = br_source_kinds b" "v_nodes (view b) = br_node_ids b"
  "v_next_source (view b) = br_next_source b" "v_next_node (view b) = br_next_node b"
  "v_root (view b) = br_root_context b" "v_presenter (view b) = presented b"
  by (simp_all add: view_def)

lemma view_write: "write_outer w q r b = (Inr u, b') \<Longrightarrow> view b' = told r (view b)"
  by (auto simp: write_outer_def view_def told_def presented_def split: if_splits)

lemma view_request_id: "take_request_id b = (Inr q, b') \<Longrightarrow> view b' = view b"
  by (auto simp: take_request_id_def view_def presented_def split: option.splits)

lemma view_send: "send_request w r b = (Inr q, b') \<Longrightarrow> view b' = told r (view b)"
  by (auto simp: send_request_def and_then_Inr simple_Inr dest!: view_request_id view_write)

lemma view_wait:
  "wait_outer w q e obj b = (Inr r, b') \<Longrightarrow> b' = b" "wait_for w q e obj b = (Inr u, b') \<Longrightarrow> b' = b"
  by (auto simp: wait_for_def wait_outer_def and_then_Inr simple_Inr split: option.splits)

lemma view_ask: "ask w r obj b = (Inr u, b') \<Longrightarrow> view b' = told r (view b)"
  by (auto simp: ask_def and_then_Inr dest!: view_send view_wait)

lemma for_each_induct:
  assumes "for_each f xs b = (Inr u, b')" and "P [] b"
    and "\<And>pre x b b' u. P pre b \<Longrightarrow> x \<in> set xs \<Longrightarrow> f x b = (Inr u, b') \<Longrightarrow> P (pre @ [x]) b'"
  shows "P xs b'"
proof -
  have "P (pre @ xs') b'" if "for_each f xs' b = (Inr u, b')" "P pre b" "set xs' \<subseteq> set xs" for xs' pre b
    using that
  proof (induction xs' arbitrary: pre b)
    case Nil
    then show ?case by (simp add: simple_Inr)
  next
    case (Cons x xs')
    then obtain b1 where "f x b = (Inr (), b1)" "for_each f xs' b1 = (Inr u, b')"
      by (auto simp: and_then_Inr)
    with assms(3)[OF Cons.prems(2)] Cons.IH[of b1 "pre @ [x]"] Cons.prems(3) show ?case by simp
  qed
  from this[of xs b "[]"] assms(1,2) show ?thesis by simp
qed

text \<open>An operation that tells the presenter nothing it could refuse and changes nothing else.\<close>

lemma for_each_view:
  assumes "for_each f xs b = (Inr u, b')" and "I (view b)"
    and "\<And>x b b' u. x \<in> set xs \<Longrightarrow> I (view b) \<Longrightarrow> f x b = (Inr u, b') \<Longrightarrow> I (view b')"
  shows "I (view b')"
  using for_each_induct[of f xs b u b' "\<lambda>_ b. I (view b)"] assms by blast

section \<open>Nodes\<close>

text \<open>The ids the bridge has for its nodes are exactly the nodes of the scene, each for one key.\<close>

definition ids_ok :: "node_ids \<Rightarrow> nat \<Rightarrow> bool" where
  "ids_ok ids n \<longleftrightarrow> distinct (map fst ids) \<and> distinct (map snd ids) \<and> (\<forall>i\<in>snd ` set ids. i \<le> n)"

definition drafting :: "nat \<Rightarrow> (nat \<rightharpoonup> scene_config) \<Rightarrow> presenter \<Rightarrow> bool" where
  "drafting t m p \<longleftrightarrow> \<not> ps_refused p \<and> ps_draft p = Some (t, m)"

lemma drafting_of: "drafting t m p \<Longrightarrow> draft_of t p = Some m"
  by (simp add: drafting_def draft_of_def)

lemma ids_ok_fresh: "ids_ok ids n \<Longrightarrow> n < i \<Longrightarrow> i \<notin> snd ` set ids"
  by (fastforce simp: ids_ok_def)

lemma ids_ok_add:
  assumes "ids_ok ids n" and "map_of ids k = None"
  shows "ids_ok (AList.update k (Suc n) ids) (Suc n)"
    and "snd ` set (AList.update k (Suc n) ids) = insert (Suc n) (snd ` set ids)"
proof -
  from assms(2) have "k \<notin> fst ` set ids" by (simp add: map_of_eq_None_iff)
  with assms(1) ids_ok_fresh[OF assms(1), of "Suc n"]
  show "ids_ok (AList.update k (Suc n) ids) (Suc n)"
    and "snd ` set (AList.update k (Suc n) ids) = insert (Suc n) (snd ` set ids)"
    by (auto simp: ids_ok_def update_fresh)
qed

lemma ids_ok_inj:
  "ids_ok ids n \<Longrightarrow> map_of ids k = Some i \<Longrightarrow> map_of ids k' = Some i \<Longrightarrow> k = k'"
  unfolding ids_ok_def by (metis (no_types, lifting) distinct_map fst_conv inj_onD map_of_SomeD snd_conv)

lemma ids_ok_delete:
  assumes "ids_ok ids n" and "map_of ids k = Some i"
  shows "ids_ok (AList.delete k ids) n" and "snd ` set (AList.delete k ids) = snd ` set ids - {i}"
proof -
  have d: "distinct (map fst ids)" "distinct (map snd ids)" using assms(1) by (simp_all add: ids_ok_def)
  have mem: "x \<in> set (AList.delete k ids) \<longleftrightarrow> x \<in> set ids \<and> fst x \<noteq> k" for x
    by (induction ids) auto
  have "distinct (map snd (AList.delete k ids))"
    using d(2) by (auto simp: AList.delete_eq distinct_map intro: inj_on_subset)
  with assms(1) d mem show "ids_ok (AList.delete k ids) n"
    by (auto simp: ids_ok_def distinct_delete)
  show "snd ` set (AList.delete k ids) = snd ` set ids - {i}"
  proof (intro set_eqI iffI)
    fix j assume "j \<in> snd ` set (AList.delete k ids)"
    then obtain k' where k': "(k', j) \<in> set ids" "k' \<noteq> k" using mem by auto
    then have "map_of ids k' = Some j" using d(1) by simp
    with ids_ok_inj[OF assms(1) this, of k] assms(2) k'(2) have "j \<noteq> i" by blast
    with k'(1) show "j \<in> snd ` set ids - {i}" by force
  next
    fix j assume j: "j \<in> snd ` set ids - {i}"
    then obtain k' where k': "(k', j) \<in> set ids" by auto
    then have "map_of ids k' = Some j" using d(1) by simp
    with assms(2) j have "k' \<noteq> k" by auto
    with k' mem[of "(k', j)"] have "(k', j) \<in> set (AList.delete k ids)" by simp
    then show "j \<in> snd ` set (AList.delete k ids)" by (metis imageI snd_conv)
  qed
qed

text \<open>While a transaction is drafted, nothing else changes.\<close>

definition draft_frame :: "'c view \<Rightarrow> 'c view \<Rightarrow> bool" where
  "draft_frame v v' \<longleftrightarrow>
     v_ids v' = v_ids v \<and> v_kinds v' = v_kinds v \<and> v_nodes v' = v_nodes v \<and> v_next_source v' = v_next_source v \<and>
     v_root v' = v_root v \<and> ps_sources (v_presenter v') = ps_sources (v_presenter v) \<and>
     ps_scene (v_presenter v') = ps_scene (v_presenter v) \<and> v_next_node v \<le> v_next_node v'"

lemma draft_frame_trans: "draft_frame v v' \<Longrightarrow> draft_frame v' v'' \<Longrightarrow> draft_frame v v''"
  by (auto simp: draft_frame_def)

text \<open>The draft stands for a table of ids: each id is drafted.\<close>

definition drafted :: "nat \<Rightarrow> node_ids \<Rightarrow> (nat \<rightharpoonup> scene_config) \<Rightarrow> 'c view \<Rightarrow> bool" where
  "drafted t ids m v \<longleftrightarrow>
     drafting t m (v_presenter v) \<and> dom m = snd ` set ids \<and> ids_ok ids (v_next_node v) \<and>
     snd ` set (v_ids v) \<subseteq> ps_sources (v_presenter v)"

lemma drafting_put:
  assumes "drafting t m p" and "sc_source c \<in> ps_sources p"
    and "r = (if m i = None then NodeCreate t i c else NodeUpdate t i c)"
  shows "present r p = put_draft t (m(i \<mapsto> c)) p" and "drafting t (m(i \<mapsto> c)) (put_draft t (m(i \<mapsto> c)) p)"
  using assms drafting_of[OF assms(1)] by (auto simp: when_allowed_def drafting_def put_draft_def)

lemma put_one_node:
  assumes "node_id_for k ids b = (Inr (new, i, ids1), b1)"
    and "map_of (br_source_ids b1) source = Some u"
    and "send_request w (if new then NodeCreate t i c else NodeUpdate t i c) b1 = (Inr q, b2)"
    and "sc_source c = u" and "drafted t ids m (view b)"
  shows "drafted t ids1 (m(i \<mapsto> c)) (view b2)" and "draft_frame (view b) (view b2)"
    and "map_of ids1 = (map_of ids)(k \<mapsto> i)"
    and "map_of ids k = None \<Longrightarrow> br_next_node b < i" and "map_of ids k \<noteq> None \<Longrightarrow> ids1 = ids"
    and "fst ` set ids1 = insert k (fst ` set ids)"
proof -
  let ?v = "view b"
  have ok: "ids_ok ids (br_next_node b)" "dom m = snd ` set ids" "drafting t m (presented b)"
    "snd ` set (br_source_ids b) \<subseteq> ps_sources (presented b)" using assms(5) by (simp_all add: drafted_def)
  have new: "new = (map_of ids k = None)" and b1: "b1 = b \<or> map_of ids k = None \<and> b1 = b\<lparr>br_next_node := i\<rparr>"
    using assms(1) by (auto simp: node_id_for_def split: option.splits)
  have same: "br_source_ids b1 = br_source_ids b" "presented b1 = presented b"
    using b1 by (auto simp: presented_def)
  have "(source, u) \<in> set (br_source_ids b)" using assms(2) same by (simp add: map_of_SomeD)
  with ok(4) have u: "sc_source c \<in> ps_sources (presented b)" using assms(4) by force
  have i: "map_of ids k = None \<Longrightarrow> i = Suc (br_next_node b) \<and> ids1 = AList.update k i ids \<and> br_next_node b1 = i"
    "map_of ids k \<noteq> None \<Longrightarrow> map_of ids k = Some i \<and> ids1 = ids \<and> b1 = b"
    using assms(1) by (auto simp: node_id_for_def next_id_def split: option.splits if_splits)
  have mi: "(m i = None) = new"
  proof (cases "map_of ids k")
    case None
    with ids_ok_fresh[OF ok(1), of i] i(1) ok(2) have "i \<notin> dom m" by simp
    with None new show ?thesis by (simp add: domIff)
  next
    case (Some j)
    then have "map_of ids k = Some i" using i(2) by simp
    then have "i \<in> dom m" using ok(2) map_of_SomeD by force
    with Some new show ?thesis by auto
  qed
  have put: "presented b2 = put_draft t (m(i \<mapsto> c)) (presented b)"
    and drafting: "drafting t (m(i \<mapsto> c)) (put_draft t (m(i \<mapsto> c)) (presented b))"
    using drafting_put[OF ok(3) u, of _ i] view_send[OF assms(3)] mi same
    by (simp_all add: told_def view_def split: if_splits)
  have rest: "br_source_ids b2 = br_source_ids b" "br_source_kinds b2 = br_source_kinds b1" "br_node_ids b2 = br_node_ids b1"
    "br_next_source b2 = br_next_source b1" "br_root_context b2 = br_root_context b1"
    "br_next_node b2 = br_next_node b1"
    using view_send[OF assms(3)] same by (simp_all add: told_def view_def)
  show "map_of ids1 = (map_of ids)(k \<mapsto> i)"
    using i by (cases "map_of ids k") (auto simp: update_conv')
  show "map_of ids k = None \<Longrightarrow> br_next_node b < i" using i(1) by simp
  show "map_of ids k \<noteq> None \<Longrightarrow> ids1 = ids" using i(2) by simp
  show "fst ` set ids1 = insert k (fst ` set ids)"
  proof (cases "map_of ids k")
    case None
    with i(1) show ?thesis by (simp add: dom_update)
  next
    case (Some j)
    then have "ids1 = ids" "(k, i) \<in> set ids" using i(2) by (simp_all add: map_of_SomeD)
    then show ?thesis by force
  qed
  show "draft_frame (view b) (view b2)"
    using rest b1 put i by (auto simp: draft_frame_def put_draft_def)
  have "ids_ok ids1 (br_next_node b2) \<and> snd ` set ids1 = insert i (snd ` set ids)"
  proof (cases "map_of ids k")
    case None
    with i(1) ids_ok_add[OF ok(1) None] rest show ?thesis by simp
  next
    case (Some j)
    then have "map_of ids k = Some i" "ids1 = ids" "b1 = b" using i(2) by simp_all
    then have "i \<in> snd ` set ids" using map_of_SomeD by force
    with ok(1) rest \<open>ids1 = ids\<close> \<open>b1 = b\<close> show ?thesis by (simp add: insert_absorb)
  qed
  with ok drafting put rest show "drafted t ids1 (m(i \<mapsto> c)) (view b2)"
    by (auto simp: drafted_def put_draft_def)
qed

lemma put_nodes_spec:
  assumes "put_nodes w t ns ids b = (Inr (ids', sent), b')" and "drafted t ids m (view b)"
    and "distinct (map stable_key ns)"
  shows "\<exists>m'. drafted t ids' m' (view b') \<and> draft_frame (view b) (view b') \<and>
    fst ` set ids' = fst ` set ids \<union> stable_key ` set ns \<and>
    (\<forall>k i. map_of ids k = Some i \<longrightarrow> map_of ids' k = Some i) \<and>
    (\<forall>k i. map_of ids k = None \<longrightarrow> map_of ids' k = Some i \<longrightarrow> br_next_node b < i) \<and>
    (\<forall>k i. k \<notin> stable_key ` set ns \<longrightarrow> map_of ids k = Some i \<longrightarrow> m' i = m i) \<and>
    (\<forall>n\<in>set ns. \<exists>i u. map_of ids' (stable_key n) = Some i \<and> map_of (br_source_ids b) (bn_source n) = Some u \<and>
       m' i = Some (node_config (br_root_context b) u n))"
  using assms
proof (induction ns arbitrary: ids b m sent)
  case Nil
  then show ?case by (auto simp: simple_Inr draft_frame_def)
next
  case (Cons n ns)
  from Cons.prems(1) obtain new i ids1 b1 u q b2 sent' where
    id: "node_id_for (stable_key n) ids b = (Inr (new, i, ids1), b1)" and
    source: "map_of (br_source_ids b1) (bn_source n) = Some u" and
    send: "send_request w (if new then NodeCreate t i (node_config (br_root_context b1) u n)
      else NodeUpdate t i (node_config (br_root_context b1) u n)) b1 = (Inr q, b2)" and
    rest: "put_nodes w t ns ids1 b2 = (Inr (ids', sent'), b')"
    by (auto simp: and_then_Inr simple_Inr)
  let ?c = "node_config (br_root_context b) u n"
  have b1: "br_root_context b1 = br_root_context b" "br_source_ids b1 = br_source_ids b"
    using id by (auto simp: node_id_for_def split: option.splits)
  note one = put_one_node[OF id source send[unfolded b1(1)] _ Cons.prems(2)]
  have c: "sc_source ?c = u" by (simp add: node_config_def)
  note one = one[OF c]
  from Cons.IH[OF rest one(1)] Cons.prems(3) obtain m' where m':
    "drafted t ids' m' (view b')" "draft_frame (view b2) (view b')"
    "fst ` set ids' = fst ` set ids1 \<union> stable_key ` set ns"
    "\<forall>k i. map_of ids1 k = Some i \<longrightarrow> map_of ids' k = Some i"
    "\<forall>k i. map_of ids1 k = None \<longrightarrow> map_of ids' k = Some i \<longrightarrow> br_next_node b2 < i"
    "\<forall>k j. k \<notin> stable_key ` set ns \<longrightarrow> map_of ids1 k = Some j \<longrightarrow> m' j = (m(i \<mapsto> ?c)) j"
    "\<forall>n\<in>set ns. \<exists>j u. map_of ids' (stable_key n) = Some j \<and> map_of (br_source_ids b2) (bn_source n) = Some u \<and>
       m' j = Some (node_config (br_root_context b2) u n)"
    by auto
  have b2: "br_source_ids b2 = br_source_ids b" "br_root_context b2 = br_root_context b"
    "br_next_node b \<le> br_next_node b2" using one(2) by (simp_all add: draft_frame_def)
  have here: "map_of ids1 (stable_key n) = Some i" using one(3) by simp
  have keep: "map_of ids' k = Some j" if "map_of ids k = Some j" for k j
  proof -
    have "map_of ids1 k = Some j" using that one(5) by (cases "map_of ids (stable_key n)") (auto simp: one(3))
    with m'(4) show ?thesis by blast
  qed
  have fresh: "br_next_node b < j" if "map_of ids k = None" "map_of ids' k = Some j" for k j
  proof (cases "k = stable_key n")
    case True
    with that here m'(4) one(4) show ?thesis by auto
  next
    case False
    with that have "map_of ids1 k = None" by (simp add: one(3))
    with that m'(5) b2(3) show ?thesis by (meson order_le_less_trans)
  qed
  have ok: "ids_ok ids1 (br_next_node b2)" using one(1) by (simp add: drafted_def)
  have others: "m' j = m j" if "k \<notin> stable_key ` set (n # ns)" "map_of ids k = Some j" for k j
  proof -
    have "map_of ids1 k = Some j" using that by (auto simp: one(3))
    moreover from this have "j \<noteq> i" using ids_ok_inj[OF ok here, of k] that(1) by auto
    ultimately show ?thesis using m'(6)[rule_format, of k j] that(1) by simp
  qed
  have first: "m' i = Some ?c" using m'(6)[rule_format, of "stable_key n" i] here Cons.prems(3) by simp
  have nodes: "\<exists>j u. map_of ids' (stable_key n') = Some j \<and> map_of (br_source_ids b) (bn_source n') = Some u \<and>
      m' j = Some (node_config (br_root_context b) u n')" if "n' \<in> set (n # ns)" for n'
  proof (cases "n' = n")
    case True
    from here m'(4) have "map_of ids' (stable_key n) = Some i" by blast
    with True first source b1(2) show ?thesis by auto
  next
    case False
    with that m'(7) b2 show ?thesis by auto
  qed
  have keys: "fst ` set ids' = fst ` set ids \<union> stable_key ` set (n # ns)" using m'(3) one(6) by auto
  show ?case
  proof (intro exI[of _ m'] conjI allI impI ballI)
    show "drafted t ids' m' (view b')" by (rule m'(1))
    show "draft_frame (view b) (view b')" by (rule draft_frame_trans[OF one(2) m'(2)])
    show "fst ` set ids' = fst ` set ids \<union> stable_key ` set (n # ns)" by (rule keys)
  qed (use keep fresh others nodes in blast)+
qed

lemma delete_nodes_spec:
  assumes "delete_nodes w t gone ids b = (Inr (ids', sent), b')" and "drafted t ids m (view b)"
    and "\<forall>(k, i)\<in>set gone. map_of ids k = Some i" and "distinct (map fst gone)"
  shows "\<exists>m'. drafted t ids' m' (view b') \<and> draft_frame (view b) (view b') \<and>
    fst ` set ids' = fst ` set ids - fst ` set gone \<and>
    (\<forall>k. k \<notin> fst ` set gone \<longrightarrow> map_of ids' k = map_of ids k) \<and>
    (\<forall>i. i \<notin> snd ` set gone \<longrightarrow> m' i = m i)"
  using assms
proof (induction gone arbitrary: ids b m sent)
  case Nil
  then show ?case by (auto simp: simple_Inr draft_frame_def)
next
  case (Cons g gone)
  obtain k i where g: "g = (k, i)" by (cases g)
  from Cons.prems(1) g obtain q b1 sent' where
    send: "send_request w (NodeDelete t i) b = (Inr q, b1)" and
    rest: "delete_nodes w t gone (AList.delete k ids) b1 = (Inr (ids', sent'), b')"
    by (auto simp: and_then_Inr simple_Inr)
  have d: "drafting t m (presented b)" "dom m = snd ` set ids" "ids_ok ids (br_next_node b)"
    "snd ` set (br_source_ids b) \<subseteq> ps_sources (presented b)" using Cons.prems(2) by (simp_all add: drafted_def)
  have k: "map_of ids k = Some i" using Cons.prems(3) g by auto
  then have "i \<in> dom m" using d(2) map_of_SomeD by force
  then have told: "view b1 = (view b)\<lparr>v_presenter := put_draft t (m(i := None)) (presented b)\<rparr>"
    using view_send[OF send] drafting_of[OF d(1)] by (auto simp: told_def when_allowed_def)
  have b1: "br_source_ids b1 = br_source_ids b" "br_source_kinds b1 = br_source_kinds b"
    "br_node_ids b1 = br_node_ids b"
    "br_next_source b1 = br_next_source b" "br_next_node b1 = br_next_node b"
    "br_root_context b1 = br_root_context b" "presented b1 = put_draft t (m(i := None)) (presented b)"
    using arg_cong[OF told, of v_ids] arg_cong[OF told, of v_kinds] arg_cong[OF told, of v_nodes] arg_cong[OF told, of v_next_source]
      arg_cong[OF told, of v_next_node] arg_cong[OF told, of v_root] arg_cong[OF told, of v_presenter]
    by simp_all
  have drafted: "drafted t (AList.delete k ids) (m(i := None)) (view b1)"
    using d ids_ok_delete[OF d(3) k] b1 by (auto simp: drafted_def drafting_def put_draft_def)
  have gone: "\<forall>(k', i')\<in>set gone. map_of (AList.delete k ids) k' = Some i'"
  proof (intro ballI, clarify)
    fix k' i' assume "(k', i') \<in> set gone"
    with Cons.prems(3,4) g have "map_of ids k' = Some i'" "k' \<noteq> k" by force+
    then show "map_of (AList.delete k ids) k' = Some i'" by (simp add: delete_conv')
  qed
  have "distinct (map fst gone)" using Cons.prems(4) by simp
  from Cons.IH[OF rest drafted gone this]
  obtain m' where m': "drafted t ids' m' (view b')" "draft_frame (view b1) (view b')"
    "fst ` set ids' = fst ` set (AList.delete k ids) - fst ` set gone"
    "\<forall>k'. k' \<notin> fst ` set gone \<longrightarrow> map_of ids' k' = map_of (AList.delete k ids) k'"
    "\<forall>j. j \<notin> snd ` set gone \<longrightarrow> m' j = (m(i := None)) j"
    by blast
  have "fst ` set (AList.delete k ids) = fst ` set ids - {k}" by (induction ids) auto
  moreover have "draft_frame (view b) (view b1)" using b1 by (simp add: draft_frame_def put_draft_def)
  ultimately show ?case using m' g draft_frame_trans[of "view b" "view b1" "view b'"]
    by (intro exI[of _ m']) (auto simp: delete_conv')
qed

section \<open>A transaction\<close>

text \<open>Bridge and presenter agree, between two operations.\<close>

definition presenter_ok :: "'c view \<Rightarrow> bool" where
  "presenter_ok v \<longleftrightarrow>
     \<not> ps_refused (v_presenter v) \<and> ps_draft (v_presenter v) = None \<and>
     dom (ps_scene (v_presenter v)) = snd ` set (v_nodes v) \<and> ids_ok (v_nodes v) (v_next_node v) \<and>
     (\<forall>c\<in>ran (ps_scene (v_presenter v)). sc_source c \<in> ps_sources (v_presenter v)) \<and>
     snd ` set (v_ids v) \<subseteq> ps_sources (v_presenter v) \<and> distinct (map fst (v_ids v)) \<and>
     (\<forall>u\<in>ps_sources (v_presenter v). u \<le> v_next_source v)"

text \<open>The scene is the given nodes, each with its geometry and the outer source of its source.\<close>

definition scene_is :: "bridge_node list \<Rightarrow> 'c view \<Rightarrow> bool" where
  "scene_is nodes v \<longleftrightarrow>
     fst ` set (v_nodes v) = stable_key ` set nodes \<and>
     (\<forall>n\<in>set nodes. \<exists>i u. map_of (v_nodes v) (stable_key n) = Some i \<and>
        map_of (v_ids v) (bn_source n) = Some u \<and>
        ps_scene (v_presenter v) i = Some (node_config (v_root v) u n))"

lemma reconcile_nodes_parts:
  fixes b :: "'c bridge"
  assumes "reconcile_nodes w nodes b = (Inr u, b')"
  obtains t q b1 ids placed b2 ids' deleted b3 g where
    "view b1 = told (BeginTransaction t) (view b)"
    and "put_nodes w t nodes (br_node_ids b1) b1 = (Inr (ids, placed), b2)"
    and "delete_nodes w t (vanished_nodes nodes b2) ids b2 = (Inr (ids', deleted), b3)"
    and "view b' = (told (CommitTransaction t g) (view b3))\<lparr>v_nodes := ids'\<rparr>"
proof -
  from assms obtain t b0 q b1 ids placed b2 ids' deleted b3 qc b4 where
    t: "take_transaction_id b = (Inr t, b0)" and
    opened: "send_request w (BeginTransaction t) b0 = (Inr q, b1)" and
    put: "put_nodes w t nodes (br_node_ids b1) b1 = (Inr (ids, placed), b2)" and
    delete: "delete_nodes w t (vanished_nodes nodes b2) ids b2 = (Inr (ids', deleted), b3)" and
    commit: "commit_transaction w t b3 = (Inr qc, b4)" and
    waits: "for_each (\<lambda>(q, i). wait_for w q ok_type i) (placed @ deleted) b4 = (Inr (), b4) \<and>
      b' = b4\<lparr>br_node_ids := ids'\<rparr>"
  proof -
    have same: "b'' = b4" if "for_each (\<lambda>(q, i). wait_for w q ok_type i) xs b4 = (Inr u, b'')" for xs b4 b'' u
      using for_each_induct[OF that, of "\<lambda>_ b. b = b4"] by (auto dest!: view_wait split: prod.splits)
    show ?thesis
      using assms that unfolding reconcile_nodes_def
      by (clarsimp simp: and_then_Inr simple_Inr dest!: view_wait(2)) (blast dest: same)
  qed
  have v0: "view b0 = view b"
    using t by (auto simp: take_transaction_id_def view_def presented_def split: option.splits)
  have "view b4 = told (CommitTransaction t (display_at w qc)) (view b3)"
    using commit by (auto simp: commit_transaction_def and_then_Inr simple_Inr dest!: view_write view_request_id)
  moreover have "view b' = (view b4)\<lparr>v_nodes := ids'\<rparr>" using waits by (simp add: view_def presented_def)
  ultimately show ?thesis using that view_send[OF opened] v0 put delete by auto
qed

lemma set_after_removal: "G = K - N \<Longrightarrow> K \<union> N - G = N" for G :: "'x set"
  by blast

lemma reconcile_nodes_spec:
  fixes b :: "'c bridge"
  assumes "reconcile_nodes w nodes b = (Inr u, b')" and "presenter_ok (view b)"
    and "distinct (map stable_key nodes)"
  shows "presenter_ok (view b')" and "scene_is nodes (view b')"
    and "br_source_ids b' = br_source_ids b" and "br_source_kinds b' = br_source_kinds b"
    and "br_next_source b' = br_next_source b" and "br_root_context b' = br_root_context b" and "ps_sources (presented b') = ps_sources (presented b)"
    and "\<forall>c\<in>ran (ps_scene (presented b')). sc_source c \<in> snd ` set (br_source_ids b)"
    and "map_of (br_node_ids b) k = Some i \<Longrightarrow> k \<in> stable_key ` set nodes \<Longrightarrow> map_of (br_node_ids b') k = Some i"
    and "map_of (br_node_ids b) k = None \<Longrightarrow> map_of (br_node_ids b') k = Some i \<Longrightarrow> br_next_node b < i"
proof -
  from assms(1) obtain t b1 ids placed b2 ids' deleted b3 g where
    b1: "view b1 = told (BeginTransaction t) (view b)" and
    put: "put_nodes w t nodes (br_node_ids b1) b1 = (Inr (ids, placed), b2)" and
    delete: "delete_nodes w t (vanished_nodes nodes b2) ids b2 = (Inr (ids', deleted), b3)" and
    b': "view b' = (told (CommitTransaction t g) (view b3))\<lparr>v_nodes := ids'\<rparr>"
    by (rule reconcile_nodes_parts)
  let ?p = "presented b" and ?known = "br_node_ids b"
  have rest: "\<not> ps_refused ?p" "ps_draft ?p = None" "dom (ps_scene ?p) = snd ` set ?known"
    "ids_ok ?known (br_next_node b)" "snd ` set (br_source_ids b) \<subseteq> ps_sources ?p"
    "distinct (map fst (br_source_ids b))" "\<forall>u\<in>ps_sources ?p. u \<le> br_next_source b"
    using assms(2) by (simp_all add: presenter_ok_def)
  have v1: "view b1 = (view b)\<lparr>v_presenter := put_draft t (ps_scene ?p) ?p\<rparr>"
    using b1 rest(2) by (simp add: told_def when_allowed_def)
  note f1 = arg_cong[OF v1, of v_ids] arg_cong[OF v1, of v_nodes] arg_cong[OF v1, of v_next_source]
    arg_cong[OF v1, of v_next_node] arg_cong[OF v1, of v_root] arg_cong[OF v1, of v_presenter]
    arg_cong[OF v1, of v_kinds]
  have "drafted t ?known (ps_scene ?p) (view b1)"
    using rest f1 by (simp add: drafted_def drafting_def put_draft_def)
  from put_nodes_spec[OF put[unfolded f1(2)[simplified]] this assms(3)] obtain m where
    m: "drafted t ids m (view b2)" "draft_frame (view b1) (view b2)"
      "fst ` set ids = fst ` set ?known \<union> stable_key ` set nodes"
      "\<forall>k i. map_of ?known k = Some i \<longrightarrow> map_of ids k = Some i"
      "\<forall>k i. map_of ?known k = None \<longrightarrow> map_of ids k = Some i \<longrightarrow> br_next_node b1 < i"
      "\<forall>n\<in>set nodes. \<exists>i u. map_of ids (stable_key n) = Some i \<and>
         map_of (br_source_ids b1) (bn_source n) = Some u \<and> m i = Some (node_config (br_root_context b1) u n)"
    by blast
  let ?gone = "vanished_nodes nodes b2"
  have known2: "br_node_ids b2 = ?known" using m(2) f1(2) by (simp add: draft_frame_def)
  have dk: "distinct (map fst ?known)" using rest(4) by (simp add: ids_ok_def)
  then have "distinct (map fst ?gone)" unfolding vanished_nodes_def known2 by (rule distinct_map_filter)
  moreover have gone: "\<forall>(k, i)\<in>set ?gone. map_of ids k = Some i"
    using m(4) dk by (auto simp: vanished_nodes_def known2)
  ultimately obtain m' where
    m': "drafted t ids' m' (view b3)" "draft_frame (view b2) (view b3)"
      "fst ` set ids' = fst ` set ids - fst ` set ?gone"
      "\<forall>k. k \<notin> fst ` set ?gone \<longrightarrow> map_of ids' k = map_of ids k"
      "\<forall>i. i \<notin> snd ` set ?gone \<longrightarrow> m' i = m i"
    using delete_nodes_spec[OF delete m(1)] by blast
  have frame: "draft_frame (view b1) (view b3)" by (rule draft_frame_trans[OF m(2) m'(2)])
  have "fst ` set ?gone = fst ` set ?known - stable_key ` set nodes"
    by (force simp: vanished_nodes_def known2)
  then have keys: "fst ` set ids' = stable_key ` set nodes" unfolding m'(3) m(3) by (rule set_after_removal)
  have kept: "k \<notin> fst ` set ?gone" if "k \<in> stable_key ` set nodes" for k
  proof
    assume "k \<in> fst ` set ?gone"
    then obtain i where "(k, i) \<in> set ?gone" by auto
    with that show False by (simp add: vanished_nodes_def)
  qed
  have drafting: "drafting t m' (presented b3)" using m'(1) by (simp add: drafted_def)
  have v': "view b' = (view b3)\<lparr>v_presenter := (presented b3)\<lparr>ps_scene := m', ps_draft := None\<rparr>, v_nodes := ids'\<rparr>"
    using b' drafting_of[OF drafting] by (simp add: told_def)
  note f' = arg_cong[OF v', of v_ids] arg_cong[OF v', of v_nodes] arg_cong[OF v', of v_next_source]
    arg_cong[OF v', of v_next_node] arg_cong[OF v', of v_root] arg_cong[OF v', of v_presenter]
    arg_cong[OF v', of v_kinds]
  have same: "br_source_ids b' = br_source_ids b" "br_next_source b' = br_next_source b"
    "br_root_context b' = br_root_context b" "ps_sources (presented b') = ps_sources ?p"
    "ps_scene (presented b') = m'" "br_node_ids b' = ids'" "br_next_node b' = br_next_node b3"
    "br_source_kinds b' = br_source_kinds b"
    using frame f1 f' by (simp_all add: draft_frame_def put_draft_def)
  have idsok: "ids_ok ids' (br_next_node b3)" "dom m' = snd ` set ids'" using m'(1) by (simp_all add: drafted_def)
  have shown: "\<exists>i u. map_of ids' (stable_key n) = Some i \<and> map_of (br_source_ids b) (bn_source n) = Some u \<and>
      m' i = Some (node_config (br_root_context b) u n)" if "n \<in> set nodes" for n
  proof -
    from m(6) that f1 obtain i u where iu: "map_of ids (stable_key n) = Some i"
      "map_of (br_source_ids b) (bn_source n) = Some u" "m i = Some (node_config (br_root_context b) u n)"
      by auto
    have "i \<notin> snd ` set ?gone"
    proof
      assume "i \<in> snd ` set ?gone"
      then obtain k where k: "(k, i) \<in> set ?gone" by auto
      with gone have "map_of ids k = Some i" by blast
      moreover have "ids_ok ids (br_next_node b2)" using m(1) by (simp add: drafted_def)
      ultimately have "k = stable_key n" using ids_ok_inj iu(1) by blast
      with k kept[of k] that show False by force
    qed
    moreover have "map_of ids' (stable_key n) = Some i" using m'(4)[rule_format, OF kept] iu(1) that by simp
    ultimately show ?thesis using iu m'(5) by auto
  qed
  show scene: "scene_is nodes (view b')" unfolding scene_is_def using keys shown same by simp
  show from_ids: "\<forall>c\<in>ran (ps_scene (presented b')). sc_source c \<in> snd ` set (br_source_ids b)"
  proof
    fix c assume "c \<in> ran (ps_scene (presented b'))"
    then obtain i where i: "m' i = Some c" unfolding same by (auto simp: ran_def)
    then have "i \<in> snd ` set ids'" using idsok(2) by auto
    then obtain k where k: "(k, i) \<in> set ids'" by auto
    then have "k \<in> stable_key ` set nodes" using keys by force
    then obtain n where n: "n \<in> set nodes" "k = stable_key n" by auto
    with shown[OF n(1)] k idsok(1) obtain u where u: "map_of (br_source_ids b) (bn_source n) = Some u"
      "m' i = Some (node_config (br_root_context b) u n)" by (auto simp: ids_ok_def)
    with i have "sc_source c = u" by (auto simp: node_config_def)
    with u(1) show "sc_source c \<in> snd ` set (br_source_ids b)" using map_of_SomeD by force
  qed
  show "presenter_ok (view b')"
    unfolding presenter_ok_def
    using from_ids rest(5-7) same idsok drafting f'(6) by (auto simp: drafting_def)
  show "br_source_ids b' = br_source_ids b" "br_source_kinds b' = br_source_kinds b"
    "br_next_source b' = br_next_source b"
    "br_root_context b' = br_root_context b" "ps_sources (presented b') = ps_sources ?p" by (rule same)+
  show "map_of (br_node_ids b') k = Some i" if "map_of ?known k = Some i" "k \<in> stable_key ` set nodes"
    using that m(4)[rule_format, of k i] m'(4)[rule_format, OF kept, of k] same(6) by simp
  show "br_next_node b < i" if "map_of ?known k = None" "map_of (br_node_ids b') k = Some i"
  proof -
    have "k \<in> fst ` set ids'" using that(2) same(6) map_of_SomeD by force
    then have "map_of ids k = Some i"
      using that(2) same(6) m'(4)[rule_format, OF kept, of k] keys by simp
    from m(5)[rule_format, OF that(1) this] f1(4) show ?thesis by simp
  qed
qed

end
