(* ===== verification/Bridge_Reconcile.thy ===== *)
theory Bridge_Reconcile
  imports Bridge_Presenter
begin

text \<open>
  A completed \<open>reconcile\<close> of the outer bridge, step by step: what each part tells the presenter, and the
  agreement of bridge, presenter and snapshot at the end.
\<close>

section \<open>What leaves the presenter alone\<close>

lemma told_context [simp]:
  "told SetOuterObservation v = v" "told (RevokeContext c) v = v" "told (CreateContext c root q) v = v" "told (DelegateContext c) v = v"
  by (simp_all add: told_def)

lemma told_allowed:
  assumes "u \<in> ps_sources (v_presenter v)"
  shows "told (SetPolicy u policy) v = v" "told (UpdateDescriptor u d) v = v"
    "told (PlaySource u r c) v = v" "told (PauseSource u c) v = v" "told (EndSource u e bar c) v = v"
  using assms by (simp_all add: told_def when_allowed_def)

lemma check_source_same: "check_source w s b = (Inr u, b') \<Longrightarrow> b' = b"
  by (auto simp: check_source_def and_then_Inr simple_Inr split: option.splits)

lemma revoke_view: "revoke_one w p b = (Inr u, b') \<Longrightarrow> view b' = view b"
  by (auto simp: revoke_one_def and_then_Inr simple_Inr view_def presented_def dest!: view_ask)

lemma correlated_same: "wait_correlated w q e c parse b = (Inr u, b') \<Longrightarrow> b' = b"
  by (auto simp: wait_correlated_def and_then_Inr simple_Inr dest!: view_wait)

lemma view_contexts [simp]: "view (b\<lparr>br_contexts := m\<rparr>) = view b" "view (b\<lparr>br_next_context := n\<rparr>) = view b"
  by (simp_all add: view_def presented_def)

lemma context_id_view: "take_context_id b = (Inr c, b') \<Longrightarrow> view b' = view b"
  by (auto simp: take_context_id_def split: option.splits)

lemma delegate_view: "delegate_one w ss nodes p b = (Inr u, b') \<Longrightarrow> view b' = view b"
  by (auto simp: delegate_one_def and_then_Inr simple_Inr split: if_splits
      dest!: context_id_view view_request_id view_write view_send correlated_same)

lemma contexts_view: "sync_pane_contexts w ss nodes b = (Inr u, b') \<Longrightarrow> view b' = view b"
  by (auto simp: sync_pane_contexts_def and_then_Inr simple_Inr Let_def split: if_splits
      dest!: for_each_view[where I = "\<lambda>v. v = view b", OF _ refl] for_each_view[where I = "\<lambda>v. v = view _", OF _ refl]
        revoke_view delegate_view)

lemma upstream_Inr: "upstream_of k b = (Inr u, b') \<longleftrightarrow> map_of (br_source_ids b) k = Some u \<and> b' = b"
  by (simp add: upstream_of_def simple_Inr)

lemma ids_live:
  assumes "presenter_ok (view b)" and "map_of (br_source_ids b) k = Some u"
  shows "u \<in> ps_sources (presented b)"
proof -
  from map_of_SomeD[OF assms(2)] have "u \<in> snd ` set (br_source_ids b)" by (metis imageI snd_conv)
  with assms(1) show ?thesis by (auto simp: presenter_ok_def)
qed

lemma told_live:
  assumes "presenter_ok (view b)" and "map_of (br_source_ids b) k = Some u"
  shows "told (SetPolicy u policy) (view b) = view b" "told (UpdateDescriptor u d) (view b) = view b"
    "told (PlaySource u r c) (view b) = view b" "told (PauseSource u c) (view b) = view b"
    "told (EndSource u e bar c) (view b) = view b"
  using ids_live[OF assms] by (simp_all add: told_allowed)

lemma send_about_view: "send_about w s q u r b = (Inr x, b') \<Longrightarrow> view b' = told r (view b)"
  by (auto simp: send_about_def caused_def and_then_Inr simple_Inr dest!: view_write view_wait)

lemma barrier_view: "end_barrier w k b = (Inr v, b') \<Longrightarrow> view b' = view b"
  by (auto simp: end_barrier_def await_barrier_def and_then_Inr simple_Inr view_def presented_def
      split: if_splits option.splits prod.splits)

lemma playback_views:
  assumes "presenter_ok (view b)"
  shows "play_source w s b = (Inr u, b') \<Longrightarrow> view b' = view b"
    and "pause_source w s b = (Inr u, b') \<Longrightarrow> view b' = view b"
    and "end_source w s b = (Inr u, b') \<Longrightarrow> view b' = view b"
proof -
  show "view b' = view b" if played: "play_source w s b = (Inr u, b')"
  proof (cases "is_timed_kind (bs_kind s)")
    case True
    with played obtain x q b1 r where x: "map_of (br_source_ids b) (bs_key s) = Some x"
      "take_request_id b = (Inr q, b1)" "send_about w s q x (PlaySource x r (bs_causation s)) b1 = (Inr u, b')"
      by (auto simp: play_source_def and_then_Inr upstream_Inr)
    from send_about_view[OF x(3)] view_request_id[OF x(2)] told_live[OF assms x(1)] show ?thesis by simp
  qed (use played in \<open>simp add: play_source_def simple_Inr\<close>)
  show "view b' = view b" if paused: "pause_source w s b = (Inr u, b')"
  proof (cases "is_timed_kind (bs_kind s)")
    case True
    with paused obtain x q b1 where x: "map_of (br_source_ids b) (bs_key s) = Some x"
      "take_request_id b = (Inr q, b1)" "send_about w s q x (PauseSource x (bs_causation s)) b1 = (Inr u, b')"
      by (auto simp: pause_source_def and_then_Inr upstream_Inr)
    from send_about_view[OF x(3)] view_request_id[OF x(2)] told_live[OF assms x(1)] show ?thesis by simp
  qed (use paused in \<open>simp add: pause_source_def simple_Inr\<close>)
  show "view b' = view b" if ended: "end_source w s b = (Inr u, b')"
  proof (cases "\<exists>e. bs_eos_epoch s = Some e \<and> is_timed_kind (bs_kind s)")
    case True
    with ended obtain e x q b1 bar b2 where e: "map_of (br_source_ids b) (bs_key s) = Some x"
      "take_request_id b = (Inr q, b1)" "end_barrier w (bs_key s) b1 = (Inr bar, b2)"
      "send_about w s q x (EndSource x e bar (bs_causation s)) b2 = (Inr u, b')"
      by (auto simp: end_source_def and_then_Inr upstream_Inr)
    from send_about_view[OF e(4)] barrier_view[OF e(3)] view_request_id[OF e(2)] told_live[OF assms e(1)]
    show ?thesis by simp
  next
    case False
    with ended show ?thesis by (auto simp: end_source_def simple_Inr split: option.splits if_splits)
  qed
qed

lemma update_one_view:
  assumes "presenter_ok (view b)" and "update_one w previous s b = (Inr u, b')"
  shows "view b' = view b"
proof (cases "List.find (\<lambda>old. bs_key old = bs_key s) previous")
  case None
  with assms(2) show ?thesis by (simp add: update_one_def simple_Inr)
next
  case (Some old)
  with assms(2) obtain b1 where b1:
    "(if \<not> playback_changed old s then done_with () else if bs_playing s then play_source w s
      else pause_source w s) b = (Inr (), b1)"
    "(if bs_eos_epoch old \<noteq> bs_eos_epoch s then end_source w s else done_with ()) b1 = (Inr u, b')"
    by (auto simp: update_one_def and_then_Inr)
  have v1: "view b1 = view b"
    using b1(1) playback_views(1,2)[OF assms(1)] by (auto simp: simple_Inr split: if_splits)
  with assms(1) have "presenter_ok (view b1)" by simp
  from b1(2) playback_views(3)[OF this] v1 show ?thesis by (auto simp: simple_Inr split: if_splits)
qed

lemma each_view:
  assumes "presenter_ok (view b)" and "for_each f xs b = (Inr u, b')"
    and "\<And>x b b' u. x \<in> set xs \<Longrightarrow> presenter_ok (view b) \<Longrightarrow> f x b = (Inr u, b') \<Longrightarrow> view b' = view b"
  shows "view b' = view b"
  by (rule for_each_view[OF assms(2), of "\<lambda>v. v = view b"]) (use assms(1,3) in metis)+

lemma update_playback_view:
  assumes "presenter_ok (view b)" and "update_playback w previous ss b = (Inr u, b')"
  shows "view b' = view b"
proof -
  from assms(2) have "for_each (update_one w previous) ss b = (Inr u, b')"
    by (auto simp: update_playback_def and_then_Inr simple_Inr)
  from each_view[OF assms(1) this] update_one_view show ?thesis by blast
qed

lemma update_views:
  assumes "presenter_ok (view b)"
  shows "update_policy w s b = (Inr u, b') \<Longrightarrow> view b' = view b"
    and "update_descriptor w s b = (Inr u, b') \<Longrightarrow> view b' = view b"
proof -
  show "view b' = view b" if told_so: "update_policy w s b = (Inr u, b')"
  proof -
    consider "b' = b" | x where "map_of (br_source_ids b) (bs_key s) = Some x"
      "ask w (SetPolicy x (bs_capture_policy s)) x b = (Inr u, b')"
      using told_so by (auto simp: update_policy_def and_then_Inr simple_Inr upstream_Inr split: option.splits if_splits)
    then show ?thesis by cases (auto dest!: view_ask simp: told_live[OF assms])
  qed
  show "view b' = view b" if told_so: "update_descriptor w s b = (Inr u, b')"
  proof -
    consider "b' = b" | x d where "map_of (br_source_ids b) (bs_key s) = Some x"
      "ask w (UpdateDescriptor x d) x b = (Inr u, b')"
      using told_so by (auto simp: update_descriptor_def and_then_Inr simple_Inr upstream_Inr split: option.splits if_splits)
    then show ?thesis by cases (auto dest!: view_ask simp: told_live[OF assms])
  qed
qed

section \<open>Creating and destroying\<close>

lemma view_created [simp]:
  "view (note_created s b) = (view b)\<lparr>v_kinds := AList.update (bs_key s) (bs_kind s) (br_source_kinds b)\<rparr>"
  "view (note_attached s b) = view b" "view (b\<lparr>br_cached_images := c\<rparr>) = view b"
  by (simp_all add: view_def presented_def note_created_def note_attached_def)

lemma attach_view:
  assumes "attach_source w (s, q, x) b = (Inr u, b')"
  shows "view b' = (view b)\<lparr>v_kinds := AList.update (bs_key s) (bs_kind s) (br_source_kinds b)\<rparr>"
proof -
  consider "b' = note_attached s (note_created s b)"
    | c where "b' = (note_created s b)\<lparr>br_cached_images := c\<rparr>"
    using assms by (auto simp: attach_source_def and_then_Inr simple_Inr split: if_splits dest!: view_wait)
  then show ?thesis by cases simp_all
qed

lemma destroy_view: "destroy_source w (k, x) b = (Inr u, b') \<Longrightarrow> view b' = told (SourceDestroy x) (view b)"
  by (auto simp: destroy_source_def dest!: view_ask)

text \<open>Only \<open>ps_sources\<close> shrinks, as long as nothing shown goes.\<close>

lemma destroy_all:
  assumes "for_each (destroy_source w) obs b = (Inr u, b')" and "\<not> ps_refused (presented b)"
    and "snd ` set obs \<subseteq> ps_sources (presented b)" and "distinct (map snd obs)"
    and "\<forall>c\<in>ran (ps_scene (presented b)). sc_source c \<notin> snd ` set obs"
  shows "view b' = (view b)\<lparr>v_presenter := (presented b)\<lparr>ps_sources := ps_sources (presented b) - snd ` set obs\<rparr>\<rparr>"
  using assms
proof (induction obs arbitrary: b)
  case Nil
  then show ?case by (simp add: simple_Inr)
next
  case (Cons g obs)
  obtain k x where g: "g = (k, x)" by (cases g)
  with Cons.prems(1) obtain b1 where b1: "destroy_source w (k, x) b = (Inr (), b1)"
    "for_each (destroy_source w) obs b1 = (Inr u, b')" by (auto simp: and_then_Inr)
  have v1: "view b1 = (view b)\<lparr>v_presenter := (presented b)\<lparr>ps_sources := ps_sources (presented b) - {x}\<rparr>\<rparr>"
    using destroy_view[OF b1(1)] Cons.prems(3,5) g by (simp add: told_def when_allowed_def)
  have p1: "presented b1 = (presented b)\<lparr>ps_sources := ps_sources (presented b) - {x}\<rparr>"
    using arg_cong[OF v1, of v_presenter] by simp
  have x: "x \<notin> snd ` set obs" using Cons.prems(4) g by simp
  have "view b' = (view b1)\<lparr>v_presenter := (presented b1)\<lparr>ps_sources := ps_sources (presented b1) - snd ` set obs\<rparr>\<rparr>"
    by (rule Cons.IH[OF b1(2)]) (use Cons.prems(2-5) g p1 x in auto)
  then show ?case using v1 p1 g by (simp add: set_diff_eq)
qed

lemma snd_update: "snd ` set (AList.update k x m) \<subseteq> insert x (snd ` set m)"
  by (induction m) auto

lemma open_one:
  assumes "open_source w s b = (Inr c, b')" and "presenter_ok (view b)"
    and "linked_video (bs_kind s) \<noteq> Some (bs_key s)"
  shows "view b' = (view b)\<lparr>v_ids := AList.update (bs_key s) (Suc (br_next_source b)) (br_source_ids b),
      v_next_source := Suc (br_next_source b),
      v_presenter := (presented b)\<lparr>ps_sources := insert (Suc (br_next_source b)) (ps_sources (presented b))\<rparr>\<rparr>"
    and "presenter_ok (view b')" and "fst c = s" and "snd (snd c) = Suc (br_next_source b)"
proof -
  let ?x = "Suc (br_next_source b)" and ?p = "presented b"
  let ?ids = "AList.update (bs_key s) ?x (br_source_ids b)"
  have ok: "snd ` set (br_source_ids b) \<subseteq> ps_sources ?p" "\<forall>u\<in>ps_sources ?p. u \<le> br_next_source b"
    "\<not> ps_refused ?p" "distinct (map fst (br_source_ids b))"
    using assms(2) by (simp_all add: presenter_ok_def)
  from assms(1) obtain b1 b2 q where b1: "take_source_id (bs_key s) b = (Inr ?x, b1)"
    "take_request_id b1 = (Inr q, b2)" "write_outer w q (create_request w b2 s ?x) b2 = (Inr (), b')"
    "c = (s, q, ?x)"
    by (auto simp: open_source_def and_then_Inr simple_Inr take_source_id_def next_id_def
        split: option.splits if_splits)
  have v1: "view b1 = (view b)\<lparr>v_ids := ?ids, v_next_source := ?x\<rparr>"
    using b1(1) by (auto simp: take_source_id_def next_id_def view_def presented_def split: if_splits)
  have v2: "view b2 = (view b)\<lparr>v_ids := ?ids, v_next_source := ?x\<rparr>" using v1 view_request_id[OF b1(2)] by simp
  have ids2: "br_source_ids b2 = ?ids" using arg_cong[OF v2, of v_ids] by simp
  have linked: "y \<in> ps_sources ?p" if "linked_video (bs_kind s) = Some v" "map_of ?ids v = Some y" for v y
  proof -
    from that assms(3) have "map_of (br_source_ids b) v = Some y" by (auto simp: update_conv' split: if_splits)
    with ids_live[OF assms(2)] show ?thesis by blast
  qed
  have link: "case Option.bind (linked_video (bs_kind s)) (map_of ?ids) of None \<Rightarrow> True | Some y \<Rightarrow> y \<in> ps_sources ?p"
  proof (cases "linked_video (bs_kind s)")
    case (Some v)
    then show ?thesis using linked[OF Some] by (cases "map_of ?ids v") auto
  qed simp
  have new: "?x \<notin> ps_sources ?p" using ok(2) by fastforce
  have "told (create_request w b2 s ?x) (view b2) = (view b)\<lparr>v_ids := ?ids, v_next_source := ?x,
      v_presenter := ?p\<lparr>ps_sources := insert ?x (ps_sources ?p)\<rparr>\<rparr>"
    using new link by (simp add: create_request_def told_def v2 when_allowed_def ids2)
  with view_write[OF b1(3)] show v: "view b' = (view b)\<lparr>v_ids := ?ids, v_next_source := ?x,
      v_presenter := ?p\<lparr>ps_sources := insert ?x (ps_sources ?p)\<rparr>\<rparr>" by simp
  show "presenter_ok (view b')"
    using assms(2) snd_update[of "bs_key s" ?x "br_source_ids b"] ok unfolding v presenter_ok_def
    by (auto simp: distinct_update le_Suc_eq)
  show "fst c = s" "snd (snd c) = ?x" using b1(4) by simp_all
qed

definition opened :: "'c bridge_source list \<Rightarrow> 'c bridge \<Rightarrow> 'c bridge \<Rightarrow> bool" where
  "opened ss b b' \<longleftrightarrow>
     (let n = br_next_source b; m = br_next_source b + length ss
      in \<exists>ids. view b' = (view b)\<lparr>v_ids := ids, v_next_source := m,
           v_presenter := (presented b)\<lparr>ps_sources := ps_sources (presented b) \<union> {n<..m}\<rparr>\<rparr> \<and>
         presenter_ok (view b') \<and>
         (\<forall>k. k \<notin> bs_key ` set ss \<longrightarrow> map_of ids k = map_of (br_source_ids b) k) \<and>
         (\<forall>k\<in>bs_key ` set ss. map_of ids k \<noteq> None) \<and>
         (\<lambda>k. the (map_of ids k)) ` bs_key ` set ss = {n<..m})"

lemma open_all:
  assumes "open_sources w ss b = (Inr cs, b')" and "presenter_ok (view b)" and "distinct (map bs_key ss)"
    and "\<forall>s\<in>set ss. linked_video (bs_kind s) \<noteq> Some (bs_key s)"
  shows "opened ss b b' \<and> map fst cs = ss"
  using assms
proof (induction ss arbitrary: b cs)
  case Nil
  then have "opened [] b b'"
    unfolding opened_def Let_def by (intro exI[of _ "br_source_ids b"]) (auto simp: simple_Inr view_def)
  with Nil show ?case by (simp add: simple_Inr)
next
  case (Cons s ss)
  from Cons.prems(1) obtain c b1 cs' where one: "open_source w s b = (Inr c, b1)"
    "open_sources w ss b1 = (Inr cs', b')" "cs = c # cs'" by (auto simp: and_then_Inr simple_Inr)
  let ?n = "br_next_source b" and ?k = "bs_key s"
  have self: "linked_video (bs_kind s) \<noteq> Some (bs_key s)" using Cons.prems(4) by simp
  note v1 = open_one(1)[OF one(1) Cons.prems(2) self]
  have b1: "br_next_source b1 = Suc ?n" "br_source_ids b1 = AList.update ?k (Suc ?n) (br_source_ids b)"
    "presented b1 = (presented b)\<lparr>ps_sources := insert (Suc ?n) (ps_sources (presented b))\<rparr>"
    using arg_cong[OF v1, of v_next_source] arg_cong[OF v1, of v_ids] arg_cong[OF v1, of v_presenter] by simp_all
  from Cons.IH[OF one(2) open_one(2)[OF one(1) Cons.prems(2) self]] Cons.prems(3,4)
  have IH: "opened ss b1 b'" "map fst cs' = ss" by simp_all
  from IH(1) obtain ids where ids:
    "view b' = (view b1)\<lparr>v_ids := ids, v_next_source := Suc ?n + length ss,
       v_presenter := (presented b1)\<lparr>ps_sources := ps_sources (presented b1) \<union> {Suc ?n<..Suc ?n + length ss}\<rparr>\<rparr>"
    "presenter_ok (view b')"
    "\<forall>k. k \<notin> bs_key ` set ss \<longrightarrow> map_of ids k = map_of (br_source_ids b1) k"
    "\<forall>k\<in>bs_key ` set ss. map_of ids k \<noteq> None"
    "(\<lambda>k. the (map_of ids k)) ` bs_key ` set ss = {Suc ?n<..Suc ?n + length ss}"
    unfolding opened_def Let_def b1(1) by blast
  have set_eq: "insert (Suc ?n) {Suc ?n<..Suc ?n + length ss} = {?n<..?n + length (s # ss)}" by auto
  have k: "?k \<notin> bs_key ` set ss" using Cons.prems(3) by simp
  then have here: "map_of ids ?k = Some (Suc ?n)" using ids(3)[rule_format, OF k] b1(2) by (simp add: update_conv')
  have "view b' = (view b)\<lparr>v_ids := ids, v_next_source := ?n + length (s # ss),
      v_presenter := (presented b)\<lparr>ps_sources := ps_sources (presented b) \<union> {?n<..?n + length (s # ss)}\<rparr>\<rparr>"
    unfolding ids(1) set_eq[symmetric] v1 b1(3) by simp
  moreover have "map_of ids k = map_of (br_source_ids b) k" if "k \<notin> bs_key ` set (s # ss)" for k
    using that ids(3)[rule_format, of k] b1(2) by (simp add: update_conv')
  moreover have "\<forall>k\<in>bs_key ` set (s # ss). map_of ids k \<noteq> None" using here ids(4) by auto
  moreover have "(\<lambda>k. the (map_of ids k)) ` bs_key ` set (s # ss) = {?n<..?n + length (s # ss)}"
    using here ids(5) set_eq by simp
  ultimately have "opened (s # ss) b b'" unfolding opened_def Let_def using ids(2)
    by (intro exI[of _ ids] conjI) blast+
  with IH(2) one(3) open_one(3)[OF one(1) Cons.prems(2) self] show ?case by simp
qed

section \<open>The whole of it\<close>

text \<open>
  What the protocol crate's check of a snapshot guarantees and the argument needs: every source and
  every node is listed once, and audio is linked to a video.
\<close>

definition snapshot_ok :: "'c bridge_source list \<Rightarrow> bridge_node list \<Rightarrow> bool" where
  "snapshot_ok ss nodes \<longleftrightarrow>
     distinct (map bs_key ss) \<and> distinct (map stable_key nodes) \<and>
     (\<forall>s\<in>set ss. linked_video (bs_kind s) \<noteq> Some (bs_key s))"

text \<open>Bridge and presenter agree, and the bridge knows every source there is, each once.\<close>

definition session_agrees :: "'c view \<Rightarrow> bool" where
  "session_agrees v \<longleftrightarrow>
     presenter_ok v \<and> distinct (map snd (v_ids v)) \<and>
     ps_sources (v_presenter v) = snd ` set (v_ids v) \<and> fst ` set (v_kinds v) \<subseteq> fst ` set (v_ids v)"

definition sources_are :: "'c bridge_source list \<Rightarrow> 'c view \<Rightarrow> bool" where
  "sources_are ss v \<longleftrightarrow>
     fst ` set (v_ids v) = bs_key ` set ss \<and>
     (\<forall>s\<in>set ss. map_of (v_kinds v) (bs_key s) = Some (bs_kind s))"

lemma fold_linked_subset: "set (fold add_linked ss keys) \<subseteq> set keys \<union> bs_key ` set ss"
proof (induction ss arbitrary: keys)
  case (Cons s ss)
  from Cons.IH[of "add_linked s keys"] add_linked_in[of _ s keys] show ?case by auto
qed simp

lemma recreate_closure_bounds:
  "set keys \<subseteq> set (recreate_closure ss keys)" "set (recreate_closure ss keys) \<subseteq> set keys \<union> bs_key ` set ss"
proof (induction ss keys rule: recreate_closure.induct)
  case (1 ss keys)
  let ?next = "fold add_linked ss keys"
  have r: "recreate_closure ss keys = (if length ?next = length keys then ?next else recreate_closure ss ?next)"
    by (subst recreate_closure.simps) (simp add: Let_def)
  { case 1 show ?case unfolding r using fold_linked_set[of keys ss] "1.IH"(1)[OF refl] by auto }
  { case 2 show ?case unfolding r using fold_linked_subset[of ss keys] "1.IH"(2)[OF refl] by auto }
qed

lemma delete_entries: "AList.delete k m = filter (\<lambda>e. fst e \<noteq> k) m"
  by (induction m) auto

lemma keep_requested:
  "(if k \<in> R then m else AList.delete k m) = filter (\<lambda>e. fst e \<in> R \<or> fst e \<noteq> k) m"
proof (cases "k \<in> R")
  case True
  then have "filter (\<lambda>e. fst e \<in> R \<or> fst e \<noteq> k) m = m" by (intro filter_True) auto
  with True show ?thesis by simp
next
  case False
  then show ?thesis by (auto simp: delete_entries intro: filter_cong)
qed

lemma forget_view:
  "view (forget_source req (k, x) b) =
     (view b)\<lparr>v_ids := filter (\<lambda>e. fst e \<in> set req \<or> fst e \<noteq> k) (br_source_ids b),
       v_kinds := filter (\<lambda>e. fst e \<in> set req \<or> fst e \<noteq> k) (br_source_kinds b)\<rparr>"
  unfolding keep_requested[symmetric] by (simp add: forget_source_def view_def presented_def)

lemma keep_requested_all:
  "filter (\<lambda>e. fst e \<in> R \<or> fst e \<notin> K) (filter (\<lambda>e. fst e \<in> R \<or> fst e \<noteq> k) m) =
   filter (\<lambda>e. fst e \<in> R \<or> fst e \<notin> insert k K) m"
  unfolding filter_filter by (intro filter_cong) auto

lemma forget_fold:
  "view (fold (forget_source req) obs b) =
     (view b)\<lparr>v_ids := filter (\<lambda>e. fst e \<in> set req \<or> fst e \<notin> fst ` set obs) (br_source_ids b),
       v_kinds := filter (\<lambda>e. fst e \<in> set req \<or> fst e \<notin> fst ` set obs) (br_source_kinds b)\<rparr>"
proof (induction obs arbitrary: b)
  case Nil
  then show ?case by (simp add: view_def)
next
  case (Cons g obs)
  obtain k x where g: "g = (k, x)" by (cases g)
  note v = forget_view[of req k x b]
  have "br_source_ids (forget_source req g b) = filter (\<lambda>e. fst e \<in> set req \<or> fst e \<noteq> k) (br_source_ids b)"
    "br_source_kinds (forget_source req g b) = filter (\<lambda>e. fst e \<in> set req \<or> fst e \<noteq> k) (br_source_kinds b)"
    using arg_cong[OF v, of v_ids] arg_cong[OF v, of v_kinds] g by simp_all
  with v g show ?case
    unfolding fold_Cons comp_apply Cons.IH by (simp only: keep_requested_all) simp
qed

definition note_kinds :: "('c bridge_source \<times> 'x) list \<Rightarrow> (source_key \<times> 'c bridge_kind) list \<Rightarrow>
    (source_key \<times> 'c bridge_kind) list" where
  "note_kinds cs m = fold (\<lambda>c. AList.update (bs_key (fst c)) (bs_kind (fst c))) cs m"

lemma note_kinds_Cons [simp]:
  "note_kinds (c # cs) m = note_kinds cs (AList.update (bs_key (fst c)) (bs_kind (fst c)) m)"
  by (simp add: note_kinds_def)

lemma attach_all:
  assumes "for_each (attach_source w) cs b = (Inr u, b')"
  shows "view b' = (view b)\<lparr>v_kinds := note_kinds cs (br_source_kinds b)\<rparr>"
  using assms
proof (induction cs arbitrary: b)
  case Nil
  then show ?case by (simp add: simple_Inr view_def note_kinds_def)
next
  case (Cons c cs)
  obtain s q x where c: "c = (s, q, x)" by (cases c)
  with Cons.prems obtain b1 where b1: "attach_source w (s, q, x) b = (Inr (), b1)"
    "for_each (attach_source w) cs b1 = (Inr u, b')" by (auto simp: and_then_Inr)
  have "br_source_kinds b1 = AList.update (bs_key s) (bs_kind s) (br_source_kinds b)"
    using arg_cong[OF attach_view[OF b1(1)], of v_kinds] by simp
  with Cons.IH[OF b1(2)] attach_view[OF b1(1)] c show ?case by simp
qed

lemma note_kinds_other: "k \<notin> bs_key ` fst ` set cs \<Longrightarrow> map_of (note_kinds cs m) k = map_of m k"
proof (induction cs arbitrary: m)
  case (Cons c cs)
  then show ?case by (simp add: update_conv')
qed (simp add: note_kinds_def)

lemma note_kinds_here:
  "distinct (map bs_key (map fst cs)) \<Longrightarrow> s \<in> set (map fst cs) \<Longrightarrow>
     map_of (note_kinds cs m) (bs_key s) = Some (bs_kind s)"
proof (induction cs arbitrary: m)
  case (Cons c cs)
  show ?case
  proof (cases "s = fst c")
    case True
    with Cons.prems(1) have "bs_key s \<notin> bs_key ` fst ` set cs" by (auto simp: image_iff)
    with True show ?thesis by (simp add: note_kinds_other update_conv')
  qed (use Cons in auto)
qed simp

lemma note_kinds_keys: "fst ` set (note_kinds cs m) = fst ` set m \<union> bs_key ` fst ` set cs"
proof (induction cs arbitrary: m)
  case (Cons c cs)
  then show ?case by (auto simp: dom_update)
qed (simp add: note_kinds_def)

text \<open>The table of outer sources before and after, apart from how it came about.\<close>

lemma table_keys: "k \<in> fst ` set m \<longleftrightarrow> map_of m k \<noteq> None"
  by (simp add: map_of_eq_None_iff)

lemma table_distinct:
  assumes "distinct (map fst m)" and "\<And>k k' u. map_of m k = Some u \<Longrightarrow> map_of m k' = Some u \<Longrightarrow> k = k'"
  shows "distinct (map snd m)"
proof -
  have "inj_on snd (set m)"
  proof (rule inj_onI)
    fix e e' assume "e \<in> set m" "e' \<in> set m" "snd e = snd e'"
    moreover from this(1,2) have "map_of m (fst e) = Some (snd e)" "map_of m (fst e') = Some (snd e')"
      using assms(1) by simp_all
    ultimately show "e = e'" using assms(2)[of "fst e" "snd e" "fst e'"] by (simp add: prod_eq_iff)
  qed
  moreover have "distinct m" using assms(1) by (simp add: distinct_map)
  ultimately show ?thesis by (simp add: distinct_map)
qed

definition next_table ::
    "(source_key \<times> nat) list \<Rightarrow> (source_key \<times> nat) list \<Rightarrow> source_key set \<Rightarrow> source_key set \<Rightarrow> nat \<Rightarrow> bool" where
  "next_table ids ids' M Req n \<longleftrightarrow>
     distinct (map fst ids) \<and> distinct (map snd ids) \<and> (\<forall>u\<in>snd ` set ids. u \<le> n) \<and>
     distinct (map fst ids') \<and> finite M \<and> M \<subseteq> Req \<and>
     (\<forall>k. k \<notin> M \<longrightarrow> map_of ids' k = (if k \<in> Req then map_of ids k else None)) \<and>
     (\<forall>k\<in>M. map_of ids' k \<noteq> None) \<and> (\<lambda>k. the (map_of ids' k)) ` M = {n<..n + card M} \<and>
     (\<forall>k\<in>Req. k \<notin> M \<longrightarrow> map_of ids k \<noteq> None)"

definition obsolete_ids :: "(source_key \<times> nat) list \<Rightarrow> source_key set \<Rightarrow> source_key set \<Rightarrow> nat set" where
  "obsolete_ids ids M Req = snd ` {e \<in> set ids. fst e \<notin> Req \<or> fst e \<in> M}"

lemma next_tableD:
  assumes "next_table ids ids' M Req n"
  shows "distinct (map fst ids)" "distinct (map snd ids)" "distinct (map fst ids')"
    and "k \<notin> M \<Longrightarrow> map_of ids' k = (if k \<in> Req then map_of ids k else None)"
    and "k \<in> M \<Longrightarrow> map_of ids' k \<noteq> None" and "k \<in> Req \<Longrightarrow> k \<notin> M \<Longrightarrow> map_of ids k \<noteq> None"
    and "k \<in> M \<Longrightarrow> k \<in> Req" and "(\<lambda>k. the (map_of ids' k)) ` M = {n<..n + card M}" and "finite M"
    and "map_of ids k = Some u \<Longrightarrow> u \<le> n"
proof -
  show "map_of ids k = Some u \<Longrightarrow> u \<le> n"
    using assms unfolding next_table_def by (metis imageI map_of_SomeD snd_conv)
qed (use assms in \<open>unfold next_table_def, blast\<close>)+

lemma old_inj:
  assumes "next_table ids ids' M Req n" and "map_of ids k = Some u" and "map_of ids k' = Some u"
  shows "k = k'"
  by (metis assms distinct_map fst_conv inj_onD map_of_SomeD next_tableD(2) snd_conv)

lemma made_id:
  assumes "next_table ids ids' M Req n" and "k \<in> M" and "map_of ids' k = Some u"
  shows "n < u \<and> u \<le> n + card M"
proof -
  from assms(2) have "the (map_of ids' k) \<in> {n<..n + card M}"
    unfolding next_tableD(8)[OF assms(1), symmetric] by blast
  with assms(3) show ?thesis by simp
qed

lemma made_inj:
  assumes "next_table ids ids' M Req n" and "k \<in> M" and "k' \<in> M" and "map_of ids' k = map_of ids' k'"
  shows "k = k'"
proof -
  have "inj_on (\<lambda>k. the (map_of ids' k)) M"
    by (rule eq_card_imp_inj_on[OF next_tableD(9)[OF assms(1)]]) (simp add: next_tableD(8)[OF assms(1)])
  from inj_onD[OF this _ assms(2,3)] assms(4) show ?thesis by simp
qed

lemma keys_requested:
  assumes "next_table ids ids' M Req n"
  shows "fst ` set ids' = Req"
proof (intro set_eqI)
  fix k show "k \<in> fst ` set ids' \<longleftrightarrow> k \<in> Req"
    unfolding table_keys using next_tableD(4-7)[OF assms, of k] by (cases "k \<in> M") auto
qed

lemma next_ids_distinct:
  assumes "next_table ids ids' M Req n"
  shows "distinct (map snd ids')"
proof (rule table_distinct[OF next_tableD(3)[OF assms]])
  fix k k' u assume u: "map_of ids' k = Some u" "map_of ids' k' = Some u"
  have apart: False if "k \<in> M" "k' \<notin> M" "map_of ids' k = Some u" "map_of ids' k' = Some u" for k k'
    using made_id[OF assms that(1,3)] next_tableD(4)[OF assms that(2)] next_tableD(10)[OF assms, of k' u] that(4)
    by (auto split: if_splits)
  show "k = k'"
  proof (cases "k \<in> M \<or> k' \<in> M")
    case True
    with u apart made_inj[OF assms, of k k'] show ?thesis by metis
  next
    case False
    then have M: "k \<notin> M" "k' \<notin> M" by simp_all
    have "map_of ids k = Some u" "map_of ids k' = Some u"
      using u[unfolded next_tableD(4)[OF assms M(1)] next_tableD(4)[OF assms M(2)]] by (simp_all split: if_splits)
    then show ?thesis by (rule old_inj[OF assms])
  qed
qed

lemma in_obsolete:
  assumes "next_table ids ids' M Req n"
  shows "u \<in> obsolete_ids ids M Req \<longleftrightarrow> (\<exists>k. map_of ids k = Some u \<and> (k \<notin> Req \<or> k \<in> M))"
proof
  assume "u \<in> obsolete_ids ids M Req"
  then obtain e where e: "e \<in> set ids" "u = snd e" "fst e \<notin> Req \<or> fst e \<in> M" by (auto simp: obsolete_ids_def)
  then have "map_of ids (fst e) = Some u" using next_tableD(1)[OF assms] by simp
  with e(3) show "\<exists>k. map_of ids k = Some u \<and> (k \<notin> Req \<or> k \<in> M)" by blast
next
  assume "\<exists>k. map_of ids k = Some u \<and> (k \<notin> Req \<or> k \<in> M)"
  then obtain k where k: "(k, u) \<in> set ids" "k \<notin> Req \<or> k \<in> M" using map_of_SomeD by metis
  then have "(k, u) \<in> {e \<in> set ids. fst e \<notin> Req \<or> fst e \<in> M}" by simp
  from imageI[OF this, of snd] show "u \<in> obsolete_ids ids M Req" unfolding obsolete_ids_def by simp
qed

lemma next_not_obsolete:
  assumes "next_table ids ids' M Req n"
  shows "snd ` set ids' \<inter> obsolete_ids ids M Req = {}"
proof -
  have False if u: "map_of ids' k = Some u" and o: "map_of ids k' = Some u" "k' \<notin> Req \<or> k' \<in> M" for k k' u
  proof (cases "k \<in> M")
    case True
    from made_id[OF assms True u] next_tableD(10)[OF assms o(1)] show ?thesis by simp
  next
    case False
    from next_tableD(4)[OF assms False] u have "map_of ids k = Some u" "k \<in> Req" by (auto split: if_splits)
    with old_inj[OF assms this(1) o(1)] o(2) False show ?thesis by simp
  qed
  then have "u \<notin> obsolete_ids ids M Req" if "map_of ids' k = Some u" for k u
    using that unfolding in_obsolete[OF assms] by blast
  then show ?thesis using next_tableD(3)[OF assms] by force
qed

lemma remaining_sources:
  assumes "next_table ids ids' M Req n"
  shows "(snd ` set ids \<union> {n<..n + card M}) - obsolete_ids ids M Req = snd ` set ids'"
proof (intro set_eqI iffI)
  note T = assms
  fix u assume u: "u \<in> (snd ` set ids \<union> {n<..n + card M}) - obsolete_ids ids M Req"
  show "u \<in> snd ` set ids'"
  proof (cases "u \<in> {n<..n + card M}")
    case True
    then obtain k where k: "k \<in> M" "u = the (map_of ids' k)" unfolding next_tableD(8)[OF T, symmetric] by blast
    with next_tableD(5)[OF T k(1)] have "(k, u) \<in> set ids'" using next_tableD(3)[OF T] by auto
    then show ?thesis by force
  next
    case False
    with u obtain k where k: "map_of ids k = Some u" using next_tableD(1)[OF T] by auto
    from u have "u \<notin> obsolete_ids ids M Req" by simp
    with k have "k \<in> Req" "k \<notin> M" unfolding in_obsolete[OF T] by blast+
    with next_tableD(4)[OF T, of k] k have "(k, u) \<in> set ids'" using next_tableD(3)[OF T] by simp
    then show ?thesis by force
  qed
next
  note T = assms
  fix u assume u': "u \<in> snd ` set ids'"
  then obtain k where k: "map_of ids' k = Some u" using next_tableD(3)[OF T] by auto
  have "u \<in> snd ` set ids \<union> {n<..n + card M}"
  proof (cases "k \<in> M")
    case True
    with made_id[OF T True k] show ?thesis by simp
  next
    case False
    with next_tableD(4)[OF T False] k have "map_of ids k = Some u" by (auto split: if_splits)
    then show ?thesis using map_of_SomeD by force
  qed
  with next_not_obsolete[OF T] u' show "u \<in> (snd ` set ids \<union> {n<..n + card M}) - obsolete_ids ids M Req" by blast
qed

end
