(* ===== verification/Bridge_Media.thy ===== *)
theory Bridge_Media
  imports Bridge_Sync
begin

text \<open>
  Media on its way out (\<open>media_chunk\<close>, \<open>reoriginate_raster\<close> and the \<open>take_\<close> functions of
  \<open>src/src/bridge.rs\<close>): the chunks of a delivery are put together and handed to the writer of their
  source. Raster frames are numbered anew, and a delta is sent on only as an extension of the
  bridge's own chain of frames. Times are in microseconds.
\<close>

section \<open>Raster frames\<close>

text \<open>
  The raster formats of the protocol crate: whether the flags of a frame say that it is a delta, the two
  parsers, the builder of a delta (epoch, frame, base, time stamp, duration, size, operation limit,
  operations, compression), the length of an uncompressed full frame, and the compression mode that
  allows zstd.
\<close>

record raster_formats =
  rf_is_delta :: "bytes \<Rightarrow> bool"
  rf_parse_full :: "bytes \<Rightarrow> full_frame option"
  rf_parse_delta :: "bytes \<Rightarrow> nat \<Rightarrow> nat \<Rightarrow> nat \<Rightarrow> delta_frame option"
  rf_delta_body ::
    "nat \<Rightarrow> nat \<Rightarrow> nat \<Rightarrow> int \<Rightarrow> nat \<Rightarrow> nat \<Rightarrow> nat \<Rightarrow> nat \<Rightarrow> raster_operation list \<Rightarrow> bool \<Rightarrow> bytes option"
  rf_raw_length :: "nat \<Rightarrow> nat \<Rightarrow> nat option"
  rf_raw_or_zstd :: nat

record reoriginated =
  rr_body :: bytes
  rr_chain :: "raster_chain option"

definition outer_damage_frames :: nat where "outer_damage_frames = 4"
definition outer_damage_interval :: nat where "outer_damage_interval = 1000000"

text \<open>Here the damage of a delta is the sum of its rectangles, overlapping or not.\<close>

fun operation_area :: "raster_operation \<Rightarrow> nat" where
  "operation_area (Overwrite x y w h rgba) = w * h"
| "operation_area (CopyRect x y w h sx sy) = w * h"

fun add_areas :: "nat \<Rightarrow> raster_operation list \<Rightarrow> nat option" where
  "add_areas tot [] = Some tot"
| "add_areas tot (r # rs) =
     (if tot + operation_area r \<le> 18446744073709551615 then add_areas (tot + operation_area r) rs
      else None)"

definition outer_raster_damage :: "raster_operation list \<Rightarrow> nat option" where
  "outer_raster_damage rs = add_areas 0 rs"

text \<open>A frame the crate parses is long enough for its number.\<close>

definition reoriginated_full_raster :: "raster_formats \<Rightarrow> bytes \<Rightarrow> nat \<Rightarrow> string + bytes" where
  "reoriginated_full_raster fmt body i =
     (if i = 0 then Inl ''outer raster frame ID is zero''
      else case rf_parse_full fmt body of
             None \<Rightarrow> Inl ''malformed raster frame''
           | Some f \<Rightarrow>
               (case write_slice 8 (be64 (int i)) body of
                  None \<Rightarrow> Inl ''raster frame is too short''
                | Some stamped \<Rightarrow> Inr stamped))"

definition reoriginated_delta_raster ::
    "raster_formats \<Rightarrow> bytes \<Rightarrow> nat \<Rightarrow> nat \<Rightarrow> nat \<Rightarrow> raster_chain \<Rightarrow> nat \<Rightarrow> bool \<Rightarrow> string + bytes option" where
  "reoriginated_delta_raster fmt body w h limit chain i compress =
     (case rf_parse_delta fmt body w h limit of
        None \<Rightarrow> Inl ''malformed raster delta''
      | Some f \<Rightarrow>
          if rc_base chain = 0 \<or> df_epoch f \<noteq> rc_epoch chain then Inr None
          else (case rf_delta_body fmt (df_epoch f) i (rc_base chain) (df_pts f) (df_duration f) w h limit
                       (df_operations f) compress of
                  None \<Rightarrow> Inl ''raster delta cannot be encoded''
                | Some out \<Rightarrow> Inr (Some out)))"

text \<open>A new window starts with no damage.\<close>

definition outer_window :: "nat \<Rightarrow> raster_chain \<Rightarrow> raster_chain" where
  "outer_window now chain =
     (if outer_damage_interval \<le> now - rc_window_started chain
      then chain\<lparr>rc_window_started := now, rc_damage := 0\<rparr> else chain)"

definition outer_damage_budget :: "nat \<Rightarrow> nat \<Rightarrow> nat" where
  "outer_damage_budget w h = min 18446744073709551615 (min 18446744073709551615 (w * h) * outer_damage_frames)"

definition extend_chain ::
    "raster_formats \<Rightarrow> nat \<Rightarrow> nat \<Rightarrow> nat \<Rightarrow> bool \<Rightarrow> raster_chain \<Rightarrow> nat \<Rightarrow> bytes \<Rightarrow> nat \<Rightarrow>
     string + reoriginated option" where
  "extend_chain fmt w h limit compress chain i body now =
     (case Option.bind (rf_parse_delta fmt body w h limit) (outer_raster_damage \<circ> df_operations) of
        None \<Rightarrow> Inl ''malformed raster delta''
      | Some damaged \<Rightarrow>
          let chain' = outer_window now chain; charged = sat_add64 (rc_damage chain') damaged
          in if outer_damage_budget w h < charged then Inr None
             else (case reoriginated_delta_raster fmt body w h limit chain' i compress of
                     Inl why \<Rightarrow> Inl why
                   | Inr None \<Rightarrow> Inr None
                   | Inr (Some out) \<Rightarrow>
                       (case rf_raw_length fmt w h of
                          None \<Rightarrow> Inl ''raster dimensions overflow''
                        | Some full \<Rightarrow>
                            if full \<le> length out then Inr None
                            else Inr (Some \<lparr>rr_body = out, rr_chain = Some (chain'\<lparr>rc_damage := charged\<rparr>)\<rparr>))))"

definition restart_chain ::
    "raster_formats \<Rightarrow> nat \<Rightarrow> bytes \<Rightarrow> nat \<Rightarrow> string + reoriginated option" where
  "restart_chain fmt i body now =
     (case rf_parse_full fmt body of
        None \<Rightarrow> Inl ''malformed raster frame''
      | Some f \<Rightarrow>
          (case reoriginated_full_raster fmt body i of
             Inl why \<Rightarrow> Inl why
           | Inr out \<Rightarrow>
               Inr (Some \<lparr>rr_body = out,
                 rr_chain = Some \<lparr>rc_epoch = ff_epoch f, rc_base = 0, rc_damage = 0, rc_window_started = now\<rparr>\<rparr>)))"

text \<open>\<open>Inr None\<close>: the delta cannot extend the chain.\<close>

definition reoriginate_raster ::
    "raster_formats \<Rightarrow> source_key \<Rightarrow> nat \<Rightarrow> bytes \<Rightarrow> nat \<Rightarrow> 'c bridge \<Rightarrow> string + reoriginated option" where
  "reoriginate_raster fmt k i body now b =
     (case map_of (br_source_kinds b) k of
        Some (BridgeRaster w h alpha compression limit) \<Rightarrow>
          if length body < 8 then Inl ''raster frame header is truncated''
          else if \<not> rf_is_delta fmt body then restart_chain fmt i body now
          else (case (if with_raster_delta (br_features b) then limit else None, map_of (br_raster_chains b) k) of
                  (Some n, Some chain) \<Rightarrow>
                    extend_chain fmt w h n (compression = rf_raw_or_zstd fmt \<and> with_raster_zstd (br_features b))
                      chain i body now
                | _ \<Rightarrow> Inr None)
      | _ \<Rightarrow> map_sum id (\<lambda>out. Some \<lparr>rr_body = out, rr_chain = None\<rparr>) (reoriginated_full_raster fmt body i))"

section \<open>Chunks\<close>

definition drop_pending :: "source_key \<Rightarrow> ('c, unit) talk" where
  "drop_pending k = change_state (\<lambda>b. b\<lparr>br_pending := AList.delete k (br_pending b)\<rparr>)"

definition fail_pending :: "source_key \<Rightarrow> string \<Rightarrow> ('c, 'a) talk" where
  "fail_pending k why = and_then (drop_pending k) (\<lambda>_. give_up why)"

definition pending_for :: "source_key \<Rightarrow> record_type \<Rightarrow> nat \<Rightarrow> 'c bridge \<Rightarrow> pending_body" where
  "pending_for k rt tot b =
     (case map_of (br_pending b) k of
        Some p \<Rightarrow> p
      | None \<Rightarrow> \<lparr>pb_type = rt, pb_total = tot, pb_received = 0, pb_cached = k \<in> set (br_cached_images b),
                 pb_bytes = []\<rparr>)"

definition collect_chunk ::
    "source_key \<Rightarrow> record_type \<Rightarrow> nat \<Rightarrow> nat \<Rightarrow> bytes \<Rightarrow> ('c, pending_body) talk" where
  "collect_chunk k rt offset tot bs =
     and_then (state_of (pending_for k rt tot)) (\<lambda>p.
       if pb_type p \<noteq> rt \<or> pb_total p \<noteq> tot \<or> pb_received p \<noteq> offset
       then fail_pending k ''media chunk sequence gap''
       else let p' = p\<lparr>pb_received := sat_add64 (pb_received p) (length bs),
                       pb_bytes := (if pb_cached p then pb_bytes p else pb_bytes p @ bs)\<rparr>
            in if pb_total p' < pb_received p' then fail_pending k ''media chunks exceed total''
               else and_then (change_state (\<lambda>b. b\<lparr>br_pending := AList.update k p' (br_pending b)\<rparr>)) (\<lambda>_.
                    done_with p'))"

definition complete_now :: "nat \<Rightarrow> bool \<Rightarrow> ('c, unit) talk" where
  "complete_now d delivered =
     change_state (\<lambda>b. b\<lparr>br_completions := br_completions b @
       [\<lparr>mc_delivery_id = d, mc_delivered = delivered, mc_sequence = 0\<rparr>]\<rparr>)"

text \<open>\<open>try_send\<close> on the bounded queue of a writer.\<close>

definition queue_write :: "source_key \<Rightarrow> media_write \<Rightarrow> ('c, unit) talk" where
  "queue_write k m b =
     (case map_of (br_media b) k of
        None \<Rightarrow> (Inl ''projection media channel missing'', b)
      | Some v \<Rightarrow>
          if \<not> wr_alive v then (Inl ''outer source media writer stopped'', b)
          else if media_writer_queue \<le> length (wr_queue v) then (Inl ''outer source media writer queue is full'', b)
          else (Inr (), b\<lparr>br_media := AList.update k (v\<lparr>wr_queue := wr_queue v @ [m]\<rparr>) (br_media b)\<rparr>))"

definition image_noted :: "source_key \<Rightarrow> 'c bridge \<Rightarrow> bool" where
  "image_noted k b = (case map_of (br_source_kinds b) k of Some kd \<Rightarrow> is_image_kind kd | None \<Rightarrow> False)"

definition raster_noted :: "source_key \<Rightarrow> 'c bridge \<Rightarrow> bool" where
  "raster_noted k b = (case map_of (br_source_kinds b) k of Some kd \<Rightarrow> is_raster_kind kd | None \<Rightarrow> False)"

definition last_raster :: "source_key \<Rightarrow> 'c bridge \<Rightarrow> nat" where
  "last_raster k b = (case map_of (br_raster_ids b) k of None \<Rightarrow> 0 | Some n \<Rightarrow> n)"

text \<open>The number and the chain advance only when the writer has taken the body.\<close>

definition commit_frame :: "source_key \<Rightarrow> nat \<Rightarrow> raster_chain option \<Rightarrow> 'c bridge \<Rightarrow> 'c bridge" where
  "commit_frame k i chain b =
     b\<lparr>br_raster_ids := AList.update k i (br_raster_ids b),
       br_raster_chains := (case chain of None \<Rightarrow> br_raster_chains b
         | Some c \<Rightarrow> AList.update k (c\<lparr>rc_base := i\<rparr>) (br_raster_chains b))\<rparr>"

definition lose_frame :: "source_key \<Rightarrow> nat \<Rightarrow> ('c, bool) talk" where
  "lose_frame k d =
     and_then (change_state (\<lambda>b. b\<lparr>br_needs_full := List.insert k (br_needs_full b)\<rparr>)) (\<lambda>_.
     and_then (complete_now d False) (\<lambda>_. done_with False))"

definition send_raster ::
    "raster_formats \<Rightarrow> nat \<Rightarrow> source_key \<Rightarrow> nat \<Rightarrow> pending_body \<Rightarrow> nat \<Rightarrow> ('c, bool) talk" where
  "send_raster fmt d k upstream p now =
     and_then (\<lambda>b. some_or ''outer raster frame ID space exhausted'' (next_id (last_raster k b)) b) (\<lambda>i.
     and_then (state_of (reoriginate_raster fmt k i (pb_bytes p) now)) (\<lambda>made.
       case made of
         Inl why \<Rightarrow> give_up why
       | Inr None \<Rightarrow> lose_frame k d
       | Inr (Some r) \<Rightarrow>
           and_then (queue_write k
             \<lparr>mw_delivery = d, mw_type = pb_type p, mw_object = upstream, mw_body = rr_body r\<rparr>) (\<lambda>_.
           and_then (change_state (commit_frame k i (rr_chain r))) (\<lambda>_. done_with True))))"

definition send_plain :: "nat \<Rightarrow> source_key \<Rightarrow> nat \<Rightarrow> pending_body \<Rightarrow> ('c, bool) talk" where
  "send_plain d k upstream p =
     and_then (queue_write k
       \<lparr>mw_delivery = d, mw_type = pb_type p, mw_object = upstream, mw_body = pb_bytes p\<rparr>) (\<lambda>_. done_with True)"

definition finish_body ::
    "raster_formats \<Rightarrow> nat \<Rightarrow> source_key \<Rightarrow> pending_body \<Rightarrow> nat \<Rightarrow> ('c, bool) talk" where
  "finish_body fmt d k p now =
     and_then (drop_pending k) (\<lambda>_.
     and_then (require_that ''incomplete media body'' (pb_received p = pb_total p)) (\<lambda>_.
       if pb_cached p
       then and_then (state_of (image_noted k)) (\<lambda>image.
            and_then (require_that ''cache-hit source received non-image media''
              (pb_type p = ImageRecord \<and> image)) (\<lambda>_.
            and_then (complete_now d True) (\<lambda>_. done_with True)))
       else and_then (\<lambda>b. some_or ''projection source missing'' (map_of (br_source_ids b) k) b) (\<lambda>upstream.
            and_then (state_of (raster_noted k)) (\<lambda>raster.
              if raster then send_raster fmt d k upstream p now else send_plain d k upstream p))))"

text \<open>The value says whether the chunk completed a body that is sent (or need not be).\<close>

definition media_chunk ::
    "raster_formats \<Rightarrow> nat \<Rightarrow> source_key \<Rightarrow> record_type \<Rightarrow> nat \<Rightarrow> nat \<Rightarrow> bool \<Rightarrow> bytes \<Rightarrow> nat \<Rightarrow> ('c, bool) talk" where
  "media_chunk fmt d k rt offset tot final bs now =
     and_then (collect_chunk k rt offset tot bs) (\<lambda>p.
       if final then finish_body fmt d k p now else done_with False)"

section \<open>What comes back\<close>

text \<open>The arguments are what the control connection had collected, by outer number.\<close>

definition own_sources :: "nat list \<Rightarrow> 'c bridge \<Rightarrow> source_key list" where
  "own_sources us b = List.map_filter (map_of (br_reverse_ids b)) us"

definition take_full_frame_requests :: "nat list \<Rightarrow> 'c bridge \<Rightarrow> source_key list \<times> 'c bridge" where
  "take_full_frame_requests us b =
     (let ks = sort_key id (remdups (br_needs_full b @ own_sources us b))
      in (ks, b\<lparr>br_needs_full := [], br_raster_chains := filter (\<lambda>e. fst e \<notin> set ks) (br_raster_chains b)\<rparr>))"

definition take_media_completions :: "'c bridge \<Rightarrow> media_completion list \<times> 'c bridge" where
  "take_media_completions b = (br_completions b, b\<lparr>br_completions := []\<rparr>)"

definition keyframe_requests :: "outer_keyframe list \<Rightarrow> 'c bridge \<Rightarrow> (source_key \<times> nat \<times> keyframe_reason) list" where
  "keyframe_requests rs b =
     List.map_filter (\<lambda>r. map_option (\<lambda>k. (k, ok_minimum_epoch r, ok_reason r))
       (map_of (br_reverse_ids b) (ok_source r))) rs"

definition playback_states_of :: "outer_playback_event list \<Rightarrow> 'c bridge \<Rightarrow> (source_key \<times> outer_playback_event) list" where
  "playback_states_of es b =
     List.map_filter (\<lambda>e. map_option (\<lambda>k. (k, e)) (map_of (br_reverse_ids b) (op_source e))) es"

definition lose_outer_source :: "source_key \<Rightarrow> 'c bridge \<Rightarrow> 'c bridge" where
  "lose_outer_source k b =
     b\<lparr>br_media := AList.delete k (br_media b), br_cached_images := removeAll k (br_cached_images b),
       br_source_kinds := AList.delete k (br_source_kinds b)\<rparr>"

definition take_source_losses_of :: "nat list \<Rightarrow> 'c bridge \<Rightarrow> source_key list \<times> 'c bridge" where
  "take_source_losses_of us b = (own_sources us b, fold lose_outer_source (own_sources us b) b)"

end
