(* ===== verification/Bridge_Agrees.thy ===== *)
theory Bridge_Agrees
  imports Bridge_Reconcile Bridge_Media
begin

text \<open>
  Bridge and presenter agree after a completed \<open>reconcile\<close>: the presenter refused nothing, and has the
  sources and the nodes of the snapshot and no others. A replacement session starts in agreement.
\<close>

section \<open>Sources that are made anew\<close>

lemma presenter_ok_kinds [simp]: "presenter_ok (v\<lparr>v_kinds := m\<rparr>) = presenter_ok v"
  by (simp add: presenter_ok_def)

lemma presenter_ok_filter: "presenter_ok v \<Longrightarrow> presenter_ok (v\<lparr>v_ids := filter P (v_ids v)\<rparr>)"
  unfolding presenter_ok_def by (auto intro: distinct_map_filter)

lemma view_active [simp]: "view (b\<lparr>br_active := m\<rparr>) = view b"
  by (simp add: view_def presented_def)

text \<open>\<open>created ss b b'\<close>: each source of the list has a new number and its kind noted.\<close>

definition created :: "'c bridge_source list \<Rightarrow> 'c bridge \<Rightarrow> 'c bridge \<Rightarrow> bool" where
  "created ss b b' \<longleftrightarrow>
     presenter_ok (view b') \<and> v_nodes (view b') = br_node_ids b \<and>
     ps_scene (presented b') = ps_scene (presented b) \<and>
     ps_sources (presented b') = ps_sources (presented b) \<union> {br_next_source b<..br_next_source b + length ss} \<and>
     (\<forall>k. k \<notin> bs_key ` set ss \<longrightarrow> map_of (br_source_ids b') k = map_of (br_source_ids b) k) \<and>
     (\<forall>k\<in>bs_key ` set ss. map_of (br_source_ids b') k \<noteq> None) \<and>
     (\<lambda>k. the (map_of (br_source_ids b') k)) ` bs_key ` set ss =
       {br_next_source b<..br_next_source b + length ss} \<and>
     fst ` set (br_source_kinds b') = fst ` set (br_source_kinds b) \<union> bs_key ` set ss \<and>
     (\<forall>k. k \<notin> bs_key ` set ss \<longrightarrow> map_of (br_source_kinds b') k = map_of (br_source_kinds b) k) \<and>
     (\<forall>s\<in>set ss. map_of (br_source_kinds b') (bs_key s) = Some (bs_kind s))"

lemma created_all:
  assumes "create_sources w ss b = (Inr u, b')" and "presenter_ok (view b)" and "distinct (map bs_key ss)"
    and "\<forall>s\<in>set ss. linked_video (bs_kind s) \<noteq> Some (bs_key s)"
  shows "created ss b b'"
proof -
  let ?ss = "sort_key creation_rank ss"
  from assms(1) obtain cs b1 where b1: "open_sources w ?ss b = (Inr cs, b1)"
    "for_each (attach_source w) cs b1 = (Inr u, b')" by (auto simp: create_sources_def and_then_Inr)
  have d: "distinct (map bs_key ?ss)" using assms(3) by (simp add: distinct_map)
  from open_all[OF b1(1) assms(2) d] assms(4) have o: "opened ?ss b b1" "map fst cs = ?ss" by simp_all
  from o(1) obtain ids where ids:
    "view b1 = (view b)\<lparr>v_ids := ids, v_next_source := br_next_source b + length ss,
       v_presenter := (presented b)\<lparr>ps_sources := ps_sources (presented b) \<union>
         {br_next_source b<..br_next_source b + length ss}\<rparr>\<rparr>"
    "presenter_ok (view b1)"
    "\<forall>k. k \<notin> bs_key ` set ss \<longrightarrow> map_of ids k = map_of (br_source_ids b) k"
    "\<forall>k\<in>bs_key ` set ss. map_of ids k \<noteq> None"
    "(\<lambda>k. the (map_of ids k)) ` bs_key ` set ss = {br_next_source b<..br_next_source b + length ss}"
    unfolding opened_def Let_def by auto
  note v1 = arg_cong[OF ids(1), of v_ids] arg_cong[OF ids(1), of v_kinds] arg_cong[OF ids(1), of v_nodes]
    arg_cong[OF ids(1), of v_presenter]
  note v' = attach_all[OF b1(2)]
  have cs: "fst ` set cs = set ss" using arg_cong[OF o(2), of set] by simp
  have kinds: "br_source_kinds b' = note_kinds cs (br_source_kinds b)"
    using arg_cong[OF v', of v_kinds] v1(2) by simp
  have ids': "br_source_ids b' = ids" using arg_cong[OF v', of v_ids] v1(1) by simp
  have p': "presented b' = presented b1" using arg_cong[OF v', of v_presenter] by simp
  have "presenter_ok (view b')" using ids(2) unfolding v' by simp
  moreover have "\<forall>s\<in>set ss. map_of (note_kinds cs (br_source_kinds b)) (bs_key s) = Some (bs_kind s)"
    using note_kinds_here[of cs] d o(2) by simp
  moreover have "v_nodes (view b') = br_node_ids b" using arg_cong[OF v', of v_nodes] v1(3) by simp
  ultimately show ?thesis
    unfolding created_def kinds ids' p'
    using ids(3-5) v1(4) note_kinds_other[of _ cs] note_kinds_keys[of cs] by (simp add: cs)
qed

section \<open>Reconciling\<close>

text \<open>Forgetting leaves the requested sources.\<close>

lemma forgotten:
  assumes "fst ` set (br_source_kinds b) \<subseteq> fst ` set (br_source_ids b)"
  shows "view (fold (forget_source req) (obsolete_sources req recreate b) b) = (view b)\<lparr>v_ids := filter (\<lambda>e. fst e \<in> set req) (br_source_ids b),
      v_kinds := filter (\<lambda>e. fst e \<in> set req) (br_source_kinds b)\<rparr>"
proof -
  let ?obs = "obsolete_sources req recreate b"
  have gone: "k \<in> fst ` set ?obs" if k: "k \<in> fst ` set (br_source_ids b)" "k \<notin> set req" for k
  proof -
    from k(1) obtain u where "(k, u) \<in> set (br_source_ids b)" by auto
    with k(2) have "(k, u) \<in> set ?obs" by (simp add: obsolete_sources_def)
    then show ?thesis by (metis fst_conv imageI)
  qed
  have both: "(k \<in> set req \<or> k \<notin> fst ` set ?obs) = (k \<in> set req)" if "k \<in> fst ` set (br_source_ids b)" for k
    using gone[OF that] by blast
  have "filter (\<lambda>e. fst e \<in> set req \<or> fst e \<notin> fst ` set ?obs) (br_source_ids b) =
      filter (\<lambda>e. fst e \<in> set req) (br_source_ids b)"
    by (intro filter_cong refl both imageI)
  moreover have "filter (\<lambda>e. fst e \<in> set req \<or> fst e \<notin> fst ` set ?obs) (br_source_kinds b) =
      filter (\<lambda>e. fst e \<in> set req) (br_source_kinds b)"
    by (intro filter_cong refl both subsetD[OF assms(1)] imageI)
  ultimately show ?thesis unfolding forget_fold by simp
qed

lemma map_of_requested:
  "map_of (filter (\<lambda>e. fst e \<in> R) m) k = (if k \<in> R then map_of m k else None)"
  by (induction m) auto

lemma obsolete_set:
  "set (obsolete_sources req recreate b) = {e \<in> set (br_source_ids b). fst e \<notin> set req \<or> fst e \<in> set recreate}"
  by (auto simp: obsolete_sources_def)

lemma obsolete_numbers:
  "snd ` set (obsolete_sources req recreate b) = obsolete_ids (br_source_ids b) (set recreate) (set req)"
  by (simp add: obsolete_set obsolete_ids_def)

text \<open>The part of \<open>reconcile\<close> that does not touch the table of sources.\<close>

lemma settle_sources:
  assumes "presenter_ok (view b)" and "distinct (map stable_key nodes)"
    and "and_then (for_each (update_policy w) kept) (\<lambda>_.
         and_then (for_each (update_descriptor w) kept) (\<lambda>_.
         and_then (reconcile_nodes w nodes) (\<lambda>_.
         and_then (state_of (\<lambda>b. map snd (br_active b))) (\<lambda>previous.
         and_then (update_playback w previous ss) (\<lambda>_.
         and_then (for_each (play_source w) plays) (\<lambda>_.
         and_then (for_each (end_source w) ends) (\<lambda>_.
         for_each (destroy_source w) obsolete))))))) b = (Inr u, b')"
    and "snd ` set obsolete \<subseteq> ps_sources (presented b)" and "distinct (map snd obsolete)"
    and "snd ` set (br_source_ids b) \<inter> snd ` set obsolete = {}"
  shows "presenter_ok (view b')" and "scene_is nodes (view b')"
    and "br_source_ids b' = br_source_ids b" and "br_source_kinds b' = br_source_kinds b"
    and "ps_sources (presented b') = ps_sources (presented b) - snd ` set obsolete"
proof -
  from assms(3) obtain b1 b2 b3 b4 b5 b6 where steps:
    "for_each (update_policy w) kept b = (Inr (), b1)" "for_each (update_descriptor w) kept b1 = (Inr (), b2)"
    "reconcile_nodes w nodes b2 = (Inr (), b3)" "update_playback w (map snd (br_active b3)) ss b3 = (Inr (), b4)"
    "for_each (play_source w) plays b4 = (Inr (), b5)" "for_each (end_source w) ends b5 = (Inr (), b6)"
    "for_each (destroy_source w) obsolete b6 = (Inr u, b')"
    by (auto simp: and_then_Inr simple_Inr)
  have v1: "view b1 = view b" by (rule each_view[OF assms(1) steps(1)]) (rule update_views(1))
  have v2: "view b2 = view b" using each_view[OF _ steps(2)] update_views(2) assms(1) v1 by metis
  note placed = reconcile_nodes_spec[OF steps(3) assms(1)[folded v2] assms(2)]
  have v4: "view b4 = view b3" by (rule update_playback_view[OF placed(1) steps(4)])
  have v5: "view b5 = view b3" using each_view[OF _ steps(5)] playback_views(1) placed(1) v4 by metis
  have v6: "view b6 = view b3" using each_view[OF _ steps(6)] playback_views(3) placed(1) v5 by metis
  have same: "br_source_ids b2 = br_source_ids b" "br_source_kinds b2 = br_source_kinds b" "presented b2 = presented b"
    "presented b6 = presented b3"
    using arg_cong[OF v2, of v_ids] arg_cong[OF v2, of v_kinds] arg_cong[OF v2, of v_presenter]
      arg_cong[OF v6, of v_presenter] by simp_all
  have shown: "\<forall>c\<in>ran (ps_scene (presented b6)). sc_source c \<notin> snd ` set obsolete"
    using placed(8) assms(6) same by auto
  have last: "view b' = (view b3)\<lparr>v_presenter := (presented b3)\<lparr>ps_sources := ps_sources (presented b3) - snd ` set obsolete\<rparr>\<rparr>"
    using destroy_all[OF steps(7) _ _ assms(5) shown] placed(1,7) assms(4) same v6 by (simp add: presenter_ok_def)
  note v' = arg_cong[OF last, of v_ids] arg_cong[OF last, of v_kinds] arg_cong[OF last, of v_presenter]
  show "br_source_ids b' = br_source_ids b" "br_source_kinds b' = br_source_kinds b"
    "ps_sources (presented b') = ps_sources (presented b) - snd ` set obsolete"
    using v' placed(3,4,7) same by simp_all
  show "scene_is nodes (view b')" using placed(2) unfolding last scene_is_def by simp
  show "presenter_ok (view b')"
    using placed(1,3) shown assms(6) same unfolding last presenter_ok_def by auto
qed

lemma settle_applied:
  assumes "apply_sources w ss nodes recreate obsolete b = (Inr u, b')"
  obtains kept made plays ends b1 b2 where
    "create_sources w made b = (Inr (), b1)" and "made = filter (\<lambda>s. bs_key s \<in> set recreate) ss"
    and "and_then (for_each (update_policy w) kept) (\<lambda>_.
         and_then (for_each (update_descriptor w) kept) (\<lambda>_.
         and_then (reconcile_nodes w nodes) (\<lambda>_.
         and_then (state_of (\<lambda>b. map snd (br_active b))) (\<lambda>previous.
         and_then (update_playback w previous ss) (\<lambda>_.
         and_then (for_each (play_source w) plays) (\<lambda>_.
         and_then (for_each (end_source w) ends) (\<lambda>_.
         for_each (destroy_source w) obsolete))))))) b1 = (Inr (), b2)"
    and "view b' = view b2"
proof -
  let ?kept = "filter (\<lambda>s. bs_key s \<notin> set recreate) ss" and ?made = "filter (\<lambda>s. bs_key s \<in> set recreate) ss"
  from assms obtain b1 b2 b3 b4 b5 b6 b7 b8 where steps: "create_sources w ?made b = (Inr (), b1)"
    "for_each (update_policy w) ?kept b1 = (Inr (), b2)" "for_each (update_descriptor w) ?kept b2 = (Inr (), b3)"
    "reconcile_nodes w nodes b3 = (Inr (), b4)" "update_playback w (map snd (br_active b4)) ss b4 = (Inr (), b5)"
    "for_each (play_source w) (filter bs_playing ?made) b5 = (Inr (), b6)"
    "for_each (end_source w) (filter (\<lambda>s. bs_eos_epoch s \<noteq> None) ?made) b6 = (Inr (), b7)"
    "for_each (destroy_source w) obsolete b7 = (Inr (), b8)" "view b' = view b8"
    unfolding apply_sources_def Let_def by (auto simp: and_then_Inr simple_Inr simp del: filter_filter)
  show ?thesis
    by (rule that[OF steps(1) refl _ steps(9), where kept = ?kept and plays = "filter bs_playing ?made"
          and ends = "filter (\<lambda>s. bs_eos_epoch s \<noteq> None) ?made"])
      (simp add: and_then_def state_of_def steps(2-8) del: filter_filter not_None_eq)
qed

lemma and_then_state: "and_then (state_of f) g b = g (f b) b"
  by (simp add: and_then_def state_of_def)

lemma reconcile_parts:
  assumes "reconcile w ss nodes b = (Inr rec, b')"
  obtains b1 where "view b1 = view b" and "rec = recreate_closure ss (changed_sources ss b1)"
    and "apply_sources w ss nodes rec (obsolete_sources (map bs_key ss) rec b1)
      (fold (forget_source (map bs_key ss)) (obsolete_sources (map bs_key ss) rec b1) b1) = (Inr (), b')"
proof -
  from assms obtain b0 b1 where steps: "for_each (check_source w) ss b = (Inr (), b0)"
    "sync_pane_contexts w ss nodes b0 = (Inr (), b1)" "rec = recreate_closure ss (changed_sources ss b1)"
    "apply_sources w ss nodes rec (obsolete_sources (map bs_key ss) rec b1)
      (fold (forget_source (map bs_key ss)) (obsolete_sources (map bs_key ss) rec b1) b1) = (Inr (), b')"
    unfolding reconcile_def by (auto simp add: and_then_Inr simple_Inr)
  have "b0 = b"
    by (rule for_each_induct[OF steps(1), of "\<lambda>_ b'. b' = b"]) (simp_all add: check_source_same)
  with steps contexts_view[OF steps(2)] that show ?thesis by simp
qed

lemma changed_in: "k \<in> set (changed_sources ss b) \<longleftrightarrow>
    (\<exists>s\<in>set ss. bs_key s = k \<and> map_of (br_source_kinds b) k \<noteq> Some (bs_kind s))"
  by (auto simp: changed_sources_def)

lemma recreate_requested: "set (recreate_closure ss (changed_sources ss b)) \<subseteq> bs_key ` set ss"
proof -
  have "set (changed_sources ss b) \<subseteq> bs_key ` set ss" unfolding changed_sources_def by auto
  with recreate_closure_bounds(2)[of ss "changed_sources ss b"] show ?thesis by blast
qed

theorem reconcile_agrees:
  assumes "reconcile w ss nodes b = (Inr rec, b')" and "session_agrees (view b)" and "snapshot_ok ss nodes"
  shows "session_agrees (view b')" and "sources_are ss (view b')" and "scene_is nodes (view b')"
proof -
  from assms(1) obtain b1 where b1: "view b1 = view b" and rec: "rec = recreate_closure ss (changed_sources ss b1)"
    and app: "apply_sources w ss nodes rec (obsolete_sources (map bs_key ss) rec b1)
      (fold (forget_source (map bs_key ss)) (obsolete_sources (map bs_key ss) rec b1) b1) = (Inr (), b')"
    by (rule reconcile_parts)
  let ?R = "bs_key ` set ss" and ?M = "set rec" and ?obs = "obsolete_sources (map bs_key ss) rec b1"
  let ?n = "br_next_source b1"
  define b2 where "b2 = fold (forget_source (map bs_key ss)) ?obs b1"
  from assms(2) b1 have agrees: "session_agrees (view b1)" by simp
  then have ag: "presenter_ok (view b1)" "distinct (map snd (br_source_ids b1))"
    "ps_sources (presented b1) = snd ` set (br_source_ids b1)"
    "fst ` set (br_source_kinds b1) \<subseteq> fst ` set (br_source_ids b1)" by (simp_all add: session_agrees_def)
  from assms(3) have snap: "distinct (map bs_key ss)" "distinct (map stable_key nodes)"
    "\<forall>s\<in>set ss. linked_video (bs_kind s) \<noteq> Some (bs_key s)" by (simp_all add: snapshot_ok_def)
  have v2: "view b2 = (view b1)\<lparr>v_ids := filter (\<lambda>e. fst e \<in> ?R) (br_source_ids b1),
      v_kinds := filter (\<lambda>e. fst e \<in> ?R) (br_source_kinds b1)\<rparr>"
    using forgotten[OF ag(4), of "map bs_key ss" rec] by (simp add: b2_def)
  note f2 = arg_cong[OF v2, of v_ids] arg_cong[OF v2, of v_kinds] arg_cong[OF v2, of v_next_source]
    arg_cong[OF v2, of v_presenter]
  from app obtain kept made plays ends b3 b4 where steps: "create_sources w made b2 = (Inr (), b3)"
    "made = filter (\<lambda>s. bs_key s \<in> ?M) ss"
    "and_then (for_each (update_policy w) kept) (\<lambda>_.
         and_then (for_each (update_descriptor w) kept) (\<lambda>_.
         and_then (reconcile_nodes w nodes) (\<lambda>_.
         and_then (state_of (\<lambda>b. map snd (br_active b))) (\<lambda>previous.
         and_then (update_playback w previous ss) (\<lambda>_.
         and_then (for_each (play_source w) plays) (\<lambda>_.
         and_then (for_each (end_source w) ends) (\<lambda>_.
         for_each (destroy_source w) ?obs))))))) b3 = (Inr (), b4)"
    "view b' = view b4"
    unfolding b2_def[symmetric] by (rule settle_applied)
  have ok2: "presenter_ok (view b2)"
    using presenter_ok_filter[OF ag(1)] unfolding v2 by simp
  have M: "?M \<subseteq> ?R" using recreate_requested rec by simp
  then have made: "bs_key ` set made = ?M" unfolding steps(2) by auto
  have dm: "distinct (map bs_key made)" unfolding steps(2) by (rule distinct_map_filter[OF snap(1)])
  have c: "created made b2 b3"
    by (rule created_all[OF steps(1) ok2 dm]) (use snap(3) steps(2) in auto)
  have card: "length made = card ?M" using distinct_card[OF dm] made by simp
  have kept_kind: "map_of (br_source_kinds b1) (bs_key s) = Some (bs_kind s)" if "s \<in> set ss" "bs_key s \<notin> ?M" for s
  proof (rule ccontr)
    assume "map_of (br_source_kinds b1) (bs_key s) \<noteq> Some (bs_kind s)"
    with that(1) have "bs_key s \<in> set (changed_sources ss b1)" unfolding changed_in by blast
    with that(2) recreate_closure_bounds(1)[of "changed_sources ss b1" ss] show False unfolding rec by blast
  qed
  have T: "next_table (br_source_ids b1) (br_source_ids b3) ?M ?R ?n"
    unfolding next_table_def
  proof (intro conjI)
    show "distinct (map fst (br_source_ids b1))" using ag(1) by (simp add: presenter_ok_def)
    show "\<forall>u\<in>snd ` set (br_source_ids b1). u \<le> ?n" using ag(1,3) by (simp add: presenter_ok_def)
    show "distinct (map fst (br_source_ids b3))" using c by (simp add: created_def presenter_ok_def)
    show "\<forall>k\<in>?R. k \<notin> ?M \<longrightarrow> map_of (br_source_ids b1) k \<noteq> None"
    proof (intro ballI impI)
      fix k assume "k \<in> ?R" "k \<notin> ?M"
      then have "map_of (br_source_kinds b1) k \<noteq> None" using kept_kind by auto
      then have "k \<in> fst ` set (br_source_kinds b1)" unfolding table_keys .
      with ag(4) show "map_of (br_source_ids b1) k \<noteq> None" unfolding table_keys[symmetric] by blast
    qed
  qed (use ag(2) M c made card f2 in \<open>simp_all add: created_def map_of_requested\<close>)
  have obs: "snd ` set ?obs = obsolete_ids (br_source_ids b1) ?M ?R" by (simp add: obsolete_numbers)
  have ps3: "ps_sources (presented b3) = snd ` set (br_source_ids b1) \<union> {?n<..?n + card ?M}"
    using c f2 ag(3) card by (simp add: created_def)
  have "snd ` set ?obs \<subseteq> ps_sources (presented b3)" unfolding ps3 by (auto simp: obsolete_sources_def)
  moreover have "distinct (map snd ?obs)"
    unfolding obsolete_sources_def by (rule distinct_map_filter[OF ag(2)])
  moreover have "presenter_ok (view b3)" using c by (simp add: created_def)
  ultimately have s: "presenter_ok (view b4)" "scene_is nodes (view b4)" "br_source_ids b4 = br_source_ids b3"
    "br_source_kinds b4 = br_source_kinds b3" "ps_sources (presented b4) = ps_sources (presented b3) - snd ` set ?obs"
    using settle_sources[OF _ snap(2) steps(3)] next_not_obsolete[OF T] unfolding obs by blast+
  show "scene_is nodes (view b')" using s(2) steps(4) by simp
  have keys: "fst ` set (br_source_ids b4) = ?R" using keys_requested[OF T] s(3) by simp
  have "fst ` set (br_source_kinds b4) \<subseteq> ?R" using c s(4) M made f2(2) by (auto simp: created_def)
  moreover have "ps_sources (presented b4) = snd ` set (br_source_ids b4)"
    using s(3,5) remaining_sources[OF T] ps3 obs by simp
  ultimately show "session_agrees (view b')"
    using s(1) next_ids_distinct[OF T] keys s(3) unfolding steps(4) session_agrees_def by simp
  have "map_of (br_source_kinds b4) (bs_key t) = Some (bs_kind t)" if "t \<in> set ss" for t
  proof (cases "bs_key t \<in> ?M")
    case True
    then have "t \<in> set made" using that steps(2) by simp
    with c show ?thesis unfolding s(4) created_def by blast
  next
    case False
    then have "map_of (br_source_kinds b3) (bs_key t) = map_of (br_source_kinds b2) (bs_key t)"
      using c made unfolding created_def by blast
    with kept_kind[OF that False] f2(2) that show ?thesis unfolding s(4) by (simp add: map_of_requested)
  qed
  with keys show "sources_are ss (view b')" unfolding steps(4) sources_are_def by simp
qed

section \<open>Sessions\<close>

text \<open>
  What the protocol crate's check of a snapshot has to guarantee: sources and nodes are listed once, and
  audio is linked to a video of the snapshot.
\<close>

definition rejects_aliases :: "('b, 'c) outer_world \<Rightarrow> bool" where
  "rejects_aliases w \<longleftrightarrow>
     (\<forall>ss ns. validate_scene_snapshot w ss ns \<longrightarrow>
        distinct (map vs_key ss) \<and> distinct (map (\<lambda>n. (vn_owner n, vn_node n, vn_fragment n)) ns) \<and>
        (\<forall>s\<in>set ss. \<forall>v. vs_linked_video s = Some v \<longrightarrow> (\<exists>t\<in>set ss. vs_key t = v \<and> vs_is_video t)))"

lemma valid_snapshot_ok:
  assumes "rejects_aliases w" and "scene_is_valid w ss nodes"
  shows "snapshot_ok ss nodes"
proof -
  note checked = assms(1)[unfolded rejects_aliases_def, THEN spec, THEN spec, THEN mp,
      OF assms(2)[unfolded scene_is_valid_def]]
  have d: "distinct (map bs_key ss)" "distinct (map stable_key nodes)"
    using conjunct1[OF checked] conjunct1[OF conjunct2[OF checked]]
    by (simp_all add: comp_def source_to_validate_def node_to_validate_def stable_key_def[abs_def])
  have linked: "\<forall>s\<in>set ss. \<forall>v. vs_linked_video (source_to_validate s) = Some v \<longrightarrow>
      (\<exists>t\<in>set ss. vs_key (source_to_validate t) = v \<and> vs_is_video (source_to_validate t))"
    using conjunct2[OF conjunct2[OF checked]] by simp
  have "linked_video (bs_kind s) \<noteq> Some (bs_key s)" if s: "s \<in> set ss" for s
  proof
    assume own: "linked_video (bs_kind s) = Some (bs_key s)"
    then have "vs_linked_video (source_to_validate s) = Some (bs_key s)"
      by (simp add: source_to_validate_def linked_video_def)
    from linked[rule_format, OF s this] obtain t where
      t: "t \<in> set ss" "bs_key t = bs_key s" "vs_is_video (source_to_validate t)"
      by (auto simp: source_to_validate_def)
    from d(1) t(1,2) s have "t = s" by (auto simp: distinct_map dest: inj_onD)
    with t(3) own show False
      by (auto simp: source_to_validate_def linked_video_def split: bridge_kind.splits)
  qed
  with d show ?thesis by (simp add: snapshot_ok_def)
qed

lemma fresh_agrees: "session_agrees (view (fresh_bridge fs root))"
  by (simp add: session_agrees_def presenter_ok_def fresh_bridge_def presented_def new_presenter_def ids_ok_def)

lemma connected_agrees:
  assumes "connect_outer w = Inr b"
  shows "session_agrees (view b)"
proof -
  from assms obtain fs root where "observe_session w (fresh_bridge fs root) = (Inr (), b)"
    by (auto simp: connect_outer_def split: option.splits prod.splits sum.splits)
  then have "view b = view (fresh_bridge fs root)"
    by (auto simp: observe_session_def and_then_Inr simple_Inr split: if_splits dest!: view_ask)
  then show ?thesis using fresh_agrees[of fs root] by simp
qed

text \<open>
  The outer session shows a snapshot: the presenter refused nothing and has no open transaction; its
  sources are those of the snapshot under the bridge's numbers, one each; its nodes are those of the
  snapshot, one each, placed as the snapshot says and bound to the number of their source; and the bridge
  remembers the kinds the sources were made with.
\<close>

definition shows_snapshot :: "'c bridge_source list \<Rightarrow> bridge_node list \<Rightarrow> 'c bridge \<Rightarrow> bool" where
  "shows_snapshot ss nodes b \<longleftrightarrow>
     \<not> ps_refused (presented b) \<and> ps_draft (presented b) = None \<and>
     fst ` set (br_source_ids b) = bs_key ` set ss \<and>
     distinct (map fst (br_source_ids b)) \<and> distinct (map snd (br_source_ids b)) \<and>
     ps_sources (presented b) = snd ` set (br_source_ids b) \<and>
     (\<forall>s\<in>set ss. map_of (br_source_kinds b) (bs_key s) = Some (bs_kind s)) \<and>
     fst ` set (br_node_ids b) = stable_key ` set nodes \<and>
     distinct (map fst (br_node_ids b)) \<and> distinct (map snd (br_node_ids b)) \<and>
     dom (ps_scene (presented b)) = snd ` set (br_node_ids b) \<and>
     (\<forall>n\<in>set nodes. \<exists>i u. map_of (br_node_ids b) (stable_key n) = Some i \<and>
        map_of (br_source_ids b) (bn_source n) = Some u \<and>
        ps_scene (presented b) i = Some (node_config (br_root_context b) u n))"

lemma reconcile_shows:
  assumes "reconcile w ss nodes b = (Inr rec, b')" and "session_agrees (view b)" and "snapshot_ok ss nodes"
  shows "shows_snapshot ss nodes b'"
  using reconcile_agrees[OF assms]
  by (simp add: shows_snapshot_def session_agrees_def presenter_ok_def sources_are_def scene_is_def ids_ok_def)

text \<open>A replacement does not depend on the session it replaces.\<close>

lemma replacement_shows:
  assumes "replacement w' ss nodes b = (Inr rec, b')" and "snapshot_ok ss nodes"
  shows "session_agrees (view b')" and "shows_snapshot ss nodes b'"
proof -
  from assms(1) obtain b0 b1 n where new: "connect_outer w' = Inr b0"
    and r: "reconcile w' ss nodes b0 = (Inr rec, b1)" "b' = b1\<lparr>br_instance := n\<rparr>"
    by (auto simp: replacement_def split: option.splits prod.splits sum.splits)
  have p: "view b' = view b1" "presented b' = presented b1" using r(2) by (simp_all add: view_def presented_def)
  from reconcile_agrees(1)[OF r(1) connected_agrees[OF new] assms(2)] show "session_agrees (view b')" unfolding p .
  from reconcile_shows[OF r(1) connected_agrees[OF new] assms(2)] show "shows_snapshot ss nodes b'"
    using r(2) p(2) by (simp add: shows_snapshot_def del: map_of_eq_Some_iff)
qed

lemma rebuild_shows:
  assumes "rebuild w w' ss nodes b = (Inr rec, b')" and "session_agrees (view b)" and "rejects_aliases w"
  shows "session_agrees (view b')" and "shows_snapshot ss nodes b'"
proof -
  from assms(1) have "scene_is_valid w ss nodes" by (auto simp: rebuild_def and_then_Inr simple_Inr)
  with assms(3) have ok: "snapshot_ok ss nodes" by (rule valid_snapshot_ok)
  from assms(1) consider "reconcile w ss nodes b = (Inr rec, b')"
    | b1 where "replacement w' ss nodes b1 = (Inr rec, b')"
    by (auto simp: rebuild_def and_then_Inr simple_Inr split: prod.splits sum.splits)
  then have "session_agrees (view b') \<and> shows_snapshot ss nodes b'"
  proof cases
    case 1
    from reconcile_agrees(1)[OF 1 assms(2) ok] reconcile_shows[OF 1 assms(2) ok] show ?thesis ..
  next
    case 2
    from replacement_shows[OF 2 ok] show ?thesis ..
  qed
  then show "session_agrees (view b')" "shows_snapshot ss nodes b'" by simp_all
qed

lemma replace_shows:
  assumes "replace_session w w' ss nodes b = (Inr rec, b')" and "rejects_aliases w"
  shows "session_agrees (view b')" and "shows_snapshot ss nodes b'"
proof -
  from assms(1) obtain b1 where "scene_is_valid w ss nodes" "replacement w' ss nodes b1 = (Inr rec, b')"
    by (auto simp: replace_session_def and_then_Inr simple_Inr)
  with replacement_shows valid_snapshot_ok[OF assms(2)]
  show "session_agrees (view b')" "shows_snapshot ss nodes b'" by blast+
qed

lemma update_nodes_agrees:
  assumes "update_nodes w nodes b = (Inr u, b')" and "session_agrees (view b)" and "rejects_aliases w"
  shows "session_agrees (view b')"
proof -
  from assms(1) obtain ss where r: "reconcile_nodes w nodes b = (Inr u, b')" "scene_is_valid w ss nodes"
    by (auto simp: update_nodes_def and_then_Inr simple_Inr)
  have "distinct (map stable_key nodes)"
    using valid_snapshot_ok[OF assms(3) r(2)] by (simp add: snapshot_ok_def)
  note placed = reconcile_nodes_spec[OF r(1) _ this]
  from assms(2) show ?thesis
    using placed(1,3,4,7) unfolding session_agrees_def by simp
qed

lemma writer_view: "view (run_media_writer w k b) = view b"
  by (simp add: run_media_writer_def view_def presented_def split: option.split prod.split)

text \<open>Media on its way changes nothing the presenter's scene depends on; a lost source loses its kind.\<close>

definition keeps_view :: "('c, 'a) talk \<Rightarrow> bool" where
  "keeps_view m \<longleftrightarrow> (\<forall>b. view (snd (m b)) = view b)"

named_theorems view_keepers \<open>talks that keep the view\<close>

lemma keeps_view_and_then [view_keepers]:
  "keeps_view m \<Longrightarrow> (\<And>x. keeps_view (f x)) \<Longrightarrow> keeps_view (and_then m f)"
  by (auto simp: keeps_view_def and_then_def split: prod.splits sum.splits) (metis snd_conv)+

lemma keeps_view_simple [view_keepers]:
  "keeps_view (done_with x)" "keeps_view (give_up why)" "keeps_view (require_that why p)"
  "keeps_view (state_of f)" "keeps_view (\<lambda>b. some_or why (g b) b)"
  by (auto simp: keeps_view_def done_with_def give_up_def require_that_def state_of_def some_or_def
      split: option.split)

lemma keeps_view_change: "(\<And>b. view (f b) = view b) \<Longrightarrow> keeps_view (change_state f)"
  by (simp add: keeps_view_def change_state_def)

lemma media_keeps_view [view_keepers]:
  "keeps_view (drop_pending k)" "keeps_view (complete_now d ok)" "keeps_view (queue_write k m)"
  by (simp_all add: drop_pending_def complete_now_def keeps_view_def queue_write_def change_state_def view_def
      presented_def split: option.split)

lemma commit_keeps_view [view_keepers]: "keeps_view (change_state (commit_frame k i c))"
  by (rule keeps_view_change) (simp add: commit_frame_def view_def presented_def)

lemma chunk_keeps_view: "keeps_view (media_chunk fmt d k rt offset tot final bs now)"
proof -
  have "keeps_view (collect_chunk k rt offset tot bs)"
    unfolding collect_chunk_def fail_pending_def Let_def
    by (auto intro!: view_keepers keeps_view_change simp: view_def presented_def)
  moreover have "keeps_view (lose_frame k d)" unfolding lose_frame_def
    by (auto intro!: view_keepers keeps_view_change simp: view_def presented_def)
  moreover have "keeps_view (send_plain d k u p)" for u p
    unfolding send_plain_def by (auto intro!: view_keepers)
  ultimately show ?thesis
    unfolding media_chunk_def finish_body_def send_raster_def
    by (auto intro!: view_keepers split: sum.split option.split)
qed

lemma losses_view:
  "\<exists>m. view (fold lose_outer_source ks b) = (view b)\<lparr>v_kinds := m\<rparr> \<and> set m \<subseteq> set (br_source_kinds b)"
proof (induction ks arbitrary: b)
  case (Cons k ks)
  have v: "view (lose_outer_source k b) = (view b)\<lparr>v_kinds := AList.delete k (br_source_kinds b)\<rparr>"
    by (simp add: lose_outer_source_def view_def presented_def)
  have "br_source_kinds (lose_outer_source k b) = AList.delete k (br_source_kinds b)"
    by (simp add: lose_outer_source_def)
  with Cons[of "lose_outer_source k b"] v show ?case
    by (auto simp: delete_entries)
qed (auto simp: view_def)

text \<open>
  What happens to a session, with the presenter's behaviour at each of the steps. A session starts with a
  connection, or as the replacement of another, whatever state that was in. A rebuild, replacement or
  update that fails ends it: the client then replaces it. A chunk may be refused.
\<close>

datatype ('b, 'c) session_start =
    Connects "('b, 'c) outer_world"
  | Replaces "('b, 'c) outer_world" "('b, 'c) outer_world" "'c bridge_source list" "bridge_node list" "'c bridge"

datatype ('b, 'c) session_event =
    Rebuild "('b, 'c) outer_world" "('b, 'c) outer_world" "'c bridge_source list" "bridge_node list"
  | ReplaceSession "('b, 'c) outer_world" "('b, 'c) outer_world" "'c bridge_source list" "bridge_node list"
  | UpdateNodes "('b, 'c) outer_world" "bridge_node list"
  | UpdatePlayback "('b, 'c) outer_world" "'c bridge_source list" "'c bridge_source list"
  | WriterTurn "('b, 'c) outer_world" source_key
  | ProjectionApplied
  | MediaChunk raster_formats nat source_key record_type nat nat bool bytes nat
  | TakesFullFrames "nat list" | TakesLosses "nat list" | TakesCompletions

definition completed :: "(string + 'a) \<times> 'c bridge \<Rightarrow> 'c bridge option" where
  "completed r = (case fst r of Inl _ \<Rightarrow> None | Inr _ \<Rightarrow> Some (snd r))"

fun start_session :: "('b, 'c) session_start \<Rightarrow> 'c bridge option" where
  "start_session (Connects w) = (case connect_outer w of Inl _ \<Rightarrow> None | Inr b \<Rightarrow> Some b)"
| "start_session (Replaces w w' ss nodes b) = completed (replace_session w w' ss nodes b)"

fun serve_session :: "('b, 'c) session_event \<Rightarrow> 'c bridge \<Rightarrow> 'c bridge option" where
  "serve_session (Rebuild w w' ss nodes) b = completed (rebuild w w' ss nodes b)"
| "serve_session (ReplaceSession w w' ss nodes) b = completed (replace_session w w' ss nodes b)"
| "serve_session (UpdateNodes w nodes) b = completed (update_nodes w nodes b)"
| "serve_session (UpdatePlayback w old ss) b = completed (update_playback w old ss b)"
| "serve_session (WriterTurn w k) b = Some (run_media_writer w k b)"
| "serve_session ProjectionApplied b = completed (mark_projection_applied b)"
| "serve_session (MediaChunk fmt d k rt offset tot final bs now) b =
     Some (snd (media_chunk fmt d k rt offset tot final bs now b))"
| "serve_session (TakesFullFrames us) b = Some (snd (take_full_frame_requests us b))"
| "serve_session (TakesLosses us) b = Some (snd (take_source_losses_of us b))"
| "serve_session TakesCompletions b = Some (snd (take_media_completions b))"

fun checks_snapshots :: "('b, 'c) session_event \<Rightarrow> bool" where
  "checks_snapshots (Rebuild w _ _ _) = rejects_aliases w"
| "checks_snapshots (ReplaceSession w _ _ _) = rejects_aliases w"
| "checks_snapshots (UpdateNodes w _) = rejects_aliases w"
| "checks_snapshots _ = True"

fun starts_checked :: "('b, 'c) session_start \<Rightarrow> bool" where
  "starts_checked (Connects w) = True"
| "starts_checked (Replaces w _ _ _ _) = rejects_aliases w"

lemma completed_Some: "completed r = Some b' \<longleftrightarrow> (\<exists>v. r = (Inr v, b'))"
  by (cases r) (auto simp: completed_def split: sum.splits)

lemma serve_agrees:
  assumes "serve_session e b = Some b'" and "session_agrees (view b)" and "checks_snapshots e"
  shows "session_agrees (view b')"
proof (cases e)
  case (Rebuild w w' ss nodes)
  with assms rebuild_shows(1) show ?thesis by (auto simp: completed_Some)
next
  case (ReplaceSession w w' ss nodes)
  with assms replace_shows(1) show ?thesis by (auto simp: completed_Some)
next
  case (UpdateNodes w nodes)
  with assms update_nodes_agrees show ?thesis by (auto simp: completed_Some)
next
  case (UpdatePlayback w old ss)
  with assms obtain u where "update_playback w old ss b = (Inr u, b')" by (auto simp: completed_Some)
  from update_playback_view[OF _ this] assms(2) show ?thesis by (simp add: session_agrees_def)
next
  case (WriterTurn w k)
  with assms show ?thesis by (auto simp: writer_view)
next
  case ProjectionApplied
  then have "view b' = view b"
    using assms(1) by (auto simp: completed_def mark_projection_applied_def Let_def view_def presented_def)
  with assms(2) show ?thesis by simp
next
  case (MediaChunk fmt d k rt offset tot final bs now)
  with assms(1) have "b' = snd (media_chunk fmt d k rt offset tot final bs now b)" by simp
  then have "view b' = view b" using chunk_keeps_view[unfolded keeps_view_def, rule_format] by simp
  with assms(2) show ?thesis by simp
next
  case (TakesFullFrames us)
  then have "view b' = view b"
    using assms(1) by (auto simp: take_full_frame_requests_def Let_def view_def presented_def)
  with assms(2) show ?thesis by simp
next
  case (TakesLosses us)
  with assms(1) have b': "b' = fold lose_outer_source (own_sources us b) b" by (simp add: take_source_losses_of_def)
  obtain m where "view b' = (view b)\<lparr>v_kinds := m\<rparr>" "set m \<subseteq> set (br_source_kinds b)"
    using losses_view[of "own_sources us b" b] unfolding b' by blast
  note lost = this
  have "fst ` set m \<subseteq> fst ` set (br_source_kinds b)" by (rule image_mono[OF lost(2)])
  also have "\<dots> \<subseteq> fst ` set (br_source_ids b)" using assms(2) by (simp add: session_agrees_def)
  finally show ?thesis using assms(2) unfolding lost(1) session_agrees_def by simp
next
  case TakesCompletions
  then have "view b' = view b"
    using assms(1) by (auto simp: take_media_completions_def view_def presented_def)
  with assms(2) show ?thesis by simp
qed

lemma start_agrees:
  assumes "start_session st = Some b" and "starts_checked st"
  shows "session_agrees (view b)"
proof (cases st)
  case (Connects w)
  with assms(1) connected_agrees show ?thesis by (auto split: sum.splits)
next
  case (Replaces w w' ss nodes c)
  with assms replace_shows(1) show ?thesis by (auto simp: completed_Some)
qed

lemma session_run_agrees:
  "run_ops serve_session es b = Some b' \<Longrightarrow> list_all checks_snapshots es \<Longrightarrow> session_agrees (view b) \<Longrightarrow>
     session_agrees (view b')"
proof (induction es arbitrary: b)
  case (Cons e es)
  then show ?case using serve_agrees by (auto split: option.splits)
qed simp

text \<open>
  C9. A snapshot that was brought to the outer presenter is what the presenter shows. Whatever happened
  to the session since it was started, when \<open>rebuild\<close> returns with success, and from whatever state when
  \<open>replace_session\<close> does, the presenter -- which is taken to refuse every request that creates what
  exists, names what does not exist, leaves the transaction or destroys a source in use, and to remove
  nothing on its own -- has refused nothing, holds the sources and the nodes of the snapshot and no
  others, each under one number of the bridge, every node with its geometry and the number of its own
  source.
\<close>

theorem rebuilt_session_shows_snapshot:
  assumes "start_session st = Some b\<^sub>0" and "starts_checked st"
    and "run_ops serve_session es b\<^sub>0 = Some b" and "list_all checks_snapshots es"
    and "rejects_aliases w"
    and "rebuild w w' ss nodes b = (Inr rec, b') \<or> replace_session w w' ss nodes c = (Inr rec, b')"
  shows "shows_snapshot ss nodes b'"
  using session_run_agrees[OF assms(3,4) start_agrees[OF assms(1,2)]] rebuild_shows(2) replace_shows(2) assms(5,6)
  by blast

section \<open>A session\<close>

text \<open>A presenter that accepts everything it is asked while one raster source gives way to another.\<close>

definition example_outer_reply :: "nat \<Rightarrow> source_ready option outer_record option" where
  "example_outer_reply q =
     map_option (\<lambda>(t, obj, body). \<lparr>or_type = t, or_object = obj, or_body = body\<rparr>)
       (map_of [(2, ok_type, 0, None),
          (3, source_ready_type, 1, Some \<lparr>sr_source = 1, sr_media_required = True\<rparr>),
          (4, ok_type, 0, None), (5, ok_type, 1, None), (6, presented_type, 0, None),
          (7, source_ready_type, 2, Some \<lparr>sr_source = 2, sr_media_required = True\<rparr>),
          (8, ok_type, 0, None), (9, ok_type, 2, None), (10, ok_type, 1, None),
          (11, presented_type, 0, None), (12, ok_type, 1, None)] q)"

definition example_features :: bridge_features where
  "example_features =
     \<lparr>with_decoder_description = False, with_contexts = False, with_capture_policy = False,
      with_descriptors = False, with_order_barrier = False, with_image_cache = False,
      with_raster_delta = False, with_raster_zstd = False, with_observability = True\<rparr>"

definition example_outer :: "(source_ready option, unit) outer_world" where
  "example_outer =
     \<lparr>takes = \<lambda>_. True, reply_to = example_outer_reply, parse_source_ready = id,
      parse_context_ready = \<lambda>_. None, parse_context_capability = \<lambda>_. None,
      display_at = \<lambda>_. 1, buffer_at = \<lambda>_ n. n, written_as = \<lambda>_. None,
      media_opens = \<lambda>_. True, ledger_free = \<lambda>_. True,
      validate_scene_snapshot = \<lambda>ss ns.
        distinct (map vs_key ss) \<and> distinct (map (\<lambda>n. (vn_owner n, vn_node n, vn_fragment n)) ns) \<and>
        list_all (\<lambda>s. case vs_linked_video s of None \<Rightarrow> True
                     | Some v \<Rightarrow> list_ex (\<lambda>t. vs_key t = v \<and> vs_is_video t) ss) ss,
      policy_is_valid = \<lambda>_. True, descriptor_is_valid = \<lambda>_. True, create_encodes = \<lambda>_. True,
      causation_encodes = \<lambda>_. True, undescribed = id, media_body_length = \<lambda>_. None, deny_cache = \<lambda>_. False,
      context_encodes = \<lambda>_. True, presenter_welcome = Some (example_features, 1)\<rparr>"

lemma example_rejects: "rejects_aliases example_outer"
  unfolding rejects_aliases_def
proof (intro allI impI conjI ballI)
  fix ss ns assume "validate_scene_snapshot example_outer ss ns"
  then have ok: "distinct (map vs_key ss)" "distinct (map (\<lambda>n. (vn_owner n, vn_node n, vn_fragment n)) ns)"
    "list_all (\<lambda>s. case vs_linked_video s of None \<Rightarrow> True
      | Some v \<Rightarrow> list_ex (\<lambda>t. vs_key t = v \<and> vs_is_video t) ss) ss"
    by (simp_all add: example_outer_def)
  show "distinct (map vs_key ss)" "distinct (map (\<lambda>n. (vn_owner n, vn_node n, vn_fragment n)) ns)"
    by (rule ok)+
  fix s v assume s: "s \<in> set ss" and v: "vs_linked_video s = Some v"
  have "list_ex (\<lambda>t. vs_key t = v \<and> vs_is_video t) ss"
    using bspec[OF ok(3)[unfolded list_all_iff] s] unfolding v option.case .
  then show "\<exists>t\<in>set ss. vs_key t = v \<and> vs_is_video t" unfolding list_ex_iff .
qed

definition example_source :: "nat \<Rightarrow> unit bridge_source" where
  "example_source k =
     \<lparr>bs_key = (1, k), bs_kind = BridgeRaster 4 2 1 64 None, bs_capture_policy = 0, bs_descriptor = None,
      bs_playing = False,
      bs_play_request = \<lparr>pr_start_pts = 0, pr_minimum_buffer = 0, pr_maximum_latency = 0, pr_rate = 0,
        pr_late_policy = 0, pr_loop_count = 0, pr_start_policy = 0\<rparr>,
      bs_eos_epoch = None, bs_causation = None\<rparr>"

definition example_node :: "nat \<Rightarrow> bridge_node" where
  "example_node k =
     \<lparr>bn_producer = 1, bn_node = k, bn_fragment = 0, bn_source = (1, k), bn_x = 0, bn_y = 0, bn_width = 4,
      bn_height = 2, bn_z = 0, bn_visible = True, bn_clip = FixedRect 0 0 4 2\<rparr>"

abbreviation first_snapshot :: "(source_ready option, unit) session_event" where
  "first_snapshot \<equiv> Rebuild example_outer example_outer [example_source 7] [example_node 7]"

lemmas example_defs = example_outer_def example_outer_reply_def example_source_def example_node_def example_features_def

lemmas talk_defs = and_then_def done_with_def give_up_def some_or_def require_that_def state_of_def
  change_state_def next_id_def take_request_id_def write_outer_def send_request_def wait_outer_def wait_for_def
  ask_def check_reply_def ok_type_def presented_type_def source_ready_type_def

lemmas session_defs = fresh_bridge_def connect_outer_def observe_session_def rebuild_def reconcile_def completed_def scene_is_valid_def
  source_to_validate_def node_to_validate_def check_source_def sync_pane_contexts_def changed_sources_def
  recreate_closure.simps add_linked_def linked_video_def obsolete_sources_def forget_source_def apply_sources_def
  create_sources_def open_source_def take_source_id_def create_request_def sent_kind_def delta_limit_def
  looks_in_cache_def attach_source_def note_created_def note_attached_def new_writer_def count_attachment_def
  sat_add64_def is_raster_kind_def is_image_kind_def creation_rank_def update_policy_def update_descriptor_def
  reconcile_nodes_def node_id_for_def take_transaction_id_def commit_transaction_def vanished_nodes_def
  stable_key_def node_config_def update_playback_def update_one_def play_source_def end_source_def is_timed_kind_def
  destroy_source_def

lemma example_rebuilds:
  "case start_session (Connects example_outer) of
     None \<Rightarrow> False
   | Some b\<^sub>0 \<Rightarrow>
       map_option (\<lambda>b. fst (rebuild example_outer example_outer [example_source 8] [example_node 8] b))
         (run_ops serve_session [first_snapshot] b\<^sub>0) = Some (Inr [(1, 8)])"
  by (simp add: example_defs talk_defs session_defs)

theorem rebuilt_session_shows_snapshot_witness:
  "\<exists>b\<^sub>0 b b'. start_session (Connects example_outer) = Some b\<^sub>0 \<and>
     run_ops serve_session [first_snapshot] b\<^sub>0 = Some b \<and>
     rebuild example_outer example_outer [example_source 8] [example_node 8] b = (Inr [(1, 8)], b') \<and>
     shows_snapshot [example_source 8] [example_node 8] b'"
proof -
  from example_rebuilds obtain b0 b where b: "start_session (Connects example_outer) = Some b0"
    "run_ops serve_session [first_snapshot] b0 = Some b"
    "fst (rebuild example_outer example_outer [example_source 8] [example_node 8] b) = Inr [(1, 8)]"
    by (auto split: option.splits simp del: start_session.simps)
  then obtain b' where r: "rebuild example_outer example_outer [example_source 8] [example_node 8] b = (Inr [(1, 8)], b')"
    by (metis prod.collapse)
  have "list_all checks_snapshots [first_snapshot]" by (simp add: example_rejects)
  from rebuilt_session_shows_snapshot[OF b(1) _ b(2) this example_rejects, of example_outer "[example_source 8]"
      "[example_node 8]" "[(1, 8)]" b'] r b(1,2) show ?thesis by (metis starts_checked.simps(1))
qed

end
