(* ===== verification/Bridge_Chain.thy ===== *)
theory Bridge_Chain
  imports Bridge_Media
begin

text \<open>
  The raster chain of the bridge: the base of a delta that is sent is the frame the source's writer took
  last, and nothing advances when a frame is not taken.
\<close>

section \<open>The chain\<close>

text \<open>A chain stands on the last frame its writer has taken.\<close>

definition chain_ok :: "'c bridge \<Rightarrow> bool" where
  "chain_ok b \<longleftrightarrow>
     (\<forall>k c. map_of (br_raster_chains b) k = Some c \<longrightarrow> rc_base c = last_raster k b \<and> 0 < last_raster k b)"

text \<open>The part of the state it speaks of.\<close>

definition chains_of ::
    "'c bridge \<Rightarrow> (source_key \<times> raster_chain) list \<times> (source_key \<times> nat) list \<times> (source_key \<times> nat) list" where
  "chains_of b = (br_raster_chains b, br_raster_ids b, br_source_ids b)"

lemma chains_of_last: "chains_of b' = chains_of b \<Longrightarrow> last_raster k b' = last_raster k b"
  by (simp add: chains_of_def last_raster_def)

lemma chain_ok_cong: "chains_of b' = chains_of b \<Longrightarrow> chain_ok b' = chain_ok b"
  by (simp add: chain_ok_def chains_of_def last_raster_def)

text \<open>Talks that leave it alone, whatever their result.\<close>

definition keeps_chains :: "('c, 'a) talk \<Rightarrow> bool" where
  "keeps_chains m \<longleftrightarrow> (\<forall>b. chains_of (snd (m b)) = chains_of b)"

named_theorems chain_keepers \<open>talks that keep the raster chains\<close>

lemma keeps_and_then [chain_keepers]:
  "keeps_chains m \<Longrightarrow> (\<And>x. keeps_chains (f x)) \<Longrightarrow> keeps_chains (and_then m f)"
  by (auto simp: keeps_chains_def and_then_def split: prod.splits sum.splits) (metis snd_conv)+

lemma keeps_simple [chain_keepers]:
  "keeps_chains (done_with x)" "keeps_chains (give_up why)" "keeps_chains (require_that why p)"
  "keeps_chains (state_of f)" "keeps_chains (\<lambda>b. some_or why (g b) b)" "keeps_chains (some_or why v)"
  by (auto simp: keeps_chains_def done_with_def give_up_def require_that_def state_of_def some_or_def
      split: option.split)

lemma keeps_change: "(\<And>b. chains_of (f b) = chains_of b) \<Longrightarrow> keeps_chains (change_state f)"
  by (simp add: keeps_chains_def change_state_def)

lemma keeps_drop [chain_keepers]: "keeps_chains (drop_pending k)" "keeps_chains (complete_now d ok)"
  by (simp_all add: keeps_chains_def drop_pending_def complete_now_def change_state_def chains_of_def)

lemma keeps_queue [chain_keepers]: "keeps_chains (queue_write k m)"
  by (simp add: keeps_chains_def queue_write_def chains_of_def split: option.split)

lemma keeps_collect [chain_keepers]: "keeps_chains (collect_chunk k rt offset tot bs)"
  unfolding collect_chunk_def fail_pending_def Let_def
  by (auto intro!: chain_keepers keeps_change simp: chains_of_def)

lemma keeps_lose [chain_keepers]: "keeps_chains (lose_frame k d)"
  unfolding lose_frame_def
  by (auto intro!: chain_keepers keeps_change simp: chains_of_def)

lemma keeps_plain [chain_keepers]: "keeps_chains (send_plain d k u p)"
  unfolding send_plain_def by (auto intro!: chain_keepers)

section \<open>Frames that are sent\<close>

text \<open>What a raster body becomes, when frame \<open>n\<close> was the last the writer took.\<close>

inductive follows :: "raster_formats \<Rightarrow> nat \<Rightarrow> bytes \<Rightarrow> bytes \<Rightarrow> raster_chain option \<Rightarrow> bool"
    for fmt n body where
  full: "rf_parse_full fmt body = Some f \<Longrightarrow> write_slice 8 (be64 (int (Suc n))) body = Some out \<Longrightarrow>
    rc_epoch c = ff_epoch f \<Longrightarrow> follows fmt n body out (Some c)"
| delta: "rf_parse_delta fmt body w h limit = Some f \<Longrightarrow> 0 < n \<Longrightarrow>
    rf_delta_body fmt (df_epoch f) (Suc n) n (df_pts f) (df_duration f) w h limit (df_operations f) z = Some out \<Longrightarrow>
    rc_epoch c = df_epoch f \<Longrightarrow> follows fmt n body out (Some c)"

lemma reoriginated_follows:
  assumes "reoriginate_raster fmt k (Suc (last_raster k b)) body now b = Inr (Some r)" and "chain_ok b"
    and "raster_noted k b"
  shows "follows fmt (last_raster k b) body (rr_body r) (rr_chain r)"
proof -
  from assms(3) obtain w h al z limit where kind: "map_of (br_source_kinds b) k = Some (BridgeRaster w h al z limit)"
    by (auto simp: raster_noted_def is_raster_kind_def split: option.splits bridge_kind.splits)
  show ?thesis
  proof (cases "rf_is_delta fmt body")
    case False
    with assms(1) kind obtain f out where f: "rf_parse_full fmt body = Some f"
      "write_slice 8 (be64 (int (Suc (last_raster k b)))) body = Some out"
      "r = \<lparr>rr_body = out, rr_chain = Some \<lparr>rc_epoch = ff_epoch f, rc_base = 0, rc_damage = 0, rc_window_started = now\<rparr>\<rparr>"
      by (auto simp: reoriginate_raster_def restart_chain_def reoriginated_full_raster_def
          split: if_splits option.splits sum.splits)
    show ?thesis unfolding f(3) by (simp add: follows.full[OF f(1,2)])
  next
    case True
    with assms(1) kind obtain n c where c: "map_of (br_raster_chains b) k = Some c"
      "extend_chain fmt w h n (z = rf_raw_or_zstd fmt \<and> with_raster_zstd (br_features b)) c
        (Suc (last_raster k b)) body now = Inr (Some r)"
      by (auto simp: reoriginate_raster_def split: if_splits option.splits)
    from assms(2) c(1) have base: "rc_base c = last_raster k b" "0 < last_raster k b" unfolding chain_ok_def by blast+
    let ?c = "outer_window now c"
    have same: "rc_base ?c = rc_base c" "rc_epoch ?c = rc_epoch c" by (simp_all add: outer_window_def)
    from c(2) obtain out charged where e: "reoriginated_delta_raster fmt body w h n ?c (Suc (last_raster k b))
        (z = rf_raw_or_zstd fmt \<and> with_raster_zstd (br_features b)) = Inr (Some out)"
      "r = \<lparr>rr_body = out, rr_chain = Some (?c\<lparr>rc_damage := charged\<rparr>)\<rparr>"
      by (auto simp: extend_chain_def Let_def split: option.splits sum.splits if_splits)
    from e(1) same base obtain f where f: "rf_parse_delta fmt body w h n = Some f" "df_epoch f = rc_epoch c"
      "rf_delta_body fmt (df_epoch f) (Suc (last_raster k b)) (last_raster k b) (df_pts f) (df_duration f) w h n
        (df_operations f) (z = rf_raw_or_zstd fmt \<and> with_raster_zstd (br_features b)) = Some out"
      by (auto simp: reoriginated_delta_raster_def split: option.splits if_splits)
    show ?thesis unfolding e(2)
      using follows.delta[OF f(1) base(2) f(3), of "?c\<lparr>rc_damage := charged\<rparr>"] same f(2) by simp
  qed
qed

text \<open>A raster body handed to the writer of its source, and the chain it leaves.\<close>

definition frame_sent :: "raster_formats \<Rightarrow> source_key \<Rightarrow> bytes \<Rightarrow> 'c bridge \<Rightarrow> 'c bridge \<Rightarrow> bool" where
  "frame_sent fmt k body b b' \<longleftrightarrow>
     (\<exists>v m c. map_of (br_media b) k = Some v \<and>
        map_of (br_media b') k = Some (v\<lparr>wr_queue := wr_queue v @ [m]\<rparr>) \<and>
        follows fmt (last_raster k b) body (mw_body m) (Some c) \<and>
        last_raster k b' = Suc (last_raster k b) \<and>
        map_of (br_raster_chains b') k = Some (c\<lparr>rc_base := Suc (last_raster k b)\<rparr>) \<and>
        (\<forall>k'. k' \<noteq> k \<longrightarrow> last_raster k' b' = last_raster k' b \<and>
           map_of (br_raster_chains b') k' = map_of (br_raster_chains b) k') \<and>
        br_source_ids b' = br_source_ids b)"

lemma commit_chains:
  "map_of (br_raster_chains (commit_frame k i (Some c) b)) k' =
     (if k' = k then Some (c\<lparr>rc_base := i\<rparr>) else map_of (br_raster_chains b) k')"
  "last_raster k' (commit_frame k i c' b) = (if k' = k then i else last_raster k' b)"
  "br_source_ids (commit_frame k i c' b) = br_source_ids b"
  by (simp_all add: commit_frame_def update_conv' last_raster_def)

lemma commit_keeps_chain: "chain_ok b \<Longrightarrow> chain_ok (commit_frame k (Suc n) (Some c) b)"
  unfolding chain_ok_def commit_chains by (auto split: if_splits)

lemma send_raster_chain:
  assumes "chain_ok b" and "raster_noted k b" and "send_raster fmt d k u p now b = (res, b')"
  shows "chain_ok b' \<and>
    (if res = Inr True then frame_sent fmt k (pb_bytes p) b b' else chains_of b' = chains_of b)"
proof -
  let ?n = "last_raster k b"
  have stays: ?thesis if "res \<noteq> Inr True" "chains_of b' = chains_of b"
    using that chain_ok_cong[OF that(2)] assms(1) by simp
  show ?thesis
  proof (cases "next_id ?n")
    case None
    with assms(3) stays show ?thesis by (auto simp: send_raster_def and_then_def some_or_def give_up_def)
  next
    case (Some i)
    then have i: "i = Suc ?n" by (simp add: next_id_def split: if_splits)
    let ?made = "reoriginate_raster fmt k i (pb_bytes p) now b"
    show ?thesis
    proof (cases ?made)
      case (Inl why)
      with assms(3) Some stays show ?thesis
        by (auto simp: send_raster_def and_then_def some_or_def give_up_def done_with_def state_of_def)
    next
      case (Inr made)
      show ?thesis
      proof (cases made)
        case None
        with Inr Some assms(3) have lost: "lose_frame k d b = (res, b')"
          by (simp add: send_raster_def and_then_def some_or_def done_with_def state_of_def)
        then have "res = Inr False"
          by (auto simp: lose_frame_def and_then_def change_state_def complete_now_def done_with_def)
        moreover have "chains_of b' = chains_of b"
          using keeps_lose[of k d] lost unfolding keeps_chains_def by (metis snd_conv)
        ultimately show ?thesis using stays by simp
      next
        case made: (Some r)
        from reoriginated_follows[OF Inr[unfolded made i] assms(1,2)]
        have f: "follows fmt ?n (pb_bytes p) (rr_body r) (rr_chain r)" .
        then obtain c where c: "rr_chain r = Some c" by (auto elim: follows.cases)
        let ?m = "\<lparr>mw_delivery = d, mw_type = pb_type p, mw_object = u, mw_body = rr_body r\<rparr>"
        obtain q b1 where q: "queue_write k ?m b = (q, b1)" by fastforce
        have b1: "chains_of b1 = chains_of b"
          using keeps_queue[of k ?m] q unfolding keeps_chains_def by (metis snd_conv)
        show ?thesis
        proof (cases q)
          case (Inl why)
          with q Inr made Some assms(3) have "res = Inl why" "b' = b1"
            by (auto simp: send_raster_def and_then_def some_or_def done_with_def state_of_def)
          with stays b1 show ?thesis by simp
        next
          case taken: (Inr x)
          with q Inr made Some c assms(3) have r: "res = Inr True" "b' = commit_frame k (Suc ?n) (Some c) b1"
            by (auto simp: send_raster_def and_then_def some_or_def done_with_def state_of_def change_state_def i)
          from q taken obtain v where v: "map_of (br_media b) k = Some v"
            "map_of (br_media b1) k = Some (v\<lparr>wr_queue := wr_queue v @ [?m]\<rparr>)"
            by (auto simp: queue_write_def update_conv' split: option.splits if_splits)
          have media: "br_media b' = br_media b1" unfolding r(2) by (simp add: commit_frame_def)
          have old: "br_raster_chains b1 = br_raster_chains b" "br_source_ids b1 = br_source_ids b"
            using b1 by (simp_all add: chains_of_def)
          have "chain_ok b'" unfolding r(2) using chain_ok_cong[OF b1] assms(1) by (intro commit_keeps_chain) simp
          moreover have "frame_sent fmt k (pb_bytes p) b b'"
            unfolding frame_sent_def
            using v f c media unfolding r(2) commit_chains old chains_of_last[OF b1]
            by (intro exI[of _ v] exI[of _ ?m] exI[of _ c]) simp
          ultimately show ?thesis using r(1) by simp
        qed
      qed
    qed
  qed
qed

section \<open>Chunks\<close>

lemma collect_state: "collect_chunk k rt offset tot bs b = (res, b') \<Longrightarrow> \<exists>m. b' = b\<lparr>br_pending := m\<rparr>"
  by (auto simp: collect_chunk_def fail_pending_def drop_pending_def and_then_def state_of_def change_state_def
      give_up_def done_with_def Let_def split: if_splits intro: exI[of _ "br_pending b"])

lemma collect_bytes:
  "collect_chunk k rt offset tot bs b = (Inr p, b') \<Longrightarrow> \<not> pb_cached p \<Longrightarrow>
     pb_bytes p = pb_bytes (pending_for k rt tot b) @ bs"
  by (auto simp: collect_chunk_def fail_pending_def drop_pending_def and_then_def state_of_def change_state_def
      give_up_def done_with_def Let_def split: if_splits)

lemma pending_same:
  "chains_of (b\<lparr>br_pending := m\<rparr>) = chains_of b" "chain_ok (b\<lparr>br_pending := m\<rparr>) = chain_ok b"
  "raster_noted k (b\<lparr>br_pending := m\<rparr>) = raster_noted k b"
  "frame_sent fmt k body (b\<lparr>br_pending := m\<rparr>) b' = frame_sent fmt k body b b'"
  by (simp_all add: chains_of_def chain_ok_def raster_noted_def frame_sent_def last_raster_def)

text \<open>
  A raster source's chain of frames. Whatever arrives, the chain stands on the frame the writer took last;
  a frame goes out under the number after it, and a delta names exactly it as its base. When a chunk
  completes no body, or its body is refused by the format, the chain or the writer, no number and no chain
  moves.
\<close>

lemma chunk_extends_chain:
  assumes "chain_ok b" and "media_chunk fmt d k rt offset tot final bs now b = (res, b')"
  shows "chain_ok b' \<and>
    (chains_of b' = chains_of b \<or>
     res = Inr True \<and> final \<and> map_of (br_source_ids b) k \<noteq> None \<and>
       frame_sent fmt k (pb_bytes (pending_for k rt tot b) @ bs) b b')"
proof -
  obtain r1 b1 where c: "collect_chunk k rt offset tot bs b = (r1, b1)" by fastforce
  from collect_state[OF this] obtain m1 where b1: "b1 = b\<lparr>br_pending := m1\<rparr>" by blast
  show ?thesis
  proof (cases "\<exists>p. r1 = Inr p \<and> final")
    case False
    then have "b' = b1" using assms(2) c
      by (auto simp: media_chunk_def and_then_def done_with_def split: sum.splits if_splits)
    then show ?thesis using b1 assms(1) by (simp add: pending_same)
  next
    case True
    then obtain p where p: "finish_body fmt d k p now b1 = (res, b')" "r1 = Inr p" final
      using assms(2) c by (auto simp: media_chunk_def and_then_def)
    note bytes = collect_bytes[OF c[unfolded p(2)]]
    let ?b2 = "b1\<lparr>br_pending := AList.delete k (br_pending b1)\<rparr>"
    have own: "br_source_ids ?b2 = br_source_ids b" using b1 by simp
    have b2: "chains_of ?b2 = chains_of b" "chain_ok ?b2" "raster_noted k ?b2 = raster_noted k b"
      "\<And>fmt body b'. frame_sent fmt k body ?b2 b' = frame_sent fmt k body b b'"
      using b1 assms(1) by (simp_all add: pending_same)
    show ?thesis
    proof (cases "pb_received p = pb_total p \<and> \<not> pb_cached p \<and> map_of (br_source_ids ?b2) k \<noteq> None \<and> raster_noted k ?b2")
      case True
      then obtain u where "send_raster fmt d k u p now ?b2 = (res, b')"
        using p(1) by (auto simp: finish_body_def drop_pending_def and_then_def change_state_def require_that_def
            done_with_def some_or_def state_of_def)
      from send_raster_chain[OF b2(2) _ this] True b2(1,4) bytes p(3) own show ?thesis by (auto split: if_splits)
    next
      case False
      note run = finish_body_def drop_pending_def and_then_def change_state_def require_that_def done_with_def
        give_up_def some_or_def state_of_def
      have "chains_of b' = chains_of ?b2"
      proof (cases "pb_received p = pb_total p \<and> \<not> pb_cached p \<and> map_of (br_source_ids b1) k \<noteq> None")
        case ready: True
        with False p(1) obtain u where "send_plain d k u p ?b2 = (res, b')" by (auto simp: run)
        with keeps_plain[of d k u p] show ?thesis unfolding keeps_chains_def by (metis snd_conv)
      next
        case unready: False
        with p(1) show ?thesis
          by (cases "pb_received p = pb_total p"; cases "pb_cached p")
            (auto simp: run complete_now_def chains_of_def split: if_splits)
      qed
      then show ?thesis using chain_ok_cong b2(1,2) by metis
    qed
  qed
qed

section \<open>A delta that is lost\<close>

text \<open>
  A delta beyond the damage budget is dropped and a full frame is asked for. Until the request is taken
  out, the chain stays: the next delta, which was made on top of the dropped one, is sent on top of the
  frame before it.
\<close>

definition sample_formats :: raster_formats where
  "sample_formats =
     \<lparr>rf_is_delta = \<lambda>_. True, rf_parse_full = \<lambda>_. None,
      rf_parse_delta = \<lambda>body w h n. Some \<lparr>df_epoch = 1, df_base = length body, df_id = Suc (length body), df_pts = 0,
        df_duration = 0,
        df_operations = (if length body = 8 then let full = Overwrite 0 0 4 2 [] in [full, full, full, full, full] else [Overwrite 0 0 1 1 []])\<rparr>,
      rf_delta_body = \<lambda>_ _ _ _ _ _ _ _ _ _. Some [], rf_raw_length = \<lambda>_ _. Some 100, rf_raw_or_zstd = 1\<rparr>"

definition sample_bridge :: "unit bridge" where
  "sample_bridge =
     (fresh_bridge \<lparr>with_decoder_description = False, with_contexts = False, with_capture_policy = False,
        with_descriptors = False, with_order_barrier = False, with_image_cache = False,
        with_raster_delta = True, with_raster_zstd = False, with_observability = False\<rparr> 1)
     \<lparr>br_source_ids := [((1, 7), 1)], br_source_kinds := [((1, 7), BridgeRaster 4 2 1 1 (Some 16))],
      br_media := [((1, 7), new_writer)], br_raster_ids := [((1, 7), 1)],
      br_raster_chains := [((1, 7), \<lparr>rc_epoch = 1, rc_base = 1, rc_damage = 0, rc_window_started = 0\<rparr>)]\<rparr>"

lemma lost_delta_is_skipped_over:
  "let (r1, b1) = media_chunk sample_formats 1 (1, 7) RasterRecord 0 8 True (replicate 8 0) 0 sample_bridge;
       (r2, b2) = media_chunk sample_formats 2 (1, 7) RasterRecord 0 9 True (replicate 9 0) 0 b1
   in r1 = Inr False \<and> r2 = Inr True \<and> br_needs_full b2 = [(1, 7)] \<and> last_raster (1, 7) b2 = 2"
  by (simp add: media_chunk_def collect_chunk_def and_then_def state_of_def pending_for_def sample_bridge_def
      fresh_bridge_def sat_add64_def change_state_def done_with_def finish_body_def drop_pending_def
      require_that_def some_or_def raster_noted_def is_raster_kind_def send_raster_def last_raster_def next_id_def
      reoriginate_raster_def sample_formats_def extend_chain_def outer_raster_damage_def outer_window_def
      outer_damage_interval_def outer_damage_budget_def outer_damage_frames_def lose_frame_def complete_now_def
      reoriginated_delta_raster_def queue_write_def new_writer_def media_writer_queue_def commit_frame_def Let_def)

end
