(* ===== verification/Bridge_Frames.thy ===== *)
theory Bridge_Frames
  imports Bridge_Agrees Bridge_Chain
begin

text \<open>
  The raster chain along every run of a session: reconciling forgets the chain of a source before it is
  made anew, and everything else leaves the chains to the frames that are sent.
\<close>

section \<open>What leaves the chains alone\<close>

lemma keeps_each [chain_keepers]: "(\<And>x. keeps_chains (f x)) \<Longrightarrow> keeps_chains (for_each f xs)"
  by (induction xs) (auto intro!: chain_keepers)

lemma keeps_requests [chain_keepers]:
  "keeps_chains take_request_id" "keeps_chains (write_outer w q r)" "keeps_chains (wait_outer w q e obj)"
  "keeps_chains take_context_id" "keeps_chains take_transaction_id" "keeps_chains (node_id_for nk ids)"
  by (simp_all add: keeps_chains_def chains_of_def take_request_id_def write_outer_def wait_outer_def
      take_context_id_def take_transaction_id_def node_id_for_def split: option.split)

lemma keeps_asking [chain_keepers]:
  "keeps_chains (send_request w r)" "keeps_chains (wait_for w q e obj)" "keeps_chains (ask w r obj)"
  unfolding send_request_def wait_for_def ask_def by (auto intro!: chain_keepers)

lemma keeps_nodes [chain_keepers]:
  "keeps_chains (put_nodes w t nodes ids)" "keeps_chains (delete_nodes w t gone ids)"
proof -
  show "keeps_chains (put_nodes w t nodes ids)"
    by (induction nodes arbitrary: ids) (auto intro!: chain_keepers)
  show "keeps_chains (delete_nodes w t gone ids)"
    by (induction gone arbitrary: ids) (auto intro!: chain_keepers)
qed

lemma keeps_transaction [chain_keepers]: "keeps_chains (reconcile_nodes w nodes)"
  unfolding reconcile_nodes_def commit_transaction_def
  by (auto intro!: chain_keepers keeps_change simp: chains_of_def)

lemma keeps_barrier [chain_keepers]: "keeps_chains (await_barrier w k)" "keeps_chains (end_barrier w k)"
proof -
  show "keeps_chains (await_barrier w k)"
    by (auto simp: await_barrier_def keeps_chains_def chains_of_def split: option.split prod.split)
  then show "keeps_chains (end_barrier w k)"
    unfolding end_barrier_def by (auto intro!: chain_keepers)
qed

lemma keeps_upstream [chain_keepers]: "keeps_chains (upstream_of k)" "keeps_chains (caused w s)"
  unfolding upstream_of_def[abs_def] caused_def by (rule chain_keepers)+

lemma keeps_playing [chain_keepers]:
  "keeps_chains (send_about w s q u r)" "keeps_chains (play_source w s)" "keeps_chains (pause_source w s)"
  "keeps_chains (end_source w s)" "keeps_chains (update_one w previous s)" "keeps_chains (update_playback w old ss)"
  unfolding send_about_def play_source_def pause_source_def end_source_def update_one_def update_playback_def
  by (auto intro!: chain_keepers split: option.split)

lemma keeps_updates [chain_keepers]:
  "keeps_chains (update_policy w s)" "keeps_chains (update_descriptor w s)" "keeps_chains (destroy_source w ku)"
  "keeps_chains (update_nodes w nodes)" "keeps_chains (check_source w s)" "keeps_chains (pause_playing_sources w ss)"
  unfolding update_policy_def update_descriptor_def destroy_source_def update_nodes_def check_source_def
    pause_playing_sources_def
  by (auto intro!: chain_keepers split: option.split)

lemma keeps_contexts [chain_keepers]: "keeps_chains (sync_pane_contexts w ss nodes)"
proof -
  have "keeps_chains (revoke_one w p)" for p unfolding revoke_one_def
    by (auto intro!: chain_keepers keeps_change simp: chains_of_def)
  moreover have "keeps_chains (delegate_one w ss nodes p)" for p unfolding delegate_one_def wait_correlated_def
    by (auto intro!: chain_keepers keeps_change simp: chains_of_def)
  ultimately show ?thesis unfolding sync_pane_contexts_def Let_def by (auto intro!: chain_keepers)
qed

section \<open>Sources that are made anew\<close>

text \<open>Chains stand on the last frame, and only sources with a number have one.\<close>

definition rasters_ok :: "'c bridge \<Rightarrow> bool" where
  "rasters_ok b \<longleftrightarrow> chain_ok b \<and> (\<forall>k. map_of (br_source_ids b) k = None \<longrightarrow> map_of (br_raster_chains b) k = None)"

lemma rasters_ok_cong: "chains_of b' = chains_of b \<Longrightarrow> rasters_ok b' = rasters_ok b"
  by (simp add: rasters_ok_def chain_ok_def chains_of_def last_raster_def)

text \<open>The keys in the set have no chain.\<close>

definition unchained :: "source_key set \<Rightarrow> 'c bridge \<Rightarrow> bool" where
  "unchained K b \<longleftrightarrow> rasters_ok b \<and> (\<forall>k\<in>K. map_of (br_raster_chains b) k = None)"

lemma unchained_cong: "chains_of b' = chains_of b \<Longrightarrow> unchained K b' = unchained K b"
  using rasters_ok_cong[of b' b] by (simp add: unchained_def chains_of_def)

definition keeps_unchained :: "source_key set \<Rightarrow> ('c, 'a) talk \<Rightarrow> bool" where
  "keeps_unchained K m \<longleftrightarrow> (\<forall>b. unchained K b \<longrightarrow> unchained K (snd (m b)))"

lemma unchained_and_then:
  fixes m :: "('c, 'a) talk"
  assumes "keeps_unchained K m" and "\<And>x. keeps_unchained K (f x)"
  shows "keeps_unchained K (and_then m f)"
  unfolding keeps_unchained_def
proof (intro allI impI)
  fix b :: "'c bridge" assume b: "unchained K b"
  obtain r b1 where m: "m b = (r, b1)" by fastforce
  with assms(1) b have "unchained K b1" unfolding keeps_unchained_def by (metis snd_conv)
  with assms(2) m show "unchained K (snd (and_then m f b))"
    by (cases r) (simp_all add: and_then_def keeps_unchained_def)
qed

lemma unchained_keeps: "keeps_chains m \<Longrightarrow> keeps_unchained K m"
  unfolding keeps_chains_def keeps_unchained_def using unchained_cong by blast

lemmas unchained_base = keeps_simple[THEN unchained_keeps] keeps_requests[THEN unchained_keeps]
  keeps_asking[THEN unchained_keeps]

lemma unchained_each: "(\<And>x. x \<in> set xs \<Longrightarrow> keeps_unchained K (f x)) \<Longrightarrow> keeps_unchained K (for_each f xs)"
proof (induction xs)
  case Nil
  show ?case unfolding for_each.simps by (rule unchained_base)
next
  case (Cons x xs)
  then show ?case unfolding for_each.simps by (intro unchained_and_then) simp_all
qed

lemma take_source_unchained: "keeps_unchained K (take_source_id k)"
  by (auto simp: keeps_unchained_def take_source_id_def unchained_def rasters_ok_def chain_ok_def last_raster_def
      update_conv' split: option.split)

lemma attached_unchained:
  assumes "unchained K b" and "bs_key s \<in> K"
  shows "unchained K (note_attached s b)"
proof -
  let ?b = "note_attached s b"
  have chains: "br_raster_chains ?b = br_raster_chains b" "br_source_ids ?b = br_source_ids b"
    by (simp_all add: note_attached_def)
  have last: "last_raster k ?b = last_raster k b" if "k \<noteq> bs_key s" for k
    using that by (simp add: last_raster_def note_attached_def update_conv')
  have none: "map_of (br_raster_chains b) (bs_key s) = None" using assms unfolding unchained_def by blast
  have "chain_ok ?b" unfolding chain_ok_def chains
  proof (intro allI impI)
    fix k c assume c: "map_of (br_raster_chains b) k = Some c"
    with none have "k \<noteq> bs_key s" by auto
    moreover have "rc_base c = last_raster k b \<and> 0 < last_raster k b"
      using assms(1) c unfolding unchained_def rasters_ok_def chain_ok_def by blast
    ultimately show "rc_base c = last_raster k ?b \<and> 0 < last_raster k ?b" by (simp add: last)
  qed
  with assms(1) show ?thesis unfolding unchained_def rasters_ok_def chains by blast
qed

lemma attach_unchained: "bs_key s \<in> K \<Longrightarrow> keeps_unchained K (attach_source w (s, q, u))"
proof -
  assume s: "bs_key s \<in> K"
  have change: "keeps_unchained K (change_state f)" if "\<And>b. unchained K b \<Longrightarrow> unchained K (f b)" for f
    using that by (simp add: keeps_unchained_def change_state_def)
  have "unchained K (note_created s b)" if "unchained K b" for b
    using that unchained_cong[of "note_created s b" b K] by (simp add: note_created_def chains_of_def)
  moreover have "unchained K (b\<lparr>br_cached_images := m b\<rparr>)" if "unchained K b" for b m
    using that unchained_cong[of "b\<lparr>br_cached_images := m b\<rparr>" b K] by (simp add: chains_of_def)
  ultimately show ?thesis
    using attached_unchained[OF _ s] unfolding attach_source_def
    by (auto intro!: unchained_and_then change unchained_base)
qed

lemma open_unchained: "keeps_unchained K (open_source w s)"
  unfolding open_source_def
  by (auto intro!: unchained_and_then take_source_unchained unchained_base)

lemma open_sources_unchained: "keeps_unchained K (open_sources w ss)"
  by (induction ss) (auto intro!: unchained_and_then open_unchained unchained_base)

lemma opened_keys: "open_sources w ss b = (Inr cs, b') \<Longrightarrow> map fst cs = ss"
proof (induction ss arbitrary: b cs)
  case (Cons s ss)
  then obtain c b1 cs' where c: "open_source w s b = (Inr c, b1)" "open_sources w ss b1 = (Inr cs', b')" "cs = c # cs'"
    by (auto simp: and_then_Inr simple_Inr)
  then have "fst c = s" by (auto simp: open_source_def and_then_Inr simple_Inr)
  with Cons.IH[OF c(2)] c(3) show ?case by simp
qed (simp add: simple_Inr)

lemma create_unchained:
  assumes "bs_key ` set ss \<subseteq> K" and "unchained K b"
  shows "unchained K (snd (create_sources w ss b))"
proof -
  let ?ss = "sort_key creation_rank ss"
  obtain r b1 where o: "open_sources w ?ss b = (r, b1)" by fastforce
  have b1: "unchained K b1"
    using open_sources_unchained[of K w ?ss] assms(2) o unfolding keeps_unchained_def by (metis snd_conv)
  show ?thesis
  proof (cases r)
    case (Inl why)
    with o b1 show ?thesis by (simp add: create_sources_def and_then_def)
  next
    case (Inr cs)
    from opened_keys[OF o[unfolded Inr]] have cs: "fst ` set cs = set ss" by (metis set_map set_sort)
    have "keeps_unchained K (for_each (attach_source w) cs)"
    proof (rule unchained_each)
      fix c assume c: "c \<in> set cs"
      obtain s q u where e: "c = (s, q, u)" by (cases c)
      from c e cs have "s \<in> set ss" by force
      with assms(1) e show "keeps_unchained K (attach_source w c)" by (auto intro: attach_unchained)
    qed
    with b1 Inr o show ?thesis by (simp add: create_sources_def and_then_def keeps_unchained_def)
  qed
qed

section \<open>Reconciling and rebuilding\<close>

lemma apply_unchained: "keeps_unchained (set recreate) (apply_sources w ss nodes recreate obsolete)"
proof -
  let ?made = "filter (\<lambda>s. bs_key s \<in> set recreate) ss"
  have "keeps_unchained (set recreate) (create_sources w ?made)"
    unfolding keeps_unchained_def by (intro allI impI create_unchained) auto
  moreover have "keeps_chains (change_state (\<lambda>b. b\<lparr>br_active := m\<rparr>))" for m
    by (rule keeps_change) (simp add: chains_of_def)
  ultimately show ?thesis
    unfolding apply_sources_def Let_def
    by (intro unchained_and_then) (auto intro!: unchained_keeps chain_keepers)
qed

lemma delete_key: "map_of (AList.delete k m) k' = (if k' = k then None else map_of m k')"
  by (simp add: delete_conv')

lemma forget_one:
  fixes b :: "'c bridge"
  shows "map_of (br_raster_chains (forget_source req (k', u) b)) k = (if k = k' then None else map_of (br_raster_chains b) k)"
    and "map_of (br_raster_ids (forget_source req (k', u) b)) k = (if k = k' then None else map_of (br_raster_ids b) k)"
    and "map_of (br_source_ids (forget_source req (k', u) b)) k =
      (if k = k' \<and> k' \<notin> set req then None else map_of (br_source_ids b) k)"
  by (simp_all add: forget_source_def delete_key)

lemma forget_rasters:
  fixes b :: "'c bridge"
  shows "map_of (br_raster_chains (fold (forget_source req) obs b)) k =
      (if k \<in> fst ` set obs then None else map_of (br_raster_chains b) k)"
    and "map_of (br_raster_ids (fold (forget_source req) obs b)) k =
      (if k \<in> fst ` set obs then None else map_of (br_raster_ids b) k)"
    and "map_of (br_source_ids (fold (forget_source req) obs b)) k =
      (if k \<in> fst ` set obs \<and> k \<notin> set req then None else map_of (br_source_ids b) k)"
proof -
  have "map_of (br_raster_chains (fold (forget_source req) obs b)) k =
      (if k \<in> fst ` set obs then None else map_of (br_raster_chains b) k) \<and>
    map_of (br_raster_ids (fold (forget_source req) obs b)) k =
      (if k \<in> fst ` set obs then None else map_of (br_raster_ids b) k) \<and>
    map_of (br_source_ids (fold (forget_source req) obs b)) k =
      (if k \<in> fst ` set obs \<and> k \<notin> set req then None else map_of (br_source_ids b) k)"
  proof (induction obs arbitrary: b)
    case (Cons g obs)
    obtain k' u where g: "g = (k', u)" by (cases g)
    show ?case
      unfolding g fold_Cons comp_apply conjunct1[OF Cons] conjunct1[OF conjunct2[OF Cons]]
        conjunct2[OF conjunct2[OF Cons]] forget_one by simp
  qed simp
  then show "map_of (br_raster_chains (fold (forget_source req) obs b)) k =
      (if k \<in> fst ` set obs then None else map_of (br_raster_chains b) k)"
    "map_of (br_raster_ids (fold (forget_source req) obs b)) k =
      (if k \<in> fst ` set obs then None else map_of (br_raster_ids b) k)"
    "map_of (br_source_ids (fold (forget_source req) obs b)) k =
      (if k \<in> fst ` set obs \<and> k \<notin> set req then None else map_of (br_source_ids b) k)"
    by blast+
qed

lemma forget_unchained:
  assumes "rasters_ok b"
  shows "unchained (set recreate) (fold (forget_source req) (obsolete_sources req recreate b) b)"
proof -
  let ?obs = "obsolete_sources req recreate b"
  let ?b = "fold (forget_source req) ?obs b"
  have ok: "rc_base c = last_raster k b \<and> 0 < last_raster k b" if "map_of (br_raster_chains b) k = Some c" for k c
    using assms that unfolding rasters_ok_def chain_ok_def by blast
  have own: "map_of (br_raster_chains b) k = None" if "map_of (br_source_ids b) k = None" for k
    using assms that unfolding rasters_ok_def by blast
  have "chain_ok ?b" unfolding chain_ok_def
  proof (intro allI impI)
    fix k c assume "map_of (br_raster_chains ?b) k = Some c"
    then have k: "k \<notin> fst ` set ?obs" "map_of (br_raster_chains b) k = Some c"
      unfolding forget_rasters by (auto split: if_splits)
    then have "last_raster k ?b = last_raster k b" unfolding last_raster_def forget_rasters by simp
    with ok[OF k(2)] show "rc_base c = last_raster k ?b \<and> 0 < last_raster k ?b" by simp
  qed
  moreover have "map_of (br_raster_chains ?b) k = None" if "map_of (br_source_ids ?b) k = None" for k
    using that own[of k] unfolding forget_rasters by (simp split: if_splits)
  moreover have "map_of (br_raster_chains ?b) k = None" if k: "k \<in> set recreate" for k
  proof (cases "map_of (br_source_ids b) k")
    case None
    with own show ?thesis unfolding forget_rasters by simp
  next
    case (Some u)
    then have "(k, u) \<in> set ?obs" using k map_of_SomeD by (fastforce simp: obsolete_sources_def)
    then have "k \<in> fst ` set ?obs" by force
    then show ?thesis unfolding forget_rasters by simp
  qed
  ultimately show ?thesis unfolding unchained_def rasters_ok_def by blast
qed

lemma unchained_empty: "unchained {} b = rasters_ok b"
  by (simp add: unchained_def)

lemma unchained_rasters: "unchained K b \<Longrightarrow> rasters_ok b"
  by (simp add: unchained_def)

lemma reconcile_rasters: "keeps_unchained {} (reconcile w ss nodes)"
proof -
  let ?rest = "\<lambda>recreate obsolete. and_then (change_state (fold (forget_source (map bs_key ss)) obsolete)) (\<lambda>_.
      and_then (apply_sources w ss nodes recreate obsolete) (\<lambda>_. done_with recreate))"
  let ?half = "and_then (state_of (\<lambda>b. recreate_closure ss (changed_sources ss b))) (\<lambda>recreate.
      and_then (state_of (obsolete_sources (map bs_key ss) recreate)) (\<lambda>obsolete. ?rest recreate obsolete))"
  have "unchained {} (snd (?half b))" if b: "unchained {} b" for b
  proof -
    let ?rec = "recreate_closure ss (changed_sources ss b)"
    let ?obs = "obsolete_sources (map bs_key ss) ?rec b"
    let ?b = "fold (forget_source (map bs_key ss)) ?obs b"
    have half: "?half b = and_then (apply_sources w ss nodes ?rec ?obs) (\<lambda>_. done_with ?rec) ?b"
      by (simp add: and_then_def state_of_def change_state_def)
    have "keeps_unchained (set ?rec) (and_then (apply_sources w ss nodes ?rec ?obs) (\<lambda>_. done_with ?rec))"
      by (intro unchained_and_then apply_unchained unchained_base)
    with forget_unchained[of b ?rec "map bs_key ss"] b show ?thesis
      unfolding half unchained_empty keeps_unchained_def using unchained_rasters by blast
  qed
  then have half: "keeps_unchained {} ?half" by (simp add: keeps_unchained_def)
  have check: "keeps_unchained {} (for_each (check_source w) ss)"
    by (rule unchained_keeps[OF keeps_each[OF keeps_updates(5)]])
  have sync: "keeps_unchained {} (sync_pane_contexts w ss nodes)" by (rule unchained_keeps[OF keeps_contexts])
  show ?thesis
    unfolding reconcile_def
    by (rule unchained_and_then[OF check], rule unchained_and_then[OF sync], rule half)
qed

lemma fresh_rasters: "rasters_ok (fresh_bridge fs root)"
  by (simp add: rasters_ok_def chain_ok_def fresh_bridge_def)

lemma connected_rasters:
  assumes "connect_outer w = Inr b"
  shows "rasters_ok b"
proof -
  from assms obtain f fs root where f: "f = fresh_bridge fs root" and o: "observe_session w f = (Inr (), b)"
    by (auto simp: connect_outer_def split: option.splits prod.splits sum.splits)
  have "keeps_chains (observe_session w)" unfolding observe_session_def by (auto intro!: chain_keepers)
  then have "chains_of (snd (observe_session w f)) = chains_of f"
    unfolding keeps_chains_def by (rule spec)
  then have "chains_of b = chains_of f" unfolding o by simp
  from rasters_ok_cong[OF this] show ?thesis unfolding f using fresh_rasters by simp
qed

lemma replacement_rasters: "keeps_unchained {} (replacement w' ss nodes)"
proof -
  have "rasters_ok (snd (replacement w' ss nodes b))" if b: "rasters_ok b" for b
  proof (cases "connect_outer w'")
    case (Inl why)
    with b show ?thesis by (simp add: replacement_def)
  next
    case (Inr fresh)
    obtain r b1 where r: "reconcile w' ss nodes fresh = (r, b1)" by fastforce
    then have ok: "rasters_ok b1"
      using reconcile_rasters[of w' ss nodes] connected_rasters[OF Inr]
      unfolding keeps_unchained_def unchained_empty by (metis snd_conv)
    have "rasters_ok (b1\<lparr>br_instance := n\<rparr>)" for n
      using rasters_ok_cong[of "b1\<lparr>br_instance := n\<rparr>" b1] ok by (simp add: chains_of_def)
    with Inr r b show ?thesis by (cases r) (simp_all add: replacement_def)
  qed
  then show ?thesis by (simp add: keeps_unchained_def unchained_empty)
qed

lemma keeps_pausing: "keeps_chains (\<lambda>b. (Inr (), snd (pause_playing_sources w (map snd (br_active b)) b)))"
proof -
  have "chains_of (snd (pause_playing_sources w ss b)) = chains_of b" for ss b
    using keeps_updates(6)[of w ss] by (simp add: keeps_chains_def)
  then show ?thesis by (simp add: keeps_chains_def)
qed

lemma replace_rasters: "keeps_unchained {} (replace_session w w' ss nodes)"
  unfolding replace_session_def
  by (rule unchained_and_then[OF unchained_base(3)], rule unchained_and_then[OF unchained_keeps[OF keeps_pausing]],
      rule replacement_rasters)

lemma rebuild_rasters:
  fixes w :: "('b, 'c) outer_world"
  shows "keeps_unchained {} (rebuild w w' ss nodes)"
proof -
  let ?again = "and_then (\<lambda>b. (Inr (), snd (pause_playing_sources w (map snd (br_active b)) b)))
      (\<lambda>_. replacement w' ss nodes)"
  have again: "keeps_unchained {} ?again"
    by (rule unchained_and_then[OF unchained_keeps[OF keeps_pausing]], rule replacement_rasters)
  have "keeps_unchained {} (\<lambda>b. case reconcile w ss nodes b of
      (Inr recreated, b') \<Rightarrow> (Inr recreated, b') | (Inl _, b') \<Rightarrow> ?again b')"
    unfolding keeps_unchained_def
  proof (intro allI impI)
    fix b :: "'c bridge" assume b: "unchained {} b"
    obtain r b1 where r: "reconcile w ss nodes b = (r, b1)" by fastforce
    with b have "unchained {} b1"
      using reconcile_rasters[of w ss nodes] unfolding keeps_unchained_def by (metis snd_conv)
    with r again show "unchained {} (snd (case reconcile w ss nodes b of
        (Inr recreated, b') \<Rightarrow> (Inr recreated, b') | (Inl _, b') \<Rightarrow> ?again b'))"
      by (cases r) (simp_all add: keeps_unchained_def)
  qed
  then show ?thesis unfolding rebuild_def by (intro unchained_and_then[OF unchained_base(3)])
qed

section \<open>Along a session\<close>

lemma map_of_filter_key:
  "map_of (filter (\<lambda>e. P (fst e)) m) k = (if P k then map_of m k else None)"
  by (induction m) auto

lemma full_frames_rasters:
  assumes "rasters_ok b"
  shows "rasters_ok (snd (take_full_frame_requests us b))"
proof -
  define K where "K = set (sort_key id (remdups (br_needs_full b @ own_sources us b)))"
  let ?b = "snd (take_full_frame_requests us b)"
  have same: "br_raster_chains ?b = filter (\<lambda>e. fst e \<notin> K) (br_raster_chains b)"
    "br_source_ids ?b = br_source_ids b" "last_raster k ?b = last_raster k b" for k
    by (simp_all add: take_full_frame_requests_def Let_def K_def last_raster_def)
  have chains: "map_of (br_raster_chains ?b) k = (if k \<notin> K then map_of (br_raster_chains b) k else None)" for k
    unfolding same(1) by (rule map_of_filter_key)
  from assms show ?thesis
    unfolding rasters_ok_def chain_ok_def chains same(2,3) by (simp del: split_paired_All)
qed

lemma losses_chains: "chains_of (fold lose_outer_source ks b) = chains_of b"
proof (induction ks arbitrary: b)
  case (Cons k ks)
  have "chains_of (lose_outer_source k b) = chains_of b" by (simp add: lose_outer_source_def chains_of_def)
  with Cons[of "lose_outer_source k b"] show ?case by simp
qed simp

lemma chunk_rasters:
  assumes "rasters_ok b" and "media_chunk fmt d k rt offset tot final bs now b = (res, b')"
  shows "rasters_ok b'"
proof -
  from assms(1) have ok: "chain_ok b" by (simp add: rasters_ok_def)
  note step = chunk_extends_chain[OF ok assms(2)]
  from step consider "chains_of b' = chains_of b"
    | "map_of (br_source_ids b) k \<noteq> None" "frame_sent fmt k (pb_bytes (pending_for k rt tot b) @ bs) b b'" by blast
  then show ?thesis
  proof cases
    case 1
    from rasters_ok_cong[OF this] assms(1) show ?thesis by simp
  next
    case 2
    have "map_of (br_raster_chains b') k' = None" if none: "map_of (br_source_ids b') k' = None" for k'
    proof -
      from 2(2) have own: "br_source_ids b' = br_source_ids b" by (auto simp: frame_sent_def)
      with none 2(1) have "k' \<noteq> k" by auto
      with 2(2) have "map_of (br_raster_chains b') k' = map_of (br_raster_chains b) k'"
        unfolding frame_sent_def by blast
      with assms(1) none own show ?thesis unfolding rasters_ok_def by metis
    qed
    with step show ?thesis unfolding rasters_ok_def by blast
  qed
qed

lemma unchained_rule: "keeps_unchained {} m \<Longrightarrow> rasters_ok b \<Longrightarrow> m b = (r, b') \<Longrightarrow> rasters_ok b'"
  unfolding keeps_unchained_def unchained_empty by (metis snd_conv)

lemma chains_rule: "keeps_chains m \<Longrightarrow> rasters_ok b \<Longrightarrow> m b = (r, b') \<Longrightarrow> rasters_ok b'"
  using unchained_rule unchained_keeps by blast

lemma serve_rasters:
  assumes "serve_session e b = Some b'" and "rasters_ok b"
  shows "rasters_ok b'"
proof (cases e)
  case (Rebuild w w' ss nodes)
  with assms unchained_rule[OF rebuild_rasters] show ?thesis by (auto simp: completed_Some)
next
  case (ReplaceSession w w' ss nodes)
  with assms unchained_rule[OF replace_rasters] show ?thesis by (auto simp: completed_Some)
next
  case (UpdateNodes w nodes)
  with assms chains_rule[OF keeps_updates(4)] show ?thesis by (auto simp: completed_Some)
next
  case (UpdatePlayback w old ss)
  with assms chains_rule[OF keeps_playing(6)] show ?thesis by (auto simp: completed_Some)
next
  case (WriterTurn w k)
  then have "chains_of b' = chains_of b"
    using assms(1) by (auto simp: run_media_writer_def chains_of_def split: option.splits prod.splits)
  from rasters_ok_cong[OF this] assms(2) show ?thesis by simp
next
  case ProjectionApplied
  then have "chains_of b' = chains_of b"
    using assms(1) by (auto simp: completed_def mark_projection_applied_def Let_def chains_of_def)
  from rasters_ok_cong[OF this] assms(2) show ?thesis by simp
next
  case (MediaChunk fmt d k rt offset tot final bs now)
  obtain res b1 where c: "media_chunk fmt d k rt offset tot final bs now b = (res, b1)" by fastforce
  with assms(1) MediaChunk have "b' = b1" by simp
  with chunk_rasters[OF assms(2) c] show ?thesis by simp
next
  case (TakesFullFrames us)
  with assms full_frames_rasters[of b us] show ?thesis by auto
next
  case (TakesLosses us)
  then have "chains_of b' = chains_of b"
    using assms(1) losses_chains by (auto simp: take_source_losses_of_def)
  from rasters_ok_cong[OF this] assms(2) show ?thesis by simp
next
  case TakesCompletions
  then have "chains_of b' = chains_of b"
    using assms(1) by (auto simp: take_media_completions_def chains_of_def)
  from rasters_ok_cong[OF this] assms(2) show ?thesis by simp
qed

lemma start_rasters:
  assumes "start_session st = Some b"
  shows "rasters_ok b"
proof (cases st)
  case (Connects w)
  with assms connected_rasters show ?thesis by (auto split: sum.splits)
next
  case (Replaces w w' ss nodes c)
  with assms obtain rec c1 where "replacement w' ss nodes c1 = (Inr rec, b)"
    by (auto simp: completed_Some replace_session_def and_then_Inr simple_Inr)
  then obtain b0 b1 n where new: "connect_outer w' = Inr b0"
    and r: "reconcile w' ss nodes b0 = (Inr rec, b1)" "b = b1\<lparr>br_instance := n\<rparr>"
    by (auto simp: replacement_def split: option.splits prod.splits sum.splits)
  from unchained_rule[OF reconcile_rasters connected_rasters[OF new] r(1)] have "rasters_ok b1" .
  with rasters_ok_cong[of b b1] r(2) show ?thesis by (simp add: chains_of_def)
qed

lemma session_run_rasters: "run_ops serve_session es b = Some b' \<Longrightarrow> rasters_ok b \<Longrightarrow> rasters_ok b'"
proof (induction es arbitrary: b)
  case (Cons e es)
  then show ?case using serve_rasters by (auto split: option.splits)
qed simp

text \<open>
  C4. The outgoing raster chain never breaks. In any session, whatever has happened since it was started, a
  chunk of media changes the numbers and chains of the raster sources only by completing a body that the
  writer of its source takes; and that body is the whole one received, either a full frame under the next
  number, or a delta under the next number that names as its base exactly the frame the writer took
  before it, and which there is. What the format, the damage budget or a full queue refuses leaves every
  chain where it was.
\<close>

theorem raster_frames_extend_the_chain:
  assumes "start_session st = Some b\<^sub>0" and "run_ops serve_session es b\<^sub>0 = Some b"
    and "media_chunk fmt d k rt offset tot final bs now b = (res, b')"
  shows "br_raster_chains b' = br_raster_chains b \<and> br_raster_ids b' = br_raster_ids b \<or>
    res = Inr True \<and> final \<and> frame_sent fmt k (pb_bytes (pending_for k rt tot b) @ bs) b b'"
proof -
  have "chain_ok b"
    using session_run_rasters[OF assms(2) start_rasters[OF assms(1)]] by (simp add: rasters_ok_def)
  from chunk_extends_chain[OF this assms(3)] show ?thesis by (auto simp: chains_of_def)
qed

text \<open>A full frame for the raster source of the example session.\<close>

definition whole_frames :: raster_formats where
  "whole_frames =
     \<lparr>rf_is_delta = \<lambda>_. False,
      rf_parse_full = \<lambda>_. Some \<lparr>ff_epoch = 3, ff_id = 9, ff_pts = 0, ff_duration = 0, ff_width = 4, ff_height = 2\<rparr>,
      rf_parse_delta = \<lambda>_ _ _ _. None, rf_delta_body = \<lambda>_ _ _ _ _ _ _ _ _ _. None,
      rf_raw_length = \<lambda>_ _. None, rf_raw_or_zstd = 1\<rparr>"

abbreviation frame_chunk :: "(unit, bool) talk" where
  "frame_chunk \<equiv> media_chunk whole_frames 5 (1, 7) RasterRecord 0 16 True (replicate 16 0) 0"

lemmas chunk_defs = media_chunk_def collect_chunk_def pending_for_def sat_add64_def finish_body_def drop_pending_def
  raster_noted_def is_raster_kind_def send_raster_def last_raster_def reoriginate_raster_def whole_frames_def
  restart_chain_def reoriginated_full_raster_def write_slice_def be64_def queue_write_def media_writer_queue_def
  commit_frame_def Let_def

lemma example_frame:
  "case start_session (Connects example_outer) of
     None \<Rightarrow> False
   | Some b\<^sub>0 \<Rightarrow>
       map_option (\<lambda>b. (last_raster (1, 7) b, fst (frame_chunk b), last_raster (1, 7) (snd (frame_chunk b))))
         (run_ops serve_session [first_snapshot] b\<^sub>0) = Some (0, Inr True, 1)"
  by (simp add: example_defs talk_defs session_defs chunk_defs)

theorem raster_frames_extend_the_chain_witness:
  "\<exists>b\<^sub>0 b b'. start_session (Connects example_outer) = Some b\<^sub>0 \<and> run_ops serve_session [first_snapshot] b\<^sub>0 = Some b \<and>
     frame_chunk b = (Inr True, b') \<and>
     frame_sent whole_frames (1, 7) (pb_bytes (pending_for (1, 7) RasterRecord 16 b) @ replicate 16 0) b b'"
proof -
  from example_frame obtain b0 b where b: "start_session (Connects example_outer) = Some b0"
    "run_ops serve_session [first_snapshot] b0 = Some b" "last_raster (1, 7) b = 0" "fst (frame_chunk b) = Inr True"
    "last_raster (1, 7) (snd (frame_chunk b)) = 1"
    by (auto split: option.splits simp del: start_session.simps)
  then obtain b' where c: "frame_chunk b = (Inr True, b')" by (metis prod.collapse)
  with b(5) have "last_raster (1, 7) b' = 1" by simp
  then have "br_raster_ids b' \<noteq> br_raster_ids b" using b(3) by (auto simp: last_raster_def)
  with raster_frames_extend_the_chain[OF b(1,2) c] b(1,2) c show ?thesis by blast
qed

end
