(* ===== verification/Spec2Isabelle.thy ===== *)
theory Spec2Isabelle
  imports Region Client_Input Ipc_Codec Session_Findings Session_Frames Media_Damage Media_Findings
    Control_Correct Bridge_Frames
begin

text \<open>
  A verification library for vvmux, a terminal multiplexer written in Rust. A server process holds
  sessions; a session is one actor that owns tabs of panes, each with a terminal emulator over a
  PTY. A client process attaches to a session over a socket: it turns the keys of the host terminal
  into actions and draws the frames it receives.

  The parts and the theories that model them:

  \<^item> Pane layout (\<open>src/src/layout.rs\<close>). \<open>Geometry\<close>: rectangles and directional focus.
    \<open>Floating\<close>: \<open>FloatingLayer\<close>, its bottom-to-top list with ordinary floats below pinned ones,
    and every operation on rectangles. \<open>Tiled\<close>: \<open>TiledNode\<close> with placing, splitting, closing and
    resizing. \<open>Tiled_Fit\<close>: when a tree of weights fits an area, so that placing it cannot panic.
  \<^item> Visible regions (\<open>src/src/region.rs\<close>). \<open>Region\<close>: subtraction of fixed-point rectangles,
    ordering and coalescing.
  \<^item> Pane terminal (\<open>src/vvmux-terminal/src/lib.rs\<close>). \<open>Cells\<close>, \<open>Terminal_Ops\<close>: cells, grids,
    history and the screen operations. \<open>Terminal_Handler\<close>: the calls of the escape parser.
    \<open>Marker_Scanner\<close>: the scanner that takes media markers out of the byte stream, and \<open>feed\<close>.
    \<open>Terminal_Text\<close>: text extraction. \<open>Terminal_Correct\<close>: the invariant of the terminal.
  \<^item> Client input (\<open>src/src/client_input.rs\<close>). \<open>Client_Input\<close>: prefix chords, pointer reports and the
    keys of the float-edit mode, byte by byte.
  \<^item> IPC (\<open>src/src/ipc.rs\<close>). \<open>Ipc_Types\<close>, \<open>Ipc_Codec\<close>: the messages' values, the preface, numbered
    records, chunked media and render bodies.
  \<^item> The session actor (\<open>src/src/session.rs\<close>), which calls all of the above. \<open>Session_Tabs\<close>: tabs,
    focus, what a tab shows, fragment ids. \<open>Session_Actor\<close>: the record \<open>session\<close> (the fields of
    \<open>SessionActor\<close>), relayout and the operations it is entangled with. \<open>Session_Copy\<close>: input, copy
    mode, paste. \<open>Session_Pointer\<close>: \<open>mouse\<close> and its drags. \<open>Session_Handlers\<close>: actions, float-edit
    mode, PTY output, client attachment, automation commands, and \<open>session_step\<close>, one event.
    \<open>Session_Tab_Correct\<close>, \<open>Session_Invariant\<close>, \<open>Session_Cycle\<close>, \<open>Session_Correct\<close> and
    \<open>Session_Safety\<close> build the invariant and its preservation; \<open>Session_Properties\<close>, \<open>Session_View\<close>
    and \<open>Session_Findings\<close> state the properties, on the runs of \<open>Session_Examples\<close>.
  \<^item> The compositor (\<open>src/src/screen.rs\<close>). \<open>Text_Encoding\<close>: UTF-8. \<open>Screen\<close>: the frame buffer, the
    drawing operations and the difference that is sent to the host terminal. \<open>Screen_Correct\<close>: a
    model of that host, and what it shows after the difference.
  \<^item> Rendering (\<open>render\<close>, \<open>compose\<close> and the loop of \<open>src/src/session.rs\<close>). \<open>Session_Render\<close>: the frame
    composed from a session, the gate of unacknowledged frames, and one turn of the actor's loop.
    \<open>Session_Frames\<close>: the gate's invariant along every run of the loop.
  \<^item> Projection of media nodes (\<open>project_media\<close> and \<open>visible_regions\<close> of \<open>src/src/session.rs\<close>).
    \<open>Media_Scene\<close>: nodes, their geometry and the scene a pane's program committed. \<open>Session_Media\<close>:
    the nodes that are shown, each cut to the visible part of its pane. \<open>Media_View\<close>: what the
    projection guarantees.
  \<^item> The media service (\<open>src/src/media.rs\<close>), the inner Vivid server that the programs in the panes
    talk to. \<open>Media_Raster\<close>: raster updates, deltas and damage, and what \<open>Media_Damage\<close> shows of them.
    \<open>Media_State\<close>: the records of \<open>State\<close>, with producers, sources, transactions and waits.
    \<open>Media_Credit\<close>: the credit of a source, its deliveries and the bridge's queue. \<open>Media_Service\<close>:
    the operations, \<open>Media_Ingest\<close>: video and raster records coming in. \<open>Media_Ledger\<close>: the account of
    a source's credit, \<open>Media_Limits\<close>: the invariant \<open>media_ok\<close> and its preservation, \<open>Media_Correct\<close>:
    one event of the service and its runs, \<open>Media_Shown\<close>: a snapshot of the service composed with
    the session's projection, \<open>Media_Findings\<close>: the runs that go wrong.
  \<^item> The outer bridge (\<open>src/src/bridge.rs\<close>), through which an attached client shows the media of a
    session in the Vivid presenter outside. \<open>Bridge_Control\<close>: \<open>ControlDispatcher\<close>, the state that the
    reader, the heartbeat, the media writers and the worker share, and what each does to it.
    \<open>Control_Correct\<close>: the runs of these threads. \<open>Bridge_State\<close>: the fields of \<open>OuterBridge\<close>, the
    conversation with the presenter (\<open>and_then\<close> is \<open>?\<close>), the node transaction. \<open>Bridge_Sources\<close>: media
    writers, creating, playing, pausing and ending sources. \<open>Bridge_Sync\<close>: \<open>reconcile\<close>, pane contexts,
    \<open>rebuild\<close> and \<open>replace_session\<close>. \<open>Bridge_Media\<close>: the chunks of a delivery on their way to a writer, and
    the numbering and chaining of raster frames. \<open>Bridge_Presenter\<close>, \<open>Bridge_Reconcile\<close> and \<open>Bridge_Agrees\<close>: a
    presenter that refuses ill-formed requests, what each step tells it, and the agreement of snapshot,
    bridge and presenter after a completed reconciliation. \<open>Bridge_Chain\<close> and \<open>Bridge_Frames\<close>: the raster
    chains, in a step and along every run of a session.
\<close>

text \<open>
  Conventions. A Rust operation is a function on explicit state. \<open>None\<close> as the result of an operation
  is a panic (a failed index, \<open>clamp\<close> with crossed bounds, arithmetic the code relies on); errors
  the code returns are sums or the code's own options. Machine integers are \<open>nat\<close> or \<open>int\<close> with the
  wrapping, saturating and checked operations of \<open>Prelude\<close> where the code uses them, and words in
  the codec. Pane and tab numbers are unbounded; the code counts them up in 64 bits. A \<open>BTreeMap\<close> is
  a list sorted by key. What the actor sends to its client, its PTYs and the media service is the
  list \<open>outbox\<close>.

  Parameters. The record \<open>world\<close> is the environment of an event: whether a shell starts, whether a PTY
  takes a size or input, the vte parser (any function from bytes to handler calls) and the
  character width table. JSON is a pair of functions of which only the round trip is assumed, where
  it is needed. Time enters as numbers.

  Bounds. \<open>resize_all\<close> recurses through \<open>close_pane\<close>: a PTY that refuses its size has its pane closed,
  and closing lays out again. Its depth argument \<open>resize_fuel\<close> is the number of panes plus one for a
  drag and one for a float-edit mode; every turn of the cycle removes one of these, so it suffices
  (\<open>relayout_returns\<close>), and a larger one changes nothing. No other operation is bounded.
\<close>

text \<open>
  What the lemmas show. Each component has an invariant kept by each of its operations, and from it
  that no operation panics: \<open>layer_wf\<close> for the floating layer, \<open>tree_fits\<close> for the tiled tree,
  \<open>term_ok\<close> for a terminal, \<open>session_ok\<close> for the session. The locale \<open>safe_machine\<close> states once that
  such a step function runs safely; it is interpreted for the float layer, the terminal, the
  session actor and the actor's loop with rendering (\<open>actor_loop\<close>). The locale \<open>layout_cycle\<close> states what the operations around \<open>resize_all\<close> need of
  the inner relayout; it is used at every depth of the recursion and interpreted on the real one
  (\<open>core\<close>). The locales of \<open>Prelude\<close> for stream scanners give the independence of fragmentation for
  the input parser and the marker scanner.

  The session's invariant says that the panes shown in the tabs are exactly the panes with a
  terminal, each once; that every tab has a pane and focuses, zooms and remembers its own; that trees
  and floats fit the content area; and that the tree a boundary drag keeps has the tab's panes.
  Some events can break it or panic, and \<open>admits\<close> says when they do not: a host shrunk below what
  its trees need, a split of a pane one cell wide, a resize key or drag that starves a nested
  pane, an automation split during a boundary drag, a press that ends a float-edit mode whose
  relayout closes panes. \<open>Session_Findings\<close> and the error theorems of the other theories hold the
  runs in which the code does not do what it means to.

  The compositor is related to a host terminal that shows what it is sent: \<open>host_shows_frame\<close> says
  that the difference of two frames turns a host showing the one into a host showing the other, for
  frames in which every wide glyph is followed by its own continuation (\<open>screen_paired\<close>). The lemmas
  on half glyphs show what happens to frames that are not of this form, and that the code makes them.

  The media service keeps an account for each source: a record is taken exactly within the
  outstanding credit, and what comes back never exceeds what went out (\<open>credit_conserved\<close>); the
  limits the service promises hold along every run (\<open>media_within_limits\<close>, through
  \<open>safe_machine\<close>).

  The control connection keeps \<open>dispatcher_ok\<close> along every run of its threads (through
  \<open>safe_machine\<close>): an open request, an abandoned one and a reply that waits never share a number, and
  the unanswered probes lie 15 seconds apart. From it, a reply reaches its request
  (\<open>replies_reach_their_requests\<close>) and silence closes the connection within a bounded time
  (\<open>silent_presenter_is_closed\<close>). The bridge's session is related to the presenter's state by
  \<open>session_agrees\<close>; \<open>rebuilt_session_shows_snapshot\<close> says that a snapshot brought out with success is
  what the presenter holds (the presenter destroys nothing on its own there), and
  \<open>raster_frames_extend_the_chain\<close> that a delta always names the frame before it. What the other side does -- which requests are taken, which replies come
  and when -- is the record \<open>outer_world\<close>, arbitrary in the theorems; of the protocol crate's check of
  a snapshot only \<open>rejects_aliases\<close> is assumed.

  Not modelled: of the outer bridge, its transports and the handshake (its outcome is a parameter); of the media service, its connections, handshake, tickets, clocks, status queries,
  descriptor updates and metrics; the client's terminal and socket handling; automation queries
  and waiters, the gateway, the parsing of the configuration, the runtime directory, sockets,
  threads and the platform layer, which are input and output or rest on crates outside the
  repository. The prefix that Windows puts before a bracketed paste and the lossy decoding of a
  clipboard that is not UTF-8 are left out of \<open>paste\<close>.
\<close>

end
